(* ===== verification/Prelude.thy ===== *)
theory Prelude
  imports Complex_Main "HOL-Library.Multiset" "HOL-Library.Sublist"
begin

text \<open>
  Shared ground of the EventLens development: the outcome type of the HTTP-facing services,
  the JavaScript arithmetic the services use, the list operations that stand for SQL
  statements on one table, and two interfaces as locales.

  \<^item> \<open>row_update\<close>: an update of rows that keeps the primary key keeps the table's keys and
    changes exactly the addressed row. Every repository's \<open>update\<close> interprets it.
  \<^item> \<open>invariant_system\<close>: a labelled step relation with an invariant that holds at the start
    and is kept by each step; it then holds in every reachable state.
\<close>

section \<open>Collections of facts\<close>

named_theorems table_simps \<open>equations on the SQL-like table operations\<close>
named_theorems repo_defs \<open>definitions of the repository operations\<close>
named_theorems frame_simps \<open>fields that an operation leaves alone\<close>

section \<open>Names of the model's types\<close>

type_synonym uuid = string
type_synonym ms = int           \<comment> \<open>a JavaScript \<^verbatim>\<open>Date\<close> as milliseconds since the epoch\<close>
type_synonym bytes = int

section \<open>Errors and outcomes\<close>

text \<open>
  The exceptions the services throw. \<open>ServerError\<close> is an uncaught \<^verbatim>\<open>Error\<close> (HTTP 500, or a
  failed attempt of a queue job).
\<close>

datatype http_error =
    BadRequest string
  | Unauthorized string
  | Forbidden string
  | NotFound string
  | Gone string bool            \<comment> \<open>message and the \<^verbatim>\<open>purged\<close> flag of the 410 body\<close>
  | TooManyRequests string
  | PayloadTooLarge string
  | ServerError string

type_synonym 'a outcome = "http_error + 'a"

fun is_ok :: "'a outcome \<Rightarrow> bool" where
  "is_ok (Inl _) = False"
| "is_ok (Inr _) = True"

lemma is_ok_iff: "is_ok r \<longleftrightarrow> (\<exists>x. r = Inr x)"
  by (cases r) auto

section \<open>JavaScript arithmetic\<close>

text \<open>
  \<^verbatim>\<open>Math.round\<close> rounds half up. On a quotient of two integers with a positive divisor it is
  an integer division, which is how the services use it (milliseconds to seconds, to minutes).
\<close>

definition js_round :: "real \<Rightarrow> int" where
  "js_round x = \<lfloor>x + 1 / 2\<rfloor>"

definition round_div :: "int \<Rightarrow> int \<Rightarrow> int" where
  "round_div a b = (2 * a + b) div (2 * b)"

lemma round_div_js_round:
  assumes "0 < b"
  shows "round_div a b = js_round (real_of_int a / real_of_int b)"
proof -
  have "real_of_int a / real_of_int b + 1 / 2 = real_of_int (2 * a + b) / real_of_int (2 * b)"
    using assms by (simp add: field_simps)
  then have "js_round (real_of_int a / real_of_int b)
      = \<lfloor>real_of_int (2 * a + b) / real_of_int (2 * b)\<rfloor>"
    by (simp only: js_round_def)
  then show ?thesis
    by (simp only: round_div_def floor_divide_of_int_eq)
qed

lemma round_div_nonneg: "0 \<le> a \<Longrightarrow> 0 < b \<Longrightarrow> 0 \<le> round_div a b"
  by (simp add: round_div_def pos_imp_zdiv_nonneg_iff)

lemma round_div_mono: "a \<le> a' \<Longrightarrow> 0 < b \<Longrightarrow> round_div a b \<le> round_div a' b"
  by (simp add: round_div_def zdiv_mono1)

text \<open>\<^verbatim>\<open>x ?? d\<close> on a nullable value.\<close>

definition or_default :: "'a option \<Rightarrow> 'a \<Rightarrow> 'a" where
  "or_default x d = (case x of None \<Rightarrow> d | Some v \<Rightarrow> v)"

lemma or_default_simps [simp]: "or_default None d = d" "or_default (Some v) d = v"
  by (simp_all add: or_default_def)

text \<open>\<^verbatim>\<open>xs.reduce((max, x) => Math.max(max, x), 0)\<close> over the non-null ages.\<close>

fun max_from :: "int \<Rightarrow> int list \<Rightarrow> int" where
  "max_from m [] = m"
| "max_from m (x # xs) = max_from (max m x) xs"

lemma max_from_le_iff: "max_from m xs \<le> b \<longleftrightarrow> m \<le> b \<and> (\<forall>x \<in> set xs. x \<le> b)"
  by (induction xs arbitrary: m) auto

lemma max_from_ge: "m \<le> max_from m xs"
  using max_from_le_iff [of m xs "max_from m xs"] by simp

lemma max_from_upper: "x \<in> set xs \<Longrightarrow> x \<le> max_from m xs"
  using max_from_le_iff [of m xs "max_from m xs"] by simp

fun somes :: "'a option list \<Rightarrow> 'a list" where
  "somes [] = []"
| "somes (None # xs) = somes xs"
| "somes (Some x # xs) = x # somes xs"

lemma set_somes: "set (somes xs) = {x. Some x \<in> set xs}"
  by (induction xs rule: somes.induct) auto

section \<open>Tables\<close>

text \<open>
  A table is the list of its rows. \<^verbatim>\<open>UPDATE .. SET f WHERE p\<close>, \<^verbatim>\<open>DELETE .. WHERE p\<close> and
  \<^verbatim>\<open>SELECT .. WHERE p LIMIT 1\<close> are the three functions below; a \<^verbatim>\<open>SELECT\<close> of all rows is
  \<open>filter\<close> and an \<^verbatim>\<open>INSERT\<close> appends.
\<close>

definition update_where :: "('r \<Rightarrow> bool) \<Rightarrow> ('r \<Rightarrow> 'r) \<Rightarrow> 'r list \<Rightarrow> 'r list" where
  "update_where p f rs = map (\<lambda>r. if p r then f r else r) rs"

definition delete_where :: "('r \<Rightarrow> bool) \<Rightarrow> 'r list \<Rightarrow> 'r list" where
  "delete_where p rs = filter (\<lambda>r. \<not> p r) rs"

definition select_first :: "('r \<Rightarrow> bool) \<Rightarrow> 'r list \<Rightarrow> 'r option" where
  "select_first p rs = List.find p rs"

lemma update_where_Nil [simp, table_simps]: "update_where p f [] = []"
  by (simp add: update_where_def)

lemma update_where_Cons [simp, table_simps]:
  "update_where p f (r # rs) = (if p r then f r else r) # update_where p f rs"
  by (simp add: update_where_def)

lemma delete_where_Nil [simp, table_simps]: "delete_where p [] = []"
  by (simp add: delete_where_def)

lemma delete_where_Cons [simp, table_simps]:
  "delete_where p (r # rs) = (if p r then delete_where p rs else r # delete_where p rs)"
  by (simp add: delete_where_def)

lemma select_first_Nil [simp, table_simps]: "select_first p [] = None"
  by (simp add: select_first_def)

lemma select_first_Cons [simp, table_simps]:
  "select_first p (r # rs) = (if p r then Some r else select_first p rs)"
  by (simp add: select_first_def)

lemma set_delete_where [simp]: "set (delete_where p rs) = {r \<in> set rs. \<not> p r}"
  by (auto simp: delete_where_def)

lemma set_update_where: "set (update_where p f rs) = (\<lambda>r. if p r then f r else r) ` set rs"
  by (simp add: update_where_def)

lemma length_update_where [simp]: "length (update_where p f rs) = length rs"
  by (simp add: update_where_def)

lemma update_where_append [table_simps]:
  "update_where p f (xs @ ys) = update_where p f xs @ update_where p f ys"
  by (simp add: update_where_def)

lemma update_where_id: "(\<And>r. r \<in> set rs \<Longrightarrow> \<not> p r) \<Longrightarrow> update_where p f rs = rs"
  by (induction rs) auto

lemma select_first_SomeD: "select_first p rs = Some r \<Longrightarrow> r \<in> set rs \<and> p r"
  by (induction rs) (auto split: if_splits)

lemma select_first_None_iff: "select_first p rs = None \<longleftrightarrow> (\<forall>r \<in> set rs. \<not> p r)"
  by (induction rs) auto

lemma select_first_append:
  "select_first p (xs @ ys) = (case select_first p xs of None \<Rightarrow> select_first p ys | Some r \<Rightarrow> Some r)"
  by (induction xs) auto

lemma select_first_cong: "(\<And>r. r \<in> set rs \<Longrightarrow> p r = q r) \<Longrightarrow> select_first p rs = select_first q rs"
  by (induction rs) auto

lemma select_first_narrow:
  "select_first p rs = Some r \<Longrightarrow> q r \<Longrightarrow> (\<And>x. q x \<Longrightarrow> p x) \<Longrightarrow> select_first q rs = Some r"
  by (induction rs) (auto split: if_splits)

lemma select_first_delete_where:
  "select_first p (delete_where q rs) = select_first (\<lambda>r. p r \<and> \<not> q r) rs"
  by (induction rs) auto

lemma select_first_update_where:
  "(\<And>r. p (f r) = p r) \<Longrightarrow>
    select_first p (update_where q f rs) = map_option (\<lambda>r. if q r then f r else r) (select_first p rs)"
  by (induction rs) auto

lemma filter_update_where:
  "(\<And>r. p (f r) = p r) \<Longrightarrow>
    filter p (update_where q f rs) = update_where q f (filter p rs)"
  by (induction rs) auto

subsection \<open>Combining statements\<close>

lemma update_where_hit: "r \<in> set rs \<Longrightarrow> p r \<Longrightarrow> f r \<in> set (update_where p f rs)"
  by (induction rs) auto

lemma update_where_cong:
  "(\<And>r. r \<in> set rs \<Longrightarrow> p r = q r \<and> (p r \<longrightarrow> f r = g r)) \<Longrightarrow> update_where p f rs = update_where q g rs"
  by (simp add: update_where_def)

lemma update_where_twice:
  "(\<And>r. r \<in> set rs \<Longrightarrow> p (f r) = p r) \<Longrightarrow> (\<And>r. r \<in> set rs \<Longrightarrow> q r \<Longrightarrow> p r \<Longrightarrow> g (f r) = g r) \<Longrightarrow>
   (\<And>r. r \<in> set rs \<Longrightarrow> q r \<Longrightarrow> \<not> p r \<Longrightarrow> f r = g r) \<Longrightarrow>
   update_where p g (update_where q f rs) = update_where (\<lambda>r. q r \<or> p r) g rs"
  by (induction rs) auto

lemma update_where_fuse:
  "(\<And>r. r \<in> set rs \<Longrightarrow> p r \<Longrightarrow> p (f r)) \<Longrightarrow> update_where p g (update_where p f rs) = update_where p (\<lambda>r. g (f r)) rs"
  by (induction rs) auto

lemma select_first_by_key:
  "distinct (map k rs) \<Longrightarrow> r \<in> set rs \<Longrightarrow> select_first (\<lambda>x. k x = k r) rs = Some r"
  by (induction rs) (auto simp: image_iff)

lemma delete_where_ids:
  assumes "distinct (map k rs)" "\<And>r. r \<in> set rs \<Longrightarrow> x r \<longleftrightarrow> p r"
  shows "delete_where (\<lambda>r. k r \<in> set (map k (filter p rs))) rs = filter (\<lambda>r. \<not> x r) rs"
proof -
  have "k r \<in> k ` {r \<in> set rs. p r} \<longleftrightarrow> p r" if "r \<in> set rs" for r
    using assms(1) that by (auto simp: distinct_map inj_on_def)
  then show ?thesis unfolding delete_where_def using assms(2) by (intro filter_cong) auto
qed

subsection \<open>Updates that keep the primary key\<close>

locale row_update =
  fixes rid :: "'r \<Rightarrow> 'k" and upd :: "'r \<Rightarrow> 'r"
  assumes rid_upd: "rid (upd r) = rid r"
begin

lemma keys_kept: "map rid (update_where p upd rs) = map rid rs"
  by (induction rs) (auto simp: rid_upd)

lemma distinct_kept: "distinct (map rid (update_where p upd rs)) = distinct (map rid rs)"
  by (simp add: keys_kept)

lemma lookup_hit:
  "select_first (\<lambda>r. rid r = k) rs = Some r \<Longrightarrow>
    select_first (\<lambda>r. rid r = k) (update_where (\<lambda>r. rid r = k) upd rs) = Some (upd r)"
  by (simp add: select_first_update_where rid_upd) (auto dest: select_first_SomeD)

lemma lookup_miss:
  "k' \<noteq> k \<Longrightarrow>
    select_first (\<lambda>r. rid r = k') (update_where (\<lambda>r. rid r = k) upd rs)
      = select_first (\<lambda>r. rid r = k') rs"
  by (induction rs) (auto simp: rid_upd)

lemma lookup_absent:
  "select_first (\<lambda>r. rid r = k) rs = None \<Longrightarrow> update_where (\<lambda>r. rid r = k) upd rs = rs"
  by (auto simp: select_first_None_iff intro: update_where_id)

end

section \<open>Orderings of the lists\<close>

lemma sort_two_levels:
  "sort_key (\<lambda>n. if p n then 0 else 1 :: nat) xs = filter p xs @ filter (\<lambda>n. \<not> p n) xs"
proof (rule properties_for_sort_key)
  show "mset (filter p xs @ filter (\<lambda>n. \<not> p n) xs) = mset xs" by (simp add: multiset_partition [symmetric])
next
  fix k assume "k \<in> set (filter p xs @ filter (\<lambda>n. \<not> p n) xs)"
  show "filter (\<lambda>x. (if p k then 0 else 1 :: nat) = (if p x then 0 else 1)) (filter p xs @ filter (\<lambda>n. \<not> p n) xs)
      = filter (\<lambda>x. (if p k then 0 else 1 :: nat) = (if p x then 0 else 1)) xs"
    by (cases "p k") (auto intro: filter_cong)
next
  have "map (\<lambda>n. if p n then 0 else 1 :: nat) (filter p xs) = replicate (length (filter p xs)) 0"
    "map (\<lambda>n. if p n then 0 else 1 :: nat) (filter (\<lambda>n. \<not> p n) xs) = replicate (length (filter (\<lambda>n. \<not> p n) xs)) 1"
    by (induction xs) auto
  then show "sorted (map (\<lambda>n. if p n then 0 else 1 :: nat) (filter p xs @ filter (\<lambda>n. \<not> p n) xs))"
    by (simp add: sorted_append)
qed

lemma newest_first:
  fixes f :: "'a \<Rightarrow> int"
  shows "sorted_wrt (\<lambda>a b. f b \<le> f a) (filter p (sort_key (\<lambda>n. - f n) xs))"
proof -
  have "sorted (map (\<lambda>n. - f n) (sort_key (\<lambda>n. - f n) xs))" by (rule sorted_sort_key)
  then have "sorted_wrt (\<lambda>a b. f b \<le> f a) (sort_key (\<lambda>n. - f n) xs)" by (simp add: sorted_map)
  then show ?thesis by (rule sorted_wrt_filter)
qed

section \<open>Keyset pages\<close>

text \<open>
  A query that pages through sorted keys: the keys behind the last one seen, up to a limit. Each page
  shrinks what is left, and what is left behind a page is the rest of the list.
\<close>

definition after_id :: "'a :: linorder option \<Rightarrow> 'a \<Rightarrow> bool" where
  "after_id afterId i \<longleftrightarrow> (case afterId of None \<Rightarrow> True | Some a \<Rightarrow> a < i)"

lemma filter_after_last:
  assumes "sorted_wrt (<) (xs :: 'a :: linorder list)" "take n xs \<noteq> []"
  shows "filter (\<lambda>y. last (take n xs) < y) xs = drop n xs"
proof -
  let ?p = "take n xs" and ?q = "drop n xs"
  have s: "sorted_wrt (<) (?p @ ?q)" using assms(1) by simp
  have "sorted_wrt (<) (butlast ?p @ [last ?p])" using s assms(2) by (simp add: sorted_wrt_append)
  then have "y < last ?p" if "y \<in> set (butlast ?p)" for y using that by (simp add: sorted_wrt_append)
  moreover have "set ?p = set (butlast ?p @ [last ?p])" using assms(2) by simp
  ultimately have "\<not> last ?p < y" if "y \<in> set ?p" for y using that by fastforce
  moreover have "last ?p < y" if "y \<in> set ?q" for y
    using s that last_in_set [OF assms(2)] unfolding sorted_wrt_append by blast
  ultimately have "filter (\<lambda>y. last ?p < y) (?p @ ?q) = ?q"
    by (simp add: filter_empty_conv filter_id_conv del: append_take_drop_id)
  then show ?thesis by simp
qed

lemma after_id_twice:
  assumes "l \<in> set (filter (after_id a) xs)"
  shows "filter (after_id (Some l)) xs = filter (after_id (Some l)) (filter (after_id a) xs)"
  using assms by (auto simp: after_id_def filter_filter split: option.splits intro!: filter_cong)

lemma keyset_shrinks:
  assumes "page = take n (filter (after_id a) xs)" "page \<noteq> []"
  shows "length (filter (after_id (Some (last page))) xs) < length (filter (after_id a) xs)"
proof -
  have l: "last page \<in> set (filter (after_id a) xs)"
    using last_in_set [OF assms(2)] unfolding assms(1) by (rule in_set_takeD)
  have "length (filter (after_id (Some (last page))) (filter (after_id a) xs)) < length (filter (after_id a) xs)"
    using l by (intro length_filter_less) (auto simp: after_id_def)
  then show ?thesis by (simp only: after_id_twice [OF l])
qed

lemma keyset_rest:
  assumes "sorted_wrt (<) xs" "take n (filter (after_id a) xs) \<noteq> []"
  shows "filter (after_id (Some (last (take n (filter (after_id a) xs))))) xs = drop n (filter (after_id a) xs)"
proof -
  let ?xs = "filter (after_id a) xs"
  have l: "last (take n ?xs) \<in> set ?xs" using last_in_set [OF assms(2)] by (rule in_set_takeD)
  have "after_id (Some b) = (\<lambda>y. b < y)" for b :: 'a by (simp add: fun_eq_iff after_id_def)
  then show ?thesis
    unfolding after_id_twice [OF l] using filter_after_last [OF _ assms(2)] assms(1) by (simp add: sorted_wrt_filter)
qed

section \<open>Invariants of step relations\<close>

inductive reachable :: "('s \<Rightarrow> bool) \<Rightarrow> ('s \<Rightarrow> 'l \<Rightarrow> 's \<Rightarrow> bool) \<Rightarrow> 's \<Rightarrow> bool"
  for start :: "'s \<Rightarrow> bool" and step :: "'s \<Rightarrow> 'l \<Rightarrow> 's \<Rightarrow> bool" where
  reach_start: "start s \<Longrightarrow> reachable start step s"
| reach_step: "reachable start step s \<Longrightarrow> step s l t \<Longrightarrow> reachable start step t"

locale invariant_system =
  fixes start :: "'s \<Rightarrow> bool"
    and step :: "'s \<Rightarrow> 'l \<Rightarrow> 's \<Rightarrow> bool"
    and inv :: "'s \<Rightarrow> bool"
  assumes inv_start: "start s \<Longrightarrow> inv s"
    and inv_step: "inv s \<Longrightarrow> step s l t \<Longrightarrow> inv t"
begin

lemma reachable_inv: "reachable start step s \<Longrightarrow> inv s"
  by (induction rule: reachable.induct) (auto intro: inv_start inv_step)

end

end
