(* ===== verification/Enums.thy ===== *)
theory Enums
  imports Prelude
begin

text \<open>
  The enumerations and constant tables of \<^verbatim>\<open>enum.ts\<close> and \<^verbatim>\<open>types.ts\<close>. A constructor carries
  its enum's name, since several enums share member names (\<^verbatim>\<open>Active\<close>, \<^verbatim>\<open>Failed\<close>, \<^verbatim>\<open>Done\<close>).
  A \<^verbatim>\<open>JobItem\<close> is a constructor named after the job, applied to the payload.
\<close>

section \<open>Roles, queues and jobs\<close>

datatype WorkerRole = WorkerRole_Api | WorkerRole_Ingest | WorkerRole_Media

datatype QueueName =
    QueueName_MediaProcess | QueueName_VideoTranscode | QueueName_FaceDetection
  | QueueName_FacialRecognition | QueueName_SmartSearch | QueueName_PersonThumbnail
  | QueueName_Selfie | QueueName_Import | QueueName_Match | QueueName_Notification
  | QueueName_StorageCleanup | QueueName_Background

definition all_queues :: "QueueName list" where
  "all_queues =
    [QueueName_MediaProcess, QueueName_VideoTranscode, QueueName_FaceDetection,
     QueueName_FacialRecognition, QueueName_SmartSearch, QueueName_PersonThumbnail,
     QueueName_Selfie, QueueName_Import, QueueName_Match, QueueName_Notification,
     QueueName_StorageCleanup, QueueName_Background]"

lemma set_all_queues [simp]: "set all_queues = UNIV"
proof -
  have "q \<in> set all_queues" for q :: QueueName
    by (cases q) (simp_all add: all_queues_def)
  then show ?thesis by blast
qed

datatype JobItem =
    AssetProcess uuid | VideoTranscode uuid | FaceDetect uuid
  | FaceRecognize uuid bool           \<comment> \<open>\<^verbatim>\<open>deferred\<close>, absent is \<^verbatim>\<open>False\<close>\<close>
  | FaceRecognizeQueueAll uuid bool   \<comment> \<open>\<^verbatim>\<open>force\<close>\<close>
  | SmartSearch uuid | SmartSearchQueueAll uuid bool
  | PersonThumbnail uuid | SelfieProcess uuid
  | ImportFolder uuid | ImportFile uuid
  | ParticipantRematch uuid | ParticipantMatchSweep
  | SendSelfieReceived uuid | SendGalleryEmail uuid | SendDigest uuid | SendNoFaceEmail uuid
  | CleanupKeys "string list" | CleanupPrefix string
  | SelfieRetentionSweep | StagingSweep | SessionCleanup | StorageReconcile
  | PersonCleanup | PersonNameBackfill
  | SendEventExpiry uuid | EventExpirySweep | EventPurgeSweep
  | GpuLifecycleSweep | AuditRetentionSweep

datatype JobStatus = JobStatus_Success | JobStatus_Failed | JobStatus_Skipped

text \<open>\<^verbatim>\<open>QUEUE_ROLES\<close>, \<^verbatim>\<open>QUEUE_CONCURRENCY\<close>, \<^verbatim>\<open>QUEUE_RETRY\<close>.\<close>

fun QUEUE_ROLES :: "QueueName \<Rightarrow> WorkerRole" where
  "QUEUE_ROLES QueueName_MediaProcess = WorkerRole_Media"
| "QUEUE_ROLES QueueName_VideoTranscode = WorkerRole_Media"
| "QUEUE_ROLES QueueName_FaceDetection = WorkerRole_Media"
| "QUEUE_ROLES QueueName_FacialRecognition = WorkerRole_Ingest"
| "QUEUE_ROLES QueueName_SmartSearch = WorkerRole_Media"
| "QUEUE_ROLES QueueName_PersonThumbnail = WorkerRole_Media"
| "QUEUE_ROLES QueueName_Selfie = WorkerRole_Media"
| "QUEUE_ROLES QueueName_Import = WorkerRole_Ingest"
| "QUEUE_ROLES QueueName_Match = WorkerRole_Ingest"
| "QUEUE_ROLES QueueName_Notification = WorkerRole_Ingest"
| "QUEUE_ROLES QueueName_StorageCleanup = WorkerRole_Ingest"
| "QUEUE_ROLES QueueName_Background = WorkerRole_Ingest"

fun QUEUE_CONCURRENCY :: "QueueName \<Rightarrow> nat" where
  "QUEUE_CONCURRENCY QueueName_MediaProcess = 4"
| "QUEUE_CONCURRENCY QueueName_VideoTranscode = 1"
| "QUEUE_CONCURRENCY QueueName_FaceDetection = 6"
| "QUEUE_CONCURRENCY QueueName_FacialRecognition = 1"
| "QUEUE_CONCURRENCY QueueName_SmartSearch = 2"
| "QUEUE_CONCURRENCY QueueName_PersonThumbnail = 2"
| "QUEUE_CONCURRENCY QueueName_Selfie = 2"
| "QUEUE_CONCURRENCY QueueName_Import = 4"
| "QUEUE_CONCURRENCY QueueName_Match = 1"
| "QUEUE_CONCURRENCY QueueName_Notification = 2"
| "QUEUE_CONCURRENCY QueueName_StorageCleanup = 2"
| "QUEUE_CONCURRENCY QueueName_Background = 2"

fun QUEUE_RETRY :: "QueueName \<Rightarrow> nat \<times> ms" where
  "QUEUE_RETRY QueueName_MediaProcess = (3, 30000)"
| "QUEUE_RETRY QueueName_VideoTranscode = (3, 30000)"
| "QUEUE_RETRY QueueName_FaceDetection = (3, 30000)"
| "QUEUE_RETRY QueueName_FacialRecognition = (3, 10000)"
| "QUEUE_RETRY QueueName_SmartSearch = (3, 30000)"
| "QUEUE_RETRY QueueName_PersonThumbnail = (3, 30000)"
| "QUEUE_RETRY QueueName_Selfie = (3, 30000)"
| "QUEUE_RETRY QueueName_Import = (5, 30000)"
| "QUEUE_RETRY QueueName_Match = (3, 30000)"
| "QUEUE_RETRY QueueName_Notification = (3, 60000)"
| "QUEUE_RETRY QueueName_StorageCleanup = (3, 60000)"
| "QUEUE_RETRY QueueName_Background = (3, 60000)"

record JobCounts =
  jc_active :: int
  jc_completed :: int
  jc_failed :: int
  jc_delayed :: int
  jc_waiting :: int
  jc_paused :: int

section \<open>Domain enums\<close>

datatype OrgRole = OrgRole_Owner | OrgRole_Admin | OrgRole_Member
datatype OrgStatus = OrgStatus_Active | OrgStatus_Suspended
datatype EventStatus = EventStatus_Draft | EventStatus_Active | EventStatus_Closed
datatype AssetType = AssetType_Image | AssetType_Video
datatype AssetStatus = AssetStatus_Staged | AssetStatus_Stored | AssetStatus_Processed | AssetStatus_Failed
datatype AssetSource = AssetSource_Upload | AssetSource_GDrive | AssetSource_OneDrive
datatype AssetFileType = AssetFileType_Preview | AssetFileType_Thumbnail | AssetFileType_EncodedVideo
datatype FaceSourceType = FaceSourceType_MachineLearning
datatype ParticipantStatus =
  ParticipantStatus_Processing | ParticipantStatus_NoFace
| ParticipantStatus_PendingMatch | ParticipantStatus_Matched
datatype OrgPlan = OrgPlan_Starter | OrgPlan_Pro | OrgPlan_Enterprise
datatype AuditRetention = AuditRetention_SameDay | AuditRetention_ThirtyDays | AuditRetention_Never
datatype AuditLevel = AuditLevel_Info | AuditLevel_Warning | AuditLevel_Error
datatype AuditCategory =
  AuditCategory_Subscription | AuditCategory_Gpu | AuditCategory_Job | AuditCategory_Auth
| AuditCategory_Organization | AuditCategory_Event | AuditCategory_Retention | AuditCategory_System
datatype CloudProvider = CloudProvider_GDrive | CloudProvider_OneDrive
datatype ImportJobStatus =
  ImportJobStatus_Listing | ImportJobStatus_Importing | ImportJobStatus_Done
| ImportJobStatus_Failed | ImportJobStatus_Cancelled
datatype ImportItemStatus =
  ImportItemStatus_Pending | ImportItemStatus_Downloading | ImportItemStatus_Done
| ImportItemStatus_SkippedDuplicate | ImportItemStatus_Failed
datatype EmailTemplate =
  EmailTemplate_SelfieReceived | EmailTemplate_GalleryReady | EmailTemplate_GalleryUpdate
| EmailTemplate_NoFaceDetected | EmailTemplate_EventExpired
datatype EmailStatus =
  EmailStatus_Queued | EmailStatus_Sent | EmailStatus_Delivered
| EmailStatus_Bounced | EmailStatus_Complained | EmailStatus_Failed
datatype SupportSource = SupportSource_Organization | SupportSource_Public
datatype SupportStatus = SupportStatus_Open | SupportStatus_Resolved

subsection \<open>Plan limits\<close>

record PlanLimits =
  pl_storageBytes :: bytes
  pl_events :: int

definition GB :: bytes where
  "GB = 1024 * 1024 * 1024"

fun PLAN_LIMITS :: "OrgPlan \<Rightarrow> PlanLimits" where
  "PLAN_LIMITS OrgPlan_Starter = \<lparr>pl_storageBytes = 2 * GB, pl_events = 1\<rparr>"
| "PLAN_LIMITS OrgPlan_Pro = \<lparr>pl_storageBytes = 10 * GB, pl_events = 5\<rparr>"
| "PLAN_LIMITS OrgPlan_Enterprise = \<lparr>pl_storageBytes = 50 * GB, pl_events = 10\<rparr>"

subsection \<open>Audit retention classes\<close>

fun AUDIT_DEFAULT_RETENTION :: "AuditCategory \<Rightarrow> AuditRetention" where
  "AUDIT_DEFAULT_RETENTION AuditCategory_Auth = AuditRetention_Never"
| "AUDIT_DEFAULT_RETENTION AuditCategory_Organization = AuditRetention_Never"
| "AUDIT_DEFAULT_RETENTION AuditCategory_Event = AuditRetention_Never"
| "AUDIT_DEFAULT_RETENTION AuditCategory_Retention = AuditRetention_Never"
| "AUDIT_DEFAULT_RETENTION AuditCategory_Subscription = AuditRetention_Never"
| "AUDIT_DEFAULT_RETENTION AuditCategory_Gpu = AuditRetention_ThirtyDays"
| "AUDIT_DEFAULT_RETENTION AuditCategory_Job = AuditRetention_ThirtyDays"
| "AUDIT_DEFAULT_RETENTION AuditCategory_System = AuditRetention_SameDay"

subsection \<open>The order of the organization roles\<close>

text \<open>
  \<^verbatim>\<open>ROLE_ORDER\<close> of \<^verbatim>\<open>auth.service.ts\<close>: member < admin < owner. The type class instance
  makes the comparison of the guard a comparison of a linear order.
\<close>

fun ROLE_ORDER :: "OrgRole \<Rightarrow> nat" where
  "ROLE_ORDER OrgRole_Member = 0"
| "ROLE_ORDER OrgRole_Admin = 1"
| "ROLE_ORDER OrgRole_Owner = 2"

lemma ROLE_ORDER_inj: "ROLE_ORDER a = ROLE_ORDER b \<longleftrightarrow> a = b"
  by (cases a; cases b) simp_all

instantiation OrgRole :: linorder
begin

definition less_eq_OrgRole :: "OrgRole \<Rightarrow> OrgRole \<Rightarrow> bool" where
  "less_eq_OrgRole a b \<longleftrightarrow> ROLE_ORDER a \<le> ROLE_ORDER b"

definition less_OrgRole :: "OrgRole \<Rightarrow> OrgRole \<Rightarrow> bool" where
  "less_OrgRole a b \<longleftrightarrow> ROLE_ORDER a < ROLE_ORDER b"

instance
  by standard (auto simp: less_eq_OrgRole_def less_OrgRole_def ROLE_ORDER_inj)

end

lemma OrgRole_least: "OrgRole_Member \<le> r"
  by (cases r) (simp_all add: less_eq_OrgRole_def)

lemma OrgRole_greatest: "r \<le> OrgRole_Owner"
  by (cases r) (simp_all add: less_eq_OrgRole_def)

end
