(* ===== verification/Schema.thy ===== *)
theory Schema
  imports Enums
begin

text \<open>
  The database as \<^verbatim>\<open>schema/index.ts\<close> declares it, one record per table, and the state the
  services share: the tables, the two system-config rows of the GPU box, the jobs handed to the
  queues (oldest first), the keys of the stored R2 objects and the files of the staging folder.

  Field names carry a prefix for their table. Hashes and ciphertexts (\<^verbatim>\<open>Buffer\<close>) and vector
  literals are strings, timestamps are milliseconds, pixel boxes and distances are reals.
  Columns no modelled operation reads or writes (EXIF, thumbhash, device text) are left out.
\<close>

section \<open>Accounts\<close>

record user_row =
  u_id :: uuid
  u_email :: string
  u_password :: string
  u_name :: string
  u_isSuperAdmin :: bool
  u_updatedAt :: ms
  u_deletedAt :: "ms option"

record session_row =
  s_id :: uuid
  s_userId :: uuid
  s_token :: string
  s_deviceOs :: string
  s_deviceType :: string
  s_expiresAt :: "ms option"

record reset_row =
  rt_id :: uuid
  rt_userId :: uuid
  rt_token :: string
  rt_expiresAt :: ms
  rt_usedAt :: "ms option"
  rt_createdBy :: "uuid option"

record org_row =
  o_id :: uuid
  o_name :: string
  o_slug :: string
  o_status :: OrgStatus
  o_plan :: OrgPlan
  o_storageLimitBytes :: "bytes option"
  o_eventLimit :: "int option"
  o_createdBy :: "uuid option"
  o_createdAt :: ms
  o_updatedAt :: ms
  o_deletedAt :: "ms option"

record orguser_row =
  ou_orgId :: uuid
  ou_userId :: uuid
  ou_role :: OrgRole
  ou_createdAt :: ms

section \<open>Events and media\<close>

record EventConfig =
  ec_matchMaxDistance :: "real option"
  ec_minScore :: "real option"
  ec_minFaces :: "nat option"

record event_row =
  e_id :: uuid
  e_orgId :: uuid
  e_name :: string
  e_slug :: string
  e_description :: "string option"
  e_startsAt :: "ms option"
  e_endsAt :: "ms option"
  e_status :: EventStatus
  e_participantPageEnabled :: bool
  e_config :: EventConfig
  e_participantsSeeAllPhotos :: bool
  e_participantsCanDownloadAll :: bool
  e_coverAssetId :: "uuid option"
  e_expiresAt :: "ms option"
  e_expiryNotifiedAt :: "ms option"
  e_expiryAcknowledgedAt :: "ms option"
  e_purgeAfter :: "ms option"
  e_purgedAt :: "ms option"
  e_createdAt :: ms
  e_updatedAt :: ms
  e_deletedAt :: "ms option"

record asset_row =
  a_id :: uuid
  a_eventId :: uuid
  a_orgId :: uuid
  a_type :: AssetType
  a_originalFilename :: string
  a_checksum :: string
  a_fileSize :: bytes
  a_mimeType :: string
  a_status :: AssetStatus
  a_source :: AssetSource
  a_storageKey :: string
  a_capturedAt :: "ms option"
  a_createdAt :: ms
  a_deletedAt :: "ms option"
  a_facesDetectedAt :: "ms option"
  a_faceCount :: nat

record assetfile_row =
  af_assetId :: uuid
  af_type :: AssetFileType
  af_storageKey :: string

section \<open>Faces, people, participants\<close>

record face_row =
  f_id :: uuid
  f_assetId :: uuid
  f_personId :: "uuid option"
  f_imageWidth :: real
  f_imageHeight :: real
  f_boundingBoxX1 :: real
  f_boundingBoxY1 :: real
  f_boundingBoxX2 :: real
  f_boundingBoxY2 :: real
  f_sourceType :: FaceSourceType
  f_deletedAt :: "ms option"

record facesearch_row =
  fs_faceId :: uuid
  fs_embedding :: string

record smartsearch_row =
  ss_assetId :: uuid
  ss_embedding :: string

record person_row =
  p_id :: uuid
  p_eventId :: uuid
  p_orgId :: uuid
  p_name :: string
  p_nameSetAt :: "ms option"
  p_nameSource :: string
  p_faceAssetFaceId :: "uuid option"
  p_thumbnailKey :: string
  p_isHidden :: bool
  p_updatedAt :: ms

record participant_row =
  pt_id :: uuid
  pt_eventId :: uuid
  pt_email :: string
  pt_name :: string
  pt_selfieKey :: "string option"
  pt_selfieEmbedding :: "string option"
  pt_phone :: "string option"
  pt_galleryTokenHash :: string
  pt_galleryTokenEnc :: "string option"
  pt_status :: ParticipantStatus
  pt_notifiedFirstAt :: "ms option"
  pt_lastNotifiedAt :: "ms option"
  pt_galleryOpenedAt :: "ms option"
  pt_awaitingResultNotice :: bool
  pt_createdAt :: ms
  pt_updatedAt :: ms
  pt_deletedAt :: "ms option"

record selfie_row =
  sf_id :: uuid
  sf_participantId :: uuid
  sf_ordinal :: nat
  sf_storageKey :: string
  sf_embedding :: "string option"

record match_row =
  m_participantId :: uuid
  m_assetId :: uuid
  m_viaFaceId :: "uuid option"
  m_distance :: real
  m_createdAt :: ms

section \<open>Cloud import\<close>

record cloudaccount_row =
  ca_id :: uuid
  ca_orgId :: uuid
  ca_provider :: CloudProvider
  ca_accountEmail :: string
  ca_refreshTokenEnc :: string
  ca_accessTokenEnc :: "string option"
  ca_tokenExpiresAt :: "ms option"
  ca_revokedAt :: "ms option"

record importjob_row =
  ij_id :: uuid
  ij_eventId :: uuid
  ij_orgId :: uuid
  ij_cloudAccountId :: uuid
  ij_provider :: CloudProvider
  ij_folderRemoteId :: string
  ij_folderName :: string
  ij_recursive :: bool
  ij_status :: ImportJobStatus
  ij_totalFiles :: int
  ij_doneFiles :: int
  ij_skippedFiles :: int
  ij_failedFiles :: int
  ij_error :: "string option"
  ij_createdBy :: "uuid option"
  ij_createdAt :: ms
  ij_finishedAt :: "ms option"

record importitem_row =
  ii_id :: uuid
  ii_importJobId :: uuid
  ii_eventId :: uuid
  ii_provider :: CloudProvider
  ii_remoteId :: string
  ii_remoteName :: string
  ii_remoteSize :: "bytes option"
  ii_remoteChecksum :: "string option"
  ii_status :: ImportItemStatus
  ii_assetId :: "uuid option"
  ii_error :: "string option"
  ii_updatedAt :: ms

section \<open>Logs\<close>

record emaillog_row =
  el_id :: uuid
  el_eventId :: "uuid option"
  el_participantId :: "uuid option"
  el_toEmail :: string
  el_template :: EmailTemplate
  el_status :: EmailStatus
  el_messageId :: "string option"
  el_error :: "string option"
  el_createdAt :: ms
  el_sentAt :: "ms option"
  el_statusAt :: "ms option"

record supportticket_row =
  st_id :: uuid
  st_source :: SupportSource
  st_orgId :: "uuid option"
  st_userId :: "uuid option"
  st_eventId :: "uuid option"
  st_name :: "string option"
  st_email :: "string option"
  st_message :: string
  st_status :: SupportStatus
  st_createdAt :: ms
  st_resolvedAt :: "ms option"

text \<open>The display texts \<^verbatim>\<open>message\<close> and \<^verbatim>\<open>detail\<close> of an audit row are not modelled.\<close>

record audit_row =
  al_createdAt :: ms
  al_category :: AuditCategory
  al_retention :: AuditRetention
  al_level :: AuditLevel
  al_action :: string
  al_orgId :: "uuid option"
  al_userId :: "uuid option"

section \<open>System configuration\<close>

record FacialRecognitionConfig =
  fr_modelName :: string
  fr_minScore :: real
  fr_maxDistance :: real
  fr_minFaces :: nat

definition FACIAL_RECOGNITION_DEFAULTS :: FacialRecognitionConfig where
  "FACIAL_RECOGNITION_DEFAULTS =
    \<lparr>fr_modelName = ''buffalo_l'', fr_minScore = 7 / 10, fr_maxDistance = 1 / 2, fr_minFaces = 1\<rparr>"

record EventRetentionConfig =
  er_purgeGraceHours :: int

definition EVENT_RETENTION_DEFAULTS :: EventRetentionConfig where
  "EVENT_RETENTION_DEFAULTS = \<lparr>er_purgeGraceHours = 24\<rparr>"

datatype GpuProvider = webhook | jarvislabs

record GpuAutostartConfig =
  gc_enabled :: bool
  gc_provider :: GpuProvider
  gc_pendingThreshold :: int
  gc_maxPendingAgeMinutes :: int
  gc_idleShutdownMinutes :: int
  gc_startTimeoutMinutes :: int
  gc_startWebhookUrl :: string
  gc_stopWebhookUrl :: string
  gc_webhookAuthHeader :: string
  gc_jarvislabsMachineId :: string
  gc_jarvislabsGpuType :: string

definition GPU_AUTOSTART_DEFAULTS :: GpuAutostartConfig where
  "GPU_AUTOSTART_DEFAULTS =
    \<lparr>gc_enabled = False, gc_provider = webhook, gc_pendingThreshold = 25,
     gc_maxPendingAgeMinutes = 120, gc_idleShutdownMinutes = 10, gc_startTimeoutMinutes = 20,
     gc_startWebhookUrl = '''', gc_stopWebhookUrl = '''', gc_webhookAuthHeader = '''',
     gc_jarvislabsMachineId = '''', gc_jarvislabsGpuType = ''''\<rparr>"

datatype GpuState = Gpu_off | Gpu_starting | Gpu_running | Gpu_stopping

record GpuLifecycleState =
  gs_state :: GpuState
  gs_since :: ms
  gs_holdUntil :: "ms option"
  gs_idleSince :: "ms option"
  gs_lastStartedAt :: "ms option"
  gs_lastStoppedAt :: "ms option"
  gs_lastError :: "string option"
  gs_machineId :: "string option"

definition GPU_LIFECYCLE_INITIAL :: GpuLifecycleState where
  "GPU_LIFECYCLE_INITIAL =
    \<lparr>gs_state = Gpu_off, gs_since = 0, gs_holdUntil = None, gs_idleSince = None,
     gs_lastStartedAt = None, gs_lastStoppedAt = None, gs_lastError = None, gs_machineId = None\<rparr>"

section \<open>The shared state\<close>

record world =
  users :: "user_row list"
  sessions :: "session_row list"
  passwordResetTokens :: "reset_row list"
  organizations :: "org_row list"
  organizationUsers :: "orguser_row list"
  events :: "event_row list"
  assets :: "asset_row list"
  assetFiles :: "assetfile_row list"
  assetFaces :: "face_row list"
  faceSearches :: "facesearch_row list"
  smartSearches :: "smartsearch_row list"
  persons :: "person_row list"
  participants :: "participant_row list"
  participantSelfies :: "selfie_row list"
  participantMatches :: "match_row list"
  cloudAccounts :: "cloudaccount_row list"
  importJobs :: "importjob_row list"
  importItems :: "importitem_row list"
  emailLogs :: "emaillog_row list"
  supportTickets :: "supportticket_row list"
  auditLogs :: "audit_row list"
  facialRecognition :: "FacialRecognitionConfig option"
  eventRetention :: "EventRetentionConfig option"
  gpuAutostart :: "GpuAutostartConfig option"
  gpuLifecycle :: "GpuLifecycleState option"
  queued :: "JobItem list"
  objects :: "string list"
  staging :: "string list"

definition empty_world :: world where
  "empty_world =
    \<lparr>users = [], sessions = [], passwordResetTokens = [], organizations = [],
     organizationUsers = [], events = [], assets = [], assetFiles = [], assetFaces = [],
     faceSearches = [], smartSearches = [], persons = [], participants = [], participantSelfies = [],
     participantMatches = [], cloudAccounts = [], importJobs = [], importItems = [],
     emailLogs = [], supportTickets = [], auditLogs = [], facialRecognition = None, eventRetention = None,
     gpuAutostart = None, gpuLifecycle = None, queued = [], objects = [], staging = []\<rparr>"

subsection \<open>Reading the configuration rows\<close>

text \<open>
  \<^verbatim>\<open>{ ...DEFAULTS, ...stored }\<close>: both writers of these rows store the whole object, so a stored
  row replaces every default.
\<close>

definition getFacialRecognitionConfig :: "world \<Rightarrow> FacialRecognitionConfig" where
  "getFacialRecognitionConfig w = or_default (facialRecognition w) FACIAL_RECOGNITION_DEFAULTS"

definition getEventRetentionConfig :: "world \<Rightarrow> EventRetentionConfig" where
  "getEventRetentionConfig w = or_default (eventRetention w) EVENT_RETENTION_DEFAULTS"

definition getGpuAutostartConfig :: "world \<Rightarrow> GpuAutostartConfig" where
  "getGpuAutostartConfig w = or_default (gpuAutostart w) GPU_AUTOSTART_DEFAULTS"

definition getGpuLifecycleState :: "world \<Rightarrow> GpuLifecycleState" where
  "getGpuLifecycleState w = or_default (gpuLifecycle w) GPU_LIFECYCLE_INITIAL"

definition setGpuLifecycleState :: "GpuLifecycleState \<Rightarrow> world \<Rightarrow> world" where
  "setGpuLifecycleState st w = w\<lparr>gpuLifecycle := Some st\<rparr>"

lemma get_set_GpuLifecycleState [simp]:
  "getGpuLifecycleState (setGpuLifecycleState st w) = st"
  by (simp add: getGpuLifecycleState_def setGpuLifecycleState_def)

lemma get_GpuAutostart_set [simp]:
  "getGpuAutostartConfig (setGpuLifecycleState st w) = getGpuAutostartConfig w"
  by (simp add: getGpuAutostartConfig_def setGpuLifecycleState_def)

subsection \<open>Handing jobs to the queues\<close>

definition queueAll :: "JobItem list \<Rightarrow> world \<Rightarrow> world" where
  "queueAll items w = w\<lparr>queued := queued w @ items\<rparr>"

abbreviation queue :: "JobItem \<Rightarrow> world \<Rightarrow> world" where
  "queue item w \<equiv> queueAll [item] w"

lemma queued_queueAll [simp, frame_simps]: "queued (queueAll items w) = queued w @ items"
  by (simp add: queueAll_def)

lemma queueAll_Nil [simp]: "queueAll [] w = w"
  by (simp add: queueAll_def)

lemma queueAll_queueAll [simp]: "queueAll xs (queueAll ys w) = queueAll (ys @ xs) w"
  by (simp add: queueAll_def)

end
