(* ===== verification/AuditLog.thy ===== *)
theory AuditLog
  imports Schema
begin

text \<open>
  The audit trail: \<^verbatim>\<open>services/audit-log.service.ts\<close> over
  \<^verbatim>\<open>repositories/audit-log.repository.ts\<close>. A write never throws, the daily sweep removes rows
  by their retention class, and only a manual flush removes a never-delete row.

  \<open>db_up\<close> says whether the insert succeeds; the other services call \<open>record_entry\<close>, the case of
  a reachable database. \<open>tz\<close> is the host's offset from UTC, which \<^verbatim>\<open>setHours\<close> depends on.
\<close>

section \<open>The repository\<close>

definition audit_create :: "bool \<Rightarrow> audit_row \<Rightarrow> world \<Rightarrow> world outcome" where
  "audit_create db_up row w =
    (if db_up then Inr (w\<lparr>auditLogs := auditLogs w @ [row]\<rparr>) else Inl (ServerError ''insert failed''))"

definition audit_deleteOlderThan :: "AuditRetention \<Rightarrow> ms \<Rightarrow> world \<Rightarrow> nat \<times> world" where
  "audit_deleteOlderThan ret cutoff w =
    (let p = (\<lambda>r. al_retention r = ret \<and> al_createdAt r < cutoff)
     in (length (filter p (auditLogs w)), w\<lparr>auditLogs := delete_where p (auditLogs w)\<rparr>))"

definition audit_flush_rows :: "AuditRetention option \<Rightarrow> world \<Rightarrow> nat \<times> world" where
  "audit_flush_rows ret w =
    (let p = (\<lambda>r. case ret of None \<Rightarrow> True | Some c \<Rightarrow> al_retention r = c)
     in (length (filter p (auditLogs w)), w\<lparr>auditLogs := delete_where p (auditLogs w)\<rparr>))"

text \<open>\<^verbatim>\<open>list\<close>: newest first, the filters before the limit. Rows of equal time keep table order.\<close>

record AuditQuery =
  aq_category :: "AuditCategory option"
  aq_level :: "AuditLevel option"
  aq_limit :: nat
  aq_before :: "ms option"
  aq_after :: "ms option"

definition aq_matches :: "AuditQuery \<Rightarrow> audit_row \<Rightarrow> bool" where
  "aq_matches q r \<longleftrightarrow>
    (case aq_category q of None \<Rightarrow> True | Some c \<Rightarrow> al_category r = c) \<and>
    (case aq_level q of None \<Rightarrow> True | Some l \<Rightarrow> al_level r = l) \<and>
    (case aq_before q of None \<Rightarrow> True | Some b \<Rightarrow> al_createdAt r < b) \<and>
    (case aq_after q of None \<Rightarrow> True | Some a \<Rightarrow> a < al_createdAt r)"

definition audit_list :: "AuditQuery \<Rightarrow> world \<Rightarrow> audit_row list" where
  "audit_list q w =
    take (aq_limit q) (sort_key (\<lambda>r. - al_createdAt r) (filter (aq_matches q) (auditLogs w)))"

definition audit_countByRetention :: "AuditRetention \<Rightarrow> world \<Rightarrow> nat" where
  "audit_countByRetention ret w = length (filter (\<lambda>r. al_retention r = ret) (auditLogs w))"

fun audit_getOldest_rows :: "audit_row list \<Rightarrow> ms option" where
  "audit_getOldest_rows [] = None"
| "audit_getOldest_rows (r # rs) =
    (case audit_getOldest_rows rs of None \<Rightarrow> Some (al_createdAt r)
     | Some t \<Rightarrow> Some (min (al_createdAt r) t))"

section \<open>The service\<close>

record AuditEntry =
  ae_category :: AuditCategory
  ae_action :: string
  ae_level :: "AuditLevel option"
  ae_retention :: "AuditRetention option"
  ae_orgId :: "uuid option"
  ae_userId :: "uuid option"

definition entry_row :: "AuditEntry \<Rightarrow> ms \<Rightarrow> audit_row" where
  "entry_row e now =
    \<lparr>al_createdAt = now, al_category = ae_category e,
     al_retention = or_default (ae_retention e) (AUDIT_DEFAULT_RETENTION (ae_category e)),
     al_level = or_default (ae_level e) AuditLevel_Info, al_action = ae_action e,
     al_orgId = ae_orgId e, al_userId = ae_userId e\<rparr>"

definition record_audit :: "bool \<Rightarrow> AuditEntry \<Rightarrow> ms \<Rightarrow> world \<Rightarrow> world" where
  "record_audit db_up e now w =
    (case audit_create db_up (entry_row e now) w of Inl _ \<Rightarrow> w | Inr w' \<Rightarrow> w')"

definition recordError :: "bool \<Rightarrow> AuditEntry \<Rightarrow> ms \<Rightarrow> world \<Rightarrow> world" where
  "recordError db_up e now w = record_audit db_up (e\<lparr>ae_level := Some AuditLevel_Error\<rparr>) now w"

abbreviation mk_entry :: "AuditCategory \<Rightarrow> string \<Rightarrow> AuditLevel option \<Rightarrow> uuid option \<Rightarrow> uuid option \<Rightarrow> AuditEntry" where
  "mk_entry c act lvl org usr \<equiv>
    \<lparr>ae_category = c, ae_action = act, ae_level = lvl, ae_retention = None, ae_orgId = org, ae_userId = usr\<rparr>"

record AuditSummary =
  as_total :: nat
  as_oldest :: "ms option"
  as_sameDay :: nat
  as_thirtyDays :: nat
  as_never :: nat

definition audit_getSummary :: "world \<Rightarrow> AuditSummary" where
  "audit_getSummary w =
    \<lparr>as_total = length (auditLogs w), as_oldest = audit_getOldest_rows (auditLogs w),
     as_sameDay = audit_countByRetention AuditRetention_SameDay w,
     as_thirtyDays = audit_countByRetention AuditRetention_ThirtyDays w,
     as_never = audit_countByRetention AuditRetention_Never w\<rparr>"

definition audit_flush :: "AuditRetention option \<Rightarrow> uuid \<Rightarrow> ms \<Rightarrow> world \<Rightarrow> nat \<times> world" where
  "audit_flush ret userId now w =
    (let (removed, w') = audit_flush_rows ret w
     in (removed,
         record_audit True
           (mk_entry AuditCategory_Retention ''audit.flush'' (Some AuditLevel_Warning) None (Some userId)) now w'))"

definition DAY_MS :: ms where
  "DAY_MS = 24 * 60 * 60 * 1000"

definition THIRTY_DAYS_MS :: ms where
  "THIRTY_DAYS_MS = 30 * 24 * 60 * 60 * 1000"

definition startOfToday :: "ms \<Rightarrow> ms \<Rightarrow> ms" where
  "startOfToday tz now = ((now + tz) div DAY_MS) * DAY_MS - tz"

definition handleAuditRetentionSweep :: "ms \<Rightarrow> ms \<Rightarrow> world \<Rightarrow> JobStatus \<times> world" where
  "handleAuditRetentionSweep tz now w =
    (let (sameDay, w1) = audit_deleteOlderThan AuditRetention_SameDay (startOfToday tz now) w;
         (thirtyDays, w2) = audit_deleteOlderThan AuditRetention_ThirtyDays (now - THIRTY_DAYS_MS) w1
     in (JobStatus_Success, w2))"

section \<open>Facts about single operations\<close>

lemma startOfToday_le: "startOfToday tz now \<le> now"
  by (simp add: startOfToday_def DAY_MS_def)

lemma startOfToday_recent: "now < startOfToday tz now + DAY_MS"
proof -
  have "(now + tz) mod DAY_MS < DAY_MS" by (simp add: DAY_MS_def)
  moreover have "now + tz = (now + tz) div DAY_MS * DAY_MS + (now + tz) mod DAY_MS" by simp
  ultimately show ?thesis unfolding startOfToday_def by linarith
qed

lemma auditLogs_record [simp]:
  "auditLogs (record_audit db_up e now w) = auditLogs w @ (if db_up then [entry_row e now] else [])"
  by (simp add: record_audit_def audit_create_def)

lemma record_audit_frame [simp, frame_simps]:
  "queued (record_audit b e now w) = queued w"
  "gpuLifecycle (record_audit b e now w) = gpuLifecycle w"
  "gpuAutostart (record_audit b e now w) = gpuAutostart w"
  "organizations (record_audit b e now w) = organizations w"
  "organizationUsers (record_audit b e now w) = organizationUsers w"
  "events (record_audit b e now w) = events w"
  "assets (record_audit b e now w) = assets w"
  "users (record_audit b e now w) = users w"
  "sessions (record_audit b e now w) = sessions w"
  "passwordResetTokens (record_audit b e now w) = passwordResetTokens w"
  by (simp_all add: record_audit_def audit_create_def)

lemma recordError_frame [simp, frame_simps]:
  "queued (recordError b e now w) = queued w"
  "gpuLifecycle (recordError b e now w) = gpuLifecycle w"
  "gpuAutostart (recordError b e now w) = gpuAutostart w"
  by (simp_all add: recordError_def)

lemma getGpu_record [simp]:
  "getGpuLifecycleState (record_audit b e now w) = getGpuLifecycleState w"
  "getGpuAutostartConfig (record_audit b e now w) = getGpuAutostartConfig w"
  "getGpuLifecycleState (recordError b e now w) = getGpuLifecycleState w"
  "getGpuAutostartConfig (recordError b e now w) = getGpuAutostartConfig w"
  by (simp_all add: getGpuLifecycleState_def getGpuAutostartConfig_def)

definition swept :: "ms \<Rightarrow> ms \<Rightarrow> audit_row \<Rightarrow> bool" where
  "swept tz now r \<longleftrightarrow>
    (case al_retention r of
       AuditRetention_SameDay \<Rightarrow> al_createdAt r < startOfToday tz now
     | AuditRetention_ThirtyDays \<Rightarrow> al_createdAt r < now - THIRTY_DAYS_MS
     | AuditRetention_Never \<Rightarrow> False)"

lemma sweep_rows:
  "auditLogs (snd (handleAuditRetentionSweep tz now w)) = delete_where (swept tz now) (auditLogs w)"
  by (simp add: handleAuditRetentionSweep_def audit_deleteOlderThan_def delete_where_def Let_def)
    (rule filter_cong, auto simp: swept_def split: AuditRetention.splits)

lemma flush_rows:
  "auditLogs (snd (audit_flush ret userId now w)) =
    delete_where (\<lambda>r. case ret of None \<Rightarrow> True | Some c \<Rightarrow> al_retention r = c) (auditLogs w)
      @ [entry_row (mk_entry AuditCategory_Retention ''audit.flush'' (Some AuditLevel_Warning) None (Some userId)) now]"
  by (simp add: audit_flush_def audit_flush_rows_def Let_def)

section \<open>Sequences of operations\<close>

datatype audit_op =
    Op_record bool AuditEntry ms
  | Op_sweep ms ms
  | Op_flush "AuditRetention option" uuid ms

fun audit_step :: "audit_op \<Rightarrow> world \<Rightarrow> world" where
  "audit_step (Op_record b e now) w = record_audit b e now w"
| "audit_step (Op_sweep tz now) w = snd (handleAuditRetentionSweep tz now w)"
| "audit_step (Op_flush ret userId now) w = snd (audit_flush ret userId now w)"

fun flushes_never :: "audit_op \<Rightarrow> bool" where
  "flushes_never (Op_flush None _ _) = True"
| "flushes_never (Op_flush (Some c) _ _) = (c = AuditRetention_Never)"
| "flushes_never _ = False"

lemma audit_step_keeps_never:
  assumes "r \<in> set (auditLogs w)" "al_retention r = AuditRetention_Never" "\<not> flushes_never op"
  shows "r \<in> set (auditLogs (audit_step op w))"
  using assms
  by (cases op rule: flushes_never.cases) (auto simp: sweep_rows flush_rows swept_def)

text \<open>
  A never-delete row survives every sequence of audit writes, retention sweeps and narrower
  flushes; only a flush of everything, or of the never-delete class itself, can remove it.
\<close>

theorem never_rows_survive:
  assumes "r \<in> set (auditLogs w)" "al_retention r = AuditRetention_Never"
    and "\<forall>op \<in> set ops. \<not> flushes_never op"
  shows "r \<in> set (auditLogs (fold audit_step ops w))"
  using assms
proof (induction ops arbitrary: w)
  case Nil
  then show ?case by simp
next
  case (Cons op ops)
  then have "r \<in> set (auditLogs (audit_step op w))"
    by (intro audit_step_keeps_never) auto
  with Cons show ?case by auto
qed

definition wit_audit_row :: audit_row where
  "wit_audit_row = entry_row (mk_entry AuditCategory_Auth ''auth.login'' None None None) 5"

theorem never_rows_survive_witness:
  "wit_audit_row \<in> set (auditLogs (fold audit_step
     [Op_sweep 0 (10 * THIRTY_DAYS_MS), Op_flush (Some AuditRetention_ThirtyDays) ''u'' 7]
     (empty_world\<lparr>auditLogs := [wit_audit_row]\<rparr>)))"
  by (rule never_rows_survive) (simp_all add: wit_audit_row_def entry_row_def)

text \<open>
  The retention sweep removes exactly the rows whose class has run out: after it, no same-day
  row older than the host's midnight and no thirty-day row older than the cutoff is left, the
  surviving rows keep their order, nothing written since midnight is lost, and a second sweep at the
  same instant changes nothing.
\<close>

theorem retention_sweep_exact:
  fixes w :: world and tz now :: ms
  defines "w' \<equiv> snd (handleAuditRetentionSweep tz now w)"
  shows "auditLogs w' = filter (\<lambda>r. \<not> swept tz now r) (auditLogs w)
    \<and> (\<forall>r. r \<in> set (auditLogs w) \<and> startOfToday tz now \<le> al_createdAt r
          \<longrightarrow> r \<in> set (auditLogs w'))
    \<and> snd (handleAuditRetentionSweep tz now w') = w'"
proof -
  have rows: "auditLogs w' = delete_where (swept tz now) (auditLogs w)"
    by (simp add: w'_def sweep_rows)
  have idem: "auditLogs (snd (handleAuditRetentionSweep tz now w')) = auditLogs w'"
    by (simp add: sweep_rows rows delete_where_def)
  have frame: "snd (handleAuditRetentionSweep tz now v) =
      v\<lparr>auditLogs := auditLogs (snd (handleAuditRetentionSweep tz now v))\<rparr>" for v
    by (simp add: handleAuditRetentionSweep_def audit_deleteOlderThan_def Let_def)
  have "snd (handleAuditRetentionSweep tz now w') = w'\<lparr>auditLogs := auditLogs w'\<rparr>"
    by (subst frame) (simp only: idem)
  then have "snd (handleAuditRetentionSweep tz now w') = w'" by simp
  moreover have "\<not> swept tz now r" if "startOfToday tz now \<le> al_createdAt r" for r
    using that startOfToday_recent [of now tz]
    by (auto simp: swept_def DAY_MS_def THIRTY_DAYS_MS_def split: AuditRetention.splits)
  ultimately show ?thesis
    by (auto simp: rows delete_where_def)
qed

theorem retention_sweep_exact_witness:
  "auditLogs (snd (handleAuditRetentionSweep 0 DAY_MS (empty_world\<lparr>auditLogs := [wit_audit_row]\<rparr>)))
     = [wit_audit_row]"
  using retention_sweep_exact [of 0 DAY_MS "empty_world\<lparr>auditLogs := [wit_audit_row]\<rparr>"]
  by (simp add: wit_audit_row_def entry_row_def swept_def)

end
