(* ===== verification/Repositories.thy ===== *)
theory Repositories
  imports AuditLog
begin

text \<open>
  The SQL of the account, organization, event and asset repositories: each method is the list
  operation its statement performs, with the constraints of \<^verbatim>\<open>migrations/\<close> that decide whether
  an insert succeeds. Generated ids come in as arguments. Emails are \<^verbatim>\<open>citext\<close>, so they compare
  without case.
\<close>

section \<open>Case-insensitive text\<close>

definition lower_char :: "char \<Rightarrow> char" where
  "lower_char c = (let n = (of_char c :: nat) in if 65 \<le> n \<and> n \<le> 90 then char_of (n + 32) else c)"

definition toLowerCase :: "string \<Rightarrow> string" where
  "toLowerCase s = map lower_char s"

definition citext_eq :: "string \<Rightarrow> string \<Rightarrow> bool" where
  "citext_eq a b \<longleftrightarrow> toLowerCase a = toLowerCase b"

lemma citext_eq_refl [simp]: "citext_eq a a"
  by (simp add: citext_eq_def)

lemma citext_eq_sym: "citext_eq a b \<longleftrightarrow> citext_eq b a"
  by (auto simp: citext_eq_def)

section \<open>Users\<close>

definition user_getById :: "uuid \<Rightarrow> world \<Rightarrow> user_row option" where
  [repo_defs]: "user_getById i w = select_first (\<lambda>u. u_id u = i \<and> u_deletedAt u = None) (users w)"

definition user_getByEmail :: "string \<Rightarrow> world \<Rightarrow> user_row option" where
  [repo_defs]: "user_getByEmail e w =
     select_first (\<lambda>u. citext_eq (u_email u) e \<and> u_deletedAt u = None) (users w)"

definition user_create :: "user_row \<Rightarrow> world \<Rightarrow> user_row outcome \<times> world" where
  [repo_defs]: "user_create u w =
     (if \<exists>x \<in> set (users w). citext_eq (u_email x) (u_email u) then (Inl (ServerError ''user_email_key''), w)
      else (Inr u, w\<lparr>users := users w @ [u]\<rparr>))"

definition user_setPassword :: "uuid \<Rightarrow> string \<Rightarrow> ms \<Rightarrow> world \<Rightarrow> world" where
  [repo_defs]: "user_setPassword i pw now w =
     w\<lparr>users := update_where (\<lambda>u. u_id u = i) (\<lambda>u. u\<lparr>u_password := pw, u_updatedAt := now\<rparr>) (users w)\<rparr>"

definition user_hasAny :: "world \<Rightarrow> bool" where
  [repo_defs]: "user_hasAny w \<longleftrightarrow> users w \<noteq> []"

interpretation user_pw: row_update u_id "\<lambda>u. u\<lparr>u_password := pw, u_updatedAt := now\<rparr>" for pw now
  by unfold_locales simp

section \<open>Sessions\<close>

definition session_create :: "session_row \<Rightarrow> world \<Rightarrow> world" where
  [repo_defs]: "session_create s w = w\<lparr>sessions := sessions w @ [s]\<rparr>"

definition session_live :: "ms \<Rightarrow> session_row \<Rightarrow> bool" where
  "session_live now s \<longleftrightarrow> (case s_expiresAt s of None \<Rightarrow> True | Some t \<Rightarrow> now < t)"

definition session_getByToken :: "string \<Rightarrow> ms \<Rightarrow> world \<Rightarrow> (session_row \<times> user_row) option" where
  [repo_defs]: "session_getByToken h now w =
     (case select_first (\<lambda>s. s_token s = h \<and> session_live now s) (sessions w) of
        None \<Rightarrow> None
      | Some s \<Rightarrow> (case user_getById (s_userId s) w of None \<Rightarrow> None | Some u \<Rightarrow> Some (s, u)))"

definition session_delete :: "uuid \<Rightarrow> world \<Rightarrow> world" where
  [repo_defs]: "session_delete i w = w\<lparr>sessions := delete_where (\<lambda>s. s_id s = i) (sessions w)\<rparr>"

text \<open>\<^verbatim>\<open>exceptSessionId\<close> is falsy when absent or empty.\<close>

definition session_deleteForUser :: "uuid \<Rightarrow> uuid option \<Rightarrow> world \<Rightarrow> nat \<times> world" where
  [repo_defs]: "session_deleteForUser uid exc w =
     (let p = (\<lambda>s. s_userId s = uid \<and>
                   (case exc of None \<Rightarrow> True | Some i \<Rightarrow> i = '''' \<or> s_id s \<noteq> i))
      in (length (filter p (sessions w)), w\<lparr>sessions := delete_where p (sessions w)\<rparr>))"

definition session_deleteExpired :: "ms \<Rightarrow> world \<Rightarrow> nat \<times> world" where
  [repo_defs]: "session_deleteExpired now w =
     (let p = (\<lambda>s. case s_expiresAt s of None \<Rightarrow> False | Some t \<Rightarrow> t < now)
      in (length (filter p (sessions w)), w\<lparr>sessions := delete_where p (sessions w)\<rparr>))"

section \<open>Password reset tokens\<close>

definition reset_create :: "reset_row \<Rightarrow> world \<Rightarrow> world outcome" where
  [repo_defs]: "reset_create r w =
     (if \<exists>x \<in> set (passwordResetTokens w). rt_token x = rt_token r then Inl (ServerError ''token_key'')
      else Inr (w\<lparr>passwordResetTokens := passwordResetTokens w @ [r]\<rparr>))"

definition reset_redeemable :: "string \<Rightarrow> ms \<Rightarrow> reset_row \<Rightarrow> bool" where
  "reset_redeemable h now r \<longleftrightarrow> rt_token r = h \<and> rt_usedAt r = None \<and> now < rt_expiresAt r"

text \<open>One conditional \<^verbatim>\<open>UPDATE\<close>: the predicate and the write are one step.\<close>

definition reset_redeem :: "string \<Rightarrow> ms \<Rightarrow> world \<Rightarrow> reset_row option \<times> world" where
  [repo_defs]: "reset_redeem h now w =
     (map_option (\<lambda>r. r\<lparr>rt_usedAt := Some now\<rparr>)
        (select_first (reset_redeemable h now) (passwordResetTokens w)),
      w\<lparr>passwordResetTokens :=
          update_where (reset_redeemable h now) (\<lambda>r. r\<lparr>rt_usedAt := Some now\<rparr>) (passwordResetTokens w)\<rparr>)"

definition reset_invalidateForUser :: "uuid \<Rightarrow> ms \<Rightarrow> world \<Rightarrow> world" where
  [repo_defs]: "reset_invalidateForUser uid now w =
     w\<lparr>passwordResetTokens :=
         update_where (\<lambda>r. rt_userId r = uid \<and> rt_usedAt r = None)
           (\<lambda>r. r\<lparr>rt_usedAt := Some now\<rparr>) (passwordResetTokens w)\<rparr>"

definition reset_deleteExpired :: "ms \<Rightarrow> world \<Rightarrow> nat \<times> world" where
  [repo_defs]: "reset_deleteExpired now w =
     (let p = (\<lambda>r. rt_expiresAt r < now)
      in (length (filter p (passwordResetTokens w)),
          w\<lparr>passwordResetTokens := delete_where p (passwordResetTokens w)\<rparr>))"

interpretation reset_used: row_update rt_id "\<lambda>r. r\<lparr>rt_usedAt := Some now\<rparr>" for now
  by unfold_locales simp

section \<open>Organizations and members\<close>

definition org_getById :: "uuid \<Rightarrow> world \<Rightarrow> org_row option" where
  [repo_defs]: "org_getById i w = select_first (\<lambda>r. o_id r = i \<and> o_deletedAt r = None) (organizations w)"

definition org_getBySlug :: "string \<Rightarrow> world \<Rightarrow> org_row option" where
  [repo_defs]: "org_getBySlug s w = select_first (\<lambda>r. o_slug r = s \<and> o_deletedAt r = None) (organizations w)"

text \<open>The slug's unique constraint covers soft-deleted rows too, unlike \<^verbatim>\<open>getBySlug\<close>.\<close>

definition org_create :: "uuid \<Rightarrow> string \<Rightarrow> string \<Rightarrow> uuid \<Rightarrow> ms \<Rightarrow> world \<Rightarrow> org_row outcome \<times> world" where
  [repo_defs]: "org_create newId nm slug createdBy now w =
     (if \<exists>x \<in> set (organizations w). o_slug x = slug then (Inl (ServerError ''organization_slug_key''), w)
      else let r = \<lparr>o_id = newId, o_name = nm, o_slug = slug, o_status = OrgStatus_Active,
                    o_plan = OrgPlan_Starter, o_storageLimitBytes = None, o_eventLimit = None,
                    o_createdBy = Some createdBy, o_createdAt = now, o_updatedAt = now, o_deletedAt = None\<rparr>
           in (Inr r, w\<lparr>organizations := organizations w @ [r]\<rparr>))"

definition org_set :: "uuid \<Rightarrow> (org_row \<Rightarrow> org_row) \<Rightarrow> ms \<Rightarrow> world \<Rightarrow> world" where
  [repo_defs]: "org_set i f now w =
     w\<lparr>organizations := update_where (\<lambda>r. o_id r = i) (\<lambda>r. (f r)\<lparr>o_updatedAt := now\<rparr>) (organizations w)\<rparr>"

definition org_softDelete :: "uuid \<Rightarrow> ms \<Rightarrow> world \<Rightarrow> world" where
  [repo_defs]: "org_softDelete i now w = org_set i (\<lambda>r. r\<lparr>o_deletedAt := Some now\<rparr>) now w"

definition org_getMembership :: "uuid \<Rightarrow> uuid \<Rightarrow> world \<Rightarrow> orguser_row option" where
  [repo_defs]: "org_getMembership org uid w =
     select_first (\<lambda>m. ou_orgId m = org \<and> ou_userId m = uid) (organizationUsers w)"

text \<open>\<^verbatim>\<open>INSERT .. ON CONFLICT (org_id, user_id) DO UPDATE SET role\<close>.\<close>

definition org_addMember :: "uuid \<Rightarrow> uuid \<Rightarrow> OrgRole \<Rightarrow> ms \<Rightarrow> world \<Rightarrow> world" where
  [repo_defs]: "org_addMember org uid role now w =
     (if org_getMembership org uid w = None
      then w\<lparr>organizationUsers := organizationUsers w @
               [\<lparr>ou_orgId = org, ou_userId = uid, ou_role = role, ou_createdAt = now\<rparr>]\<rparr>
      else w\<lparr>organizationUsers :=
               update_where (\<lambda>m. ou_orgId m = org \<and> ou_userId m = uid) (\<lambda>m. m\<lparr>ou_role := role\<rparr>)
                 (organizationUsers w)\<rparr>)"

definition org_removeMember :: "uuid \<Rightarrow> uuid \<Rightarrow> world \<Rightarrow> world" where
  [repo_defs]: "org_removeMember org uid w =
     w\<lparr>organizationUsers :=
         delete_where (\<lambda>m. ou_orgId m = org \<and> ou_userId m = uid) (organizationUsers w)\<rparr>"

text \<open>Joined with the live users, in order of joining.\<close>

record OrgMember =
  om_userId :: uuid
  om_email :: string
  om_name :: string
  om_role :: OrgRole
  om_createdAt :: ms

definition org_listMembers :: "uuid \<Rightarrow> world \<Rightarrow> OrgMember list" where
  [repo_defs]: "org_listMembers org w =
     sort_key om_createdAt
       (concat (map (\<lambda>m.
          map (\<lambda>u. \<lparr>om_userId = ou_userId m, om_email = u_email u, om_name = u_name u,
                    om_role = ou_role m, om_createdAt = ou_createdAt m\<rparr>)
            (filter (\<lambda>u. u_id u = ou_userId m \<and> u_deletedAt u = None) (users w)))
        (filter (\<lambda>m. ou_orgId m = org) (organizationUsers w))))"

interpretation member_role:
  row_update "\<lambda>m. (ou_orgId m, ou_userId m)" "\<lambda>m. m\<lparr>ou_role := role\<rparr>" for role
  by unfold_locales simp

section \<open>Events\<close>

definition event_getById :: "uuid \<Rightarrow> world \<Rightarrow> event_row option" where
  [repo_defs]: "event_getById i w = select_first (\<lambda>e. e_id e = i \<and> e_deletedAt e = None) (events w)"

definition event_getOrgId :: "uuid \<Rightarrow> world \<Rightarrow> uuid option" where
  [repo_defs]: "event_getOrgId i w = map_option e_orgId (event_getById i w)"

definition event_getBySlug :: "string \<Rightarrow> world \<Rightarrow> event_row option" where
  [repo_defs]: "event_getBySlug s w = select_first (\<lambda>e. e_slug e = s \<and> e_deletedAt e = None) (events w)"

definition event_countForOrg :: "uuid \<Rightarrow> world \<Rightarrow> int" where
  [repo_defs]: "event_countForOrg org w =
     int (length (filter (\<lambda>e. e_orgId e = org \<and> e_deletedAt e = None) (events w)))"

definition event_listByOrg :: "uuid \<Rightarrow> world \<Rightarrow> event_row list" where
  [repo_defs]: "event_listByOrg org w =
     sort_key (\<lambda>e. - e_createdAt e) (filter (\<lambda>e. e_orgId e = org \<and> e_deletedAt e = None) (events w))"

definition event_create :: "event_row \<Rightarrow> world \<Rightarrow> event_row outcome \<times> world" where
  [repo_defs]: "event_create e w =
     (if \<exists>x \<in> set (events w). e_slug x = e_slug e then (Inl (ServerError ''event_slug_key''), w)
      else (Inr e, w\<lparr>events := events w @ [e]\<rparr>))"

text \<open>
  \<^verbatim>\<open>update(orgId, id, dto)\<close> and \<^verbatim>\<open>setExpiryState(id, values)\<close> with the written columns as a
  function; \<^verbatim>\<open>executeTakeFirstOrThrow\<close> raises when no row matched, and the total unique
  constraint on the slug when another row has it.
\<close>

definition event_update :: "uuid \<Rightarrow> uuid \<Rightarrow> (event_row \<Rightarrow> event_row) \<Rightarrow> ms \<Rightarrow> world \<Rightarrow> event_row outcome \<times> world" where
  [repo_defs]: "event_update org i f now w =
     (let p = (\<lambda>e. e_id e = i \<and> e_orgId e = org); g = (\<lambda>e. (f e)\<lparr>e_updatedAt := now\<rparr>)
      in (case select_first p (events w) of
            None \<Rightarrow> (Inl (ServerError ''no result''), w)
          | Some e \<Rightarrow>
              if \<exists>x \<in> set (events w). \<not> p x \<and> e_slug x = e_slug (f e)
              then (Inl (ServerError ''event_slug_key''), w)
              else (Inr (g e), w\<lparr>events := update_where p g (events w)\<rparr>)))"

definition event_setExpiryState :: "uuid \<Rightarrow> (event_row \<Rightarrow> event_row) \<Rightarrow> world \<Rightarrow> event_row outcome \<times> world" where
  [repo_defs]: "event_setExpiryState i f w =
     (case select_first (\<lambda>e. e_id e = i) (events w) of
        None \<Rightarrow> (Inl (ServerError ''no result''), w)
      | Some e \<Rightarrow> (Inr (f e), w\<lparr>events := update_where (\<lambda>e. e_id e = i) f (events w)\<rparr>))"

text \<open>
  The foreign keys of \<^verbatim>\<open>migrations/\<close>: deleting assets takes their files, faces, embeddings (of faces and of photos) and
  matches along and clears the columns that point at them; deleting events takes their assets,
  people, participants and imports along.
\<close>

definition null_if_dead :: "uuid list \<Rightarrow> uuid option \<Rightarrow> uuid option" where
  "null_if_dead dead x = (case x of None \<Rightarrow> None | Some i \<Rightarrow> if i \<in> set dead then None else Some i)"

definition asset_cascade :: "uuid list \<Rightarrow> world \<Rightarrow> world" where
  "asset_cascade ids w =
     (let dead_faces = map f_id (filter (\<lambda>f. f_assetId f \<in> set ids) (assetFaces w))
      in w\<lparr>assets := delete_where (\<lambda>a. a_id a \<in> set ids) (assets w),
           assetFiles := delete_where (\<lambda>f. af_assetId f \<in> set ids) (assetFiles w),
           assetFaces := delete_where (\<lambda>f. f_assetId f \<in> set ids) (assetFaces w),
           faceSearches := delete_where (\<lambda>f. fs_faceId f \<in> set dead_faces) (faceSearches w),
           smartSearches := delete_where (\<lambda>s. ss_assetId s \<in> set ids) (smartSearches w),
           persons := map (\<lambda>p. p\<lparr>p_faceAssetFaceId := null_if_dead dead_faces (p_faceAssetFaceId p)\<rparr>) (persons w),
           participantMatches :=
             map (\<lambda>m. m\<lparr>m_viaFaceId := null_if_dead dead_faces (m_viaFaceId m)\<rparr>)
               (delete_where (\<lambda>m. m_assetId m \<in> set ids) (participantMatches w)),
           importItems := map (\<lambda>i. i\<lparr>ii_assetId := null_if_dead ids (ii_assetId i)\<rparr>) (importItems w),
           events := map (\<lambda>e. e\<lparr>e_coverAssetId := null_if_dead ids (e_coverAssetId e)\<rparr>) (events w)\<rparr>)"

definition participant_cascade :: "uuid list \<Rightarrow> world \<Rightarrow> world" where
  "participant_cascade ids w =
     w\<lparr>participants := delete_where (\<lambda>p. pt_id p \<in> set ids) (participants w),
       participantSelfies := delete_where (\<lambda>s. sf_participantId s \<in> set ids) (participantSelfies w),
       participantMatches := delete_where (\<lambda>m. m_participantId m \<in> set ids) (participantMatches w),
       emailLogs := map (\<lambda>l. l\<lparr>el_participantId := null_if_dead ids (el_participantId l)\<rparr>) (emailLogs w)\<rparr>"

definition event_cascade :: "uuid list \<Rightarrow> world \<Rightarrow> world" where
  "event_cascade ids w =
     (let dead_jobs = map ij_id (filter (\<lambda>j. ij_eventId j \<in> set ids) (importJobs w));
          dead_persons = map p_id (filter (\<lambda>p. p_eventId p \<in> set ids) (persons w));
          w1 = asset_cascade (map a_id (filter (\<lambda>a. a_eventId a \<in> set ids) (assets w))) w;
          w2 = participant_cascade (map pt_id (filter (\<lambda>p. pt_eventId p \<in> set ids) (participants w))) w1
      in w2\<lparr>events := delete_where (\<lambda>e. e_id e \<in> set ids) (events w2),
            persons := delete_where (\<lambda>p. p_eventId p \<in> set ids) (persons w2),
            assetFaces := map (\<lambda>f. f\<lparr>f_personId := null_if_dead dead_persons (f_personId f)\<rparr>) (assetFaces w2),
            importJobs := delete_where (\<lambda>j. ij_eventId j \<in> set ids) (importJobs w2),
            importItems := delete_where (\<lambda>i. ii_importJobId i \<in> set dead_jobs) (importItems w2),
            emailLogs := map (\<lambda>l. l\<lparr>el_eventId := null_if_dead ids (el_eventId l)\<rparr>) (emailLogs w2),
            supportTickets := map (\<lambda>t. t\<lparr>st_eventId := null_if_dead ids (st_eventId t)\<rparr>) (supportTickets w2)\<rparr>)"

lemma cascade_frames [simp, frame_simps]:
  "queued (asset_cascade ids w) = queued w" "objects (asset_cascade ids w) = objects w"
  "participants (asset_cascade ids w) = participants w" "importJobs (asset_cascade ids w) = importJobs w"
  "queued (participant_cascade ids w) = queued w" "objects (participant_cascade ids w) = objects w"
  "events (participant_cascade ids w) = events w" "assets (participant_cascade ids w) = assets w"
  "persons (participant_cascade ids w) = persons w" "importJobs (participant_cascade ids w) = importJobs w"
  "queued (event_cascade ids w) = queued w" "objects (event_cascade ids w) = objects w"
  "auditLogs (event_cascade ids w) = auditLogs w"
  by (simp_all add: asset_cascade_def participant_cascade_def event_cascade_def Let_def)

definition event_hardDelete :: "uuid \<Rightarrow> uuid \<Rightarrow> world \<Rightarrow> world" where
  [repo_defs]: "event_hardDelete org i w =
     event_cascade (map e_id (filter (\<lambda>e. e_id e = i \<and> e_orgId e = org) (events w))) w"

section \<open>Assets\<close>

definition asset_getById :: "uuid \<Rightarrow> uuid \<Rightarrow> world \<Rightarrow> asset_row option" where
  [repo_defs]: "asset_getById ev i w =
     select_first (\<lambda>a. a_id a = i \<and> a_eventId a = ev \<and> a_deletedAt a = None) (assets w)"

definition asset_getByIdUnscoped :: "uuid \<Rightarrow> world \<Rightarrow> asset_row option" where
  [repo_defs]: "asset_getByIdUnscoped i w =
     select_first (\<lambda>a. a_id a = i \<and> a_deletedAt a = None) (assets w)"

definition asset_findByChecksum :: "uuid \<Rightarrow> string \<Rightarrow> world \<Rightarrow> asset_row option" where
  [repo_defs]: "asset_findByChecksum ev c w =
     select_first (\<lambda>a. a_eventId a = ev \<and> a_checksum a = c \<and> a_deletedAt a = None) (assets w)"

text \<open>
  The partial unique index \<^verbatim>\<open>asset_event_checksum\<close> on live rows; \<^verbatim>\<open>isAssetChecksumConstraint\<close>
  recognises its violation by the constraint's name. The row's event is a foreign key.
\<close>

definition ASSET_CHECKSUM_CONSTRAINT :: string where
  "ASSET_CHECKSUM_CONSTRAINT = ''asset_event_checksum''"

definition isAssetChecksumConstraint :: "http_error \<Rightarrow> bool" where
  "isAssetChecksumConstraint e \<longleftrightarrow> e = ServerError ASSET_CHECKSUM_CONSTRAINT"

definition asset_create :: "asset_row \<Rightarrow> world \<Rightarrow> asset_row outcome \<times> world" where
  [repo_defs]: "asset_create a w =
     (if asset_findByChecksum (a_eventId a) (a_checksum a) w \<noteq> None
      then (Inl (ServerError ASSET_CHECKSUM_CONSTRAINT), w)
      else if \<forall>e \<in> set (events w). e_id e \<noteq> a_eventId a
      then (Inl (ServerError ''asset_event_id_fkey''), w)
      else (Inr a, w\<lparr>assets := assets w @ [a]\<rparr>))"

text \<open>Bytes of the live assets of an organization's live events.\<close>

definition asset_counts_for :: "uuid \<Rightarrow> world \<Rightarrow> asset_row \<Rightarrow> bool" where
  "asset_counts_for org w a \<longleftrightarrow> a_deletedAt a = None \<and>
     (\<exists>e \<in> set (events w). e_id e = a_eventId a \<and> e_orgId e = org \<and> e_deletedAt e = None)"

definition getOrgStorageBytes :: "uuid \<Rightarrow> world \<Rightarrow> bytes" where
  [repo_defs]: "getOrgStorageBytes org w =
     sum_list (map a_fileSize (filter (asset_counts_for org w) (assets w)))"

definition getOrgStorage :: "uuid \<Rightarrow> world \<Rightarrow> bytes \<times> nat" where
  [repo_defs]: "getOrgStorage org w =
     (let rows = filter (asset_counts_for org w) (assets w)
      in (sum_list (map a_fileSize rows), length rows))"

definition asset_softDeleteMany :: "uuid \<Rightarrow> uuid list \<Rightarrow> ms \<Rightarrow> world \<Rightarrow> asset_row list \<times> world" where
  [repo_defs]: "asset_softDeleteMany ev ids now w =
     (let p = (\<lambda>a. a_eventId a = ev \<and> a_id a \<in> set ids \<and> a_deletedAt a = None);
          f = (\<lambda>a. a\<lparr>a_deletedAt := Some now\<rparr>)
      in (map f (filter p (assets w)), w\<lparr>assets := update_where p f (assets w)\<rparr>))"

section \<open>Facts the services share\<close>

lemma asset_findByChecksum_append:
  "asset_findByChecksum ev c (w\<lparr>assets := assets w @ [a]\<rparr>) =
    (case asset_findByChecksum ev c w of
       Some x \<Rightarrow> Some x
     | None \<Rightarrow> if a_eventId a = ev \<and> a_checksum a = c \<and> a_deletedAt a = None then Some a else None)"
  by (simp add: asset_findByChecksum_def select_first_append split: option.splits)

lemma asset_counts_for_assets [simp]:
  "asset_counts_for org (w\<lparr>assets := xs\<rparr>) = asset_counts_for org w"
  by (simp add: asset_counts_for_def fun_eq_iff)

lemma getOrgStorageBytes_append:
  "getOrgStorageBytes org (w\<lparr>assets := assets w @ [a]\<rparr>) =
    getOrgStorageBytes org w + (if asset_counts_for org w a then a_fileSize a else 0)"
  by (simp add: getOrgStorageBytes_def)

lemma org_getById_SomeD:
  "org_getById i w = Some r \<Longrightarrow> r \<in> set (organizations w) \<and> o_id r = i \<and> o_deletedAt r = None"
  unfolding org_getById_def by (drule select_first_SomeD) simp

lemma event_getById_SomeD:
  "event_getById i w = Some e \<Longrightarrow> e \<in> set (events w) \<and> e_id e = i \<and> e_deletedAt e = None"
  unfolding event_getById_def by (drule select_first_SomeD) simp

lemma user_getById_SomeD:
  "user_getById i w = Some u \<Longrightarrow> u \<in> set (users w) \<and> u_id u = i \<and> u_deletedAt u = None"
  unfolding user_getById_def by (drule select_first_SomeD) simp

lemma asset_getById_SomeD:
  "asset_getById ev i w = Some a \<Longrightarrow>
     a \<in> set (assets w) \<and> a_id a = i \<and> a_eventId a = ev \<and> a_deletedAt a = None"
  unfolding asset_getById_def by (drule select_first_SomeD) simp

lemma getMembership_SomeD:
  "org_getMembership org uid w = Some m \<Longrightarrow>
     m \<in> set (organizationUsers w) \<and> ou_orgId m = org \<and> ou_userId m = uid"
  unfolding org_getMembership_def by (drule select_first_SomeD) simp

end
