(* ===== verification/StorageKeys.thy ===== *)
theory StorageKeys
  imports Repositories
begin

text \<open>
  The R2 key scheme of \<^verbatim>\<open>utils/storage-keys.ts\<close>, the object operations of
  \<^verbatim>\<open>repositories/storage.repository.ts\<close> the services call, and Node's \<^verbatim>\<open>path.extname\<close>.
  Ids are UUIDs: no id contains a slash, and then keys of different events cannot collide and a
  prefix delete stays inside its event.
\<close>

section \<open>Keys\<close>

fun js_decimal :: "nat \<Rightarrow> string" where
  "js_decimal n = (if n div 10 = 0 then [] else js_decimal (n div 10)) @ [char_of (n mod 10 + 48)]"

declare js_decimal.simps [simp del]

definition key_original :: "uuid \<Rightarrow> uuid \<Rightarrow> uuid \<Rightarrow> string \<Rightarrow> string" where
  "key_original org ev a ext = ''org/'' @ org @ ''/event/'' @ ev @ ''/original/'' @ a @ ext"

definition key_preview :: "uuid \<Rightarrow> uuid \<Rightarrow> uuid \<Rightarrow> string" where
  "key_preview org ev a = ''org/'' @ org @ ''/event/'' @ ev @ ''/preview/'' @ a @ ''.jpeg''"

definition key_thumb :: "uuid \<Rightarrow> uuid \<Rightarrow> uuid \<Rightarrow> string" where
  "key_thumb org ev a = ''org/'' @ org @ ''/event/'' @ ev @ ''/thumb/'' @ a @ ''.webp''"

definition key_video :: "uuid \<Rightarrow> uuid \<Rightarrow> uuid \<Rightarrow> string" where
  "key_video org ev a = ''org/'' @ org @ ''/event/'' @ ev @ ''/video/'' @ a @ ''.mp4''"

definition key_person :: "uuid \<Rightarrow> uuid \<Rightarrow> uuid \<Rightarrow> string" where
  "key_person org ev p = ''org/'' @ org @ ''/event/'' @ ev @ ''/person/'' @ p @ ''.jpeg''"

definition key_selfie :: "uuid \<Rightarrow> uuid \<Rightarrow> uuid \<Rightarrow> nat \<Rightarrow> string" where
  "key_selfie org ev p i =
    (if i = 0 then ''org/'' @ org @ ''/event/'' @ ev @ ''/selfie/'' @ p @ ''.jpg''
     else ''org/'' @ org @ ''/event/'' @ ev @ ''/selfie/'' @ p @ ''-'' @ js_decimal i @ ''.jpg'')"

definition eventPrefix :: "uuid \<Rightarrow> uuid \<Rightarrow> string" where
  "eventPrefix org ev = ''org/'' @ org @ ''/event/'' @ ev @ ''/''"

definition orgPrefix :: "uuid \<Rightarrow> string" where
  "orgPrefix org = ''org/'' @ org @ ''/''"

section \<open>Objects\<close>

definition putFile :: "string \<Rightarrow> world \<Rightarrow> world" where
  "putFile k w = w\<lparr>objects := (if k \<in> set (objects w) then objects w else objects w @ [k])\<rparr>"

definition deleteKeys :: "string list \<Rightarrow> world \<Rightarrow> world" where
  "deleteKeys ks w = w\<lparr>objects := filter (\<lambda>k. k \<notin> set ks) (objects w)\<rparr>"

definition deletePrefix :: "string \<Rightarrow> world \<Rightarrow> world" where
  "deletePrefix p w = w\<lparr>objects := filter (\<lambda>k. \<not> prefix p k) (objects w)\<rparr>"

lemma set_objects_putFile [simp]: "set (objects (putFile k w)) = insert k (set (objects w))"
  by (auto simp: putFile_def)

lemma set_objects_deleteKeys [simp]: "set (objects (deleteKeys ks w)) = set (objects w) - set ks"
  by (auto simp: deleteKeys_def)

lemma object_frames [simp, frame_simps]:
  "assets (putFile k w) = assets w" "events (putFile k w) = events w"
  "queued (putFile k w) = queued w" "staging (putFile k w) = staging w"
  "organizations (putFile k w) = organizations w"
  "assets (deleteKeys ks w) = assets w" "events (deleteKeys ks w) = events w"
  "queued (deleteKeys ks w) = queued w" "staging (deleteKeys ks w) = staging w"
  "organizations (deleteKeys ks w) = organizations w"
  by (simp_all add: putFile_def deleteKeys_def)

section \<open>File names\<close>

definition strip_trailing_slashes :: "string \<Rightarrow> string" where
  "strip_trailing_slashes s = rev (dropWhile (\<lambda>c. c = CHR ''/'') (rev s))"

definition basename :: "string \<Rightarrow> string" where
  "basename s = rev (takeWhile (\<lambda>c. c \<noteq> CHR ''/'') (rev (strip_trailing_slashes s)))"

text \<open>The part from the last dot on, unless that dot starts the name or the name is two dots.\<close>

definition extname :: "string \<Rightarrow> string" where
  "extname s =
    (let b = basename s; tail = rev (takeWhile (\<lambda>c. c \<noteq> CHR ''.'') (rev b))
     in if CHR ''.'' \<notin> set b \<or> length tail + 1 = length b \<or> b = ''..'' then ''''
        else CHR ''.'' # tail)"

definition discard :: "string \<Rightarrow> world \<Rightarrow> world" where
  "discard path w = w\<lparr>staging := removeAll path (staging w)\<rparr>"

lemma discard_frames [simp, frame_simps]:
  "assets (discard p w) = assets w" "events (discard p w) = events w"
  "objects (discard p w) = objects w" "queued (discard p w) = queued w"
  "organizations (discard p w) = organizations w"
  by (simp_all add: discard_def)

lemma staging_discard [simp]: "staging (discard p w) = removeAll p (staging w)"
  by (simp add: discard_def)

section \<open>Separation of the key spaces\<close>

definition no_slash :: "string \<Rightarrow> bool" where
  "no_slash s \<longleftrightarrow> CHR ''/'' \<notin> set s"

text \<open>A slash-free segment followed by a slash is determined by the string it starts.\<close>

lemma segment_inj:
  assumes "no_slash a" "no_slash b" "a @ CHR ''/'' # xs = b @ CHR ''/'' # ys"
  shows "a = b \<and> xs = ys"
  using assms
proof (induction a arbitrary: b)
  case Nil
  then show ?case by (cases b) (auto simp: no_slash_def)
next
  case (Cons c a)
  then show ?case by (cases b) (auto simp: no_slash_def)
qed

lemma segment_prefix:
  assumes "no_slash a" "no_slash b" "prefix (a @ CHR ''/'' # xs) (b @ CHR ''/'' # ys)"
  shows "a = b \<and> prefix xs ys"
proof -
  from assms(3) obtain zs where "b @ CHR ''/'' # ys = a @ CHR ''/'' # (xs @ zs)"
    by (auto simp: prefix_def)
  with assms(1,2) have "b = a \<and> ys = xs @ zs" by (metis segment_inj)
  then show ?thesis by (auto simp: prefix_def)
qed

datatype event_key =
    KOriginal uuid string | KPreview uuid | KThumb uuid | KVideo uuid | KPerson uuid | KSelfie uuid nat

text \<open>Every key an event's media is stored under.\<close>

fun key_of :: "uuid \<Rightarrow> uuid \<Rightarrow> event_key \<Rightarrow> string" where
  "key_of org ev (KOriginal a ext) = key_original org ev a ext"
| "key_of org ev (KPreview a) = key_preview org ev a"
| "key_of org ev (KThumb a) = key_thumb org ev a"
| "key_of org ev (KVideo a) = key_video org ev a"
| "key_of org ev (KPerson p) = key_person org ev p"
| "key_of org ev (KSelfie p i) = key_selfie org ev p i"

lemmas key_defs = key_original_def key_preview_def key_thumb_def key_video_def key_person_def key_selfie_def

fun key_rest :: "event_key \<Rightarrow> string" where
  "key_rest (KOriginal a ext) = ''original/'' @ a @ ext"
| "key_rest (KPreview a) = ''preview/'' @ a @ ''.jpeg''"
| "key_rest (KThumb a) = ''thumb/'' @ a @ ''.webp''"
| "key_rest (KVideo a) = ''video/'' @ a @ ''.mp4''"
| "key_rest (KPerson p) = ''person/'' @ p @ ''.jpeg''"
| "key_rest (KSelfie p i) = ''selfie/'' @ p @ (if i = 0 then ''.jpg'' else ''-'' @ js_decimal i @ ''.jpg'')"

lemma key_selfie_split:
  "key_selfie org ev p i = eventPrefix org ev @ key_rest (KSelfie p i)"
  by (cases "i = 0")
    (simp_all only: key_selfie_def eventPrefix_def key_rest.simps append_assoc append_Cons append_Nil if_True if_False simp_thms)

lemma key_of_split: "key_of org ev k = eventPrefix org ev @ key_rest k"
  by (cases k)
    (simp_all only: key_of.simps key_selfie_split,
     simp_all only: key_defs eventPrefix_def key_rest.simps append_assoc append_Cons append_Nil)

lemma eventPrefix_inj:
  assumes "no_slash org" "no_slash ev" "no_slash org'" "no_slash ev'"
    and "prefix (eventPrefix org ev) (eventPrefix org' ev' @ rest)"
  shows "org = org' \<and> ev = ev'"
proof -
  from assms(5) have "prefix (org @ CHR ''/'' # (''event/'' @ ev @ ''/'')) (org' @ CHR ''/'' # (''event/'' @ ev' @ CHR ''/'' # rest))"
    by (simp add: eventPrefix_def)
  from segment_prefix [OF assms(1,3) this]
  have org: "org = org'" and "prefix (''event/'' @ ev @ ''/'') (''event/'' @ ev' @ CHR ''/'' # rest)"
    by blast+
  then have "prefix (ev @ CHR ''/'' # []) (ev' @ CHR ''/'' # rest)" by simp
  from segment_prefix [OF assms(2,4) this] org show ?thesis by blast
qed

lemma key_space_isolated:
  assumes "no_slash org" "no_slash ev" "no_slash org'" "no_slash ev'"
  shows "key_of org' ev' k \<in> set (objects (deletePrefix (eventPrefix org ev) w)) \<longleftrightarrow>
    key_of org' ev' k \<in> set (objects w) \<and> (org', ev') \<noteq> (org, ev)"
proof -
  have "prefix (eventPrefix org ev) (key_of org' ev' k) \<longleftrightarrow> (org', ev') = (org, ev)"
    unfolding key_of_split using eventPrefix_inj [OF assms, of "key_rest k"] by (auto simp: prefix_def)
  then show ?thesis by (auto simp: deletePrefix_def)
qed

text \<open>
  Deleting an event's prefix removes every object of that event, whatever kind of key it has,
  and no object of any other event or organization. Ids are UUIDs, so they carry no slash.
\<close>

theorem deletePrefix_isolates_event:
  assumes "no_slash org" "no_slash ev" "no_slash org'" "no_slash ev'"
  shows "key_of org' ev' k \<in> set (objects (deletePrefix (eventPrefix org ev) w)) \<longleftrightarrow>
    key_of org' ev' k \<in> set (objects w) \<and> (org', ev') \<noteq> (org, ev)"
  using assms by (rule key_space_isolated)

theorem deletePrefix_isolates_event_witness:
  "no_slash ''o1'' \<and> no_slash ''e1'' \<and> no_slash ''e12'' \<and>
   key_of ''o1'' ''e12'' (KThumb ''a'') \<in> set (objects (deletePrefix (eventPrefix ''o1'' ''e1'')
     (putFile (key_of ''o1'' ''e12'' (KThumb ''a'')) empty_world)))"
proof -
  have h: "no_slash ''o1''" "no_slash ''e1''" "no_slash ''e12''" by (simp_all add: no_slash_def)
  show ?thesis
    using deletePrefix_isolates_event [OF h(1) h(2) h(1) h(3), of "KThumb ''a''"] h by simp
qed

end
