(* ===== verification/Quota.thy ===== *)
theory Quota
  imports StorageKeys
begin

text \<open>
  \<^verbatim>\<open>services/quota.service.ts\<close>: the limits of an organization and the two guards. The locale
  \<open>quota_guard\<close> is what the clients (event creation, upload) rely on: a guard that answers
  "available" leaves room for what it was asked about. It is interpreted on both guards.
\<close>

section \<open>Limits and usage\<close>

record limits =
  li_storageBytes :: bytes
  li_events :: int
  li_hasCustomLimits :: bool

definition limitsFor :: "org_row \<Rightarrow> limits" where
  "limitsFor r =
    (let plan = PLAN_LIMITS (o_plan r)
     in \<lparr>li_storageBytes = or_default (o_storageLimitBytes r) (pl_storageBytes plan),
         li_events = or_default (o_eventLimit r) (pl_events plan),
         li_hasCustomLimits = (o_storageLimitBytes r \<noteq> None \<or> o_eventLimit r \<noteq> None)\<rparr>)"

record QuotaStatus =
  qs_plan :: OrgPlan
  qs_usedBytes :: bytes
  qs_limitBytes :: bytes
  qs_remainingBytes :: bytes
  qs_usedEvents :: int
  qs_limitEvents :: int
  qs_remainingEvents :: int
  qs_hasCustomLimits :: bool

definition getStatus :: "uuid \<Rightarrow> world \<Rightarrow> QuotaStatus outcome" where
  "getStatus org w =
    (case org_getById org w of
       None \<Rightarrow> Inl (BadRequest ''Organization not found'')
     | Some r \<Rightarrow>
        let l = limitsFor r; usedBytes = getOrgStorageBytes org w; usedEvents = event_countForOrg org w
        in Inr \<lparr>qs_plan = o_plan r, qs_usedBytes = usedBytes, qs_limitBytes = li_storageBytes l,
                qs_remainingBytes = max 0 (li_storageBytes l - usedBytes),
                qs_usedEvents = usedEvents, qs_limitEvents = li_events l,
                qs_remainingEvents = max 0 (li_events l - usedEvents),
                qs_hasCustomLimits = li_hasCustomLimits l\<rparr>)"

section \<open>The guards\<close>

fun upgradeHint :: "OrgPlan \<Rightarrow> string" where
  "upgradeHint OrgPlan_Starter = ''Upgrade to Pro for 10 GB and 5 events.''"
| "upgradeHint OrgPlan_Pro = ''Upgrade to Enterprise for more.''"
| "upgradeHint OrgPlan_Enterprise = ''Contact your administrator to raise this limit.''"

definition assertStorageAvailable :: "uuid \<Rightarrow> bytes \<Rightarrow> world \<Rightarrow> unit outcome" where
  "assertStorageAvailable org incoming w =
    (case getStatus org w of
       Inl e \<Rightarrow> Inl e
     | Inr s \<Rightarrow>
        if qs_usedBytes s + incoming \<le> qs_limitBytes s then Inr ()
        else Inl (BadRequest (''Storage limit reached. '' @ upgradeHint (qs_plan s))))"

definition assertEventAvailable :: "uuid \<Rightarrow> world \<Rightarrow> unit outcome" where
  "assertEventAvailable org w =
    (case getStatus org w of
       Inl e \<Rightarrow> Inl e
     | Inr s \<Rightarrow>
        if qs_usedEvents s < qs_limitEvents s then Inr ()
        else Inl (BadRequest (''Event limit reached. '' @ upgradeHint (qs_plan s))))"

section \<open>The interface the clients rely on\<close>

definition limit_of :: "(limits \<Rightarrow> int) \<Rightarrow> uuid \<Rightarrow> world \<Rightarrow> int" where
  "limit_of f org w = (case org_getById org w of None \<Rightarrow> 0 | Some r \<Rightarrow> f (limitsFor r))"

locale quota_guard =
  fixes used :: "uuid \<Rightarrow> world \<Rightarrow> int"
    and limit :: "uuid \<Rightarrow> world \<Rightarrow> int"
    and cost :: "'c \<Rightarrow> int"
    and guard :: "uuid \<Rightarrow> 'c \<Rightarrow> world \<Rightarrow> unit outcome"
  assumes guard_ok:
    "is_ok (guard org c w) \<longleftrightarrow> org_getById org w \<noteq> None \<and> used org w + cost c \<le> limit org w"
begin

definition fits :: "uuid \<Rightarrow> world \<Rightarrow> bool" where
  "fits org w \<longleftrightarrow> used org w \<le> limit org w"

text \<open>What every client does: ask, then add at most what it asked for without touching the limit.\<close>

lemma admitted:
  assumes "is_ok (guard org c w)" "used org w' \<le> used org w + cost c" "limit org w' = limit org w"
  shows "fits org w'"
  using assms by (simp add: guard_ok fits_def)

lemma refused_when_full:
  "org_getById org w \<noteq> None \<Longrightarrow> limit org w < used org w + cost c \<Longrightarrow> \<not> is_ok (guard org c w)"
  by (simp add: guard_ok)

lemma kept:
  assumes "fits org w" "used org w' \<le> used org w" "limit org w' = limit org w"
  shows "fits org w'"
  using assms by (simp add: fits_def)

end

lemma getStatus_ok: "is_ok (getStatus org w) \<longleftrightarrow> org_getById org w \<noteq> None"
  by (simp add: getStatus_def Let_def split: option.splits)

interpretation storage_quota:
  quota_guard getOrgStorageBytes "limit_of li_storageBytes" "\<lambda>n. n" assertStorageAvailable
  by unfold_locales
    (simp add: assertStorageAvailable_def getStatus_def limit_of_def Let_def split: option.splits)

interpretation event_quota:
  quota_guard event_countForOrg "limit_of li_events" "\<lambda>_ :: unit. 1" "\<lambda>org _ w. assertEventAvailable org w"
  by unfold_locales
    (auto simp: assertEventAvailable_def getStatus_def limit_of_def Let_def split: option.splits)

text \<open>
  The figure shown and the figure enforced agree: an upload of a positive number of bytes passes
  the storage guard exactly when it fits into the remaining bytes of the status the organization is
  shown, and a new event is admitted exactly when the status reports a remaining event.
\<close>

theorem quota_shown_is_enforced:
  assumes "getStatus org w = Inr s" "0 < n"
  shows "(is_ok (assertStorageAvailable org n w) \<longleftrightarrow> n \<le> qs_remainingBytes s)
    \<and> (is_ok (assertEventAvailable org w) \<longleftrightarrow> 1 \<le> qs_remainingEvents s)"
  using assms
  by (auto simp: assertStorageAvailable_def assertEventAvailable_def getStatus_def Let_def split: option.splits)

definition wit_org :: org_row where
  "wit_org = \<lparr>o_id = ''o'', o_name = ''Org'', o_slug = ''org'', o_status = OrgStatus_Active,
     o_plan = OrgPlan_Starter, o_storageLimitBytes = None, o_eventLimit = None, o_createdBy = None,
     o_createdAt = 0, o_updatedAt = 0, o_deletedAt = None\<rparr>"

definition wit_org_world :: world where
  "wit_org_world = empty_world\<lparr>organizations := [wit_org]\<rparr>"

lemmas wit_org_defs = wit_org_world_def wit_org_def empty_world_def

theorem quota_shown_is_enforced_witness:
  "is_ok (assertStorageAvailable ''o'' GB wit_org_world)"
proof -
  have "getStatus ''o'' wit_org_world = Inr
     \<lparr>qs_plan = OrgPlan_Starter, qs_usedBytes = 0, qs_limitBytes = 2 * GB, qs_remainingBytes = 2 * GB,
      qs_usedEvents = 0, qs_limitEvents = 1, qs_remainingEvents = 1, qs_hasCustomLimits = False\<rparr>"
    by (simp add: getStatus_def org_getById_def getOrgStorageBytes_def event_countForOrg_def
        limitsFor_def wit_org_defs GB_def)
  from quota_shown_is_enforced [OF this, of GB] show ?thesis by (simp add: GB_def)
qed

end
