(* ===== verification/GpuLifecycle.thy ===== *)
theory GpuLifecycle
  imports Quota
begin

text \<open>
  \<^verbatim>\<open>services/gpu-lifecycle.service.ts\<close>: waking the GPU box when there is work and stopping it when
  there is none.

  \<open>gpu_env\<close> is what one call sees of the outside: the queue depths and job timestamps of BullMQ, the
  worker telemetry, the \<^verbatim>\<open>jl\<close> command line of JarvisLabs and the webhook. \<open>gpu_sys\<close> is the
  service's own memory next to the shared state, with the log of the commands it has issued to the
  provider. A handler reads the clock once (\<open>now\<close>). Message and reason texts are not modelled.
\<close>

section \<open>The outside\<close>

record JarvisLabsInstance =
  ji_machineId :: string
  ji_status :: "string option"

record gpu_env =
  ge_counts :: "QueueName \<Rightarrow> JobCounts"
  ge_oldestWaiting :: "QueueName \<Rightarrow> ms option"
  ge_oldestActive :: "QueueName \<Rightarrow> ms option"
  ge_telemetry :: "WorkerRole list list option"      \<comment> \<open>\<open>None\<close>: Redis raised\<close>
  ge_jl_configured :: bool
  ge_jl_list :: "JarvisLabsInstance list option"     \<comment> \<open>\<open>None\<close>: the command failed\<close>
  ge_jl_get :: "string \<Rightarrow> string + JarvisLabsInstance option"
  ge_jl_resume :: "string \<Rightarrow> string option \<Rightarrow> string + JarvisLabsInstance"
  ge_jl_pause :: "string \<Rightarrow> string option"           \<comment> \<open>\<open>Some\<close>: the error\<close>
  ge_webhook :: "string \<Rightarrow> string option"

datatype gpu_call = StartHook | StopHook | Resume string | Pause string

record gpu_sys =
  gy_world :: world
  gy_lastProviderCheckAt :: ms
  gy_instanceCache :: "(ms \<times> JarvisLabsInstance option) option"
  gy_calls :: "gpu_call list"

definition lifecycle :: "gpu_sys \<Rightarrow> GpuLifecycleState" where
  "lifecycle s = getGpuLifecycleState (gy_world s)"

definition autostart :: "gpu_sys \<Rightarrow> GpuAutostartConfig" where
  "autostart s = getGpuAutostartConfig (gy_world s)"

definition setState :: "GpuLifecycleState \<Rightarrow> gpu_sys \<Rightarrow> gpu_sys" where
  "setState st s = s\<lparr>gy_world := setGpuLifecycleState st (gy_world s)\<rparr>"

definition gpu_audit :: "string \<Rightarrow> AuditLevel option \<Rightarrow> uuid option \<Rightarrow> ms \<Rightarrow> gpu_sys \<Rightarrow> gpu_sys" where
  "gpu_audit action lvl usr now s =
    s\<lparr>gy_world := record_audit True (mk_entry AuditCategory_Gpu action lvl None usr) now (gy_world s)\<rparr>"

definition issue :: "gpu_call \<Rightarrow> gpu_sys \<Rightarrow> gpu_sys" where
  "issue c s = s\<lparr>gy_calls := gy_calls s @ [c]\<rparr>"

text \<open>\<^verbatim>\<open>a || b\<close> on strings, and a timestamp tested for truth.\<close>

definition js_or :: "string option \<Rightarrow> string \<Rightarrow> string" where
  "js_or a b = (case a of Some v \<Rightarrow> if v = '''' then b else v | None \<Rightarrow> b)"

definition truthy_ts :: "ms option \<Rightarrow> ms option" where
  "truthy_ts t = (if t = Some 0 then None else t)"

section \<open>Queue depth\<close>

definition STUCK_ACTIVE_AFTER_MS :: ms where "STUCK_ACTIVE_AFTER_MS = 30 * 60000"
definition PROVIDER_CHECK_INTERVAL_MS :: ms where "PROVIDER_CHECK_INTERVAL_MS = 10 * 60000"
definition INSTANCE_CACHE_MS :: ms where "INSTANCE_CACHE_MS = 20000"

definition GPU_QUEUES :: "QueueName list" where
  "GPU_QUEUES = filter (\<lambda>q. QUEUE_ROLES q = WorkerRole_Media) all_queues"

record GpuQueueSummary =
  gq_name :: QueueName
  gq_waiting :: int
  gq_active :: int
  gq_delayed :: int
  gq_failed :: int
  gq_oldestWaitingAgeSeconds :: "int option"
  gq_oldestActiveAgeSeconds :: "int option"
  gq_liveActive :: int

definition queue_summary :: "gpu_env \<Rightarrow> ms \<Rightarrow> QueueName \<Rightarrow> GpuQueueSummary" where
  "queue_summary env now q =
    (let counts = ge_counts env q;
         oldest = truthy_ts (ge_oldestWaiting env q);
         activeAgeMs = map_option (\<lambda>t. now - t) (truthy_ts (ge_oldestActive env q));
         stuck = (case activeAgeMs of None \<Rightarrow> False | Some a \<Rightarrow> a > STUCK_ACTIVE_AFTER_MS)
     in \<lparr>gq_name = q, gq_waiting = jc_waiting counts, gq_active = jc_active counts,
         gq_delayed = jc_delayed counts, gq_failed = jc_failed counts,
         gq_oldestWaitingAgeSeconds = map_option (\<lambda>t. round_div (now - t) 1000) oldest,
         gq_oldestActiveAgeSeconds = map_option (\<lambda>a. round_div a 1000) activeAgeMs,
         gq_liveActive = (if stuck then 0 else jc_active counts)\<rparr>)"

definition getQueueSummary :: "gpu_env \<Rightarrow> ms \<Rightarrow> GpuQueueSummary list" where
  "getQueueSummary env now = map (queue_summary env now) GPU_QUEUES"

definition pending_of :: "GpuQueueSummary list \<Rightarrow> int" where
  "pending_of qs = sum_list (map (\<lambda>q. gq_waiting q + gq_liveActive q + gq_delayed q) qs)"

definition active_of :: "GpuQueueSummary list \<Rightarrow> int" where
  "active_of qs = sum_list (map gq_liveActive qs)"

definition stuck_of :: "GpuQueueSummary list \<Rightarrow> int" where
  "stuck_of qs = sum_list (map (\<lambda>q. gq_active q - gq_liveActive q) qs)"

definition oldest_age :: "GpuQueueSummary list \<Rightarrow> int" where
  "oldest_age qs = max_from 0 (somes (map gq_oldestWaitingAgeSeconds qs))"

section \<open>Decisions\<close>

definition evaluateTrigger :: "GpuAutostartConfig \<Rightarrow> GpuQueueSummary list \<Rightarrow> int \<Rightarrow> bool" where
  "evaluateTrigger config qs pending =
    (if pending = 0 then False
     else if pending \<ge> gc_pendingThreshold config then True
     else oldest_age qs \<ge> gc_maxPendingAgeMinutes config * 60)"

definition isWorkerOnline :: "gpu_env \<Rightarrow> bool" where
  "isWorkerOnline env =
    (case ge_telemetry env of
       None \<Rightarrow> True
     | Some instances \<Rightarrow> list_ex (\<lambda>roles. WorkerRole_Media \<in> set roles) instances)"

datatype next_kind = NA_start | NA_stop | NA_waiting | NA_none

definition holding :: "GpuLifecycleState \<Rightarrow> ms \<Rightarrow> bool" where
  "holding st now = (case gs_holdUntil st of None \<Rightarrow> False | Some t \<Rightarrow> t > now)"

definition predictNextAction ::
  "GpuAutostartConfig \<Rightarrow> GpuLifecycleState \<Rightarrow> GpuQueueSummary list \<Rightarrow> int \<Rightarrow> ms \<Rightarrow> next_kind \<times> int option" where
  "predictNextAction config st qs pending now =
    (if \<not> gc_enabled config then (NA_none, None)
     else if gs_state st = Gpu_off then
       (if pending = 0 then (NA_none, None)
        else let shortfall = gc_pendingThreshold config - pending;
                 untilAgeRule = gc_maxPendingAgeMinutes config * 60 - oldest_age qs
             in if shortfall \<le> 0 \<or> untilAgeRule \<le> 0 then (NA_start, Some 0)
                else (NA_waiting, Some untilAgeRule))
     else if gs_state st = Gpu_running then
       (if holding st now
        then (NA_none, map_option (\<lambda>t. round_div (t - now) 1000) (gs_holdUntil st))
        else if pending > 0 then (NA_none, None)
        else let idleFor = (case gs_idleSince st of None \<Rightarrow> 0 | Some t \<Rightarrow> now - t);
                 remaining = max 0 (gc_idleShutdownMinutes config * 60000 - idleFor)
             in (NA_stop, Some (round_div remaining 1000)))
     else (NA_none, None))"

section \<open>The live instance\<close>

definition listInstance :: "gpu_env \<Rightarrow> ms \<Rightarrow> gpu_sys \<Rightarrow> JarvisLabsInstance option \<times> gpu_sys" where
  "listInstance env now s =
    (if \<not> ge_jl_configured env then (None, s)
     else case ge_jl_list env of
       None \<Rightarrow> (None, s\<lparr>gy_instanceCache := Some (now, None)\<rparr>)
     | Some instances \<Rightarrow>
        let configured = gc_jarvislabsMachineId (autostart s);
            inst = (case (if configured \<noteq> '''' then List.find (\<lambda>i. ji_machineId i = configured) instances else None) of
                      Some i \<Rightarrow> Some i
                    | None \<Rightarrow> (case instances of [i] \<Rightarrow> Some i | _ \<Rightarrow> None))
        in (inst, s\<lparr>gy_instanceCache := Some (now, inst)\<rparr>))"

definition getInstance :: "gpu_env \<Rightarrow> ms \<Rightarrow> gpu_sys \<Rightarrow> JarvisLabsInstance option \<times> gpu_sys" where
  "getInstance env now s =
    (case gy_instanceCache s of
       None \<Rightarrow> listInstance env now s
     | Some (cachedAt, inst) \<Rightarrow>
         if now - cachedAt < INSTANCE_CACHE_MS then (inst, s) else listInstance env now s)"

definition resolveMachineId ::
  "gpu_env \<Rightarrow> GpuAutostartConfig \<Rightarrow> GpuLifecycleState \<Rightarrow> ms \<Rightarrow> gpu_sys \<Rightarrow> string \<times> gpu_sys" where
  "resolveMachineId env config st now s =
    (let (live, s') = getInstance env now s
     in (js_or (map_option ji_machineId live) (js_or (gs_machineId st) (gc_jarvislabsMachineId config)), s'))"

text \<open>Each command of the JarvisLabs repository raises when no API key is set.\<close>

definition jl_get :: "gpu_env \<Rightarrow> string \<Rightarrow> string + JarvisLabsInstance option" where
  "jl_get env i = (if ge_jl_configured env then ge_jl_get env i else Inl ''JL_API_KEY is not set'')"

definition jl_resume :: "gpu_env \<Rightarrow> string \<Rightarrow> string option \<Rightarrow> string + JarvisLabsInstance" where
  "jl_resume env i g = (if ge_jl_configured env then ge_jl_resume env i g else Inl ''JL_API_KEY is not set'')"

definition jl_pause :: "gpu_env \<Rightarrow> string \<Rightarrow> string option" where
  "jl_pause env i = (if ge_jl_configured env then ge_jl_pause env i else Some ''JL_API_KEY is not set'')"

definition is_running_status :: "JarvisLabsInstance option \<Rightarrow> bool" where
  "is_running_status i =
    (case i of None \<Rightarrow> False
     | Some i \<Rightarrow> (case ji_status i of None \<Rightarrow> False | Some st \<Rightarrow> toLowerCase st = ''running''))"

datatype provider_state = P_running | P_paused

definition getProviderState ::
  "gpu_env \<Rightarrow> GpuAutostartConfig \<Rightarrow> GpuLifecycleState \<Rightarrow> ms \<Rightarrow> gpu_sys \<Rightarrow> provider_state option \<times> gpu_sys" where
  "getProviderState env config st now s =
    (if gc_provider config \<noteq> jarvislabs \<or> \<not> ge_jl_configured env then (None, s)
     else if now - gy_lastProviderCheckAt s < PROVIDER_CHECK_INTERVAL_MS then (None, s)
     else
       let (target, s1) = resolveMachineId env config st now (s\<lparr>gy_lastProviderCheckAt := now\<rparr>)
       in if target = '''' then (None, s1)
          else (case jl_get env target of
                  Inl _ \<Rightarrow> (None, s1)
                | Inr i \<Rightarrow>
                    (if js_or (Option.bind i ji_status) '''' = '''' then (None, s1)
                     else (Some (if is_running_status i then P_running else P_paused), s1))))"

section \<open>Starting and stopping\<close>

definition callWebhook :: "gpu_env \<Rightarrow> string \<Rightarrow> gpu_call \<Rightarrow> gpu_sys \<Rightarrow> string option \<times> gpu_sys" where
  "callWebhook env url c s =
    (if url = '''' then (Some ''no webhook URL configured'', s) else (ge_webhook env url, issue c s))"

text \<open>The JarvisLabs half of \<^verbatim>\<open>start\<close>, after \<^verbatim>\<open>pendingState\<close> was written.\<close>

definition start_failed :: "GpuLifecycleState \<Rightarrow> string \<Rightarrow> ms \<Rightarrow> gpu_sys \<Rightarrow> GpuLifecycleState \<times> gpu_sys" where
  "start_failed pendingState message now s =
    (let failed = pendingState\<lparr>gs_state := Gpu_off, gs_lastError := Some message\<rparr>
     in (failed, gpu_audit ''gpu.start.failed'' (Some AuditLevel_Error) None now (setState failed s)))"

definition start_jarvislabs ::
  "gpu_env \<Rightarrow> GpuAutostartConfig \<Rightarrow> GpuLifecycleState \<Rightarrow> GpuLifecycleState \<Rightarrow> ms \<Rightarrow> gpu_sys \<Rightarrow>
   GpuLifecycleState \<times> gpu_sys" where
  "start_jarvislabs env config st pendingState now s =
    (let (target, s1) = resolveMachineId env config st now s
     in if target = '''' then start_failed pendingState ''no JarvisLabs instance id'' now s1
        else
          (let current = (case jl_get env target of Inl _ \<Rightarrow> None | Inr i \<Rightarrow> i)
           in if is_running_status current then
                let adopted = pendingState\<lparr>gs_machineId := map_option ji_machineId current\<rparr>
                in (adopted, gpu_audit ''gpu.start.adopted'' None None now (setState adopted s1))
              else
                (let gpuType = (if gc_jarvislabsGpuType config = '''' then None else Some (gc_jarvislabsGpuType config));
                     s2 = (if ge_jl_configured env then issue (Resume target) s1 else s1)
                 in (case jl_resume env target gpuType of
                       Inr inst \<Rightarrow>
                         let started = pendingState\<lparr>gs_machineId := Some (ji_machineId inst)\<rparr>;
                             s3 = setState started s2
                         in (started,
                             if ji_machineId inst \<noteq> target
                             then gpu_audit ''gpu.instance.reassigned'' (Some AuditLevel_Warning) None now s3
                             else s3)
                     | Inl message \<Rightarrow> start_failed pendingState message now s2))))"

definition pending_state :: "GpuAutostartConfig \<Rightarrow> bool \<Rightarrow> ms \<Rightarrow> GpuLifecycleState \<Rightarrow> GpuLifecycleState" where
  "pending_state config manual now st =
    st\<lparr>gs_state := Gpu_starting, gs_since := now, gs_lastStartedAt := Some now,
       gs_lastError := None, gs_idleSince := None,
       gs_holdUntil := (if manual then Some (now + gc_idleShutdownMinutes config * 60000) else gs_holdUntil st)\<rparr>"

definition start :: "gpu_env \<Rightarrow> GpuAutostartConfig \<Rightarrow> bool \<Rightarrow> ms \<Rightarrow> gpu_sys \<Rightarrow> GpuLifecycleState \<times> gpu_sys" where
  "start env config manual now s =
    (let st = lifecycle s
     in if gs_state st = Gpu_starting \<or> gs_state st = Gpu_running then
          (if manual
           then let next = st\<lparr>gs_holdUntil := Some (now + gc_idleShutdownMinutes config * 60000)\<rparr>
                in (next, gpu_audit ''gpu.hold'' None None now (setState next s))
           else (st, s))
        else
          (let pendingState = pending_state config manual now st;
               s1 = gpu_audit ''gpu.start'' None None now (setState pendingState s)
           in if gc_provider config = jarvislabs then start_jarvislabs env config st pendingState now s1
              else (let (error, s2) = callWebhook env (gc_startWebhookUrl config) StartHook s1
                    in (case error of
                          Some e \<Rightarrow> start_failed pendingState e now s2
                        | None \<Rightarrow> (pendingState, s2)))))"

definition stop_failed :: "GpuLifecycleState \<Rightarrow> string \<Rightarrow> ms \<Rightarrow> gpu_sys \<Rightarrow> GpuLifecycleState \<times> gpu_sys" where
  "stop_failed stopping message now s =
    (let failed = stopping\<lparr>gs_lastError := Some message\<rparr>
     in (failed, gpu_audit ''gpu.stop.failed'' (Some AuditLevel_Error) None now (setState failed s)))"

definition stop :: "gpu_env \<Rightarrow> GpuAutostartConfig \<Rightarrow> ms \<Rightarrow> gpu_sys \<Rightarrow> GpuLifecycleState \<times> gpu_sys" where
  "stop env config now s =
    (let st = lifecycle s;
         stopping = st\<lparr>gs_state := Gpu_stopping, gs_since := now, gs_holdUntil := None,
                       gs_idleSince := None, gs_lastError := None\<rparr>;
         stopped = stopping\<lparr>gs_state := Gpu_off, gs_since := now, gs_lastStoppedAt := Some now\<rparr>;
         s1 = gpu_audit ''gpu.stop'' None None now (setState stopping s)
     in if gc_provider config = jarvislabs then
          (let (target, s2) = resolveMachineId env config st now s1
           in if target = '''' then stop_failed stopping ''no JarvisLabs instance id'' now s2
              else (let s3 = (if ge_jl_configured env then issue (Pause target) s2 else s2)
                    in case jl_pause env target of
                         Some message \<Rightarrow> stop_failed stopping message now s3
                       | None \<Rightarrow> (stopped, setState stopped s3)))
        else
          (let (error, s2) = callWebhook env (gc_stopWebhookUrl config) StopHook s1
           in case error of
                Some e \<Rightarrow> stop_failed stopping e now s2
              | None \<Rightarrow> (stopped, setState stopped s2)))"

section \<open>Manual control\<close>

definition holdIdle :: "int \<Rightarrow> uuid \<Rightarrow> ms \<Rightarrow> gpu_sys \<Rightarrow> GpuLifecycleState \<times> gpu_sys" where
  "holdIdle minutes userId now s =
    (let next = (lifecycle s)\<lparr>gs_holdUntil := Some (now + minutes * 60000)\<rparr>
     in (next, gpu_audit ''gpu.hold.set'' None (Some userId) now (setState next s)))"

definition clearHold :: "uuid \<Rightarrow> ms \<Rightarrow> gpu_sys \<Rightarrow> GpuLifecycleState \<times> gpu_sys" where
  "clearHold userId now s =
    (let next = (lifecycle s)\<lparr>gs_holdUntil := None\<rparr>
     in (next, gpu_audit ''gpu.hold.cleared'' None (Some userId) now (setState next s)))"

definition assertControllable :: "gpu_env \<Rightarrow> GpuAutostartConfig \<Rightarrow> unit outcome" where
  "assertControllable env config =
    (if gc_provider config = jarvislabs then
       (if \<not> ge_jl_configured env
        then Inl (BadRequest ''JarvisLabs control needs JL_API_KEY set on the API host'')
        else if gc_jarvislabsMachineId config = ''''
        then Inl (BadRequest ''No JarvisLabs instance id is configured'')
        else Inr ())
     else if gc_startWebhookUrl config = '''' \<or> gc_stopWebhookUrl config = ''''
     then Inl (BadRequest ''No GPU start/stop webhook is configured'')
     else Inr ())"

definition startNow :: "gpu_env \<Rightarrow> ms \<Rightarrow> gpu_sys \<Rightarrow> GpuLifecycleState outcome \<times> gpu_sys" where
  "startNow env now s =
    (case assertControllable env (autostart s) of
       Inl e \<Rightarrow> (Inl e, s)
     | Inr _ \<Rightarrow> let (st, s') = start env (autostart s) True now s in (Inr st, s'))"

definition stopNow :: "gpu_env \<Rightarrow> ms \<Rightarrow> gpu_sys \<Rightarrow> GpuLifecycleState outcome \<times> gpu_sys" where
  "stopNow env now s =
    (case assertControllable env (autostart s) of
       Inl e \<Rightarrow> (Inl e, s)
     | Inr _ \<Rightarrow> let (st, s') = stop env (autostart s) now s in (Inr st, s'))"

section \<open>The box's heartbeat\<close>

definition heartbeat :: "gpu_env \<Rightarrow> ms \<Rightarrow> gpu_sys \<Rightarrow> (bool \<times> int) \<times> gpu_sys" where
  "heartbeat env now s =
    (let config = autostart s; st = lifecycle s; qs = getQueueSummary env now;
         active = active_of qs; pending = pending_of qs;
         s1 = (if stuck_of qs > 0
               then gpu_audit ''gpu.jobs.stuck'' (Some AuditLevel_Warning) None now s else s)
     in if active > 0 then ((True, pending), s1)
        else if holding st now then ((True, pending), s1)
        else if pending > 0 then ((True, pending), s1)
        else if gs_state st = Gpu_stopping then ((False, pending), s1)
        else ((now - gs_since st < gc_idleShutdownMinutes config * 60 * 1000, pending), s1))"

section \<open>The sweep\<close>

text \<open>What a running box's sweep does once worker and record agree.\<close>

definition sweep_running ::
  "gpu_env \<Rightarrow> GpuAutostartConfig \<Rightarrow> GpuLifecycleState \<Rightarrow> int \<Rightarrow> int \<Rightarrow> ms \<Rightarrow> gpu_sys \<Rightarrow> gpu_sys" where
  "sweep_running env config st pending active now s =
    (if \<not> (pending = 0 \<and> active = 0)
     then (if gs_idleSince st \<noteq> None then setState (st\<lparr>gs_idleSince := None\<rparr>) s else s)
     else case gs_idleSince st of
            None \<Rightarrow> setState (st\<lparr>gs_idleSince := Some now\<rparr>) s
          | Some t \<Rightarrow>
              if \<not> holding st now \<and> now - t \<ge> gc_idleShutdownMinutes config * 60000
              then snd (stop env config now s) else s)"

text \<open>The sweep after the check of a box recorded as off.\<close>

definition sweep_known ::
  "gpu_env \<Rightarrow> GpuAutostartConfig \<Rightarrow> GpuLifecycleState \<Rightarrow> GpuQueueSummary list \<Rightarrow> bool \<Rightarrow> ms \<Rightarrow> gpu_sys \<Rightarrow> gpu_sys" where
  "sweep_known env config st qs workerOnline now s =
    (let pending = pending_of qs; active = active_of qs
     in if gs_state st = Gpu_starting \<and> workerOnline then
          gpu_audit ''gpu.running'' None None now
            (setState (st\<lparr>gs_state := Gpu_running, gs_since := now, gs_lastError := None, gs_idleSince := None\<rparr>) s)
        else if gs_state st = Gpu_starting \<and> now - gs_since st > gc_startTimeoutMinutes config * 60000 then
          snd (stop env config now (gpu_audit ''gpu.start.timeout'' (Some AuditLevel_Error) None now s))
        else if gs_state st = Gpu_running \<and> \<not> workerOnline then
          gpu_audit ''gpu.vanished'' (Some AuditLevel_Warning) None now
            (setState (st\<lparr>gs_state := Gpu_off, gs_since := now, gs_lastStoppedAt := Some now\<rparr>) s)
        else if gs_state st = Gpu_stopping \<and> \<not> workerOnline then
          gpu_audit ''gpu.off'' None None now
            (setState (st\<lparr>gs_state := Gpu_off, gs_since := now, gs_lastStoppedAt := Some now\<rparr>) s)
        else if gs_state st = Gpu_off \<and> evaluateTrigger config qs pending then
          snd (start env config False now s)
        else if gs_state st = Gpu_running then sweep_running env config st pending active now s
        else s)"

definition handleGpuLifecycleSweep :: "gpu_env \<Rightarrow> ms \<Rightarrow> gpu_sys \<Rightarrow> JobStatus \<times> gpu_sys" where
  "handleGpuLifecycleSweep env now s =
    (let config = autostart s
     in if \<not> gc_enabled config then (JobStatus_Skipped, s)
        else
          let st = lifecycle s; qs = getQueueSummary env now; workerOnline = isWorkerOnline env;
              (actual, s1) = (if gs_state st = Gpu_off then getProviderState env config st now s else (None, s))
          in if actual = Some P_running
             then (JobStatus_Success,
                   gpu_audit ''gpu.state.reconciled'' (Some AuditLevel_Warning) None now
                     (setState (st\<lparr>gs_state := Gpu_starting, gs_since := now, gs_lastStartedAt := Some now,
                                  gs_idleSince := None\<rparr>) s1))
             else (JobStatus_Success, sweep_known env config st qs workerOnline now s1))"

section \<open>The panel\<close>

record GpuStatus =
  gst_config :: GpuAutostartConfig
  gst_state :: GpuLifecycleState
  gst_queues :: "GpuQueueSummary list"
  gst_pending :: int
  gst_workerOnline :: bool
  gst_serverNow :: ms
  gst_instance :: "JarvisLabsInstance option"
  gst_oldestPendingAgeSeconds :: "int option"
  gst_nextAction :: "next_kind \<times> int option"
  gst_trigger :: bool
  gst_providerReady :: bool

definition gpu_getStatus :: "gpu_env \<Rightarrow> ms \<Rightarrow> gpu_sys \<Rightarrow> GpuStatus \<times> gpu_sys" where
  "gpu_getStatus env now s =
    (let config = autostart s; st = lifecycle s; qs = getQueueSummary env now;
         (inst, s') = getInstance env now s; pending = pending_of qs;
         ages = somes (map gq_oldestWaitingAgeSeconds qs)
     in (\<lparr>gst_config = config, gst_state = st, gst_queues = qs, gst_pending = pending,
          gst_workerOnline = isWorkerOnline env, gst_serverNow = now, gst_instance = inst,
          gst_oldestPendingAgeSeconds = (case ages of [] \<Rightarrow> None | a # as \<Rightarrow> Some (max_from a as)),
          gst_nextAction = predictNextAction config st qs pending now,
          gst_trigger = evaluateTrigger config qs pending,
          gst_providerReady =
            (if gc_provider config = jarvislabs
             then ge_jl_configured env \<and> gc_jarvislabsMachineId config \<noteq> ''''
             else gc_startWebhookUrl config \<noteq> '''' \<and> gc_stopWebhookUrl config \<noteq> '''')\<rparr>, s'))"

definition testProvider :: "gpu_env \<Rightarrow> ms \<Rightarrow> gpu_sys \<Rightarrow> (bool \<times> string) \<times> gpu_sys" where
  "testProvider env now s =
    (let config = autostart s
     in if gc_provider config \<noteq> jarvislabs then
          (if gc_startWebhookUrl config \<noteq> '''' \<and> gc_stopWebhookUrl config \<noteq> ''''
           then ((True, ''Start and stop webhooks are configured''), s)
           else ((False, ''Start/stop webhook URLs are missing''), s))
        else if \<not> ge_jl_configured env then ((False, ''JL_API_KEY is not set on the API host''), s)
        else
          (let (target, s') = resolveMachineId env config (lifecycle s) now s
           in if target = '''' then ((False, ''No JarvisLabs instance id is configured''), s')
              else (case jl_get env target of
                      Inl message \<Rightarrow> ((False, message), s')
                    | Inr None \<Rightarrow> ((False, ''JarvisLabs returned no instance for id '' @ target), s')
                    | Inr (Some i) \<Rightarrow>
                        ((True, ''Instance '' @ ji_machineId i @ '' is '' @ or_default (ji_status i) ''reachable''), s'))))"

section \<open>What the helpers leave alone\<close>

lemma lifecycle_setState [simp]: "lifecycle (setState st s) = st"
  by (simp add: lifecycle_def setState_def)

lemma gpu_frames [simp, frame_simps]:
  "lifecycle (gpu_audit a l u now s) = lifecycle s" "lifecycle (issue c s) = lifecycle s"
  "autostart (gpu_audit a l u now s) = autostart s" "autostart (issue c s) = autostart s"
  "autostart (setState st s) = autostart s"
  "gy_calls (gpu_audit a l u now s) = gy_calls s" "gy_calls (setState st s) = gy_calls s"
  "gy_calls (issue c s) = gy_calls s @ [c]"
  "gy_instanceCache (gpu_audit a l u now s) = gy_instanceCache s"
  "gy_instanceCache (setState st s) = gy_instanceCache s"
  "gy_instanceCache (issue c s) = gy_instanceCache s"
  by (simp_all add: lifecycle_def autostart_def gpu_audit_def setState_def issue_def
      getGpuLifecycleState_def getGpuAutostartConfig_def record_audit_def audit_create_def
      setGpuLifecycleState_def)

lemma cache_frames [simp]:
  "lifecycle (s\<lparr>gy_instanceCache := c\<rparr>) = lifecycle s" "autostart (s\<lparr>gy_instanceCache := c\<rparr>) = autostart s"
  "lifecycle (s\<lparr>gy_lastProviderCheckAt := t\<rparr>) = lifecycle s"
  "autostart (s\<lparr>gy_lastProviderCheckAt := t\<rparr>) = autostart s"
  by (simp_all add: lifecycle_def autostart_def)

lemma lifecycle_configure [simp]:
  "lifecycle (s\<lparr>gy_world := (gy_world s)\<lparr>gpuAutostart := c\<rparr>\<rparr>) = lifecycle s"
  by (simp add: lifecycle_def getGpuLifecycleState_def)

lemma getInstance_frames [simp]:
  "lifecycle (snd (getInstance env now s)) = lifecycle s"
  "autostart (snd (getInstance env now s)) = autostart s"
  "gy_calls (snd (getInstance env now s)) = gy_calls s"
  by (simp_all add: getInstance_def listInstance_def Let_def split: option.splits)

lemma resolveMachineId_frames [simp]:
  "lifecycle (snd (resolveMachineId env config st now s)) = lifecycle s"
  "autostart (snd (resolveMachineId env config st now s)) = autostart s"
  "gy_calls (snd (resolveMachineId env config st now s)) = gy_calls s"
  by (simp_all add: resolveMachineId_def split_beta)

lemma getProviderState_frames [simp]:
  "lifecycle (snd (getProviderState env config st now s)) = lifecycle s"
  "autostart (snd (getProviderState env config st now s)) = autostart s"
  "gy_calls (snd (getProviderState env config st now s)) = gy_calls s"
  by (simp_all add: getProviderState_def Let_def split_beta split: sum.splits)

lemma webhook_frames [simp]:
  "lifecycle (snd (callWebhook env url c s)) = lifecycle s"
  "autostart (snd (callWebhook env url c s)) = autostart s"
  by (simp_all add: callWebhook_def)

lemma pending_state_simps [simp]:
  "gs_state (pending_state config manual now st) = Gpu_starting"
  "gs_idleSince (pending_state config manual now st) = None"
  "gs_since (pending_state config manual now st) = now"
  by (simp_all add: pending_state_def)

section \<open>Starting and stopping, branch by branch\<close>

text \<open>The returned state is the stored one.\<close>

lemma start_failed_simps [simp]:
  "lifecycle (snd (start_failed p m now s)) = fst (start_failed p m now s)"
  "fst (start_failed p m now s) = p\<lparr>gs_state := Gpu_off, gs_lastError := Some m\<rparr>"
  "gy_calls (snd (start_failed p m now s)) = gy_calls s"
  by (simp_all add: start_failed_def Let_def)

lemma stop_failed_simps [simp]:
  "lifecycle (snd (stop_failed p m now s)) = fst (stop_failed p m now s)"
  "fst (stop_failed p m now s) = p\<lparr>gs_lastError := Some m\<rparr>"
  "gy_calls (snd (stop_failed p m now s)) = gy_calls s"
  by (simp_all add: stop_failed_def Let_def)

lemma start_jarvislabs_effect:
  assumes "lifecycle s = p" "gs_state p = Gpu_starting" "gs_idleSince p = None"
  shows "lifecycle (snd (start_jarvislabs env config st p now s)) = fst (start_jarvislabs env config st p now s)"
    and "gs_idleSince (fst (start_jarvislabs env config st p now s)) = None"
    and "gs_state (fst (start_jarvislabs env config st p now s)) = Gpu_starting \<or>
         gs_state (fst (start_jarvislabs env config st p now s)) = Gpu_off
           \<and> gs_lastError (fst (start_jarvislabs env config st p now s)) \<noteq> None"
  using assms by (simp_all add: start_jarvislabs_def Let_def split_beta split: sum.splits)

lemma start_jarvislabs_calls:
  "gy_calls (snd (start_jarvislabs env config st p now s)) = gy_calls s \<or>
   (\<exists>i. gy_calls (snd (start_jarvislabs env config st p now s)) = gy_calls s @ [Resume i])"
  by (simp add: start_jarvislabs_def Let_def split_beta split: sum.splits)

lemma start_returns_state: "lifecycle (snd (start env config manual now s)) = fst (start env config manual now s)"
  by (auto simp: start_def Let_def split_beta start_jarvislabs_effect(1) split: option.splits)

lemma start_from_rest:
  assumes "gs_state (lifecycle s) \<notin> {Gpu_starting, Gpu_running}"
  shows "gs_idleSince (fst (start env config manual now s)) = None"
    and "gs_state (fst (start env config manual now s)) = Gpu_starting \<or>
         gs_state (fst (start env config manual now s)) = Gpu_off
           \<and> gs_lastError (fst (start env config manual now s)) \<noteq> None"
  using assms start_jarvislabs_effect(2,3)
    [of "gpu_audit ''gpu.start'' None None now (setState (pending_state config manual now (lifecycle s)) s)"]
  by (auto simp: start_def Let_def split_beta split: option.splits)

lemma start_when_up:
  assumes "gs_state (lifecycle s) \<in> {Gpu_starting, Gpu_running}"
  shows "gs_state (fst (start env config manual now s)) = gs_state (lifecycle s)"
    and "gs_idleSince (fst (start env config manual now s)) = gs_idleSince (lifecycle s)"
    and "gy_calls (snd (start env config manual now s)) = gy_calls s"
  using assms by (auto simp: start_def Let_def)

definition is_start :: "gpu_call \<Rightarrow> bool" where
  "is_start c = (case c of StartHook \<Rightarrow> True | Resume _ \<Rightarrow> True | _ \<Rightarrow> False)"

lemma start_calls:
  "gy_calls (snd (start env config manual now s)) = gy_calls s \<or>
   (\<exists>c. is_start c \<and> gy_calls (snd (start env config manual now s)) = gy_calls s @ [c])"
  using start_jarvislabs_calls [of env config "lifecycle s" "pending_state config manual now (lifecycle s)" now
      "gpu_audit ''gpu.start'' None None now (setState (pending_state config manual now (lifecycle s)) s)"]
  by (auto simp: start_def Let_def split_beta callWebhook_def is_start_def split: option.splits)

lemma stop_returns_state: "lifecycle (snd (stop env config now s)) = fst (stop env config now s)"
  by (auto simp: stop_def Let_def split_beta split: option.splits)

lemma stop_effect:
  "gs_state (fst (stop env config now s)) \<in> {Gpu_off, Gpu_stopping}"
  "gs_idleSince (fst (stop env config now s)) = None"
  "gs_holdUntil (fst (stop env config now s)) = None"
  by (auto simp: stop_def Let_def split_beta split: option.splits)

lemma stop_calls:
  "gy_calls (snd (stop env config now s)) = gy_calls s \<or>
   (\<exists>c. \<not> is_start c \<and> gy_calls (snd (stop env config now s)) = gy_calls s @ [c])"
  by (auto simp: stop_def Let_def split_beta callWebhook_def is_start_def split: option.splits)

lemmas start_stop_facts = start_returns_state stop_returns_state start_when_up stop_effect

section \<open>The service as a state machine\<close>

text \<open>Every entry point that can change the service's state, the configuration page included.\<close>

datatype gpu_op =
    Sweep gpu_env | Hold int uuid | ClearHold uuid | StartNow gpu_env | StopNow gpu_env
  | Heartbeat gpu_env | ViewStatus gpu_env | TestProvider gpu_env | Configure GpuAutostartConfig

fun gpu_step :: "gpu_op \<Rightarrow> ms \<Rightarrow> gpu_sys \<Rightarrow> gpu_sys" where
  "gpu_step (Sweep env) now s = snd (handleGpuLifecycleSweep env now s)"
| "gpu_step (Hold minutes u) now s = snd (holdIdle minutes u now s)"
| "gpu_step (ClearHold u) now s = snd (clearHold u now s)"
| "gpu_step (StartNow env) now s = snd (startNow env now s)"
| "gpu_step (StopNow env) now s = snd (stopNow env now s)"
| "gpu_step (Heartbeat env) now s = snd (heartbeat env now s)"
| "gpu_step (ViewStatus env) now s = snd (gpu_getStatus env now s)"
| "gpu_step (TestProvider env) now s = snd (testProvider env now s)"
| "gpu_step (Configure c) now s = s\<lparr>gy_world := (gy_world s)\<lparr>gpuAutostart := Some c\<rparr>\<rparr>"

definition queues_idle :: "gpu_env \<Rightarrow> ms \<Rightarrow> bool" where
  "queues_idle env now \<longleftrightarrow> pending_of (getQueueSummary env now) = 0 \<and> active_of (getQueueSummary env now) = 0"

text \<open>How one step moves the recorded state, apart from a sweep of a running box.\<close>

definition calm_move :: "GpuLifecycleState \<Rightarrow> GpuLifecycleState \<Rightarrow> bool" where
  "calm_move st st' \<longleftrightarrow>
     (gs_state st' = gs_state st \<and> gs_idleSince st' = gs_idleSince st)
     \<or> gs_state st' \<in> {Gpu_off, Gpu_stopping}
     \<or> gs_state st' = Gpu_starting \<and> gs_idleSince st' = None
     \<or> gs_state st = Gpu_starting \<and> gs_state st' = Gpu_running \<and> gs_idleSince st' = None"

lemma calm_move_stop: "calm_move st (fst (stop env config now s))"
  using stop_effect(1) [of env config now s] by (simp add: calm_move_def)

lemma calm_move_start: "calm_move (lifecycle s) (fst (start env config manual now s))"
  using start_when_up(1,2) [of s env config manual now] start_from_rest [of s env config manual now]
  by (cases "gs_state (lifecycle s) \<in> {Gpu_starting, Gpu_running}") (auto simp: calm_move_def)

lemma calm_move_refl [simp]: "calm_move st st"
  by (simp add: calm_move_def)

lemma calm_move_manual: "\<forall>env. op \<noteq> Sweep env \<Longrightarrow> calm_move (lifecycle s) (lifecycle (gpu_step op now s))"
  by (cases op)
    (auto simp: holdIdle_def clearHold_def startNow_def stopNow_def heartbeat_def gpu_getStatus_def
      testProvider_def Let_def split_beta start_returns_state stop_returns_state calm_move_stop calm_move_start
      calm_move_def [of "lifecycle s" "lifecycle s\<lparr>gs_holdUntil := h\<rparr>" for h]
      split: sum.splits option.splits)

lemma sweep_known_move:
  assumes "lifecycle s = st"
  shows "calm_move st (lifecycle (sweep_known env config st qs online now s)) \<or>
    gs_state st = Gpu_running \<and> online \<and>
      sweep_known env config st qs online now s = sweep_running env config st (pending_of qs) (active_of qs) now s"
  using assms calm_move_start [of s env config False now]
  by (auto simp: sweep_known_def Let_def start_returns_state stop_returns_state calm_move_stop
      calm_move_def [of st "st\<lparr>gs_state := x, gs_since := y, gs_lastStoppedAt := z\<rparr>" for x y z]
      calm_move_def [of st "st\<lparr>gs_state := x, gs_since := y, gs_lastError := e, gs_idleSince := z\<rparr>" for x y z e])

lemma sweep_move:
  "calm_move (lifecycle s) (lifecycle (gpu_step (Sweep env) now s)) \<or>
   gs_state (lifecycle s) = Gpu_running \<and> isWorkerOnline env \<and> gc_enabled (autostart s) \<and>
     gpu_step (Sweep env) now s =
       sweep_running env (autostart s) (lifecycle s) (pending_of (getQueueSummary env now))
         (active_of (getQueueSummary env now)) now s"
proof (cases "gs_state (lifecycle s) = Gpu_off")
  case True
  let ?p = "getProviderState env (autostart s) (lifecycle s) now s"
  have "calm_move (lifecycle s) (lifecycle (sweep_known env (autostart s) (lifecycle s)
      (getQueueSummary env now) (isWorkerOnline env) now (snd ?p)))"
    using sweep_known_move [of "snd ?p" "lifecycle s" env "autostart s" "getQueueSummary env now" "isWorkerOnline env" now]
      True by simp
  with True show ?thesis
    by (auto simp: handleGpuLifecycleSweep_def Let_def split_beta
        calm_move_def [of "lifecycle s" "lifecycle s\<lparr>gs_state := x, gs_since := y, gs_lastStartedAt := z, gs_idleSince := u\<rparr>" for x y z u])
next
  case False
  then show ?thesis
    using sweep_known_move [OF refl, of s env "autostart s" "getQueueSummary env now" "isWorkerOnline env" now]
    by (auto simp: handleGpuLifecycleSweep_def Let_def)
qed

section \<open>Runs of the service\<close>

text \<open>
  A run adds the clock and, newest first, what each enabled sweep saw: the time and whether the GPU
  queues were empty. The clock never goes back.
\<close>

record gpu_run =
  gr_sys :: gpu_sys
  gr_clock :: ms
  gr_seen :: "(ms \<times> bool) list"

fun observed :: "gpu_op \<Rightarrow> ms \<Rightarrow> gpu_sys \<Rightarrow> (ms \<times> bool) list" where
  "observed (Sweep env) now s = (if gc_enabled (autostart s) then [(now, queues_idle env now)] else [])"
| "observed _ now s = []"

definition run_op :: "gpu_op \<Rightarrow> ms \<Rightarrow> gpu_run \<Rightarrow> gpu_run" where
  "run_op op now r = \<lparr>gr_sys = gpu_step op now (gr_sys r), gr_clock = now,
                      gr_seen = observed op now (gr_sys r) @ gr_seen r\<rparr>"

inductive gpu_run_step :: "gpu_run \<Rightarrow> gpu_op \<times> ms \<Rightarrow> gpu_run \<Rightarrow> bool" where
  "gr_clock r \<le> now \<Longrightarrow> gpu_run_step r (op, now) (run_op op now r)"

inductive_cases gpu_run_stepE: "gpu_run_step r l r'"

definition gpu_boot :: "gpu_run \<Rightarrow> bool" where
  "gpu_boot r \<longleftrightarrow> lifecycle (gr_sys r) = GPU_LIFECYCLE_INITIAL \<and> gr_seen r = []"

text \<open>
  A countdown that is running started at a sweep that saw empty queues, and every sweep since saw
  them empty.
\<close>

definition countdown_inv :: "gpu_run \<Rightarrow> bool" where
  "countdown_inv r \<longleftrightarrow>
     (let st = lifecycle (gr_sys r)
      in (gs_state st = Gpu_starting \<longrightarrow> gs_idleSince st = None) \<and>
         (\<forall>t. gs_state st = Gpu_running \<and> gs_idleSince st = Some t \<longrightarrow> (t, True) \<in> set (takeWhile snd (gr_seen r))))"

lemma calm_move_inv:
  assumes "countdown_inv r" "calm_move (lifecycle (gr_sys r)) (lifecycle s')"
    and "\<And>t. gs_state (lifecycle s') = Gpu_running \<Longrightarrow> gs_idleSince (lifecycle s') = Some t \<Longrightarrow>
           (t, True) \<in> set (takeWhile snd (gr_seen r)) \<Longrightarrow> (t, True) \<in> set (takeWhile snd seen)"
  shows "countdown_inv \<lparr>gr_sys = s', gr_clock = now, gr_seen = seen\<rparr>"
  using assms by (auto simp: countdown_inv_def calm_move_def Let_def)

lemma sweep_running_inv:
  assumes "countdown_inv r" "lifecycle (gr_sys r) = st" "gs_state st = Gpu_running"
  shows "countdown_inv \<lparr>gr_sys = sweep_running env config st pending active now (gr_sys r), gr_clock = now,
      gr_seen = (now, pending = 0 \<and> active = 0) # gr_seen r\<rparr>"
  using assms stop_effect(1) [of env config now "gr_sys r"]
  by (auto simp: countdown_inv_def sweep_running_def Let_def stop_returns_state split: option.splits)

lemma sweep_without_running_countdown:
  assumes "calm_move (lifecycle s) (lifecycle (gpu_step (Sweep env) now s))" "gc_enabled (autostart s)"
    "gs_state (lifecycle (gpu_step (Sweep env) now s)) = Gpu_running"
    "gs_idleSince (lifecycle (gpu_step (Sweep env) now s)) = Some t"
  shows "queues_idle env now"
proof (cases "gs_state (lifecycle s) = Gpu_running \<and> isWorkerOnline env")
  case True
  then show ?thesis
    using assms(2-4) by (auto simp: handleGpuLifecycleSweep_def sweep_known_def sweep_running_def Let_def
        queues_idle_def split: if_splits)
next
  case False
  then show ?thesis
    using assms by (auto simp: handleGpuLifecycleSweep_def sweep_known_def Let_def calm_move_def split: if_splits)
qed

lemma countdown_step: "countdown_inv r \<Longrightarrow> gpu_run_step r l r' \<Longrightarrow> countdown_inv r'"
proof (erule gpu_run_stepE)
  fix now op assume inv: "countdown_inv r" and l: "l = (op, now)" and r': "r' = run_op op now r"
  show "countdown_inv r'"
  proof (cases "\<exists>env. op = Sweep env")
    case False
    then have "observed op now (gr_sys r) = []" by (cases op) auto
    with False calm_move_manual [of op "gr_sys r" now] inv show ?thesis
      unfolding r' run_op_def by (intro calm_move_inv) auto
  next
    case True
    then obtain env where op: "op = Sweep env" by blast
    from sweep_move [of "gr_sys r" env now] show ?thesis
    proof
      assume calm: "calm_move (lifecycle (gr_sys r)) (lifecycle (gpu_step (Sweep env) now (gr_sys r)))"
      show ?thesis unfolding r' op run_op_def
        using sweep_without_running_countdown [OF calm]
        by (intro calm_move_inv [OF inv calm]) auto
    next
      assume "gs_state (lifecycle (gr_sys r)) = Gpu_running \<and> isWorkerOnline env \<and> gc_enabled (autostart (gr_sys r)) \<and>
        gpu_step (Sweep env) now (gr_sys r) =
          sweep_running env (autostart (gr_sys r)) (lifecycle (gr_sys r)) (pending_of (getQueueSummary env now))
            (active_of (getQueueSummary env now)) now (gr_sys r)"
      with sweep_running_inv [OF inv refl] show ?thesis
        by (simp add: r' op run_op_def queues_idle_def)
    qed
  qed
qed

lemma countdown_boot: "gpu_boot r \<Longrightarrow> countdown_inv r"
  by (simp add: gpu_boot_def countdown_inv_def GPU_LIFECYCLE_INITIAL_def Let_def)

interpretation gpu_countdown: invariant_system gpu_boot gpu_run_step countdown_inv
  by unfold_locales (blast intro: countdown_boot countdown_step)+

text \<open>
  C3. Never cut a batch short: when a sweep takes a running box with a live worker out of the running
  state, the GPU queues are empty at that moment, no hold is in force, and there was a sweep at least
  the whole idle window earlier since which every sweep saw the queues empty.
\<close>

theorem idle_stop_after_full_window:
  assumes "reachable gpu_boot gpu_run_step r"
    and "gs_state (lifecycle (gr_sys r)) = Gpu_running" "isWorkerOnline env"
    and "gs_state (lifecycle (gpu_step (Sweep env) now (gr_sys r))) \<noteq> Gpu_running"
  shows "queues_idle env now \<and> \<not> holding (lifecycle (gr_sys r)) now \<and>
    (\<exists>t. (t, True) \<in> set (takeWhile snd (gr_seen r)) \<and>
         now - t \<ge> gc_idleShutdownMinutes (autostart (gr_sys r)) * 60000)"
proof -
  let ?st = "lifecycle (gr_sys r)"
  have inv: "countdown_inv r" by (rule gpu_countdown.reachable_inv [OF assms(1)])
  have "gpu_step (Sweep env) now (gr_sys r) = (if gc_enabled (autostart (gr_sys r)) then
      sweep_running env (autostart (gr_sys r)) ?st (pending_of (getQueueSummary env now))
        (active_of (getQueueSummary env now)) now (gr_sys r) else gr_sys r)"
    using assms(2,3) by (simp add: handleGpuLifecycleSweep_def sweep_known_def Let_def)
  with assms(2,4) obtain t where "queues_idle env now" "gs_idleSince ?st = Some t" "\<not> holding ?st now"
      "now - t \<ge> gc_idleShutdownMinutes (autostart (gr_sys r)) * 60000"
    by (auto simp: sweep_running_def queues_idle_def split: if_splits option.splits)
  with inv assms(2) show ?thesis by (auto simp: countdown_inv_def Let_def)
qed

section \<open>A concrete box\<close>

definition wit_gpu_config :: GpuAutostartConfig where
  "wit_gpu_config = GPU_AUTOSTART_DEFAULTS\<lparr>gc_enabled := True, gc_startWebhookUrl := ''up'', gc_stopWebhookUrl := ''down''\<rparr>"

definition wit_gpu_env :: gpu_env where
  "wit_gpu_env =
    \<lparr>ge_counts = (\<lambda>_. \<lparr>jc_active = 0, jc_completed = 0, jc_failed = 0, jc_delayed = 0, jc_waiting = 0, jc_paused = 0\<rparr>),
     ge_oldestWaiting = (\<lambda>_. None), ge_oldestActive = (\<lambda>_. None), ge_telemetry = Some [[WorkerRole_Media]],
     ge_jl_configured = False, ge_jl_list = None, ge_jl_get = (\<lambda>_. Inr None), ge_jl_resume = (\<lambda>_ _. Inl ''''),
     ge_jl_pause = (\<lambda>_. None), ge_webhook = (\<lambda>_. None)\<rparr>"

definition wit_gpu_state :: "GpuState \<Rightarrow> ms \<Rightarrow> ms option \<Rightarrow> GpuLifecycleState" where
  "wit_gpu_state x since idle = GPU_LIFECYCLE_INITIAL\<lparr>gs_state := x, gs_since := since, gs_lastStartedAt := Some 1,
     gs_idleSince := idle\<rparr>"

definition wit_gpu_sys :: "GpuLifecycleState option \<Rightarrow> gpu_sys" where
  "wit_gpu_sys st = \<lparr>gy_world = empty_world\<lparr>gpuAutostart := Some wit_gpu_config, gpuLifecycle := st\<rparr>,
     gy_lastProviderCheckAt = 0, gy_instanceCache = None, gy_calls = []\<rparr>"

lemma wit_gpu_sys_simps [simp]:
  "lifecycle (wit_gpu_sys (Some st)) = st" "lifecycle (wit_gpu_sys None) = GPU_LIFECYCLE_INITIAL"
  "autostart (wit_gpu_sys st') = wit_gpu_config"
  by (simp_all add: wit_gpu_sys_def lifecycle_def autostart_def getGpuLifecycleState_def getGpuAutostartConfig_def)

lemma wit_gpu_config_simps [simp]:
  "gc_enabled wit_gpu_config" "gc_provider wit_gpu_config = webhook" "gc_idleShutdownMinutes wit_gpu_config = 10"
  "gc_startTimeoutMinutes wit_gpu_config = 20" "gc_pendingThreshold wit_gpu_config = 25"
  "gc_startWebhookUrl wit_gpu_config = ''up''" "gc_stopWebhookUrl wit_gpu_config = ''down''"
  by (simp_all add: wit_gpu_config_def GPU_AUTOSTART_DEFAULTS_def)

lemma idle_when_empty:
  assumes "\<And>q. q \<in> set GPU_QUEUES \<Longrightarrow>
      jc_waiting (ge_counts env q) = 0 \<and> jc_delayed (ge_counts env q) = 0 \<and>
      gq_liveActive (queue_summary env now q) = 0"
  shows "queues_idle env now"
proof -
  have "map (\<lambda>q. gq_waiting q + gq_liveActive q + gq_delayed q) (getQueueSummary env now) = map (\<lambda>_. 0) GPU_QUEUES"
    and "map gq_liveActive (getQueueSummary env now) = map (\<lambda>_. 0) GPU_QUEUES"
    using assms by (simp_all add: getQueueSummary_def) (simp add: queue_summary_def Let_def)
  then show ?thesis by (simp add: queues_idle_def pending_of_def active_of_def sum_list_0)
qed

lemma wit_gpu_env_simps [simp]: "isWorkerOnline wit_gpu_env" "queues_idle wit_gpu_env now"
  by (simp add: isWorkerOnline_def wit_gpu_env_def)
    (rule idle_when_empty, simp add: wit_gpu_env_def queue_summary_def Let_def truthy_ts_def)

lemma wit_gpu_calm [simp]:
  "pending_of (getQueueSummary wit_gpu_env now) = 0" "active_of (getQueueSummary wit_gpu_env now) = 0"
  using wit_gpu_env_simps(2) [of now] by (simp_all add: queues_idle_def)

lemma reach_run_op:
  "reachable gpu_boot gpu_run_step r \<Longrightarrow> gr_clock r \<le> now \<Longrightarrow> reachable gpu_boot gpu_run_step (run_op op now r)"
  by (blast intro: reach_step gpu_run_step.intros)

definition wit_run0 :: gpu_run where
  "wit_run0 = \<lparr>gr_sys = wit_gpu_sys None, gr_clock = 0, gr_seen = []\<rparr>"

definition wit_run1 :: gpu_run where "wit_run1 = run_op (StartNow wit_gpu_env) 1 wit_run0"
definition wit_run2 :: gpu_run where "wit_run2 = run_op (Sweep wit_gpu_env) 2 wit_run1"
definition wit_gpu_run :: gpu_run where "wit_gpu_run = run_op (Sweep wit_gpu_env) 3 wit_run2"

lemma wit_run1_facts:
  "lifecycle (gr_sys wit_run1) = wit_gpu_state Gpu_starting 1 None
       \<lparr>gs_holdUntil := Some 600001\<rparr>"
  "autostart (gr_sys wit_run1) = wit_gpu_config" "gr_seen wit_run1 = []"
  by (simp_all add: wit_run1_def wit_run0_def run_op_def startNow_def assertControllable_def start_def
      callWebhook_def wit_gpu_env_def Let_def GPU_LIFECYCLE_INITIAL_def pending_state_def wit_gpu_state_def)

lemma wit_run2_facts:
  "lifecycle (gr_sys wit_run2) = wit_gpu_state Gpu_running 2 None\<lparr>gs_holdUntil := Some 600001\<rparr>"
  "autostart (gr_sys wit_run2) = wit_gpu_config" "gr_seen wit_run2 = [(2, True)]"
  by (simp_all add: wit_run2_def run_op_def handleGpuLifecycleSweep_def sweep_known_def Let_def wit_run1_facts)
    (simp_all add: wit_gpu_state_def GPU_LIFECYCLE_INITIAL_def wit_run1_facts)

lemma wit_gpu_run_facts:
  "lifecycle (gr_sys wit_gpu_run) = wit_gpu_state Gpu_running 2 (Some 3)\<lparr>gs_holdUntil := Some 600001\<rparr>"
  "autostart (gr_sys wit_gpu_run) = wit_gpu_config" "gr_seen wit_gpu_run = [(3, True), (2, True)]"
  by (simp_all add: wit_gpu_run_def run_op_def handleGpuLifecycleSweep_def sweep_known_def sweep_running_def
      Let_def wit_run2_facts)
    (simp_all add: wit_gpu_state_def GPU_LIFECYCLE_INITIAL_def wit_run2_facts)

lemma wit_gpu_run_reachable: "reachable gpu_boot gpu_run_step wit_gpu_run"
proof -
  have "reachable gpu_boot gpu_run_step wit_run0"
    by (rule reach_start) (simp add: gpu_boot_def wit_run0_def)
  then have "reachable gpu_boot gpu_run_step wit_run1"
    unfolding wit_run1_def by (rule reach_run_op) (simp add: wit_run0_def)
  then have "reachable gpu_boot gpu_run_step wit_run2"
    unfolding wit_run2_def by (rule reach_run_op) (simp add: wit_run1_def run_op_def)
  then show ?thesis
    unfolding wit_gpu_run_def by (rule reach_run_op) (simp add: wit_run2_def run_op_def)
qed

theorem idle_stop_after_full_window_witness:
  "\<exists>t. (t, True) \<in> set (takeWhile snd (gr_seen wit_gpu_run)) \<and> 600003 - t \<ge> 10 * 60000"
proof -
  have "gs_state (lifecycle (gpu_step (Sweep wit_gpu_env) 600003 (gr_sys wit_gpu_run))) \<noteq> Gpu_running"
    using stop_effect(1) [of wit_gpu_env wit_gpu_config 600003 "gr_sys wit_gpu_run"]
    by (auto simp: wit_gpu_run_facts handleGpuLifecycleSweep_def sweep_known_def sweep_running_def Let_def
        wit_gpu_state_def holding_def GPU_LIFECYCLE_INITIAL_def stop_returns_state)
  from idle_stop_after_full_window [OF wit_gpu_run_reachable _ _ this]
  show ?thesis by (simp add: wit_gpu_run_facts wit_gpu_state_def)
qed

section \<open>A duplicate start is a duplicate bill\<close>

definition new_calls :: "gpu_op \<Rightarrow> ms \<Rightarrow> gpu_sys \<Rightarrow> gpu_call list" where
  "new_calls op now s = drop (length (gy_calls s)) (gy_calls (gpu_step op now s))"

definition start_recorded :: "GpuLifecycleState \<Rightarrow> bool" where
  "start_recorded st \<longleftrightarrow> gs_state st = Gpu_starting \<or> gs_state st = Gpu_off \<and> gs_lastError st \<noteq> None"

lemma start_calls_recorded:
  assumes "gs_state (lifecycle s) \<in> {Gpu_off, Gpu_stopping}"
  shows "start_recorded (lifecycle (snd (start env config manual now s)))"
  using start_from_rest(2) [of s env config manual now] assms by (auto simp: start_recorded_def start_returns_state)

lemma sweep_known_calls:
  assumes "lifecycle s = st"
  shows "gy_calls (sweep_known env config st qs online now s) = gy_calls s \<or>
    (\<exists>c. gy_calls (sweep_known env config st qs online now s) = gy_calls s @ [c] \<and>
      (is_start c \<longrightarrow> gs_state st = Gpu_off \<and> start_recorded (lifecycle (sweep_known env config st qs online now s))))"
  using assms start_calls [of env config False now s] start_calls_recorded [of s env config False now]
    stop_calls [of env config now s]
    stop_calls [of env config now "gpu_audit ''gpu.start.timeout'' (Some AuditLevel_Error) None now s"]
  by (auto simp: sweep_known_def sweep_running_def Let_def split: option.splits)

text \<open>
  C6. One entry point issues at most one command to the provider, and it issues a start command only
  when the box was recorded as off or stopping; afterwards the box is recorded as starting, or as off
  with the provider's error. So no start follows a start without a stop or a recorded failure.
\<close>

theorem no_duplicate_start:
  "gy_calls (gpu_step op now s) = gy_calls s @ new_calls op now s \<and> length (new_calls op now s) \<le> 1 \<and>
   (\<forall>c \<in> set (new_calls op now s). is_start c \<longrightarrow>
      gs_state (lifecycle s) \<in> {Gpu_off, Gpu_stopping} \<and>
      (gs_state (lifecycle (gpu_step op now s)) = Gpu_starting \<or>
       gs_state (lifecycle (gpu_step op now s)) = Gpu_off \<and> gs_lastError (lifecycle (gpu_step op now s)) \<noteq> None))"
proof -
  have "gy_calls (gpu_step op now s) = gy_calls s \<or>
    (\<exists>c. gy_calls (gpu_step op now s) = gy_calls s @ [c] \<and>
      (is_start c \<longrightarrow> gs_state (lifecycle s) \<in> {Gpu_off, Gpu_stopping} \<and> start_recorded (lifecycle (gpu_step op now s))))"
  proof (cases op)
    case (Sweep env)
    let ?s1 = "if gs_state (lifecycle s) = Gpu_off then snd (getProviderState env (autostart s) (lifecycle s) now s) else s"
    have "gpu_step op now s = sweep_known env (autostart s) (lifecycle s) (getQueueSummary env now) (isWorkerOnline env) now ?s1
        \<or> gy_calls (gpu_step op now s) = gy_calls s"
      using Sweep by (auto simp: handleGpuLifecycleSweep_def Let_def split_beta)
    with sweep_known_calls [of ?s1 "lifecycle s" env "autostart s" "getQueueSummary env now" "isWorkerOnline env" now]
    show ?thesis by (auto split: if_splits)
  next
    case (StartNow env)
    show ?thesis
    proof (cases "gs_state (lifecycle s) \<in> {Gpu_starting, Gpu_running}")
      case True
      with StartNow start_when_up(3) [OF True, of env "autostart s" True now] show ?thesis
        by (auto simp: startNow_def split_beta split: sum.splits)
    next
      case False
      then have rest: "gs_state (lifecycle s) \<in> {Gpu_off, Gpu_stopping}" by (cases "gs_state (lifecycle s)") auto
      from StartNow have "gpu_step op now s = s \<or> gpu_step op now s = snd (start env (autostart s) True now s)"
        by (auto simp: startNow_def split_beta split: sum.splits)
      with start_calls [of env "autostart s" True now s] start_calls_recorded [OF rest, of env "autostart s" True now] rest
      show ?thesis by metis
    qed
  next
    case (StopNow env)
    then show ?thesis using stop_calls [of env "autostart s" now s]
      by (auto simp: stopNow_def split_beta split: sum.splits)
  qed (auto simp: holdIdle_def clearHold_def heartbeat_def gpu_getStatus_def testProvider_def Let_def split_beta
      split: sum.splits option.splits)
  then show ?thesis by (auto simp: new_calls_def start_recorded_def)
qed

theorem no_duplicate_start_witness:
  "new_calls (StartNow wit_gpu_env) 1 (wit_gpu_sys None) = [StartHook] \<and>
   gs_state (lifecycle (gpu_step (StartNow wit_gpu_env) 1 (wit_gpu_sys None))) = Gpu_starting"
proof -
  have "new_calls (StartNow wit_gpu_env) 1 (wit_gpu_sys None) = [StartHook]"
    by (simp add: new_calls_def startNow_def assertControllable_def start_def callWebhook_def Let_def wit_gpu_env_def)
      (simp add: GPU_LIFECYCLE_INITIAL_def wit_gpu_sys_def)
  with no_duplicate_start [of "StartNow wit_gpu_env" 1 "wit_gpu_sys None"] wit_run1_facts(1)
  show ?thesis by (simp add: is_start_def wit_run1_def wit_run0_def run_op_def wit_gpu_state_def)
qed

end
