(* ===== verification/GpuPolicy.thy ===== *)
theory GpuPolicy
  imports GpuLifecycle
begin

text \<open>
  What the GPU lifecycle guarantees around the idle countdown: an idle box is stopped, orphaned jobs
  do not hold it up, an unresponsive box is written off, a hold is respected, the panel predicts the
  sweep; and two places where the code departs from its own comments (the heartbeat's idle window and
  the instance cache after a resume).
\<close>

section \<open>Never idle\<close>

text \<open>No waiting or delayed job, and active ones only where they are past any real job's length.\<close>

definition only_orphans :: "gpu_env \<Rightarrow> ms \<Rightarrow> bool" where
  "only_orphans env now \<longleftrightarrow>
     (\<forall>q \<in> set GPU_QUEUES. jc_waiting (ge_counts env q) = 0 \<and> jc_delayed (ge_counts env q) = 0 \<and>
        (jc_active (ge_counts env q) = 0 \<or>
         (case ge_oldestActive env q of None \<Rightarrow> False | Some t \<Rightarrow> t \<noteq> 0 \<and> now - t > STUCK_ACTIVE_AFTER_MS)))"

lemma only_orphans_idle: "only_orphans env now \<Longrightarrow> queues_idle env now"
  by (rule idle_when_empty)
    (auto simp: only_orphans_def queue_summary_def truthy_ts_def Let_def split: option.splits)

lemma sweep_of_running_box:
  assumes "gc_enabled (autostart s)" "gs_state (lifecycle s) = Gpu_running" "isWorkerOnline env"
  shows "gpu_step (Sweep env) now s =
    sweep_running env (autostart s) (lifecycle s) (pending_of (getQueueSummary env now))
      (active_of (getQueueSummary env now)) now s"
  using assms by (simp add: handleGpuLifecycleSweep_def sweep_known_def Let_def)

definition stopped_or_stopping :: "gpu_sys \<Rightarrow> bool" where
  "stopped_or_stopping s \<longleftrightarrow> gs_state (lifecycle s) \<in> {Gpu_off, Gpu_stopping}"

text \<open>
  Never idle: if a sweep finds a running box with nothing but orphaned jobs, and so does a sweep
  one idle window later when no hold is in force, then the box has been told to stop by then,
  whatever the state of the countdown was before.
\<close>

theorem idle_box_is_stopped:
  assumes "gc_enabled (autostart s)" "gs_state (lifecycle s) = Gpu_running"
    and "isWorkerOnline env1" "only_orphans env1 t1" "\<And>t. gs_idleSince (lifecycle s) = Some t \<Longrightarrow> t \<le> t1"
    and "isWorkerOnline env2" "only_orphans env2 t2" "\<not> holding (lifecycle s) t2"
    and "t2 - t1 \<ge> gc_idleShutdownMinutes (autostart s) * 60000"
  shows "stopped_or_stopping (gpu_step (Sweep env1) t1 s) \<or>
    stopped_or_stopping (gpu_step (Sweep env2) t2 (gpu_step (Sweep env1) t1 s))"
proof -
  let ?s1 = "gpu_step (Sweep env1) t1 s"
  have idle: "queues_idle env1 t1" "queues_idle env2 t2" using assms(4,7) by (auto intro: only_orphans_idle)
  have s1: "?s1 = sweep_running env1 (autostart s) (lifecycle s) 0 0 t1 s"
    using sweep_of_running_box [OF assms(1,2,3), of t1] idle(1) by (simp add: queues_idle_def)
  show ?thesis
  proof (cases "stopped_or_stopping ?s1")
    case False
    with s1 stop_effect(1) [of env1 "autostart s" t1 s] assms(5)
    obtain t where t: "gs_idleSince (lifecycle ?s1) = Some t" "t \<le> t1" "autostart ?s1 = autostart s"
        "gs_state (lifecycle ?s1) = gs_state (lifecycle s)" "gs_holdUntil (lifecycle ?s1) = gs_holdUntil (lifecycle s)"
      by (cases "gs_idleSince (lifecycle s)")
        (auto simp: sweep_running_def stopped_or_stopping_def stop_returns_state simp del: gpu_step.simps split: if_splits)
    have "gpu_step (Sweep env2) t2 ?s1 = sweep_running env2 (autostart s) (lifecycle ?s1) 0 0 t2 ?s1"
      using sweep_of_running_box [of ?s1 env2 t2] idle(2) assms(1,2,6) t
      by (simp add: queues_idle_def del: gpu_step.simps)
    also have "\<dots> = snd (stop env2 (autostart s) t2 ?s1)"
      using t assms(8,9) by (simp add: sweep_running_def holding_def del: gpu_step.simps)
    finally show ?thesis
      using stop_effect(1) [of env2 "autostart s" t2 ?s1]
      by (simp add: stopped_or_stopping_def stop_returns_state del: gpu_step.simps)
  qed simp
qed

lemma wit_only_orphans [simp]: "only_orphans wit_gpu_env now"
  by (simp add: only_orphans_def wit_gpu_env_def)

theorem idle_box_is_stopped_witness:
  "stopped_or_stopping (gpu_step (Sweep wit_gpu_env) 5 (wit_gpu_sys (Some (wit_gpu_state Gpu_running 2 None)))) \<or>
   stopped_or_stopping (gpu_step (Sweep wit_gpu_env) 600005
     (gpu_step (Sweep wit_gpu_env) 5 (wit_gpu_sys (Some (wit_gpu_state Gpu_running 2 None)))))"
  by (rule idle_box_is_stopped) (simp_all add: wit_gpu_state_def holding_def GPU_LIFECYCLE_INITIAL_def)

section \<open>An unresponsive box\<close>

text \<open>
  A box whose worker does not report is written off at the next enabled sweep: one that is
  starting longer than the start timeout is told to stop, one recorded as running or stopping is
  recorded as off, and a box still within its start timeout is left alone.
\<close>

theorem unresponsive_box_is_written_off:
  assumes "gc_enabled (autostart s)" "\<not> isWorkerOnline env"
  shows "(gs_state (lifecycle s) = Gpu_starting \<longrightarrow>
        (if now - gs_since (lifecycle s) > gc_startTimeoutMinutes (autostart s) * 60000
         then stopped_or_stopping (gpu_step (Sweep env) now s) else gpu_step (Sweep env) now s = s))
    \<and> (gs_state (lifecycle s) \<in> {Gpu_running, Gpu_stopping} \<longrightarrow>
        gs_state (lifecycle (gpu_step (Sweep env) now s)) = Gpu_off \<and>
        gs_lastStoppedAt (lifecycle (gpu_step (Sweep env) now s)) = Some now)"
  using assms stop_effect(1)
  by (auto simp: handleGpuLifecycleSweep_def sweep_known_def Let_def stopped_or_stopping_def stop_returns_state)

theorem unresponsive_box_is_written_off_witness:
  "gs_state (lifecycle (gpu_step (Sweep (wit_gpu_env\<lparr>ge_telemetry := Some []\<rparr>)) 9
     (wit_gpu_sys (Some (wit_gpu_state Gpu_running 2 None))))) = Gpu_off"
  using unresponsive_box_is_written_off
    [of "wit_gpu_sys (Some (wit_gpu_state Gpu_running 2 None))" "wit_gpu_env\<lparr>ge_telemetry := Some []\<rparr>" 9]
  by (simp add: isWorkerOnline_def wit_gpu_state_def)

section \<open>Holds\<close>

text \<open>
  A hold is absolute and effective: setting it again replaces it instead of adding to it, it does
  not start the box, and until it expires the heartbeat keeps the box up and no sweep that sees the
  worker takes it out of the running state.
\<close>

theorem hold_is_absolute_and_effective:
  assumes "now \<le> later" "later < now + minutes * 60000"
  shows "lifecycle (gpu_step (Hold minutes u) now (gpu_step (Hold m' u') now' s)) = lifecycle (gpu_step (Hold minutes u) now s)
    \<and> gs_state (lifecycle (gpu_step (Hold minutes u) now s)) = gs_state (lifecycle s)
    \<and> new_calls (Hold minutes u) now s = []
    \<and> fst (fst (heartbeat env later (gpu_step (Hold minutes u) now s)))
    \<and> (gs_state (lifecycle s) = Gpu_running \<and> isWorkerOnline env \<longrightarrow>
        gs_state (lifecycle (gpu_step (Sweep env) later (gpu_step (Hold minutes u) now s))) = Gpu_running)"
proof -
  have "holding (lifecycle (gpu_step (Hold minutes u) now s)) later"
    using assms by (simp add: holdIdle_def Let_def holding_def)
  then have sweep: "gs_state (lifecycle s) = Gpu_running \<and> isWorkerOnline env \<longrightarrow>
      gs_state (lifecycle (gpu_step (Sweep env) later (gpu_step (Hold minutes u) now s))) = Gpu_running"
    by (auto simp: handleGpuLifecycleSweep_def sweep_known_def sweep_running_def Let_def holdIdle_def
        split: option.splits)
  then show ?thesis
    using assms by (auto simp: holdIdle_def Let_def heartbeat_def holding_def new_calls_def)
qed

theorem hold_is_absolute_and_effective_witness:
  "fst (fst (heartbeat wit_gpu_env 100 (gpu_step (Hold 1 ''u'') 50 (wit_gpu_sys None))))"
  using hold_is_absolute_and_effective [of 50 100 1 "''u''" 2 "''u''" 10 "wit_gpu_sys None" wit_gpu_env] by simp

section \<open>The panel and the sweep\<close>

lemma predict_start_iff:
  "fst (predictNextAction config st qs pending now) = NA_start \<longleftrightarrow>
     gc_enabled config \<and> gs_state st = Gpu_off \<and> evaluateTrigger config qs pending"
  by (auto simp: predictNextAction_def evaluateTrigger_def Let_def)

text \<open>
  The panel's "what happens next" is what the sweep does: it announces a start exactly when the
  trigger fires for an enabled box that is off, the sweep at that moment then starts the box (or
  records why it could not), and when the panel announces none, a sweep with no news from the
  provider leaves a box that is off as it is.
\<close>

theorem panel_predicts_sweep:
  fixes env now s
  defines "p \<equiv> fst (gpu_getStatus env now s)"
  assumes "gs_state (lifecycle s) = Gpu_off"
    and "fst (getProviderState env (autostart s) (lifecycle s) now s) \<noteq> Some P_running"
  shows "(fst (gst_nextAction p) = NA_start \<longleftrightarrow> gc_enabled (autostart s) \<and> gst_trigger p)
    \<and> (fst (gst_nextAction p) = NA_start \<longrightarrow> start_recorded (lifecycle (gpu_step (Sweep env) now s)))
    \<and> (fst (gst_nextAction p) \<noteq> NA_start \<longrightarrow> lifecycle (gpu_step (Sweep env) now s) = lifecycle s)"
proof -
  let ?s1 = "snd (getProviderState env (autostart s) (lifecycle s) now s)"
  have sweep: "gc_enabled (autostart s) \<Longrightarrow> gpu_step (Sweep env) now s =
      sweep_known env (autostart s) (lifecycle s) (getQueueSummary env now) (isWorkerOnline env) now ?s1"
    using assms(2,3) by (simp add: handleGpuLifecycleSweep_def Let_def split_beta)
  have off: "\<not> gc_enabled (autostart s) \<Longrightarrow> gpu_step (Sweep env) now s = s"
    by (simp add: handleGpuLifecycleSweep_def Let_def)
  have rec: "start_recorded (lifecycle (snd (start env (autostart s) False now ?s1)))"
    using assms(2) by (intro start_calls_recorded) simp
  show ?thesis
    using assms(2) rec
    by (cases "gc_enabled (autostart s)")
      (auto simp: p_def gpu_getStatus_def Let_def split_beta predict_start_iff sweep off sweep_known_def
        simp del: gpu_step.simps)
qed

theorem panel_predicts_sweep_witness:
  "lifecycle (gpu_step (Sweep wit_gpu_env) 9 (wit_gpu_sys None)) = GPU_LIFECYCLE_INITIAL"
proof -
  have "fst (gst_nextAction (fst (gpu_getStatus wit_gpu_env 9 (wit_gpu_sys None)))) \<noteq> NA_start"
    by (simp add: gpu_getStatus_def Let_def split_beta predict_start_iff evaluateTrigger_def)
  then show ?thesis
    using panel_predicts_sweep [of "wit_gpu_sys None" wit_gpu_env 9]
    by (simp add: getProviderState_def) (simp add: GPU_LIFECYCLE_INITIAL_def)
qed

section \<open>A machine running behind our back\<close>

text \<open>
  A box recorded as off that the provider reports as running is adopted by the first enabled sweep
  that is at least ten minutes after the last look: it is recorded as starting from now on, so the
  start timeout and the idle rules apply to it, and no command is sent.
\<close>

theorem runaway_box_is_adopted:
  assumes "gc_enabled (autostart s)" "gs_state (lifecycle s) = Gpu_off" "gc_provider (autostart s) = jarvislabs"
    and "ge_jl_configured env" "now - gy_lastProviderCheckAt s \<ge> 600000"
    and "fst (resolveMachineId env (autostart s) (lifecycle s) now (s\<lparr>gy_lastProviderCheckAt := now\<rparr>)) = target"
    and "target \<noteq> ''''" "jl_get env target = Inr inst" "is_running_status inst"
  shows "gs_state (lifecycle (gpu_step (Sweep env) now s)) = Gpu_starting
    \<and> gs_since (lifecycle (gpu_step (Sweep env) now s)) = now
    \<and> gs_idleSince (lifecycle (gpu_step (Sweep env) now s)) = None \<and> new_calls (Sweep env) now s = []"
proof -
  have "js_or (Option.bind inst ji_status) '''' \<noteq> ''''"
    using assms(9) by (auto simp: is_running_status_def js_or_def toLowerCase_def split: option.splits)
  then have "fst (getProviderState env (autostart s) (lifecycle s) now s) = Some P_running"
    using assms by (simp add: getProviderState_def PROVIDER_CHECK_INTERVAL_MS_def Let_def split_beta)
  then show ?thesis
    using assms(1,2) by (simp add: handleGpuLifecycleSweep_def Let_def split_beta new_calls_def)
qed

definition wit_jl_config :: GpuAutostartConfig where
  "wit_jl_config = GPU_AUTOSTART_DEFAULTS\<lparr>gc_enabled := True, gc_provider := jarvislabs, gc_jarvislabsMachineId := ''old''\<rparr>"

definition wit_jl_sys :: gpu_sys where
  "wit_jl_sys = \<lparr>gy_world = empty_world\<lparr>gpuAutostart := Some wit_jl_config\<rparr>,
     gy_lastProviderCheckAt = 0, gy_instanceCache = None, gy_calls = []\<rparr>"

definition wit_jl_env :: "string \<Rightarrow> gpu_env" where
  "wit_jl_env status = wit_gpu_env\<lparr>ge_jl_configured := True,
     ge_jl_list := Some [\<lparr>ji_machineId = ''old'', ji_status = Some status\<rparr>],
     ge_jl_get := (\<lambda>i. Inr (Some \<lparr>ji_machineId = i, ji_status = Some status\<rparr>)),
     ge_jl_resume := (\<lambda>_ _. Inr \<lparr>ji_machineId = ''new'', ji_status = Some ''Running''\<rparr>)\<rparr>"

lemma wit_jl_simps [simp]:
  "autostart wit_jl_sys = wit_jl_config" "lifecycle wit_jl_sys = GPU_LIFECYCLE_INITIAL"
  "gc_enabled wit_jl_config" "gc_provider wit_jl_config = jarvislabs" "gc_jarvislabsMachineId wit_jl_config = ''old''"
  "ge_jl_configured (wit_jl_env st)"
  "ge_jl_list (wit_jl_env st) = Some [\<lparr>ji_machineId = ''old'', ji_status = Some st\<rparr>]"
  "jl_get (wit_jl_env st) i = Inr (Some \<lparr>ji_machineId = i, ji_status = Some st\<rparr>)"
  "jl_resume (wit_jl_env st) i g = Inr \<lparr>ji_machineId = ''new'', ji_status = Some ''Running''\<rparr>"
  "gy_instanceCache wit_jl_sys = None" "gy_lastProviderCheckAt wit_jl_sys = 0"
  by (simp_all add: wit_jl_sys_def wit_jl_config_def GPU_AUTOSTART_DEFAULTS_def wit_jl_env_def jl_get_def jl_resume_def
      autostart_def lifecycle_def getGpuAutostartConfig_def getGpuLifecycleState_def empty_world_def)

theorem runaway_box_is_adopted_witness:
  "gs_state (lifecycle (gpu_step (Sweep (wit_jl_env ''running'')) 600000 wit_jl_sys)) = Gpu_starting"
  using runaway_box_is_adopted [of wit_jl_sys "wit_jl_env ''running''" 600000 "''old''"
      "Some \<lparr>ji_machineId = ''old'', ji_status = Some ''running''\<rparr>"]
  by (simp add: resolveMachineId_def getInstance_def listInstance_def Let_def js_or_def is_running_status_def
      toLowerCase_def lower_char_def GPU_LIFECYCLE_INITIAL_def)

section \<open>The heartbeat measures the idle window from the wrong instant\<close>

text \<open>
  A running box that has been up for at least the idle window is told to shut down by its own
  heartbeat as soon as its queues are empty, no matter how recently they became empty, while the
  sweep at the same moment still counts down from the moment the queues drained and keeps it up.
\<close>

theorem heartbeat_gives_no_grace:
  assumes "gc_enabled (autostart s)" "gs_state (lifecycle s) = Gpu_running" "isWorkerOnline env"
    and "queues_idle env now" "\<not> holding (lifecycle s) now"
    and "now - gs_since (lifecycle s) \<ge> gc_idleShutdownMinutes (autostart s) * 60000"
    and "gs_idleSince (lifecycle s) = Some t" "now - t < gc_idleShutdownMinutes (autostart s) * 60000"
  shows "\<not> fst (fst (heartbeat env now s)) \<and> lifecycle (gpu_step (Sweep env) now s) = lifecycle s"
  using assms sweep_of_running_box [OF assms(1-3), of now]
  by (simp add: heartbeat_def Let_def queues_idle_def sweep_running_def)

theorem heartbeat_gives_no_grace_witness:
  "\<not> fst (fst (heartbeat wit_gpu_env 900000 (wit_gpu_sys (Some (wit_gpu_state Gpu_running 2 (Some 899000))))))"
  using heartbeat_gives_no_grace [of "wit_gpu_sys (Some (wit_gpu_state Gpu_running 2 (Some 899000)))" wit_gpu_env 900000 899000]
  by (simp add: wit_gpu_state_def holding_def GPU_LIFECYCLE_INITIAL_def)

section \<open>The instance cache outlives a resume\<close>

text \<open>
  A resume that hands back a new machine id leaves the cached listing in place: a stop within
  twenty seconds of the start pauses the machine that was listed before the resume, and not the one
  the state now records as running.
\<close>

theorem stop_after_resume_pauses_stale_machine:
  assumes "gc_provider (autostart s) = jarvislabs" "ge_jl_configured env" "gs_state (lifecycle s) = Gpu_off"
    and "gy_instanceCache s = None" "ge_jl_list env = Some [old]" "ji_machineId old \<noteq> ''''"
    and "jl_get env (ji_machineId old) = Inr (Some old)" "\<not> is_running_status (Some old)"
    and "\<And>g. jl_resume env (ji_machineId old) g = Inr new" "ji_machineId new \<noteq> ji_machineId old"
    and "ge_jl_configured env'" "later - now < 20000"
  shows "gs_machineId (lifecycle (snd (start env (autostart s) True now s))) = Some (ji_machineId new)
    \<and> gy_calls (snd (stop env' (autostart s) later (snd (start env (autostart s) True now s))))
        = gy_calls s @ [Resume (ji_machineId old), Pause (ji_machineId old)]"
proof -
  let ?p = "pending_state (autostart s) True now (lifecycle s)"
  let ?s1 = "gpu_audit ''gpu.start'' None None now (setState ?p s)"
  have target: "resolveMachineId env (autostart s) (lifecycle s) now ?s1
      = (ji_machineId old, ?s1\<lparr>gy_instanceCache := Some (now, Some old)\<rparr>)"
    using assms(2,4-6) by (simp add: resolveMachineId_def getInstance_def listInstance_def Let_def js_or_def)
  have "start env (autostart s) True now s = start_jarvislabs env (autostart s) (lifecycle s) ?p now ?s1"
    using assms(1,3) by (simp add: start_def Let_def)
  then have st: "lifecycle (snd (start env (autostart s) True now s)) = ?p\<lparr>gs_machineId := Some (ji_machineId new)\<rparr>"
    and calls: "gy_calls (snd (start env (autostart s) True now s)) = gy_calls s @ [Resume (ji_machineId old)]"
    and cache: "gy_instanceCache (snd (start env (autostart s) True now s)) = Some (now, Some old)"
    using assms(2,6-10) by (simp_all add: start_jarvislabs_def target Let_def)
  have "gy_calls (snd (stop env' (autostart s) later v)) = gy_calls v @ [Pause (ji_machineId old)]"
    if "gy_instanceCache v = Some (now, Some old)" for v
    using that assms(1,6,11,12)
    by (simp add: stop_def Let_def resolveMachineId_def getInstance_def INSTANCE_CACHE_MS_def js_or_def
        split: option.splits)
  from this [OF cache] st calls show ?thesis by simp
qed

theorem stop_after_resume_pauses_stale_machine_witness:
  "gy_calls (snd (stop (wit_jl_env ''Running'') wit_jl_config 10000 (snd (start (wit_jl_env ''Paused'') wit_jl_config True 0 wit_jl_sys))))
     = [Resume ''old'', Pause ''old'']"
  using stop_after_resume_pauses_stale_machine [of wit_jl_sys "wit_jl_env ''Paused''"
      "\<lparr>ji_machineId = ''old'', ji_status = Some ''Paused''\<rparr>" "\<lparr>ji_machineId = ''new'', ji_status = Some ''Running''\<rparr>"
      "wit_jl_env ''Running''" 10000 0]
  by (simp add: is_running_status_def toLowerCase_def lower_char_def GPU_LIFECYCLE_INITIAL_def)
    (simp add: wit_jl_sys_def)

end
