(* ===== verification/Text.thy ===== *)
theory Text
  imports Prelude
begin

text \<open>
  The string functions of JavaScript and Node the services use: \<^verbatim>\<open>Buffer\<close> hexadecimal,
  \<^verbatim>\<open>split\<close>, \<^verbatim>\<open>join\<close>, \<^verbatim>\<open>trim\<close> and \<^verbatim>\<open>decodeURIComponent\<close>. A string is the list of its UTF-8 bytes.
\<close>

section \<open>Buffers in hexadecimal\<close>

text \<open>\<^verbatim>\<open>Buffer.from(s, 'hex')\<close> stops at the first pair that is not hexadecimal.\<close>

definition hex_digit :: "char \<Rightarrow> nat option" where
  "hex_digit c =
    (let n = of_char c :: nat
     in if 48 \<le> n \<and> n \<le> 57 then Some (n - 48)
        else if 97 \<le> n \<and> n \<le> 102 then Some (n - 87)
        else if 65 \<le> n \<and> n \<le> 70 then Some (n - 55)
        else None)"

fun from_hex :: "string \<Rightarrow> string" where
  "from_hex (a # b # s) =
    (case (hex_digit a, hex_digit b) of
       (Some x, Some y) \<Rightarrow> char_of (16 * x + y) # from_hex s
     | _ \<Rightarrow> [])"
| "from_hex _ = []"

definition hex_char :: "nat \<Rightarrow> char" where
  "hex_char n = char_of (if n < 10 then n + 48 else n + 87)"

fun to_hex :: "string \<Rightarrow> string" where
  "to_hex [] = []"
| "to_hex (c # s) = hex_char (of_char c div 16) # hex_char (of_char c mod 16) # to_hex s"

lemma hex_digit_char: "n < 16 \<Longrightarrow> hex_digit (hex_char n) = Some n"
  by (auto simp: hex_digit_def hex_char_def Let_def)

lemma of_char_nat_less: "of_char c < (256 :: nat)"
  using mod_less_divisor [of 256 "of_char c :: nat"] by simp

lemma from_to_hex: "from_hex (to_hex s) = s"
proof (induction s)
  case (Cons c s)
  have "of_char c div 16 < (16 :: nat)" using of_char_nat_less [of c] by (simp add: less_mult_imp_div_less)
  then show ?case by (simp add: hex_digit_char Cons)
qed simp

lemma to_hex_inject: "to_hex s = to_hex t \<longleftrightarrow> s = t"
  by (metis from_to_hex)

section \<open>Splitting, joining, trimming\<close>

fun split_on :: "char \<Rightarrow> string \<Rightarrow> string list" where
  "split_on c [] = [[]]"
| "split_on c (x # xs) =
    (if x = c then [] # split_on c xs
     else case split_on c xs of y # ys \<Rightarrow> (x # y) # ys | [] \<Rightarrow> [[x]])"

fun join_with :: "char \<Rightarrow> string list \<Rightarrow> string" where
  "join_with c [] = []"
| "join_with c [s] = s"
| "join_with c (s # ss) = s @ c # join_with c ss"

lemma split_on_not_Nil [simp]: "split_on c s \<noteq> []"
  by (induction s) (auto split: list.splits)

lemma join_split: "join_with c (split_on c s) = s"
proof (induction s)
  case (Cons x s)
  obtain y ys where "split_on c s = y # ys" by (cases "split_on c s") auto
  with Cons show ?case by (cases ys) auto
qed simp

lemma split_on_none: "c \<notin> set s \<Longrightarrow> split_on c s = [s]"
  by (induction s) auto

lemma split_on_append: "c \<notin> set s \<Longrightarrow> split_on c (s @ c # t) = s # split_on c t"
  by (induction s) auto

definition js_space :: "char \<Rightarrow> bool" where
  "js_space c \<longleftrightarrow> of_char c \<in> {9, 10, 11, 12, 13, 32 :: nat}"

definition js_trim :: "string \<Rightarrow> string" where
  "js_trim s = rev (dropWhile js_space (rev (dropWhile js_space s)))"

lemma js_trim_none: "(\<And>c. c \<in> set s \<Longrightarrow> \<not> js_space c) \<Longrightarrow> js_trim s = s"
proof -
  assume none: "\<And>c. c \<in> set s \<Longrightarrow> \<not> js_space c"
  have "dropWhile js_space xs = xs" if "set xs \<subseteq> set s" for xs
    using that none by (cases xs) auto
  then show ?thesis by (simp add: js_trim_def)
qed

section \<open>Percent decoding\<close>

text \<open>One \<^verbatim>\<open>%XY\<close> at the front.\<close>

fun pct_byte :: "string \<Rightarrow> (nat \<times> string) option" where
  "pct_byte (p # a # b # s) =
    (if p = CHR ''%'' then
       (case (hex_digit a, hex_digit b) of (Some x, Some y) \<Rightarrow> Some (16 * x + y, s) | _ \<Rightarrow> None)
     else None)"
| "pct_byte _ = None"

text \<open>The continuation bytes of a UTF-8 sequence, each written as an escape.\<close>

fun pct_bytes :: "nat \<Rightarrow> string \<Rightarrow> (nat list \<times> string) option" where
  "pct_bytes 0 s = Some ([], s)"
| "pct_bytes (Suc n) s =
    (case pct_byte s of
       None \<Rightarrow> None
     | Some (b, s') \<Rightarrow>
         if 128 \<le> b \<and> b < 192
         then map_option (\<lambda>(bs, s''). (b # bs, s'')) (pct_bytes n s') else None)"

definition utf8_tail :: "nat \<Rightarrow> nat option" where
  "utf8_tail b = (if b < 128 then Some 0 else if 194 \<le> b \<and> b < 224 then Some 1
     else if 224 \<le> b \<and> b < 240 then Some 2 else if 240 \<le> b \<and> b < 245 then Some 3 else None)"

text \<open>No overlong form, no surrogate, nothing above U+10FFFF.\<close>

definition utf8_second_ok :: "nat \<Rightarrow> nat list \<Rightarrow> bool" where
  "utf8_second_ok b bs =
    (case bs of [] \<Rightarrow> True
     | c # _ \<Rightarrow> (b = 224 \<longrightarrow> 160 \<le> c) \<and> (b = 237 \<longrightarrow> c < 160) \<and> (b = 240 \<longrightarrow> 144 \<le> c) \<and> (b = 244 \<longrightarrow> c < 144))"

lemma pct_byte_length: "pct_byte s = Some (b, s') \<Longrightarrow> length s' < length s"
  by (induction s rule: pct_byte.induct) (auto split: if_splits option.splits)

lemma pct_bytes_length: "pct_bytes n s = Some (bs, s') \<Longrightarrow> length s' \<le> length s"
  by (induction n s arbitrary: bs rule: pct_bytes.induct)
    (fastforce split: option.splits if_splits dest: pct_byte_length)+

text \<open>\<open>None\<close> is the \<^verbatim>\<open>URIError\<close>.\<close>

function decodeURIComponent :: "string \<Rightarrow> string option" where
  "decodeURIComponent s =
    (case s of
       [] \<Rightarrow> Some []
     | c # cs \<Rightarrow>
         if c \<noteq> CHR ''%'' then map_option ((#) c) (decodeURIComponent cs)
         else case pct_byte s of
           None \<Rightarrow> None
         | Some (b, s1) \<Rightarrow>
            (case utf8_tail b of
               None \<Rightarrow> None
             | Some n \<Rightarrow>
                (case pct_bytes n s1 of
                   None \<Rightarrow> None
                 | Some (bs, s2) \<Rightarrow>
                     if utf8_second_ok b bs
                     then map_option ((@) (map char_of (b # bs))) (decodeURIComponent s2) else None)))"
  by pat_completeness auto
termination
  by (relation "measure length") (auto dest!: pct_byte_length pct_bytes_length)

declare decodeURIComponent.simps [simp del]

lemma decode_plain: "CHR ''%'' \<notin> set s \<Longrightarrow> decodeURIComponent s = Some s"
proof (induction s)
  case Nil
  then show ?case by (simp add: decodeURIComponent.simps [of "[]"])
next
  case (Cons c s)
  then show ?case by (auto simp: decodeURIComponent.simps [of "c # s"])
qed

end
