(* ===== verification/Auth.thy ===== *)
theory Auth
  imports Quota Text
begin

text \<open>
  \<^verbatim>\<open>services/auth.service.ts\<close>: who a request comes from and what it may do, sessions and passwords.

  The hash functions are parameters (\<open>crypto\<close>): SHA-256 of a token, bcrypt's hash for the call at
  hand and bcrypt's comparison. What the properties need of them is stated as a hypothesis.
\<close>

record crypto =
  cr_sha256 :: "string \<Rightarrow> string"
  cr_hashBcrypt :: "string \<Rightarrow> string"
  cr_compareBcrypt :: "string \<Rightarrow> string \<Rightarrow> bool"

section \<open>Requests\<close>

record AuthenticateOptions =
  ao_superAdmin :: bool
  ao_orgRole :: "OrgRole option"
  ao_participant :: bool
  ao_allowSuperAdmin :: bool

text \<open>The headers, query and path parameters the service reads; an absent one is \<open>None\<close>.\<close>

record AuthenticateRequest =
  ar_authorization :: "string option"
  ar_cookie :: "string option"
  ar_galleryTokenHeader :: "string option"
  ar_galleryTokenQuery :: "string option"
  ar_orgId :: "string option"
  ar_eventId :: "string option"

record AuthDto =
  au_user :: "user_row option"
  au_session :: "session_row option"
  au_participant :: "participant_row option"

definition SESSION_COOKIE :: string where "SESSION_COOKIE = ''el_session''"

text \<open>A JavaScript string tested for truth: neither absent nor empty.\<close>

definition truthy :: "string option \<Rightarrow> string option" where
  "truthy s = (if s = Some [] then None else s)"

definition getByTokenHash :: "string \<Rightarrow> world \<Rightarrow> participant_row option" where
  "getByTokenHash h w = select_first (\<lambda>p. pt_galleryTokenHash p = h \<and> pt_deletedAt p = None) (participants w)"

section \<open>Credentials\<close>

definition bearer_token :: "string \<Rightarrow> string option" where
  "bearer_token authorization =
    (case split_on (CHR '' '') authorization of
       type # token # _ \<Rightarrow> if toLowerCase type = ''bearer'' \<and> token \<noteq> [] then Some token else None
     | _ \<Rightarrow> None)"

text \<open>The loop over the cookies; the value of the first session cookie, decoded.\<close>

fun cookie_token :: "string list \<Rightarrow> string option outcome" where
  "cookie_token [] = Inr None"
| "cookie_token (part # parts) =
    (case split_on (CHR ''='') (js_trim part) of
       name # rest \<Rightarrow>
         if name = SESSION_COOKIE
         then (case decodeURIComponent (join_with (CHR ''='') rest) of
                 None \<Rightarrow> Inl (ServerError ''URIError'')
               | Some t \<Rightarrow> Inr (Some t))
         else cookie_token parts
     | [] \<Rightarrow> cookie_token parts)"

definition extractSessionToken :: "AuthenticateRequest \<Rightarrow> string option outcome" where
  "extractSessionToken req =
    (case Option.bind (truthy (ar_authorization req)) bearer_token of
       Some t \<Rightarrow> Inr (Some t)
     | None \<Rightarrow>
        (case truthy (ar_cookie req) of
           None \<Rightarrow> Inr None
         | Some header \<Rightarrow> cookie_token (split_on (CHR '';'') header)))"

definition validate :: "crypto \<Rightarrow> AuthenticateRequest \<Rightarrow> ms \<Rightarrow> world \<Rightarrow> AuthDto outcome" where
  "validate cr req now w =
    (let galleryToken = (case truthy (ar_galleryTokenQuery req) of
                           Some t \<Rightarrow> Some t | None \<Rightarrow> truthy (ar_galleryTokenHeader req))
     in case Option.bind galleryToken (\<lambda>t. getByTokenHash (cr_sha256 cr t) w) of
          Some p \<Rightarrow> Inr \<lparr>au_user = None, au_session = None, au_participant = Some p\<rparr>
        | None \<Rightarrow>
           (case extractSessionToken req of
              Inl e \<Rightarrow> Inl e
            | Inr tok \<Rightarrow>
               (case Option.bind (truthy tok) (\<lambda>t. session_getByToken (cr_sha256 cr t) now w) of
                  Some (s, u) \<Rightarrow> Inr \<lparr>au_user = Some u, au_session = Some s, au_participant = None\<rparr>
                | None \<Rightarrow> Inr \<lparr>au_user = None, au_session = None, au_participant = None\<rparr>)))"

section \<open>Roles\<close>

definition verifyOrgRole :: "user_row \<Rightarrow> OrgRole \<Rightarrow> AuthenticateRequest \<Rightarrow> bool \<Rightarrow> world \<Rightarrow> unit outcome" where
  "verifyOrgRole user requiredRole req allowSuperAdmin w =
    (let isEventScoped = truthy (ar_eventId req) \<noteq> None
     in if u_isSuperAdmin user \<and> allowSuperAdmin \<and> \<not> isEventScoped then Inr ()
        else
          let orgId = (case truthy (ar_orgId req) of
                         Some o1 \<Rightarrow> Some o1
                       | None \<Rightarrow> truthy (Option.bind (truthy (ar_eventId req)) (\<lambda>e. event_getOrgId e w)))
          in case orgId of
               None \<Rightarrow> Inl (Forbidden ''Forbidden'')
             | Some org \<Rightarrow>
                (case org_getMembership org (u_id user) w of
                   None \<Rightarrow> Inl (Forbidden ''Forbidden'')
                 | Some m \<Rightarrow>
                    if ROLE_ORDER (ou_role m) < ROLE_ORDER requiredRole then Inl (Forbidden ''Forbidden'')
                    else Inr ()))"

definition authenticate ::
  "crypto \<Rightarrow> AuthenticateRequest \<Rightarrow> AuthenticateOptions \<Rightarrow> ms \<Rightarrow> world \<Rightarrow> AuthDto outcome" where
  "authenticate cr req options now w =
    (case validate cr req now w of
       Inl e \<Rightarrow> Inl e
     | Inr auth \<Rightarrow>
        if ao_participant options \<and> au_participant auth \<noteq> None then Inr auth
        else case au_user auth of
               None \<Rightarrow> Inl (Unauthorized ''Authentication required'')
             | Some user \<Rightarrow>
                if ao_superAdmin options \<and> \<not> u_isSuperAdmin user then Inl (Forbidden ''Forbidden'')
                else case ao_orgRole options of
                       None \<Rightarrow> Inr auth
                     | Some role \<Rightarrow>
                        (case verifyOrgRole user role req (ao_allowSuperAdmin options) w of
                           Inl e \<Rightarrow> Inl e
                         | Inr _ \<Rightarrow> Inr auth))"

text \<open>\<^verbatim>\<open>AuthGuard.canActivate\<close>: a route without options is public.\<close>

definition canActivate ::
  "crypto \<Rightarrow> AuthenticateRequest \<Rightarrow> AuthenticateOptions option \<Rightarrow> ms \<Rightarrow> world \<Rightarrow> AuthDto option outcome" where
  "canActivate cr req options now w =
    (case options of
       None \<Rightarrow> Inr None
     | Some opts \<Rightarrow> (case authenticate cr req opts now w of Inl e \<Rightarrow> Inl e | Inr auth \<Rightarrow> Inr (Some auth)))"

section \<open>Sessions and passwords\<close>

record LoginResponseDto =
  lr_userId :: uuid
  lr_email :: string
  lr_name :: string
  lr_isSuperAdmin :: bool
  lr_accessToken :: string

text \<open>The generated id and token, and the configured lifetime.\<close>

record session_env =
  se_newId :: uuid
  se_token :: string
  se_ttlDays :: int

definition createSession ::
  "crypto \<Rightarrow> session_env \<Rightarrow> user_row \<Rightarrow> bool \<Rightarrow> string \<times> string \<Rightarrow> ms \<Rightarrow> world \<Rightarrow> LoginResponseDto \<times> world" where
  "createSession cr env user isSuperAdmin details now w =
    (\<lparr>lr_userId = u_id user, lr_email = u_email user, lr_name = u_name user,
      lr_isSuperAdmin = isSuperAdmin, lr_accessToken = se_token env\<rparr>,
     session_create \<lparr>s_id = se_newId env, s_userId = u_id user, s_token = cr_sha256 cr (se_token env),
                     s_deviceOs = fst details, s_deviceType = snd details,
                     s_expiresAt = Some (now + se_ttlDays env * 24 * 60 * 60 * 1000)\<rparr> w)"

definition login ::
  "crypto \<Rightarrow> session_env \<Rightarrow> string \<Rightarrow> string \<Rightarrow> string \<times> string \<Rightarrow> ms \<Rightarrow> world \<Rightarrow> LoginResponseDto outcome \<times> world" where
  "login cr env email password details now w =
    (case user_getByEmail email w of
       None \<Rightarrow> (Inl (Unauthorized ''Incorrect email or password''), w)
     | Some user \<Rightarrow>
        if \<not> cr_compareBcrypt cr password (u_password user)
        then (Inl (Unauthorized ''Incorrect email or password''), w)
        else let (r, w') = createSession cr env user (u_isSuperAdmin user) details now w in (Inr r, w'))"

definition logout :: "AuthDto \<Rightarrow> world \<Rightarrow> world" where
  "logout auth w = (case au_session auth of None \<Rightarrow> w | Some s \<Rightarrow> session_delete (s_id s) w)"

definition adminSignup ::
  "crypto \<Rightarrow> session_env \<Rightarrow> uuid \<Rightarrow> string \<Rightarrow> string \<Rightarrow> string \<Rightarrow> ms \<Rightarrow> world \<Rightarrow> LoginResponseDto outcome \<times> world" where
  "adminSignup cr env newUserId email password nm now w =
    (if user_hasAny w then (Inl (BadRequest ''The server already has an admin''), w)
     else
       case user_create \<lparr>u_id = newUserId, u_email = email, u_password = cr_hashBcrypt cr password,
                         u_name = nm, u_isSuperAdmin = True, u_updatedAt = now, u_deletedAt = None\<rparr> w of
         (Inl e, w') \<Rightarrow> (Inl e, w')
       | (Inr user, w') \<Rightarrow> let (r, w'') = createSession cr env user True ('''', '''') now w' in (Inr r, w''))"

definition changePassword :: "crypto \<Rightarrow> AuthDto \<Rightarrow> string \<Rightarrow> string \<Rightarrow> ms \<Rightarrow> world \<Rightarrow> unit outcome \<times> world" where
  "changePassword cr auth password newPassword now w =
    (case au_user auth of
       None \<Rightarrow> (Inl (ServerError ''TypeError''), w)
     | Some caller \<Rightarrow>
    (case user_getById (u_id caller) w of
       None \<Rightarrow> (Inl (BadRequest ''Wrong password''), w)
     | Some user \<Rightarrow>
        if \<not> cr_compareBcrypt cr password (u_password user) then (Inl (BadRequest ''Wrong password''), w)
        else
          let w1 = user_setPassword (u_id user) (cr_hashBcrypt cr newPassword) now w;
              w2 = reset_invalidateForUser (u_id user) now w1;
              w3 = snd (session_deleteForUser (u_id user) (map_option s_id (au_session auth)) w2)
          in (Inr (), w3)))"

definition resetPassword :: "crypto \<Rightarrow> string \<Rightarrow> string \<Rightarrow> ms \<Rightarrow> world \<Rightarrow> unit outcome \<times> world" where
  "resetPassword cr token newPassword now w =
    (case reset_redeem (cr_sha256 cr token) now w of
       (None, w1) \<Rightarrow> (Inl (BadRequest ''This reset link is no longer valid. Please request a new one.''), w1)
     | (Some t, w1) \<Rightarrow>
        (case user_getById (rt_userId t) w1 of
           None \<Rightarrow> (Inl (BadRequest ''This reset link is no longer valid. Please request a new one.''), w1)
         | Some user \<Rightarrow>
            let w2 = user_setPassword (u_id user) (cr_hashBcrypt cr newPassword) now w1
            in (Inr (), snd (session_deleteForUser (u_id user) None w2))))"

section \<open>What a passed check means\<close>

definition org_of_request :: "AuthenticateRequest \<Rightarrow> world \<Rightarrow> uuid option" where
  "org_of_request req w =
    (case truthy (ar_orgId req) of
       Some o1 \<Rightarrow> Some o1
     | None \<Rightarrow> truthy (Option.bind (truthy (ar_eventId req)) (\<lambda>e. event_getOrgId e w)))"

lemma verifyOrgRole_ok:
  "verifyOrgRole user role req allow w = Inr () \<longleftrightarrow>
     u_isSuperAdmin user \<and> allow \<and> truthy (ar_eventId req) = None \<or>
     (\<exists>org m. org_of_request req w = Some org \<and> org_getMembership org (u_id user) w = Some m \<and> role \<le> ou_role m)"
  by (auto simp: verifyOrgRole_def org_of_request_def Let_def less_eq_OrgRole_def split: option.splits)

lemma authenticate_ok:
  "authenticate cr req opts now w = Inr auth \<longleftrightarrow>
     validate cr req now w = Inr auth \<and>
     (ao_participant opts \<and> au_participant auth \<noteq> None \<or>
      (\<exists>u. au_user auth = Some u \<and> (ao_superAdmin opts \<longrightarrow> u_isSuperAdmin u) \<and>
           (\<forall>role. ao_orgRole opts = Some role \<longrightarrow> verifyOrgRole u role req (ao_allowSuperAdmin opts) w = Inr ())))"
  by (auto simp: authenticate_def split: sum.splits option.splits if_splits)

lemma validate_user_not_participant:
  "validate cr req now w = Inr auth \<Longrightarrow> au_user auth = Some u \<Longrightarrow> au_participant auth = None"
  by (auto simp: validate_def Let_def split: option.splits sum.splits)

text \<open>
  Media stays with the members: whoever passes a route that requires an organization role and
  carries an event id, without a participant's gallery token, is a member of the organization the
  request resolves to with at least that role. This holds for super admins too, even on a route that
  opted into the super-admin bypass.
\<close>

theorem event_routes_need_membership:
  assumes "authenticate cr req opts now w = Inr auth" "ao_orgRole opts = Some role"
    and "truthy (ar_eventId req) \<noteq> None" "au_participant auth = None"
  shows "\<exists>u org m. au_user auth = Some u \<and> org_of_request req w = Some org \<and>
    org_getMembership org (u_id u) w = Some m \<and> role \<le> ou_role m"
  using assms by (auto simp: authenticate_ok verifyOrgRole_ok)

text \<open>
  Roles are monotone: a request that passes with a required role passes, with the same identity,
  every route that differs only in requiring a lower role; and dropping the super-admin bypass can
  only refuse more.
\<close>

theorem roles_are_monotone:
  assumes "authenticate cr req opts now w = Inr auth" "ao_orgRole opts = Some role"
  shows "(\<forall>lower. lower \<le> role \<longrightarrow> authenticate cr req (opts\<lparr>ao_orgRole := Some lower\<rparr>) now w = Inr auth)
    \<and> authenticate cr req (opts\<lparr>ao_allowSuperAdmin := True\<rparr>) now w = Inr auth
    \<and> authenticate cr req (opts\<lparr>ao_orgRole := None\<rparr>) now w = Inr auth"
  using assms by (auto simp: authenticate_ok verifyOrgRole_ok intro: order_trans)

text \<open>
  A gallery token opens participant routes and nothing else: a request carrying the token of a
  live participant passes exactly the routes marked for participants, as that participant, and is
  refused as unauthenticated everywhere else, whatever session it also carries.
\<close>

theorem gallery_token_is_confined:
  assumes "getByTokenHash (cr_sha256 cr t) w = Some p" "t \<noteq> []" "ar_galleryTokenQuery req = Some t"
  shows "authenticate cr req opts now w =
    (if ao_participant opts then Inr \<lparr>au_user = None, au_session = None, au_participant = Some p\<rparr>
     else Inl (Unauthorized ''Authentication required''))"
  using assms by (simp add: authenticate_def validate_def truthy_def)

lemma org_frames:
  "event_getOrgId e (w\<lparr>organizations := orgs\<rparr>) = event_getOrgId e w"
  "org_getMembership org u (w\<lparr>organizations := orgs\<rparr>) = org_getMembership org u w"
  "session_getByToken h now (w\<lparr>organizations := orgs\<rparr>) = session_getByToken h now w"
  "getByTokenHash h (w\<lparr>organizations := orgs\<rparr>) = getByTokenHash h w"
  by (simp_all add: event_getOrgId_def event_getById_def org_getMembership_def session_getByToken_def
      user_getById_def getByTokenHash_def cong: option.case_cong)

text \<open>
  The guard never looks at the organization itself: suspending or deleting an organization changes
  no decision about its members' requests.
\<close>

theorem suspension_changes_no_decision:
  "authenticate cr req opts now (w\<lparr>organizations := orgs\<rparr>) = authenticate cr req opts now w"
  unfolding authenticate_def validate_def verifyOrgRole_def org_frames by (rule refl)

section \<open>Sessions\<close>

definition bearer_request :: "string \<Rightarrow> AuthenticateRequest" where
  "bearer_request t = \<lparr>ar_authorization = Some (''Bearer '' @ t), ar_cookie = None, ar_galleryTokenHeader = None,
     ar_galleryTokenQuery = None, ar_orgId = None, ar_eventId = None\<rparr>"

definition cookie_request :: "string \<Rightarrow> AuthenticateRequest" where
  "cookie_request t = \<lparr>ar_authorization = None, ar_cookie = Some (SESSION_COOKIE @ ''='' @ t), ar_galleryTokenHeader = None,
     ar_galleryTokenQuery = None, ar_orgId = None, ar_eventId = None\<rparr>"

text \<open>The characters of a token: \<^verbatim>\<open>randomBytesAsText\<close> keeps letters and digits.\<close>

definition token_char :: "char \<Rightarrow> bool" where
  "token_char c \<longleftrightarrow> c \<notin> set '' ;=%'' \<and> \<not> js_space c"

lemma bearer_token_ok:
  assumes "t \<noteq> []" "\<forall>c \<in> set t. token_char c"
  shows "bearer_token (''Bearer '' @ t) = Some t"
proof -
  have "CHR '' '' \<notin> set t" using assms(2) by (auto simp: token_char_def)
  then have "split_on (CHR '' '') (''Bearer'' @ CHR '' '' # t) = [''Bearer'', t]"
    by (subst split_on_append) (simp_all add: split_on_none)
  then show ?thesis using assms(1) by (simp add: bearer_token_def) code_simp
qed

lemma token_from_bearer:
  assumes "t \<noteq> []" "\<forall>c \<in> set t. token_char c" "ar_authorization req = Some (''Bearer '' @ t)"
  shows "extractSessionToken req = Inr (Some t)"
  using bearer_token_ok [OF assms(1,2)] assms(3) by (simp add: extractSessionToken_def truthy_def)

lemma token_from_cookie:
  assumes "\<forall>c \<in> set t. token_char c"
  shows "extractSessionToken (cookie_request t) = Inr (Some t)"
proof -
  let ?h = "SESSION_COOKIE @ CHR ''='' # t"
  have plain: "CHR '';'' \<notin> set t" "CHR ''='' \<notin> set t" "CHR ''%'' \<notin> set t"
    using assms by (auto simp: token_char_def)
  have cookie: "\<forall>c \<in> set SESSION_COOKIE. \<not> js_space c \<and> c \<noteq> CHR ''='' \<and> c \<noteq> CHR '';''"
    by (simp add: SESSION_COOKIE_def js_space_def)
  have "CHR '';'' \<notin> set ?h" using plain(1) by (simp add: SESSION_COOKIE_def)
  then have semi: "split_on (CHR '';'') ?h = [?h]" by (rule split_on_none)
  have trim: "js_trim ?h = ?h"
  proof (rule js_trim_none)
    fix c assume "c \<in> set ?h"
    then consider "c \<in> set SESSION_COOKIE" | "c = CHR ''=''" | "c \<in> set t" by (simp only: set_append) auto
    then show "\<not> js_space c"
    proof cases
      case 1
      with cookie show ?thesis by blast
    next
      case 2
      then show ?thesis by (simp add: js_space_def)
    next
      case 3
      with assms show ?thesis unfolding token_char_def by blast
    qed
  qed
  have "split_on (CHR ''='') ?h = [SESSION_COOKIE, t]"
    using cookie by (subst split_on_append) (auto simp: split_on_none plain(2))
  then have "cookie_token (split_on (CHR '';'') ?h) = Inr (Some t)"
    by (simp add: semi trim decode_plain plain)
  then show ?thesis by (simp add: extractSessionToken_def cookie_request_def truthy_def)
qed

lemma validate_by_token:
  assumes "extractSessionToken req = Inr (Some t)" "t \<noteq> []" "ar_galleryTokenQuery req = None" "ar_galleryTokenHeader req = None"
  shows "validate cr req now w =
    (case session_getByToken (cr_sha256 cr t) now w of
       Some (s, u) \<Rightarrow> Inr \<lparr>au_user = Some u, au_session = Some s, au_participant = None\<rparr>
     | None \<Rightarrow> Inr \<lparr>au_user = None, au_session = None, au_participant = None\<rparr>)"
  using assms by (simp add: validate_def truthy_def Let_def split: option.splits)

lemma session_after_create:
  assumes "\<forall>s \<in> set (sessions w). s_token s \<noteq> s_token new" "session_live now new"
  shows "session_getByToken (s_token new) now (session_create new w) =
    map_option (\<lambda>u. (new, u)) (user_getById (s_userId new) w)"
proof -
  have "select_first (\<lambda>s. s_token s = s_token new \<and> session_live now s) (sessions w) = None"
    using assms(1) by (auto simp: select_first_None_iff)
  with assms(2) show ?thesis
    by (simp add: session_getByToken_def session_create_def select_first_append user_getById_def split: option.splits)
qed

lemma session_getByToken_dead:
  "\<forall>s \<in> set (sessions w). s_token s = h \<longrightarrow> \<not> session_live now s \<Longrightarrow> session_getByToken h now w = None"
  by (auto simp: session_getByToken_def dest!: select_first_SomeD split: option.splits)

lemma user_getById_self:
  assumes "u \<in> set (users w)" "u_deletedAt u = None" "distinct (map u_id (users w))"
  shows "user_getById (u_id u) w = Some u"
proof -
  from assms(1,2) obtain x where x: "user_getById (u_id u) w = Some x"
    by (cases "user_getById (u_id u) w") (auto simp: user_getById_def select_first_None_iff)
  then have "x = u" using user_getById_SomeD [OF x] assms by (metis distinct_map inj_onD)
  with x show ?thesis by simp
qed

definition any_user_route :: AuthenticateOptions where
  "any_user_route = \<lparr>ao_superAdmin = False, ao_orgRole = None, ao_participant = False, ao_allowSuperAdmin = False\<rparr>"

lemma authenticate_by_token:
  assumes "req = bearer_request t \<or> req = cookie_request t" "t \<noteq> []" "\<forall>c \<in> set t. token_char c"
  shows "authenticate cr req any_user_route now w =
    (case session_getByToken (cr_sha256 cr t) now w of
       Some (s, u) \<Rightarrow> Inr \<lparr>au_user = Some u, au_session = Some s, au_participant = None\<rparr>
     | None \<Rightarrow> Inl (Unauthorized ''Authentication required''))"
proof -
  have tok: "extractSessionToken req = Inr (Some t)" "ar_galleryTokenQuery req = None" "ar_galleryTokenHeader req = None"
    using assms token_from_bearer [of t req] token_from_cookie [of t]
    by (auto simp: bearer_request_def cookie_request_def)
  show ?thesis
    by (simp add: authenticate_def any_user_route_def validate_by_token [OF tok(1) assms(2) tok(2,3)] split: option.splits)
qed

text \<open>
  C7. Logging in and coming back: after a login, the returned token identifies exactly the user who
  logged in, sent as a bearer header or as the session cookie, until the session expires, and no
  longer once the user logs out. The fresh token's hash is not in use, and users have distinct ids.
\<close>

theorem login_then_authenticate:
  assumes run: "login cr env email password details now w = (Inr r, w')"
    and fresh: "\<forall>s \<in> set (sessions w). s_token s \<noteq> cr_sha256 cr (se_token env) \<and> s_id s \<noteq> se_newId env"
    and token: "se_token env \<noteq> []" "\<forall>c \<in> set (se_token env). token_char c"
    and ids: "distinct (map u_id (users w))"
    and req: "req = bearer_request (lr_accessToken r) \<or> req = cookie_request (lr_accessToken r)"
  shows "\<exists>u. user_getByEmail email w = Some u \<and> lr_userId r = u_id u \<and>
    (\<forall>later. (later < now + se_ttlDays env * 24 * 60 * 60 * 1000 \<longrightarrow>
        (\<exists>auth. authenticate cr req any_user_route later w' = Inr auth \<and> au_user auth = Some u \<and>
           authenticate cr req any_user_route later (logout auth w') = Inl (Unauthorized ''Authentication required'')))
      \<and> (now + se_ttlDays env * 24 * 60 * 60 * 1000 \<le> later \<longrightarrow>
        authenticate cr req any_user_route later w' = Inl (Unauthorized ''Authentication required'')))"
proof -
  let ?ttl = "now + se_ttlDays env * 24 * 60 * 60 * 1000"
  from run obtain u where u: "user_getByEmail email w = Some u"
    and r: "lr_userId r = u_id u" "lr_accessToken r = se_token env"
    and w': "w' = snd (createSession cr env u (u_isSuperAdmin u) details now w)"
    by (auto simp: login_def createSession_def split: option.splits if_splits)
  define new where "new = \<lparr>s_id = se_newId env, s_userId = u_id u, s_token = cr_sha256 cr (se_token env),
      s_deviceOs = fst details, s_deviceType = snd details, s_expiresAt = Some ?ttl\<rparr>"
  have w'2: "w' = session_create new w" and live: "session_live later new \<longleftrightarrow> later < ?ttl" for later
    by (simp_all add: w' createSession_def new_def session_live_def)
  from u have "u \<in> set (users w)" "u_deletedAt u = None"
    unfolding user_getByEmail_def by (auto dest: select_first_SomeD)
  from user_getById_self [OF this ids] have self: "user_getById (u_id u) w = Some u" .
  note auth = authenticate_by_token [OF req [unfolded r(2)] token, of cr]
  have here: "session_getByToken (s_token new) later w' = Some (new, u)" if "later < ?ttl" for later
    using session_after_create [of w new later] that fresh self live [of later] by (simp add: w'2 new_def)
  have out: "session_getByToken (s_token new) later (session_delete (se_newId env) w') = None" for later
    using fresh by (intro session_getByToken_dead) (auto simp: w'2 session_delete_def session_create_def new_def)
  have late: "session_getByToken (s_token new) later w' = None" if "?ttl \<le> later" for later
    using fresh that live [of later] by (intro session_getByToken_dead) (auto simp: w'2 session_create_def new_def)
  have "\<exists>a. authenticate cr req any_user_route later w' = Inr a \<and> au_user a = Some u \<and>
      authenticate cr req any_user_route later (logout a w') = Inl (Unauthorized ''Authentication required'')"
    if "later < ?ttl" for later
    using here [OF that] out [of later]
    by (intro exI [of _ "\<lparr>au_user = Some u, au_session = Some new, au_participant = None\<rparr>"])
      (simp add: auth logout_def new_def)
  with late auth u r show ?thesis by (auto simp: new_def)
qed

section \<open>Changing and resetting a password\<close>

lemma login_after_setPassword:
  assumes "user_getByEmail email w = Some u" "users w' = users (user_setPassword (u_id u) h now w)"
    and "cr_compareBcrypt cr p h"
  shows "is_ok (fst (login cr env email p details later w'))"
proof -
  let ?f = "\<lambda>u. u\<lparr>u_password := h, u_updatedAt := now\<rparr>"
  have "user_getByEmail email w' = Some (?f u)"
    using assms(1,2) unfolding user_getByEmail_def user_setPassword_def
    by (simp add: select_first_update_where)
  with assms(3) show ?thesis by (simp add: login_def createSession_def)
qed

text \<open>
  C8. Changing the password locks everyone else out: afterwards the account has no session but the one
  that made the request, sessions of other accounts are untouched, no outstanding reset link of the
  account can be redeemed, and the new password logs in.
\<close>

theorem password_change_locks_others_out:
  assumes "changePassword cr auth password newPassword now w = (Inr (), w')"
    and "au_user auth = Some caller" "au_session auth = Some cur" "s_id cur \<noteq> []"
    and "cr_compareBcrypt cr newPassword (cr_hashBcrypt cr newPassword)"
    and "user_getByEmail email w = Some u" "u_id u = u_id caller"
  shows "(\<forall>s. s \<in> set (sessions w') \<longleftrightarrow> s \<in> set (sessions w) \<and> (s_userId s = u_id caller \<longrightarrow> s_id s = s_id cur))
    \<and> (\<forall>t \<in> set (passwordResetTokens w'). rt_userId t = u_id caller \<longrightarrow> \<not> reset_redeemable h later t)
    \<and> is_ok (fst (login cr env email newPassword details later w'))"
proof -
  from assms(1,2) obtain x where x: "user_getById (u_id caller) w = Some x"
    and w': "w' = snd (session_deleteForUser (u_id x) (map_option s_id (au_session auth))
      (reset_invalidateForUser (u_id x) now (user_setPassword (u_id x) (cr_hashBcrypt cr newPassword) now w)))"
    by (auto simp: changePassword_def Let_def split: option.splits if_splits)
  from user_getById_SomeD [OF x] have id: "u_id x = u_id caller" by simp
  have "users w' = users (user_setPassword (u_id u) (cr_hashBcrypt cr newPassword) now w)"
    using assms(7) by (simp add: w' id session_deleteForUser_def reset_invalidateForUser_def Let_def)
  note log = login_after_setPassword [OF assms(6) this assms(5), of env details later]
  have "s \<in> set (sessions w') \<longleftrightarrow> s \<in> set (sessions w) \<and> (s_userId s = u_id caller \<longrightarrow> s_id s = s_id cur)" for s
    using assms(3,4) by (auto simp: w' id session_deleteForUser_def reset_invalidateForUser_def user_setPassword_def Let_def)
  moreover have "\<not> reset_redeemable h later t"
    if "t \<in> set (passwordResetTokens w')" "rt_userId t = u_id caller" for t
    using that by (auto simp: w' id session_deleteForUser_def reset_invalidateForUser_def user_setPassword_def Let_def
        reset_redeemable_def set_update_where split: if_splits)
  ultimately show ?thesis using log by blast
qed

text \<open>
  A reset link works once: after it was redeemed, every later attempt with the same link is refused
  with the same message as an unknown one, whatever password it proposes; the account's sessions are
  all gone and no session was issued.
\<close>

theorem reset_link_works_once:
  assumes "resetPassword cr token newPassword now w = (Inr (), w')" "now \<le> later"
  shows "fst (resetPassword cr token again later w')
      = Inl (BadRequest ''This reset link is no longer valid. Please request a new one.'')
    \<and> set (sessions w') \<subseteq> set (sessions w)
    \<and> (\<exists>t \<in> set (passwordResetTokens w). rt_token t = cr_sha256 cr token \<and> now < rt_expiresAt t \<and>
          (\<forall>s \<in> set (sessions w'). s_userId s \<noteq> rt_userId t))"
proof -
  let ?h = "cr_sha256 cr token"
  from assms(1) obtain t u where t: "select_first (reset_redeemable ?h now) (passwordResetTokens w) = Some t"
    and u: "user_getById (rt_userId t) (snd (reset_redeem ?h now w)) = Some u"
    and w': "w' = snd (session_deleteForUser (u_id u) None
        (user_setPassword (u_id u) (cr_hashBcrypt cr newPassword) now (snd (reset_redeem ?h now w))))"
    by (auto simp: resetPassword_def reset_redeem_def Let_def split: option.splits)
  have "passwordResetTokens w' = passwordResetTokens (snd (reset_redeem ?h now w))"
    by (simp add: w' session_deleteForUser_def user_setPassword_def Let_def)
  then have "select_first (reset_redeemable ?h later) (passwordResetTokens w') = None"
    using assms(2) by (auto simp: select_first_None_iff reset_redeem_def reset_redeemable_def set_update_where)
  then have "fst (resetPassword cr token again later w')
      = Inl (BadRequest ''This reset link is no longer valid. Please request a new one.'')"
    by (simp add: resetPassword_def reset_redeem_def)
  moreover have "set (sessions w') \<subseteq> set (sessions w)" "\<forall>s \<in> set (sessions w'). s_userId s \<noteq> rt_userId t"
    using user_getById_SomeD [OF u]
    by (auto simp: w' session_deleteForUser_def user_setPassword_def reset_redeem_def Let_def)
  ultimately show ?thesis
    using select_first_SomeD [OF t] by (auto simp: reset_redeemable_def)
qed

section \<open>First boot\<close>

text \<open>
  The first-boot signup creates exactly one super admin, only while there is no account at all, and
  every later signup is refused without touching the state.
\<close>

theorem admin_signup_only_once:
  assumes "adminSignup cr env uid email password nm now w = (Inr r, w')"
  shows "users w = [] \<and> (\<exists>u. users w' = [u] \<and> u_isSuperAdmin u \<and> u_id u = lr_userId r)
    \<and> adminSignup cr' env' uid' email' password' nm' now' w' = (Inl (BadRequest ''The server already has an admin''), w')"
  using assms
  by (auto simp: adminSignup_def user_hasAny_def user_create_def createSession_def session_create_def
      split: if_splits)

section \<open>Witnesses\<close>

definition wit_crypto :: crypto where
  "wit_crypto = \<lparr>cr_sha256 = (\<lambda>t. t), cr_hashBcrypt = (\<lambda>p. p), cr_compareBcrypt = (\<lambda>p h. p = h)\<rparr>"

definition wit_user :: user_row where
  "wit_user = \<lparr>u_id = ''u'', u_email = ''a@b'', u_password = ''pw'', u_name = ''A'', u_isSuperAdmin = True,
     u_updatedAt = 0, u_deletedAt = None\<rparr>"

definition wit_session :: session_row where
  "wit_session = \<lparr>s_id = ''s'', s_userId = ''u'', s_token = ''tok'', s_deviceOs = '''', s_deviceType = '''', s_expiresAt = None\<rparr>"

definition wit_reset :: reset_row where
  "wit_reset = \<lparr>rt_id = ''r'', rt_userId = ''u'', rt_token = ''link'', rt_expiresAt = 100, rt_usedAt = None, rt_createdBy = None\<rparr>"

definition wit_auth_world :: world where
  "wit_auth_world = empty_world\<lparr>users := [wit_user], sessions := [wit_session], passwordResetTokens := [wit_reset],
     organizationUsers := [\<lparr>ou_orgId = ''o'', ou_userId = ''u'', ou_role = OrgRole_Owner, ou_createdAt = 0\<rparr>]\<rparr>"

definition wit_org_route :: "OrgRole \<Rightarrow> AuthenticateOptions" where
  "wit_org_route role = any_user_route\<lparr>ao_orgRole := Some role, ao_allowSuperAdmin := True\<rparr>"

definition wit_request :: AuthenticateRequest where
  "wit_request = (bearer_request ''tok'')\<lparr>ar_orgId := Some ''o'', ar_eventId := Some ''e''\<rparr>"

definition wit_auth :: AuthDto where
  "wit_auth = \<lparr>au_user = Some wit_user, au_session = Some wit_session, au_participant = None\<rparr>"

lemmas wit_auth_defs = wit_crypto_def wit_user_def wit_session_def wit_reset_def wit_auth_world_def empty_world_def

lemma wit_extract: "extractSessionToken wit_request = Inr (Some ''tok'')"
  by (rule token_from_bearer) (simp_all add: wit_request_def bearer_request_def token_char_def js_space_def)

lemma wit_session_found: "session_getByToken ''tok'' now wit_auth_world = Some (wit_session, wit_user)"
  by (simp add: session_getByToken_def user_getById_def wit_auth_defs session_live_def)

lemma wit_authenticate: "authenticate wit_crypto wit_request (wit_org_route OrgRole_Owner) 5 wit_auth_world = Inr wit_auth"
proof -
  have "validate wit_crypto wit_request 5 wit_auth_world = Inr wit_auth"
    using validate_by_token [OF wit_extract, of wit_crypto 5 wit_auth_world] wit_session_found
    by (simp add: wit_request_def bearer_request_def wit_auth_def wit_crypto_def)
  moreover have "verifyOrgRole wit_user OrgRole_Owner wit_request True wit_auth_world = Inr ()"
    by (simp add: verifyOrgRole_def wit_request_def bearer_request_def truthy_def org_getMembership_def wit_auth_defs Let_def)
  ultimately show ?thesis
    by (simp add: authenticate_def wit_auth_def wit_org_route_def any_user_route_def)
qed

lemma wit_org_route_role [simp]: "ao_orgRole (wit_org_route role) = Some role"
  by (simp add: wit_org_route_def)

theorem event_routes_need_membership_witness:
  "\<exists>u org m. au_user wit_auth = Some u \<and> org_of_request wit_request wit_auth_world = Some org \<and>
    org_getMembership org (u_id u) wit_auth_world = Some m \<and> OrgRole_Owner \<le> ou_role m"
  by (rule event_routes_need_membership [OF wit_authenticate])
    (simp_all add: wit_org_route_def wit_request_def truthy_def wit_auth_def)

theorem roles_are_monotone_witness:
  "authenticate wit_crypto wit_request (wit_org_route OrgRole_Member) 5 wit_auth_world = Inr wit_auth"
proof -
  have "wit_org_route OrgRole_Member = (wit_org_route OrgRole_Owner)\<lparr>ao_orgRole := Some OrgRole_Member\<rparr>"
    by (simp add: wit_org_route_def any_user_route_def)
  moreover have "OrgRole_Member \<le> OrgRole_Owner" by (simp add: less_eq_OrgRole_def)
  ultimately show ?thesis
    using roles_are_monotone [OF wit_authenticate, of OrgRole_Owner] by (simp only: wit_org_route_role)
qed

theorem gallery_token_is_confined_witness:
  "authenticate wit_crypto ((bearer_request ''tok'')\<lparr>ar_galleryTokenQuery := Some ''g''\<rparr>) any_user_route 5
     (wit_auth_world\<lparr>participants := [\<lparr>pt_id = ''p'', pt_eventId = ''e'', pt_email = '''', pt_name = '''', pt_selfieKey = None,
        pt_selfieEmbedding = None, pt_phone = None, pt_galleryTokenHash = ''g'', pt_galleryTokenEnc = None,
        pt_status = ParticipantStatus_Processing, pt_notifiedFirstAt = None, pt_lastNotifiedAt = None,
        pt_galleryOpenedAt = None, pt_awaitingResultNotice = False, pt_createdAt = 0, pt_updatedAt = 0, pt_deletedAt = None\<rparr>]\<rparr>)
   = Inl (Unauthorized ''Authentication required'')"
  by (subst gallery_token_is_confined [where t = "''g''"])
    (simp_all add: getByTokenHash_def wit_crypto_def any_user_route_def)

definition wit_session_env :: session_env where
  "wit_session_env = \<lparr>se_newId = ''s2'', se_token = ''fresh'', se_ttlDays = 1\<rparr>"

theorem login_then_authenticate_witness:
  "\<exists>u. user_getByEmail ''A@B'' wit_auth_world = Some u \<and>
     (\<exists>auth. authenticate wit_crypto (cookie_request ''fresh'') any_user_route 50
        (snd (login wit_crypto wit_session_env ''A@B'' ''pw'' ('''', '''') 5 wit_auth_world)) = Inr auth \<and> au_user auth = Some u)"
proof -
  let ?l = "login wit_crypto wit_session_env ''A@B'' ''pw'' ('''', '''') 5 wit_auth_world"
  have eq: "citext_eq ''a@b'' ''A@B''" by code_simp
  obtain r where r: "?l = (Inr r, snd ?l)" "lr_accessToken r = ''fresh''"
    using eq by (simp add: login_def createSession_def user_getByEmail_def wit_auth_defs wit_session_env_def)
  have "\<exists>u. user_getByEmail ''A@B'' wit_auth_world = Some u \<and> lr_userId r = u_id u \<and>
    (\<forall>later. (later < 5 + se_ttlDays wit_session_env * 24 * 60 * 60 * 1000 \<longrightarrow>
        (\<exists>auth. authenticate wit_crypto (cookie_request ''fresh'') any_user_route later (snd ?l) = Inr auth \<and> au_user auth = Some u \<and>
           authenticate wit_crypto (cookie_request ''fresh'') any_user_route later (logout auth (snd ?l)) = Inl (Unauthorized ''Authentication required'')))
      \<and> (5 + se_ttlDays wit_session_env * 24 * 60 * 60 * 1000 \<le> later \<longrightarrow>
        authenticate wit_crypto (cookie_request ''fresh'') any_user_route later (snd ?l) = Inl (Unauthorized ''Authentication required'')))"
    by (rule login_then_authenticate [OF r(1)])
      (simp_all add: r(2) wit_auth_defs wit_session_env_def token_char_def js_space_def)
  moreover have "(50 :: int) < 5 + se_ttlDays wit_session_env * 24 * 60 * 60 * 1000" by (simp add: wit_session_env_def)
  ultimately show ?thesis by meson
qed

theorem password_change_locks_others_out_witness:
  "is_ok (fst (login wit_crypto wit_session_env ''a@b'' ''new'' ('''', '''') 9
     (snd (changePassword wit_crypto wit_auth ''pw'' ''new'' 5 wit_auth_world))))"
proof -
  have run: "changePassword wit_crypto wit_auth ''pw'' ''new'' 5 wit_auth_world
      = (Inr (), snd (changePassword wit_crypto wit_auth ''pw'' ''new'' 5 wit_auth_world))"
    by (simp add: changePassword_def wit_auth_def user_getById_def wit_auth_defs Let_def)
  have "citext_eq ''a@b'' ''a@b''" by (simp add: citext_eq_def)
  then have "user_getByEmail ''a@b'' wit_auth_world = Some wit_user"
    by (simp add: user_getByEmail_def wit_auth_defs)
  from password_change_locks_others_out [OF run, of wit_user wit_session, OF _ _ _ _ this]
  show ?thesis by (simp add: wit_auth_def wit_session_def wit_crypto_def)
qed

theorem reset_link_works_once_witness:
  "fst (resetPassword wit_crypto ''link'' ''other'' 60 (snd (resetPassword wit_crypto ''link'' ''new'' 50 wit_auth_world)))
     = Inl (BadRequest ''This reset link is no longer valid. Please request a new one.'')"
proof -
  have "resetPassword wit_crypto ''link'' ''new'' 50 wit_auth_world
      = (Inr (), snd (resetPassword wit_crypto ''link'' ''new'' 50 wit_auth_world))"
    by (simp add: resetPassword_def reset_redeem_def reset_redeemable_def user_getById_def wit_auth_defs Let_def)
  from reset_link_works_once [OF this, of 60 "''other''"] show ?thesis by simp
qed

theorem admin_signup_only_once_witness:
  "fst (adminSignup wit_crypto wit_session_env ''v'' ''x'' ''y'' ''z'' 9
     (snd (adminSignup wit_crypto wit_session_env ''u'' ''a@b'' ''pw'' ''A'' 5 empty_world)))
   = Inl (BadRequest ''The server already has an admin'')"
proof -
  have "adminSignup wit_crypto wit_session_env ''u'' ''a@b'' ''pw'' ''A'' 5 empty_world =
      (Inr \<lparr>lr_userId = ''u'', lr_email = ''a@b'', lr_name = ''A'', lr_isSuperAdmin = True, lr_accessToken = ''fresh''\<rparr>,
       snd (adminSignup wit_crypto wit_session_env ''u'' ''a@b'' ''pw'' ''A'' 5 empty_world))"
    by (simp add: adminSignup_def user_hasAny_def user_create_def createSession_def wit_session_env_def empty_world_def)
  from admin_signup_only_once [OF this, of wit_crypto wit_session_env] show ?thesis by simp
qed

end
