(* ===== verification/Organization.thy ===== *)
theory Organization
  imports Auth
begin

text \<open>
  \<^verbatim>\<open>services/organization.service.ts\<close>: organizations, their plans and members, the super admin's
  password reset, and the read models of the organizations table, the usage page and the
  notification bell. Ids, tokens and hashes that are drawn at random are arguments.
\<close>

section \<open>Organizations\<close>

definition org_get :: "uuid \<Rightarrow> world \<Rightarrow> org_row outcome" where
  "org_get org w =
    (case org_getById org w of None \<Rightarrow> Inl (NotFound ''Organization not found'') | Some r \<Rightarrow> Inr r)"

text \<open>\<^verbatim>\<open>resolveUser\<close>: an existing account, or a new one when a password is given.\<close>

definition resolveUser ::
  "crypto \<Rightarrow> uuid \<Rightarrow> string \<Rightarrow> string \<Rightarrow> string option \<Rightarrow> ms \<Rightarrow> world \<Rightarrow> user_row outcome \<times> world" where
  "resolveUser cr newId email nm password now w =
    (case user_getByEmail email w of
       Some existing \<Rightarrow> (Inr existing, w)
     | None \<Rightarrow>
        (case truthy password of
           None \<Rightarrow> (Inl (BadRequest (''User '' @ email @ '' does not exist - provide a password to create them'')), w)
         | Some p \<Rightarrow>
            user_create \<lparr>u_id = newId, u_email = email, u_password = cr_hashBcrypt cr p, u_name = nm,
                         u_isSuperAdmin = False, u_updatedAt = now, u_deletedAt = None\<rparr> w))"

record CreateOrgDto =
  co_name :: string
  co_slug :: string
  co_ownerEmail :: string
  co_ownerName :: string
  co_ownerPassword :: "string option"

definition createOrg ::
  "crypto \<Rightarrow> uuid \<Rightarrow> uuid \<Rightarrow> CreateOrgDto \<Rightarrow> uuid \<Rightarrow> ms \<Rightarrow> world \<Rightarrow> org_row outcome \<times> world" where
  "createOrg cr newUserId newOrgId dto createdBy now w =
    (if org_getBySlug (co_slug dto) w \<noteq> None then (Inl (BadRequest ''Slug already in use''), w)
     else case resolveUser cr newUserId (co_ownerEmail dto) (co_ownerName dto) (co_ownerPassword dto) now w of
            (Inl e, w1) \<Rightarrow> (Inl e, w1)
          | (Inr owner, w1) \<Rightarrow>
             (case org_create newOrgId (co_name dto) (co_slug dto) createdBy now w1 of
                (Inl e, w2) \<Rightarrow> (Inl e, w2)
              | (Inr org, w2) \<Rightarrow> (Inr org, org_addMember (o_id org) (u_id owner) OrgRole_Owner now w2)))"

record UpdateOrgDto =
  uo_name :: "string option"
  uo_slug :: "string option"
  uo_status :: "OrgStatus option"

definition apply_org_dto :: "UpdateOrgDto \<Rightarrow> org_row \<Rightarrow> org_row" where
  "apply_org_dto dto r =
    r\<lparr>o_name := or_default (uo_name dto) (o_name r), o_slug := or_default (uo_slug dto) (o_slug r),
      o_status := or_default (uo_status dto) (o_status r)\<rparr>"

text \<open>
  \<^verbatim>\<open>organizationRepository.update\<close> and its returned row; a new slug that any other row holds, a
  deleted one too, violates the unique constraint.
\<close>

definition org_update :: "uuid \<Rightarrow> (org_row \<Rightarrow> org_row) \<Rightarrow> ms \<Rightarrow> world \<Rightarrow> org_row outcome \<times> world" where
  "org_update i f now w =
    (case select_first (\<lambda>r. o_id r = i) (organizations w) of
       None \<Rightarrow> (Inl (ServerError ''no result''), w)
     | Some r \<Rightarrow>
        if \<exists>x \<in> set (organizations w). o_id x \<noteq> i \<and> o_slug x = o_slug (f r)
        then (Inl (ServerError ''organization_slug_key''), w)
        else (Inr ((f r)\<lparr>o_updatedAt := now\<rparr>), org_set i f now w))"

definition updateOrg :: "uuid \<Rightarrow> UpdateOrgDto \<Rightarrow> ms \<Rightarrow> world \<Rightarrow> org_row outcome \<times> world" where
  "updateOrg org dto now w =
    (case org_get org w of
       Inl e \<Rightarrow> (Inl e, w)
     | Inr _ \<Rightarrow>
        if (case truthy (uo_slug dto) of
              None \<Rightarrow> False
            | Some s \<Rightarrow> (case org_getBySlug s w of None \<Rightarrow> False | Some existing \<Rightarrow> o_id existing \<noteq> org))
        then (Inl (BadRequest ''Slug already in use''), w)
        else org_update org (apply_org_dto dto) now w)"

section \<open>Plans\<close>

text \<open>A limit in the request is absent (\<open>None\<close>), null (\<open>Some None\<close>) or a number.\<close>

record UpdatePlanDto =
  up_plan :: "OrgPlan option"
  up_storageLimitBytes :: "bytes option option"
  up_eventLimit :: "int option option"

definition apply_plan :: "OrgPlan \<Rightarrow> UpdatePlanDto \<Rightarrow> org_row \<Rightarrow> org_row" where
  "apply_plan plan dto r =
    (if plan = OrgPlan_Enterprise
     then r\<lparr>o_plan := plan,
            o_storageLimitBytes := or_default (up_storageLimitBytes dto) (o_storageLimitBytes r),
            o_eventLimit := or_default (up_eventLimit dto) (o_eventLimit r)\<rparr>
     else r\<lparr>o_plan := plan, o_storageLimitBytes := None, o_eventLimit := None\<rparr>)"

definition updatePlan :: "uuid \<Rightarrow> UpdatePlanDto \<Rightarrow> uuid \<Rightarrow> ms \<Rightarrow> world \<Rightarrow> org_row outcome \<times> world" where
  "updatePlan org dto actorId now w =
    (case org_get org w of
       Inl e \<Rightarrow> (Inl e, w)
     | Inr before \<Rightarrow>
        let plan = or_default (up_plan dto) (o_plan before);
            wantsOverride = (Option.bind (up_storageLimitBytes dto) id \<noteq> None \<or> Option.bind (up_eventLimit dto) id \<noteq> None)
        in if wantsOverride \<and> plan \<noteq> OrgPlan_Enterprise
           then (Inl (BadRequest ''Custom storage and event limits are only available on the Enterprise plan. Change the plan first.''), w)
           else case org_update org (apply_plan plan dto) now w of
                  (Inl e, w1) \<Rightarrow> (Inl e, w1)
                | (Inr after, w1) \<Rightarrow>
                    (Inr after,
                     record_audit True
                       (mk_entry AuditCategory_Subscription
                          (if o_plan before = o_plan after then ''subscription.limits.changed'' else ''subscription.plan.changed'')
                          (Some AuditLevel_Warning) (Some org) (Some actorId)) now w1))"

definition removeOrg :: "uuid \<Rightarrow> ms \<Rightarrow> world \<Rightarrow> unit outcome \<times> world" where
  "removeOrg org now w =
    (case org_get org w of
       Inl e \<Rightarrow> (Inl e, w)
     | Inr _ \<Rightarrow> (Inr (), queue (CleanupPrefix (orgPrefix org)) (org_softDelete org now w)))"

section \<open>Members\<close>

definition ensureNotLastOwner :: "uuid \<Rightarrow> uuid \<Rightarrow> OrgRole option \<Rightarrow> world \<Rightarrow> unit outcome" where
  "ensureNotLastOwner org userId newRole w =
    (if newRole = Some OrgRole_Owner then Inr ()
     else case filter (\<lambda>m. om_role m = OrgRole_Owner) (org_listMembers org w) of
            [owner] \<Rightarrow> if om_userId owner = userId then Inl (BadRequest ''Cannot remove the last owner'') else Inr ()
          | _ \<Rightarrow> Inr ())"

record AddMemberDto =
  am_email :: string
  am_name :: "string option"
  am_password :: "string option"
  am_role :: OrgRole

definition addMember :: "crypto \<Rightarrow> uuid \<Rightarrow> uuid \<Rightarrow> AddMemberDto \<Rightarrow> ms \<Rightarrow> world \<Rightarrow> unit outcome \<times> world" where
  "addMember cr newUserId org dto now w =
    (case org_get org w of
       Inl e \<Rightarrow> (Inl e, w)
     | Inr _ \<Rightarrow>
        (case resolveUser cr newUserId (am_email dto)
                (or_default (am_name dto) (hd (split_on (CHR 0x40) (am_email dto)))) (am_password dto) now w of
           (Inl e, w1) \<Rightarrow> (Inl e, w1)
         | (Inr user, w1) \<Rightarrow> (Inr (), org_addMember org (u_id user) (am_role dto) now w1)))"

definition updateMember :: "uuid \<Rightarrow> uuid \<Rightarrow> OrgRole \<Rightarrow> ms \<Rightarrow> world \<Rightarrow> unit outcome \<times> world" where
  "updateMember org userId role now w =
    (case org_getMembership org userId w of
       None \<Rightarrow> (Inl (NotFound ''Member not found''), w)
     | Some _ \<Rightarrow>
        (case ensureNotLastOwner org userId (Some role) w of
           Inl e \<Rightarrow> (Inl e, w)
         | Inr _ \<Rightarrow> (Inr (), org_addMember org userId role now w)))"

definition removeMember :: "uuid \<Rightarrow> uuid \<Rightarrow> world \<Rightarrow> unit outcome \<times> world" where
  "removeMember org userId w =
    (case org_getMembership org userId w of
       None \<Rightarrow> (Inl (NotFound ''Member not found''), w)
     | Some _ \<Rightarrow>
        (case ensureNotLastOwner org userId None w of
           Inl e \<Rightarrow> (Inl e, w)
         | Inr _ \<Rightarrow> (Inr (), org_removeMember org userId w)))"

section \<open>The super admin's password reset\<close>

definition PASSWORD_RESET_TTL_MS :: ms where "PASSWORD_RESET_TTL_MS = 24 * 60 * 60 * 1000"

text \<open>
  The random values, and whether rendering and sending the message succeeds. The result is the
  message that went out: its recipient and the token in its link.
\<close>

record reset_env =
  re_tokenId :: uuid
  re_password :: string
  re_token :: string
  re_mail_ok :: bool

definition resetMemberPassword ::
  "crypto \<Rightarrow> reset_env \<Rightarrow> uuid \<Rightarrow> uuid \<Rightarrow> uuid \<Rightarrow> ms \<Rightarrow> world \<Rightarrow> (string \<times> string) outcome \<times> world" where
  "resetMemberPassword cr env org userId actorId now w =
    (case (org_getMembership org userId w, user_getById userId w) of
       (Some _, Some user) \<Rightarrow>
         (let w1 = user_setPassword (u_id user) (cr_hashBcrypt cr (re_password env)) now w;
              w2 = snd (session_deleteForUser (u_id user) None w1);
              w3 = reset_invalidateForUser (u_id user) now w2
          in case reset_create \<lparr>rt_id = re_tokenId env, rt_userId = u_id user, rt_token = cr_sha256 cr (re_token env),
                                rt_expiresAt = now + PASSWORD_RESET_TTL_MS, rt_usedAt = None, rt_createdBy = Some actorId\<rparr> w3 of
               Inl e \<Rightarrow> (Inl e, w3)
             | Inr w4 \<Rightarrow>
                 if \<not> re_mail_ok env then (Inl (ServerError ''mail''), w4)
                 else (Inr (u_email user, re_token env),
                       record_audit True
                         (mk_entry AuditCategory_Auth ''password.reset.admin'' (Some AuditLevel_Warning) (Some org) (Some actorId)) now w4))
     | _ \<Rightarrow> (Inl (NotFound ''Member not found''), w))"

section \<open>Read models\<close>

record OrgSummary =
  os_org :: org_row
  os_owner :: "(uuid \<times> string \<times> string) option"
  os_usedBytes :: bytes
  os_limitBytes :: bytes
  os_remainingBytes :: bytes
  os_usedEvents :: int
  os_limitEvents :: int
  os_remainingEvents :: int
  os_hasCustomLimits :: bool

text \<open>The earliest-joined live owner.\<close>

definition account_holder :: "uuid \<Rightarrow> world \<Rightarrow> (uuid \<times> string \<times> string) option" where
  "account_holder org w =
    (case filter (\<lambda>m. om_role m = OrgRole_Owner) (org_listMembers org w) of
       [] \<Rightarrow> None | m # _ \<Rightarrow> Some (om_userId m, om_email m, om_name m))"

definition org_summary :: "world \<Rightarrow> org_row \<Rightarrow> OrgSummary" where
  "org_summary w r =
    (let limits = limitsFor r; usedBytes = getOrgStorageBytes (o_id r) w; usedEvents = event_countForOrg (o_id r) w
     in \<lparr>os_org = r, os_owner = account_holder (o_id r) w,
         os_usedBytes = usedBytes, os_limitBytes = li_storageBytes limits,
         os_remainingBytes = max 0 (li_storageBytes limits - usedBytes),
         os_usedEvents = usedEvents, os_limitEvents = li_events limits,
         os_remainingEvents = max 0 (li_events limits - usedEvents),
         os_hasCustomLimits = li_hasCustomLimits limits\<rparr>)"

definition listWithUsage :: "world \<Rightarrow> OrgSummary list" where
  "listWithUsage w =
    map (org_summary w) (sort_key (\<lambda>r. - o_createdAt r) (filter (\<lambda>r. o_deletedAt r = None) (organizations w)))"

record event_usage =
  eu_eventId :: uuid
  eu_eventName :: string
  eu_photos :: int
  eu_videos :: int
  eu_bytes :: bytes

definition live_assets_of :: "uuid \<Rightarrow> world \<Rightarrow> asset_row list" where
  "live_assets_of ev w = filter (\<lambda>a. a_eventId a = ev \<and> a_deletedAt a = None) (assets w)"

definition getOrgUsageByEvent :: "uuid \<Rightarrow> world \<Rightarrow> event_usage list" where
  "getOrgUsageByEvent org w =
    map (\<lambda>e. let as = live_assets_of (e_id e) w
             in \<lparr>eu_eventId = e_id e, eu_eventName = e_name e,
                 eu_photos = int (length (filter (\<lambda>a. a_type a = AssetType_Image) as)),
                 eu_videos = int (length (filter (\<lambda>a. a_type a = AssetType_Video) as)),
                 eu_bytes = sum_list (map a_fileSize as)\<rparr>)
      (event_listByOrg org w)"

record org_usage =
  ug_events :: "event_usage list"
  ug_totalEvents :: nat
  ug_totalPhotos :: int
  ug_totalVideos :: int
  ug_totalBytes :: bytes

definition getUsage :: "uuid \<Rightarrow> world \<Rightarrow> org_usage" where
  "getUsage org w =
    (let events = getOrgUsageByEvent org w
     in \<lparr>ug_events = events, ug_totalEvents = length events, ug_totalPhotos = sum_list (map eu_photos events),
         ug_totalVideos = sum_list (map eu_videos events), ug_totalBytes = sum_list (map eu_bytes events)\<rparr>)"

subsection \<open>The notification bell\<close>

text \<open>Newest start first, events without a start on top (as Postgres sorts nulls), then newest.\<close>

definition listForSidebar :: "uuid \<Rightarrow> world \<Rightarrow> event_row list" where
  "listForSidebar org w =
    (let es = event_listByOrg org w
     in filter (\<lambda>e. e_startsAt e = None) es
        @ sort_key (\<lambda>e. - (or_default (e_startsAt e) 0)) (filter (\<lambda>e. e_startsAt e \<noteq> None) es))"

datatype notice_kind = Purged | Expired | Expiring int

record OrgNotification =
  on_kind :: notice_kind
  on_eventId :: uuid
  on_at :: ms

definition on_warning :: "OrgNotification \<Rightarrow> bool" where
  "on_warning n \<longleftrightarrow> on_kind n = Expired"

definition EXPIRY_WARNING_DAYS :: int where "EXPIRY_WARNING_DAYS = 14"

definition ceil_div :: "int \<Rightarrow> int \<Rightarrow> int" where
  "ceil_div a b = - ((- a) div b)"

definition notice_of :: "ms \<Rightarrow> event_row \<Rightarrow> OrgNotification list" where
  "notice_of now e =
    (case e_purgedAt e of
       Some at' \<Rightarrow> [\<lparr>on_kind = Purged, on_eventId = e_id e, on_at = at'\<rparr>]
     | None \<Rightarrow>
        (case e_expiresAt e of
           None \<Rightarrow> []
         | Some t \<Rightarrow>
             if t \<le> now then [\<lparr>on_kind = Expired, on_eventId = e_id e, on_at = t\<rparr>]
             else let daysLeft = ceil_div (t - now) 86400000
                  in if daysLeft \<le> EXPIRY_WARNING_DAYS
                     then [\<lparr>on_kind = Expiring daysLeft, on_eventId = e_id e, on_at = t\<rparr>] else []))"

text \<open>
  JavaScript's sort is stable, so the two-key comparison is a sort by the second key followed by one
  by the first.
\<close>

definition getNotifications :: "uuid \<Rightarrow> ms \<Rightarrow> world \<Rightarrow> OrgNotification list \<times> nat" where
  "getNotifications org now w =
    (let items = sort_key (\<lambda>n. if on_warning n then 0 else 1 :: nat)
                   (sort_key (\<lambda>n. - on_at n) (concat (map (notice_of now) (listForSidebar org w))))
     in (items, length (filter on_warning items)))"

section \<open>The last owner\<close>

definition live_user :: "uuid \<Rightarrow> world \<Rightarrow> bool" where
  "live_user i w \<longleftrightarrow> (\<exists>u \<in> set (users w). u_id u = i \<and> u_deletedAt u = None)"

definition live_owner :: "uuid \<Rightarrow> world \<Rightarrow> uuid \<Rightarrow> bool" where
  "live_owner org w i \<longleftrightarrow>
     (\<exists>m \<in> set (organizationUsers w). ou_orgId m = org \<and> ou_userId m = i \<and> ou_role m = OrgRole_Owner) \<and> live_user i w"

text \<open>The primary keys of the two tables.\<close>

definition account_keys :: "world \<Rightarrow> bool" where
  "account_keys w \<longleftrightarrow> distinct (map u_id (users w)) \<and>
     distinct (map (\<lambda>m. (ou_orgId m, ou_userId m)) (organizationUsers w))"

lemma distinct_concat_single:
  assumes "distinct (map k ms)" "\<And>m x. m \<in> set ms \<Longrightarrow> x \<in> set (f m) \<Longrightarrow> g x = k m" "\<And>m. m \<in> set ms \<Longrightarrow> length (f m) \<le> 1"
  shows "distinct (map g (concat (map f ms)))"
  using assms
proof (induction ms)
  case (Cons m ms)
  then have rest: "distinct (map g (concat (map f ms)))" by simp
  have "length (f m) \<le> 1" using Cons.prems(3) by simp
  then have "f m = [] \<or> (\<exists>x. f m = [x])" by (cases "f m") auto
  moreover have "g ` set (concat (map f ms)) \<subseteq> k ` set ms" using Cons.prems(2) by auto
  ultimately show ?case using rest Cons.prems(1) Cons.prems(2) [of m] by auto
qed simp

lemma owners_distinct:
  assumes "account_keys w"
  shows "distinct (map om_userId (filter P (org_listMembers org w)))"
proof -
  let ?f = "\<lambda>m. map (\<lambda>u. \<lparr>om_userId = ou_userId m, om_email = u_email u, om_name = u_name u,
                    om_role = ou_role m, om_createdAt = ou_createdAt m\<rparr>)
            (filter (\<lambda>u. u_id u = ou_userId m \<and> u_deletedAt u = None) (users w))"
  let ?ms = "filter (\<lambda>m. ou_orgId m = org) (organizationUsers w)"
  have "distinct (map ou_userId ?ms)"
    using assms by (auto simp: account_keys_def distinct_map inj_on_def)
  moreover have "length (?f m) \<le> 1" for m
  proof -
    have "distinct (map u_id (filter (\<lambda>u. u_id u = ou_userId m \<and> u_deletedAt u = None) (users w)))"
      using assms by (simp add: account_keys_def distinct_map_filter)
    moreover have "set (map u_id (filter (\<lambda>u. u_id u = ou_userId m \<and> u_deletedAt u = None) (users w))) \<subseteq> {ou_userId m}" by auto
    ultimately show ?thesis
      by (metis (no_types, lifting) card_mono distinct_card finite.emptyI finite_insert is_singletonI is_singleton_altdef length_map)
  qed
  ultimately have "distinct (map om_userId (concat (map ?f ?ms)))"
    by (intro distinct_concat_single [where k = ou_userId]) auto
  then have "distinct (map om_userId (org_listMembers org w))"
    unfolding org_listMembers_def by (simp add: distinct_map)
  then show ?thesis by (rule distinct_map_filter)
qed

lemma owner_ids:
  "om_userId ` set (filter (\<lambda>m. om_role m = OrgRole_Owner) (org_listMembers org w)) = {i. live_owner org w i}"
  by (force simp: org_listMembers_def live_owner_def live_user_def image_iff)

lemma not_last_owner:
  assumes "account_keys w" "live_owner org w i" "ensureNotLastOwner org userId newRole w = Inr ()" "newRole \<noteq> Some OrgRole_Owner"
  shows "\<exists>j. j \<noteq> userId \<and> live_owner org w j"
proof (rule ccontr)
  assume "\<not> (\<exists>j. j \<noteq> userId \<and> live_owner org w j)"
  with assms(2) have "{j. live_owner org w j} = {userId}" by auto
  then have img: "om_userId ` set (filter (\<lambda>m. om_role m = OrgRole_Owner) (org_listMembers org w)) = {userId}"
    using owner_ids [of org w] by simp
  have "length (filter (\<lambda>m. om_role m = OrgRole_Owner) (org_listMembers org w)) = 1"
    using owners_distinct [OF assms(1), of "\<lambda>m. om_role m = OrgRole_Owner" org] img
    by (metis One_nat_def card.empty card.insert distinct_card empty_iff finite.emptyI length_map list.set_map)
  then obtain m where m: "filter (\<lambda>m. om_role m = OrgRole_Owner) (org_listMembers org w) = [m]"
    by (metis One_nat_def length_0_conv length_Suc_conv)
  with img have "om_userId m = userId" by simp
  with m assms(3,4) show False by (simp add: ensureNotLastOwner_def)
qed

lemma removed_owner:
  "live_owner org (org_removeMember org' i w) j \<longleftrightarrow> live_owner org w j \<and> (org', i) \<noteq> (org, j)"
  by (auto simp: live_owner_def live_user_def org_removeMember_def)

lemma bex_update_where: "(\<exists>r \<in> set (update_where p f rs). P r) \<longleftrightarrow> (\<exists>r \<in> set rs. P (if p r then f r else r))"
  unfolding set_update_where by blast

lemma set_role_rows:
  assumes "org_getMembership org i w \<noteq> None"
  shows "(\<exists>m \<in> set (organizationUsers (org_addMember org i role now w)).
      ou_orgId m = org' \<and> ou_userId m = j \<and> ou_role m = OrgRole_Owner) \<longleftrightarrow>
    (if (org, i) = (org', j) then role = OrgRole_Owner
     else \<exists>m \<in> set (organizationUsers w). ou_orgId m = org' \<and> ou_userId m = j \<and> ou_role m = OrgRole_Owner)"
proof -
  let ?p = "\<lambda>m. ou_orgId m = org \<and> ou_userId m = i"
  let ?owns = "\<lambda>m. ou_orgId m = org' \<and> ou_userId m = j \<and> ou_role m = OrgRole_Owner"
  obtain x where x: "x \<in> set (organizationUsers w)" "?p x"
    using assms by (auto simp: org_getMembership_def select_first_None_iff)
  have rows: "organizationUsers (org_addMember org i role now w)
      = update_where ?p (\<lambda>m. m\<lparr>ou_role := role\<rparr>) (organizationUsers w)"
    using assms by (auto simp: org_addMember_def)
  have "(\<exists>m \<in> set (organizationUsers (org_addMember org i role now w)). ?owns m) \<longleftrightarrow>
      (\<exists>m \<in> set (organizationUsers w). ?owns (if ?p m then m\<lparr>ou_role := role\<rparr> else m))"
    unfolding rows by (rule bex_update_where)
  also have "\<dots> \<longleftrightarrow> (if (org, i) = (org', j) then role = OrgRole_Owner else \<exists>m \<in> set (organizationUsers w). ?owns m)"
  proof (cases "(org, i) = (org', j)")
    case True
    with x show ?thesis by auto
  next
    case False
    then have same: "?owns (if ?p m then m\<lparr>ou_role := role\<rparr> else m) \<longleftrightarrow> ?owns m" for m by auto
    show ?thesis unfolding if_not_P [OF False] by (rule bex_cong [OF refl same])
  qed
  finally show ?thesis .
qed

lemma set_role_owner:
  assumes "org_getMembership org i w \<noteq> None"
  shows "live_owner org' (org_addMember org i role now w) j \<longleftrightarrow>
    (if (org, i) = (org', j) then role = OrgRole_Owner \<and> live_user j w else live_owner org' w j)"
proof -
  have "live_user j (org_addMember org i role now w) = live_user j w"
    by (simp add: live_user_def org_addMember_def)
  then show ?thesis using set_role_rows [OF assms, of role now org' j] by (auto simp: live_owner_def)
qed

text \<open>
  C37. Changing a member's role and removing a member never leave an organization that has a live owner
  without one, whichever organization they were aimed at.
\<close>

theorem last_owner_is_kept:
  assumes "account_keys w" "live_owner org w i"
  shows "(\<exists>j. live_owner org (snd (updateMember org' userId role now w)) j)
    \<and> (\<exists>j. live_owner org (snd (removeMember org' userId w)) j)"
proof
  have other: "\<exists>j. j \<noteq> userId \<and> live_owner org w j"
    if "ensureNotLastOwner org userId newRole w = Inr ()" "newRole \<noteq> Some OrgRole_Owner" for newRole
    using not_last_owner [OF assms that] .
  show "\<exists>j. live_owner org (snd (removeMember org' userId w)) j"
  proof (cases "org_getMembership org' userId w = None \<or> ensureNotLastOwner org' userId None w \<noteq> Inr ()")
    case True
    with assms(2) show ?thesis by (auto simp: removeMember_def split: option.splits sum.splits)
  next
    case False
    then have run: "snd (removeMember org' userId w) = org_removeMember org' userId w"
      and ok: "ensureNotLastOwner org' userId None w = Inr ()" by (auto simp: removeMember_def)
    obtain j where "live_owner org w j" "(org', userId) \<noteq> (org, j)"
      using assms(2) other [of None] ok by (cases "org' = org") auto
    then show ?thesis unfolding run removed_owner by blast
  qed
  have up: "live_user i w" using assms(2) by (simp add: live_owner_def)
  show "\<exists>j. live_owner org (snd (updateMember org' userId role now w)) j"
  proof (cases "org_getMembership org' userId w = None \<or> ensureNotLastOwner org' userId (Some role) w \<noteq> Inr ()")
    case True
    with assms(2) show ?thesis by (auto simp: updateMember_def split: option.splits sum.splits)
  next
    case False
    then have mem: "org_getMembership org' userId w \<noteq> None" and ok: "ensureNotLastOwner org' userId (Some role) w = Inr ()" by auto
    then have run: "snd (updateMember org' userId role now w) = org_addMember org' userId role now w"
      by (auto simp: updateMember_def)
    obtain j where "if (org', userId) = (org, j) then role = OrgRole_Owner \<and> live_user j w else live_owner org w j"
    proof (cases "org' = org \<and> role \<noteq> OrgRole_Owner")
      case True
      with other [of "Some role"] ok obtain j where "j \<noteq> userId" "live_owner org w j" by auto
      then show thesis using that [of j] by auto
    next
      case False
      then show thesis using that [of i] assms(2) up by auto
    qed
    then show ?thesis unfolding run set_role_owner [OF mem] by blast
  qed
qed

text \<open>
  Adding a member has no such guard: adding the e-mail address of an organization's only live owner
  with a lower role is accepted and leaves the organization without an owner.
\<close>

theorem adding_the_last_owner_demotes_them:
  assumes "account_keys w" "org_get org w = Inr r" "user_getByEmail (am_email dto) w = Some u"
    and "\<forall>j. live_owner org w j \<longleftrightarrow> j = u_id u" "am_role dto \<noteq> OrgRole_Owner"
  shows "fst (addMember cr newId org dto now w) = Inr () \<and>
    \<not> (\<exists>j. live_owner org (snd (addMember cr newId org dto now w)) j)"
proof -
  have run: "addMember cr newId org dto now w = (Inr (), org_addMember org (u_id u) (am_role dto) now w)"
    using assms(2,3) by (simp add: addMember_def resolveUser_def)
  have "live_owner org w (u_id u)" using assms(4) by simp
  then have mem: "org_getMembership org (u_id u) w \<noteq> None"
    by (auto simp: live_owner_def org_getMembership_def select_first_None_iff)
  have "\<not> live_owner org (org_addMember org (u_id u) (am_role dto) now w) j" for j
    unfolding set_role_owner [OF mem] using assms(4,5) by simp
  with run show ?thesis by simp
qed

section \<open>Custom limits belong to Enterprise\<close>

datatype org_op =
    CreateOrg crypto uuid uuid CreateOrgDto uuid | UpdateOrg uuid UpdateOrgDto
  | UpdatePlan uuid UpdatePlanDto uuid | RemoveOrg uuid
  | AddMember crypto uuid uuid AddMemberDto | UpdateMember uuid uuid OrgRole | RemoveMember uuid uuid
  | ResetMemberPassword crypto reset_env uuid uuid uuid

fun org_step :: "org_op \<Rightarrow> ms \<Rightarrow> world \<Rightarrow> world" where
  "org_step (CreateOrg cr u i dto by) now w = snd (createOrg cr u i dto by now w)"
| "org_step (UpdateOrg i dto) now w = snd (updateOrg i dto now w)"
| "org_step (UpdatePlan i dto a) now w = snd (updatePlan i dto a now w)"
| "org_step (RemoveOrg i) now w = snd (removeOrg i now w)"
| "org_step (AddMember cr u i dto) now w = snd (addMember cr u i dto now w)"
| "org_step (UpdateMember i u role) now w = snd (updateMember i u role now w)"
| "org_step (RemoveMember i u) now w = snd (removeMember i u w)"
| "org_step (ResetMemberPassword cr env i u a) now w = snd (resetMemberPassword cr env i u a now w)"

definition limits_inv :: "world \<Rightarrow> bool" where
  "limits_inv w \<longleftrightarrow> (\<forall>r \<in> set (organizations w). o_plan r \<noteq> OrgPlan_Enterprise \<longrightarrow>
     o_storageLimitBytes r = None \<and> o_eventLimit r = None)"

lemma org_tables_kept [simp]:
  "organizations (org_addMember i u role now w) = organizations w"
  "organizations (org_removeMember i u w) = organizations w"
  "organizations (user_setPassword i h now w) = organizations w"
  "organizations (snd (session_deleteForUser i e w)) = organizations w"
  "organizations (reset_invalidateForUser i now w) = organizations w"
  "organizations (record_audit b entry now w) = organizations w"
  "organizations (queueAll js w) = organizations w"
  "organizations (snd (user_create usr w)) = organizations w"
  by (simp_all add: org_addMember_def org_removeMember_def user_setPassword_def session_deleteForUser_def Let_def
      reset_invalidateForUser_def record_audit_def audit_create_def queueAll_def user_create_def)

lemma resolveUser_orgs [simp]: "organizations (snd (resolveUser cr i e n p now w)) = organizations w"
  by (simp add: resolveUser_def split: option.splits)

lemma limits_org_set:
  assumes "limits_inv w" "\<And>r. (o_plan r \<noteq> OrgPlan_Enterprise \<longrightarrow> o_storageLimitBytes r = None \<and> o_eventLimit r = None) \<Longrightarrow>
      o_plan (f r) \<noteq> OrgPlan_Enterprise \<longrightarrow> o_storageLimitBytes (f r) = None \<and> o_eventLimit (f r) = None"
  shows "limits_inv (org_set i f now w)"
  using assms by (auto simp: limits_inv_def org_set_def set_update_where)

lemma limits_org_update:
  assumes "limits_inv w" "\<And>r. (o_plan r \<noteq> OrgPlan_Enterprise \<longrightarrow> o_storageLimitBytes r = None \<and> o_eventLimit r = None) \<Longrightarrow>
      o_plan (f r) \<noteq> OrgPlan_Enterprise \<longrightarrow> o_storageLimitBytes (f r) = None \<and> o_eventLimit (f r) = None"
  shows "limits_inv (snd (org_update i f now w))"
  using assms limits_org_set [OF assms] by (auto simp: org_update_def split: option.splits)

lemma limits_same_orgs: "limits_inv w \<Longrightarrow> organizations w' = organizations w \<Longrightarrow> limits_inv w'"
  by (simp add: limits_inv_def)

lemma limits_createOrg:
  assumes "limits_inv w"
  shows "limits_inv (snd (createOrg cr u i dto by' now w))"
proof -
  obtain r w1 where run: "resolveUser cr u (co_ownerEmail dto) (co_ownerName dto) (co_ownerPassword dto) now w = (r, w1)"
    by fastforce
  then have "organizations w1 = organizations w"
    using resolveUser_orgs [of cr u "co_ownerEmail dto" "co_ownerName dto" "co_ownerPassword dto" now w] by simp
  with assms run show ?thesis
    by (auto simp: createOrg_def org_create_def limits_inv_def Let_def split: sum.splits if_splits)
qed

lemma updatePlan_orgs:
  "organizations (snd (updatePlan i dto a now w)) \<in> {organizations w} \<union>
     range (\<lambda>plan. organizations (snd (org_update i (apply_plan plan dto) now w)))"
proof (cases "org_get i w")
  case (Inl e)
  then show ?thesis by (simp add: updatePlan_def)
next
  case (Inr before)
  let ?plan = "or_default (up_plan dto) (o_plan before)"
  obtain x w1 where run: "org_update i (apply_plan ?plan dto) now w = (x, w1)" by fastforce
  then have "organizations w1 = organizations (snd (org_update i (apply_plan ?plan dto) now w))" by simp
  then have "organizations w1 \<in> range (\<lambda>plan. organizations (snd (org_update i (apply_plan plan dto) now w)))"
    by (rule range_eqI)
  with Inr run show ?thesis by (cases x) (simp_all add: updatePlan_def Let_def)
qed

lemma limits_step: "limits_inv w \<Longrightarrow> limits_inv (org_step op now w)"
proof (cases op)
  case (UpdateOrg i dto)
  assume "limits_inv w"
  then have "limits_inv (snd (org_update i (apply_org_dto dto) now w))"
    by (rule limits_org_update) (simp add: apply_org_dto_def)
  with UpdateOrg \<open>limits_inv w\<close> show ?thesis by (simp add: updateOrg_def split: sum.splits)
next
  case (UpdatePlan i dto a)
  assume inv: "limits_inv w"
  have "limits_inv (snd (org_update i (apply_plan plan dto) now w))" for plan
    by (rule limits_org_update [OF inv]) (simp add: apply_plan_def)
  with UpdatePlan inv updatePlan_orgs [of i dto a now w] show ?thesis
    by (auto simp: limits_inv_def)
next
  case (CreateOrg cr u i dto by')
  assume "limits_inv w"
  with CreateOrg show ?thesis by (simp add: limits_createOrg)
next
  case (RemoveOrg i)
  assume inv: "limits_inv w"
  have "limits_inv (org_softDelete i now w)"
    unfolding org_softDelete_def by (rule limits_org_set [OF inv]) simp
  with RemoveOrg inv show ?thesis
    by (auto simp: removeOrg_def split: sum.splits intro: limits_same_orgs)
next
  case (AddMember cr u i dto)
  assume inv: "limits_inv w"
  obtain r w1 where run: "resolveUser cr u (am_email dto) (or_default (am_name dto) (hd (split_on (CHR 0x40) (am_email dto))))
      (am_password dto) now w = (r, w1)" by fastforce
  then have "organizations w1 = organizations w"
    using resolveUser_orgs [of cr u "am_email dto" _ "am_password dto" now w] by (metis snd_conv)
  with AddMember run inv show ?thesis by (auto simp: addMember_def limits_inv_def split: sum.splits)
next
  case (ResetMemberPassword cr env i u a)
  assume inv: "limits_inv w"
  have "organizations (snd (resetMemberPassword cr env i u a now w)) = organizations w"
    by (auto simp: resetMemberPassword_def reset_create_def Let_def split: option.splits)
  with ResetMemberPassword inv show ?thesis by (auto intro: limits_same_orgs)
qed (auto simp: updateMember_def removeMember_def limits_inv_def split: option.splits sum.splits)

lemma limits_start: "organizations w = [] \<Longrightarrow> limits_inv w"
  by (simp add: limits_inv_def)

interpretation org_limits:
  invariant_system "\<lambda>w. organizations w = []" "\<lambda>w (op, now) w'. w' = org_step op now w" limits_inv
  by unfold_locales (auto intro: limits_step limits_start)

text \<open>
  Only Enterprise organizations carry custom limits: in every state the organization service can
  reach from an installation without organizations, through any sequence of its operations, an
  organization on another plan has no storage or event override, so its limits are the plan's own.
\<close>

theorem custom_limits_only_on_enterprise:
  assumes "reachable (\<lambda>w. organizations w = []) (\<lambda>w (op, now) w'. w' = org_step op now w) w"
    and "r \<in> set (organizations w)" "o_plan r \<noteq> OrgPlan_Enterprise"
  shows "o_storageLimitBytes r = None \<and> o_eventLimit r = None \<and>
    li_storageBytes (limitsFor r) = pl_storageBytes (PLAN_LIMITS (o_plan r)) \<and>
    li_events (limitsFor r) = pl_events (PLAN_LIMITS (o_plan r)) \<and> \<not> li_hasCustomLimits (limitsFor r)"
  using org_limits.reachable_inv [OF assms(1)] assms(2,3) by (simp add: limits_inv_def limitsFor_def Let_def)

end
