(* ===== verification/Upload.thy ===== *)
theory Upload
  imports Quota Text
begin

text \<open>
  \<^verbatim>\<open>services/upload.service.ts\<close>: the through-API upload and the browser's preflight.

  \<open>upload_env\<close> collects what the handler does not decide: the fresh asset id, whether R2 accepts
  the put and the compensating delete, and what other requests do to the shared state between the
  quota check and the insert (\<open>ue_others\<close>), which is where the unique index arbitrates.
\<close>

section \<open>Uploading\<close>

record StagedUpload =
  su_stagingPath :: string
  su_originalFilename :: string
  su_mimeType :: string
  su_size :: bytes
  su_checksum :: string

datatype UploadResult = created uuid | duplicate uuid

record upload_env =
  ue_newId :: uuid
  ue_put_ok :: bool
  ue_delete_ok :: bool
  ue_others :: "world \<Rightarrow> world"

text \<open>The inserted row, with its key.\<close>

definition upload_row :: "upload_env \<Rightarrow> event_row \<Rightarrow> uuid \<Rightarrow> StagedUpload \<Rightarrow> ms \<Rightarrow> asset_row" where
  "upload_row env event eventId staged now =
    (let ext = toLowerCase (extname (su_originalFilename staged));
         storageKey = key_original (e_orgId event) eventId (ue_newId env) ext;
         type = (if prefix ''video/'' (su_mimeType staged) then AssetType_Video else AssetType_Image)
     in \<lparr>a_id = ue_newId env, a_eventId = eventId, a_orgId = e_orgId event, a_type = type,
         a_originalFilename = su_originalFilename staged, a_checksum = su_checksum staged,
         a_fileSize = su_size staged, a_mimeType = su_mimeType staged,
         a_status = AssetStatus_Stored, a_source = AssetSource_Upload,
         a_storageKey = storageKey, a_capturedAt = None, a_createdAt = now,
         a_deletedAt = None, a_facesDetectedAt = None, a_faceCount = 0\<rparr>)"

text \<open>The \<^verbatim>\<open>try\<close> block: insert, or find out who won the race.\<close>

definition upload_insert ::
  "upload_env \<Rightarrow> StagedUpload \<Rightarrow> asset_row \<Rightarrow> world \<Rightarrow> UploadResult outcome \<times> world" where
  "upload_insert env staged row w =
    (case asset_create row w of
       (Inr asset, w2) \<Rightarrow>
         (Inr (created (a_id asset)),
          queue (AssetProcess (a_id asset)) (discard (su_stagingPath staged) w2))
     | (Inl err, w2) \<Rightarrow>
         if isAssetChecksumConstraint err
         then let w3 = discard (su_stagingPath staged)
                         (if ue_delete_ok env then deleteKeys [a_storageKey row] w2 else w2)
              in (case asset_findByChecksum (a_eventId row) (su_checksum staged) w3 of
                    Some winner \<Rightarrow> (Inr (duplicate (a_id winner)), w3)
                  | None \<Rightarrow> (Inl err, w3))
         else (Inl err, w2))"

definition uploadAsset ::
  "upload_env \<Rightarrow> uuid \<Rightarrow> StagedUpload \<Rightarrow> ms \<Rightarrow> world \<Rightarrow> UploadResult outcome \<times> world" where
  "uploadAsset env eventId staged now w =
    (case event_getById eventId w of
       None \<Rightarrow> (Inl (NotFound ''Event not found''), discard (su_stagingPath staged) w)
     | Some event \<Rightarrow>
    (case asset_findByChecksum eventId (su_checksum staged) w of
       Some existing \<Rightarrow> (Inr (duplicate (a_id existing)), discard (su_stagingPath staged) w)
     | None \<Rightarrow>
    (case assertStorageAvailable (e_orgId event) (su_size staged) w of
       Inl err \<Rightarrow> (Inl err, discard (su_stagingPath staged) w)
     | Inr _ \<Rightarrow>
    (let row = upload_row env event eventId staged now
     in if \<not> ue_put_ok env then (Inl (ServerError ''put failed''), w)
        else upload_insert env staged row (ue_others env (putFile (a_storageKey row) w))))))"

section \<open>Preflight\<close>

datatype bulk_action = accept | reject uuid

definition existingChecksums :: "uuid \<Rightarrow> string list \<Rightarrow> world \<Rightarrow> string \<Rightarrow> uuid option" where
  "existingChecksums ev cs w =
    (if cs = [] then Map.empty
     else map_of (rev (map (\<lambda>a. (to_hex (a_checksum a), a_id a))
       (filter (\<lambda>a. a_eventId a = ev \<and> a_checksum a \<in> set cs \<and> a_deletedAt a = None) (assets w)))))"

definition bulkUploadCheck :: "uuid \<Rightarrow> (string \<times> string) list \<Rightarrow> world \<Rightarrow> (string \<times> bulk_action) list" where
  "bulkUploadCheck ev files w =
    (let existing = existingChecksums ev (map (\<lambda>f. from_hex (snd f)) files) w
     in map (\<lambda>f. (fst f, case existing (to_hex (from_hex (snd f))) of
                           Some i \<Rightarrow> reject i | None \<Rightarrow> accept)) files)"


section \<open>What one upload does\<close>

lemma upload_row_fields [simp]:
  "a_id (upload_row env event ev st now) = ue_newId env"
  "a_eventId (upload_row env event ev st now) = ev"
  "a_orgId (upload_row env event ev st now) = e_orgId event"
  "a_checksum (upload_row env event ev st now) = su_checksum st"
  "a_fileSize (upload_row env event ev st now) = su_size st"
  "a_deletedAt (upload_row env event ev st now) = None"
  by (simp_all add: upload_row_def)

lemma asset_findByChecksum_frames [simp]:
  "asset_findByChecksum ev c (discard p w) = asset_findByChecksum ev c w"
  "asset_findByChecksum ev c (deleteKeys ks w) = asset_findByChecksum ev c w"
  "asset_findByChecksum ev c (putFile k w) = asset_findByChecksum ev c w"
  by (simp_all add: asset_findByChecksum_def)

lemma upload_insert_cases:
  assumes "upload_insert env st row w = (r, w')" "a_checksum row = su_checksum st"
  obtains
    (stored) "asset_findByChecksum (a_eventId row) (su_checksum st) w = None"
      "\<exists>e \<in> set (events w). e_id e = a_eventId row" "r = Inr (created (a_id row))"
      "w' = queue (AssetProcess (a_id row)) (discard (su_stagingPath st) (w\<lparr>assets := assets w @ [row]\<rparr>))"
  | (lost) x where "asset_findByChecksum (a_eventId row) (su_checksum st) w = Some x"
      "r = Inr (duplicate (a_id x))"
      "w' = discard (su_stagingPath st) (if ue_delete_ok env then deleteKeys [a_storageKey row] w else w)"
  | (event_gone) "\<forall>e \<in> set (events w). e_id e \<noteq> a_eventId row"
      "r = Inl (ServerError ''asset_event_id_fkey'')" "w' = w"
proof (cases "asset_findByChecksum (a_eventId row) (su_checksum st) w")
  case None
  with assms show thesis
    by (cases "\<forall>e \<in> set (events w). e_id e \<noteq> a_eventId row")
      (auto simp: upload_insert_def asset_create_def isAssetChecksumConstraint_def
        ASSET_CHECKSUM_CONSTRAINT_def intro: stored event_gone)
next
  case (Some x)
  with assms show thesis
    by (intro lost)
      (auto simp: upload_insert_def asset_create_def isAssetChecksumConstraint_def Let_def split: if_splits)
qed

text \<open>The branches of \<^verbatim>\<open>uploadAsset\<close> before the insert.\<close>

lemma uploadAsset_cases:
  assumes "uploadAsset env ev st now w = (r, w')"
  obtains
    (no_event) "event_getById ev w = None" "r = Inl (NotFound ''Event not found'')"
      "w' = discard (su_stagingPath st) w"
  | (known) event x where "event_getById ev w = Some event"
      "asset_findByChecksum ev (su_checksum st) w = Some x" "r = Inr (duplicate (a_id x))"
      "w' = discard (su_stagingPath st) w"
  | (over) event err where "event_getById ev w = Some event"
      "assertStorageAvailable (e_orgId event) (su_size st) w = Inl err" "r = Inl err"
      "w' = discard (su_stagingPath st) w"
  | (put_failed) "\<not> ue_put_ok env" "r = Inl (ServerError ''put failed'')" "w' = w"
  | (insert) event row where "event_getById ev w = Some event" "row = upload_row env event ev st now"
      "asset_findByChecksum ev (su_checksum st) w = None"
      "is_ok (assertStorageAvailable (e_orgId event) (su_size st) w)"
      "upload_insert env st row (ue_others env (putFile (a_storageKey row) w)) = (r, w')"
proof (cases "event_getById ev w")
  case None
  show thesis by (rule no_event) (use assms None in \<open>simp_all add: uploadAsset_def\<close>)
next
  case (Some event)
  note ev = Some
  show thesis
  proof (cases "asset_findByChecksum ev (su_checksum st) w")
    case (Some x)
    show thesis by (rule known [OF ev Some]) (use assms ev Some in \<open>simp_all add: uploadAsset_def\<close>)
  next
    case None
    show thesis
    proof (cases "assertStorageAvailable (e_orgId event) (su_size st) w")
      case (Inl err)
      show thesis by (rule over [OF ev Inl]) (use assms ev None Inl in \<open>simp_all add: uploadAsset_def\<close>)
    next
      case (Inr u)
      show thesis
      proof (cases "ue_put_ok env")
        case False
        show thesis by (rule put_failed) (use assms ev None Inr False in \<open>simp_all add: uploadAsset_def Let_def\<close>)
      next
        case True
        show thesis
          by (rule insert [OF ev refl None]) (use assms ev None Inr True in \<open>simp_all add: uploadAsset_def Let_def\<close>)
      qed
    qed
  qed
qed

section \<open>One live row per event and checksum\<close>

definition live_checksums :: "world \<Rightarrow> (uuid \<times> string) list" where
  "live_checksums w = map (\<lambda>a. (a_eventId a, a_checksum a)) (filter (\<lambda>a. a_deletedAt a = None) (assets w))"

lemma live_checksums_frames [simp]:
  "live_checksums (discard p w) = live_checksums w"
  "live_checksums (deleteKeys ks w) = live_checksums w"
  "live_checksums (putFile k w) = live_checksums w"
  "live_checksums (queueAll js w) = live_checksums w"
  by (simp_all add: live_checksums_def queueAll_def)

lemma findByChecksum_live: "asset_findByChecksum ev c w = None \<longleftrightarrow> (ev, c) \<notin> set (live_checksums w)"
  by (auto simp: asset_findByChecksum_def select_first_None_iff live_checksums_def)

lemma findByChecksum_SomeD:
  "asset_findByChecksum ev c w = Some a \<Longrightarrow>
     a \<in> set (assets w) \<and> a_eventId a = ev \<and> a_checksum a = c \<and> a_deletedAt a = None"
  unfolding asset_findByChecksum_def by (drule select_first_SomeD) simp

lemma findByChecksum_unique:
  assumes "distinct (live_checksums w)" "a \<in> set (assets w)" "a_deletedAt a = None"
  shows "asset_findByChecksum (a_eventId a) (a_checksum a) w = Some a"
proof -
  from assms(2,3) obtain b where b: "asset_findByChecksum (a_eventId a) (a_checksum a) w = Some b"
    by (cases "asset_findByChecksum (a_eventId a) (a_checksum a) w")
      (auto simp: asset_findByChecksum_def select_first_None_iff)
  from findByChecksum_SomeD [OF this] assms have "a = b"
    by (auto simp: live_checksums_def distinct_map inj_on_def)
  with b show ?thesis by simp
qed

section \<open>A concrete event\<close>

definition wit_event :: event_row where
  "wit_event = \<lparr>e_id = ''e'', e_orgId = ''o'', e_name = ''Wedding'', e_slug = ''wedding'',
     e_description = None, e_startsAt = None, e_endsAt = None, e_status = EventStatus_Active,
     e_participantPageEnabled = True,
     e_config = \<lparr>ec_matchMaxDistance = None, ec_minScore = None, ec_minFaces = None\<rparr>,
     e_participantsSeeAllPhotos = False, e_participantsCanDownloadAll = False, e_coverAssetId = None,
     e_expiresAt = None, e_expiryNotifiedAt = None, e_expiryAcknowledgedAt = None,
     e_purgeAfter = None, e_purgedAt = None, e_createdAt = 0, e_updatedAt = 0, e_deletedAt = None\<rparr>"

definition wit_event_world :: world where
  "wit_event_world = wit_org_world\<lparr>events := [wit_event], staging := [''/staging/1'']\<rparr>"

definition wit_staged :: StagedUpload where
  "wit_staged = \<lparr>su_stagingPath = ''/staging/1'', su_originalFilename = ''a.JPG'',
     su_mimeType = ''image/jpeg'', su_size = 1000, su_checksum = from_hex ''0aff''\<rparr>"

definition wit_env :: upload_env where
  "wit_env = \<lparr>ue_newId = ''a1'', ue_put_ok = True, ue_delete_ok = True, ue_others = (\<lambda>v. v)\<rparr>"

lemma wit_event_facts:
  "event_getById ''e'' wit_event_world = Some wit_event" "assets wit_event_world = []"
  "objects wit_event_world = []" "events wit_event_world = [wit_event]" "e_id wit_event = ''e''"
  "e_orgId wit_event = ''o''" "live_checksums wit_event_world = []"
  "asset_findByChecksum ev c wit_event_world = None" "getOrgStorageBytes org wit_event_world = 0"
  "ue_others wit_env = (\<lambda>v. v)" "ue_newId wit_env = ''a1''" "ue_put_ok wit_env" "ue_delete_ok wit_env"
  "limit_of li_storageBytes ''o'' wit_event_world = 2 * GB"
  by (simp_all add: wit_event_world_def wit_event_def wit_org_defs event_getById_def live_checksums_def
      wit_env_def asset_findByChecksum_def getOrgStorageBytes_def limit_of_def org_getById_def limitsFor_def Let_def)

lemma wit_quota: "assertStorageAvailable ''o'' 1000 wit_event_world = Inr ()"
  using storage_quota.guard_ok [of "''o''" 1000 wit_event_world]
  by (cases "assertStorageAvailable ''o'' 1000 wit_event_world")
    (simp_all add: wit_event_facts GB_def org_getById_def, simp add: wit_event_world_def wit_org_defs)

lemma wit_upload: "fst (uploadAsset wit_env ''e'' wit_staged 5 wit_event_world) = Inr (created ''a1'')"
proof -
  have "su_size wit_staged = 1000" by (simp add: wit_staged_def)
  then show ?thesis
    by (simp add: uploadAsset_def wit_event_facts wit_quota upload_insert_def asset_create_def Let_def)
qed

text \<open>
  The (event, checksum) index holds whatever other requests do in between: if they keep one live
  row per event and checksum, so does an upload, on every branch.
\<close>

theorem upload_keeps_checksums_unique:
  assumes "distinct (live_checksums w)"
    and "\<And>v. distinct (live_checksums v) \<Longrightarrow> distinct (live_checksums (ue_others env v))"
    and "uploadAsset env ev st now w = (r, w')"
  shows "distinct (live_checksums w')"
  using assms(3)
proof (cases rule: uploadAsset_cases)
  case (insert event row)
  let ?v = "ue_others env (putFile (a_storageKey row) w)"
  have v: "distinct (live_checksums ?v)" using assms(1,2) by simp
  have c: "a_checksum row = su_checksum st" "a_deletedAt row = None" using insert(2) by simp_all
  from insert(5) c(1) show ?thesis
  proof (cases rule: upload_insert_cases)
    case stored
    then have "(a_eventId row, a_checksum row) \<notin> set (live_checksums ?v)"
      using c by (simp add: findByChecksum_live)
    with v c stored(4) show ?thesis by (simp add: live_checksums_def queueAll_def)
  qed (use v in auto)
qed (use assms(1) in simp_all)

theorem upload_keeps_checksums_unique_witness:
  "distinct (live_checksums (snd (uploadAsset wit_env ''e'' wit_staged 5 wit_event_world)))"
  by (rule upload_keeps_checksums_unique [OF _ _ prod.collapse [symmetric]]) (simp_all add: wit_event_facts)

section \<open>No orphaned objects\<close>



section \<open>Uploading again\<close>

lemma upload_keeps_events:
  assumes "uploadAsset env ev st now w = (r, w')" "ue_others env = (\<lambda>v. v)"
  shows "events w' = events w"
  using assms(1)
proof (cases rule: uploadAsset_cases)
  case (insert event row)
  then have "a_checksum row = su_checksum st" by simp
  from insert(5) this show ?thesis
    by (cases rule: upload_insert_cases) (auto simp: assms(2) queueAll_def)
qed simp_all

lemma upload_known:
  assumes "event_getById ev w = Some event" "asset_findByChecksum ev (su_checksum st) w = Some x"
  shows "uploadAsset env ev st now w = (Inr (duplicate (a_id x)), discard (su_stagingPath st) w)"
  using assms by (simp add: uploadAsset_def)

text \<open>
  Uploading is idempotent: once an upload created an asset, uploading a file with the same content
  to the same event answers "duplicate" with that asset's id, and rows, objects and queues stay as
  they were, even when the organization is over its quota by then.
\<close>

theorem upload_idempotent:
  assumes "distinct (live_checksums w)"
    and "\<And>v. distinct (live_checksums v) \<Longrightarrow> distinct (live_checksums (ue_others env v))"
    and "uploadAsset env ev st now w = (Inr (created i), w')" "event_getById ev w' \<noteq> None"
    and "su_checksum st' = su_checksum st"
  shows "fst (uploadAsset env' ev st' now' w') = Inr (duplicate i)
    \<and> assets (snd (uploadAsset env' ev st' now' w')) = assets w'
    \<and> objects (snd (uploadAsset env' ev st' now' w')) = objects w'
    \<and> queued (snd (uploadAsset env' ev st' now' w')) = queued w'"
proof -
  from assms(3) obtain a where a: "asset_findByChecksum ev (su_checksum st) w' = Some a" "a_id a = i"
  proof (cases rule: uploadAsset_cases)
    case (insert event row)
    then have c: "a_checksum row = su_checksum st" by simp
    from insert(5) c show ?thesis
    proof (cases rule: upload_insert_cases)
      case stored
      with insert(2) show ?thesis
        by (intro that [of row]) (simp_all add: asset_findByChecksum_def queueAll_def select_first_append)
    qed simp_all
  qed simp_all
  from assms(4) obtain e where "event_getById ev w' = Some e" by auto
  from upload_known [OF this, of st' a env' now'] a assms(5) show ?thesis by simp
qed

theorem upload_idempotent_witness:
  "fst (uploadAsset wit_env ''e'' wit_staged 9 (snd (uploadAsset wit_env ''e'' wit_staged 5 wit_event_world)))
     = Inr (duplicate ''a1'')"
proof -
  let ?w = "snd (uploadAsset wit_env ''e'' wit_staged 5 wit_event_world)"
  have run: "uploadAsset wit_env ''e'' wit_staged 5 wit_event_world = (Inr (created ''a1''), ?w)"
    using wit_upload by (metis prod.collapse)
  have "event_getById ''e'' ?w \<noteq> None"
    using upload_keeps_events [OF run] by (simp add: event_getById_def wit_event_facts) (simp add: wit_event_def)
  then show ?thesis
    using upload_idempotent [OF _ _ run _ refl, of wit_env 9] by (simp add: wit_event_facts)
qed

section \<open>Uploads stay within the quota\<close>

fun uploads :: "(upload_env \<times> uuid \<times> StagedUpload \<times> ms) list \<Rightarrow> world \<Rightarrow> world" where
  "uploads [] w = w"
| "uploads ((env, ev, st, now) # us) w = uploads us (snd (uploadAsset env ev st now w))"

lemma getOrgStorageBytes_cong:
  "assets w = assets v \<Longrightarrow> events w = events v \<Longrightarrow> getOrgStorageBytes org w = getOrgStorageBytes org v"
  by (simp add: getOrgStorageBytes_def asset_counts_for_def [abs_def])

lemma storage_frames [simp]:
  "getOrgStorageBytes org (discard p w) = getOrgStorageBytes org w"
  "getOrgStorageBytes org (deleteKeys ks w) = getOrgStorageBytes org w"
  "getOrgStorageBytes org (putFile k w) = getOrgStorageBytes org w"
  "getOrgStorageBytes org (queueAll js w) = getOrgStorageBytes org w"
  "limit_of f org (discard p w) = limit_of f org w"
  "limit_of f org (deleteKeys ks w) = limit_of f org w"
  "limit_of f org (putFile k w) = limit_of f org w"
  "limit_of f org (queueAll js w) = limit_of f org w"
  "limit_of f org (w\<lparr>assets := as\<rparr>) = limit_of f org w"
  by (simp_all add: limit_of_def org_getById_def queueAll_def putFile_def deleteKeys_def discard_def
      getOrgStorageBytes_def asset_counts_for_def [abs_def])

lemma upload_fits:
  assumes run: "uploadAsset env ev st now w = (r, w')" and id: "ue_others env = (\<lambda>v. v)"
    and keys: "distinct (map e_id (events w))" and fits: "storage_quota.fits org w"
  shows "storage_quota.fits org w'"
  using run
proof (cases rule: uploadAsset_cases)
  case (insert event row)
  then have c: "a_checksum row = su_checksum st" "a_eventId row = ev" "a_fileSize row = su_size st" by simp_all
  from insert(5) c(1) show ?thesis
  proof (cases rule: upload_insert_cases)
    case stored
    let ?v = "putFile (a_storageKey row) w"
    have used: "getOrgStorageBytes org w' =
        getOrgStorageBytes org w + (if asset_counts_for org ?v row then su_size st else 0)"
      and lim: "limit_of li_storageBytes org w' = limit_of li_storageBytes org w"
      using stored(4) id c getOrgStorageBytes_append [of org ?v row] by simp_all
    show ?thesis
    proof (cases "asset_counts_for org ?v row")
      case True
      then obtain e where e: "e \<in> set (events w)" "e_id e = ev" "e_orgId e = org"
        using c(2) by (auto simp: asset_counts_for_def)
      from event_getById_SomeD [OF insert(1)] keys e have "event = e" by (metis distinct_map inj_onD)
      with e(3) have "e_orgId event = org" by simp
      with insert(4) used lim True show ?thesis by (intro storage_quota.admitted [where w = w and c = "su_size st"]) simp_all
    next
      case False
      with used lim show ?thesis by (intro storage_quota.kept [OF fits]) simp_all
    qed
  qed (use fits id in \<open>simp_all add: storage_quota.fits_def\<close>)
qed (use fits in \<open>simp_all add: storage_quota.fits_def\<close>)

text \<open>
  C5. No sequence of uploads, one after the other and to whatever events, takes an organization over
  its storage limit.
\<close>

theorem uploads_stay_within_quota:
  assumes "distinct (map e_id (events w))" "\<forall>u \<in> set us. ue_others (fst u) = (\<lambda>v. v)"
    and "getOrgStorageBytes org w \<le> limit_of li_storageBytes org w"
  shows "getOrgStorageBytes org (uploads us w) \<le> limit_of li_storageBytes org (uploads us w)"
  using assms
proof (induction us w rule: uploads.induct)
  case (2 env ev st now us w)
  obtain r w' where run: "uploadAsset env ev st now w = (r, w')" by fastforce
  have id: "ue_others env = (\<lambda>v. v)" using "2.prems"(2) by simp
  have "events w' = events w" by (rule upload_keeps_events [OF run id])
  moreover have "storage_quota.fits org w'"
    using upload_fits [OF run id "2.prems"(1)] "2.prems"(3) by (simp add: storage_quota.fits_def)
  ultimately show ?case
    using 2 run by (simp add: storage_quota.fits_def)
qed simp

theorem uploads_stay_within_quota_witness:
  "getOrgStorageBytes ''o'' (uploads [(wit_env, ''e'', wit_staged, 5)] wit_event_world)
     \<le> limit_of li_storageBytes ''o'' (uploads [(wit_env, ''e'', wit_staged, 5)] wit_event_world)"
  by (rule uploads_stay_within_quota) (simp_all add: wit_event_facts GB_def)

section \<open>The preflight\<close>

lemma map_of_only_value:
  assumes "(k, v) \<in> set xs" "\<And>v'. (k, v') \<in> set xs \<Longrightarrow> v' = v"
  shows "map_of xs k = Some v"
proof (cases "map_of xs k")
  case None
  with assms(1) show ?thesis by (force simp: map_of_eq_None_iff)
next
  case (Some u)
  with assms(2) [OF map_of_SomeD [OF Some]] show ?thesis by simp
qed

lemma existing_find:
  assumes "distinct (live_checksums w)" "c \<in> set cs"
  shows "existingChecksums ev cs w (to_hex c) = map_option a_id (asset_findByChecksum ev c w)"
proof (cases "asset_findByChecksum ev c w")
  case None
  then have "existingChecksums ev cs w (to_hex c) = None"
    unfolding existingChecksums_def asset_findByChecksum_def
    by (auto simp: select_first_None_iff map_of_eq_None_iff to_hex_inject)
  with None show ?thesis by simp
next
  case (Some a)
  let ?rows = "filter (\<lambda>a. a_eventId a = ev \<and> a_checksum a \<in> set cs \<and> a_deletedAt a = None) (assets w)"
  let ?pairs = "rev (map (\<lambda>a. (to_hex (a_checksum a), a_id a)) ?rows)"
  have only: "b = a" if "b \<in> set ?rows" "a_checksum b = c" for b
    using that findByChecksum_unique [OF assms(1), of b] Some by simp
  have "map_of ?pairs (to_hex c) = Some (a_id a)"
  proof (rule map_of_only_value)
    show "(to_hex c, a_id a) \<in> set ?pairs" using findByChecksum_SomeD [OF Some] assms(2) by force
    show "v' = a_id a" if "(to_hex c, v') \<in> set ?pairs" for v'
      using that only by (auto simp: to_hex_inject)
  qed
  with assms(2) have "existingChecksums ev cs w (to_hex c) = Some (a_id a)"
    by (auto simp: existingChecksums_def)
  with Some show ?thesis by simp
qed

text \<open>
  The preflight and the upload agree: a file is rejected in the preflight, naming an asset, exactly
  when uploading content with that checksum now would be answered "duplicate" with that asset.
\<close>

theorem preflight_agrees_with_upload:
  assumes "distinct (live_checksums w)" "event_getById ev w \<noteq> None" "n < length files"
    and "su_checksum st = from_hex (snd (files ! n))" "ue_others env = (\<lambda>v. v)"
  shows "bulkUploadCheck ev files w ! n = (fst (files ! n), reject i)
    \<longleftrightarrow> fst (uploadAsset env ev st now w) = Inr (duplicate i)"
proof -
  have "bulkUploadCheck ev files w ! n = (fst (files ! n), reject i)
      \<longleftrightarrow> map_option a_id (asset_findByChecksum ev (su_checksum st) w) = Some i"
    using assms(3,4) by (simp add: bulkUploadCheck_def Let_def existing_find [OF assms(1)] split: option.splits)
  also have "\<dots> \<longleftrightarrow> fst (uploadAsset env ev st now w) = Inr (duplicate i)"
  proof (cases "asset_findByChecksum ev (su_checksum st) w")
    case None
    obtain r w' where run: "uploadAsset env ev st now w = (r, w')" by fastforce
    then have "r \<noteq> Inr (duplicate i)"
    proof (cases rule: uploadAsset_cases)
      case (insert event row)
      then have c: "a_checksum row = su_checksum st" "a_eventId row = ev" by simp_all
      from insert(5) c(1) show ?thesis
        by (cases rule: upload_insert_cases) (use None c assms(5) in auto)
    qed (use None in auto)
    with None run show ?thesis by simp
  next
    case (Some a)
    with assms(2) show ?thesis by (auto simp: upload_known)
  qed
  finally show ?thesis .
qed

theorem preflight_agrees_with_upload_witness:
  "bulkUploadCheck ''e'' [(''f1'', ''0AFF'')] wit_event_world ! 0 \<noteq> (''f1'', reject ''a1'')"
proof -
  have "su_checksum wit_staged = from_hex (snd ([(''f1'', ''0AFF'')] ! 0))"
    by (simp add: wit_staged_def hex_digit_def)
  from preflight_agrees_with_upload [of wit_event_world "''e''" 0, OF _ _ _ this, of wit_env "''a1''" 5]
  show ?thesis by (simp add: wit_event_facts wit_upload)
qed

end
