(* ===== verification/OrgReports.thy ===== *)
theory OrgReports
  imports Organization Upload
begin

text \<open>
  Properties of the organization service beyond ownership and plans: the slug check and its gap, the
  super admin's password reset as a round trip with \<^verbatim>\<open>auth.service\<close>, the usage figures of the
  three pages that show them, and the notification bell; with the witnesses of both theories.
\<close>

section \<open>Slugs\<close>

text \<open>
  The slug check looks at live organizations only while the database's constraint covers deleted
  ones: creating an organization with the slug of a deleted one, for an owner without an account,
  passes the check, creates the owner's account and then fails with a server error.
\<close>

theorem slug_of_deleted_org_fails_late:
  assumes "org_getBySlug (co_slug dto) w = None" "d \<in> set (organizations w)" "o_slug d = co_slug dto"
    and "user_getByEmail (co_ownerEmail dto) w = None" "co_ownerPassword dto = Some p" "p \<noteq> []"
    and "\<forall>u \<in> set (users w). \<not> citext_eq (u_email u) (co_ownerEmail dto)"
  shows "fst (createOrg cr newUserId newOrgId dto createdBy now w) = Inl (ServerError ''organization_slug_key'')
    \<and> organizations (snd (createOrg cr newUserId newOrgId dto createdBy now w)) = organizations w
    \<and> (\<exists>u. u_id u = newUserId \<and> u_email u = co_ownerEmail dto \<and>
          users (snd (createOrg cr newUserId newOrgId dto createdBy now w)) = users w @ [u])"
  using assms by (auto simp: createOrg_def resolveUser_def truthy_def user_create_def org_create_def)

definition wit_new_org :: "string \<Rightarrow> CreateOrgDto" where
  "wit_new_org slug = \<lparr>co_name = ''New'', co_slug = slug, co_ownerEmail = ''a@b'', co_ownerName = ''A'', co_ownerPassword = Some ''secret12''\<rparr>"

theorem slug_of_deleted_org_fails_late_witness:
  "fst (createOrg wit_crypto ''u'' ''o2'' (wit_new_org ''org'') ''root'' 5
     (empty_world\<lparr>organizations := [wit_org\<lparr>o_deletedAt := Some 1\<rparr>]\<rparr>)) = Inl (ServerError ''organization_slug_key'')"
  using slug_of_deleted_org_fails_late [of "wit_new_org ''org''" "empty_world\<lparr>organizations := [wit_org\<lparr>o_deletedAt := Some 1\<rparr>]\<rparr>"
      "wit_org\<lparr>o_deletedAt := Some 1\<rparr>" "''secret12''" wit_crypto "''u''" "''o2''" "''root''" 5]
  by (simp add: wit_new_org_def org_getBySlug_def user_getByEmail_def wit_org_def empty_world_def)

section \<open>Resetting a member's password\<close>

text \<open>The account after its password, sessions and links are gone, and the new link's row.\<close>

definition locked :: "crypto \<Rightarrow> reset_env \<Rightarrow> uuid \<Rightarrow> ms \<Rightarrow> world \<Rightarrow> world" where
  "locked cr env userId now w =
    reset_invalidateForUser userId now
      (snd (session_deleteForUser userId None (user_setPassword userId (cr_hashBcrypt cr (re_password env)) now w)))"

definition link_row :: "crypto \<Rightarrow> reset_env \<Rightarrow> uuid \<Rightarrow> uuid \<Rightarrow> ms \<Rightarrow> reset_row" where
  "link_row cr env userId actorId now = \<lparr>rt_id = re_tokenId env, rt_userId = userId, rt_token = cr_sha256 cr (re_token env),
      rt_expiresAt = now + PASSWORD_RESET_TTL_MS, rt_usedAt = None, rt_createdBy = Some actorId\<rparr>"

lemma ball_update_where: "(\<forall>r \<in> set (update_where p f rs). P r) \<longleftrightarrow> (\<forall>r \<in> set rs. P (if p r then f r else r))"
  unfolding set_update_where by blast

lemma locked_tables:
  "users (locked cr env userId now w) = users (user_setPassword userId (cr_hashBcrypt cr (re_password env)) now w)"
  "\<forall>t \<in> set (passwordResetTokens (locked cr env userId now w)). rt_userId t = userId \<longrightarrow> rt_usedAt t \<noteq> None"
  "\<forall>s \<in> set (sessions (locked cr env userId now w)). s_userId s \<noteq> userId"
    apply (simp add: locked_def reset_invalidateForUser_def session_deleteForUser_def Let_def)
   apply (simp add: locked_def reset_invalidateForUser_def ball_update_where)
  apply (simp add: locked_def reset_invalidateForUser_def session_deleteForUser_def Let_def)
  done

lemma resetMemberPassword_ok:
  assumes "resetMemberPassword cr env org userId actorId now w = (Inr (to, token), w')"
  obtains u where "user_getById userId w = Some u" "to = u_email u" "token = re_token env"
    "\<forall>x \<in> set (passwordResetTokens (locked cr env userId now w)). rt_token x \<noteq> cr_sha256 cr (re_token env)"
    "passwordResetTokens w' = passwordResetTokens (locked cr env userId now w) @ [link_row cr env userId actorId now]"
    "sessions w' = sessions (locked cr env userId now w)" "users w' = users (locked cr env userId now w)"
proof -
  from assms obtain m u where m: "org_getMembership org userId w = Some m" and u: "user_getById userId w = Some u"
    by (auto simp: resetMemberPassword_def split: option.splits)
  from user_getById_SomeD [OF u] have id: "u_id u = userId" by simp
  let ?l = "locked cr env userId now w"
  have run: "resetMemberPassword cr env org userId actorId now w =
      (case reset_create (link_row cr env userId actorId now) ?l of
         Inl e \<Rightarrow> (Inl e, ?l)
       | Inr w4 \<Rightarrow>
           if \<not> re_mail_ok env then (Inl (ServerError ''mail''), w4)
           else (Inr (u_email u, re_token env),
                 record_audit True
                   (mk_entry AuditCategory_Auth ''password.reset.admin'' (Some AuditLevel_Warning) (Some org) (Some actorId)) now w4))"
    using m u unfolding locked_def link_row_def by (simp add: resetMemberPassword_def Let_def id)
  have fresh: "\<forall>x \<in> set (passwordResetTokens ?l). rt_token x \<noteq> rt_token (link_row cr env userId actorId now)"
    using assms unfolding run reset_create_def by (auto split: if_splits)
  then have "reset_create (link_row cr env userId actorId now) ?l
      = Inr (?l\<lparr>passwordResetTokens := passwordResetTokens ?l @ [link_row cr env userId actorId now]\<rparr>)"
    by (auto simp: reset_create_def)
  with assms fresh u show thesis unfolding run
    by (intro that) (auto simp: record_audit_def audit_create_def link_row_def split: if_splits)
qed

text \<open>
  The super admin's reset takes the account back and hands it to the mailbox: it ends every session
  of the account and leaves no earlier link redeemable; the mailed link, within its day, sets the new
  password and issues no session; and then the new password logs in.
\<close>

theorem reset_mail_round_trip:
  assumes run: "resetMemberPassword cr env org userId actorId now w = (Inr (to, token), w')"
    and time: "now \<le> later" "later < now + 24 * 60 * 60 * 1000"
    and keys: "distinct (map u_id (users w))"
    and hash: "cr_compareBcrypt cr new (cr_hashBcrypt cr new)"
  shows "(\<forall>s \<in> set (sessions w'). s_userId s \<noteq> userId)
    \<and> (\<forall>t \<in> set (passwordResetTokens w'). rt_userId t = userId \<and> rt_usedAt t = None \<longrightarrow> rt_token t = cr_sha256 cr token)
    \<and> fst (resetPassword cr token new later w') = Inr ()
    \<and> (\<exists>u. u_email u = to \<and> user_getById userId w = Some u)
    \<and> (user_getByEmail to w = user_getById userId w \<longrightarrow>
        is_ok (fst (login cr senv to new details later (snd (resetPassword cr token new later w')))))"
proof -
  define row where "row = link_row cr env userId actorId now"
  define h where "h = cr_hashBcrypt cr (re_password env)"
  from run obtain u where u: "user_getById userId w = Some u" and mail: "to = u_email u" "token = re_token env"
    and fresh: "\<forall>x \<in> set (passwordResetTokens (locked cr env userId now w)). rt_token x \<noteq> cr_sha256 cr (re_token env)"
    and tables: "passwordResetTokens w' = passwordResetTokens (locked cr env userId now w) @ [row]"
      "sessions w' = sessions (locked cr env userId now w)" "users w' = users (user_setPassword userId h now w)"
    unfolding row_def h_def locked_tables(1) [symmetric] by (rule resetMemberPassword_ok)
  from user_getById_SomeD [OF u] have id: "u_id u = userId" by simp
  have "reset_redeemable (cr_sha256 cr token) later row"
    using time by (simp add: reset_redeemable_def row_def link_row_def mail PASSWORD_RESET_TTL_MS_def)
  moreover have "select_first (reset_redeemable (cr_sha256 cr token) later)
      (passwordResetTokens (locked cr env userId now w)) = None"
    using fresh by (auto simp: select_first_None_iff reset_redeemable_def mail)
  ultimately have redeem: "fst (reset_redeem (cr_sha256 cr token) later w') = Some (row\<lparr>rt_usedAt := Some later\<rparr>)"
    by (simp add: reset_redeem_def tables select_first_append)
  have self: "user_getById userId w' = Some (u\<lparr>u_password := h, u_updatedAt := now\<rparr>)"
    using u by (simp add: user_getById_def tables user_setPassword_def select_first_update_where id [symmetric])
  then have user: "user_getById userId (snd (reset_redeem (cr_sha256 cr token) later w')) = Some (u\<lparr>u_password := h, u_updatedAt := now\<rparr>)"
    by (simp add: reset_redeem_def user_getById_def)
  have reset: "resetPassword cr token new later w' =
      (Inr (), snd (session_deleteForUser userId None
         (user_setPassword userId (cr_hashBcrypt cr new) later (snd (reset_redeem (cr_sha256 cr token) later w')))))"
    using redeem user by (auto simp: resetPassword_def row_def link_row_def id Let_def split: prod.splits)
  have log: "is_ok (fst (login cr senv to new details later (snd (resetPassword cr token new later w'))))"
    if "user_getByEmail to w = user_getById userId w"
  proof (rule login_after_setPassword [where u = "u\<lparr>u_password := h, u_updatedAt := now\<rparr>" and w = w', OF _ _ hash])
    show "user_getByEmail to w' = Some (u\<lparr>u_password := h, u_updatedAt := now\<rparr>)"
      using that u by (simp add: user_getByEmail_def tables user_setPassword_def select_first_update_where id [symmetric])
    show "users (snd (resetPassword cr token new later w'))
        = users (user_setPassword (u_id (u\<lparr>u_password := h, u_updatedAt := now\<rparr>)) (cr_hashBcrypt cr new) later w')"
      by (simp add: reset session_deleteForUser_def Let_def user_setPassword_def reset_redeem_def id)
  qed
  have "\<forall>t \<in> set (passwordResetTokens w'). rt_userId t = userId \<and> rt_usedAt t = None \<longrightarrow> rt_token t = cr_sha256 cr token"
    using locked_tables(2) [of cr env userId now w] by (auto simp: tables row_def link_row_def mail)
  moreover have "\<forall>s \<in> set (sessions w'). s_userId s \<noteq> userId"
    using locked_tables(3) [of cr env userId now w] by (simp add: tables)
  ultimately show ?thesis using reset log u mail by simp
qed

section \<open>Usage figures\<close>

lemma sum_list_sort_key: "sum_list (map f (sort_key k xs)) = (sum_list (map f xs) :: int)"
  by (metis mset_map mset_sort sum_mset_sum_list)

lemma sum_filter_disjoint:
  "(\<And>x. x \<in> set xs \<Longrightarrow> \<not> (p x \<and> q x)) \<Longrightarrow>
    sum_list (map g (filter (\<lambda>x. p x \<or> q x) xs)) = sum_list (map g (filter p xs)) + (sum_list (map g (filter q xs)) :: int)"
  by (induction xs) auto

lemma sum_by_key:
  "distinct ids \<Longrightarrow>
    sum_list (map (\<lambda>i. sum_list (map g (filter (\<lambda>a. k a = i \<and> p a) xs))) ids)
      = (sum_list (map g (filter (\<lambda>a. k a \<in> set ids \<and> p a) xs)) :: int)"
proof (induction ids)
  case (Cons i ids)
  have "filter (\<lambda>a. k a \<in> set (i # ids) \<and> p a) xs = filter (\<lambda>a. (k a = i \<and> p a) \<or> (k a \<in> set ids \<and> p a)) xs"
    by (rule filter_cong) auto
  moreover have "sum_list (map g (filter (\<lambda>a. (k a = i \<and> p a) \<or> (k a \<in> set ids \<and> p a)) xs))
      = sum_list (map g (filter (\<lambda>a. k a = i \<and> p a) xs)) + sum_list (map g (filter (\<lambda>a. k a \<in> set ids \<and> p a) xs))"
    using Cons.prems by (intro sum_filter_disjoint) auto
  ultimately show ?case using Cons by simp
qed simp

lemma counted_by_event:
  assumes "distinct (map e_id (events w))"
  shows "filter (asset_counts_for org w) (assets w) =
    filter (\<lambda>a. a_eventId a \<in> set (map e_id (event_listByOrg org w)) \<and> a_deletedAt a = None) (assets w)"
  by (rule filter_cong) (force simp: asset_counts_for_def event_listByOrg_def)+

lemma listByOrg_distinct: "distinct (map e_id (events w)) \<Longrightarrow> distinct (map e_id (event_listByOrg org w))"
  by (simp add: event_listByOrg_def distinct_map inj_on_def)

lemma length_by_type:
  "int (length (filter (\<lambda>a. a_type a = AssetType_Image) as)) + int (length (filter (\<lambda>a. a_type a = AssetType_Video) as))
     = int (length as)"
  by (induction as) (auto, metis AssetType.exhaust)

text \<open>
  Every page shows the same figures: the totals of the usage page are the bytes the quota is enforced
  against, the number of live assets and the number of events; and each row of the super admin's
  table carries the status the organization itself is shown.
\<close>

theorem usage_pages_agree:
  assumes "distinct (map e_id (events w))"
  shows "ug_totalBytes (getUsage org w) = getOrgStorageBytes org w
    \<and> (ug_totalBytes (getUsage org w), ug_totalPhotos (getUsage org w) + ug_totalVideos (getUsage org w))
        = map_prod id int (getOrgStorage org w)
    \<and> int (ug_totalEvents (getUsage org w)) = event_countForOrg org w
    \<and> (\<forall>s \<in> set (listWithUsage w). org_getById (o_id (os_org s)) w = Some (os_org s) \<longrightarrow>
        getStatus (o_id (os_org s)) w = Inr \<lparr>qs_plan = o_plan (os_org s), qs_usedBytes = os_usedBytes s,
          qs_limitBytes = os_limitBytes s, qs_remainingBytes = os_remainingBytes s, qs_usedEvents = os_usedEvents s,
          qs_limitEvents = os_limitEvents s, qs_remainingEvents = os_remainingEvents s, qs_hasCustomLimits = os_hasCustomLimits s\<rparr>)"
proof (intro conjI)
  let ?es = "event_listByOrg org w"
  have ids: "distinct (map e_id ?es)" by (rule listByOrg_distinct [OF assms])
  have by_event: "sum_list (map (\<lambda>e. sum_list (map g (live_assets_of (e_id e) w))) ?es)
      = (sum_list (map g (filter (asset_counts_for org w) (assets w))) :: int)" for g
    using sum_by_key [OF ids, of g a_eventId "\<lambda>a. a_deletedAt a = None" "assets w"]
    by (simp add: live_assets_of_def counted_by_event [OF assms] comp_def)
  show bytes: "ug_totalBytes (getUsage org w) = getOrgStorageBytes org w"
    using by_event [of a_fileSize] by (simp add: getUsage_def getOrgUsageByEvent_def Let_def getOrgStorageBytes_def comp_def)
  have "ug_totalPhotos (getUsage org w) + ug_totalVideos (getUsage org w)
      = sum_list (map (\<lambda>e. int (length (live_assets_of (e_id e) w))) ?es)"
    by (simp add: getUsage_def getOrgUsageByEvent_def Let_def comp_def sum_list_addf [symmetric] length_by_type)
  also have "\<dots> = int (length (filter (asset_counts_for org w) (assets w)))"
    using by_event [of "\<lambda>_. 1"] by (simp add: sum_list_triv)
  finally show "(ug_totalBytes (getUsage org w), ug_totalPhotos (getUsage org w) + ug_totalVideos (getUsage org w))
        = map_prod id int (getOrgStorage org w)"
    using bytes by (simp add: getOrgStorage_def getOrgStorageBytes_def Let_def)
  show "int (ug_totalEvents (getUsage org w)) = event_countForOrg org w"
    by (simp add: getUsage_def getOrgUsageByEvent_def Let_def event_countForOrg_def event_listByOrg_def)
  show "\<forall>s \<in> set (listWithUsage w). org_getById (o_id (os_org s)) w = Some (os_org s) \<longrightarrow>
        getStatus (o_id (os_org s)) w = Inr \<lparr>qs_plan = o_plan (os_org s), qs_usedBytes = os_usedBytes s,
          qs_limitBytes = os_limitBytes s, qs_remainingBytes = os_remainingBytes s, qs_usedEvents = os_usedEvents s,
          qs_limitEvents = os_limitEvents s, qs_remainingEvents = os_remainingEvents s, qs_hasCustomLimits = os_hasCustomLimits s\<rparr>"
    by (auto simp: listWithUsage_def org_summary_def getStatus_def Let_def)
qed

section \<open>The notification bell\<close>

lemma length_filter_perm: "mset xs = mset ys \<Longrightarrow> length (filter p xs) = length (filter p ys)"
  by (metis mset_filter size_mset)

text \<open>
  The bell lists warnings above notices and newest first within each, and counts as unread exactly
  the organization's live events that have expired and still hold their media.
\<close>

theorem notifications_most_urgent_first:
  "\<exists>warnings notices. fst (getNotifications org now w) = warnings @ notices
    \<and> list_all on_warning warnings \<and> list_all (\<lambda>n. \<not> on_warning n) notices
    \<and> sorted_wrt (\<lambda>a b. on_at b \<le> on_at a) warnings \<and> sorted_wrt (\<lambda>a b. on_at b \<le> on_at a) notices
    \<and> snd (getNotifications org now w) = length (filter
        (\<lambda>e. e_orgId e = org \<and> e_deletedAt e = None \<and> e_purgedAt e = None \<and> e_expiresAt e \<noteq> None \<and> or_default (e_expiresAt e) 0 \<le> now)
        (events w))"
proof -
  let ?all = "concat (map (notice_of now) (listForSidebar org w))"
  let ?ys = "sort_key (\<lambda>n. - on_at n) ?all"
  let ?due = "\<lambda>e. e_purgedAt e = None \<and> e_expiresAt e \<noteq> None \<and> or_default (e_expiresAt e) 0 \<le> now"
  have items: "fst (getNotifications org now w) = filter on_warning ?ys @ filter (\<lambda>n. \<not> on_warning n) ?ys"
    by (simp add: getNotifications_def Let_def sort_two_levels)
  have one: "length (filter on_warning (notice_of now e)) = (if ?due e then 1 else 0)" for e
    by (auto simp: notice_of_def on_warning_def Let_def split: option.splits)
  have "length (filter on_warning (concat (map (notice_of now) es))) = length (filter ?due es)" for es
    by (induction es) (auto simp: one)
  moreover have "snd (getNotifications org now w) = length (filter on_warning ?all)"
    by (simp add: getNotifications_def Let_def sort_two_levels filter_sort)
  moreover have "mset (listForSidebar org w) = mset (filter (\<lambda>e. e_orgId e = org \<and> e_deletedAt e = None) (events w))"
    by (simp add: listForSidebar_def event_listByOrg_def Let_def multiset_partition [symmetric])
  then have "length (filter ?due (listForSidebar org w)) = length (filter ?due (filter (\<lambda>e. e_orgId e = org \<and> e_deletedAt e = None) (events w)))"
    by (rule length_filter_perm)
  then have "length (filter ?due (listForSidebar org w))
      = length (filter (\<lambda>e. e_orgId e = org \<and> e_deletedAt e = None \<and> ?due e) (events w))"
    by (simp only: filter_filter conj_assoc)
  ultimately have "snd (getNotifications org now w)
      = length (filter (\<lambda>e. e_orgId e = org \<and> e_deletedAt e = None \<and> ?due e) (events w))" by (simp only:)
  moreover have "list_all on_warning (filter on_warning ?ys)" "list_all (\<lambda>n. \<not> on_warning n) (filter (\<lambda>n. \<not> on_warning n) ?ys)"
    by (simp_all add: list_all_iff)
  ultimately show ?thesis
    using items newest_first [of on_at on_warning ?all] newest_first [of on_at "\<lambda>n. \<not> on_warning n" ?all] by blast
qed

section \<open>Witnesses\<close>

theorem usage_pages_agree_witness:
  "ug_totalBytes (getUsage ''o'' wit_event_world) = getOrgStorageBytes ''o'' wit_event_world"
  using usage_pages_agree [of wit_event_world "''o''"] by (simp add: wit_event_facts)

definition wit_member_world :: world where
  "wit_member_world = wit_auth_world\<lparr>organizations := [wit_org]\<rparr>"

lemma wit_live_owner: "live_owner ''o'' wit_member_world j \<longleftrightarrow> j = ''u''"
  by (auto simp: live_owner_def live_user_def wit_member_world_def wit_auth_defs)

lemma wit_account_keys: "account_keys wit_member_world"
  by (simp add: account_keys_def wit_member_world_def wit_auth_defs)

theorem last_owner_is_kept_witness:
  "\<exists>j. live_owner ''o'' (snd (removeMember ''o'' ''u'' wit_member_world)) j"
  using last_owner_is_kept [OF wit_account_keys, of "''o''" "''u''" "''o''" "''u''" OrgRole_Member 5] wit_live_owner by simp

theorem adding_the_last_owner_demotes_them_witness:
  "\<not> (\<exists>j. live_owner ''o'' (snd (addMember wit_crypto ''x'' ''o''
     \<lparr>am_email = ''a@b'', am_name = None, am_password = None, am_role = OrgRole_Member\<rparr> 5 wit_member_world)) j)"
proof -
  have "citext_eq ''a@b'' ''a@b''" by (simp add: citext_eq_def)
  then have "user_getByEmail ''a@b'' wit_member_world = Some wit_user"
    by (simp add: user_getByEmail_def wit_member_world_def wit_auth_defs)
  moreover have "org_get ''o'' wit_member_world = Inr wit_org"
    by (simp add: org_get_def org_getById_def wit_member_world_def wit_org_def)
  ultimately show ?thesis
    using adding_the_last_owner_demotes_them [OF wit_account_keys, of "''o''" wit_org
        "\<lparr>am_email = ''a@b'', am_name = None, am_password = None, am_role = OrgRole_Member\<rparr>" wit_user] wit_live_owner
    by (simp add: wit_user_def)
qed

theorem custom_limits_only_on_enterprise_witness:
  "\<exists>r \<in> set (organizations (org_step (CreateOrg wit_crypto ''u'' ''o2'' (wit_new_org ''new'') ''root'') 5 empty_world)).
     li_events (limitsFor r) = 1"
proof -
  let ?w = "org_step (CreateOrg wit_crypto ''u'' ''o2'' (wit_new_org ''new'') ''root'') 5 empty_world"
  have "reachable (\<lambda>w. organizations w = []) (\<lambda>w (op, now) w'. w' = org_step op now w) ?w"
    by (rule reach_step [where s = empty_world and l = "(CreateOrg wit_crypto ''u'' ''o2'' (wit_new_org ''new'') ''root'', 5)"])
      (auto intro: reach_start simp: empty_world_def)
  moreover obtain r where "r \<in> set (organizations ?w)" "o_plan r = OrgPlan_Starter"
    by (simp add: createOrg_def org_getBySlug_def resolveUser_def user_getByEmail_def truthy_def user_create_def
        org_create_def wit_new_org_def empty_world_def Let_def)
  ultimately show ?thesis
    using custom_limits_only_on_enterprise [of ?w r] by (intro bexI [of _ r]) auto
qed

definition wit_reset_env :: reset_env where
  "wit_reset_env = \<lparr>re_tokenId = ''t2'', re_password = ''random'', re_token = ''mailed'', re_mail_ok = True\<rparr>"

theorem reset_mail_round_trip_witness:
  "fst (resetPassword wit_crypto ''mailed'' ''new'' 9
     (snd (resetMemberPassword wit_crypto wit_reset_env ''o'' ''u'' ''root'' 5 wit_member_world))) = Inr ()"
proof -
  have "resetMemberPassword wit_crypto wit_reset_env ''o'' ''u'' ''root'' 5 wit_member_world
      = (Inr (''a@b'', ''mailed''), snd (resetMemberPassword wit_crypto wit_reset_env ''o'' ''u'' ''root'' 5 wit_member_world))"
    by (simp add: resetMemberPassword_def org_getMembership_def user_getById_def wit_member_world_def wit_auth_defs
        reset_create_def reset_invalidateForUser_def session_deleteForUser_def user_setPassword_def wit_reset_env_def Let_def)
  from reset_mail_round_trip [OF this, of 9 "''new''"] show ?thesis
    by (simp add: wit_member_world_def wit_auth_defs)
qed

end
