(* ===== verification/Events.thy ===== *)
theory Events
  imports Upload
begin

text \<open>
  \<^verbatim>\<open>services/event.service.ts\<close> with its DTOs: creating an event under the plan's limit, the
  partial update, the pipeline counters, the manual re-run and the irreversible delete. The fresh
  event id is an argument.
\<close>

section \<open>Requests\<close>

record CreateEventDto =
  ce_name :: string
  ce_slug :: string
  ce_description :: "string option"
  ce_startsAt :: "ms option"
  ce_endsAt :: "ms option"

text \<open>
  \<^verbatim>\<open>optional()\<close> is an option, \<^verbatim>\<open>nullish()\<close> an option of an option: absent, null or a value.
\<close>

record UpdateEventDto =
  ud_name :: "string option"
  ud_slug :: "string option"
  ud_description :: "string option option"
  ud_startsAt :: "ms option option"
  ud_endsAt :: "ms option option"
  ud_expiresAt :: "ms option option"
  ud_status :: "EventStatus option"
  ud_participantPageEnabled :: "bool option"
  ud_participantsSeeAllPhotos :: "bool option"
  ud_participantsCanDownloadAll :: "bool option"
  ud_config :: "EventConfig option"

section \<open>Reading and creating\<close>

definition event_get :: "uuid \<Rightarrow> uuid \<Rightarrow> world \<Rightarrow> event_row outcome" where
  "event_get org ev w =
    (case event_getById ev w of
       None \<Rightarrow> Inl (NotFound ''Event not found'')
     | Some e \<Rightarrow> if e_orgId e \<noteq> org then Inl (NotFound ''Event not found'') else Inr e)"

text \<open>The inserted row: what the service passes, and the column defaults.\<close>

definition new_event :: "uuid \<Rightarrow> uuid \<Rightarrow> CreateEventDto \<Rightarrow> ms \<Rightarrow> event_row" where
  "new_event newId org dto now =
    \<lparr>e_id = newId, e_orgId = org, e_name = ce_name dto, e_slug = ce_slug dto,
     e_description = ce_description dto, e_startsAt = ce_startsAt dto, e_endsAt = ce_endsAt dto,
     e_status = EventStatus_Draft, e_participantPageEnabled = True,
     e_config = \<lparr>ec_matchMaxDistance = None, ec_minScore = None, ec_minFaces = None\<rparr>,
     e_participantsSeeAllPhotos = False, e_participantsCanDownloadAll = False, e_coverAssetId = None,
     e_expiresAt = None, e_expiryNotifiedAt = None, e_expiryAcknowledgedAt = None,
     e_purgeAfter = None, e_purgedAt = None, e_createdAt = now, e_updatedAt = now, e_deletedAt = None\<rparr>"

definition createEvent :: "uuid \<Rightarrow> uuid \<Rightarrow> CreateEventDto \<Rightarrow> ms \<Rightarrow> world \<Rightarrow> event_row outcome \<times> world" where
  "createEvent newId org dto now w =
    (case assertEventAvailable org w of
       Inl err \<Rightarrow> (Inl err, w)
     | Inr _ \<Rightarrow>
        if event_getBySlug (ce_slug dto) w \<noteq> None then (Inl (BadRequest ''Slug already in use''), w)
        else event_create (new_event newId org dto now) w)"

section \<open>Updating\<close>

definition merge_config :: "EventConfig \<Rightarrow> EventConfig \<Rightarrow> EventConfig" where
  "merge_config old new =
    \<lparr>ec_matchMaxDistance = (case ec_matchMaxDistance new of None \<Rightarrow> ec_matchMaxDistance old | Some x \<Rightarrow> Some x),
     ec_minScore = (case ec_minScore new of None \<Rightarrow> ec_minScore old | Some x \<Rightarrow> Some x),
     ec_minFaces = (case ec_minFaces new of None \<Rightarrow> ec_minFaces old | Some x \<Rightarrow> Some x)\<rparr>"

text \<open>\<^verbatim>\<open>SET\<close> of the columns the DTO carries; \<^verbatim>\<open>event\<close> is the row read before.\<close>

definition apply_update :: "UpdateEventDto \<Rightarrow> event_row \<Rightarrow> event_row \<Rightarrow> event_row" where
  "apply_update dto event e =
    e\<lparr>e_name := or_default (ud_name dto) (e_name e),
      e_slug := or_default (ud_slug dto) (e_slug e),
      e_description := or_default (ud_description dto) (e_description e),
      e_startsAt := or_default (ud_startsAt dto) (e_startsAt e),
      e_endsAt := or_default (ud_endsAt dto) (e_endsAt e),
      e_expiresAt := or_default (ud_expiresAt dto) (e_expiresAt e),
      e_status := or_default (ud_status dto) (e_status e),
      e_participantPageEnabled := or_default (ud_participantPageEnabled dto) (e_participantPageEnabled e),
      e_participantsSeeAllPhotos := or_default (ud_participantsSeeAllPhotos dto) (e_participantsSeeAllPhotos e),
      e_participantsCanDownloadAll := or_default (ud_participantsCanDownloadAll dto) (e_participantsCanDownloadAll e),
      e_config := (case ud_config dto of None \<Rightarrow> e_config e | Some c \<Rightarrow> merge_config (e_config event) c)\<rparr>"

definition slug_taken :: "uuid \<Rightarrow> event_row \<Rightarrow> UpdateEventDto \<Rightarrow> world \<Rightarrow> bool" where
  "slug_taken ev event dto w \<longleftrightarrow>
    (case ud_slug dto of
       None \<Rightarrow> False
     | Some s \<Rightarrow> s \<noteq> '''' \<and> s \<noteq> e_slug event \<and>
         (case event_getBySlug s w of None \<Rightarrow> False | Some existing \<Rightarrow> e_id existing \<noteq> ev))"

definition updateEvent ::
  "uuid \<Rightarrow> uuid \<Rightarrow> UpdateEventDto \<Rightarrow> ms \<Rightarrow> world \<Rightarrow> event_row outcome \<times> world" where
  "updateEvent org ev dto now w =
    (case event_get org ev w of
       Inl err \<Rightarrow> (Inl err, w)
     | Inr event \<Rightarrow>
        if slug_taken ev event dto w then (Inl (BadRequest ''Slug already in use''), w)
        else event_update org ev (apply_update dto event) now w)"

text \<open>The sidebar cover is written by the repository without a check of its own.\<close>

definition setCover :: "uuid \<Rightarrow> uuid \<Rightarrow> uuid option \<Rightarrow> world \<Rightarrow> event_row outcome \<times> world" where
  "setCover org ev cover w =
    (let p = (\<lambda>e. e_id e = ev \<and> e_orgId e = org); f = (\<lambda>e. e\<lparr>e_coverAssetId := cover\<rparr>)
     in case select_first p (events w) of
          None \<Rightarrow> (Inl (ServerError ''no result''), w)
        | Some e \<Rightarrow>
            if (case cover of None \<Rightarrow> False | Some a \<Rightarrow> \<forall>x \<in> set (assets w). a_id x \<noteq> a)
            then (Inl (ServerError ''event_cover_asset_id_fkey''), w)
            else (Inr (f e), w\<lparr>events := update_where p f (events w)\<rparr>))"

section \<open>Pipeline counters and re-runs\<close>

record AssetProgress =
  ap_total :: nat
  ap_processed :: nat
  ap_failed :: nat
  ap_pendingMedia :: nat
  ap_images :: nat
  ap_facesDetected :: nat
  ap_pendingDetection :: nat
  ap_withFaces :: nat
  ap_withoutFaces :: nat

record FaceProgress =
  fp_total :: nat
  fp_assigned :: nat
  fp_unassigned :: nat
  fp_people :: nat

definition live_of :: "uuid \<Rightarrow> world \<Rightarrow> asset_row list" where
  "live_of ev w = filter (\<lambda>a. a_eventId a = ev \<and> a_deletedAt a = None) (assets w)"

definition count_where :: "('a \<Rightarrow> bool) \<Rightarrow> 'a list \<Rightarrow> nat" where
  "count_where p xs = length (filter p xs)"

definition asset_progress :: "uuid \<Rightarrow> world \<Rightarrow> AssetProgress" where
  "asset_progress ev w =
    (let rows = live_of ev w
     in \<lparr>ap_total = length rows,
         ap_processed = count_where (\<lambda>a. a_status a = AssetStatus_Processed) rows,
         ap_failed = count_where (\<lambda>a. a_status a = AssetStatus_Failed) rows,
         ap_pendingMedia = count_where (\<lambda>a. a_status a \<notin> {AssetStatus_Processed, AssetStatus_Failed}) rows,
         ap_images = count_where (\<lambda>a. a_type a = AssetType_Image) rows,
         ap_facesDetected = sum_list (map a_faceCount (filter (\<lambda>a. a_facesDetectedAt a \<noteq> None) rows)),
         ap_pendingDetection = count_where (\<lambda>a. a_type a = AssetType_Image \<and> a_facesDetectedAt a = None
                                               \<and> a_status a \<noteq> AssetStatus_Failed) rows,
         ap_withFaces = count_where (\<lambda>a. a_facesDetectedAt a \<noteq> None \<and> 0 < a_faceCount a) rows,
         ap_withoutFaces = count_where (\<lambda>a. a_facesDetectedAt a \<noteq> None \<and> a_faceCount a = 0) rows\<rparr>)"

text \<open>The join of the live faces with the live assets of the event.\<close>

definition live_faces_of :: "uuid \<Rightarrow> world \<Rightarrow> face_row list" where
  "live_faces_of ev w =
    concat (map (\<lambda>a. filter (\<lambda>f. f_assetId f = a_id a \<and> f_deletedAt f = None) (assetFaces w)) (live_of ev w))"

definition face_progress :: "uuid \<Rightarrow> world \<Rightarrow> FaceProgress" where
  "face_progress ev w =
    (let faces = live_faces_of ev w
     in \<lparr>fp_total = length faces,
         fp_assigned = count_where (\<lambda>f. f_personId f \<noteq> None) faces,
         fp_unassigned = count_where (\<lambda>f. f_personId f = None) faces,
         fp_people = count_where (\<lambda>p. p_eventId p = ev) (persons w)\<rparr>)"

definition getProcessingStatus :: "uuid \<Rightarrow> world \<Rightarrow> AssetProgress \<times> FaceProgress" where
  "getProcessingStatus ev w = (asset_progress ev w, face_progress ev w)"

definition reprocessFaces :: "uuid \<Rightarrow> bool \<Rightarrow> world \<Rightarrow> nat \<times> world" where
  "reprocessFaces ev force w =
    (let rows = filter (\<lambda>a. a_type a = AssetType_Image \<and> a_status a = AssetStatus_Processed
                          \<and> (force \<or> a_facesDetectedAt a = None)) (live_of ev w);
         w1 = queueAll (map (\<lambda>a. FaceDetect (a_id a)) rows) w;
         w2 = queue (FaceRecognizeQueueAll ev force) w1;
         w3 = queue (SmartSearchQueueAll ev force) w2
     in (length rows, w3))"

section \<open>Deleting\<close>

definition removeEvent :: "uuid \<Rightarrow> uuid \<Rightarrow> string \<Rightarrow> ms \<Rightarrow> world \<Rightarrow> unit outcome \<times> world" where
  "removeEvent org ev confirmation now w =
    (case event_get org ev w of
       Inl err \<Rightarrow> (Inl err, w)
     | Inr event \<Rightarrow>
        if confirmation \<noteq> e_slug event then (Inl (BadRequest ''Type the slug to confirm deletion''), w)
        else let w1 = queue (CleanupPrefix (eventPrefix org ev)) w;
                 w2 = event_hardDelete org ev w1
             in (Inr (), record_audit True
                   (mk_entry AuditCategory_Event ''event.delete'' (Some AuditLevel_Warning) (Some org) None) now w2))"

section \<open>Creation under the plan's limit\<close>

lemma event_get_Inr_iff:
  "event_get org ev w = Inr e \<longleftrightarrow> event_getById ev w = Some e \<and> e_orgId e = org"
  by (auto simp: event_get_def split: option.splits if_splits)

lemma event_countForOrg_append:
  "event_countForOrg org (w\<lparr>events := events w @ [e]\<rparr>) =
    event_countForOrg org w + (if e_orgId e = org \<and> e_deletedAt e = None then 1 else 0)"
  by (simp add: event_countForOrg_def)

lemma limit_of_events [simp]: "limit_of f org (w\<lparr>events := es\<rparr>) = limit_of f org w"
  by (simp add: limit_of_def org_getById_def)

lemma assertEventAvailable_iff:
  "is_ok (assertEventAvailable org w) \<longleftrightarrow>
     org_getById org w \<noteq> None \<and> event_countForOrg org w < limit_of li_events org w"
  using event_quota.guard_ok [of org w] by auto

lemma createEvent_cases:
  assumes "createEvent newId org dto now w = (r, w')"
  obtains (made) "is_ok (assertEventAvailable org w)" "\<forall>e \<in> set (events w). e_slug e \<noteq> ce_slug dto"
      "r = Inr (new_event newId org dto now)" "w' = w\<lparr>events := events w @ [new_event newId org dto now]\<rparr>"
  | (refused) err where "r = Inl err" "w' = w"
      "\<not> is_ok (assertEventAvailable org w) \<or> (\<exists>e \<in> set (events w). e_slug e = ce_slug dto)"
proof (cases "assertEventAvailable org w")
  case (Inl err)
  show thesis by (rule refused [of err]) (use assms Inl in \<open>simp_all add: createEvent_def\<close>)
next
  case (Inr u)
  have slug: "e_slug (new_event newId org dto now) = ce_slug dto" by (simp add: new_event_def)
  show thesis
  proof (cases "\<exists>e \<in> set (events w). e_slug e = ce_slug dto")
    case True
    then obtain err where "r = Inl err" "w' = w"
      using assms Inr slug
      by (cases "event_getBySlug (ce_slug dto) w = None") (auto simp: createEvent_def event_create_def)
    then show thesis using True refused by blast
  next
    case False
    then have "event_getBySlug (ce_slug dto) w = None"
      by (auto simp: event_getBySlug_def select_first_None_iff)
    then show thesis
      by (intro made) (use assms Inr False slug in \<open>auto simp: createEvent_def event_create_def\<close>)
  qed
qed

text \<open>
  An event is created exactly when its organization exists and has a slot left and no event,
  deleted ones included, has the slug; then it takes one slot and the organization is still within
  its limit. A refused request changes nothing.
\<close>

theorem event_creation_respects_plan:
  assumes "createEvent newId org dto now w = (r, w')"
  shows "(is_ok r \<longleftrightarrow> org_getById org w \<noteq> None \<and> event_countForOrg org w < limit_of li_events org w
            \<and> (\<forall>e \<in> set (events w). e_slug e \<noteq> ce_slug dto))
    \<and> (is_ok r \<longrightarrow> event_countForOrg org w' = event_countForOrg org w + 1
            \<and> event_countForOrg org w' \<le> limit_of li_events org w'
            \<and> event_getBySlug (ce_slug dto) w' = Some (new_event newId org dto now))
    \<and> (\<not> is_ok r \<longrightarrow> w' = w)"
  using assms
proof (cases rule: createEvent_cases)
  case made
  have "event_getBySlug (ce_slug dto) w' = Some (new_event newId org dto now)"
    using made(2,4) by (auto simp: event_getBySlug_def select_first_append select_first_None_iff
        new_event_def split: option.splits dest: select_first_SomeD)
  with made show ?thesis
    by (simp add: assertEventAvailable_iff event_countForOrg_append new_event_def)
next
  case (refused err)
  then show ?thesis by (auto simp: assertEventAvailable_iff)
qed

definition wit_create_dto :: CreateEventDto where
  "wit_create_dto = \<lparr>ce_name = ''Gala'', ce_slug = ''gala'', ce_description = None,
     ce_startsAt = None, ce_endsAt = None\<rparr>"

theorem event_creation_respects_plan_witness:
  "is_ok (fst (createEvent ''e2'' ''o'' wit_create_dto 7 wit_org_world)) \<and>
   \<not> is_ok (fst (createEvent ''e2'' ''o'' wit_create_dto 7 wit_event_world))"
proof -
  have a: "org_getById ''o'' wit_org_world \<noteq> None" "event_countForOrg ''o'' wit_org_world = 0"
    "limit_of li_events ''o'' wit_org_world = 1" "events wit_org_world = []"
    by (simp_all add: wit_org_defs org_getById_def event_countForOrg_def limit_of_def limitsFor_def Let_def)
  have b: "event_countForOrg ''o'' wit_event_world = 1" "limit_of li_events ''o'' wit_event_world = 1"
    using a by (simp_all add: wit_event_world_def event_countForOrg_def wit_event_def limit_of_def
        org_getById_def)
  have "is_ok (fst (createEvent ''e2'' ''o'' wit_create_dto 7 wit_org_world))"
    using event_creation_respects_plan [OF prod.collapse [symmetric], of "''e2''" "''o''" wit_create_dto 7 wit_org_world] a
    by simp
  moreover have "\<not> is_ok (fst (createEvent ''e2'' ''o'' wit_create_dto 7 wit_event_world))"
    using event_creation_respects_plan [OF prod.collapse [symmetric], of "''e2''" "''o''" wit_create_dto 7 wit_event_world] b
    by simp
  ultimately show ?thesis by simp
qed

section \<open>What a delete removes\<close>

lemma removeEvent_ok:
  assumes "removeEvent org ev conf now w = (r, w')"
  shows "is_ok r \<longleftrightarrow> (\<exists>e. event_getById ev w = Some e \<and> e_orgId e = org \<and> conf = e_slug e)"
    and "\<not> is_ok r \<Longrightarrow> w' = w"
  using assms by (auto simp: removeEvent_def event_get_def Let_def split: option.splits if_splits)

lemma null_if_dead_cong: "set ids = set ids' \<Longrightarrow> null_if_dead ids = null_if_dead ids'"
  by (simp add: fun_eq_iff null_if_dead_def split: option.splits)

lemma event_cascade_cong:
  assumes "set ids = set ids'"
  shows "event_cascade ids w = event_cascade ids' w"
  by (simp only: event_cascade_def assms null_if_dead_cong [OF assms])

lemma removeEvent_world:
  assumes "removeEvent org ev conf now w = (r, w')" "is_ok r"
  shows "w' = record_audit True
    (mk_entry AuditCategory_Event ''event.delete'' (Some AuditLevel_Warning) (Some org) None) now
    (event_cascade [ev] (queue (CleanupPrefix (eventPrefix org ev)) w))"
proof -
  from assms(2) obtain e where e: "event_getById ev w = Some e" "e_orgId e = org" "conf = e_slug e"
    using removeEvent_ok(1) [OF assms(1)] by auto
  then have "set (map e_id (filter (\<lambda>e. e_id e = ev \<and> e_orgId e = org) (events w))) = set [ev]"
    using event_getById_SomeD [OF e(1)] by auto
  from event_cascade_cong [OF this] e assms show ?thesis
    by (auto simp: removeEvent_def event_get_def event_hardDelete_def queueAll_def Let_def)
qed

text \<open>The rows that hang on an event through a foreign key.\<close>

definition hangs_on :: "uuid \<Rightarrow> world \<Rightarrow> world \<Rightarrow> bool" where
  "hangs_on ev w v \<longleftrightarrow>
     (\<exists>e \<in> set (events v). e_id e = ev) \<or> (\<exists>a \<in> set (assets v). a_eventId a = ev) \<or>
     (\<exists>p \<in> set (persons v). p_eventId p = ev) \<or> (\<exists>p \<in> set (participants v). pt_eventId p = ev) \<or>
     (\<exists>j \<in> set (importJobs v). ij_eventId j = ev) \<or>
     (\<exists>t \<in> set (supportTickets v). st_eventId t = Some ev) \<or>
     (\<exists>a \<in> set (assets w). a_eventId a = ev \<and>
        ((\<exists>f \<in> set (assetFiles v). af_assetId f = a_id a) \<or> (\<exists>f \<in> set (assetFaces v). f_assetId f = a_id a) \<or>
         (\<exists>s \<in> set (smartSearches v). ss_assetId s = a_id a) \<or>
         (\<exists>m \<in> set (participantMatches v). m_assetId m = a_id a))) \<or>
     (\<exists>p \<in> set (participants w). pt_eventId p = ev \<and>
        ((\<exists>s \<in> set (participantSelfies v). sf_participantId s = pt_id p) \<or>
         (\<exists>m \<in> set (participantMatches v). m_participantId m = pt_id p)))"

lemma event_cascade_tables:
  "events (event_cascade [ev] w) =
     delete_where (\<lambda>e. e_id e = ev)
       (map (\<lambda>e. e\<lparr>e_coverAssetId := null_if_dead (map a_id (filter (\<lambda>a. a_eventId a = ev) (assets w))) (e_coverAssetId e)\<rparr>)
         (events w))"
  "assets (event_cascade [ev] w) =
     delete_where (\<lambda>a. a_id a \<in> set (map a_id (filter (\<lambda>a. a_eventId a = ev) (assets w)))) (assets w)"
  "participants (event_cascade [ev] w) =
     delete_where (\<lambda>p. pt_id p \<in> set (map pt_id (filter (\<lambda>p. pt_eventId p = ev) (participants w)))) (participants w)"
  "importJobs (event_cascade [ev] w) = delete_where (\<lambda>j. ij_eventId j = ev) (importJobs w)"
  by (simp_all add: event_cascade_def asset_cascade_def participant_cascade_def Let_def)

lemma event_cascade_clears: "\<not> hangs_on ev w (event_cascade [ev] w)"
  by (auto simp: hangs_on_def event_cascade_def asset_cascade_def participant_cascade_def Let_def null_if_dead_def split: option.splits if_splits)



section \<open>Counters and re-runs\<close>

lemma count_where_split: "count_where p xs + count_where (\<lambda>x. \<not> p x) xs = length xs"
  by (simp add: count_where_def sum_length_filter_compl)

lemma count_where_disjoint:
  "(\<And>x. x \<in> set xs \<Longrightarrow> \<not> (p x \<and> q x)) \<Longrightarrow>
     count_where p xs + count_where q xs = count_where (\<lambda>x. p x \<or> q x) xs"
  by (induction xs) (auto simp: count_where_def)

lemma count_where_le: "(\<And>x. x \<in> set xs \<Longrightarrow> p x \<Longrightarrow> q x) \<Longrightarrow> count_where p xs \<le> count_where q xs"
  by (induction xs) (auto simp: count_where_def)

text \<open>
  The pipeline counters add up: every live photo or video of the event is processed, failed or
  pending; a photo awaits detection or has been looked at; every live face is assigned or not; and a
  re-run that is not forced queues one detection job for each processed photo that still awaits
  detection, never more than the status reports as pending, followed by the two event-wide jobs.
\<close>

theorem processing_status_adds_up:
  assumes "getProcessingStatus ev w = (ap, fp)" "reprocessFaces ev False w = (n, w')"
  shows "ap_processed ap + ap_failed ap + ap_pendingMedia ap = ap_total ap
    \<and> ap_withFaces ap + ap_withoutFaces ap + ap_pendingDetection ap \<le> ap_total ap
    \<and> fp_assigned fp + fp_unassigned fp = fp_total fp
    \<and> n \<le> ap_pendingDetection ap
    \<and> queued w' = queued w @ map (\<lambda>a. FaceDetect (a_id a))
          (filter (\<lambda>a. a_type a = AssetType_Image \<and> a_status a = AssetStatus_Processed \<and> a_facesDetectedAt a = None)
             (live_of ev w))
        @ [FaceRecognizeQueueAll ev False, SmartSearchQueueAll ev False]"
proof (intro conjI)
  let ?rows = "live_of ev w" and ?st = "\<lambda>s a. a_status a = s"
  have a: "ap = asset_progress ev w" and f: "fp = face_progress ev w"
    using assms(1) by (simp_all add: getProcessingStatus_def)
  have "count_where (?st AssetStatus_Processed) ?rows + count_where (?st AssetStatus_Failed) ?rows
      = count_where (\<lambda>a. a_status a \<in> {AssetStatus_Processed, AssetStatus_Failed}) ?rows"
    by (subst count_where_disjoint) auto
  then show "ap_processed ap + ap_failed ap + ap_pendingMedia ap = ap_total ap"
    using count_where_split [of "\<lambda>a. a_status a \<in> {AssetStatus_Processed, AssetStatus_Failed}" ?rows]
    by (simp add: a asset_progress_def Let_def)
  have "count_where (\<lambda>a. a_facesDetectedAt a \<noteq> None \<and> 0 < a_faceCount a) ?rows
      + count_where (\<lambda>a. a_facesDetectedAt a \<noteq> None \<and> a_faceCount a = 0) ?rows
      = count_where (\<lambda>a. \<not> a_facesDetectedAt a = None) ?rows"
    by (subst count_where_disjoint) (auto simp: count_where_def intro!: arg_cong [of _ _ length] filter_cong)
  moreover have "count_where (\<lambda>a. a_type a = AssetType_Image \<and> a_facesDetectedAt a = None
      \<and> a_status a \<noteq> AssetStatus_Failed) ?rows \<le> count_where (\<lambda>a. a_facesDetectedAt a = None) ?rows"
    by (rule count_where_le) simp
  ultimately show "ap_withFaces ap + ap_withoutFaces ap + ap_pendingDetection ap \<le> ap_total ap"
    using count_where_split [of "\<lambda>a. a_facesDetectedAt a = None" ?rows]
    by (simp add: a asset_progress_def Let_def)
  show "fp_assigned fp + fp_unassigned fp = fp_total fp"
    using count_where_split [of "\<lambda>f. f_personId f = None" "live_faces_of ev w"]
    by (simp add: f face_progress_def Let_def)
  show "n \<le> ap_pendingDetection ap"
    using assms(2) count_where_le [of ?rows "\<lambda>a. a_type a = AssetType_Image \<and> a_status a = AssetStatus_Processed \<and> a_facesDetectedAt a = None"
        "\<lambda>a. a_type a = AssetType_Image \<and> a_facesDetectedAt a = None \<and> a_status a \<noteq> AssetStatus_Failed"]
    by (auto simp: a asset_progress_def reprocessFaces_def Let_def count_where_def)
qed (use assms(2) in \<open>auto simp: reprocessFaces_def Let_def\<close>)

definition wit_photo :: asset_row where
  "wit_photo = (upload_row wit_env wit_event ''e'' wit_staged 5)\<lparr>a_status := AssetStatus_Processed\<rparr>"

definition wit_photo_world :: world where
  "wit_photo_world = wit_event_world\<lparr>assets := [wit_photo], objects := [a_storageKey wit_photo]\<rparr>"

lemma wit_photo_facts:
  "a_id wit_photo = ''a1''" "a_eventId wit_photo = ''e''" "a_type wit_photo = AssetType_Image"
  "a_status wit_photo = AssetStatus_Processed" "a_deletedAt wit_photo = None" "a_facesDetectedAt wit_photo = None"
  by (simp_all add: wit_photo_def upload_row_def wit_env_def wit_staged_def Let_def)

theorem processing_status_adds_up_witness:
  "1 \<le> ap_pendingDetection (fst (getProcessingStatus ''e'' wit_photo_world))"
proof -
  have "fst (reprocessFaces ''e'' False wit_photo_world) = 1"
    by (simp add: reprocessFaces_def live_of_def wit_photo_world_def wit_photo_facts)
  then show ?thesis
    using processing_status_adds_up [OF prod.collapse [symmetric] prod.collapse [symmetric], of "''e''" wit_photo_world]
    by simp
qed

end
