(* ===== verification/EventExpiry.thy ===== *)
theory EventExpiry
  imports Events Organization
begin

text \<open>
  \<^verbatim>\<open>utils/event-expiry.ts\<close> and \<^verbatim>\<open>services/event-expiry.service.ts\<close>: expiry as a computed
  predicate, the organizer's actions and the two sweeps. \<open>retention_step\<close> puts them together with
  the event service as the transition system the retention promises are about.
\<close>

section \<open>Expiry is computed\<close>

definition isEventExpired :: "event_row \<Rightarrow> ms \<Rightarrow> bool" where
  "isEventExpired e now \<longleftrightarrow> (case e_expiresAt e of None \<Rightarrow> False | Some t \<Rightarrow> t \<le> now)"

definition isEventPurged :: "event_row \<Rightarrow> bool" where
  "isEventPurged e \<longleftrightarrow> e_purgedAt e \<noteq> None"

definition purgeDeadline :: "ms \<Rightarrow> int \<Rightarrow> ms" where
  "purgeDeadline expiresAt graceHours = expiresAt + graceHours * 60 * 60 * 1000"

section \<open>Queries of the sweeps\<close>

definition SWEEP_LIMIT :: nat where
  "SWEEP_LIMIT = 100"

definition newly_expired :: "ms \<Rightarrow> event_row \<Rightarrow> bool" where
  "newly_expired now e \<longleftrightarrow> isEventExpired e now \<and> e_expiryNotifiedAt e = None \<and> e_deletedAt e = None"

definition findNewlyExpired :: "ms \<Rightarrow> world \<Rightarrow> event_row list" where
  "findNewlyExpired now w =
    take SWEEP_LIMIT (sort_key (\<lambda>e. or_default (e_expiresAt e) 0) (filter (newly_expired now) (events w)))"

definition due_for_purge :: "ms \<Rightarrow> event_row \<Rightarrow> bool" where
  "due_for_purge now e \<longleftrightarrow>
     (case e_purgeAfter e of None \<Rightarrow> False | Some t \<Rightarrow> t \<le> now) \<and> e_purgedAt e = None \<and> e_deletedAt e = None
     \<and> (e_expiresAt e = None \<or> isEventExpired e now)"

definition findDueForPurge :: "ms \<Rightarrow> world \<Rightarrow> event_row list" where
  "findDueForPurge now w =
    take SWEEP_LIMIT (sort_key (\<lambda>e. or_default (e_purgeAfter e) 0) (filter (due_for_purge now) (events w)))"

section \<open>Organizer actions\<close>

definition expiry_getEvent :: "uuid \<Rightarrow> uuid \<Rightarrow> world \<Rightarrow> event_row outcome" where
  "expiry_getEvent org ev w =
    (case event_getById ev w of
       None \<Rightarrow> Inl (NotFound ''Event not found'')
     | Some e \<Rightarrow> if e_deletedAt e \<noteq> None \<or> e_orgId e \<noteq> org then Inl (NotFound ''Event not found'') else Inr e)"

definition extend :: "uuid \<Rightarrow> uuid \<Rightarrow> ms option \<Rightarrow> ms \<Rightarrow> world \<Rightarrow> event_row outcome \<times> world" where
  "extend org ev expiresAt now w =
    (case expiry_getEvent org ev w of
       Inl err \<Rightarrow> (Inl err, w)
     | Inr event \<Rightarrow>
        if isEventPurged event then (Inl (BadRequest ''Media already deleted, cannot be extended''), w)
        else if (case expiresAt of None \<Rightarrow> False | Some t \<Rightarrow> t \<le> now)
        then (Inl (BadRequest ''New expiry must be in the future''), w)
        else event_setExpiryState ev
               (\<lambda>e. e\<lparr>e_expiresAt := expiresAt, e_expiryNotifiedAt := None,
                      e_expiryAcknowledgedAt := None, e_purgeAfter := None\<rparr>) w)"

definition acknowledge :: "uuid \<Rightarrow> uuid \<Rightarrow> ms \<Rightarrow> world \<Rightarrow> event_row outcome \<times> world" where
  "acknowledge org ev now w =
    (case expiry_getEvent org ev w of
       Inl err \<Rightarrow> (Inl err, w)
     | Inr event \<Rightarrow>
        if \<not> isEventExpired event now then (Inl (BadRequest ''This event has not expired yet''), w)
        else event_setExpiryState ev (\<lambda>e. e\<lparr>e_expiryAcknowledgedAt := Some now\<rparr>) w)"

definition purge :: "event_row \<Rightarrow> world \<Rightarrow> world" where
  "purge event w = queue (CleanupPrefix (eventPrefix (e_orgId event) (e_id event))) w"

definition purgeNow :: "uuid \<Rightarrow> uuid \<Rightarrow> ms \<Rightarrow> world \<Rightarrow> event_row outcome \<times> world" where
  "purgeNow org ev now w =
    (case expiry_getEvent org ev w of
       Inl err \<Rightarrow> (Inl err, w)
     | Inr event \<Rightarrow>
        if \<not> isEventExpired event now then (Inl (BadRequest ''Set an expiry date in the past first''), w)
        else if isEventPurged event then (Inr event, w)
        else event_setExpiryState ev (\<lambda>e. e\<lparr>e_purgedAt := Some now, e_purgeAfter := None\<rparr>) (purge event w))"

section \<open>The sweeps\<close>

fun expiry_loop :: "ms \<Rightarrow> int \<Rightarrow> event_row list \<Rightarrow> world \<Rightarrow> JobStatus outcome \<times> world" where
  "expiry_loop now grace [] w = (Inr JobStatus_Success, w)"
| "expiry_loop now grace (event # es) w =
    (case event_setExpiryState (e_id event)
            (\<lambda>e. e\<lparr>e_expiryNotifiedAt := Some now,
                   e_purgeAfter := Some (purgeDeadline (or_default (e_expiresAt event) 0) grace)\<rparr>) w of
       (Inl err, w1) \<Rightarrow> (Inl err, w1)
     | (Inr _, w1) \<Rightarrow> expiry_loop now grace es (queue (SendEventExpiry (e_id event)) w1))"

definition handleEventExpirySweep :: "ms \<Rightarrow> world \<Rightarrow> JobStatus outcome \<times> world" where
  "handleEventExpirySweep now w =
    expiry_loop now (er_purgeGraceHours (getEventRetentionConfig w)) (findNewlyExpired now w) w"

text \<open>
  \<open>between\<close> is what organizers do between the query and the iteration for an event; the row is
  read again after it.
\<close>

fun purge_loop :: "(uuid \<Rightarrow> world \<Rightarrow> world) \<Rightarrow> ms \<Rightarrow> event_row list \<Rightarrow> world \<Rightarrow> JobStatus outcome \<times> world" where
  "purge_loop between now [] w = (Inr JobStatus_Success, w)"
| "purge_loop between now (event # es) w =
    (let w0 = between (e_id event) w
     in case event_getById (e_id event) w0 of
          None \<Rightarrow> purge_loop between now es w0
        | Some current \<Rightarrow>
            if isEventPurged current \<or> \<not> isEventExpired current now then purge_loop between now es w0
            else (case event_setExpiryState (e_id current)
                         (\<lambda>e. e\<lparr>e_purgedAt := Some now, e_purgeAfter := None\<rparr>) (purge current w0) of
                    (Inl err, w1) \<Rightarrow> (Inl err, w1)
                  | (Inr _, w1) \<Rightarrow> purge_loop between now es w1))"

definition handleEventPurgeSweep :: "(uuid \<Rightarrow> world \<Rightarrow> world) \<Rightarrow> ms \<Rightarrow> world \<Rightarrow> JobStatus outcome \<times> world" where
  "handleEventPurgeSweep between now w = purge_loop between now (findDueForPurge now w) w"

text \<open>Who the expiry mail goes to.\<close>

definition getOwnerEmails :: "uuid \<Rightarrow> world \<Rightarrow> (string \<times> string) list" where
  "getOwnerEmails org w =
    map (\<lambda>m. (om_email m, om_name m)) (filter (\<lambda>m. om_role m = OrgRole_Owner) (org_listMembers org w))"

section \<open>What the loops write\<close>

definition mark_notified :: "ms \<Rightarrow> int \<Rightarrow> event_row \<Rightarrow> event_row" where
  "mark_notified now grace e =
    e\<lparr>e_expiryNotifiedAt := Some now, e_purgeAfter := Some (purgeDeadline (or_default (e_expiresAt e) 0) grace)\<rparr>"

definition mark_purged :: "ms \<Rightarrow> event_row \<Rightarrow> event_row" where
  "mark_purged now e = e\<lparr>e_purgedAt := Some now, e_purgeAfter := None\<rparr>"

abbreviation unique_events :: "world \<Rightarrow> bool" where
  "unique_events w \<equiv> distinct (map e_id (events w))"

lemma mark_fields [simp]:
  "e_id (mark_notified now g e) = e_id e" "e_expiresAt (mark_notified now g e) = e_expiresAt e"
  "e_purgedAt (mark_notified now g e) = e_purgedAt e" "e_deletedAt (mark_notified now g e) = e_deletedAt e"
  "e_expiryNotifiedAt (mark_notified now g e) = Some now" "e_orgId (mark_notified now g e) = e_orgId e"
  "e_purgeAfter (mark_notified now g e) = Some (purgeDeadline (or_default (e_expiresAt e) 0) g)"
  "e_id (mark_purged now e) = e_id e" "e_expiresAt (mark_purged now e) = e_expiresAt e"
  "e_purgedAt (mark_purged now e) = Some now" "e_deletedAt (mark_purged now e) = e_deletedAt e"
  "e_expiryNotifiedAt (mark_purged now e) = e_expiryNotifiedAt e" "e_purgeAfter (mark_purged now e) = None"
  "e_orgId (mark_purged now e) = e_orgId e"
  by (simp_all add: mark_notified_def mark_purged_def)

lemma mark_purged_idem: "mark_purged now (mark_purged now e) = mark_purged now e"
  by (simp add: mark_purged_def)

interpretation notified_row: row_update e_id "mark_notified now grace" for now grace
  by unfold_locales simp

interpretation purged_row: row_update e_id "mark_purged now" for now
  by unfold_locales simp

lemma row_by_id: "unique_events w \<Longrightarrow> x \<in> set (events w) \<Longrightarrow> y \<in> set (events w) \<Longrightarrow> e_id x = e_id y \<Longrightarrow> x = y"
  by (auto simp: distinct_map inj_on_def)

lemma setExpiryState_hit:
  assumes "\<exists>e \<in> set (events w). e_id e = i"
  obtains r where "event_setExpiryState i f w = (Inr r, w\<lparr>events := update_where (\<lambda>e. e_id e = i) f (events w)\<rparr>)"
  using assms by (cases "select_first (\<lambda>e. e_id e = i) (events w)")
    (auto simp: event_setExpiryState_def select_first_None_iff)

lemma expiry_loop_spec:
  assumes "unique_events w" "\<And>x. x \<in> set es \<Longrightarrow> \<exists>y \<in> set (events w). e_id y = e_id x \<and> e_expiresAt y = e_expiresAt x"
  shows "expiry_loop now grace es w =
    (Inr JobStatus_Success,
     w\<lparr>events := update_where (\<lambda>e. e_id e \<in> e_id ` set es) (mark_notified now grace) (events w),
       queued := queued w @ map (\<lambda>e. SendEventExpiry (e_id e)) es\<rparr>)"
  using assms
proof (induction es arbitrary: w)
  case Nil
  then show ?case by (simp add: update_where_id)
next
  case (Cons x es)
  let ?f = "\<lambda>e. e\<lparr>e_expiryNotifiedAt := Some now, e_purgeAfter := Some (purgeDeadline (or_default (e_expiresAt x) 0) grace)\<rparr>"
  let ?w1 = "w\<lparr>events := update_where (\<lambda>e. e_id e = e_id x) ?f (events w), queued := queued w @ [SendEventExpiry (e_id x)]\<rparr>"
  from Cons.prems(2) obtain y where y: "y \<in> set (events w)" "e_id y = e_id x" "e_expiresAt y = e_expiresAt x" by auto
  have same: "?f e = mark_notified now grace e" if "e \<in> set (events w)" "e_id e = e_id x" for e
    using row_by_id [OF Cons.prems(1) that(1) y(1)] that y by (simp add: mark_notified_def)
  have upd: "update_where (\<lambda>e. e_id e = e_id x) ?f (events w)
      = update_where (\<lambda>e. e_id e = e_id x) (mark_notified now grace) (events w)"
    by (rule update_where_cong) (use same in auto)
  obtain r where step: "event_setExpiryState (e_id x) ?f w
      = (Inr r, w\<lparr>events := update_where (\<lambda>e. e_id e = e_id x) ?f (events w)\<rparr>)"
    by (rule setExpiryState_hit) (use y in blast)+
  have "unique_events ?w1" using Cons.prems(1) by (simp add: upd notified_row.keys_kept)
  moreover have "\<exists>y \<in> set (events ?w1). e_id y = e_id z \<and> e_expiresAt y = e_expiresAt z" if z: "z \<in> set es" for z
  proof -
    from Cons.prems(2) [of z] z obtain v where v: "v \<in> set (events w)" "e_id v = e_id z" "e_expiresAt v = e_expiresAt z" by auto
    then have "(if e_id v = e_id x then mark_notified now grace v else v) \<in> set (events ?w1)"
      by (auto simp: upd set_update_where)
    then show ?thesis using v by (intro bexI) auto
  qed
  ultimately have "expiry_loop now grace es ?w1 = (Inr JobStatus_Success,
     ?w1\<lparr>events := update_where (\<lambda>e. e_id e \<in> e_id ` set es) (mark_notified now grace) (events ?w1),
       queued := queued ?w1 @ map (\<lambda>e. SendEventExpiry (e_id e)) es\<rparr>)"
    by (rule Cons.IH)
  then show ?case
    using step by (simp add: queueAll_def upd) (simp add: update_where_twice mark_notified_def)
qed

definition purgeable :: "ms \<Rightarrow> event_row \<Rightarrow> bool" where
  "purgeable now e \<longleftrightarrow> e_deletedAt e = None \<and> e_purgedAt e = None \<and> isEventExpired e now"

abbreviation purge_job :: "event_row \<Rightarrow> JobItem" where
  "purge_job e \<equiv> CleanupPrefix (eventPrefix (e_orgId e) (e_id e))"

lemma event_getById_row:
  assumes "unique_events w" "x \<in> set (events w)"
  shows "event_getById (e_id x) w = (if e_deletedAt x = None then Some x else None)"
proof (cases "event_getById (e_id x) w")
  case None
  with assms(2) show ?thesis by (auto simp: event_getById_def select_first_None_iff)
next
  case (Some y)
  from event_getById_SomeD [OF Some] have y: "y \<in> set (events w)" "e_id y = e_id x" "e_deletedAt y = None"
    by simp_all
  from row_by_id [OF assms(1) y(1) assms(2) y(2)] y(3) Some show ?thesis by simp
qed

lemma queue_then_write: "w\<lparr>queued := q, events := es\<rparr> = w\<lparr>events := es, queued := q\<rparr>"
  by simp

lemma purge_loop_spec:
  assumes "unique_events w" "set es \<subseteq> set (events w)" "distinct (map e_id es)"
  shows "purge_loop (\<lambda>_ v. v) now es w =
    (Inr JobStatus_Success,
     w\<lparr>events := update_where (\<lambda>e. e_id e \<in> e_id ` set (filter (purgeable now) es)) (mark_purged now) (events w),
       queued := queued w @ map purge_job (filter (purgeable now) es)\<rparr>)"
  using assms
proof (induction es arbitrary: w)
  case Nil
  then show ?case by (simp add: update_where_id)
next
  case (Cons x es)
  have x: "x \<in> set (events w)" using Cons.prems(2) by simp
  note get = event_getById_row [OF Cons.prems(1) x]
  show ?case
  proof (cases "purgeable now x")
    case False
    with get have "purge_loop (\<lambda>_ v. v) now (x # es) w = purge_loop (\<lambda>_ v. v) now es w"
      by (auto simp: purgeable_def isEventPurged_def)
    with Cons False show ?thesis by simp
  next
    case True
    let ?w1 = "w\<lparr>events := update_where (\<lambda>e. e_id e = e_id x) (mark_purged now) (events w), queued := queued w @ [purge_job x]\<rparr>"
    have "\<exists>e \<in> set (events (purge x w)). e_id e = e_id x"
      using x by (auto simp: purge_def queueAll_def)
    then obtain r where step: "event_setExpiryState (e_id x) (\<lambda>e. e\<lparr>e_purgedAt := Some now, e_purgeAfter := None\<rparr>) (purge x w)
        = (Inr r, (purge x w)\<lparr>events := update_where (\<lambda>e. e_id e = e_id x) (mark_purged now) (events (purge x w))\<rparr>)"
      unfolding mark_purged_def [abs_def] by (rule setExpiryState_hit)
    have loop: "purge_loop (\<lambda>_ v. v) now (x # es) w = purge_loop (\<lambda>_ v. v) now es ?w1"
      using True get step by (simp add: purgeable_def isEventPurged_def purge_def queueAll_def queue_then_write)
    have "unique_events ?w1" using Cons.prems(1) by (simp add: purged_row.keys_kept)
    moreover have "set es \<subseteq> set (events ?w1)"
    proof
      fix z assume z: "z \<in> set es"
      then have "e_id z \<noteq> e_id x" "z \<in> set (events w)" using Cons.prems(2,3) by (auto simp: image_iff)
      then show "z \<in> set (events ?w1)" by (auto simp: set_update_where image_iff intro: bexI [of _ z])
    qed
    moreover have "distinct (map e_id es)" using Cons.prems(3) by simp
    ultimately have ih: "purge_loop (\<lambda>_ v. v) now es ?w1 = (Inr JobStatus_Success,
      ?w1\<lparr>events := update_where (\<lambda>e. e_id e \<in> e_id ` set (filter (purgeable now) es)) (mark_purged now) (events ?w1),
         queued := queued ?w1 @ map purge_job (filter (purgeable now) es)\<rparr>)"
      by (rule Cons.IH)
    show ?thesis unfolding loop ih using True
      by (simp add: update_where_twice mark_purged_idem)
  qed
qed

section \<open>The sweeps as one write\<close>

lemma findNewlyExpired_rows: "x \<in> set (findNewlyExpired now w) \<Longrightarrow> x \<in> set (events w) \<and> newly_expired now x"
  by (auto simp: findNewlyExpired_def dest: in_set_takeD)

lemma findDueForPurge_rows: "x \<in> set (findDueForPurge now w) \<Longrightarrow> x \<in> set (events w) \<and> due_for_purge now x"
  by (auto simp: findDueForPurge_def dest: in_set_takeD)

lemma findDueForPurge_distinct: "unique_events w \<Longrightarrow> distinct (map e_id (findDueForPurge now w))"
  unfolding findDueForPurge_def take_map [symmetric]
  by (intro distinct_take) (simp add: distinct_map inj_on_def)

lemma expiry_sweep:
  assumes "unique_events w"
  shows "handleEventExpirySweep now w =
    (Inr JobStatus_Success,
     w\<lparr>events := update_where (\<lambda>e. e \<in> set (findNewlyExpired now w))
          (mark_notified now (er_purgeGraceHours (getEventRetentionConfig w))) (events w),
       queued := queued w @ map (\<lambda>e. SendEventExpiry (e_id e)) (findNewlyExpired now w)\<rparr>)"
proof -
  have "update_where (\<lambda>e. e_id e \<in> e_id ` set (findNewlyExpired now w)) f (events w)
      = update_where (\<lambda>e. e \<in> set (findNewlyExpired now w)) f (events w)" for f
  proof (rule update_where_cong)
    fix r assume "r \<in> set (events w)"
    then have "r = x" if "x \<in> set (findNewlyExpired now w)" "e_id r = e_id x" for x
      using row_by_id [OF assms, of r x] findNewlyExpired_rows [OF that(1)] that(2) by simp
    then show "(e_id r \<in> e_id ` set (findNewlyExpired now w)) = (r \<in> set (findNewlyExpired now w)) \<and>
        (e_id r \<in> e_id ` set (findNewlyExpired now w) \<longrightarrow> f r = f r)" by (auto simp: image_iff)
  qed
  moreover have "\<exists>y \<in> set (events w). e_id y = e_id x \<and> e_expiresAt y = e_expiresAt x"
    if "x \<in> set (findNewlyExpired now w)" for x
    using findNewlyExpired_rows [OF that] by blast
  ultimately show ?thesis
    unfolding handleEventExpirySweep_def by (subst expiry_loop_spec [OF assms]) simp_all
qed

lemma purge_sweep:
  assumes "unique_events w"
  shows "handleEventPurgeSweep (\<lambda>_ v. v) now w =
    (Inr JobStatus_Success,
     w\<lparr>events := update_where (\<lambda>e. e \<in> set (findDueForPurge now w) \<and> isEventExpired e now) (mark_purged now) (events w),
       queued := queued w @ map purge_job (filter (\<lambda>e. isEventExpired e now) (findDueForPurge now w))\<rparr>)"
proof -
  have f: "filter (purgeable now) (findDueForPurge now w) = filter (\<lambda>e. isEventExpired e now) (findDueForPurge now w)"
    by (rule filter_cong) (auto dest!: findDueForPurge_rows simp: purgeable_def due_for_purge_def)
  have "update_where (\<lambda>e. e_id e \<in> e_id ` set (filter (\<lambda>e. isEventExpired e now) (findDueForPurge now w))) g (events w)
      = update_where (\<lambda>e. e \<in> set (findDueForPurge now w) \<and> isEventExpired e now) g (events w)" for g
  proof (rule update_where_cong)
    fix r assume "r \<in> set (events w)"
    then have "r = x" if "x \<in> set (findDueForPurge now w)" "e_id r = e_id x" for x
      using row_by_id [OF assms, of r x] findDueForPurge_rows [OF that(1)] that(2) by simp
    then show "(e_id r \<in> e_id ` set (filter (\<lambda>e. isEventExpired e now) (findDueForPurge now w)))
          = (r \<in> set (findDueForPurge now w) \<and> isEventExpired r now) \<and>
        (e_id r \<in> e_id ` set (filter (\<lambda>e. isEventExpired e now) (findDueForPurge now w)) \<longrightarrow> g r = g r)"
      by (auto simp: image_iff)
  qed
  then show ?thesis
    using purge_loop_spec [OF assms _ findDueForPurge_distinct [OF assms, of now], of now] findDueForPurge_rows
    unfolding handleEventPurgeSweep_def f by auto
qed

section \<open>The retention system\<close>

text \<open>
  Everything that touches an event row, as one transition. \<open>retention_allowed\<close> asks that a created
  event has a fresh id and that the expiry date is moved through \<^verbatim>\<open>extend\<close>, not through the
  general update.
\<close>

datatype retention_op =
    Op_create uuid uuid CreateEventDto | Op_update uuid uuid UpdateEventDto | Op_remove uuid uuid string
  | Op_extend uuid uuid "ms option" | Op_acknowledge uuid uuid | Op_purgeNow uuid uuid
  | Op_expirySweep | Op_purgeSweep

fun retention_step :: "retention_op \<Rightarrow> ms \<Rightarrow> world \<Rightarrow> world" where
  "retention_step (Op_create i org dto) now w = snd (createEvent i org dto now w)"
| "retention_step (Op_update org ev dto) now w = snd (updateEvent org ev dto now w)"
| "retention_step (Op_remove org ev conf) now w = snd (removeEvent org ev conf now w)"
| "retention_step (Op_extend org ev t) now w = snd (extend org ev t now w)"
| "retention_step (Op_acknowledge org ev) now w = snd (acknowledge org ev now w)"
| "retention_step (Op_purgeNow org ev) now w = snd (purgeNow org ev now w)"
| "retention_step Op_expirySweep now w = snd (handleEventExpirySweep now w)"
| "retention_step Op_purgeSweep now w = snd (handleEventPurgeSweep (\<lambda>_ v. v) now w)"

fun retention_allowed :: "retention_op \<Rightarrow> world \<Rightarrow> bool" where
  "retention_allowed (Op_create i org dto) w \<longleftrightarrow> i \<notin> e_id ` set (events w)"
| "retention_allowed (Op_update org ev dto) w \<longleftrightarrow> ud_expiresAt dto = None"
| "retention_allowed _ w \<longleftrightarrow> True"

definition rstep :: "world \<Rightarrow> retention_op \<times> ms \<Rightarrow> world \<Rightarrow> bool" where
  "rstep w l w' \<longleftrightarrow> retention_allowed (fst l) w \<and> w' = retention_step (fst l) (snd l) w"

definition rstart :: "EventRetentionConfig \<Rightarrow> world \<Rightarrow> bool" where
  "rstart cfg w \<longleftrightarrow> events w = [] \<and> getEventRetentionConfig w = cfg"

text \<open>A scheduled purge always belongs to the current expiry date, and the owner was told after it passed.\<close>

definition purge_announced :: "EventRetentionConfig \<Rightarrow> event_row \<Rightarrow> bool" where
  "purge_announced cfg e \<longleftrightarrow>
    (case e_purgeAfter e of
       None \<Rightarrow> True
     | Some d \<Rightarrow> \<exists>t n. e_expiresAt e = Some t \<and> e_expiryNotifiedAt e = Some n \<and> t \<le> n
                     \<and> d = purgeDeadline t (er_purgeGraceHours cfg))"

lemma purge_announced_None: "e_purgeAfter e = None \<Longrightarrow> purge_announced cfg e"
  by (simp add: purge_announced_def)

lemma purge_announced_same:
  "e_purgeAfter e' = e_purgeAfter e \<Longrightarrow> e_expiresAt e' = e_expiresAt e \<Longrightarrow>
   e_expiryNotifiedAt e' = e_expiryNotifiedAt e \<Longrightarrow> purge_announced cfg e' = purge_announced cfg e"
  by (simp add: purge_announced_def split: option.splits)

definition retention_inv :: "EventRetentionConfig \<Rightarrow> world \<Rightarrow> bool" where
  "retention_inv cfg w \<longleftrightarrow>
     unique_events w \<and> getEventRetentionConfig w = cfg \<and> (\<forall>e \<in> set (events w). purge_announced cfg e)"

lemma retention_inv_write:
  assumes "retention_inv cfg w" "\<And>e. e_id (f e) = e_id e"
    and "\<And>e. e \<in> set (events w) \<Longrightarrow> p e \<Longrightarrow> purge_announced cfg (f e)"
    and "events w' = update_where p f (events w)" "eventRetention w' = eventRetention w"
  shows "retention_inv cfg w'"
proof -
  have "map e_id (events w') = map e_id (events w)"
    unfolding assms(4) using assms(2) by (simp add: update_where_def)
  moreover have "\<forall>e \<in> set (events w'). purge_announced cfg e"
    unfolding assms(4) using assms(1,3) by (auto simp: set_update_where retention_inv_def)
  ultimately show ?thesis
    using assms(1,5) by (simp add: retention_inv_def getEventRetentionConfig_def)
qed

lemma retention_inv_setExpiryState:
  assumes "retention_inv cfg w" "\<And>e. e_id (f e) = e_id e"
    and "\<And>e. purge_announced cfg e \<Longrightarrow> purge_announced cfg (f e)"
  shows "retention_inv cfg (snd (event_setExpiryState i f w))"
proof (cases "select_first (\<lambda>e. e_id e = i) (events w)")
  case None
  with assms(1) show ?thesis by (simp add: event_setExpiryState_def)
next
  case (Some e)
  show ?thesis
    by (rule retention_inv_write [OF assms(1,2)])
      (use assms(1,3) Some in \<open>simp_all add: event_setExpiryState_def retention_inv_def\<close>)
qed

lemma retention_inv_queue: "retention_inv cfg (queueAll js w) = retention_inv cfg w"
  by (simp add: retention_inv_def queueAll_def getEventRetentionConfig_def)

lemma retention_inv_create:
  assumes "retention_inv cfg w" "i \<notin> e_id ` set (events w)"
  shows "retention_inv cfg (snd (createEvent i org dto now w))"
proof -
  obtain r w' where run: "createEvent i org dto now w = (r, w')" by (metis prod.exhaust)
  then show ?thesis
  proof (cases rule: createEvent_cases)
    case made
    with assms run show ?thesis
      by (auto simp: retention_inv_def new_event_def purge_announced_def getEventRetentionConfig_def)
  qed (use assms run in simp)
qed

lemma retention_inv_update:
  assumes "retention_inv cfg w" "ud_expiresAt dto = None"
  shows "retention_inv cfg (snd (updateEvent org ev dto now w))"
proof -
  have keep: "purge_announced cfg ((apply_update dto x e)\<lparr>e_updatedAt := now\<rparr>) = purge_announced cfg e" for x e
    using assms(2) by (intro purge_announced_same) (simp_all add: apply_update_def)
  have "retention_inv cfg (snd (event_update org ev (apply_update dto x) now w))" for x
  proof (cases "snd (event_update org ev (apply_update dto x) now w) = w")
    case True
    with assms(1) show ?thesis by simp
  next
    case False
    let ?p = "\<lambda>e. e_id e = ev \<and> e_orgId e = org" and ?g = "\<lambda>e. (apply_update dto x e)\<lparr>e_updatedAt := now\<rparr>"
    from False have "snd (event_update org ev (apply_update dto x) now w) = w\<lparr>events := update_where ?p ?g (events w)\<rparr>"
      by (auto simp: event_update_def Let_def split: option.splits if_splits)
    then show ?thesis
      using keep assms(1)
      by (intro retention_inv_write [OF assms(1), of ?g ?p]) (auto simp: apply_update_def retention_inv_def)
  qed
  with assms(1) show ?thesis by (auto simp: updateEvent_def split: sum.splits)
qed

lemma retention_inv_remove:
  assumes "retention_inv cfg w"
  shows "retention_inv cfg (snd (removeEvent org ev conf now w))"
proof -
  obtain r w' where run: "removeEvent org ev conf now w = (r, w')" by (metis prod.exhaust)
  show ?thesis
  proof (cases "is_ok r")
    case False
    with removeEvent_ok(2) [OF run] assms run show ?thesis by simp
  next
    case True
    note w' = removeEvent_world [OF run True]
    have "map e_id (events w') = filter (\<lambda>i. i \<noteq> ev) (map e_id (events w))"
      by (simp add: w' event_cascade_tables queueAll_def delete_where_def filter_map comp_def)
    moreover have "purge_announced cfg (e\<lparr>e_coverAssetId := x\<rparr>)" if "e \<in> set (events w)" for e x
      using assms that purge_announced_same [of "e\<lparr>e_coverAssetId := x\<rparr>" e] by (simp add: retention_inv_def)
    then have "\<forall>e \<in> set (events w'). purge_announced cfg e"
      by (auto simp: w' event_cascade_tables queueAll_def)
    moreover have "eventRetention w' = eventRetention w"
      by (simp add: w' record_audit_def audit_create_def event_cascade_def asset_cascade_def
          participant_cascade_def queueAll_def Let_def)
    ultimately show ?thesis
      using assms run by (simp add: retention_inv_def getEventRetentionConfig_def)
  qed
qed

lemma retention_inv_actions:
  assumes "retention_inv cfg w"
  shows "retention_inv cfg (snd (extend org ev t now w))"
    and "retention_inv cfg (snd (acknowledge org ev now w))"
    and "retention_inv cfg (snd (purgeNow org ev now w))"
proof -
  have "retention_inv cfg (snd (event_setExpiryState ev (\<lambda>e. e\<lparr>e_expiresAt := t, e_expiryNotifiedAt := None,
      e_expiryAcknowledgedAt := None, e_purgeAfter := None\<rparr>) w))"
    by (rule retention_inv_setExpiryState [OF assms]) (simp_all add: purge_announced_None)
  with assms show "retention_inv cfg (snd (extend org ev t now w))"
    by (auto simp: extend_def split: sum.splits)
  have "retention_inv cfg (snd (event_setExpiryState ev (\<lambda>e. e\<lparr>e_expiryAcknowledgedAt := Some now\<rparr>) w))"
    by (rule retention_inv_setExpiryState [OF assms]) (simp_all add: purge_announced_def split: option.splits)
  with assms show "retention_inv cfg (snd (acknowledge org ev now w))"
    by (auto simp: acknowledge_def split: sum.splits)
  have "retention_inv cfg (snd (event_setExpiryState ev (\<lambda>e. e\<lparr>e_purgedAt := Some now, e_purgeAfter := None\<rparr>) (purge e w)))" for e
    by (rule retention_inv_setExpiryState)
      (use assms in \<open>simp_all add: purge_announced_None purge_def retention_inv_queue\<close>)
  with assms show "retention_inv cfg (snd (purgeNow org ev now w))"
    by (auto simp: purgeNow_def split: sum.splits)
qed

lemma retention_inv_sweeps:
  assumes "retention_inv cfg w"
  shows "retention_inv cfg (snd (handleEventExpirySweep now w))"
    and "retention_inv cfg (snd (handleEventPurgeSweep (\<lambda>_ v. v) now w))"
proof -
  from assms have u: "unique_events w" and cfg: "getEventRetentionConfig w = cfg"
    by (simp_all add: retention_inv_def)
  have "purge_announced cfg (mark_notified now (er_purgeGraceHours cfg) e)" if "e \<in> set (findNewlyExpired now w)" for e
    using findNewlyExpired_rows [OF that]
    by (auto simp: purge_announced_def newly_expired_def isEventExpired_def split: option.splits)
  then show "retention_inv cfg (snd (handleEventExpirySweep now w))"
    by (intro retention_inv_write [OF assms, of "mark_notified now (er_purgeGraceHours cfg)"
          "\<lambda>e. e \<in> set (findNewlyExpired now w)"]) (simp_all add: expiry_sweep [OF u] cfg)
  show "retention_inv cfg (snd (handleEventPurgeSweep (\<lambda>_ v. v) now w))"
    by (rule retention_inv_write [OF assms, of "mark_purged now"
          "\<lambda>e. e \<in> set (findDueForPurge now w) \<and> isEventExpired e now"])
      (simp_all add: purge_sweep [OF u] purge_announced_def)
qed

interpretation retention: invariant_system "rstart cfg" rstep "retention_inv cfg" for cfg
proof
  show "rstart cfg s \<Longrightarrow> retention_inv cfg s" for s
    by (simp add: rstart_def retention_inv_def)
  show "retention_inv cfg s \<Longrightarrow> rstep s l t \<Longrightarrow> retention_inv cfg t" for s l t
    by (cases "fst l")
      (simp_all add: rstep_def retention_inv_create retention_inv_update retention_inv_remove
        retention_inv_actions retention_inv_sweeps)
qed


definition wit_due_event :: event_row where
  "wit_due_event = (new_event ''e2'' ''o'' wit_create_dto 0)\<lparr>e_expiresAt := Some 1000\<rparr>"

definition wit_due_world :: world where
  "wit_due_world = wit_org_world\<lparr>events := [mark_notified 2000 24 wit_due_event], queued := [SendEventExpiry ''e2'']\<rparr>"

lemmas wit_due_defs = wit_due_event_def new_event_def wit_create_dto_def

lemma wit_due_row [simp]:
  "e_id wit_due_event = ''e2''" "e_expiresAt wit_due_event = Some 1000" "e_purgedAt wit_due_event = None"
  "e_deletedAt wit_due_event = None" "e_expiryNotifiedAt wit_due_event = None" "e_orgId wit_due_event = ''o''"
  "e_purgeAfter wit_due_event = None"
  by (simp_all add: wit_due_defs)

lemma wit_due_reachable: "reachable (rstart EVENT_RETENTION_DEFAULTS) rstep wit_due_world"
proof -
  let ?w1 = "wit_org_world\<lparr>events := [new_event ''e2'' ''o'' wit_create_dto 0]\<rparr>"
  let ?w2 = "wit_org_world\<lparr>events := [wit_due_event]\<rparr>"
  have "rstart EVENT_RETENTION_DEFAULTS wit_org_world"
    by (simp add: rstart_def wit_org_defs getEventRetentionConfig_def)
  then have r0: "reachable (rstart EVENT_RETENTION_DEFAULTS) rstep wit_org_world" by (rule reach_start)
  have "is_ok (assertEventAvailable ''o'' wit_org_world)" "events wit_org_world = []"
    by (simp_all add: assertEventAvailable_iff wit_org_defs org_getById_def event_countForOrg_def limit_of_def
        limitsFor_def Let_def)
  then have "createEvent ''e2'' ''o'' wit_create_dto 0 wit_org_world
      = (Inr (new_event ''e2'' ''o'' wit_create_dto 0), ?w1)"
    by (cases "assertEventAvailable ''o'' wit_org_world")
      (simp_all add: createEvent_def event_create_def event_getBySlug_def)
  then have "rstep wit_org_world (Op_create ''e2'' ''o'' wit_create_dto, 0) ?w1"
    by (simp add: rstep_def wit_org_defs)
  with r0 have r1: "reachable (rstart EVENT_RETENTION_DEFAULTS) rstep ?w1" by (rule reach_step)
  have "rstep ?w1 (Op_extend ''o'' ''e2'' (Some 1000), 0) ?w2"
    by (simp add: rstep_def extend_def expiry_getEvent_def event_getById_def event_setExpiryState_def
        isEventPurged_def wit_due_defs)
  with r1 have r2: "reachable (rstart EVENT_RETENTION_DEFAULTS) rstep ?w2" by (rule reach_step)
  have "findNewlyExpired 2000 ?w2 = [wit_due_event]"
    by (simp add: findNewlyExpired_def SWEEP_LIMIT_def newly_expired_def isEventExpired_def)
  then have "snd (handleEventExpirySweep 2000 ?w2) = wit_due_world"
    by (simp add: expiry_sweep wit_due_world_def getEventRetentionConfig_def wit_org_defs EVENT_RETENTION_DEFAULTS_def)
  then have "rstep ?w2 (Op_expirySweep, 2000) wit_due_world" by (simp add: rstep_def)
  with r2 show ?thesis by (rule reach_step)
qed


text \<open>
  The hourly sweep tells each owner once: if the events that have newly expired fit into one
  batch, each of them gets exactly one notification job, oldest expiry first, its purge is scheduled
  for the expiry date plus the grace period, and an immediate second sweep does nothing.
\<close>

theorem expiry_sweep_notifies_once:
  assumes "unique_events w" "length (filter (newly_expired now) (events w)) \<le> SWEEP_LIMIT"
    and "handleEventExpirySweep now w = (r, w')"
  shows "r = Inr JobStatus_Success
    \<and> queued w' = queued w @ map (\<lambda>e. SendEventExpiry (e_id e))
        (sort_key (\<lambda>e. or_default (e_expiresAt e) 0) (filter (newly_expired now) (events w)))
    \<and> events w' = update_where (newly_expired now)
        (mark_notified now (er_purgeGraceHours (getEventRetentionConfig w))) (events w)
    \<and> handleEventExpirySweep now w' = (Inr JobStatus_Success, w')"
proof -
  let ?m = "mark_notified now (er_purgeGraceHours (getEventRetentionConfig w))"
  have all: "findNewlyExpired now w = sort_key (\<lambda>e. or_default (e_expiresAt e) 0) (filter (newly_expired now) (events w))"
    using assms(2) by (simp add: findNewlyExpired_def)
  have "update_where (\<lambda>e. e \<in> set (findNewlyExpired now w)) ?m (events w) = update_where (newly_expired now) ?m (events w)"
    by (rule update_where_cong) (simp add: all)
  with assms(3) expiry_sweep [OF assms(1), of now]
  have w': "r = Inr JobStatus_Success" "w' = w\<lparr>events := update_where (newly_expired now) ?m (events w),
      queued := queued w @ map (\<lambda>e. SendEventExpiry (e_id e)) (findNewlyExpired now w)\<rparr>"
    by auto
  have u: "unique_events w'" using assms(1) by (simp add: w' notified_row.keys_kept)
  have "filter (newly_expired now) (events w') = []"
    by (auto simp: w' filter_empty_conv set_update_where newly_expired_def)
  then have none: "findNewlyExpired now w' = []" by (simp add: findNewlyExpired_def)
  have "handleEventExpirySweep now w' = (Inr JobStatus_Success, w')"
    using expiry_sweep [OF u, of now] by (simp add: none update_where_id)
  with w' all show ?thesis by simp
qed

theorem expiry_sweep_notifies_once_witness:
  "queued (snd (handleEventExpirySweep 2000 (wit_org_world\<lparr>events := [wit_due_event]\<rparr>))) = [SendEventExpiry ''e2'']"
proof -
  let ?w = "wit_org_world\<lparr>events := [wit_due_event]\<rparr>"
  have h: "unique_events ?w" "length (filter (newly_expired 2000) (events ?w)) \<le> SWEEP_LIMIT"
    "filter (newly_expired 2000) (events ?w) = [wit_due_event]" "queued ?w = []"
    by (simp_all add: SWEEP_LIMIT_def newly_expired_def isEventExpired_def wit_org_defs)
  show ?thesis
    using expiry_sweep_notifies_once [OF h(1,2) prod.collapse [symmetric]] unfolding h(3,4) by simp
qed

section \<open>Purging what is due, and only that\<close>

text \<open>
  The jobs a purge loop queues, whatever organizers do meanwhile: each is the prefix delete of a row
  that was read after their intervention, live, unpurged and expired.
\<close>

lemma purge_loop_jobs:
  assumes "\<And>i v. queued (between i v) = queued v"
  shows "\<exists>js. queued (snd (purge_loop between now es w)) = queued w @ js \<and>
    (\<forall>j \<in> set js. \<exists>v c. event_getById (e_id c) (between (e_id c) v) = Some c
       \<and> \<not> isEventPurged c \<and> isEventExpired c now \<and> j = purge_job c)"
proof (induction es arbitrary: w)
  case (Cons x es)
  let ?v = "between (e_id x) w"
  show ?case
  proof (cases "event_getById (e_id x) ?v")
    case None
    with Cons.IH [of ?v] assms show ?thesis by (auto simp: Let_def)
  next
    case (Some c)
    show ?thesis
    proof (cases "isEventPurged c \<or> \<not> isEventExpired c now")
      case True
      with Some Cons.IH [of ?v] assms show ?thesis by (auto simp: Let_def)
    next
      case False
      have c: "e_id c = e_id x" "c \<in> set (events ?v)" using event_getById_SomeD [OF Some] by simp_all
      then have "\<exists>e \<in> set (events (purge c ?v)). e_id e = e_id c" by (auto simp: purge_def queueAll_def)
      then obtain r where "event_setExpiryState (e_id c) (\<lambda>e. e\<lparr>e_purgedAt := Some now, e_purgeAfter := None\<rparr>) (purge c ?v)
        = (Inr r, (purge c ?v)\<lparr>events := update_where (\<lambda>e. e_id e = e_id c)
            (\<lambda>e. e\<lparr>e_purgedAt := Some now, e_purgeAfter := None\<rparr>) (events (purge c ?v))\<rparr>)"
        by (rule setExpiryState_hit)
      with Some False obtain w1 where w1: "purge_loop between now (x # es) w = purge_loop between now es w1"
        "queued w1 = queued w @ [purge_job c]"
        using assms [of "e_id x" w] by (simp add: Let_def purge_def)
      from Cons.IH [of w1] obtain js where js: "queued (snd (purge_loop between now es w1)) = queued w1 @ js"
        "\<forall>j \<in> set js. \<exists>v c. event_getById (e_id c) (between (e_id c) v) = Some c
           \<and> \<not> isEventPurged c \<and> isEventExpired c now \<and> j = purge_job c" by blast
      have "event_getById (e_id c) (between (e_id c) w) = Some c" using Some c(1) by simp
      then show ?thesis
        by (intro exI [of _ "purge_job c # js"]) (use js w1 False in auto)
    qed
  qed
qed simp

text \<open>
  An extension is honoured up to the last moment: if an organizer's action that arrives between
  the sweep's query and its turn for an event leaves that event unexpired (or purged already), every
  delete the sweep queues is for some other event, and that one is expired and not purged yet.
\<close>

theorem extension_during_sweep_is_honoured:
  assumes "\<And>i v. queued (between i v) = queued v"
    and "\<And>v c. event_getById ev (between ev v) = Some c \<Longrightarrow> isEventPurged c \<or> \<not> isEventExpired c now"
    and "handleEventPurgeSweep between now w = (r, w')"
  shows "\<exists>js. queued w' = queued w @ js \<and>
    (\<forall>j \<in> set js. \<exists>c. j = purge_job c \<and> e_id c \<noteq> ev \<and> isEventExpired c now \<and> \<not> isEventPurged c)"
proof -
  from assms(3) have w': "snd (purge_loop between now (findDueForPurge now w) w) = w'"
    by (simp add: handleEventPurgeSweep_def)
  from purge_loop_jobs [where between = between and now = now and w = w and es = "findDueForPurge now w", OF assms(1), unfolded w']
  obtain js where js: "queued w' = queued w @ js" "\<forall>j \<in> set js. \<exists>v c.
       event_getById (e_id c) (between (e_id c) v) = Some c \<and> \<not> isEventPurged c \<and> isEventExpired c now \<and> j = purge_job c"
    by (elim exE conjE) (rule that)
  have "\<exists>c. j = purge_job c \<and> e_id c \<noteq> ev \<and> isEventExpired c now \<and> \<not> isEventPurged c" if "j \<in> set js" for j
  proof -
    from bspec [OF js(2) that] obtain v c where c: "event_getById (e_id c) (between (e_id c) v) = Some c"
      "\<not> isEventPurged c" "isEventExpired c now" "j = purge_job c" by auto
    have "e_id c \<noteq> ev" using assms(2) [of v c] c(1-3) by auto
    with c show ?thesis by blast
  qed
  with js(1) show ?thesis by blast
qed

definition wit_between :: "uuid \<Rightarrow> world \<Rightarrow> world" where
  "wit_between i v = v\<lparr>events := update_where (\<lambda>e. e_id e = i) (\<lambda>e. e\<lparr>e_expiresAt := Some 200000000, e_purgeAfter := None\<rparr>) (events v)\<rparr>"

theorem extension_during_sweep_is_honoured_witness:
  "findDueForPurge 90000000 wit_due_world \<noteq> [] \<and>
   (\<exists>js. queued (snd (handleEventPurgeSweep wit_between 90000000 wit_due_world)) = queued wit_due_world @ js \<and>
     (\<forall>j \<in> set js. \<exists>c. j = purge_job c \<and> e_id c \<noteq> ''e2'' \<and> isEventExpired c 90000000 \<and> \<not> isEventPurged c))"
proof
  show "findDueForPurge 90000000 wit_due_world \<noteq> []"
    by (simp add: findDueForPurge_def wit_due_world_def SWEEP_LIMIT_def due_for_purge_def isEventExpired_def purgeDeadline_def)
  have "isEventPurged c \<or> \<not> isEventExpired c 90000000" if "event_getById ''e2'' (wit_between ''e2'' v) = Some c" for v c
    using event_getById_SomeD [OF that] by (auto simp: wit_between_def set_update_where isEventExpired_def)
  then show "\<exists>js. queued (snd (handleEventPurgeSweep wit_between 90000000 wit_due_world)) = queued wit_due_world @ js \<and>
     (\<forall>j \<in> set js. \<exists>c. j = purge_job c \<and> e_id c \<noteq> ''e2'' \<and> isEventExpired c 90000000 \<and> \<not> isEventPurged c)"
    by (intro extension_during_sweep_is_honoured [OF _ _ prod.collapse [symmetric]]) (auto simp: wit_between_def)
qed

text \<open>
  Nothing due is forgotten: if the due events fit into one batch, the daily sweep marks each
  expired one purged and queues its prefix delete once, in order of their deadlines, and changes
  no other event.
\<close>

theorem purge_sweep_is_exact:
  assumes "unique_events w" "length (filter (due_for_purge now) (events w)) \<le> SWEEP_LIMIT"
    and "handleEventPurgeSweep (\<lambda>_ v. v) now w = (r, w')"
  shows "r = Inr JobStatus_Success
    \<and> events w' = update_where (\<lambda>e. due_for_purge now e \<and> isEventExpired e now) (mark_purged now) (events w)
    \<and> queued w' = queued w @ map purge_job (filter (\<lambda>e. isEventExpired e now)
        (sort_key (\<lambda>e. or_default (e_purgeAfter e) 0) (filter (due_for_purge now) (events w))))
    \<and> filter (\<lambda>e. due_for_purge now e \<and> isEventExpired e now) (events w') = []"
proof -
  have all: "findDueForPurge now w = sort_key (\<lambda>e. or_default (e_purgeAfter e) 0) (filter (due_for_purge now) (events w))"
    using assms(2) by (simp add: findDueForPurge_def)
  have "update_where (\<lambda>e. e \<in> set (findDueForPurge now w) \<and> isEventExpired e now) (mark_purged now) (events w)
      = update_where (\<lambda>e. due_for_purge now e \<and> isEventExpired e now) (mark_purged now) (events w)"
    by (rule update_where_cong) (simp add: all)
  with assms(3) purge_sweep [OF assms(1), of now]
  have w': "r = Inr JobStatus_Success"
    "events w' = update_where (\<lambda>e. due_for_purge now e \<and> isEventExpired e now) (mark_purged now) (events w)"
    "queued w' = queued w @ map purge_job (filter (\<lambda>e. isEventExpired e now) (findDueForPurge now w))"
    by auto
  moreover have "filter (\<lambda>e. due_for_purge now e \<and> isEventExpired e now) (events w') = []"
    by (auto simp: w'(2) filter_empty_conv set_update_where due_for_purge_def split: if_splits)
  ultimately show ?thesis by (simp add: all)
qed

theorem purge_sweep_is_exact_witness:
  "queued (snd (handleEventPurgeSweep (\<lambda>_ v. v) 90000000 wit_due_world))
     = [SendEventExpiry ''e2'', CleanupPrefix (eventPrefix ''o'' ''e2'')]"
proof -
  let ?e = "mark_notified 2000 24 wit_due_event"
  have h: "unique_events wit_due_world" "length (filter (due_for_purge 90000000) (events wit_due_world)) \<le> SWEEP_LIMIT"
    "filter (due_for_purge 90000000) (events wit_due_world) = [?e]" "queued wit_due_world = [SendEventExpiry ''e2'']"
    by (simp_all add: wit_due_world_def SWEEP_LIMIT_def due_for_purge_def isEventExpired_def purgeDeadline_def)
  show ?thesis
    using purge_sweep_is_exact [OF h(1,2) prod.collapse [symmetric]] unfolding h(3,4) by (simp add: isEventExpired_def)
qed

section \<open>Moving the date\<close>

interpretation extended_row: row_update e_id "\<lambda>e. e\<lparr>e_expiresAt := t, e_expiryNotifiedAt := None,
    e_expiryAcknowledgedAt := None, e_purgeAfter := None\<rparr>" for t
  by unfold_locales simp

lemma expiry_getEvent_iff:
  "expiry_getEvent org ev w = Inr e \<longleftrightarrow> event_getById ev w = Some e \<and> e_orgId e = org"
  by (auto simp: expiry_getEvent_def split: option.splits if_splits dest: event_getById_SomeD)

text \<open>
  Extending succeeds exactly for an unpurged event of the organization and a date in the future
  (or no date). It brings the galleries back at once, takes the event off every later purge sweep
  until it expires and is announced again, and makes that later expiry notify again.
\<close>

theorem extend_revives_and_cancels_purge:
  assumes "unique_events w" "extend org ev t now w = (r, w')"
  shows "(is_ok r \<longleftrightarrow> (\<exists>e. event_getById ev w = Some e \<and> e_orgId e = org \<and> e_purgedAt e = None)
            \<and> (\<forall>d. t = Some d \<longrightarrow> now < d))
    \<and> (\<not> is_ok r \<longrightarrow> w' = w)
    \<and> (is_ok r \<longrightarrow> (\<exists>e'. event_getById ev w' = Some e' \<and> e_expiresAt e' = t \<and> \<not> isEventExpired e' now
          \<and> (\<forall>now'. \<not> due_for_purge now' e')
          \<and> (\<forall>now'. isEventExpired e' now' \<longrightarrow> newly_expired now' e')))"
proof (cases "\<exists>e. event_getById ev w = Some e \<and> e_orgId e = org \<and> e_purgedAt e = None")
  case False
  have "\<exists>err. r = Inl err \<and> w' = w"
  proof (cases "expiry_getEvent org ev w")
    case (Inl err)
    then have "extend org ev t now w = (Inl err, w)" by (simp add: extend_def)
    with assms(2) have "(r, w') = (Inl err, w)" by (rule trans [OF sym])
    then show ?thesis by blast
  next
    case (Inr e)
    then have "e_purgedAt e \<noteq> None" using False by (auto simp: expiry_getEvent_iff)
    with Inr assms(2) show ?thesis by (auto simp: extend_def isEventPurged_def)
  qed
  with False show ?thesis by auto
next
  case True
  then obtain e where e: "event_getById ev w = Some e" "e_orgId e = org" "e_purgedAt e = None" by blast
  then have get: "expiry_getEvent org ev w = Inr e" by (simp add: expiry_getEvent_iff)
  from event_getById_SomeD [OF e(1)] have row: "e \<in> set (events w)" "e_id e = ev" "e_deletedAt e = None" by simp_all
  show ?thesis
  proof (cases "\<forall>d. t = Some d \<longrightarrow> now < d")
    case False
    with get e assms(2) show ?thesis by (auto simp: extend_def isEventPurged_def not_less)
  next
    case True
    let ?f = "\<lambda>e. e\<lparr>e_expiresAt := t, e_expiryNotifiedAt := None, e_expiryAcknowledgedAt := None, e_purgeAfter := None\<rparr>"
    have "\<exists>e \<in> set (events w). e_id e = ev" using row by blast
    then obtain x where set: "event_setExpiryState ev ?f w = (Inr x, w\<lparr>events := update_where (\<lambda>e. e_id e = ev) ?f (events w)\<rparr>)"
      by (rule setExpiryState_hit)
    with get e True assms(2) have r: "r = Inr x" "w' = w\<lparr>events := update_where (\<lambda>e. e_id e = ev) ?f (events w)\<rparr>"
      by (auto simp: extend_def isEventPurged_def not_le split: option.splits)
    have "unique_events w'" using assms(1) by (simp add: r(2) extended_row.keys_kept)
    moreover have "?f e \<in> set (events w')" "e_id (?f e) = ev" "e_deletedAt (?f e) = None"
      using row update_where_hit [of e "events w" "\<lambda>e. e_id e = ev" ?f] by (simp_all add: r(2))
    ultimately have "event_getById ev w' = Some (?f e)" using event_getById_row [of w' "?f e"] by simp
    with True e r(1) row show ?thesis
      by (auto simp: isEventExpired_def due_for_purge_def newly_expired_def not_le split: option.splits)
  qed
qed

theorem extend_revives_and_cancels_purge_witness:
  "is_ok (fst (extend ''o'' ''e2'' (Some 95000000) 90000000 wit_due_world))"
proof -
  have h: "unique_events wit_due_world" by (simp add: wit_due_world_def)
  have "event_getById ''e2'' wit_due_world = Some (mark_notified 2000 24 wit_due_event)"
    by (simp add: event_getById_def wit_due_world_def)
  then show ?thesis
    using extend_revives_and_cancels_purge [OF h prod.collapse [symmetric], of "''o''" "''e2''" "Some 95000000" 90000000]
    by simp
qed

definition date_only :: "ms option \<Rightarrow> UpdateEventDto" where
  "date_only t = \<lparr>ud_name = None, ud_slug = None, ud_description = None, ud_startsAt = None, ud_endsAt = None,
     ud_expiresAt = Some t, ud_status = None, ud_participantPageEnabled = None,
     ud_participantsSeeAllPhotos = None, ud_participantsCanDownloadAll = None, ud_config = None\<rparr>"

interpretation edited_row: row_update e_id "\<lambda>x. (apply_update dto e x)\<lparr>e_updatedAt := now\<rparr>" for dto e now
  by unfold_locales (simp add: apply_update_def)

text \<open>
  Writing the date through the general update instead of \<^verbatim>\<open>extend\<close> keeps the marks of the old
  expiry. Of an event that was announced before, the new expiry is then never announced, and from
  the moment the new date passes (the old deadline being past) the event is due for the purge, with
  no grace period at all.
\<close>

theorem edited_date_purges_without_notice:
  assumes "unique_events w" "event_getById ev w = Some e" "e_orgId e = org"
    and "\<forall>x \<in> set (events w). e_id x \<noteq> ev \<longrightarrow> e_slug x \<noteq> e_slug e"
    and "e_expiryNotifiedAt e \<noteq> None" "e_purgeAfter e = Some d" "e_purgedAt e = None" "d \<le> t"
    and "updateEvent org ev (date_only (Some t)) now w = (r, w')"
  shows "is_ok r \<and> (\<exists>e'. event_getById ev w' = Some e' \<and> e_expiresAt e' = Some t
    \<and> (\<forall>now'. \<not> newly_expired now' e') \<and> (\<forall>now'. due_for_purge now' e' \<longleftrightarrow> t \<le> now'))"
proof -
  let ?p = "\<lambda>x. e_id x = ev \<and> e_orgId x = org" and ?g = "\<lambda>x. (apply_update (date_only (Some t)) e x)\<lparr>e_updatedAt := now\<rparr>"
  from event_getById_SomeD [OF assms(2)] have row: "e \<in> set (events w)" "e_id e = ev" "e_deletedAt e = None" by simp_all
  obtain x where x: "select_first ?p (events w) = Some x"
    using row assms(3) by (cases "select_first ?p (events w)") (auto simp: select_first_None_iff)
  then have "x = e" using select_first_SomeD [OF x] row_by_id [OF assms(1), of x e] row by simp
  have slug: "e_slug (apply_update (date_only (Some t)) e e) = e_slug e" by (simp add: apply_update_def date_only_def)
  have free: "\<not> (\<exists>y \<in> set (events w). \<not> ?p y \<and> e_slug y = e_slug (apply_update (date_only (Some t)) e e))"
  proof -
    have "e_id y \<noteq> ev \<or> y = e" if "y \<in> set (events w)" for y
      using row_by_id [OF assms(1) that row(1)] row(2) by auto
    with assms(3,4) row(2) show ?thesis unfolding slug by blast
  qed
  have "updateEvent org ev (date_only (Some t)) now w = (Inr (?g e), w\<lparr>events := update_where ?p ?g (events w)\<rparr>)"
    using assms(2,3) x \<open>x = e\<close> free
    by (simp add: updateEvent_def event_get_def slug_taken_def event_update_def Let_def date_only_def)
  then have r: "r = Inr (?g e)" "w' = w\<lparr>events := update_where ?p ?g (events w)\<rparr>" using assms(9) by auto
  have "unique_events w'" using assms(1) by (simp add: r(2) edited_row.keys_kept)
  moreover have "?g e \<in> set (events w')" using update_where_hit [of e "events w" ?p ?g] row(1,2) assms(3) by (simp add: r(2))
  moreover have "e_id (?g e) = ev" "e_deletedAt (?g e) = None" using row by (simp_all add: apply_update_def)
  ultimately have "event_getById ev w' = Some (?g e)" using event_getById_row [of w' "?g e"] by simp
  moreover have "e_expiresAt (?g e) = Some t" "e_expiryNotifiedAt (?g e) = e_expiryNotifiedAt e"
    "e_purgeAfter (?g e) = Some d" "e_purgedAt (?g e) = None" "e_deletedAt (?g e) = None"
    using assms(6,7) row(3) by (simp_all add: apply_update_def date_only_def)
  ultimately show ?thesis
    using r(1) assms(5,8) by (auto simp: newly_expired_def due_for_purge_def isEventExpired_def)
qed

theorem edited_date_purges_without_notice_witness:
  "\<exists>e'. event_getById ''e2'' (snd (updateEvent ''o'' ''e2'' (date_only (Some 100000000)) 2500 wit_due_world)) = Some e'
     \<and> e_expiresAt e' = Some 100000000 \<and> \<not> newly_expired 100000000 e' \<and> due_for_purge 100000000 e'"
proof -
  let ?e = "mark_notified 2000 24 wit_due_event"
  have h: "unique_events wit_due_world" "event_getById ''e2'' wit_due_world = Some ?e"
    "\<forall>x \<in> set (events wit_due_world). e_id x \<noteq> ''e2'' \<longrightarrow> e_slug x \<noteq> e_slug ?e"
    by (simp_all add: event_getById_def wit_due_world_def)
  show ?thesis
    using edited_date_purges_without_notice [OF h(1,2) _ h(3) _ _ _ _ prod.collapse [symmetric],
        of "''o''" 86401000 100000000 2500]
    by (simp add: purgeDeadline_def) blast
qed

end
