(* ===== verification/Cleanup.thy ===== *)
theory Cleanup
  imports Events
begin

text \<open>
  \<^verbatim>\<open>services/cleanup.service.ts\<close>: the jobs that delete objects, the staging sweep, the sweep of
  dead credentials and the nightly reconciliation. The staging folder's file system is the
  argument \<open>staging_fs\<close>: the directory listing, each entry's kind and modification time, and
  whether an unlink succeeds.
\<close>

section \<open>Object deletion jobs\<close>

definition STAGING_MAX_AGE_MS :: ms where
  "STAGING_MAX_AGE_MS = 24 * 60 * 60 * 1000"

definition GRACE_PERIOD_MS :: ms where
  "GRACE_PERIOD_MS = 7 * 24 * 60 * 60 * 1000"

definition handleCleanupKeys :: "string list \<Rightarrow> world \<Rightarrow> JobStatus \<times> world" where
  "handleCleanupKeys keys w =
    (if keys = [] then (JobStatus_Skipped, w) else (JobStatus_Success, deleteKeys keys w))"

definition handleCleanupPrefix :: "string \<Rightarrow> world \<Rightarrow> JobStatus \<times> world" where
  "handleCleanupPrefix p w = (JobStatus_Success, deletePrefix p w)"

text \<open>The worker of the storage-cleanup queue on one job.\<close>

fun run_cleanup :: "JobItem \<Rightarrow> world \<Rightarrow> world" where
  "run_cleanup (CleanupKeys ks) w = snd (handleCleanupKeys ks w)"
| "run_cleanup (CleanupPrefix p) w = snd (handleCleanupPrefix p w)"
| "run_cleanup _ w = w"

section \<open>The staging folder\<close>

record staging_fs =
  fs_readdir :: "string list option"
  fs_stat :: "string \<Rightarrow> (bool \<times> ms) option"      \<comment> \<open>is a plain file, \<^verbatim>\<open>mtimeMs\<close>\<close>
  fs_unlink_ok :: "string \<Rightarrow> bool"

definition path_join :: "string \<Rightarrow> string \<Rightarrow> string" where
  "path_join folder entry = folder @ ''/'' @ entry"

definition is_stale :: "staging_fs \<Rightarrow> ms \<Rightarrow> string \<Rightarrow> bool" where
  "is_stale fs cutoff path \<longleftrightarrow>
     (case fs_stat fs path of None \<Rightarrow> False | Some (isFile, mtime) \<Rightarrow> isFile \<and> mtime < cutoff) \<and> fs_unlink_ok fs path"

fun staging_loop :: "staging_fs \<Rightarrow> string \<Rightarrow> ms \<Rightarrow> string list \<Rightarrow> nat \<Rightarrow> world \<Rightarrow> nat \<times> world" where
  "staging_loop fs folder cutoff [] removed w = (removed, w)"
| "staging_loop fs folder cutoff (entry # es) removed w =
    (let path = path_join folder entry
     in if is_stale fs cutoff path
        then staging_loop fs folder cutoff es (removed + 1) (w\<lparr>staging := removeAll path (staging w)\<rparr>)
        else staging_loop fs folder cutoff es removed w)"

definition handleStagingSweep :: "staging_fs \<Rightarrow> string \<Rightarrow> ms \<Rightarrow> world \<Rightarrow> JobStatus \<times> world" where
  "handleStagingSweep fs folder now w =
    (case fs_readdir fs of
       None \<Rightarrow> (JobStatus_Skipped, w)
     | Some entries \<Rightarrow>
        (JobStatus_Success, snd (staging_loop fs folder (now - STAGING_MAX_AGE_MS) entries 0 w)))"

section \<open>Dead credentials\<close>

definition handleSessionCleanup :: "ms \<Rightarrow> world \<Rightarrow> JobStatus \<times> world" where
  "handleSessionCleanup now w =
    (let (deleted, w1) = session_deleteExpired now w; (tokens, w2) = reset_deleteExpired now w1
     in (JobStatus_Success, w2))"

section \<open>Nightly reconciliation\<close>

definition past_grace :: "ms \<Rightarrow> ms option \<Rightarrow> bool" where
  "past_grace cutoff deletedAt \<longleftrightarrow> (case deletedAt of None \<Rightarrow> False | Some t \<Rightarrow> t < cutoff)"

definition asset_keys :: "world \<Rightarrow> asset_row \<Rightarrow> string list" where
  "asset_keys w a =
    a_storageKey a # map af_storageKey (filter (\<lambda>f. af_assetId f = a_id a) (assetFiles w))"

text \<open>What is queued before anything is deleted: the keys of single assets, then one prefix per event.\<close>

definition reconcile_queue :: "event_row list \<Rightarrow> asset_row list \<Rightarrow> world \<Rightarrow> world" where
  "reconcile_queue evs asts w =
    (let prefixes = map (\<lambda>e. ''org/'' @ e_orgId e @ ''/event/'' @ e_id e @ ''/'') evs;
         keys = concat (map (asset_keys w) asts);
         w1 = (if keys \<noteq> [] then queue (CleanupKeys keys) w else w)
     in queueAll (map CleanupPrefix prefixes) w1)"

definition reconcile_delete :: "ms \<Rightarrow> event_row list \<Rightarrow> asset_row list \<Rightarrow> world \<Rightarrow> world" where
  "reconcile_delete cutoff evs asts w =
    (let w1 = (if asts \<noteq> [] then asset_cascade (map a_id asts) w else w);
         w2 = (if evs \<noteq> [] then event_cascade (map e_id evs) w1 else w1)
     in participant_cascade
          (map pt_id (filter (\<lambda>p. past_grace cutoff (pt_deletedAt p)) (participants w2))) w2)"

definition handleStorageReconcile :: "ms \<Rightarrow> world \<Rightarrow> JobStatus \<times> world" where
  "handleStorageReconcile now w =
    (let cutoff = now - GRACE_PERIOD_MS;
         evs = filter (\<lambda>e. past_grace cutoff (e_deletedAt e)) (events w);
         asts = filter (\<lambda>a. past_grace cutoff (a_deletedAt a)) (assets w)
     in (JobStatus_Success, reconcile_delete cutoff evs asts (reconcile_queue evs asts w)))"

section \<open>Sessions and reset links survive the sweep\<close>

lemma select_first_delete_dead:
  assumes "\<And>r. r \<in> set rs \<Longrightarrow> p r \<Longrightarrow> \<not> q r"
  shows "select_first p (delete_where q rs) = select_first p rs"
  unfolding select_first_delete_where by (rule select_first_cong) (use assms in blast)

text \<open>
  Clearing dead credentials is invisible: no session that still authenticates and no reset link
  that can still be redeemed is lost, while every row past its expiry is gone.
\<close>

theorem credential_sweep_is_invisible:
  assumes "handleSessionCleanup now w = (st, w')"
  shows "session_getByToken h now w' = session_getByToken h now w
    \<and> fst (reset_redeem h now w') = fst (reset_redeem h now w)
    \<and> sessions w' = filter (\<lambda>s. \<not> past_grace now (s_expiresAt s)) (sessions w)
    \<and> passwordResetTokens w' = filter (\<lambda>r. now \<le> rt_expiresAt r) (passwordResetTokens w)"
proof (intro conjI)
  have w': "w' = w\<lparr>sessions := delete_where (\<lambda>s. case s_expiresAt s of None \<Rightarrow> False | Some t \<Rightarrow> t < now) (sessions w),
      passwordResetTokens := delete_where (\<lambda>r. rt_expiresAt r < now) (passwordResetTokens w)\<rparr>"
    using assms by (auto simp: handleSessionCleanup_def session_deleteExpired_def reset_deleteExpired_def Let_def)
  have users: "user_getById i w' = user_getById i w" for i by (simp add: user_getById_def w')
  have "select_first (\<lambda>s. s_token s = h \<and> session_live now s) (sessions w')
      = select_first (\<lambda>s. s_token s = h \<and> session_live now s) (sessions w)"
    unfolding w' by (simp, rule select_first_delete_dead) (auto simp: session_live_def split: option.splits)
  then show "session_getByToken h now w' = session_getByToken h now w"
    unfolding session_getByToken_def users by simp
  have "select_first (reset_redeemable h now) (passwordResetTokens w')
      = select_first (reset_redeemable h now) (passwordResetTokens w)"
    unfolding w' by (simp, rule select_first_delete_dead) (auto simp: reset_redeemable_def)
  then show "fst (reset_redeem h now w') = fst (reset_redeem h now w)"
    by (simp add: reset_redeem_def)
  show "sessions w' = filter (\<lambda>s. \<not> past_grace now (s_expiresAt s)) (sessions w)"
    by (simp add: w' delete_where_def past_grace_def)
  show "passwordResetTokens w' = filter (\<lambda>r. now \<le> rt_expiresAt r) (passwordResetTokens w)"
    by (simp add: w' delete_where_def not_less)
qed

definition wit_sessions_world :: world where
  "wit_sessions_world = empty_world\<lparr>sessions :=
     [\<lparr>s_id = ''s1'', s_userId = ''u'', s_token = ''old'', s_deviceOs = '''', s_deviceType = '''', s_expiresAt = Some 10\<rparr>,
      \<lparr>s_id = ''s2'', s_userId = ''u'', s_token = ''new'', s_deviceOs = '''', s_deviceType = '''', s_expiresAt = Some 99\<rparr>]\<rparr>"

theorem credential_sweep_is_invisible_witness:
  "map s_id (sessions (snd (handleSessionCleanup 50 wit_sessions_world))) = [''s2'']"
proof -
  have "sessions (snd (handleSessionCleanup 50 wit_sessions_world))
      = filter (\<lambda>s. \<not> past_grace 50 (s_expiresAt s)) (sessions wit_sessions_world)"
    using credential_sweep_is_invisible [OF prod.collapse [symmetric]] by blast
  then show ?thesis by (simp add: wit_sessions_world_def past_grace_def)
qed

section \<open>Reconciliation\<close>

text \<open>Every media key lies under its own event's prefix, and no two assets share a key.\<close>

definition keys_wf :: "world \<Rightarrow> bool" where
  "keys_wf w \<longleftrightarrow>
     (\<forall>a \<in> set (assets w). \<forall>e \<in> set (events w). e_id e = a_eventId a \<longrightarrow>
        (\<forall>k \<in> set (asset_keys w a). prefix (eventPrefix (e_orgId e) (e_id e)) k)) \<and>
     (\<forall>a \<in> set (assets w). \<forall>b \<in> set (assets w). a \<noteq> b \<longrightarrow> set (asset_keys w a) \<inter> set (asset_keys w b) = {}) \<and>
     (\<forall>a \<in> set (assets w). \<exists>e \<in> set (events w). e_id e = a_eventId a) \<and>
     (\<forall>e \<in> set (events w). no_slash (e_orgId e) \<and> no_slash (e_id e))"

definition asset_expired :: "ms \<Rightarrow> world \<Rightarrow> asset_row \<Rightarrow> bool" where
  "asset_expired cutoff w a \<longleftrightarrow> past_grace cutoff (a_deletedAt a) \<or>
     (\<exists>e \<in> set (events w). e_id e = a_eventId a \<and> past_grace cutoff (e_deletedAt e))"

lemma run_cleanup_prefixes:
  "objects (fold run_cleanup (map CleanupPrefix ps) w) = filter (\<lambda>k. \<forall>p \<in> set ps. \<not> prefix p k) (objects w)"
proof (induction ps arbitrary: w)
  case (Cons p ps)
  then show ?case
    by (simp add: handleCleanupPrefix_def deletePrefix_def conj_commute)
qed simp

definition reconcile_jobs :: "string list \<Rightarrow> string list \<Rightarrow> JobItem list" where
  "reconcile_jobs ks ps = (if ks \<noteq> [] then [CleanupKeys ks] else []) @ map CleanupPrefix ps"

abbreviation past_events :: "ms \<Rightarrow> world \<Rightarrow> event_row list" where
  "past_events cutoff w \<equiv> filter (\<lambda>e. past_grace cutoff (e_deletedAt e)) (events w)"

abbreviation past_assets :: "ms \<Rightarrow> world \<Rightarrow> asset_row list" where
  "past_assets cutoff w \<equiv> filter (\<lambda>a. past_grace cutoff (a_deletedAt a)) (assets w)"

lemma reconcile_queue_jobs:
  "reconcile_queue evs asts w = queueAll
     (reconcile_jobs (concat (map (asset_keys w) asts)) (map (\<lambda>e. eventPrefix (e_orgId e) (e_id e)) evs)) w"
  by (simp add: reconcile_queue_def reconcile_jobs_def queueAll_def eventPrefix_def)

lemma reconcile_delete_frames:
  "queued (reconcile_delete cutoff evs asts w) = queued w" "objects (reconcile_delete cutoff evs asts w) = objects w"
  by (simp_all add: reconcile_delete_def Let_def)

lemma run_reconcile_jobs:
  "set (objects (fold run_cleanup (reconcile_jobs ks ps) w)) =
    {k \<in> set (objects w). k \<notin> set ks \<and> (\<forall>p \<in> set ps. \<not> prefix p k)}"
  by (cases "ks = []") (auto simp: run_cleanup_prefixes reconcile_jobs_def handleCleanupKeys_def deleteKeys_def)

lemma reconcile_world:
  assumes "handleStorageReconcile now w = (st, w')"
  shows "w' = reconcile_delete (now - GRACE_PERIOD_MS) (past_events (now - GRACE_PERIOD_MS) w) (past_assets (now - GRACE_PERIOD_MS) w)
    (queueAll (reconcile_jobs (concat (map (asset_keys w) (past_assets (now - GRACE_PERIOD_MS) w)))
       (map (\<lambda>e. eventPrefix (e_orgId e) (e_id e)) (past_events (now - GRACE_PERIOD_MS) w))) w)"
  using assms unfolding handleStorageReconcile_def Let_def reconcile_queue_jobs prod.inject by blast

lemma reconcile_objects:
  assumes "handleStorageReconcile now w = (st, w')" "cutoff = now - GRACE_PERIOD_MS"
  shows "set (objects (fold run_cleanup (drop (length (queued w)) (queued w')) w')) =
    {k \<in> set (objects w). (\<forall>a \<in> set (assets w). past_grace cutoff (a_deletedAt a) \<longrightarrow> k \<notin> set (asset_keys w a)) \<and>
       (\<forall>e \<in> set (events w). past_grace cutoff (e_deletedAt e) \<longrightarrow> \<not> prefix (eventPrefix (e_orgId e) (e_id e)) k)}"
proof -
  note w' = reconcile_world [OF assms(1), folded assms(2)]
  let ?js = "reconcile_jobs (concat (map (asset_keys w) (past_assets cutoff w)))
       (map (\<lambda>e. eventPrefix (e_orgId e) (e_id e)) (past_events cutoff w))"
  have o: "objects w' = objects w" unfolding w' reconcile_delete_frames by (simp add: queueAll_def)
  have "queued w' = queued w @ ?js" unfolding w' reconcile_delete_frames by (simp only: queued_queueAll)
  then have j: "drop (length (queued w)) (queued w') = ?js" by simp
  show ?thesis unfolding j run_reconcile_jobs o by auto
qed

text \<open>The rows that stay.\<close>

lemma event_cascade_rows:
  "map e_id (events (event_cascade ids w)) = filter (\<lambda>i. i \<notin> set ids) (map e_id (events w))"
  "assets (event_cascade ids w) =
     delete_where (\<lambda>a. a_id a \<in> set (map a_id (filter (\<lambda>a. a_eventId a \<in> set ids) (assets w)))) (assets w)"
  by (simp_all add: event_cascade_def asset_cascade_def participant_cascade_def Let_def delete_where_def filter_map comp_def)

lemma asset_cascade_rows:
  "map e_id (events (asset_cascade ids w)) = map e_id (events w)"
  "assets (asset_cascade ids w) = delete_where (\<lambda>a. a_id a \<in> set ids) (assets w)"
  by (simp_all add: asset_cascade_def Let_def comp_def)

lemma reconcile_rows:
  assumes "handleStorageReconcile now w = (st, w')" "cutoff = now - GRACE_PERIOD_MS"
    and "distinct (map a_id (assets w))" "distinct (map e_id (events w))"
  shows "map e_id (events w') = map e_id (filter (\<lambda>e. \<not> past_grace cutoff (e_deletedAt e)) (events w))"
    and "assets w' = filter (\<lambda>a. \<not> asset_expired cutoff w a) (assets w)"
proof -
  define v where "v = queueAll (reconcile_jobs (concat (map (asset_keys w) (past_assets cutoff w)))
       (map (\<lambda>e. eventPrefix (e_orgId e) (e_id e)) (past_events cutoff w))) w"
  have v: "events v = events w" "assets v = assets w" by (simp_all add: v_def queueAll_def)
  define v1 where "v1 = (if past_assets cutoff w \<noteq> [] then asset_cascade (map a_id (past_assets cutoff w)) v else v)"
  define v2 where "v2 = (if past_events cutoff w \<noteq> [] then event_cascade (map e_id (past_events cutoff w)) v1 else v1)"
  have w': "events w' = events v2" "assets w' = assets v2"
    unfolding reconcile_world [OF assms(1), folded assms(2), folded v_def] reconcile_delete_def Let_def
      v1_def [symmetric] v2_def [symmetric] by simp_all
  have a1: "assets v1 = filter (\<lambda>a. \<not> past_grace cutoff (a_deletedAt a)) (assets w)"
  proof (cases "past_assets cutoff w = []")
    case True
    then show ?thesis by (simp add: v1_def v filter_empty_conv)
  next
    case False
    then have "assets v1 = delete_where (\<lambda>a. a_id a \<in> set (map a_id (past_assets cutoff w))) (assets w)"
      unfolding v1_def by (simp only: if_True not_False_eq_True asset_cascade_rows v)
    then show ?thesis by (simp only: delete_where_ids [OF assms(3) refl])
  qed
  have e1: "map e_id (events v1) = map e_id (events w)" by (simp add: v1_def asset_cascade_rows v)
  have dead: "e_id e \<in> set (map e_id (past_events cutoff w)) \<longleftrightarrow> past_grace cutoff (e_deletedAt e)"
    if "e \<in> set (events w)" for e
    using assms(4) that by (auto simp: distinct_map inj_on_def)
  have e2: "map e_id (events v2) = filter (\<lambda>i. i \<notin> set (map e_id (past_events cutoff w))) (map e_id (events w))"
    by (cases "past_events cutoff w = []") (simp_all add: v2_def e1 event_cascade_rows)
  show "map e_id (events w') = map e_id (filter (\<lambda>e. \<not> past_grace cutoff (e_deletedAt e)) (events w))"
    unfolding w' e2 filter_map comp_def by (rule arg_cong [of _ _ "map e_id"], rule filter_cong) (use dead in auto)
  have d1: "distinct (map a_id (assets v1))" unfolding a1 using assms(3) by (rule distinct_map_filter)
  have a2: "assets v2 = filter (\<lambda>a. a_eventId a \<notin> set (map e_id (past_events cutoff w))) (assets v1)"
  proof (cases "past_events cutoff w = []")
    case True
    then show ?thesis by (simp add: v2_def)
  next
    case False
    then show ?thesis unfolding v2_def
      by (simp only: if_True not_False_eq_True event_cascade_rows(2) delete_where_ids [OF d1 refl])
  qed
  show "assets w' = filter (\<lambda>a. \<not> asset_expired cutoff w a) (assets w)"
    unfolding w' a2 a1 filter_filter asset_expired_def by (rule filter_cong) (auto simp: image_iff)
qed


definition wit_reconcile_world :: world where
  "wit_reconcile_world = wit_photo_world\<lparr>assets := [wit_photo\<lparr>a_deletedAt := Some 0\<rparr>]\<rparr>"


section \<open>Staging\<close>

lemma staging_loop_result:
  "staging (snd (staging_loop fs folder cutoff es n w)) =
     filter (\<lambda>p. \<not> (is_stale fs cutoff p \<and> p \<in> path_join folder ` set es)) (staging w) \<and>
   fst (staging_loop fs folder cutoff es n w) = n + length (filter (\<lambda>e. is_stale fs cutoff (path_join folder e)) es)"
proof (induction es arbitrary: n w)
  case (Cons x es)
  then show ?case
    by (simp add: Let_def removeAll_filter_not_eq) (auto intro!: filter_cong)
qed simp

text \<open>
  The staging sweep removes exactly the plain files of the staging folder that are older than
  24 hours (and can be unlinked): an upload in flight, a directory and anything outside the folder
  are left alone.
\<close>

theorem staging_sweep_removes_exactly_stale_files:
  assumes "handleStagingSweep fs folder now w = (st, w')"
  shows "staging w' = filter (\<lambda>p. \<not> (\<exists>es. fs_readdir fs = Some es \<and> p \<in> path_join folder ` set es
    \<and> is_stale fs (now - 24 * 60 * 60 * 1000) p)) (staging w)"
proof (cases "fs_readdir fs")
  case None
  with assms show ?thesis by (simp add: handleStagingSweep_def)
next
  case (Some es)
  with assms staging_loop_result [of fs folder "now - STAGING_MAX_AGE_MS" es 0 w] show ?thesis
    by (auto simp: handleStagingSweep_def STAGING_MAX_AGE_MS_def intro!: filter_cong)
qed

definition wit_fs :: staging_fs where
  "wit_fs = \<lparr>fs_readdir = Some [''old'', ''new''],
     fs_stat = (\<lambda>p. if p = ''/s/old'' then Some (True, 0) else Some (True, 99999999)), fs_unlink_ok = (\<lambda>_. True)\<rparr>"

theorem staging_sweep_removes_exactly_stale_files_witness:
  "staging (snd (handleStagingSweep wit_fs ''/s'' 100000000 (empty_world\<lparr>staging := [''/s/old'', ''/s/new'', ''/t/old'']\<rparr>)))
     = [''/s/new'', ''/t/old'']"
  unfolding staging_sweep_removes_exactly_stale_files [OF prod.collapse [symmetric]]
  by (simp add: wit_fs_def path_join_def is_stale_def)

end
