(* ===== verification/Cloud.thy ===== *)
theory Cloud
  imports Repositories "HOL-Library.Countable"
begin

text \<open>
  \<^verbatim>\<open>services/cipher.service.ts\<close>, \<^verbatim>\<open>services/cloud.service.ts\<close> and
  \<^verbatim>\<open>repositories/cloud-account.repository.ts\<close>: the connected Drive and OneDrive accounts.

  The AES-GCM primitive, the JSON and base64url codecs and the providers' HTTP clients are
  arguments (\<open>cipher\<close>, \<open>provider_client\<close>); \<open>cipher_ok\<close> is the round-trip law of the codecs.
  A provider call either answers or throws; the rate-limit exception is kept apart because the
  import handlers treat it differently.
\<close>

section \<open>The cipher\<close>

record 'p cipher =
  aes_encrypt :: "string \<Rightarrow> string"
  aes_decrypt :: "string \<Rightarrow> string option"
  json_stringify :: "'p \<Rightarrow> string"
  json_parse :: "string \<Rightarrow> 'p option"
  base64url :: "string \<Rightarrow> string"
  base64url_decode :: "string \<Rightarrow> string"

definition encryptState :: "'p cipher \<Rightarrow> 'p \<Rightarrow> string" where
  "encryptState c payload = base64url c (aes_encrypt c (json_stringify c payload))"

definition decryptState :: "'p cipher \<Rightarrow> string \<Rightarrow> 'p option" where
  "decryptState c state =
    (case aes_decrypt c (base64url_decode c state) of None \<Rightarrow> None | Some text \<Rightarrow> json_parse c text)"

definition cipher_ok :: "'p cipher \<Rightarrow> bool" where
  "cipher_ok c \<longleftrightarrow> (\<forall>x. aes_decrypt c (aes_encrypt c x) = Some x) \<and>
     (\<forall>p. json_parse c (json_stringify c p) = Some p) \<and> (\<forall>x. base64url_decode c (base64url c x) = x)"

lemma decrypt_encryptState: "cipher_ok c \<Longrightarrow> decryptState c (encryptState c p) = Some p"
  by (simp add: cipher_ok_def decryptState_def encryptState_def)

section \<open>Providers\<close>

datatype thrown = ProviderRateLimit ms | Thrown http_error

record OAuthTokens =
  tk_accessToken :: string
  tk_refreshToken :: "string option"
  tk_expiresInSec :: int

record RemoteFile =
  rf_id :: string
  rf_name :: string
  rf_size :: "bytes option"
  rf_checksum :: "string option"
  rf_mimeType :: string

record RemoteListingPage =
  lp_files :: "RemoteFile list"
  lp_subfolderIds :: "string list"
  lp_nextPageToken :: "string option"

record RemoteFolder =
  rd_id :: string
  rd_name :: string
  rd_hasChildren :: bool

text \<open>A download yields the file's SHA-1 and size, which the handler reads back from staging.\<close>

record provider_client =
  pc_exchangeCode :: "string \<Rightarrow> string \<Rightarrow> thrown + OAuthTokens"
  pc_refresh :: "string \<Rightarrow> thrown + OAuthTokens"
  pc_getAccountEmail :: "string \<Rightarrow> thrown + string"
  pc_listFolders :: "string \<Rightarrow> string option \<Rightarrow> thrown + RemoteFolder list"
  pc_listFilesPage :: "string \<Rightarrow> string \<Rightarrow> string option \<Rightarrow> thrown + RemoteListingPage"
  pc_downloadToFile :: "string \<Rightarrow> string \<Rightarrow> thrown + (string \<times> bytes)"

type_synonym registry = "CloudProvider \<Rightarrow> provider_client option"

definition registry_get :: "registry \<Rightarrow> CloudProvider \<Rightarrow> thrown + provider_client" where
  "registry_get reg p =
    (case reg p of None \<Rightarrow> Inl (Thrown (BadRequest ''provider is not configured'')) | Some c \<Rightarrow> Inr c)"

section \<open>Accounts\<close>

definition account_getById :: "uuid \<Rightarrow> uuid \<Rightarrow> world \<Rightarrow> cloudaccount_row option" where
  [repo_defs]: "account_getById org i w =
     select_first (\<lambda>a. ca_id a = i \<and> ca_orgId a = org \<and> ca_revokedAt a = None) (cloudAccounts w)"

text \<open>Newest first; rows are appended, so the order of creation is the order of the list.\<close>

definition account_listByOrg :: "uuid \<Rightarrow> world \<Rightarrow> cloudaccount_row list" where
  [repo_defs]: "account_listByOrg org w =
     rev (filter (\<lambda>a. ca_orgId a = org \<and> ca_revokedAt a = None) (cloudAccounts w))"

text \<open>\<^verbatim>\<open>INSERT .. ON CONFLICT (org_id, provider, account_email) DO UPDATE\<close>: reconnecting clears the revocation.\<close>

definition same_account :: "cloudaccount_row \<Rightarrow> cloudaccount_row \<Rightarrow> bool" where
  "same_account x a \<longleftrightarrow> ca_orgId x = ca_orgId a \<and> ca_provider x = ca_provider a \<and>
     citext_eq (ca_accountEmail x) (ca_accountEmail a)"

definition account_upsert :: "cloudaccount_row \<Rightarrow> world \<Rightarrow> world" where
  [repo_defs]: "account_upsert a w =
     (if \<exists>x \<in> set (cloudAccounts w). same_account x a
      then w\<lparr>cloudAccounts := update_where (\<lambda>x. same_account x a)
               (\<lambda>x. x\<lparr>ca_refreshTokenEnc := ca_refreshTokenEnc a, ca_accessTokenEnc := ca_accessTokenEnc a,
                      ca_tokenExpiresAt := ca_tokenExpiresAt a, ca_revokedAt := None\<rparr>) (cloudAccounts w)\<rparr>
      else w\<lparr>cloudAccounts := cloudAccounts w @ [a]\<rparr>)"

definition account_updateAccessToken :: "uuid \<Rightarrow> string \<Rightarrow> ms \<Rightarrow> world \<Rightarrow> world" where
  [repo_defs]: "account_updateAccessToken i tok t w =
     w\<lparr>cloudAccounts := update_where (\<lambda>a. ca_id a = i)
         (\<lambda>a. a\<lparr>ca_accessTokenEnc := Some tok, ca_tokenExpiresAt := Some t\<rparr>) (cloudAccounts w)\<rparr>"

definition account_markRevoked :: "uuid \<Rightarrow> ms \<Rightarrow> world \<Rightarrow> world" where
  [repo_defs]: "account_markRevoked i now w =
     w\<lparr>cloudAccounts := update_where (\<lambda>a. ca_id a = i) (\<lambda>a. a\<lparr>ca_revokedAt := Some now\<rparr>) (cloudAccounts w)\<rparr>"

interpretation account_token: row_update ca_id "\<lambda>a. a\<lparr>ca_accessTokenEnc := x, ca_tokenExpiresAt := t\<rparr>" for x t
  by unfold_locales simp

interpretation account_revoked: row_update ca_id "\<lambda>a. a\<lparr>ca_revokedAt := Some now\<rparr>" for now
  by unfold_locales simp

section \<open>Connecting\<close>

definition STATE_TTL_MS :: ms where
  "STATE_TTL_MS = 10 * 60 * 1000"

definition TOKEN_EXPIRY_MARGIN_MS :: ms where
  "TOKEN_EXPIRY_MARGIN_MS = 60000"

record OAuthState =
  os_orgId :: uuid
  os_userId :: uuid
  os_provider :: CloudProvider
  os_exp :: ms
  os_nonce :: string

definition strip_slash :: "string \<Rightarrow> string" where
  "strip_slash s = (if s \<noteq> [] \<and> last s = CHR ''/'' then butlast s else s)"

fun provider_text :: "CloudProvider \<Rightarrow> string" where
  "provider_text CloudProvider_GDrive = ''gdrive''"
| "provider_text CloudProvider_OneDrive = ''onedrive''"

definition redirectUri :: "string \<Rightarrow> CloudProvider \<Rightarrow> string" where
  "redirectUri base p = strip_slash base @ ''/api/cloud/'' @ provider_text p @ ''/callback''"

text \<open>The state blob that goes into the provider's authorize URL.\<close>

definition authorize_state :: "OAuthState cipher \<Rightarrow> string \<Rightarrow> uuid \<Rightarrow> uuid \<Rightarrow> CloudProvider \<Rightarrow> ms \<Rightarrow> string" where
  "authorize_state c nonce org user p now =
    encryptState c \<lparr>os_orgId = org, os_userId = user, os_provider = p, os_exp = now + STATE_TTL_MS, os_nonce = nonce\<rparr>"

definition getAuthorizeUrl ::
  "OAuthState cipher \<Rightarrow> registry \<Rightarrow> string \<Rightarrow> string \<Rightarrow> uuid \<Rightarrow> uuid \<Rightarrow> CloudProvider \<Rightarrow> ms \<Rightarrow> thrown + (string \<times> string)" where
  "getAuthorizeUrl c reg base nonce org user p now =
    (case registry_get reg p of
       Inl e \<Rightarrow> Inl e
     | Inr _ \<Rightarrow> Inr (redirectUri base p, authorize_state c nonce org user p now))"

definition connected_row ::
  "'p cipher \<Rightarrow> uuid \<Rightarrow> uuid \<Rightarrow> CloudProvider \<Rightarrow> string \<Rightarrow> string \<Rightarrow> OAuthTokens \<Rightarrow> ms \<Rightarrow> cloudaccount_row" where
  "connected_row c newId org p email refresh tokens now =
    \<lparr>ca_id = newId, ca_orgId = org, ca_provider = p, ca_accountEmail = email,
     ca_refreshTokenEnc = aes_encrypt c refresh,
     ca_accessTokenEnc = Some (aes_encrypt c (tk_accessToken tokens)),
     ca_tokenExpiresAt = Some (now + tk_expiresInSec tokens * 1000), ca_revokedAt = None\<rparr>"

definition handleCallback ::
  "OAuthState cipher \<Rightarrow> registry \<Rightarrow> string \<Rightarrow> uuid \<Rightarrow> CloudProvider \<Rightarrow> string \<Rightarrow> string \<Rightarrow> ms \<Rightarrow> world
     \<Rightarrow> (thrown + string) \<times> world" where
  "handleCallback c reg base newId p code stateRaw now w =
    (case decryptState c stateRaw of
       None \<Rightarrow> (Inl (Thrown (Unauthorized ''Invalid OAuth state'')), w)
     | Some state \<Rightarrow>
        if os_provider state \<noteq> p \<or> os_exp state < now
        then (Inl (Thrown (Unauthorized ''Expired OAuth state'')), w)
        else
    (case registry_get reg p of
       Inl e \<Rightarrow> (Inl e, w)
     | Inr client \<Rightarrow>
    (case pc_exchangeCode client code (redirectUri base p) of
       Inl e \<Rightarrow> (Inl e, w)
     | Inr tokens \<Rightarrow>
    (case tk_refreshToken tokens of
       None \<Rightarrow> (Inl (Thrown (BadRequest ''Provider did not return a refresh token'')), w)
     | Some refresh \<Rightarrow>
        if refresh = '''' then (Inl (Thrown (BadRequest ''Provider did not return a refresh token'')), w)
        else
    (case pc_getAccountEmail client (tk_accessToken tokens) of
       Inl e \<Rightarrow> (Inl e, w)
     | Inr email \<Rightarrow>
        (Inr (strip_slash base @ ''/settings/cloud-accounts?connected='' @ provider_text p),
         account_upsert (connected_row c newId (os_orgId state) p email refresh tokens now) w))))))"

definition listAccounts :: "uuid \<Rightarrow> world \<Rightarrow> (uuid \<times> CloudProvider \<times> string) list" where
  "listAccounts org w = map (\<lambda>a. (ca_id a, ca_provider a, ca_accountEmail a)) (account_listByOrg org w)"

definition disconnect :: "uuid \<Rightarrow> uuid \<Rightarrow> ms \<Rightarrow> world \<Rightarrow> unit outcome \<times> world" where
  "disconnect org i now w =
    (case account_getById org i w of
       None \<Rightarrow> (Inl (NotFound ''Cloud account not found''), w)
     | Some _ \<Rightarrow> (Inr (), account_markRevoked i now w))"

section \<open>Using an account\<close>

definition requireAccount :: "uuid \<Rightarrow> uuid \<Rightarrow> world \<Rightarrow> thrown + cloudaccount_row" where
  "requireAccount org i w =
    (case account_getById org i w of
       None \<Rightarrow> Inl (Thrown (NotFound ''Cloud account not found (disconnected?)'')) | Some a \<Rightarrow> Inr a)"

definition cached_token :: "cloudaccount_row \<Rightarrow> ms \<Rightarrow> string option" where
  "cached_token a now =
    (case (ca_accessTokenEnc a, ca_tokenExpiresAt a) of
       (Some enc, Some t) \<Rightarrow> if t > now + TOKEN_EXPIRY_MARGIN_MS then Some enc else None
     | _ \<Rightarrow> None)"

definition getFreshAccessToken ::
  "'p cipher \<Rightarrow> registry \<Rightarrow> cloudaccount_row \<Rightarrow> ms \<Rightarrow> world \<Rightarrow> (thrown + string) \<times> world" where
  "getFreshAccessToken c reg a now w =
    (case cached_token a now of
       Some enc \<Rightarrow>
         (case aes_decrypt c enc of
            None \<Rightarrow> (Inl (Thrown (ServerError ''decrypt'')), w) | Some tok \<Rightarrow> (Inr tok, w))
     | None \<Rightarrow>
    (case registry_get reg (ca_provider a) of
       Inl e \<Rightarrow> (Inl e, w)
     | Inr client \<Rightarrow>
    (case (case aes_decrypt c (ca_refreshTokenEnc a) of
             None \<Rightarrow> Inl (Thrown (ServerError ''decrypt'')) | Some r \<Rightarrow> pc_refresh client r) of
       Inl _ \<Rightarrow> (Inl (Thrown (Unauthorized ''access was revoked - reconnect the account'')),
                 account_markRevoked (ca_id a) now w)
     | Inr tokens \<Rightarrow>
         (Inr (tk_accessToken tokens),
          account_updateAccessToken (ca_id a) (aes_encrypt c (tk_accessToken tokens))
            (now + tk_expiresInSec tokens * 1000) w))))"

definition listFolders ::
  "'p cipher \<Rightarrow> registry \<Rightarrow> uuid \<Rightarrow> uuid \<Rightarrow> string option \<Rightarrow> ms \<Rightarrow> world \<Rightarrow> (thrown + RemoteFolder list) \<times> world" where
  "listFolders c reg org i parent now w =
    (case requireAccount org i w of
       Inl e \<Rightarrow> (Inl e, w)
     | Inr a \<Rightarrow>
    (case getFreshAccessToken c reg a now w of
       (Inl e, w1) \<Rightarrow> (Inl e, w1)
     | (Inr tok, w1) \<Rightarrow>
        (case registry_get reg (ca_provider a) of
           Inl e \<Rightarrow> (Inl e, w1)
         | Inr client \<Rightarrow> (pc_listFolders client tok parent, w1))))"

section \<open>The OAuth state binds the account to its organization\<close>

lemma account_upsert_new:
  "x \<in> set (cloudAccounts (account_upsert a w)) \<Longrightarrow> x \<notin> set (cloudAccounts w) \<Longrightarrow> ca_orgId x = ca_orgId a"
  by (auto simp: account_upsert_def set_update_where same_account_def split: if_splits)

lemma handleCallback_effect:
  assumes "handleCallback c reg base newId p code raw now w = (r, w')"
  shows "w' = w \<or> (\<exists>st email refresh tokens. decryptState c raw = Some st \<and> os_provider st = p \<and> now \<le> os_exp st
    \<and> w' = account_upsert (connected_row c newId (os_orgId st) p email refresh tokens now) w)"
  using assms by (auto simp: handleCallback_def not_less split: option.splits sum.splits if_splits)

text \<open>
  C38. A connection can only be made with a state this server issued for it: a callback for another
  provider or after ten minutes is refused and changes nothing, and whatever account row a callback
  adds or renews belongs to the organization the state was issued for.
\<close>

theorem oauth_callback_bound_to_state:
  assumes "cipher_ok c"
    and "handleCallback c reg base newId q code (authorize_state c nonce org user p issued) now w = (r, w')"
  shows "(q \<noteq> p \<or> issued + 10 * 60 * 1000 < now \<longrightarrow> r = Inl (Thrown (Unauthorized ''Expired OAuth state'')) \<and> w' = w)
    \<and> (\<forall>a \<in> set (cloudAccounts w') - set (cloudAccounts w). ca_orgId a = org)"
proof (intro conjI impI ballI)
  let ?st = "\<lparr>os_orgId = org, os_userId = user, os_provider = p, os_exp = issued + STATE_TTL_MS, os_nonce = nonce\<rparr>"
  have st: "decryptState c (authorize_state c nonce org user p issued) = Some ?st"
    unfolding authorize_state_def using assms(1) by (rule decrypt_encryptState)
  { assume "q \<noteq> p \<or> issued + 10 * 60 * 1000 < now"
    with st assms(2) show "r = Inl (Thrown (Unauthorized ''Expired OAuth state''))" "w' = w"
      by (auto simp: handleCallback_def STATE_TTL_MS_def) }
  fix a assume "a \<in> set (cloudAccounts w') - set (cloudAccounts w)"
  with handleCallback_effect [OF assms(2)] st show "ca_orgId a = org"
    by (auto dest: account_upsert_new simp: connected_row_def)
qed

section \<open>Revocation and caching\<close>

lemma account_getById_SomeD:
  "account_getById org i w = Some a \<Longrightarrow> a \<in> set (cloudAccounts w) \<and> ca_id a = i \<and> ca_orgId a = org \<and> ca_revokedAt a = None"
  unfolding account_getById_def by (drule select_first_SomeD) simp

lemma revoked_is_gone: "account_getById org i (account_markRevoked i now w) = None"
proof -
  have "select_first (\<lambda>a. ca_id a = i \<and> ca_orgId a = org \<and> ca_revokedAt a = None)
      (update_where (\<lambda>a. ca_id a = i) (\<lambda>a. a\<lparr>ca_revokedAt := Some now\<rparr>) as) = None" for as
    by (induction as) auto
  then show ?thesis by (simp add: account_getById_def account_markRevoked_def)
qed

lemma refreshed_account:
  assumes "account_getById org i w = Some a"
  shows "account_getById org i (account_updateAccessToken i tok t w) = Some (a\<lparr>ca_accessTokenEnc := Some tok, ca_tokenExpiresAt := Some t\<rparr>)"
  using assms account_getById_SomeD [OF assms]
  by (simp add: account_getById_def account_updateAccessToken_def select_first_update_where)

text \<open>
  Access tokens are refreshed lazily and safely: a refresh that fails, for whatever reason,
  revokes the account, and from then on it cannot be used; a refresh that succeeds with more than
  the one-minute margin is cached, so that using the account again right away returns the same token
  without asking the provider; and a call that neither refreshes nor fails leaves the state alone.
\<close>

theorem access_token_cached_or_revoked:
  assumes "cipher_ok c" "requireAccount org i w = Inr a" "getFreshAccessToken c reg a now w = (r, w')"
  shows "(\<forall>m. r = Inl (Thrown (Unauthorized m)) \<longrightarrow> requireAccount org i w' = Inl (Thrown (NotFound ''Cloud account not found (disconnected?)'')))
    \<and> (\<forall>tok tokens client refresh. r = Inr tok \<and> cached_token a now = None \<and> reg (ca_provider a) = Some client
         \<and> aes_decrypt c (ca_refreshTokenEnc a) = Some refresh \<and> pc_refresh client refresh = Inr tokens
         \<and> 60 < tk_expiresInSec tokens \<longrightarrow>
         (\<exists>a'. requireAccount org i w' = Inr a' \<and> getFreshAccessToken c (\<lambda>_. None) a' now w' = (Inr tok, w')))
    \<and> (cached_token a now \<noteq> None \<longrightarrow> w' = w)"
proof (intro conjI allI impI)
  from assms(2) have a: "account_getById org i w = Some a" by (simp add: requireAccount_def split: option.splits)
  then have i: "ca_id a = i" by (simp add: account_getById_SomeD)
  show "cached_token a now \<noteq> None \<Longrightarrow> w' = w"
    using assms(3) by (auto simp: getFreshAccessToken_def split: option.splits)
  { fix m assume r: "r = Inl (Thrown (Unauthorized m))"
    have "w' = account_markRevoked i now w"
      using assms(3) i unfolding r getFreshAccessToken_def registry_get_def
      by (auto split: option.splits sum.splits)
    then show "requireAccount org i w' = Inl (Thrown (NotFound ''Cloud account not found (disconnected?)''))"
      by (simp add: requireAccount_def revoked_is_gone) }
  fix tok tokens client refresh
  assume h: "r = Inr tok \<and> cached_token a now = None \<and> reg (ca_provider a) = Some client
         \<and> aes_decrypt c (ca_refreshTokenEnc a) = Some refresh \<and> pc_refresh client refresh = Inr tokens
         \<and> 60 < tk_expiresInSec tokens"
  then have w': "tok = tk_accessToken tokens"
    "w' = account_updateAccessToken i (aes_encrypt c tok) (now + tk_expiresInSec tokens * 1000) w"
    using assms(3) i by (auto simp: getFreshAccessToken_def registry_get_def)
  let ?a = "a\<lparr>ca_accessTokenEnc := Some (aes_encrypt c tok), ca_tokenExpiresAt := Some (now + tk_expiresInSec tokens * 1000)\<rparr>"
  have "account_getById org i w' = Some ?a" unfolding w'(2) by (rule refreshed_account [OF a])
  moreover have "cached_token ?a now = Some (aes_encrypt c tok)"
    using h by (simp add: cached_token_def TOKEN_EXPIRY_MARGIN_MS_def)
  then have "getFreshAccessToken c (\<lambda>_. None) ?a now w' = (Inr tok, w')"
    using assms(1) by (simp add: getFreshAccessToken_def cipher_ok_def)
  ultimately show "\<exists>a'. requireAccount org i w' = Inr a' \<and> getFreshAccessToken c (\<lambda>_. None) a' now w' = (Inr tok, w')"
    by (simp add: requireAccount_def)
qed

section \<open>A concrete cipher and provider\<close>

text \<open>The identity cipher satisfies the law, and so does one that counts the states.\<close>

definition wit_state_code :: "OAuthState \<Rightarrow> nat" where
  "wit_state_code st = to_nat (os_orgId st, os_userId st, os_provider st = CloudProvider_GDrive, os_exp st, os_nonce st)"

definition wit_state_of :: "nat \<Rightarrow> OAuthState" where
  "wit_state_of n = (case from_nat n of (org, user, g, x, nonce) \<Rightarrow>
     \<lparr>os_orgId = org, os_userId = user, os_provider = (if g then CloudProvider_GDrive else CloudProvider_OneDrive),
      os_exp = x, os_nonce = nonce\<rparr>)"

definition wit_state_cipher :: "OAuthState cipher" where
  "wit_state_cipher = \<lparr>aes_encrypt = (\<lambda>x. x), aes_decrypt = Some,
     json_stringify = (\<lambda>st. replicate (wit_state_code st) CHR ''1''), json_parse = (\<lambda>s. Some (wit_state_of (length s))),
     base64url = (\<lambda>x. x), base64url_decode = (\<lambda>x. x)\<rparr>"

lemma wit_state_cipher_ok: "cipher_ok wit_state_cipher"
proof -
  have "wit_state_of (wit_state_code st) = st" for st
    by (cases st, cases "os_provider st") (simp_all add: wit_state_of_def wit_state_code_def)
  then show ?thesis by (simp add: cipher_ok_def wit_state_cipher_def)
qed

definition wit_cipher :: "string cipher" where
  "wit_cipher = \<lparr>aes_encrypt = (\<lambda>x. x), aes_decrypt = Some, json_stringify = (\<lambda>x. x), json_parse = Some,
     base64url = (\<lambda>x. x), base64url_decode = (\<lambda>x. x)\<rparr>"

lemma wit_cipher_ok: "cipher_ok wit_cipher"
  by (simp add: cipher_ok_def wit_cipher_def)

definition wit_account :: cloudaccount_row where
  "wit_account = \<lparr>ca_id = ''ca'', ca_orgId = ''o'', ca_provider = CloudProvider_GDrive, ca_accountEmail = ''a@b.c'',
     ca_refreshTokenEnc = ''refresh'', ca_accessTokenEnc = None, ca_tokenExpiresAt = None, ca_revokedAt = None\<rparr>"

definition wit_client :: provider_client where
  "wit_client = \<lparr>pc_exchangeCode = (\<lambda>_ _. Inl (Thrown (BadRequest ''code''))),
     pc_refresh = (\<lambda>r. if r = ''refresh'' then Inr \<lparr>tk_accessToken = ''tok'', tk_refreshToken = None, tk_expiresInSec = 3600\<rparr>
                        else Inl (Thrown (BadRequest ''invalid_grant''))),
     pc_getAccountEmail = (\<lambda>_. Inr ''a@b.c''), pc_listFolders = (\<lambda>_ _. Inr []),
     pc_listFilesPage = (\<lambda>_ _ _. Inr \<lparr>lp_files = [], lp_subfolderIds = [], lp_nextPageToken = None\<rparr>),
     pc_downloadToFile = (\<lambda>_ _. Inr (''sha'', 1000))\<rparr>"

definition wit_registry :: registry where
  "wit_registry p = (if p = CloudProvider_GDrive then Some wit_client else None)"

theorem access_token_cached_or_revoked_witness:
  "\<exists>a'. requireAccount ''o'' ''ca'' (snd (getFreshAccessToken wit_cipher wit_registry wit_account 0 (empty_world\<lparr>cloudAccounts := [wit_account]\<rparr>))) = Inr a'"
proof -
  let ?w = "empty_world\<lparr>cloudAccounts := [wit_account]\<rparr>"
  have a: "requireAccount ''o'' ''ca'' ?w = Inr wit_account"
    by (simp add: requireAccount_def account_getById_def wit_account_def)
  have f: "fst (getFreshAccessToken wit_cipher wit_registry wit_account 0 ?w) = Inr ''tok''" "cached_token wit_account 0 = None"
    "wit_registry (ca_provider wit_account) = Some wit_client"
    "aes_decrypt wit_cipher (ca_refreshTokenEnc wit_account) = Some ''refresh''"
    "pc_refresh wit_client ''refresh'' = Inr \<lparr>tk_accessToken = ''tok'', tk_refreshToken = None, tk_expiresInSec = 3600\<rparr>"
    by (simp_all add: getFreshAccessToken_def cached_token_def registry_get_def wit_account_def wit_registry_def
        wit_client_def wit_cipher_def)
  show ?thesis
    using access_token_cached_or_revoked [OF wit_cipher_ok a prod.collapse [symmetric], of wit_registry 0] f by auto
qed

theorem oauth_callback_bound_to_state_witness:
  "fst (handleCallback wit_state_cipher wit_registry ''https://x'' ''ca'' CloudProvider_OneDrive ''code''
     (authorize_state wit_state_cipher ''n'' ''o'' ''u'' CloudProvider_GDrive 0) 5 empty_world)
   = Inl (Thrown (Unauthorized ''Expired OAuth state''))"
  using oauth_callback_bound_to_state [OF wit_state_cipher_ok prod.collapse [symmetric]]
  by (rule mp [OF conjunct1, THEN conjunct1]) simp

end
