(* ===== verification/Import.thy ===== *)
theory Import
  imports Cloud Upload
begin

text \<open>
  \<^verbatim>\<open>services/import.service.ts\<close> and \<^verbatim>\<open>repositories/import.repository.ts\<close>: the import job, its
  items and the two queue handlers. \<open>import_env\<close> holds what the handlers do not decide: the
  ids they draw, the cipher and the providers, whether R2 accepts a put and a compensating delete,
  and what others do to the shared state while a folder is being listed (\<open>ie_meanwhile\<close>, before
  the listing is closed) and between the duplicate check and the insert (\<open>ie_others\<close>). The
  listing loop has fuel, one unit per page: the remote folder graph may be cyclic.
\<close>

section \<open>The repository\<close>

record ImportDto =
  id_accountId :: uuid
  id_folderId :: string
  id_folderName :: string
  id_recursive :: bool

definition job_get :: "uuid \<Rightarrow> world \<Rightarrow> importjob_row option" where
  [repo_defs]: "job_get i w = select_first (\<lambda>j. ij_id j = i) (importJobs w)"

definition job_getScoped :: "uuid \<Rightarrow> uuid \<Rightarrow> world \<Rightarrow> importjob_row option" where
  [repo_defs]: "job_getScoped ev i w = select_first (\<lambda>j. ij_id j = i \<and> ij_eventId j = ev) (importJobs w)"

definition job_create :: "importjob_row \<Rightarrow> world \<Rightarrow> world" where
  [repo_defs]: "job_create j w = w\<lparr>importJobs := importJobs w @ [j]\<rparr>"

definition job_listByEvent :: "uuid \<Rightarrow> world \<Rightarrow> importjob_row list" where
  [repo_defs]: "job_listByEvent ev w =
     sort_key (\<lambda>j. - ij_createdAt j) (filter (\<lambda>j. ij_eventId j = ev) (importJobs w))"

definition job_update :: "uuid \<Rightarrow> (importjob_row \<Rightarrow> importjob_row) \<Rightarrow> world \<Rightarrow> world" where
  [repo_defs]: "job_update i f w = w\<lparr>importJobs := update_where (\<lambda>j. ij_id j = i) f (importJobs w)\<rparr>"

definition item_get :: "uuid \<Rightarrow> world \<Rightarrow> importitem_row option" where
  [repo_defs]: "item_get i w = select_first (\<lambda>x. ii_id x = i) (importItems w)"

definition getExistingByRemoteIds :: "uuid \<Rightarrow> CloudProvider \<Rightarrow> string list \<Rightarrow> world \<Rightarrow> importitem_row list" where
  [repo_defs]: "getExistingByRemoteIds ev p ids w =
     filter (\<lambda>x. ii_eventId x = ev \<and> ii_provider x = p \<and> ii_remoteId x \<in> set ids) (importItems w)"

text \<open>
  One multi-row \<^verbatim>\<open>INSERT\<close>: it fails as a whole when two rows, old or new, would share
  \<^verbatim>\<open>(event_id, provider, remote_id)\<close>, or when the import job is gone.
\<close>

definition item_key :: "importitem_row \<Rightarrow> uuid \<times> CloudProvider \<times> string" where
  "item_key x = (ii_eventId x, ii_provider x, ii_remoteId x)"

definition insertItems :: "importitem_row list \<Rightarrow> world \<Rightarrow> unit outcome \<times> world" where
  [repo_defs]: "insertItems xs w =
     (if xs = [] then (Inr (), w)
      else if \<not> distinct (map item_key xs) \<or> set (map item_key xs) \<inter> set (map item_key (importItems w)) \<noteq> {}
      then (Inl (ServerError ''import_item_event_id_provider_remote_id_key''), w)
      else if \<exists>x \<in> set xs. job_get (ii_importJobId x) w = None
      then (Inl (ServerError ''import_item_import_job_id_fkey''), w)
      else (Inr (), w\<lparr>importItems := importItems w @ xs\<rparr>))"

definition item_set :: "uuid \<Rightarrow> (importitem_row \<Rightarrow> importitem_row) \<Rightarrow> ms \<Rightarrow> world \<Rightarrow> world" where
  "item_set i f now w =
     w\<lparr>importItems := update_where (\<lambda>x. ii_id x = i) (\<lambda>x. (f x)\<lparr>ii_updatedAt := now\<rparr>) (importItems w)\<rparr>"

definition repointItem :: "uuid \<Rightarrow> uuid \<Rightarrow> (importitem_row \<Rightarrow> importitem_row) \<Rightarrow> ms \<Rightarrow> world \<Rightarrow> world" where
  [repo_defs]: "repointItem i job f now w = item_set i (\<lambda>x. f (x\<lparr>ii_importJobId := job\<rparr>)) now w"

definition markItem :: "uuid \<Rightarrow> (importitem_row \<Rightarrow> importitem_row) \<Rightarrow> ms \<Rightarrow> world \<Rightarrow> world" where
  [repo_defs]: "markItem i f now w = item_set i f now w"

definition pendingItemIds :: "uuid \<Rightarrow> world \<Rightarrow> uuid list" where
  [repo_defs]: "pendingItemIds job w =
     map ii_id (filter (\<lambda>x. ii_importJobId x = job \<and> ii_status x = ImportItemStatus_Pending) (importItems w))"

definition failedItems :: "uuid \<Rightarrow> world \<Rightarrow> (string \<times> string option) list" where
  [repo_defs]: "failedItems job w =
     map (\<lambda>x. (ii_remoteName x, ii_error x))
       (filter (\<lambda>x. ii_importJobId x = job \<and> ii_status x = ImportItemStatus_Failed) (importItems w))"

datatype counter = doneFiles | skippedFiles | failedFiles

fun bump :: "counter \<Rightarrow> importjob_row \<Rightarrow> importjob_row" where
  "bump doneFiles j = j\<lparr>ij_doneFiles := ij_doneFiles j + 1\<rparr>"
| "bump skippedFiles j = j\<lparr>ij_skippedFiles := ij_skippedFiles j + 1\<rparr>"
| "bump failedFiles j = j\<lparr>ij_failedFiles := ij_failedFiles j + 1\<rparr>"

definition item_open :: "uuid \<Rightarrow> importitem_row \<Rightarrow> bool" where
  "item_open job x \<longleftrightarrow> ii_importJobId x = job \<and>
     (ii_status x = ImportItemStatus_Pending \<or> ii_status x = ImportItemStatus_Downloading)"

definition bumpCounter :: "uuid \<Rightarrow> counter \<Rightarrow> world \<Rightarrow> bool \<times> world" where
  [repo_defs]: "bumpCounter job c w = (filter (item_open job) (importItems w) = [], job_update job (bump c) w)"

section \<open>The API\<close>

record import_env =
  ie_jobId :: uuid
  ie_itemId :: "string \<Rightarrow> uuid"
  ie_assetId :: uuid
  ie_cipher :: "OAuthState cipher"
  ie_registry :: registry
  ie_put_ok :: bool
  ie_delete_ok :: bool
  ie_meanwhile :: "world \<Rightarrow> world"
  ie_others :: "world \<Rightarrow> world"

record import_progress =
  ip_id :: uuid
  ip_provider :: CloudProvider
  ip_folderName :: string
  ip_status :: ImportJobStatus
  ip_totalFiles :: int
  ip_doneFiles :: int
  ip_skippedFiles :: int
  ip_failedFiles :: int
  ip_error :: "string option"
  ip_createdAt :: ms
  ip_finishedAt :: "ms option"

definition progressShape :: "importjob_row \<Rightarrow> import_progress" where
  "progressShape j =
    \<lparr>ip_id = ij_id j, ip_provider = ij_provider j, ip_folderName = ij_folderName j, ip_status = ij_status j,
     ip_totalFiles = ij_totalFiles j, ip_doneFiles = ij_doneFiles j, ip_skippedFiles = ij_skippedFiles j,
     ip_failedFiles = ij_failedFiles j, ip_error = ij_error j, ip_createdAt = ij_createdAt j,
     ip_finishedAt = ij_finishedAt j\<rparr>"

definition toProgress :: "uuid \<Rightarrow> world \<Rightarrow> (import_progress \<times> (string \<times> string option) list) option" where
  "toProgress i w = map_option (\<lambda>j. (progressShape j, failedItems i w)) (job_get i w)"

definition new_job :: "import_env \<Rightarrow> event_row \<Rightarrow> cloudaccount_row \<Rightarrow> ImportDto \<Rightarrow> uuid \<Rightarrow> ms \<Rightarrow> importjob_row" where
  "new_job env event account dto createdBy now =
    \<lparr>ij_id = ie_jobId env, ij_eventId = e_id event, ij_orgId = e_orgId event, ij_cloudAccountId = ca_id account,
     ij_provider = ca_provider account, ij_folderRemoteId = id_folderId dto, ij_folderName = id_folderName dto,
     ij_recursive = id_recursive dto, ij_status = ImportJobStatus_Listing, ij_totalFiles = 0, ij_doneFiles = 0,
     ij_skippedFiles = 0, ij_failedFiles = 0, ij_error = None, ij_createdBy = Some createdBy,
     ij_createdAt = now, ij_finishedAt = None\<rparr>"

definition createImport :: "import_env \<Rightarrow> uuid \<Rightarrow> ImportDto \<Rightarrow> uuid \<Rightarrow> ms \<Rightarrow> world
    \<Rightarrow> (thrown + (import_progress \<times> (string \<times> string option) list) option) \<times> world" where
  "createImport env ev dto createdBy now w =
    (case event_getById ev w of
       None \<Rightarrow> (Inl (Thrown (NotFound ''Event not found'')), w)
     | Some event \<Rightarrow>
    (case requireAccount (e_orgId event) (id_accountId dto) w of
       Inl e \<Rightarrow> (Inl e, w)
     | Inr account \<Rightarrow>
        let w1 = queue (ImportFolder (ie_jobId env)) (job_create (new_job env event account dto createdBy now) w)
        in (Inr (toProgress (ie_jobId env) w1), w1)))"

definition listByEvent :: "uuid \<Rightarrow> world \<Rightarrow> import_progress list" where
  "listByEvent ev w = map progressShape (job_listByEvent ev w)"

definition import_getProgress :: "uuid \<Rightarrow> uuid \<Rightarrow> world \<Rightarrow> (import_progress \<times> (string \<times> string option) list) option outcome" where
  "import_getProgress ev i w =
    (case job_getScoped ev i w of
       None \<Rightarrow> Inl (NotFound ''Import not found'') | Some j \<Rightarrow> Inr (toProgress (ij_id j) w))"

definition cancel :: "uuid \<Rightarrow> uuid \<Rightarrow> ms \<Rightarrow> world \<Rightarrow> unit outcome \<times> world" where
  "cancel ev i now w =
    (case job_getScoped ev i w of
       None \<Rightarrow> (Inl (NotFound ''Import not found''), w)
     | Some j \<Rightarrow>
        if ij_status j \<noteq> ImportJobStatus_Listing \<and> ij_status j \<noteq> ImportJobStatus_Importing
        then (Inl (BadRequest ''Import is already over''), w)
        else (Inr (), job_update i (\<lambda>j. j\<lparr>ij_status := ImportJobStatus_Cancelled, ij_finishedAt := Some now\<rparr>) w))"

section \<open>Listing a folder\<close>

definition importable :: "string \<Rightarrow> bool" where
  "importable mime \<longleftrightarrow> prefix ''image/'' mime \<or> prefix ''video/'' mime"

text \<open>Already synced with the same, known content.\<close>

definition unchanged :: "importitem_row \<Rightarrow> RemoteFile \<Rightarrow> bool" where
  "unchanged known f \<longleftrightarrow>
     (ii_status known = ImportItemStatus_Done \<or> ii_status known = ImportItemStatus_SkippedDuplicate)
     \<and> ii_remoteChecksum known = rf_checksum f \<and> rf_checksum f \<noteq> None"

definition new_item :: "import_env \<Rightarrow> importjob_row \<Rightarrow> RemoteFile \<Rightarrow> ms \<Rightarrow> importitem_row" where
  "new_item env job f now =
    \<lparr>ii_id = ie_itemId env (rf_id f), ii_importJobId = ij_id job, ii_eventId = ij_eventId job,
     ii_provider = ij_provider job, ii_remoteId = rf_id f, ii_remoteName = rf_name f, ii_remoteSize = rf_size f,
     ii_remoteChecksum = rf_checksum f, ii_status = ImportItemStatus_Pending, ii_assetId = None,
     ii_error = None, ii_updatedAt = now\<rparr>"

fun classify_files :: "import_env \<Rightarrow> importjob_row \<Rightarrow> ms \<Rightarrow> (string \<Rightarrow> importitem_row option) \<Rightarrow> RemoteFile list
    \<Rightarrow> importitem_row list \<Rightarrow> nat \<Rightarrow> world \<Rightarrow> importitem_row list \<times> nat \<times> world" where
  "classify_files env job now byRemoteId [] toInsert skipped w = (toInsert, skipped, w)"
| "classify_files env job now byRemoteId (f # fs) toInsert skipped w =
    (case byRemoteId (rf_id f) of
       None \<Rightarrow> classify_files env job now byRemoteId fs (toInsert @ [new_item env job f now]) skipped w
     | Some known \<Rightarrow>
        if unchanged known f
        then classify_files env job now byRemoteId fs toInsert (skipped + 1)
               (repointItem (ii_id known) (ij_id job) (\<lambda>x. x\<lparr>ii_status := ImportItemStatus_SkippedDuplicate\<rparr>) now w)
        else classify_files env job now byRemoteId fs toInsert skipped
               (repointItem (ii_id known) (ij_id job)
                  (\<lambda>x. x\<lparr>ii_status := ImportItemStatus_Pending, ii_remoteChecksum := rf_checksum f,
                         ii_remoteName := rf_name f, ii_remoteSize := rf_size f, ii_error := None\<rparr>) now w))"

definition upsertListingPage :: "import_env \<Rightarrow> importjob_row \<Rightarrow> RemoteFile list \<Rightarrow> ms \<Rightarrow> world
    \<Rightarrow> (nat \<times> nat) outcome \<times> world" where
  "upsertListingPage env job files now w =
    (if files = [] then (Inr (0, 0), w)
     else let existing = getExistingByRemoteIds (ij_eventId job) (ij_provider job) (map rf_id files) w;
              byRemoteId = map_of (rev (map (\<lambda>x. (ii_remoteId x, x)) existing));
              (toInsert, skipped, w1) = classify_files env job now byRemoteId files [] 0 w
          in (case insertItems toInsert w1 of
                (Inl e, w2) \<Rightarrow> (Inl e, w2)
              | (Inr _, w2) \<Rightarrow> (Inr (length files, skipped), w2)))"

text \<open>One page: resolve the account and its token, fetch the page, record its media files.\<close>

definition list_page :: "import_env \<Rightarrow> importjob_row \<Rightarrow> provider_client \<Rightarrow> string \<Rightarrow> string option \<Rightarrow> ms \<Rightarrow> world
    \<Rightarrow> (thrown + RemoteListingPage \<times> nat \<times> nat) \<times> world" where
  "list_page env job client folder tok now w =
    (case requireAccount (ij_orgId job) (ij_cloudAccountId job) w of
       Inl e \<Rightarrow> (Inl e, w)
     | Inr account \<Rightarrow>
    (case getFreshAccessToken (ie_cipher env) (ie_registry env) account now w of
       (Inl e, w1) \<Rightarrow> (Inl e, w1)
     | (Inr accessToken, w1) \<Rightarrow>
    (case pc_listFilesPage client accessToken folder tok of
       Inl e \<Rightarrow> (Inl e, w1)
     | Inr page \<Rightarrow>
        (case upsertListingPage env job (filter (\<lambda>f. importable (rf_mimeType f)) (lp_files page)) now w1 of
           (Inl e, w2) \<Rightarrow> (Inl (Thrown e), w2)
         | (Inr (l, s), w2) \<Rightarrow> (Inr (page, l, s), w2)))))"

definition has_token :: "string option \<Rightarrow> bool" where
  "has_token x \<longleftrightarrow> (case x of None \<Rightarrow> False | Some s \<Rightarrow> s \<noteq> '''')"

text \<open>\<^verbatim>\<open>None\<close>: the fuel ran out, the listing is still going.\<close>

fun list_loop :: "import_env \<Rightarrow> importjob_row \<Rightarrow> provider_client \<Rightarrow> ms \<Rightarrow> nat \<Rightarrow> string \<Rightarrow> string option \<Rightarrow> string list
    \<Rightarrow> nat \<Rightarrow> nat \<Rightarrow> world \<Rightarrow> ((thrown + nat \<times> nat) \<times> world) option" where
  "list_loop env job client now 0 folder tok folderQueue listed skipped w = None"
| "list_loop env job client now (Suc n) folder tok folderQueue listed skipped w =
    (case list_page env job client folder tok now w of
       (Inl e, w1) \<Rightarrow> Some (Inl e, w1)
     | (Inr (page, l, s), w1) \<Rightarrow>
        let folderQueue' = (if ij_recursive job then folderQueue @ lp_subfolderIds page else folderQueue)
        in if has_token (lp_nextPageToken page)
           then list_loop env job client now n folder (lp_nextPageToken page) folderQueue' (listed + l) (skipped + s) w1
           else (case folderQueue' of
                   [] \<Rightarrow> Some (Inr (listed + l, skipped + s), w1)
                 | g # gs \<Rightarrow> list_loop env job client now n g None gs (listed + l) (skipped + s) w1))"

definition close_listing :: "uuid \<Rightarrow> nat \<Rightarrow> nat \<Rightarrow> ms \<Rightarrow> world \<Rightarrow> world" where
  "close_listing i listed skipped now w =
    (let pending = pendingItemIds i w;
         w1 = job_update i (\<lambda>j. j\<lparr>ij_status := (if pending \<noteq> [] then ImportJobStatus_Importing else ImportJobStatus_Done),
                                  ij_totalFiles := int listed, ij_skippedFiles := int skipped,
                                  ij_finishedAt := (if pending = [] then Some now else ij_finishedAt j)\<rparr>) w
     in if pending \<noteq> [] then queueAll (map ImportFile pending) w1 else w1)"

text \<open>
  The outcome of a queue handler: a status, or a rate-limit exception that returns the job to the
  queue.
\<close>

datatype job_result = Finished JobStatus | RateLimited ms

definition handleImportFolder :: "nat \<Rightarrow> import_env \<Rightarrow> uuid \<Rightarrow> ms \<Rightarrow> world \<Rightarrow> (job_result \<times> world) option" where
  "handleImportFolder fuel env i now w =
    (case job_get i w of
       None \<Rightarrow> Some (Finished JobStatus_Skipped, w)
     | Some job \<Rightarrow>
        if ij_status job = ImportJobStatus_Cancelled then Some (Finished JobStatus_Skipped, w)
        else
    (let run = (case registry_get (ie_registry env) (ij_provider job) of
                  Inl e \<Rightarrow> Some (Inl e, w)
                | Inr client \<Rightarrow> list_loop env job client now fuel (ij_folderRemoteId job) None [] 0 0 w)
     in (case run of
           None \<Rightarrow> None
         | Some (Inr (listed, skipped), w1) \<Rightarrow>
             Some (Finished JobStatus_Success, close_listing i listed skipped now (ie_meanwhile env w1))
         | Some (Inl (ProviderRateLimit t), w1) \<Rightarrow> Some (RateLimited t, w1)
         | Some (Inl (Thrown e), w1) \<Rightarrow>
             Some (Finished JobStatus_Failed,
               job_update i (\<lambda>j. j\<lparr>ij_status := ImportJobStatus_Failed, ij_error := Some ''error'',
                                    ij_finishedAt := Some now\<rparr>) w1))))"

section \<open>Importing a file\<close>

definition guess_ext :: "string \<Rightarrow> string option" where
  "guess_ext e =
    map_of [(''.jpg'', ''image/jpeg''), (''.jpeg'', ''image/jpeg''), (''.png'', ''image/png''),
      (''.webp'', ''image/webp''), (''.gif'', ''image/gif''), (''.heic'', ''image/heic''),
      (''.bmp'', ''image/bmp''), (''.tif'', ''image/tiff''), (''.tiff'', ''image/tiff''),
      (''.mp4'', ''video/mp4''), (''.mov'', ''video/quicktime''), (''.mkv'', ''video/x-matroska''),
      (''.webm'', ''video/webm''), (''.avi'', ''video/x-msvideo'')] e"

definition guessMime :: "string \<Rightarrow> string" where
  "guessMime name = or_default (guess_ext (toLowerCase (extname name))) ''application/octet-stream''"

definition finishItem :: "uuid \<Rightarrow> counter \<Rightarrow> ms \<Rightarrow> world \<Rightarrow> world" where
  "finishItem i c now w =
    (case bumpCounter i c w of
       (finished, w1) \<Rightarrow>
         if finished
         then (case job_get i w1 of
                 None \<Rightarrow> w1
               | Some j \<Rightarrow>
                   if ij_status j = ImportJobStatus_Importing
                   then job_update i (\<lambda>j. j\<lparr>ij_status := ImportJobStatus_Done, ij_finishedAt := Some now\<rparr>) w1
                   else w1)
         else w1)"

definition import_row :: "import_env \<Rightarrow> importjob_row \<Rightarrow> importitem_row \<Rightarrow> string \<Rightarrow> bytes \<Rightarrow> ms \<Rightarrow> asset_row" where
  "import_row env job item checksum sz now =
    (let ext = toLowerCase (extname (ii_remoteName item)); mimeType = guessMime (ii_remoteName item)
     in \<lparr>a_id = ie_assetId env, a_eventId = ij_eventId job, a_orgId = ij_orgId job,
         a_type = (if prefix ''video/'' mimeType then AssetType_Video else AssetType_Image),
         a_originalFilename = ii_remoteName item, a_checksum = checksum, a_fileSize = sz,
         a_mimeType = mimeType, a_status = AssetStatus_Stored,
         a_source = (if ij_provider job = CloudProvider_GDrive then AssetSource_GDrive else AssetSource_OneDrive),
         a_storageKey = key_original (ij_orgId job) (ij_eventId job) (ie_assetId env) ext,
         a_capturedAt = None, a_createdAt = now, a_deletedAt = None, a_facesDetectedAt = None, a_faceCount = 0\<rparr>)"

text \<open>An item is settled together with its job's counter.\<close>

definition settle :: "uuid \<Rightarrow> uuid \<Rightarrow> (importitem_row \<Rightarrow> importitem_row) \<Rightarrow> counter \<Rightarrow> ms \<Rightarrow> world \<Rightarrow> world" where
  "settle i job f c now w = finishItem job c now (markItem i f now w)"

abbreviation skip_item :: "uuid option \<Rightarrow> importitem_row \<Rightarrow> importitem_row" where
  "skip_item a x \<equiv> x\<lparr>ii_status := ImportItemStatus_SkippedDuplicate, ii_assetId := a\<rparr>"

abbreviation done_item :: "uuid \<Rightarrow> importitem_row \<Rightarrow> importitem_row" where
  "done_item a x \<equiv> x\<lparr>ii_status := ImportItemStatus_Done, ii_assetId := Some a\<rparr>"

abbreviation fail_item :: "importitem_row \<Rightarrow> importitem_row" where
  "fail_item x \<equiv> x\<lparr>ii_status := ImportItemStatus_Failed, ii_error := Some ''error''\<rparr>"

text \<open>
  The part of the \<^verbatim>\<open>try\<close> block after the download; the result is the exception, if one escapes.
\<close>

definition store_import :: "import_env \<Rightarrow> importjob_row \<Rightarrow> importitem_row \<Rightarrow> string \<Rightarrow> bytes \<Rightarrow> ms \<Rightarrow> world
    \<Rightarrow> thrown option \<times> world" where
  "store_import env job item checksum sz now w =
    (case asset_findByChecksum (ij_eventId job) checksum w of
       Some existing \<Rightarrow> (None, settle (ii_id item) (ij_id job) (skip_item (Some (a_id existing))) skippedFiles now w)
     | None \<Rightarrow>
        let row = import_row env job item checksum sz now
        in if \<not> ie_put_ok env then (Some (Thrown (ServerError ''put failed'')), w)
           else
    (case asset_create row (ie_others env (putFile (a_storageKey row) w)) of
       (Inr asset, w2) \<Rightarrow>
         (None, settle (ii_id item) (ij_id job) (done_item (a_id asset)) doneFiles now (queue (AssetProcess (a_id asset)) w2))
     | (Inl err, w2) \<Rightarrow>
         if isAssetChecksumConstraint err
         then let w3 = (if ie_delete_ok env then deleteKeys [a_storageKey row] w2 else w2);
                  winner = asset_findByChecksum (ij_eventId job) checksum w3
              in (None, settle (ii_id item) (ij_id job) (skip_item (map_option a_id winner)) skippedFiles now w3)
         else (Some (Thrown err), w2)))"

definition import_try :: "import_env \<Rightarrow> importjob_row \<Rightarrow> importitem_row \<Rightarrow> string \<Rightarrow> ms \<Rightarrow> world \<Rightarrow> thrown option \<times> world" where
  "import_try env job item path now w =
    (let w1 = markItem (ii_id item) (\<lambda>x. x\<lparr>ii_status := ImportItemStatus_Downloading\<rparr>) now w
     in case requireAccount (ij_orgId job) (ij_cloudAccountId job) w1 of
          Inl e \<Rightarrow> (Some e, w1)
        | Inr account \<Rightarrow>
       (case getFreshAccessToken (ie_cipher env) (ie_registry env) account now w1 of
          (Inl e, w2) \<Rightarrow> (Some e, w2)
        | (Inr accessToken, w2) \<Rightarrow>
       (case registry_get (ie_registry env) (ij_provider job) of
          Inl e \<Rightarrow> (Some e, w2)
        | Inr client \<Rightarrow>
       (case pc_downloadToFile client accessToken (ii_remoteId item) of
          Inl e \<Rightarrow> (Some e, w2)
        | Inr (checksum, sz) \<Rightarrow>
            store_import env job item checksum sz now (w2\<lparr>staging := staging w2 @ [path]\<rparr>)))))"

definition import_path :: "string \<Rightarrow> uuid \<Rightarrow> string" where
  "import_path folder i = folder @ ''/import-'' @ i"

definition handleImportFile :: "import_env \<Rightarrow> string \<Rightarrow> uuid \<Rightarrow> ms \<Rightarrow> world \<Rightarrow> job_result \<times> world" where
  "handleImportFile env folder i now w =
    (case item_get i w of
       None \<Rightarrow> (Finished JobStatus_Skipped, w)
     | Some item \<Rightarrow>
        if ii_status item \<noteq> ImportItemStatus_Pending then (Finished JobStatus_Skipped, w)
        else
    (case job_get (ii_importJobId item) w of
       None \<Rightarrow> (Finished JobStatus_Skipped, w)
     | Some job \<Rightarrow>
        if ij_status job = ImportJobStatus_Cancelled then (Finished JobStatus_Skipped, w)
        else
    (let path = import_path folder i
     in case import_try env job item path now w of
          (None, w1) \<Rightarrow> (Finished JobStatus_Success, discard path w1)
        | (Some (ProviderRateLimit t), w1) \<Rightarrow>
            (RateLimited t, discard path (markItem i (\<lambda>x. x\<lparr>ii_status := ImportItemStatus_Pending\<rparr>) now w1))
        | (Some (Thrown e), w1) \<Rightarrow>
            (Finished JobStatus_Success, discard path (settle i (ij_id job) fail_item failedFiles now w1)))))"

section \<open>What a handler writes to items and jobs\<close>

definition item_settled :: "importitem_row \<Rightarrow> bool" where
  "item_settled x \<longleftrightarrow> ii_status x \<in> {ImportItemStatus_Done, ImportItemStatus_SkippedDuplicate, ImportItemStatus_Failed}"

definition finish_row :: "bool \<Rightarrow> counter \<Rightarrow> ms \<Rightarrow> importjob_row \<Rightarrow> importjob_row" where
  "finish_row finished c now j =
    (if finished \<and> ij_status j = ImportJobStatus_Importing
     then (bump c j)\<lparr>ij_status := ImportJobStatus_Done, ij_finishedAt := Some now\<rparr> else bump c j)"

abbreviation unique_jobs :: "world \<Rightarrow> bool" where
  "unique_jobs w \<equiv> distinct (map ij_id (importJobs w))"

abbreviation unique_items :: "world \<Rightarrow> bool" where
  "unique_items w \<equiv> distinct (map ii_id (importItems w))"

lemma bump_fields [simp]:
  "ij_id (bump c j) = ij_id j" "ij_status (bump c j) = ij_status j" "ij_totalFiles (bump c j) = ij_totalFiles j"
  "ij_finishedAt (bump c j) = ij_finishedAt j" "ij_eventId (bump c j) = ij_eventId j"
  "ij_doneFiles (bump c j) + ij_skippedFiles (bump c j) + ij_failedFiles (bump c j)
     = ij_doneFiles j + ij_skippedFiles j + ij_failedFiles j + 1"
  by (cases c; simp)+

lemma finish_row_fields [simp]:
  "ij_id (finish_row b c now j) = ij_id j" "ij_totalFiles (finish_row b c now j) = ij_totalFiles j"
  "ij_doneFiles (finish_row b c now j) + ij_skippedFiles (finish_row b c now j) + ij_failedFiles (finish_row b c now j)
     = ij_doneFiles j + ij_skippedFiles j + ij_failedFiles j + 1"
  "ij_status (finish_row b c now j) =
     (if b \<and> ij_status j = ImportJobStatus_Importing then ImportJobStatus_Done else ij_status j)"
  using bump_fields(6) [of c j] by (auto simp: finish_row_def)

interpretation bumped_job: row_update ij_id "bump c" for c
  by unfold_locales simp

interpretation finished_job: row_update ij_id "finish_row b c now" for b c now
  by unfold_locales simp

lemma job_get_SomeD: "job_get i w = Some j \<Longrightarrow> j \<in> set (importJobs w) \<and> ij_id j = i"
  unfolding job_get_def by (drule select_first_SomeD) simp

lemma item_get_SomeD: "item_get i w = Some x \<Longrightarrow> x \<in> set (importItems w) \<and> ii_id x = i"
  unfolding item_get_def by (drule select_first_SomeD) simp

lemma finishItem_items [simp]: "importItems (finishItem i c now w) = importItems w"
  by (simp add: finishItem_def bumpCounter_def job_update_def split: option.splits)

lemma finishItem_jobs:
  assumes "unique_jobs w"
  shows "importJobs (finishItem i c now w) =
    update_where (\<lambda>j. ij_id j = i) (finish_row (filter (item_open i) (importItems w) = []) c now) (importJobs w)"
proof (cases "job_get i w")
  case None
  then have none: "\<And>j. j \<in> set (importJobs w) \<Longrightarrow> ij_id j \<noteq> i" by (simp add: job_get_def select_first_None_iff)
  then have "job_get i (job_update i (bump c) w) = None"
    by (simp add: job_get_def job_update_def update_where_id select_first_None_iff)
  with none show ?thesis
    by (simp add: finishItem_def bumpCounter_def job_update_def update_where_id)
next
  case (Some j)
  let ?fin = "filter (item_open i) (importItems w) = []"
  have only: "x = j" if "x \<in> set (importJobs w)" "ij_id x = i" for x
    using assms that job_get_SomeD [OF Some] by (auto simp: distinct_map inj_on_def)
  have get: "job_get i (job_update i (bump c) w) = Some (bump c j)"
    using bumped_job.lookup_hit [of i "importJobs w" j c] Some by (simp add: job_get_def job_update_def)
  show ?thesis
  proof (cases "?fin \<and> ij_status j = ImportJobStatus_Importing")
    case True
    then have "finishItem i c now w =
        job_update i (\<lambda>j. j\<lparr>ij_status := ImportJobStatus_Done, ij_finishedAt := Some now\<rparr>) (job_update i (bump c) w)"
      using get by (simp add: finishItem_def bumpCounter_def)
    then have "importJobs (finishItem i c now w) =
        update_where (\<lambda>j. ij_id j = i) (\<lambda>j. (bump c j)\<lparr>ij_status := ImportJobStatus_Done, ij_finishedAt := Some now\<rparr>) (importJobs w)"
      by (simp add: job_update_def update_where_fuse)
    also have "\<dots> = update_where (\<lambda>j. ij_id j = i) (finish_row ?fin c now) (importJobs w)"
      by (rule update_where_cong) (use only True in \<open>auto simp: finish_row_def\<close>)
    finally show ?thesis .
  next
    case False
    then have "finishItem i c now w = job_update i (bump c) w"
      using get by (auto simp: finishItem_def bumpCounter_def)
    then have "importJobs (finishItem i c now w) = update_where (\<lambda>j. ij_id j = i) (bump c) (importJobs w)"
      by (simp add: job_update_def)
    also have "\<dots> = update_where (\<lambda>j. ij_id j = i) (finish_row ?fin c now) (importJobs w)"
      by (rule update_where_cong) (use only False in \<open>auto simp: finish_row_def\<close>)
    finally show ?thesis .
  qed
qed

section \<open>One file, one settled item\<close>

definition settling :: "(importitem_row \<Rightarrow> importitem_row) \<Rightarrow> bool" where
  "settling f \<longleftrightarrow> (\<forall>x. item_settled (f x) \<and> ii_id (f x) = ii_id x \<and> ii_importJobId (f x) = ii_importJobId x)"

lemma settling_updates:
  "settling (skip_item a)" "settling (done_item b)" "settling fail_item"
  by (simp_all add: settling_def item_settled_def)

lemma settle_items:
  "importItems (settle i job f c now w) = update_where (\<lambda>x. ii_id x = i) (\<lambda>x. (f x)\<lparr>ii_updatedAt := now\<rparr>) (importItems w)"
  by (simp add: settle_def markItem_def item_set_def)

lemma settle_jobs:
  "unique_jobs w \<Longrightarrow> importJobs (settle i job f c now w) =
    update_where (\<lambda>j. ij_id j = job)
      (finish_row (filter (item_open job) (importItems (settle i job f c now w)) = []) c now) (importJobs w)"
  by (simp add: settle_def markItem_def item_set_def finishItem_jobs)

lemma token_frames [simp, frame_simps]:
  "importItems (snd (getFreshAccessToken c reg a now w)) = importItems w"
  "importJobs (snd (getFreshAccessToken c reg a now w)) = importJobs w"
  "assets (snd (getFreshAccessToken c reg a now w)) = assets w"
  "events (snd (getFreshAccessToken c reg a now w)) = events w"
  "objects (snd (getFreshAccessToken c reg a now w)) = objects w"
  "queued (snd (getFreshAccessToken c reg a now w)) = queued w"
  by (simp_all add: getFreshAccessToken_def account_markRevoked_def account_updateAccessToken_def
      split: option.splits sum.splits)

text \<open>What others may do in between: anything but touching the import tables.\<close>

definition keeps_imports :: "(world \<Rightarrow> world) \<Rightarrow> bool" where
  "keeps_imports g \<longleftrightarrow> (\<forall>v. importItems (g v) = importItems v \<and> importJobs (g v) = importJobs v)"

lemma store_import_effect:
  assumes "keeps_imports (ie_others env)" "store_import env job item ck sz now w = (r, w1)"
  shows "(r = None \<and> (\<exists>f c v. settling f \<and> importItems v = importItems w \<and> importJobs v = importJobs w
            \<and> w1 = settle (ii_id item) (ij_id job) f c now v))
    \<or> (\<exists>e. r = Some (Thrown e) \<and> importItems w1 = importItems w \<and> importJobs w1 = importJobs w)"
proof -
  let ?row = "import_row env job item ck sz now"
  let ?v = "ie_others env (putFile (a_storageKey ?row) w)"
  have v: "importItems ?v = importItems w" "importJobs ?v = importJobs w"
    using assms(1) by (simp_all add: keeps_imports_def putFile_def)
  show ?thesis
  proof (cases "asset_findByChecksum (ij_eventId job) ck w")
    case (Some x)
    with assms(2) have "r = None" "w1 = settle (ii_id item) (ij_id job) (skip_item (Some (a_id x))) skippedFiles now w"
      by (simp_all add: store_import_def)
    with settling_updates(1) show ?thesis by blast
  next
    case None
    note none = None
    show ?thesis
    proof (cases "ie_put_ok env")
      case False
      with none assms(2) show ?thesis by (auto simp: store_import_def Let_def)
    next
      case True
      show ?thesis
      proof (cases "asset_create ?row ?v")
        case (Pair r' w2)
        have w2: "importItems w2 = importItems w" "importJobs w2 = importJobs w"
          using Pair v by (auto simp: asset_create_def split: if_splits)
        from assms(2) none True Pair have run: "(r, w1) = (case r' of
            Inr asset \<Rightarrow> (None, settle (ii_id item) (ij_id job) (done_item (a_id asset)) doneFiles now (queue (AssetProcess (a_id asset)) w2))
          | Inl err \<Rightarrow> if isAssetChecksumConstraint err
             then let w3 = (if ie_delete_ok env then deleteKeys [a_storageKey ?row] w2 else w2);
                      winner = asset_findByChecksum (ij_eventId job) ck w3
                  in (None, settle (ii_id item) (ij_id job) (skip_item (map_option a_id winner)) skippedFiles now w3)
             else (Some (Thrown err), w2))"
          by (simp add: store_import_def Let_def split: sum.splits)
        show ?thesis
        proof (cases r')
          case (Inr a)
          have q: "importItems (queue (AssetProcess (a_id a)) w2) = importItems w" "importJobs (queue (AssetProcess (a_id a)) w2) = importJobs w"
            using w2 by (simp_all add: queueAll_def)
          from run Inr have "r = None" "w1 = settle (ii_id item) (ij_id job) (done_item (a_id a)) doneFiles now (queue (AssetProcess (a_id a)) w2)"
            by simp_all
          with q settling_updates(2) show ?thesis by blast
        next
          case (Inl err)
          let ?w3 = "if ie_delete_ok env then deleteKeys [a_storageKey ?row] w2 else w2"
          have w3: "importItems ?w3 = importItems w" "importJobs ?w3 = importJobs w"
            using w2 by (simp_all add: deleteKeys_def)
          show ?thesis
          proof (cases "isAssetChecksumConstraint err")
            case True
            with run Inl have "r = None" "w1 = settle (ii_id item) (ij_id job) (skip_item (map_option a_id (asset_findByChecksum (ij_eventId job) ck ?w3))) skippedFiles now ?w3"
              by (simp_all only: sum.case if_True Let_def prod.inject)
            with w3 settling_updates(1) show ?thesis by blast
          next
            case False
            with run Inl w2 show ?thesis by simp
          qed
        qed
      qed
    qed
  qed
qed

lemma import_try_effect:
  assumes "keeps_imports (ie_others env)" "import_try env job item path now w = (r, w1)"
  defines "w0 \<equiv> markItem (ii_id item) (\<lambda>x. x\<lparr>ii_status := ImportItemStatus_Downloading\<rparr>) now w"
  shows "(r = None \<and> (\<exists>f c v. settling f \<and> importItems v = importItems w0 \<and> importJobs v = importJobs w
            \<and> w1 = settle (ii_id item) (ij_id job) f c now v))
    \<or> (r \<noteq> None \<and> importItems w1 = importItems w0 \<and> importJobs w1 = importJobs w)"
proof -
  have j0: "importJobs w0 = importJobs w" by (simp add: w0_def markItem_def item_set_def)
  show ?thesis
  proof (cases "requireAccount (ij_orgId job) (ij_cloudAccountId job) w0")
    case (Inl e)
    with assms(2) j0 show ?thesis by (auto simp: import_try_def w0_def [symmetric])
  next
    case (Inr account)
    obtain t w2 where tok: "getFreshAccessToken (ie_cipher env) (ie_registry env) account now w0 = (t, w2)" by fastforce
    have w2: "importItems w2 = importItems w0" "importJobs w2 = importJobs w"
      using tok token_frames(1,2) [of "ie_cipher env" "ie_registry env" account now w0] j0 by simp_all
    from assms(2) Inr tok have run: "(r, w1) = (case t of Inl e \<Rightarrow> (Some e, w2) | Inr accessToken \<Rightarrow>
       (case registry_get (ie_registry env) (ij_provider job) of
          Inl e \<Rightarrow> (Some e, w2)
        | Inr client \<Rightarrow>
       (case pc_downloadToFile client accessToken (ii_remoteId item) of
          Inl e \<Rightarrow> (Some e, w2)
        | Inr (checksum, sz) \<Rightarrow>
            store_import env job item checksum sz now (w2\<lparr>staging := staging w2 @ [path]\<rparr>))))"
      by (simp add: import_try_def w0_def [symmetric] split: sum.splits)
    show ?thesis
    proof (cases "\<exists>ck sz. (r, w1) = store_import env job item ck sz now (w2\<lparr>staging := staging w2 @ [path]\<rparr>)")
      case True
      then obtain ck sz where "store_import env job item ck sz now (w2\<lparr>staging := staging w2 @ [path]\<rparr>) = (r, w1)" by metis
      from store_import_effect [OF assms(1) this] w2 show ?thesis by auto
    next
      case False
      with run w2 show ?thesis by (auto split: sum.splits)
    qed
  qed
qed

lemma count_after_update:
  assumes "distinct (map k xs)" "x \<in> set xs" "p x" "\<not> p (g x)"
  shows "length (filter p (update_where (\<lambda>y. k y = k x) g xs)) + 1 = length (filter p xs)"
  using assms
proof (induction xs)
  case (Cons y ys)
  show ?case
  proof (cases "y = x")
    case True
    then have "update_where (\<lambda>y. k y = k x) g ys = ys" using Cons.prems(1) by (intro update_where_id) (auto simp: image_iff)
    with True Cons.prems show ?thesis by simp
  next
    case False
    then have "k y \<noteq> k x" "x \<in> set ys" using Cons.prems(1,2) by auto
    with Cons show ?thesis by simp
  qed
qed simp

lemma count_same:
  "(\<And>x. x \<in> set xs \<Longrightarrow> q x \<Longrightarrow> p (g x) = p x) \<Longrightarrow> length (filter p (update_where q g xs)) = length (filter p xs)"
  by (induction xs) auto

text \<open>The files a job has accounted for, and those it has not.\<close>

definition accounted :: "importjob_row \<Rightarrow> int" where
  "accounted j = ij_doneFiles j + ij_skippedFiles j + ij_failedFiles j"

definition open_items :: "uuid \<Rightarrow> world \<Rightarrow> nat" where
  "open_items job w = length (filter (item_open job) (importItems w))"

lemma handleImportFile_effect:
  assumes "keeps_imports (ie_others env)" "unique_jobs w"
    and "item_get i w = Some item" "ii_status item = ImportItemStatus_Pending"
    and "job_get (ii_importJobId item) w = Some job" "ij_status job \<noteq> ImportJobStatus_Cancelled"
    and "handleImportFile env folder i now w = (r, w')"
  obtains
    (settled) g c where "r = Finished JobStatus_Success" "settling g"
      "importItems w' = update_where (\<lambda>x. ii_id x = i) g (importItems w)"
      "importJobs w' = update_where (\<lambda>j. ij_id j = ij_id job) (finish_row (open_items (ij_id job) w' = 0) c now) (importJobs w)"
  | (limited) t where "r = RateLimited t" "importJobs w' = importJobs w"
      "importItems w' = update_where (\<lambda>x. ii_id x = i) (\<lambda>x. x\<lparr>ii_status := ImportItemStatus_Pending, ii_updatedAt := now\<rparr>) (importItems w)"
proof -
  let ?path = "import_path folder i" and ?dl = "\<lambda>x. x\<lparr>ii_status := ImportItemStatus_Downloading, ii_updatedAt := now\<rparr>"
  from item_get_SomeD [OF assms(3)] have i: "ii_id item = i" by simp
  obtain e w1 where run: "import_try env job item ?path now w = (e, w1)" by fastforce
  have dl: "importItems (markItem (ii_id item) (\<lambda>x. x\<lparr>ii_status := ImportItemStatus_Downloading\<rparr>) now w)
      = update_where (\<lambda>x. ii_id x = i) ?dl (importItems w)" by (simp add: markItem_def item_set_def i)
  have res: "(r, w') = (case e of
       None \<Rightarrow> (Finished JobStatus_Success, discard ?path w1)
     | Some (ProviderRateLimit t) \<Rightarrow> (RateLimited t, discard ?path (markItem i (\<lambda>x. x\<lparr>ii_status := ImportItemStatus_Pending\<rparr>) now w1))
     | Some (Thrown err) \<Rightarrow> (Finished JobStatus_Success, discard ?path (settle i (ij_id job) fail_item failedFiles now w1)))"
    using assms(3-7) run by (simp add: handleImportFile_def Let_def)
  have finish: thesis if v: "settling f" "importItems v = update_where (\<lambda>x. ii_id x = i) ?dl (importItems w)" "importJobs v = importJobs w"
      and w': "r = Finished JobStatus_Success" "w' = discard ?path (settle i (ij_id job) f c now v)" for f c v
  proof (rule settled [of "\<lambda>x. (f (?dl x))\<lparr>ii_updatedAt := now\<rparr>" c])
    show "settling (\<lambda>x. (f (?dl x))\<lparr>ii_updatedAt := now\<rparr>)" using v(1) by (simp add: settling_def item_settled_def)
    show "importItems w' = update_where (\<lambda>x. ii_id x = i) (\<lambda>x. (f (?dl x))\<lparr>ii_updatedAt := now\<rparr>) (importItems w)"
      unfolding w'(2) by (simp add: discard_def settle_items v(2) update_where_fuse)
    show "importJobs w' = update_where (\<lambda>j. ij_id j = ij_id job) (finish_row (open_items (ij_id job) w' = 0) c now) (importJobs w)"
      unfolding w'(2) using settle_jobs [of v i "ij_id job" f c now] v(3) assms(2) by (simp add: discard_def open_items_def)
  qed (rule w'(1))
  from import_try_effect [OF assms(1) run, unfolded dl]
  consider f c v where "e = None" "settling f" "importItems v = update_where (\<lambda>x. ii_id x = i) ?dl (importItems w)"
      "importJobs v = importJobs w" "w1 = settle i (ij_id job) f c now v"
    | x where "e = Some x" "importItems w1 = update_where (\<lambda>x. ii_id x = i) ?dl (importItems w)" "importJobs w1 = importJobs w"
    unfolding i by auto
  then show thesis
  proof cases
    case 1
    with finish res show thesis by simp
  next
    case 2
    show thesis
    proof (cases x)
      case (Thrown err)
      with 2 finish [OF settling_updates(3)] res show thesis by simp
    next
      case (ProviderRateLimit t)
      with res 2 have "r = RateLimited t" "w' = discard ?path (markItem i (\<lambda>x. x\<lparr>ii_status := ImportItemStatus_Pending\<rparr>) now w1)" by simp_all
      with 2 show thesis by (intro limited) (simp_all add: discard_def markItem_def item_set_def update_where_fuse)
    qed
  qed
qed

text \<open>
  C39. Importing a file settles its item, once: unless the provider's rate limit sends the job back
  to the queue with the item pending again and nothing counted, the item ends as done, skipped or
  failed, exactly one counter of its import goes up by one, so that counted and open files keep their
  sum, the import is finished exactly when no open item is left, and no other item and no other
  import changes. A failed download fails its item only, never the import.
\<close>

theorem import_file_settles_item:
  assumes "keeps_imports (ie_others env)" "unique_jobs w" "unique_items w"
    and "item_get i w = Some item" "ii_status item = ImportItemStatus_Pending"
    and "job_get (ii_importJobId item) w = Some job" "ij_status job \<noteq> ImportJobStatus_Cancelled"
    and "handleImportFile env folder i now w = (r, w')"
  shows "\<exists>item' job'. item_get i w' = Some item' \<and> job_get (ij_id job) w' = Some job'
    \<and> accounted job' + int (open_items (ij_id job) w') = accounted job + int (open_items (ij_id job) w)
    \<and> (\<forall>k. k \<noteq> i \<longrightarrow> item_get k w' = item_get k w) \<and> (\<forall>k. k \<noteq> ij_id job \<longrightarrow> job_get k w' = job_get k w)
    \<and> (case r of
         RateLimited t \<Rightarrow> ii_status item' = ImportItemStatus_Pending \<and> job' = job
       | Finished st \<Rightarrow> st = JobStatus_Success \<and> item_settled item' \<and> accounted job' = accounted job + 1
           \<and> ij_status job' = (if ij_status job = ImportJobStatus_Importing \<and> open_items (ij_id job) w' = 0
                               then ImportJobStatus_Done else ij_status job))"
proof -
  have item: "item \<in> set (importItems w)" "ii_id item = i" using item_get_SomeD [OF assms(4)] by simp_all
  have job: "job \<in> set (importJobs w)" "ij_id job = ii_importJobId item" using job_get_SomeD [OF assms(6)] by simp_all
  have getj: "select_first (\<lambda>j. ij_id j = ij_id job) (importJobs w) = Some job"
    using assms(6) job(2) by (simp add: job_get_def)
  have geti: "select_first (\<lambda>x. ii_id x = i) (importItems w) = Some item" using assms(4) by (simp add: item_get_def)
  have op: "item_open (ij_id job) item" using assms(5) job(2) by (simp add: item_open_def)
  from assms(1,2,4-8) show ?thesis
  proof (cases rule: handleImportFile_effect)
    case (settled g c)
    have g: "ii_id (g x) = ii_id x" "item_settled (g x)" for x using settled(2) by (simp_all add: settling_def)
    have upd: "row_update ii_id g" by unfold_locales (rule g)
    have fin: "row_update ij_id (finish_row b c now)" for b by unfold_locales simp
    let ?job' = "finish_row (open_items (ij_id job) w' = 0) c now job"
    have "item_get i w' = Some (g item)"
      unfolding item_get_def settled(3) by (rule row_update.lookup_hit [OF upd geti])
    moreover have "item_get k w' = item_get k w" if "k \<noteq> i" for k
      unfolding item_get_def settled(3) by (rule row_update.lookup_miss [OF upd that])
    moreover have "job_get (ij_id job) w' = Some ?job'"
      unfolding job_get_def settled(4) by (rule row_update.lookup_hit [OF fin getj])
    moreover have "job_get k w' = job_get k w" if "k \<noteq> ij_id job" for k
      unfolding job_get_def settled(4) by (rule row_update.lookup_miss [OF fin that])
    moreover have "open_items (ij_id job) w' + 1 = open_items (ij_id job) w"
      using count_after_update [OF assms(3) item(1), of "item_open (ij_id job)" g] op g(2) [of item]
      unfolding open_items_def settled(3) item(2) by (simp add: item_open_def item_settled_def) auto
    moreover have "accounted ?job' = accounted job + 1" by (simp add: accounted_def)
    ultimately show ?thesis using settled(1) g(2) by simp
  next
    case (limited t)
    let ?g = "\<lambda>x. x\<lparr>ii_status := ImportItemStatus_Pending, ii_updatedAt := now\<rparr>"
    have upd: "row_update ii_id ?g" by unfold_locales simp
    have "item_get i w' = Some (?g item)"
      unfolding item_get_def limited(3) by (rule row_update.lookup_hit [OF upd geti])
    moreover have "item_get k w' = item_get k w" if "k \<noteq> i" for k
      unfolding item_get_def limited(3) by (rule row_update.lookup_miss [OF upd that])
    moreover have "job_get k w' = job_get k w" for k by (simp add: job_get_def limited(2))
    moreover have "item_open k (?g x) = item_open k x" if "x \<in> set (importItems w)" "ii_id x = i" for k x
    proof -
      have "x = item" using assms(3) that item by (auto simp: distinct_map inj_on_def)
      then show ?thesis using assms(5) by (simp add: item_open_def)
    qed
    then have "open_items (ij_id job) w' = open_items (ij_id job) w"
      unfolding open_items_def limited(3) by (intro count_same)
    ultimately show ?thesis using limited(1) getj by (simp add: job_get_def)
  qed
qed

end
