(* ===== verification/ImportPolicy.thy ===== *)
theory ImportPolicy
  imports Import
begin

text \<open>
  What the import promises beyond a single file: re-syncing an unchanged folder imports nothing, the
  listing ends on every finite folder tree and never on a cyclic one, and three things the code does
  not do: respect a cancel that arrives while a folder is listed, respect the storage limit, and
  finish an import whose items a second import took over.
\<close>

section \<open>A concrete import\<close>

definition wit_item :: importitem_row where
  "wit_item = \<lparr>ii_id = ''i1'', ii_importJobId = ''j1'', ii_eventId = ''e'', ii_provider = CloudProvider_GDrive,
     ii_remoteId = ''r1'', ii_remoteName = ''a.JPG'', ii_remoteSize = Some 1000, ii_remoteChecksum = Some ''md5'',
     ii_status = ImportItemStatus_Pending, ii_assetId = None, ii_error = None, ii_updatedAt = 0\<rparr>"

definition wit_job :: importjob_row where
  "wit_job = \<lparr>ij_id = ''j1'', ij_eventId = ''e'', ij_orgId = ''o'', ij_cloudAccountId = ''ca'',
     ij_provider = CloudProvider_GDrive, ij_folderRemoteId = ''root'', ij_folderName = ''Photos'', ij_recursive = True,
     ij_status = ImportJobStatus_Importing, ij_totalFiles = 1, ij_doneFiles = 0, ij_skippedFiles = 0,
     ij_failedFiles = 0, ij_error = None, ij_createdBy = None, ij_createdAt = 0, ij_finishedAt = None\<rparr>"

definition wit_import_world :: world where
  "wit_import_world = wit_event_world\<lparr>importJobs := [wit_job], importItems := [wit_item], cloudAccounts := [wit_account]\<rparr>"

definition wit_import_env :: import_env where
  "wit_import_env = \<lparr>ie_jobId = ''j2'', ie_itemId = (\<lambda>r. ''i-'' @ r), ie_assetId = ''a9'', ie_cipher = wit_state_cipher,
     ie_registry = wit_registry, ie_put_ok = True, ie_delete_ok = True, ie_meanwhile = (\<lambda>v. v), ie_others = (\<lambda>v. v)\<rparr>"

lemma wit_import_facts:
  "item_get ''i1'' wit_import_world = Some wit_item" "job_get ''j1'' wit_import_world = Some wit_job"
  "ii_status wit_item = ImportItemStatus_Pending" "ii_importJobId wit_item = ''j1''" "ii_remoteId wit_item = ''r1''"
  "ij_status wit_job = ImportJobStatus_Importing" "ij_id wit_job = ''j1''" "ii_id wit_item = ''i1''"
  "unique_jobs wit_import_world" "unique_items wit_import_world" "keeps_imports (ie_others wit_import_env)"
  "importItems wit_import_world = [wit_item]" "importJobs wit_import_world = [wit_job]"
  by (simp_all add: item_get_def job_get_def wit_import_world_def wit_item_def wit_job_def keeps_imports_def wit_import_env_def)

theorem import_file_settles_item_witness:
  "\<exists>item'. item_get ''i1'' (snd (handleImportFile wit_import_env ''/s'' ''i1'' 5 wit_import_world)) = Some item'"
proof -
  have job: "job_get (ii_importJobId wit_item) wit_import_world = Some wit_job"
    and st: "ij_status wit_job \<noteq> ImportJobStatus_Cancelled" by (simp_all add: wit_import_facts)
  show ?thesis
    using import_file_settles_item [OF wit_import_facts(11,9,10,1,3) job st prod.collapse [symmetric]] by blast
qed

lemma wit_token:
  "\<exists>w1. getFreshAccessToken wit_state_cipher wit_registry wit_account now w = (Inr ''tok'', w1)"
  by (simp add: getFreshAccessToken_def cached_token_def wit_account_def registry_get_def wit_registry_def
      wit_client_def wit_state_cipher_def)

lemma wit_requireAccount:
  "cloudAccounts w = [wit_account] \<Longrightarrow> requireAccount ''o'' ''ca'' w = Inr wit_account"
  by (simp add: requireAccount_def account_getById_def wit_account_def)

lemma wit_page:
  assumes "cloudAccounts w = [wit_account]" "ie_cipher env = wit_state_cipher" "ie_registry env = wit_registry"
    and "ij_orgId job = ''o''" "ij_cloudAccountId job = ''ca''"
  shows "\<exists>w1. list_page env job wit_client folder tok now w
    = (Inr (\<lparr>lp_files = [], lp_subfolderIds = [], lp_nextPageToken = None\<rparr>, 0, 0), w1)"
proof -
  obtain w1 where "getFreshAccessToken wit_state_cipher wit_registry wit_account now w = (Inr ''tok'', w1)"
    using wit_token by blast
  with assms show ?thesis
    by (simp add: list_page_def wit_requireAccount) (simp add: wit_client_def upsertListingPage_def)
qed

section \<open>Re-syncing\<close>

definition resync_mark :: "uuid \<Rightarrow> ms \<Rightarrow> importitem_row \<Rightarrow> importitem_row" where
  "resync_mark job now x = x\<lparr>ii_importJobId := job, ii_status := ImportItemStatus_SkippedDuplicate, ii_updatedAt := now\<rparr>"

lemma resync_mark_fields [simp]:
  "ii_id (resync_mark job now x) = ii_id x" "ii_status (resync_mark job now x) = ImportItemStatus_SkippedDuplicate"
  "resync_mark job now (resync_mark job now x) = resync_mark job now x"
  by (simp_all add: resync_mark_def)

lemma classify_all_unchanged:
  assumes "\<And>f. f \<in> set fs \<Longrightarrow> \<exists>x. by_id (rf_id f) = Some x \<and> unchanged x f"
  shows "classify_files env job now by_id fs ins sk w =
    (ins, sk + length fs, w\<lparr>importItems := update_where (\<lambda>x. \<exists>f \<in> set fs. map_option ii_id (by_id (rf_id f)) = Some (ii_id x))
       (resync_mark (ij_id job) now) (importItems w)\<rparr>)"
  using assms
proof (induction fs arbitrary: sk w)
  case Nil
  then show ?case by (simp add: update_where_id)
next
  case (Cons f fs)
  obtain x where x: "by_id (rf_id f) = Some x" "unchanged x f" using Cons.prems by auto
  let ?w1 = "w\<lparr>importItems := update_where (\<lambda>y. ii_id y = ii_id x) (resync_mark (ij_id job) now) (importItems w)\<rparr>"
  have "repointItem (ii_id x) (ij_id job) (\<lambda>x. x\<lparr>ii_status := ImportItemStatus_SkippedDuplicate\<rparr>) now w = ?w1"
    by (simp add: repointItem_def item_set_def resync_mark_def [abs_def])
  then have "classify_files env job now by_id (f # fs) ins sk w = classify_files env job now by_id fs ins (sk + 1) ?w1"
    using x by simp
  also have "\<dots> = (ins, sk + 1 + length fs, ?w1\<lparr>importItems := update_where (\<lambda>x. \<exists>f \<in> set fs. map_option ii_id (by_id (rf_id f)) = Some (ii_id x))
       (resync_mark (ij_id job) now) (importItems ?w1)\<rparr>)"
    using Cons.prems by (intro Cons.IH) auto
  finally show ?case
    by (simp add: update_where_twice x(1)) (rule arg_cong [where f = "\<lambda>xs. w\<lparr>importItems := xs\<rparr>"], rule update_where_cong, auto simp: x(1))
qed

lemma existing_lookup:
  assumes "distinct (map item_key (importItems w))" "x \<in> set (importItems w)"
    and "item_key x = (ev, p, rf_id f)" "f \<in> set files"
  shows "map_of (rev (map (\<lambda>x. (ii_remoteId x, x)) (getExistingByRemoteIds ev p (map rf_id files) w))) (rf_id f) = Some x"
proof -
  let ?ex = "getExistingByRemoteIds ev p (map rf_id files) w"
  have "inj_on ii_remoteId (set ?ex)"
    using assms(1) by (auto simp: getExistingByRemoteIds_def inj_on_def distinct_map item_key_def)
  moreover have "distinct ?ex"
    using assms(1) by (simp add: getExistingByRemoteIds_def distinct_map)
  ultimately have "distinct (map fst (rev (map (\<lambda>x. (ii_remoteId x, x)) ?ex)))"
    by (simp add: rev_map comp_def distinct_map)
  moreover have "(rf_id f, x) \<in> set (rev (map (\<lambda>x. (ii_remoteId x, x)) ?ex))"
    using assms(2-4) by (auto simp: getExistingByRemoteIds_def item_key_def image_iff)
  ultimately show ?thesis by (rule map_of_is_SomeI)
qed

text \<open>
  Re-syncing an unchanged folder imports nothing: a page whose files are all known to the event,
  synced before and carry the checksum of then is listed and skipped as a whole; no item is added and
  none becomes pending.
\<close>

theorem resync_of_unchanged_page_imports_nothing:
  assumes "distinct (map item_key (importItems w))"
    and "\<And>f. f \<in> set files \<Longrightarrow>
      \<exists>x \<in> set (importItems w). item_key x = (ij_eventId job, ij_provider job, rf_id f) \<and> unchanged x f"
    and "upsertListingPage env job files now w = (r, w')"
  shows "r = Inr (length files, length files) \<and> map ii_id (importItems w') = map ii_id (importItems w)
    \<and> (\<forall>k. set (pendingItemIds k w') \<subseteq> set (pendingItemIds k w))"
proof (cases "files = []")
  case True
  with assms(3) show ?thesis by (auto simp: upsertListingPage_def)
next
  case False
  let ?by = "map_of (rev (map (\<lambda>x. (ii_remoteId x, x))
      (getExistingByRemoteIds (ij_eventId job) (ij_provider job) (map rf_id files) w)))"
  let ?p = "\<lambda>x. \<exists>f \<in> set files. map_option ii_id (?by (rf_id f)) = Some (ii_id x)"
  have known: "\<exists>x. ?by (rf_id f) = Some x \<and> unchanged x f" if "f \<in> set files" for f
    using assms(2) [OF that] existing_lookup [OF assms(1) _ _ that] by blast
  have "r = Inr (length files, length files)" and w': "w' = w\<lparr>importItems := update_where ?p (resync_mark (ij_id job) now) (importItems w)\<rparr>"
    using assms(3) classify_all_unchanged [OF known, where env = env and job = job and now = now and ins = "[]" and sk = 0 and w = w] False
    by (simp_all add: upsertListingPage_def Let_def insertItems_def)
  moreover have "map ii_id (update_where ?p (resync_mark (ij_id job) now) (importItems w)) = map ii_id (importItems w)"
    by (simp add: update_where_def)
  moreover have "set (pendingItemIds k w') \<subseteq> set (pendingItemIds k w)" for k
    unfolding w' by (auto simp: pendingItemIds_def set_update_where split: if_splits)
  ultimately show ?thesis by simp
qed

definition wit_file :: RemoteFile where
  "wit_file = \<lparr>rf_id = ''r1'', rf_name = ''a.JPG'', rf_size = Some 1000, rf_checksum = Some ''md5'', rf_mimeType = ''image/jpeg''\<rparr>"

theorem resync_of_unchanged_page_imports_nothing_witness:
  "fst (upsertListingPage wit_import_env (wit_job\<lparr>ij_id := ''j2''\<rparr>) [wit_file] 5
     (wit_import_world\<lparr>importItems := [wit_item\<lparr>ii_status := ImportItemStatus_Done\<rparr>]\<rparr>)) = Inr (1, 1)"
proof -
  let ?w = "wit_import_world\<lparr>importItems := [wit_item\<lparr>ii_status := ImportItemStatus_Done\<rparr>]\<rparr>"
  have a: "distinct (map item_key (importItems ?w))" by simp
  have b: "\<exists>x \<in> set (importItems ?w). item_key x = (ij_eventId (wit_job\<lparr>ij_id := ''j2''\<rparr>), ij_provider (wit_job\<lparr>ij_id := ''j2''\<rparr>), rf_id f) \<and> unchanged x f"
    if "f \<in> set [wit_file]" for f
    using that by (simp add: item_key_def wit_item_def wit_job_def wit_file_def unchanged_def)
  show ?thesis
    using resync_of_unchanged_page_imports_nothing
      [where files = "[wit_file]" and env = wit_import_env and now = 5, OF a b prod.collapse [symmetric]] by simp
qed

section \<open>The listing ends on finite trees\<close>

text \<open>
  \<open>weighs client wt\<close>: \<open>wt folder token\<close> bounds the pages left from here on, this one and those of
  all subfolders included. A finite folder tree has such a weight.
\<close>

definition weighs :: "provider_client \<Rightarrow> (string \<Rightarrow> string option \<Rightarrow> nat) \<Rightarrow> bool" where
  "weighs client wt \<longleftrightarrow> (\<forall>tok folder page_token page. pc_listFilesPage client tok folder page_token = Inr page \<longrightarrow>
     1 + sum_list (map (\<lambda>g. wt g None) (lp_subfolderIds page))
       + (if has_token (lp_nextPageToken page) then wt folder (lp_nextPageToken page) else 0) \<le> wt folder page_token)"

lemma list_page_page:
  "list_page env job client folder tok now w = (Inr (page, l, s), w1) \<Longrightarrow>
     \<exists>access. pc_listFilesPage client access folder tok = Inr page"
  by (auto simp: list_page_def split: sum.splits prod.splits)

lemma list_loop_ends:
  assumes "weighs client wt" "wt folder tok + sum_list (map (\<lambda>g. wt g None) q) < n"
  shows "\<exists>res. list_loop env job client now n folder tok q l s w = Some res"
  using assms(2)
proof (induction n arbitrary: folder tok q l s w)
  case (Suc n)
  obtain r w1 where page: "list_page env job client folder tok now w = (r, w1)" by fastforce
  show ?case
  proof (cases r)
    case (Inl e)
    with page show ?thesis by simp
  next
    case (Inr x)
    obtain p l' s' where x: "x = (p, l', s')" by (cases x)
    from list_page_page [OF page [unfolded Inr x]] assms(1)
    have bound: "1 + sum_list (map (\<lambda>g. wt g None) (lp_subfolderIds p))
       + (if has_token (lp_nextPageToken p) then wt folder (lp_nextPageToken p) else 0) \<le> wt folder tok"
      unfolding weighs_def by blast
    let ?q = "if ij_recursive job then q @ lp_subfolderIds p else q"
    have "sum_list (map (\<lambda>g. wt g None) ?q) \<le> sum_list (map (\<lambda>g. wt g None) q) + sum_list (map (\<lambda>g. wt g None) (lp_subfolderIds p))"
      by simp
    with bound Suc.prems have small: "(if has_token (lp_nextPageToken p) then wt folder (lp_nextPageToken p) else 0)
        + sum_list (map (\<lambda>g. wt g None) ?q) < n" by (simp split: if_splits)
    show ?thesis
    proof (cases "has_token (lp_nextPageToken p)")
      case True
      with small have "wt folder (lp_nextPageToken p) + sum_list (map (\<lambda>g. wt g None) ?q) < n" by simp
      from Suc.IH [OF this] page Inr x True show ?thesis by (simp add: Let_def)
    next
      case False
      show ?thesis
      proof (cases ?q)
        case Nil
        with page Inr x False show ?thesis by (simp add: Let_def)
      next
        case (Cons g gs)
        with small False have "wt g None + sum_list (map (\<lambda>g. wt g None) gs) < n" by simp
        from Suc.IH [OF this] page Inr x False Cons show ?thesis by (simp add: Let_def)
      qed
    qed
  qed
qed simp

text \<open>
  C40. Listing a finite folder tree ends: with more fuel than the tree has pages, the folder job
  returns, with a success, a failure recorded on the import, or the provider's rate limit.
\<close>

theorem folder_listing_terminates:
  assumes "\<And>client. ie_registry env (ij_provider job) = Some client \<Longrightarrow> weighs client wt"
    and "job_get i w = Some job" "wt (ij_folderRemoteId job) None < fuel"
  shows "\<exists>res. handleImportFolder fuel env i now w = Some res"
proof -
  obtain run where run: "(case registry_get (ie_registry env) (ij_provider job) of
      Inl e \<Rightarrow> Some (Inl e, w)
    | Inr client \<Rightarrow> list_loop env job client now fuel (ij_folderRemoteId job) None [] 0 0 w) = Some run"
  proof (cases "ie_registry env (ij_provider job)")
    case None
    then show thesis by (intro that) (simp add: registry_get_def)
  next
    case (Some client)
    with list_loop_ends [OF assms(1) [OF Some], of "ij_folderRemoteId job" None "[]" fuel env job now 0 0 w] assms(3)
    show thesis by (auto simp: registry_get_def intro: that)
  qed
  obtain x w1 where "run = (x, w1)" by (cases run)
  with run assms(2) show ?thesis
    by (auto simp: handleImportFolder_def split: sum.splits thrown.splits prod.splits)
qed

theorem folder_listing_terminates_witness:
  "\<exists>res. handleImportFolder 2 wit_import_env ''j1'' 5 wit_import_world = Some res"
proof (rule folder_listing_terminates [where wt = "\<lambda>_ _. 1"])
  show "job_get ''j1'' wit_import_world = Some wit_job" by (rule wit_import_facts)
  show "ie_registry wit_import_env (ij_provider wit_job) = Some client \<Longrightarrow> weighs client (\<lambda>_ _. 1)" for client
    by (auto simp: wit_import_env_def wit_registry_def weighs_def wit_client_def wit_job_def has_token_def)
qed simp

text \<open>A folder that lists itself is listed forever.\<close>

lemma cyclic_folder_never_ends:
  assumes "ij_recursive job"
    and "\<And>w. \<exists>l s w1. list_page env job client folder None now w
      = (Inr (\<lparr>lp_files = [], lp_subfolderIds = [folder], lp_nextPageToken = None\<rparr>, l, s), w1)"
  shows "list_loop env job client now n folder None [] l s w = None"
proof (induction n arbitrary: l s w)
  case (Suc n)
  from assms(2) [of w] obtain l' s' w1 where "list_page env job client folder None now w
      = (Inr (\<lparr>lp_files = [], lp_subfolderIds = [folder], lp_nextPageToken = None\<rparr>, l', s'), w1)" by blast
  with assms(1) Suc show ?case by (simp add: has_token_def)
qed simp

section \<open>A cancel during the listing is lost\<close>

lemma repoint_jobs [simp]: "importJobs (repointItem i job f now w) = importJobs w"
  by (simp add: repointItem_def item_set_def)

lemma classify_jobs: "importJobs (snd (snd (classify_files env job now by_id fs ins sk w))) = importJobs w"
  by (induction env job now by_id fs ins sk w rule: classify_files.induct) (simp_all split: option.splits)

lemma insertItems_jobs: "importJobs (snd (insertItems xs w)) = importJobs w"
  by (simp add: insertItems_def)

lemma upsert_jobs: "importJobs (snd (upsertListingPage env job fs now w)) = importJobs w"
proof -
  let ?by = "map_of (rev (map (\<lambda>x. (ii_remoteId x, x)) (getExistingByRemoteIds (ij_eventId job) (ij_provider job) (map rf_id fs) w)))"
  obtain ins sk w1 where c: "classify_files env job now ?by fs [] 0 w = (ins, sk, w1)" by (rule prod_cases3)
  have w1: "importJobs w1 = importJobs w" using classify_jobs [of env job now ?by fs "[]" 0 w] by (simp add: c)
  obtain r w2 where i: "insertItems ins w1 = (r, w2)" by fastforce
  have "importJobs w2 = importJobs w" using insertItems_jobs [of ins w1] i w1 by simp
  with c i show ?thesis by (simp add: upsertListingPage_def Let_def split: sum.splits)
qed

lemma list_page_jobs: "importJobs (snd (list_page env job client folder tok now w)) = importJobs w"
proof (cases "requireAccount (ij_orgId job) (ij_cloudAccountId job) w")
  case (Inl e)
  then show ?thesis by (simp add: list_page_def)
next
  case (Inr a)
  obtain t w1 where t: "getFreshAccessToken (ie_cipher env) (ie_registry env) a now w = (t, w1)" by fastforce
  have w1: "importJobs w1 = importJobs w" using token_frames(2) [of "ie_cipher env" "ie_registry env" a now w] t by simp
  show ?thesis
  proof (cases t)
    case (Inl e)
    with Inr t w1 show ?thesis by (simp add: list_page_def)
  next
    case tok: (Inr accessToken)
    show ?thesis
    proof (cases "pc_listFilesPage client accessToken folder tok")
      case (Inl e)
      with Inr t w1 tok show ?thesis by (simp add: list_page_def)
    next
      case page: (Inr page)
      let ?fs = "filter (\<lambda>f. importable (rf_mimeType f)) (lp_files page)"
      obtain r w2 where u: "upsertListingPage env job ?fs now w1 = (r, w2)" by fastforce
      have "importJobs w2 = importJobs w" using upsert_jobs [of env job ?fs now w1] u w1 by simp
      with Inr t tok page u show ?thesis by (cases r) (auto simp: list_page_def)
    qed
  qed
qed

lemma list_loop_jobs:
  "list_loop env job client now n folder tok q l s w = Some (r, w1) \<Longrightarrow> importJobs w1 = importJobs w"
proof (induction n arbitrary: folder tok q l s w)
  case (Suc n)
  obtain x v where page: "list_page env job client folder tok now w = (x, v)" by fastforce
  have v: "importJobs v = importJobs w" using list_page_jobs [of env job client folder tok now w] page by simp
  from Suc.prems page consider "w1 = v" | f' t' q' l' s' where "list_loop env job client now n f' t' q' l' s' v = Some (r, w1)"
    by (auto simp: Let_def split: sum.splits prod.splits if_splits list.splits)
  then show ?case using Suc.IH v by cases auto
qed simp

lemma cancelled_job:
  assumes "importJobs v = importJobs w" "job_get i w = Some job" "ij_status job = ImportJobStatus_Listing"
  shows "fst (cancel (ij_eventId job) i now v) = Inr ()
    \<and> job_get i (snd (cancel (ij_eventId job) i now v))
        = Some (job\<lparr>ij_status := ImportJobStatus_Cancelled, ij_finishedAt := Some now\<rparr>)"
proof -
  have get: "select_first (\<lambda>j. ij_id j = i) (importJobs v) = Some job" using assms(1,2) by (simp add: job_get_def)
  then have "job_getScoped (ij_eventId job) i v = Some job"
    unfolding job_getScoped_def by (rule select_first_narrow) (use job_get_SomeD [OF assms(2)] in auto)
  moreover have "row_update ij_id (\<lambda>j. j\<lparr>ij_status := ImportJobStatus_Cancelled, ij_finishedAt := Some now\<rparr>)"
    by unfold_locales simp
  ultimately show ?thesis
    using row_update.lookup_hit [OF _ get] assms(3) by (simp add: cancel_def job_get_def job_update_def)
qed

lemma close_listing_status:
  assumes "job_get i w = Some j"
  shows "\<exists>j'. job_get i (close_listing i l s now w) = Some j'
    \<and> ij_status j' = (if pendingItemIds i w \<noteq> [] then ImportJobStatus_Importing else ImportJobStatus_Done)"
proof -
  let ?g = "\<lambda>j. j\<lparr>ij_status := (if pendingItemIds i w \<noteq> [] then ImportJobStatus_Importing else ImportJobStatus_Done),
      ij_totalFiles := int l, ij_skippedFiles := int s,
      ij_finishedAt := (if pendingItemIds i w = [] then Some now else ij_finishedAt j)\<rparr>"
  have "row_update ij_id ?g" by unfold_locales simp
  from row_update.lookup_hit [OF this assms [unfolded job_get_def]]
  have "job_get i (job_update i ?g w) = Some (?g j)" by (simp add: job_get_def job_update_def)
  moreover have "job_get i (queueAll js v) = job_get i v" for js v by (simp add: job_get_def queueAll_def)
  ultimately show ?thesis by (cases "pendingItemIds i w = []") (simp_all add: close_listing_def Let_def)
qed

text \<open>
  A cancel that arrives while the folder is being listed is lost: the cancel itself reports
  success, but closing the listing overwrites the import's status without reading it again, so the
  import goes on to fetch its files (or ends as done).
\<close>

theorem cancel_during_listing_is_lost:
  assumes "job_get i w = Some job" "ij_status job = ImportJobStatus_Listing"
    and "ie_meanwhile env = (\<lambda>v. snd (cancel (ij_eventId job) i now v))"
    and "handleImportFolder fuel env i now w = Some (Finished JobStatus_Success, w')"
  shows "\<exists>v l s j. fst (cancel (ij_eventId job) i now v) = Inr ()
    \<and> w' = close_listing i l s now (snd (cancel (ij_eventId job) i now v))
    \<and> job_get i w' = Some j \<and> ij_status j \<in> {ImportJobStatus_Importing, ImportJobStatus_Done}"
proof -
  from assms(1,2,4) obtain client l s v where
    run: "list_loop env job client now fuel (ij_folderRemoteId job) None [] 0 0 w = Some (Inr (l, s), v)"
    and w': "w' = close_listing i l s now (ie_meanwhile env v)"
    by (auto simp: handleImportFolder_def Let_def split: sum.splits option.splits thrown.splits prod.splits)
  note c = cancelled_job [OF list_loop_jobs [OF run] assms(1,2), of now]
  from c obtain j where "job_get i (snd (cancel (ij_eventId job) i now v)) = Some j" by blast
  from close_listing_status [OF this, of l s now] w' assms(3) c show ?thesis by (auto split: if_splits)
qed

theorem cancel_during_listing_is_lost_witness:
  "\<exists>w' j. handleImportFolder 2 (wit_import_env\<lparr>ie_meanwhile := (\<lambda>v. snd (cancel ''e'' ''j1'' 5 v))\<rparr>) ''j1'' 5
      (wit_import_world\<lparr>importJobs := [wit_job\<lparr>ij_status := ImportJobStatus_Listing\<rparr>]\<rparr>) = Some (Finished JobStatus_Success, w')
    \<and> job_get ''j1'' w' = Some j \<and> ij_status j \<in> {ImportJobStatus_Importing, ImportJobStatus_Done}"
proof -
  let ?job = "wit_job\<lparr>ij_status := ImportJobStatus_Listing\<rparr>"
  let ?env = "wit_import_env\<lparr>ie_meanwhile := (\<lambda>v. snd (cancel ''e'' ''j1'' 5 v))\<rparr>"
  let ?w = "wit_import_world\<lparr>importJobs := [?job]\<rparr>"
  have j: "job_get ''j1'' ?w = Some ?job" "ij_eventId ?job = ''e''" by (simp_all add: job_get_def wit_job_def)
  have env: "ie_cipher ?env = wit_state_cipher" "ie_registry ?env = wit_registry" "cloudAccounts ?w = [wit_account]"
    "ij_orgId ?job = ''o''" "ij_cloudAccountId ?job = ''ca''" "registry_get wit_registry (ij_provider wit_job) = Inr wit_client"
    by (simp_all add: wit_import_env_def wit_import_world_def wit_job_def registry_get_def wit_registry_def)
  from wit_page [OF env(3,1,2,4,5)] obtain w1 where p: "list_page ?env ?job wit_client (ij_folderRemoteId ?job) None 5 ?w
      = (Inr (\<lparr>lp_files = [], lp_subfolderIds = [], lp_nextPageToken = None\<rparr>, 0, 0), w1)" by blast
  then have "list_loop ?env ?job wit_client 5 2 (ij_folderRemoteId ?job) None [] 0 0 ?w = Some (Inr (0, 0), w1)"
    by (simp add: numeral_2_eq_2 has_token_def)
  then have "\<exists>w'. handleImportFolder 2 ?env ''j1'' 5 ?w = Some (Finished JobStatus_Success, w')"
    unfolding handleImportFolder_def j(1) env by (simp add: env(6))
  then obtain w' where w': "handleImportFolder 2 ?env ''j1'' 5 ?w = Some (Finished JobStatus_Success, w')" by blast
  have "\<exists>j. job_get ''j1'' w' = Some j \<and> ij_status j \<in> {ImportJobStatus_Importing, ImportJobStatus_Done}"
    using cancel_during_listing_is_lost [OF j(1) _ _ w'] j(2) by simp blast
  with w' show ?thesis by blast
qed

section \<open>Imports and the storage limit\<close>

lemma finishItem_frames [simp]:
  "assets (finishItem i c now w) = assets w" "events (finishItem i c now w) = events w"
  by (simp_all add: finishItem_def bumpCounter_def job_update_def split: option.splits)

lemma settle_storage: "getOrgStorageBytes org (settle i job f c now w) = getOrgStorageBytes org w"
  by (rule getOrgStorageBytes_cong) (simp_all add: settle_def markItem_def item_set_def)

text \<open>
  Imports ignore the storage limit: where an upload of the same size would be refused because
  the organization is full, importing the file succeeds and the organization's bytes go up by its size.
\<close>

theorem import_ignores_plan_limit:
  assumes "\<not> is_ok (assertStorageAvailable (ij_orgId job) sz w)"
    and "item_get i w = Some item" "ii_status item = ImportItemStatus_Pending"
    and "job_get (ii_importJobId item) w = Some job" "ij_status job \<noteq> ImportJobStatus_Cancelled"
    and "requireAccount (ij_orgId job) (ij_cloudAccountId job) w = Inr account"
    and "\<And>v. fst (getFreshAccessToken (ie_cipher env) (ie_registry env) account now v) = Inr tok"
    and "ie_registry env (ij_provider job) = Some client" "pc_downloadToFile client tok (ii_remoteId item) = Inr (ck, sz)"
    and "asset_findByChecksum (ij_eventId job) ck w = None" "ie_put_ok env" "ie_others env = (\<lambda>v. v)"
    and "e \<in> set (events w)" "e_id e = ij_eventId job" "e_orgId e = ij_orgId job" "e_deletedAt e = None"
  shows "fst (handleImportFile env folder i now w) = Finished JobStatus_Success
    \<and> getOrgStorageBytes (ij_orgId job) (snd (handleImportFile env folder i now w)) = getOrgStorageBytes (ij_orgId job) w + sz"
proof -
  let ?w1 = "markItem (ii_id item) (\<lambda>x. x\<lparr>ii_status := ImportItemStatus_Downloading\<rparr>) now w"
  let ?row = "import_row env job item ck sz now" and ?path = "import_path folder i"
  obtain w2 where tok: "getFreshAccessToken (ie_cipher env) (ie_registry env) account now ?w1 = (Inr tok, w2)"
    using assms(7) [of ?w1] by (metis prod.collapse)
  have w2: "assets w2 = assets w" "events w2 = events w"
    using token_frames(3,4) [of "ie_cipher env" "ie_registry env" account now ?w1]
    unfolding tok by (simp_all add: markItem_def item_set_def)
  let ?v = "putFile (a_storageKey ?row) (w2\<lparr>staging := staging w2 @ [?path]\<rparr>)"
  have v: "assets ?v = assets w" "events ?v = events w" by (simp_all add: putFile_def w2)
  have row: "a_eventId ?row = ij_eventId job" "a_checksum ?row = ck" "a_fileSize ?row = sz" "a_deletedAt ?row = None"
    by (simp_all add: import_row_def Let_def)
  have none: "asset_findByChecksum (ij_eventId job) ck u = None" if "assets u = assets w" for u
    using assms(10) that by (simp add: asset_findByChecksum_def)
  have made: "asset_create ?row ?v = (Inr ?row, ?v\<lparr>assets := assets ?v @ [?row]\<rparr>)"
    using assms(13,14) none [OF v(1)] by (auto simp: asset_create_def row v w2)
  let ?v1 = "?v\<lparr>assets := assets ?v @ [?row]\<rparr>"
  have req: "requireAccount (ij_orgId job) (ij_cloudAccountId job) ?w1 = Inr account"
    using assms(6) by (simp add: requireAccount_def account_getById_def markItem_def item_set_def)
  have "import_try env job item ?path now w
      = (None, settle (ii_id item) (ij_id job) (done_item (a_id ?row)) doneFiles now (queue (AssetProcess (a_id ?row)) ?v1))"
    unfolding import_try_def Let_def req using none [of "w2\<lparr>staging := staging w2 @ [?path]\<rparr>"] w2 made assms(8,9,11,12)
    by (simp add: tok registry_get_def store_import_def Let_def)
  then have run: "handleImportFile env folder i now w = (Finished JobStatus_Success, discard ?path
      (settle (ii_id item) (ij_id job) (done_item (a_id ?row)) doneFiles now (queue (AssetProcess (a_id ?row)) ?v1)))"
    using assms(2-5) by (simp add: handleImportFile_def Let_def)
  have "asset_counts_for (ij_orgId job) ?v ?row" using assms(13-16) by (auto simp: asset_counts_for_def row v w2)
  then have "getOrgStorageBytes (ij_orgId job) ?v1 = getOrgStorageBytes (ij_orgId job) w + sz"
    using getOrgStorageBytes_append [of "ij_orgId job" ?v ?row] getOrgStorageBytes_cong [OF v, of "ij_orgId job"]
    by (simp add: row)
  then show ?thesis unfolding run by (simp add: settle_storage)
qed

theorem import_ignores_plan_limit_witness:
  "getOrgStorageBytes ''o'' (snd (handleImportFile wit_import_env ''/s'' ''i1'' 5
     (wit_import_world\<lparr>organizations := [wit_org\<lparr>o_storageLimitBytes := Some 500\<rparr>]\<rparr>))) = 1000"
proof -
  let ?w = "wit_import_world\<lparr>organizations := [wit_org\<lparr>o_storageLimitBytes := Some 500\<rparr>]\<rparr>"
  have full: "\<not> is_ok (assertStorageAvailable (ij_orgId wit_job) 1000 ?w)"
    by (simp add: storage_quota.guard_ok limit_of_def org_getById_def limitsFor_def Let_def wit_org_def wit_job_def
        getOrgStorageBytes_def wit_import_world_def wit_event_world_def wit_org_world_def empty_world_def)
  have facts: "item_get ''i1'' ?w = Some wit_item" "job_get (ii_importJobId wit_item) ?w = Some wit_job"
    "ij_status wit_job \<noteq> ImportJobStatus_Cancelled" "asset_findByChecksum (ij_eventId wit_job) ''sha'' ?w = None"
    "ie_put_ok wit_import_env" "ie_others wit_import_env = (\<lambda>v. v)" "wit_event \<in> set (events ?w)"
    "e_id wit_event = ij_eventId wit_job" "e_orgId wit_event = ij_orgId wit_job" "e_deletedAt wit_event = None"
    "ie_registry wit_import_env (ij_provider wit_job) = Some wit_client"
    "pc_downloadToFile wit_client ''tok'' (ii_remoteId wit_item) = Inr (''sha'', 1000)"
    by (simp_all add: item_get_def job_get_def wit_import_world_def wit_item_def wit_job_def wit_import_env_def wit_event_def
        wit_event_world_def wit_org_world_def empty_world_def asset_findByChecksum_def wit_registry_def wit_client_def)
  have acc: "requireAccount (ij_orgId wit_job) (ij_cloudAccountId wit_job) ?w = Inr wit_account"
    using wit_requireAccount [of ?w] by (simp add: wit_job_def wit_import_world_def)
  have tok: "fst (getFreshAccessToken (ie_cipher wit_import_env) (ie_registry wit_import_env) wit_account 5 v) = Inr ''tok''" for v
    using wit_token [of 5 v] by (auto simp: wit_import_env_def)
  have "getOrgStorageBytes ''o'' ?w = 0" "ij_orgId wit_job = ''o''"
    by (simp_all add: getOrgStorageBytes_def wit_import_world_def wit_event_world_def wit_org_world_def empty_world_def wit_job_def)
  then show ?thesis
    using import_ignores_plan_limit [OF full facts(1) wit_import_facts(3) facts(2,3) acc tok facts(11,12,4-10)] by simp
qed

section \<open>Overlapping imports\<close>

lemma repoint_other:
  assumes "x \<in> set (importItems (repointItem k job g now w))" "ii_importJobId x \<noteq> job"
    and "\<And>y. ii_importJobId (g y) = ii_importJobId y"
  shows "x \<in> set (importItems w) \<and> k \<noteq> ii_id x"
  using assms by (auto simp: repointItem_def item_set_def set_update_where)

lemma classify_open:
  assumes "classify_files env job now by_id fs ins sk w = (ins', sk', w')" "i \<noteq> ij_id job"
    and "x \<in> set (importItems w')" "item_open i x"
  shows "x \<in> set (importItems w) \<and> (\<forall>f \<in> set fs. \<forall>known. by_id (rf_id f) = Some known \<longrightarrow> ii_id known \<noteq> ii_id x)"
  using assms(1,3)
proof (induction fs arbitrary: ins sk w)
  case (Cons f fs)
  show ?case
  proof (cases "by_id (rf_id f)")
    case None
    with Cons show ?thesis by fastforce
  next
    case (Some known)
    define g :: "importitem_row \<Rightarrow> importitem_row" where "g = (if unchanged known f then (\<lambda>x. x\<lparr>ii_status := ImportItemStatus_SkippedDuplicate\<rparr>)
      else (\<lambda>x. x\<lparr>ii_status := ImportItemStatus_Pending, ii_remoteChecksum := rf_checksum f,
                   ii_remoteName := rf_name f, ii_remoteSize := rf_size f, ii_error := None\<rparr>))"
    have g: "ii_importJobId (g x) = ii_importJobId x" "ii_id (g x) = ii_id x" for x by (simp_all add: g_def)
    from Cons.prems(1) Some obtain sk1 where
      rest: "classify_files env job now by_id fs ins sk1 (repointItem (ii_id known) (ij_id job) g now w) = (ins', sk', w')"
      by (cases "unchanged known f") (auto simp: g_def)
    from Cons.IH [OF rest Cons.prems(2)]
    have "x \<in> set (importItems (repointItem (ii_id known) (ij_id job) g now w))" by simp
    moreover have "ii_importJobId x = i" using assms(4) by (simp add: item_open_def)
    ultimately have "x \<in> set (importItems w) \<and> ii_id known \<noteq> ii_id x"
      using repoint_other [of x _ _ g] g(1) assms(2) by metis
    with Cons.IH [OF rest Cons.prems(2)] Some show ?thesis by auto
  qed
qed simp

lemma classify_inserts:
  "classify_files env job now by_id fs ins sk w = (ins', sk', w') \<Longrightarrow> (\<And>x. x \<in> set ins \<Longrightarrow> ii_importJobId x = ij_id job) \<Longrightarrow>
    x \<in> set ins' \<Longrightarrow> ii_importJobId x = ij_id job"
proof (induction fs arbitrary: ins sk w)
  case (Cons f fs)
  show ?case
  proof (cases "by_id (rf_id f)")
    case None
    with Cons.prems(1) have "classify_files env job now by_id fs (ins @ [new_item env job f now]) sk w = (ins', sk', w')" by simp
    then show ?thesis by (rule Cons.IH [OF _ _ Cons.prems(3)]) (use Cons.prems(2) in \<open>auto simp: new_item_def\<close>)
  next
    case (Some known)
    with Cons.prems(1) obtain sk1 v where "classify_files env job now by_id fs ins sk1 v = (ins', sk', w')"
      by (cases "unchanged known f") auto
    from Cons.IH [OF this Cons.prems(2,3)] show ?thesis .
  qed
qed simp

lemma takeover_empties:
  assumes "distinct (map item_key (importItems w))" "i \<noteq> ij_id job"
    and "\<And>x. x \<in> set (importItems w) \<Longrightarrow> item_open i x \<Longrightarrow>
      \<exists>f \<in> set files. item_key x = (ij_eventId job, ij_provider job, rf_id f)"
    and "upsertListingPage env job files now w = (Inr n, w')"
  shows "open_items i w' = 0"
proof (cases "files = []")
  case True
  with assms(3,4) show ?thesis by (auto simp: upsertListingPage_def open_items_def filter_empty_conv)
next
  case False
  let ?by = "map_of (rev (map (\<lambda>x. (ii_remoteId x, x)) (getExistingByRemoteIds (ij_eventId job) (ij_provider job) (map rf_id files) w)))"
  obtain ins sk w1 where c: "classify_files env job now ?by files [] 0 w = (ins, sk, w1)" by (rule prod_cases3)
  from assms(4) False c have "importItems w' = importItems w1 @ ins"
    by (auto simp: upsertListingPage_def Let_def insertItems_def split: sum.splits prod.splits if_splits)
  moreover have "\<not> item_open i x" if x: "x \<in> set (importItems w1)" for x
  proof
    assume o: "item_open i x"
    note old = classify_open [OF c assms(2) x o]
    with assms(3) o obtain f where "f \<in> set files" "item_key x = (ij_eventId job, ij_provider job, rf_id f)" by blast
    with existing_lookup [OF assms(1)] old show False by blast
  qed
  moreover have "\<not> item_open i x" if "x \<in> set ins" for x
    using classify_inserts [OF c _ that] assms(2) by (simp add: item_open_def)
  ultimately show ?thesis by (simp add: open_items_def filter_empty_conv)
qed

definition run_files :: "(import_env \<times> string \<times> uuid \<times> ms) list \<Rightarrow> world \<Rightarrow> world" where
  "run_files hs w = fold (\<lambda>(env, folder, i, now) v. snd (handleImportFile env folder i now v)) hs w"

definition stuck :: "uuid \<Rightarrow> importjob_row \<Rightarrow> world \<Rightarrow> bool" where
  "stuck i j w \<longleftrightarrow> job_get i w = Some j \<and> open_items i w = 0 \<and> unique_jobs w \<and> unique_items w"

lemma settling_closes:
  assumes "settling g"
  shows "\<not> item_open k (g x)"
proof -
  have "item_settled (g x)" using assms by (simp add: settling_def)
  then show ?thesis by (auto simp: item_settled_def item_open_def)
qed

lemma stuck_step:
  assumes "stuck i j w" "keeps_imports (ie_others env)" "handleImportFile env folder k now w = (r, w')"
  shows "stuck i j w'"
proof (cases "\<exists>item job. item_get k w = Some item \<and> ii_status item = ImportItemStatus_Pending
    \<and> job_get (ii_importJobId item) w = Some job \<and> ij_status job \<noteq> ImportJobStatus_Cancelled")
  case False
  then have "w' = w" using assms(3)
    by (auto simp: handleImportFile_def split: option.splits if_splits)
  with assms(1) show ?thesis by simp
next
  case True
  then obtain item job where item: "item_get k w = Some item" "ii_status item = ImportItemStatus_Pending"
    and job: "job_get (ii_importJobId item) w = Some job" "ij_status job \<noteq> ImportJobStatus_Cancelled" by blast
  have uj: "unique_jobs w" and ui: "unique_items w" using assms(1) by (simp_all add: stuck_def)
  have mem: "item \<in> set (importItems w)" "ii_id item = k" using item_get_SomeD [OF item(1)] by simp_all
  have other: "ii_importJobId item \<noteq> i"
    using assms(1) mem(1) item(2) by (auto simp: stuck_def open_items_def filter_empty_conv item_open_def)
  then have ne: "i \<noteq> ij_id job" using job_get_SomeD [OF job(1)] by simp
  have fin: "row_update ij_id (finish_row b c now)" for b c by unfold_locales simp
  from assms(2) uj item job assms(3) show ?thesis
  proof (cases rule: handleImportFile_effect)
    case (settled g c)
    have "job_get i w' = Some j"
      unfolding job_get_def settled(4) using row_update.lookup_miss [OF fin ne] assms(1) by (simp add: stuck_def job_get_def)
    moreover have "open_items i w' = 0"
      using assms(1) settling_closes [OF settled(2)]
      by (auto simp: stuck_def open_items_def settled(3) filter_empty_conv set_update_where split: if_splits)
    moreover have "unique_items w'" "unique_jobs w'"
      using ui uj settled(2) unfolding settled(3,4) by (simp_all add: update_where_def comp_def settling_def if_distrib cong: if_cong)
    ultimately show ?thesis by (simp add: stuck_def)
  next
    case (limited t)
    have same: "x = item" if "x \<in> set (importItems w)" "ii_id x = k" for x
      using ui that mem by (auto simp: distinct_map inj_on_def)
    have "open_items i w' = 0"
      using assms(1) same other by (auto simp: stuck_def open_items_def limited(3) filter_empty_conv set_update_where
          item_open_def split: if_splits)
    moreover have "unique_items w'"
      using ui unfolding limited(3) by (simp add: update_where_def comp_def if_distrib cong: if_cong)
    ultimately show ?thesis using assms(1) limited(2) by (simp add: stuck_def job_get_def)
  qed
qed

lemma stuck_forever:
  "stuck i j w \<Longrightarrow> (\<And>h. h \<in> set hs \<Longrightarrow> keeps_imports (ie_others (fst h))) \<Longrightarrow> stuck i j (run_files hs w)"
proof (induction hs arbitrary: w)
  case (Cons h hs)
  obtain env folder k now where h: "h = (env, folder, k, now)" by (cases h)
  have "stuck i j (snd (handleImportFile env folder k now w))"
    using stuck_step [OF Cons.prems(1) _ prod.collapse [symmetric]] Cons.prems(2) [of h] h by simp
  from Cons.IH [OF this] Cons.prems(2) h show ?case by (simp add: run_files_def)
qed (simp add: run_files_def)

text \<open>
  A second import strands the first: when it lists every file the first one still has open, it
  takes over their items, and from then on no file job, in whatever number and order, changes the
  first import again: it stays "importing" with its counters short of the total forever.
\<close>

theorem takeover_strands_import:
  assumes "distinct (map item_key (importItems w))" "unique_jobs w" "unique_items w'" "i \<noteq> ij_id job"
    and "\<And>x. x \<in> set (importItems w) \<Longrightarrow> item_open i x \<Longrightarrow>
      \<exists>f \<in> set files. item_key x = (ij_eventId job, ij_provider job, rf_id f)"
    and "upsertListingPage env job files now w = (Inr n, w')" "job_get i w = Some first"
    and "\<And>h. h \<in> set hs \<Longrightarrow> keeps_imports (ie_others (fst h))"
  shows "job_get i (run_files hs w') = Some first \<and> open_items i (run_files hs w') = 0"
proof -
  have "importJobs w' = importJobs w" using upsert_jobs [of env job files now w] assms(6) by simp
  then have "stuck i first w'"
    using takeover_empties [OF assms(1,4,5,6)] assms(2,3,7) by (simp add: stuck_def job_get_def)
  from stuck_forever [OF this assms(8)] show ?thesis by (simp add: stuck_def)
qed

theorem takeover_strands_import_witness:
  "job_get ''j1'' (run_files [(wit_import_env, ''/s'', ''i1'', 6)] (snd (upsertListingPage wit_import_env
     (wit_job\<lparr>ij_id := ''j2''\<rparr>) [wit_file] 5 wit_import_world))) = Some wit_job
   \<and> ij_status wit_job = ImportJobStatus_Importing \<and> accounted wit_job < ij_totalFiles wit_job"
proof -
  let ?job = "wit_job\<lparr>ij_id := ''j2''\<rparr>" and ?w = wit_import_world
  let ?ex = "getExistingByRemoteIds (ij_eventId ?job) (ij_provider ?job) (map rf_id [wit_file]) ?w"
  have ex: "?ex = [wit_item]"
    by (simp add: getExistingByRemoteIds_def wit_import_facts) (simp add: wit_item_def wit_job_def wit_file_def)
  have un: "\<not> unchanged wit_item wit_file" "ii_remoteId wit_item = rf_id wit_file"
    by (simp_all add: unchanged_def wit_item_def wit_file_def)
  let ?w' = "repointItem (ii_id wit_item) (ij_id ?job) (\<lambda>x. x\<lparr>ii_status := ImportItemStatus_Pending, ii_remoteChecksum := rf_checksum wit_file,
      ii_remoteName := rf_name wit_file, ii_remoteSize := rf_size wit_file, ii_error := None\<rparr>) 5 ?w"
  have run: "upsertListingPage wit_import_env ?job [wit_file] 5 ?w = (Inr (1, 0), ?w')"
    unfolding upsertListingPage_def ex Let_def using un by (simp add: insertItems_def)
  have u: "unique_items ?w'" by (simp add: repointItem_def item_set_def wit_import_facts)
  have d: "distinct (map item_key (importItems ?w))" "''j1'' \<noteq> ij_id ?job"
    by (simp_all add: wit_import_facts) 
  have cover: "\<exists>f \<in> set [wit_file]. item_key x = (ij_eventId ?job, ij_provider ?job, rf_id f)" if "x \<in> set (importItems ?w)" for x
    using that by (simp add: wit_import_facts item_key_def) (simp add: wit_item_def wit_job_def wit_file_def)
  have keeps: "keeps_imports (ie_others (fst h))" if "h \<in> set [(wit_import_env, ''/s'', ''i1'', 6)]" for h
    using that by (simp add: wit_import_facts)
  have "accounted wit_job < ij_totalFiles wit_job" by (simp add: accounted_def wit_job_def)
  then show ?thesis
    using takeover_strands_import [where hs = "[(wit_import_env, ''/s'', ''i1'', 6)]", OF d(1) wit_import_facts(9) u d(2) cover run wit_import_facts(2) keeps]
    by (simp add: run wit_import_facts)
qed

end
