(* ===== verification/People.thy ===== *)
theory People
  imports StorageKeys "HOL-Library.List_Lexorder" "HOL-Library.Char_ord"
begin

text \<open>
  \<^verbatim>\<open>repositories/person.repository.ts\<close> and \<^verbatim>\<open>services/person.service.ts\<close>: the clusters of faces
  the organizer reviews, their names (given by the organizer or by the guest whose selfie matched)
  and merging. Text is ordered by its characters. A presigned URL is represented by the key it is
  made from.
\<close>

section \<open>The repository\<close>

definition person_create :: "uuid \<Rightarrow> uuid \<Rightarrow> uuid \<Rightarrow> uuid \<Rightarrow> ms \<Rightarrow> world \<Rightarrow> person_row \<times> world" where
  [repo_defs]: "person_create i ev org face now w =
     (let p = \<lparr>p_id = i, p_eventId = ev, p_orgId = org, p_name = '''', p_nameSetAt = None, p_nameSource = '''',
               p_faceAssetFaceId = Some face, p_thumbnailKey = '''', p_isHidden = False, p_updatedAt = now\<rparr>
      in (p, w\<lparr>persons := persons w @ [p]\<rparr>))"

definition person_getById :: "uuid \<Rightarrow> uuid \<Rightarrow> world \<Rightarrow> person_row option" where
  [repo_defs]: "person_getById ev i w = select_first (\<lambda>p. p_id p = i \<and> p_eventId p = ev) (persons w)"

text \<open>The live assets a person's live faces are on, without repetition.\<close>

definition asset_live :: "uuid \<Rightarrow> world \<Rightarrow> bool" where
  "asset_live i w \<longleftrightarrow> (\<exists>a \<in> set (assets w). a_id a = i \<and> a_deletedAt a = None)"

definition photos_of :: "uuid \<Rightarrow> world \<Rightarrow> uuid list" where
  "photos_of person w =
     remdups (map f_assetId (filter (\<lambda>f. f_personId f = Some person \<and> f_deletedAt f = None
        \<and> asset_live (f_assetId f) w) (assetFaces w)))"

definition getAllForEvent :: "uuid \<Rightarrow> bool \<Rightarrow> world \<Rightarrow> (person_row \<times> nat) list" where
  [repo_defs]: "getAllForEvent ev includeHidden w =
     sort_key (\<lambda>x. - int (snd x))
       (map (\<lambda>p. (p, length (photos_of (p_id p) w)))
         (filter (\<lambda>p. p_eventId p = ev \<and> (includeHidden \<or> \<not> p_isHidden p)) (persons w)))"

text \<open>
  \<^verbatim>\<open>name\<close> and \<^verbatim>\<open>thumbnail_key\<close> are \<^verbatim>\<open>NOT NULL DEFAULT ''\<close>, so the tests for \<^verbatim>\<open>NULL\<close> always pass.
\<close>

definition org_visible :: "uuid \<Rightarrow> world \<Rightarrow> person_row \<Rightarrow> bool" where
  "org_visible org w p \<longleftrightarrow> p_orgId p = org \<and> \<not> p_isHidden p
     \<and> (\<exists>e \<in> set (events w). e_id e = p_eventId p \<and> e_deletedAt e = None)"

definition countNamedForOrg :: "uuid \<Rightarrow> world \<Rightarrow> nat" where
  [repo_defs]: "countNamedForOrg org w = length (filter (\<lambda>p. org_visible org w p \<and> p_name p \<noteq> '''') (persons w))"

definition getAllForOrg :: "uuid \<Rightarrow> world \<Rightarrow> (person_row \<times> string \<times> nat) list" where
  [repo_defs]: "getAllForOrg org w =
     sort_key (\<lambda>x. - int (snd (snd x)))
       (concat (map (\<lambda>p. map (\<lambda>e. (p, e_name e, length (photos_of (p_id p) w)))
          (filter (\<lambda>e. e_id e = p_eventId p \<and> e_deletedAt e = None) (events w)))
        (filter (\<lambda>p. p_orgId p = org \<and> \<not> p_isHidden p) (persons w))))"

text \<open>Grouped by person, most faces first.\<close>

definition getPersonsForFaces :: "uuid list \<Rightarrow> world \<Rightarrow> (uuid \<times> string \<times> nat) list" where
  [repo_defs]: "getPersonsForFaces faceIds w =
     (let hits = (\<lambda>p. filter (\<lambda>f. f_id f \<in> set faceIds \<and> f_personId f = Some (p_id p)) (assetFaces w))
      in sort_key (\<lambda>x. - int (snd (snd x)))
           (map (\<lambda>p. (p_id p, p_name p, length (hits p))) (filter (\<lambda>p. hits p \<noteq> []) (persons w))))"

subsection \<open>Names from claims\<close>

text \<open>The named live participants matched through a face of the cluster, with the time of the match.\<close>

definition claims :: "uuid \<Rightarrow> world \<Rightarrow> (string \<times> ms) list" where
  "claims person w =
     concat (map (\<lambda>f. concat (map (\<lambda>m.
         map (\<lambda>p. (pt_name p, m_createdAt m))
           (filter (\<lambda>p. pt_id p = m_participantId m \<and> pt_deletedAt p = None \<and> pt_name p \<noteq> '''') (participants w)))
       (filter (\<lambda>m. m_viaFaceId m = Some (f_id f)) (participantMatches w))))
     (filter (\<lambda>f. f_personId f = Some person) (assetFaces w)))"

definition latest_claim :: "uuid \<Rightarrow> world \<Rightarrow> (string \<times> ms) option" where
  "latest_claim person w =
     (case sort_key (\<lambda>c. - snd c) (sort_key fst (claims person w)) of [] \<Rightarrow> None | c # _ \<Rightarrow> Some c)"

definition getClaimedPersonIds :: "world \<Rightarrow> (uuid \<times> uuid) list" where
  [repo_defs]: "getClaimedPersonIds w = map (\<lambda>p. (p_id p, p_eventId p)) (filter (\<lambda>p. claims (p_id p) w \<noteq> []) (persons w))"

definition older_than :: "ms option \<Rightarrow> ms \<Rightarrow> bool" where
  "older_than t a \<longleftrightarrow> (case t of None \<Rightarrow> True | Some x \<Rightarrow> x < a)"

definition nameFromParticipants :: "uuid \<Rightarrow> uuid \<Rightarrow> ms \<Rightarrow> world \<Rightarrow> string option \<times> world" where
  [repo_defs]: "nameFromParticipants ev person now w =
     (case latest_claim person w of
        None \<Rightarrow> (None, w)
      | Some (name, t) \<Rightarrow>
          let p = (\<lambda>r. p_id r = person \<and> p_eventId r = ev \<and> older_than (p_nameSetAt r) t)
          in (if \<exists>r \<in> set (persons w). p r then Some name else None,
              w\<lparr>persons := update_where p (\<lambda>r. r\<lparr>p_name := name, p_nameSetAt := Some t,
                   p_nameSource := ''participant'', p_updatedAt := now\<rparr>) (persons w)\<rparr>))"

subsection \<open>Updates\<close>

record UpdatePersonDto =
  up_name :: "string option"
  up_isHidden :: "bool option"

definition apply_person_dto :: "UpdatePersonDto \<Rightarrow> ms \<Rightarrow> person_row \<Rightarrow> person_row" where
  "apply_person_dto dto now p =
     (let p1 = (case up_name dto of None \<Rightarrow> p
                | Some n \<Rightarrow> p\<lparr>p_name := n, p_nameSetAt := Some now, p_nameSource := ''organiser''\<rparr>);
          p2 = (case up_isHidden dto of None \<Rightarrow> p1 | Some b \<Rightarrow> p1\<lparr>p_isHidden := b\<rparr>)
      in p2\<lparr>p_updatedAt := now\<rparr>)"

definition person_set :: "uuid \<Rightarrow> uuid \<Rightarrow> (person_row \<Rightarrow> person_row) \<Rightarrow> world \<Rightarrow> person_row outcome \<times> world" where
  "person_set ev i f w =
     (let p = (\<lambda>r. p_id r = i \<and> p_eventId r = ev)
      in (case select_first p (persons w) of
            None \<Rightarrow> (Inl (ServerError ''no result''), w)
          | Some r \<Rightarrow> (Inr (f r), w\<lparr>persons := update_where p f (persons w)\<rparr>)))"

definition person_update :: "uuid \<Rightarrow> uuid \<Rightarrow> UpdatePersonDto \<Rightarrow> ms \<Rightarrow> world \<Rightarrow> person_row outcome \<times> world" where
  [repo_defs]: "person_update ev i dto now w = person_set ev i (apply_person_dto dto now) w"

definition setThumbnailKey :: "uuid \<Rightarrow> string \<Rightarrow> ms \<Rightarrow> world \<Rightarrow> world" where
  [repo_defs]: "setThumbnailKey i key now w =
     w\<lparr>persons := update_where (\<lambda>p. p_id p = i) (\<lambda>p. p\<lparr>p_thumbnailKey := key, p_updatedAt := now\<rparr>) (persons w)\<rparr>"

text \<open>The cover face with its asset; all three rows have to be there.\<close>

definition getThumbnailData :: "uuid \<Rightarrow> world \<Rightarrow> (person_row \<times> face_row \<times> asset_row) option" where
  [repo_defs]: "getThumbnailData i w =
     (case concat (map (\<lambda>p. concat (map (\<lambda>f. map (\<lambda>a. (p, f, a))
             (filter (\<lambda>a. a_id a = f_assetId f \<and> a_deletedAt a = None) (assets w)))
           (filter (\<lambda>f. p_faceAssetFaceId p = Some (f_id f)) (assetFaces w))))
         (filter (\<lambda>p. p_id p = i) (persons w))) of
        [] \<Rightarrow> None | x # _ \<Rightarrow> Some x)"

definition getAllWithoutFaces :: "world \<Rightarrow> person_row list" where
  [repo_defs]: "getAllWithoutFaces w =
     filter (\<lambda>p. \<not> (\<exists>f \<in> set (assetFaces w). f_personId f = Some (p_id p) \<and> f_deletedAt f = None)) (persons w)"

text \<open>\<^verbatim>\<open>asset_face.person_id\<close> is \<^verbatim>\<open>ON DELETE SET NULL\<close>.\<close>

definition person_delete :: "uuid list \<Rightarrow> world \<Rightarrow> world" where
  [repo_defs]: "person_delete ids w =
     w\<lparr>persons := delete_where (\<lambda>p. p_id p \<in> set ids) (persons w),
       assetFaces := map (\<lambda>f. f\<lparr>f_personId := null_if_dead ids (f_personId f)\<rparr>) (assetFaces w)\<rparr>"

definition getFaceOfPerson :: "uuid \<Rightarrow> uuid \<Rightarrow> world \<Rightarrow> face_row option" where
  [repo_defs]: "getFaceOfPerson person face w =
     select_first (\<lambda>f. f_id f = face \<and> f_personId f = Some person \<and> f_deletedAt f = None) (assetFaces w)"

definition reassignFacesOfPeople :: "uuid \<Rightarrow> uuid list \<Rightarrow> world \<Rightarrow> nat \<times> world" where
  [repo_defs]: "reassignFacesOfPeople target sources w =
     (let p = (\<lambda>f. case f_personId f of None \<Rightarrow> False | Some i \<Rightarrow> i \<in> set sources)
      in (length (filter p (assetFaces w)),
          w\<lparr>assetFaces := update_where p (\<lambda>f. f\<lparr>f_personId := Some target\<rparr>) (assetFaces w)\<rparr>))"

definition getAssetIdsOfPerson :: "uuid \<Rightarrow> uuid \<Rightarrow> world \<Rightarrow> uuid list" where
  [repo_defs]: "getAssetIdsOfPerson ev person w =
     remdups (map f_assetId (filter (\<lambda>f. f_personId f = Some person \<and> f_deletedAt f = None
        \<and> (\<exists>a \<in> set (assets w). a_id a = f_assetId f \<and> a_eventId a = ev \<and> a_deletedAt a = None)) (assetFaces w)))"

section \<open>The service\<close>

definition portrait :: "person_row \<Rightarrow> string option" where
  "portrait p = (if p_thumbnailKey p = '''' then None else Some (p_thumbnailKey p))"

record PersonCard =
  pc_id :: uuid
  pc_name :: string
  pc_isHidden :: bool
  pc_thumbnail :: "string option"

definition person_card :: "person_row \<Rightarrow> PersonCard" where
  "person_card p = \<lparr>pc_id = p_id p, pc_name = p_name p, pc_isHidden = p_isHidden p, pc_thumbnail = portrait p\<rparr>"

definition person_list :: "uuid \<Rightarrow> world \<Rightarrow> (PersonCard \<times> nat) list" where
  "person_list ev w = map (\<lambda>(p, n). (person_card p, n)) (getAllForEvent ev True w)"

definition listForOrg :: "uuid \<Rightarrow> world \<Rightarrow> (PersonCard \<times> uuid \<times> string \<times> nat) list" where
  "listForOrg org w = map (\<lambda>(p, ev, n). (person_card p, p_eventId p, ev, n)) (getAllForOrg org w)"

definition person_get :: "uuid \<Rightarrow> uuid \<Rightarrow> world \<Rightarrow> PersonCard outcome" where
  "person_get ev i w =
    (case person_getById ev i w of None \<Rightarrow> Inl (NotFound ''Person not found'') | Some p \<Rightarrow> Inr (person_card p))"

definition updatePerson :: "uuid \<Rightarrow> uuid \<Rightarrow> UpdatePersonDto \<Rightarrow> ms \<Rightarrow> world \<Rightarrow> person_row outcome \<times> world" where
  "updatePerson ev i dto now w =
    (case person_getById ev i w of
       None \<Rightarrow> (Inl (NotFound ''Person not found''), w)
     | Some _ \<Rightarrow> person_update ev i dto now w)"

definition person_setCover :: "uuid \<Rightarrow> uuid \<Rightarrow> uuid \<Rightarrow> ms \<Rightarrow> world \<Rightarrow> unit outcome \<times> world" where
  "person_setCover ev i face now w =
    (case person_getById ev i w of
       None \<Rightarrow> (Inl (NotFound ''Person not found''), w)
     | Some _ \<Rightarrow>
    (case getFaceOfPerson i face w of
       None \<Rightarrow> (Inl (BadRequest ''That face does not belong to this person''), w)
     | Some _ \<Rightarrow>
    (case person_set ev i (\<lambda>p. p\<lparr>p_faceAssetFaceId := Some face, p_updatedAt := now\<rparr>) w of
       (Inl e, w1) \<Rightarrow> (Inl e, w1)
     | (Inr _, w1) \<Rightarrow> (Inr (), queue (PersonThumbnail i) w1))))"

text \<open>\<^verbatim>\<open>[...new Set(ids)].filter((id) => id !== personId)\<close>: the first occurrence of each id.\<close>

fun unique :: "'a list \<Rightarrow> 'a list" where
  "unique [] = []"
| "unique (x # xs) = x # filter (\<lambda>y. y \<noteq> x) (unique xs)"

fun getSources :: "uuid \<Rightarrow> uuid list \<Rightarrow> world \<Rightarrow> person_row list outcome" where
  "getSources ev [] w = Inr []"
| "getSources ev (i # ids) w =
    (case person_getById ev i w of
       None \<Rightarrow> Inl (NotFound ''Person not found in this event'')
     | Some p \<Rightarrow> (case getSources ev ids w of Inl e \<Rightarrow> Inl e | Inr ps \<Rightarrow> Inr (p # ps)))"

record MergeResult =
  mr_mergedCount :: nat
  mr_facesMoved :: nat

definition merge_people :: "uuid \<Rightarrow> uuid \<Rightarrow> uuid list \<Rightarrow> world \<Rightarrow> MergeResult outcome \<times> world" where
  "merge_people ev i ids w =
    (case person_getById ev i w of
       None \<Rightarrow> (Inl (NotFound ''Person not found''), w)
     | Some target \<Rightarrow>
        let sourceIds = filter (\<lambda>x. x \<noteq> i) (unique ids)
        in if sourceIds = [] then (Inl (BadRequest ''Nothing to merge''), w)
           else
    (case getSources ev sourceIds w of
       Inl e \<Rightarrow> (Inl e, w)
     | Inr sources \<Rightarrow>
        let (moved, w1) = reassignFacesOfPeople i sourceIds w;
            w2 = person_delete sourceIds w1;
            keys = filter (\<lambda>k. k \<noteq> '''') (map p_thumbnailKey sources);
            w3 = (if keys \<noteq> [] then queue (CleanupKeys keys) w2 else w2);
            w4 = (if p_faceAssetFaceId target = None \<or> p_thumbnailKey target = ''''
                  then queue (PersonThumbnail i) w3 else w3)
        in (Inr \<lparr>mr_mergedCount = length sourceIds, mr_facesMoved = moved\<rparr>, w4)))"

text \<open>Newest first, by the capture time or else the upload time; the fields shown are the asset's own.\<close>

definition shown_at :: "asset_row \<Rightarrow> ms" where
  "shown_at a = or_default (a_capturedAt a) (a_createdAt a)"

definition person_getAssets :: "uuid \<Rightarrow> uuid \<Rightarrow> world \<Rightarrow> asset_row list outcome" where
  "person_getAssets ev i w =
    (case person_getById ev i w of
       None \<Rightarrow> Inl (NotFound ''Person not found'')
     | Some _ \<Rightarrow> Inr (sort_key (\<lambda>a. - shown_at a)
         (somes (map (\<lambda>x. asset_getById ev x w) (getAssetIdsOfPerson ev i w)))))"

section \<open>Last write wins\<close>

abbreviation unique_persons :: "world \<Rightarrow> bool" where
  "unique_persons w \<equiv> distinct (map p_id (persons w))"

lemma person_getById_SomeD:
  "person_getById ev i w = Some p \<Longrightarrow> p \<in> set (persons w) \<and> p_id p = i \<and> p_eventId p = ev"
  unfolding person_getById_def by (drule select_first_SomeD) simp

lemma claims_persons [simp]: "claims i (w\<lparr>persons := ps\<rparr>) = claims i w" "latest_claim i (w\<lparr>persons := ps\<rparr>) = latest_claim i w"
  by (simp_all add: claims_def latest_claim_def)

lemma person_getById_set:
  assumes "person_getById ev i w = Some p" "\<And>r. p_id (f r) = p_id r" "\<And>r. p_eventId (f r) = p_eventId r"
  shows "person_getById ev i (w\<lparr>persons := update_where (\<lambda>r. p_id r = i \<and> p_eventId r = ev \<and> q r) f (persons w)\<rparr>)
    = Some (if q p then f p else p)"
  using assms select_first_update_where [of "\<lambda>r. p_id r = i \<and> p_eventId r = ev" f "\<lambda>r. p_id r = i \<and> p_eventId r = ev \<and> q r" "persons w"]
  by (auto simp: person_getById_def dest: select_first_SomeD)

text \<open>One naming run: the newest claim is written exactly when it is newer than the name.\<close>

definition named_from :: "(string \<times> ms) option \<Rightarrow> ms \<Rightarrow> person_row \<Rightarrow> person_row" where
  "named_from c now p =
     (case c of
        Some (name, t) \<Rightarrow> if older_than (p_nameSetAt p) t
          then p\<lparr>p_name := name, p_nameSetAt := Some t, p_nameSource := ''participant'', p_updatedAt := now\<rparr> else p
      | None \<Rightarrow> p)"

lemma nameFromParticipants_row:
  assumes "person_getById ev i w = Some p"
  shows "person_getById ev i (snd (nameFromParticipants ev i now w)) = Some (named_from (latest_claim i w) now p)"
proof (cases "latest_claim i w")
  case None
  with assms show ?thesis by (simp add: nameFromParticipants_def named_from_def)
next
  case (Some c)
  then show ?thesis
    using person_getById_set [OF assms, of "\<lambda>r. r\<lparr>p_name := fst c, p_nameSetAt := Some (snd c), p_nameSource := ''participant'', p_updatedAt := now\<rparr>"
        "\<lambda>r. older_than (p_nameSetAt r) (snd c)"]
    by (cases c) (simp add: nameFromParticipants_def named_from_def Let_def)
qed

lemma nameFromParticipants_claims:
  "latest_claim i (snd (nameFromParticipants ev j now w)) = latest_claim i w"
  by (simp add: nameFromParticipants_def Let_def split: option.splits prod.splits)

definition run_naming :: "uuid \<Rightarrow> uuid \<Rightarrow> ms list \<Rightarrow> world \<Rightarrow> world" where
  "run_naming ev i ts w = fold (\<lambda>t v. snd (nameFromParticipants ev i t v)) ts w"

lemma named_from_idem:
  "p_name (named_from c t (named_from c t' p)) = p_name (named_from c t' p)"
  "p_nameSetAt (named_from c t (named_from c t' p)) = p_nameSetAt (named_from c t' p)"
  by (auto simp: named_from_def older_than_def split: option.splits prod.splits)

lemma run_naming_row:
  "person_getById ev i w = Some p \<Longrightarrow> ts \<noteq> [] \<Longrightarrow>
    \<exists>p'. person_getById ev i (run_naming ev i ts w) = Some p' \<and> p_name p' = p_name (named_from (latest_claim i w) 0 p)
      \<and> p_nameSetAt p' = p_nameSetAt (named_from (latest_claim i w) 0 p)"
proof (induction ts arbitrary: w p)
  case (Cons t ts)
  let ?w = "snd (nameFromParticipants ev i t w)" and ?c = "latest_claim i w"
  have same: "p_name (named_from c t p) = p_name (named_from c 0 p)" "p_nameSetAt (named_from c t p) = p_nameSetAt (named_from c 0 p)" for c
    by (auto simp: named_from_def split: option.splits prod.splits)
  note row = nameFromParticipants_row [OF Cons.prems(1), of t]
  show ?case
  proof (cases ts)
    case Nil
    with row same show ?thesis by (simp add: run_naming_def)
  next
    case (Cons t' ts')
    then have "ts \<noteq> []" by simp
    from Cons.IH [OF row this] show ?thesis
      using named_from_idem [of ?c 0 t p] same by (simp add: run_naming_def nameFromParticipants_claims)
  qed
qed simp

text \<open>
  Last write wins between the organizer and the guests: after the organizer renames a person,
  however often the naming job runs, the person carries the organizer's name unless a guest's match was
  recorded after the rename, and then the newest such guest's name. Old claims never undo a correction.
\<close>

theorem last_write_wins:
  assumes "person_getById ev i w = Some p" "up_name dto = Some n" "runs \<noteq> []"
  shows "\<exists>r p'. fst (updatePerson ev i dto t w) = Inr r
    \<and> person_getById ev i (run_naming ev i runs (snd (updatePerson ev i dto t w))) = Some p'
    \<and> p_name p' = (case latest_claim i w of Some (c, a) \<Rightarrow> if t < a then c else n | None \<Rightarrow> n)"
proof -
  let ?f = "apply_person_dto dto t" and ?w = "snd (updatePerson ev i dto t w)"
  have f: "p_id (?f r) = p_id r" "p_eventId (?f r) = p_eventId r" for r
    by (simp_all add: apply_person_dto_def Let_def split: option.splits)
  have up: "updatePerson ev i dto t w =
      (Inr (?f p), w\<lparr>persons := update_where (\<lambda>r. p_id r = i \<and> p_eventId r = ev) ?f (persons w)\<rparr>)"
    using assms(1) by (simp add: updatePerson_def person_update_def person_set_def person_getById_def)
  have row: "person_getById ev i ?w = Some (?f p)"
    using person_getById_set [OF assms(1) f, of "\<lambda>_. True"] by (simp add: up)
  have claim: "latest_claim i ?w = latest_claim i w" by (simp add: up)
  have "p_name (?f p) = n" "p_nameSetAt (?f p) = Some t"
    using assms(2) by (simp_all add: apply_person_dto_def Let_def split: option.splits)
  then have "p_name (named_from (latest_claim i w) 0 (?f p)) =
      (case latest_claim i w of Some (c, a) \<Rightarrow> if t < a then c else n | None \<Rightarrow> n)"
    by (simp add: named_from_def older_than_def split: option.splits prod.splits)
  moreover from run_naming_row [OF row assms(3)] obtain p' where
    "person_getById ev i (run_naming ev i runs ?w) = Some p'" "p_name p' = p_name (named_from (latest_claim i w) 0 (?f p))"
    unfolding claim by blast
  ultimately show ?thesis using up by simp
qed

lemma latest_claim_newest:
  assumes "latest_claim i w = Some (c, a)"
  shows "(c, a) \<in> set (claims i w) \<and> (\<forall>(c', a') \<in> set (claims i w). a' < a \<or> (a' = a \<and> c \<le> c'))"
proof -
  let ?xs = "sort_key fst (claims i w)"
  obtain rest where srt: "sort_key (\<lambda>c. - snd c) ?xs = (c, a) # rest"
    using assms by (auto simp: latest_claim_def split: list.splits)
  have mem: "x \<in> set (claims i w) \<longleftrightarrow> x \<in> set ((c, a) # rest)" for x
    unfolding srt [symmetric] by simp
  have newest: "a' \<le> a" if "(c', a') \<in> set (claims i w)" for c' a'
    using sorted_sort_key [of "\<lambda>c. - snd c" ?xs] that unfolding srt mem by auto
  have first: "c \<le> c'" if "(c', a) \<in> set (claims i w)" for c'
  proof -
    have "filter (\<lambda>x. - snd x = - a) ((c, a) # rest) = filter (\<lambda>x. - snd x = - a) ?xs"
      unfolding srt [symmetric] by (rule sort_key_stable)
    moreover have "sorted (map fst (filter (\<lambda>x. - snd x = - a) ?xs))" by (rule sorted_filter) simp
    ultimately have "sorted (map fst (filter (\<lambda>x. - snd x = - a) ((c, a) # rest)))" by simp
    moreover have "(c', a) \<in> set (filter (\<lambda>x. - snd x = - a) ((c, a) # rest))" using that mem by simp
    ultimately show ?thesis by (force split: if_splits)
  qed
  have "a' < a \<or> (a' = a \<and> c \<le> c')" if "(c', a') \<in> set (claims i w)" for c' a'
    using newest [OF that] first [of c'] that by (cases "a' = a") auto
  moreover have "(c, a) \<in> set (claims i w)" by (simp add: mem)
  ultimately show ?thesis by blast
qed

definition wit_cluster :: person_row where
  "wit_cluster = \<lparr>p_id = ''p1'', p_eventId = ''e'', p_orgId = ''o'', p_name = '''', p_nameSetAt = None, p_nameSource = '''',
     p_faceAssetFaceId = None, p_thumbnailKey = '''', p_isHidden = False, p_updatedAt = 0\<rparr>"

definition wit_face :: face_row where
  "wit_face = \<lparr>f_id = ''f1'', f_assetId = ''a1'', f_personId = Some ''p1'', f_imageWidth = 100, f_imageHeight = 100,
     f_boundingBoxX1 = 10, f_boundingBoxY1 = 10, f_boundingBoxX2 = 30, f_boundingBoxY2 = 30,
     f_sourceType = FaceSourceType_MachineLearning, f_deletedAt = None\<rparr>"

definition wit_people_world :: world where
  "wit_people_world = empty_world\<lparr>persons := [wit_cluster, wit_cluster\<lparr>p_id := ''p2''\<rparr>],
     assetFaces := [wit_face, wit_face\<lparr>f_id := ''f2'', f_assetId := ''a2'', f_personId := Some ''p2''\<rparr>]\<rparr>"

theorem last_write_wins_witness:
  "\<exists>p'. person_getById ''e'' ''p1'' (run_naming ''e'' ''p1'' [6, 7]
     (snd (updatePerson ''e'' ''p1'' \<lparr>up_name = Some ''Priya'', up_isHidden = None\<rparr> 5 wit_people_world))) = Some p' \<and> p_name p' = ''Priya''"
proof -
  have row: "person_getById ''e'' ''p1'' wit_people_world = Some wit_cluster"
    by (simp add: person_getById_def wit_people_world_def wit_cluster_def)
  have "latest_claim ''p1'' wit_people_world = None"
    by (simp add: latest_claim_def claims_def wit_people_world_def empty_world_def)
  with last_write_wins [OF row, of "\<lparr>up_name = Some ''Priya'', up_isHidden = None\<rparr>" "''Priya''" "[6, 7]" 5]
  show ?thesis by auto
qed

section \<open>Merging\<close>

text \<open>
  The tenancy rule of the face pipeline: a face only belongs to people of its own photo's event.
\<close>

definition isolated :: "world \<Rightarrow> bool" where
  "isolated w \<longleftrightarrow> (\<forall>f \<in> set (assetFaces w). \<forall>r \<in> set (persons w). \<forall>a \<in> set (assets w).
     f_personId f = Some (p_id r) \<longrightarrow> a_id a = f_assetId f \<longrightarrow> a_eventId a = p_eventId r)"

lemma isolatedD:
  "isolated w \<Longrightarrow> f \<in> set (assetFaces w) \<Longrightarrow> r \<in> set (persons w) \<Longrightarrow> a \<in> set (assets w) \<Longrightarrow>
    f_personId f = Some (p_id r) \<Longrightarrow> a_id a = f_assetId f \<Longrightarrow> a_eventId a = p_eventId r"
  unfolding isolated_def by blast

lemma set_unique [simp]: "set (unique xs) = set xs"
  by (induction xs) auto

lemma distinct_unique [simp]: "distinct (unique xs)"
  by (induction xs) auto

lemma getSources_persons:
  assumes "getSources ev ids w = Inr ps" "i \<in> set ids"
  shows "\<exists>p. person_getById ev i w = Some p"
  using assms by (induction ids arbitrary: ps) (auto split: option.splits sum.splits)

definition move_to :: "uuid \<Rightarrow> uuid list \<Rightarrow> face_row \<Rightarrow> face_row" where
  "move_to i ids f = (if \<exists>j \<in> set ids. j \<noteq> i \<and> f_personId f = Some j then f\<lparr>f_personId := Some i\<rparr> else f)"

lemma move_to_fields [simp]:
  "f_id (move_to i ids f) = f_id f" "f_assetId (move_to i ids f) = f_assetId f" "f_deletedAt (move_to i ids f) = f_deletedAt f"
  by (simp_all add: move_to_def)

lemma move_to_person:
  "f_personId (move_to i ids f) = Some i \<longleftrightarrow> (\<exists>j \<in> insert i (set ids). f_personId f = Some j)"
  by (auto simp: move_to_def)

lemma merge_people_ok:
  assumes "merge_people ev i ids w = (Inr m, w')"
  shows "person_getById ev i w \<noteq> None \<and> (\<forall>j \<in> set ids. person_getById ev j w \<noteq> None)
    \<and> assetFaces w' = map (move_to i ids) (assetFaces w)
    \<and> persons w' = filter (\<lambda>p. p_id p \<notin> set ids \<or> p_id p = i) (persons w) \<and> assets w' = assets w
    \<and> mr_mergedCount m = card (set ids - {i})"
proof -
  let ?src = "filter (\<lambda>x. x \<noteq> i) (unique ids)"
  from assms obtain target where t: "person_getById ev i w = Some target" by (auto simp: merge_people_def split: option.splits)
  from assms t obtain sources where src: "getSources ev ?src w = Inr sources"
    by (auto simp: merge_people_def Let_def split: if_splits sum.splits prod.splits)
  have known: "person_getById ev j w \<noteq> None" if "j \<in> set ids" for j
    using getSources_persons [OF src, of j] that t by (cases "j = i") auto
  have moved: "(case f_personId f of None \<Rightarrow> False | Some j \<Rightarrow> j \<in> set ?src) \<longleftrightarrow> (\<exists>j \<in> set ids. j \<noteq> i \<and> f_personId f = Some j)" for f
    by (auto split: option.splits)
  have faces: "map (\<lambda>f. f\<lparr>f_personId := null_if_dead ?src (f_personId f)\<rparr>)
      (update_where (\<lambda>f. case f_personId f of None \<Rightarrow> False | Some j \<Rightarrow> j \<in> set ?src) (\<lambda>f. f\<lparr>f_personId := Some i\<rparr>) (assetFaces w))
      = map (move_to i ids) (assetFaces w)"
    unfolding update_where_def map_map comp_def
  proof (rule map_cong [OF refl], unfold moved)
    fix f :: face_row
    have "null_if_dead ?src (f_personId f) = f_personId f" if "\<not> (\<exists>j \<in> set ids. j \<noteq> i \<and> f_personId f = Some j)"
      using that by (auto simp: null_if_dead_def split: option.splits)
    then show "(if \<exists>j\<in>set ids. j \<noteq> i \<and> f_personId f = Some j then f\<lparr>f_personId := Some i\<rparr> else f)
        \<lparr>f_personId := null_if_dead ?src (f_personId (if \<exists>j\<in>set ids. j \<noteq> i \<and> f_personId f = Some j then f\<lparr>f_personId := Some i\<rparr> else f))\<rparr>
        = move_to i ids f"
      by (simp add: move_to_def) (simp add: null_if_dead_def)
  qed
  have "length ?src = card (set ?src)" by (rule distinct_card [symmetric]) simp
  moreover have "set ?src = set ids - {i}" by auto
  moreover have "m = \<lparr>mr_mergedCount = length ?src, mr_facesMoved = fst (reassignFacesOfPeople i ?src w)\<rparr>
      \<and> assetFaces w' = assetFaces (person_delete ?src (snd (reassignFacesOfPeople i ?src w)))
      \<and> persons w' = persons (person_delete ?src w) \<and> assets w' = assets w"
    using assms t src by (auto simp: merge_people_def Let_def reassignFacesOfPeople_def person_delete_def queueAll_def split: if_splits)
  ultimately show ?thesis using t known faces
    by (auto simp: person_delete_def reassignFacesOfPeople_def delete_where_def Let_def intro!: filter_cong)
qed

lemma merge_people_error: "merge_people ev i ids w = (Inl e, w') \<Longrightarrow> w' = w"
  by (auto simp: merge_people_def Let_def split: option.splits if_splits sum.splits prod.splits)

lemma map_filter_assetFaces: "filter p (map (move_to i ids) fs) = map (move_to i ids) (filter (\<lambda>f. p (move_to i ids f)) fs)"
  by (simp add: filter_map comp_def)

text \<open>
  C28. Merging people moves everything and loses nothing: afterwards the target has exactly the photos
  of all merged people, its own row (name, cover) is as before, the merged rows are gone and no other
  person or face changes; the tenancy rule is kept. A merge that is refused (an unknown person, a person
  of another event, nothing to merge) changes nothing.
\<close>

theorem merge_keeps_every_photo:
  assumes "unique_persons w" "isolated w" "merge_people ev i ids w = (r, w')"
  shows "case r of
      Inl e \<Rightarrow> w' = w
    | Inr m \<Rightarrow> set (getAssetIdsOfPerson ev i w') = (\<Union>j \<in> insert i (set ids). set (getAssetIdsOfPerson ev j w))
        \<and> persons w' = filter (\<lambda>p. p_id p \<notin> set ids \<or> p_id p = i) (persons w)
        \<and> mr_mergedCount m = card (set ids - {i})
        \<and> (\<forall>j. j \<notin> insert i (set ids) \<longrightarrow> getAssetIdsOfPerson ev j w' = getAssetIdsOfPerson ev j w)
        \<and> isolated w'"
proof (cases r)
  case (Inl e)
  with assms(3) show ?thesis by (auto dest: merge_people_error)
next
  case (Inr m)
  note ok = merge_people_ok [OF assms(3) [unfolded Inr]]
  then have faces: "assetFaces w' = map (move_to i ids) (assetFaces w)" and assets: "assets w' = assets w"
    and ps: "persons w' = filter (\<lambda>p. p_id p \<notin> set ids \<or> p_id p = i) (persons w)"
    and known: "\<And>j. j \<in> insert i (set ids) \<Longrightarrow> person_getById ev j w \<noteq> None" by auto
  have photos: "set (getAssetIdsOfPerson ev i w') = (\<Union>j \<in> insert i (set ids). set (getAssetIdsOfPerson ev j w))"
    by (auto simp: getAssetIdsOfPerson_def faces assets map_filter_assetFaces move_to_person image_iff)
  have keep: "f_personId (move_to i ids f) = Some j \<longleftrightarrow> f_personId f = Some j" if "j \<notin> insert i (set ids)" for j f
    using that by (auto simp: move_to_def)
  have others: "getAssetIdsOfPerson ev j w' = getAssetIdsOfPerson ev j w" if "j \<notin> insert i (set ids)" for j
    using keep [OF that] by (simp add: getAssetIdsOfPerson_def faces assets map_filter_assetFaces comp_def)
  have ev: "p_eventId p = ev" if "p \<in> set (persons w)" "p_id p \<in> insert i (set ids)" for p
  proof -
    from known [OF that(2)] obtain q where q: "q \<in> set (persons w)" "p_id q = p_id p" "p_eventId q = ev"
      by (auto dest: person_getById_SomeD)
    with assms(1) that(1) have "q = p" by (auto simp: distinct_map inj_on_def)
    with q show ?thesis by simp
  qed
  have "a_eventId a = p_eventId p"
    if "f \<in> set (assetFaces w)" "p \<in> set (persons w)" "a \<in> set (assets w)"
      "f_personId (move_to i ids f) = Some (p_id p)" "a_id a = f_assetId f" for f p a
  proof (cases "p_id p = i")
    case True
    with that(4) obtain j where j: "j \<in> insert i (set ids)" "f_personId f = Some j" by (auto simp: move_to_person)
    from known [OF j(1)] obtain q where q: "q \<in> set (persons w)" "p_id q = j" "p_eventId q = ev"
      by (auto dest: person_getById_SomeD)
    with isolatedD [OF assms(2) that(1) q(1) that(3)] j that(5) ev [OF that(2)] True show ?thesis by simp
  next
    case False
    then have "f_personId f = Some (p_id p)" using that(4) by (auto simp: move_to_def split: if_splits)
    with isolatedD [OF assms(2) that(1,2,3)] that(5) show ?thesis by simp
  qed
  then have "isolated w'" by (auto simp: isolated_def faces assets ps)
  with photos ps others ok Inr show ?thesis by simp
qed

lemma no_cover_no_data:
  assumes "\<And>p. p \<in> set (persons w) \<Longrightarrow> p_id p = i \<Longrightarrow> p_faceAssetFaceId p = None"
  shows "getThumbnailData i w = None"
proof -
  have "concat (map (\<lambda>p. concat (map (\<lambda>f. map (\<lambda>a. (p, f, a))
             (filter (\<lambda>a. a_id a = f_assetId f \<and> a_deletedAt a = None) (assets w)))
           (filter (\<lambda>f. p_faceAssetFaceId p = Some (f_id f)) (assetFaces w))))
         (filter (\<lambda>p. p_id p = i) (persons w))) = []"
    using assms by (simp add: concat_eq_Nil_conv filter_empty_conv)
  then show ?thesis unfolding getThumbnailData_def by (simp only: list.case)
qed

text \<open>
  A merge into a person without a cover face leaves the person without a portrait: the portrait job
  is queued, but no cover is chosen from the moved faces, so the job finds no data.
\<close>

theorem merge_never_picks_a_cover:
  assumes "unique_persons w" "person_getById ev i w = Some target" "p_faceAssetFaceId target = None"
    and "merge_people ev i ids w = (Inr m, w')"
  shows "PersonThumbnail i \<in> set (queued w') \<and> getThumbnailData i w' = None"
proof -
  have only: "p = target" if "p \<in> set (persons w)" "p_id p = i" for p
    using assms(1) that person_getById_SomeD [OF assms(2)] by (auto simp: distinct_map inj_on_def)
  have "persons w' = filter (\<lambda>p. p_id p \<notin> set ids \<or> p_id p = i) (persons w)"
    using merge_people_ok [OF assms(4)] by simp
  then have "getThumbnailData i w' = None"
    by (intro no_cover_no_data) (use only assms(3) in auto)
  moreover have "PersonThumbnail i \<in> set (queued w')"
    using assms(2-4) by (auto simp: merge_people_def Let_def split: if_splits sum.splits prod.splits)
  ultimately show ?thesis by simp
qed

lemma wit_merge:
  "\<exists>m. fst (merge_people ''e'' ''p1'' [''p2''] wit_people_world) = Inr m"
  by (simp add: merge_people_def person_getById_def wit_people_world_def wit_cluster_def Let_def split: prod.splits)

lemma wit_people_facts:
  "unique_persons wit_people_world" "isolated wit_people_world" "person_getById ''e'' ''p1'' wit_people_world = Some wit_cluster"
  "p_faceAssetFaceId wit_cluster = None"
  by (simp_all add: wit_people_world_def wit_cluster_def isolated_def empty_world_def person_getById_def)

theorem merge_keeps_every_photo_witness:
  "persons (snd (merge_people ''e'' ''p1'' [''p2''] wit_people_world)) = [wit_cluster]"
proof -
  obtain m where m: "fst (merge_people ''e'' ''p1'' [''p2''] wit_people_world) = Inr m" using wit_merge by blast
  have "filter (\<lambda>p. p_id p \<notin> set [''p2''] \<or> p_id p = ''p1'') (persons wit_people_world) = [wit_cluster]"
    by (simp add: wit_people_world_def wit_cluster_def)
  with merge_keeps_every_photo [OF wit_people_facts(1,2) prod.collapse [symmetric], of "''e''" "''p1''" "[''p2'']"] m
  show ?thesis by simp
qed

theorem merge_never_picks_a_cover_witness:
  "getThumbnailData ''p1'' (snd (merge_people ''e'' ''p1'' [''p2''] wit_people_world)) = None"
proof -
  obtain m where m: "merge_people ''e'' ''p1'' [''p2''] wit_people_world = (Inr m, snd (merge_people ''e'' ''p1'' [''p2''] wit_people_world))"
    using wit_merge by (metis prod.collapse)
  from merge_never_picks_a_cover [OF wit_people_facts(1,3,4) m] show ?thesis ..
qed

end
