(* ===== verification/Faces.thy ===== *)
theory Faces
  imports People
begin

text \<open>
  \<^verbatim>\<open>services/face.service.ts\<close> with \<^verbatim>\<open>repositories/face.repository.ts\<close> and
  \<^verbatim>\<open>repositories/face-search.repository.ts\<close>: detection, clustering, the re-run entry point, cleanup of
  empty people and portraits. The vector index is a parameter: its distance, and which stored
  embeddings a query visits (the index is approximate). So are the ML service, the image library and
  the fresh ids. Coordinates are reals; the host's floating-point rounding is not modelled.
\<close>

section \<open>The repositories\<close>

record BoundingBox =
  bb_x1 :: real
  bb_y1 :: real
  bb_x2 :: real
  bb_y2 :: real

record Face =
  fc_boundingBox :: BoundingBox
  fc_embedding :: string

record DetectedFaces =
  df_faces :: "Face list"
  df_imageHeight :: real
  df_imageWidth :: real

record FaceSearchResult =
  sr_id :: uuid
  sr_personId :: "uuid option"
  sr_assetId :: uuid
  sr_distance :: real

record vector_index =
  vx_distance :: "string \<Rightarrow> string \<Rightarrow> real"
  vx_visits :: "string \<Rightarrow> string \<Rightarrow> bool"

definition in_event :: "uuid \<Rightarrow> world \<Rightarrow> face_row \<Rightarrow> bool" where
  "in_event ev w f \<longleftrightarrow> f_deletedAt f = None
     \<and> (\<exists>a \<in> set (assets w). a_id a = f_assetId f \<and> a_eventId a = ev \<and> a_deletedAt a = None)"

text \<open>The rows of the \<^verbatim>\<open>cte\<close>, before ordering and limit.\<close>

definition search_rows :: "vector_index \<Rightarrow> uuid \<Rightarrow> string \<Rightarrow> bool \<Rightarrow> world \<Rightarrow> FaceSearchResult list" where
  "search_rows ix ev emb hasPerson w =
     concat (map (\<lambda>f. map (\<lambda>s. \<lparr>sr_id = f_id f, sr_personId = f_personId f, sr_assetId = f_assetId f,
                               sr_distance = vx_distance ix (fs_embedding s) emb\<rparr>)
         (filter (\<lambda>s. fs_faceId s = f_id f \<and> vx_visits ix emb (fs_embedding s)) (faceSearches w)))
       (filter (\<lambda>f. in_event ev w f \<and> (hasPerson \<longrightarrow> f_personId f \<noteq> None)) (assetFaces w)))"

definition searchFaces :: "vector_index \<Rightarrow> uuid \<Rightarrow> string \<Rightarrow> real \<Rightarrow> nat \<Rightarrow> bool \<Rightarrow> world \<Rightarrow> FaceSearchResult list outcome" where
  [repo_defs]: "searchFaces ix ev emb maxDistance numResults hasPerson w =
     (if numResults < 1 \<or> numResults > 1000 then Inl (ServerError ''Invalid value for numResults'')
      else Inr (filter (\<lambda>r. sr_distance r \<le> maxDistance)
             (take numResults (sort_key sr_distance (search_rows ix ev emb hasPerson w)))))"

definition searchFacesByEmbedding :: "vector_index \<Rightarrow> uuid \<Rightarrow> string \<Rightarrow> nat \<Rightarrow> real \<Rightarrow> world \<Rightarrow> FaceSearchResult list outcome" where
  [repo_defs]: "searchFacesByEmbedding ix ev emb n maxDistance w = searchFaces ix ev emb maxDistance n False w"

definition face_getByAssetId :: "uuid \<Rightarrow> world \<Rightarrow> face_row list" where
  [repo_defs]: "face_getByAssetId a w = filter (\<lambda>f. f_assetId f = a \<and> f_deletedAt f = None) (assetFaces w)"

text \<open>The foreign keys that point at a face.\<close>

definition face_delete :: "uuid list \<Rightarrow> world \<Rightarrow> world" where
  "face_delete ids w =
     w\<lparr>assetFaces := delete_where (\<lambda>f. f_id f \<in> set ids) (assetFaces w),
       faceSearches := delete_where (\<lambda>s. fs_faceId s \<in> set ids) (faceSearches w),
       persons := map (\<lambda>p. p\<lparr>p_faceAssetFaceId := null_if_dead ids (p_faceAssetFaceId p)\<rparr>) (persons w),
       participantMatches := map (\<lambda>m. m\<lparr>m_viaFaceId := null_if_dead ids (m_viaFaceId m)\<rparr>) (participantMatches w)\<rparr>"

text \<open>One statement: it fails as a whole when an embedding's face already has one.\<close>

definition refreshFaces :: "face_row list \<Rightarrow> uuid list \<Rightarrow> (uuid \<times> string) list \<Rightarrow> world \<Rightarrow> unit outcome \<times> world" where
  [repo_defs]: "refreshFaces facesToAdd faceIdsToRemove embeddings w =
     (if \<not> distinct (map fst embeddings) \<or> (\<exists>s \<in> set (faceSearches w). fs_faceId s \<in> set (map fst embeddings))
      then (Inl (ServerError ''face_search_pkey''), w)
      else let w1 = face_delete faceIdsToRemove w
           in (Inr (), w1\<lparr>assetFaces := assetFaces w1 @ facesToAdd,
                          faceSearches := faceSearches w1 @ map (\<lambda>(i, e). \<lparr>fs_faceId = i, fs_embedding = e\<rparr>) embeddings\<rparr>))"

definition reassignFaces :: "uuid list \<Rightarrow> uuid \<Rightarrow> world \<Rightarrow> nat \<times> world" where
  [repo_defs]: "reassignFaces ids person w =
     (length (filter (\<lambda>f. f_id f \<in> set ids) (assetFaces w)),
      w\<lparr>assetFaces := update_where (\<lambda>f. f_id f \<in> set ids) (\<lambda>f. f\<lparr>f_personId := Some person\<rparr>) (assetFaces w)\<rparr>)"

definition getForRecognition :: "uuid \<Rightarrow> world \<Rightarrow> (face_row \<times> asset_row \<times> string option) option" where
  [repo_defs]: "getForRecognition i w =
     (case concat (map (\<lambda>f. map (\<lambda>a. (f, a, map_option fs_embedding (select_first (\<lambda>s. fs_faceId s = f_id f) (faceSearches w))))
             (filter (\<lambda>a. a_id a = f_assetId f \<and> a_deletedAt a = None) (assets w)))
         (filter (\<lambda>f. f_id f = i \<and> f_deletedAt f = None) (assetFaces w))) of
        [] \<Rightarrow> None | x # _ \<Rightarrow> Some x)"

definition getRandomFace :: "uuid \<Rightarrow> world \<Rightarrow> face_row option" where
  [repo_defs]: "getRandomFace person w = select_first (\<lambda>f. f_personId f = Some person \<and> f_deletedAt f = None) (assetFaces w)"

definition unassigned :: "uuid \<Rightarrow> world \<Rightarrow> uuid list" where
  "unassigned ev w =
     sort (map f_id (filter (\<lambda>f. in_event ev w f \<and> f_personId f = None
        \<and> f_sourceType f = FaceSourceType_MachineLearning) (assetFaces w)))"

definition getUnassignedFaceIds :: "uuid \<Rightarrow> nat \<Rightarrow> uuid option \<Rightarrow> world \<Rightarrow> uuid list" where
  [repo_defs]: "getUnassignedFaceIds ev limit afterId w = take limit (filter (after_id afterId) (unassigned ev w))"

definition unassignByEvent :: "uuid \<Rightarrow> world \<Rightarrow> world" where
  [repo_defs]: "unassignByEvent ev w =
     w\<lparr>assetFaces := update_where (\<lambda>f. f_sourceType f = FaceSourceType_MachineLearning
          \<and> (\<exists>a \<in> set (assets w). a_id a = f_assetId f \<and> a_eventId a = ev \<and> a_deletedAt a = None))
        (\<lambda>f. f\<lparr>f_personId := None\<rparr>) (assetFaces w)\<rparr>"

definition setFacesDetected :: "uuid \<Rightarrow> nat \<Rightarrow> ms \<Rightarrow> world \<Rightarrow> world" where
  [repo_defs]: "setFacesDetected a n now w =
     w\<lparr>assets := update_where (\<lambda>r. a_id r = a) (\<lambda>r. r\<lparr>a_facesDetectedAt := Some now, a_faceCount := n\<rparr>) (assets w)\<rparr>"

section \<open>Detection\<close>

record face_env =
  fe_index :: vector_index
  fe_detect :: "string \<Rightarrow> string \<Rightarrow> real \<Rightarrow> DetectedFaces outcome"
  fe_newFaceId :: "nat \<Rightarrow> uuid"
  fe_newPersonId :: uuid
  fe_naming_ok :: bool
  fe_dimensions :: "string \<Rightarrow> (int \<times> int) outcome"
  fe_crop_ok :: "int \<times> int \<times> int \<times> int \<Rightarrow> bool"

definition face_getConfig :: "uuid \<Rightarrow> world \<Rightarrow> FacialRecognitionConfig" where
  "face_getConfig ev w =
    (let config = getFacialRecognitionConfig w
     in case event_getById ev w of
          None \<Rightarrow> config
        | Some e \<Rightarrow>
           config\<lparr>fr_minScore := or_default (ec_minScore (e_config e)) (fr_minScore config),
                  fr_maxDistance := or_default (ec_matchMaxDistance (e_config e)) (fr_maxDistance config),
                  fr_minFaces := or_default (ec_minFaces (e_config e)) (fr_minFaces config)\<rparr>)"

text \<open>
  \<^verbatim>\<open>intersection / union > 0.5\<close>: a division by zero is \<^verbatim>\<open>NaN\<close> for an empty intersection and infinite
  otherwise.
\<close>

definition iou_parts :: "face_row \<Rightarrow> BoundingBox \<Rightarrow> real \<times> real" where
  "iou_parts face box =
    (let x1 = max (f_boundingBoxX1 face) (bb_x1 box); y1 = max (f_boundingBoxY1 face) (bb_y1 box);
         x2 = min (f_boundingBoxX2 face) (bb_x2 box); y2 = min (f_boundingBoxY2 face) (bb_y2 box);
         intersection = max 0 (x2 - x1) * max 0 (y2 - y1);
         area1 = (f_boundingBoxX2 face - f_boundingBoxX1 face) * (f_boundingBoxY2 face - f_boundingBoxY1 face);
         area2 = (bb_x2 box - bb_x1 box) * (bb_y2 box - bb_y1 box)
     in (intersection, area1 + area2 - intersection))"

definition iou_above_half :: "face_row \<Rightarrow> BoundingBox \<Rightarrow> bool" where
  "iou_above_half face box =
    (case iou_parts face box of (i, u) \<Rightarrow> if u = 0 then 0 < i else i / u > 1 / 2)"

definition or_one :: "real \<Rightarrow> real" where
  "or_one x = (if x = 0 then 1 else x)"

definition scale_of :: "real \<Rightarrow> (face_row \<Rightarrow> real) \<Rightarrow> face_row list \<Rightarrow> real" where
  "scale_of extent field existing = extent / (case existing of [] \<Rightarrow> 1 | f # _ \<Rightarrow> or_one (field f))"

definition scale_box :: "real \<Rightarrow> real \<Rightarrow> BoundingBox \<Rightarrow> BoundingBox" where
  "scale_box ws hs b = \<lparr>bb_x1 = bb_x1 b * ws, bb_y1 = bb_y1 b * hs, bb_x2 = bb_x2 b * ws, bb_y2 = bb_y2 b * hs\<rparr>"

definition new_face :: "uuid \<Rightarrow> uuid \<Rightarrow> DetectedFaces \<Rightarrow> BoundingBox \<Rightarrow> face_row" where
  "new_face i a d b =
    \<lparr>f_id = i, f_assetId = a, f_personId = None, f_imageWidth = df_imageWidth d, f_imageHeight = df_imageHeight d,
     f_boundingBoxX1 = bb_x1 b, f_boundingBoxY1 = bb_y1 b, f_boundingBoxX2 = bb_x2 b, f_boundingBoxY2 = bb_y2 b,
     f_sourceType = FaceSourceType_MachineLearning, f_deletedAt = None\<rparr>"

record detection =
  dt_facesToAdd :: "face_row list"
  dt_embeddings :: "(uuid \<times> string) list"
  dt_mlFaceIds :: "uuid list"

definition detect_one :: "(nat \<Rightarrow> uuid) \<Rightarrow> uuid \<Rightarrow> DetectedFaces \<Rightarrow> face_row list \<Rightarrow> Face \<Rightarrow> detection \<Rightarrow> detection" where
  "detect_one newId a d existing fc acc =
    (let box = fc_boundingBox fc;
         scaled = scale_box (scale_of (df_imageWidth d) f_imageWidth existing)
                            (scale_of (df_imageHeight d) f_imageHeight existing) box
     in case select_first (\<lambda>f. iou_above_half f scaled) existing of
          Some m \<Rightarrow>
            if f_id m \<in> set (dt_mlFaceIds acc) then acc\<lparr>dt_mlFaceIds := removeAll (f_id m) (dt_mlFaceIds acc)\<rparr>
            else acc\<lparr>dt_embeddings := dt_embeddings acc @ [(f_id m, fc_embedding fc)]\<rparr>
        | None \<Rightarrow>
            let i = newId (length (dt_facesToAdd acc))
            in acc\<lparr>dt_facesToAdd := dt_facesToAdd acc @ [new_face i a d box],
                   dt_embeddings := dt_embeddings acc @ [(i, fc_embedding fc)]\<rparr>)"

definition handleDetectFaces :: "face_env \<Rightarrow> uuid \<Rightarrow> ms \<Rightarrow> world \<Rightarrow> JobStatus outcome \<times> world" where
  "handleDetectFaces env assetId now w =
    (case asset_getByIdUnscoped assetId w of
       None \<Rightarrow> (Inr JobStatus_Skipped, w)
     | Some asset \<Rightarrow>
    (case select_first (\<lambda>f. af_assetId f = assetId \<and> af_type f = AssetFileType_Preview) (assetFiles w) of
       None \<Rightarrow> (Inr JobStatus_Failed, w)
     | Some preview \<Rightarrow>
    (let config = face_getConfig (a_eventId asset) w
     in case fe_detect env (af_storageKey preview) (fr_modelName config) (fr_minScore config) of
          Inl e \<Rightarrow> (Inl e, w)
        | Inr d \<Rightarrow>
           let existingFaces = face_getByAssetId assetId w;
               start = \<lparr>dt_facesToAdd = [], dt_embeddings = [],
                        dt_mlFaceIds = map f_id (filter (\<lambda>f. f_sourceType f = FaceSourceType_MachineLearning) existingFaces)\<rparr>;
               found = fold (detect_one (fe_newFaceId env) assetId d existingFaces) (df_faces d) start;
               (stored, w1) = (if dt_facesToAdd found \<noteq> [] \<or> dt_mlFaceIds found \<noteq> [] \<or> dt_embeddings found \<noteq> []
                               then refreshFaces (dt_facesToAdd found) (dt_mlFaceIds found) (dt_embeddings found) w
                               else (Inr (), w))
           in (case stored of
                 Inl e \<Rightarrow> (Inl e, w1)
               | Inr _ \<Rightarrow>
                   let w2 = setFacesDetected assetId (length (df_faces d)) now w1
                   in (Inr JobStatus_Success,
                       if dt_facesToAdd found \<noteq> []
                       then queueAll (map (\<lambda>f. FaceRecognize (f_id f) False) (dt_facesToAdd found)
                              @ [FaceRecognizeQueueAll (a_eventId asset) False, ParticipantRematch (a_eventId asset)]) w2
                       else w2)))))"

section \<open>Clustering\<close>

text \<open>The cluster a face can join: one of the matches', else that of the nearest face that has one.\<close>

definition find_person :: "face_env \<Rightarrow> uuid \<Rightarrow> string \<Rightarrow> real \<Rightarrow> FaceSearchResult list \<Rightarrow> world \<Rightarrow> uuid option outcome" where
  "find_person env ev emb maxDistance matches w =
    (case select_first (\<lambda>m. sr_personId m \<noteq> None) matches of
       Some m \<Rightarrow> Inr (sr_personId m)
     | None \<Rightarrow>
        (case searchFaces (fe_index env) ev emb maxDistance 1 True w of
           Inl e \<Rightarrow> Inl e
         | Inr [] \<Rightarrow> Inr None
         | Inr (m # _) \<Rightarrow> Inr (sr_personId m)))"

definition assign_person :: "face_env \<Rightarrow> uuid \<Rightarrow> uuid \<Rightarrow> uuid \<Rightarrow> ms \<Rightarrow> world \<Rightarrow> world" where
  "assign_person env ev faceId person now w =
    (let w1 = snd (reassignFaces [faceId] person w)
     in if fe_naming_ok env then snd (nameFromParticipants ev person now w1) else w1)"

definition handleRecognizeFaces :: "face_env \<Rightarrow> uuid \<Rightarrow> bool \<Rightarrow> ms \<Rightarrow> world \<Rightarrow> JobStatus outcome \<times> world" where
  "handleRecognizeFaces env faceId deferred now w =
    (case getForRecognition faceId w of
       None \<Rightarrow> (Inr JobStatus_Failed, w)
     | Some (face, asset, embedding) \<Rightarrow>
        if f_sourceType face \<noteq> FaceSourceType_MachineLearning then (Inr JobStatus_Skipped, w)
        else case embedding of
          None \<Rightarrow> (Inr JobStatus_Failed, w)
        | Some emb \<Rightarrow>
        if f_personId face \<noteq> None then (Inr JobStatus_Skipped, w)
        else
    (let ev = a_eventId asset; config = face_getConfig ev w
     in case searchFaces (fe_index env) ev emb (fr_maxDistance config) (fr_minFaces config) False w of
          Inl e \<Rightarrow> (Inl e, w)
        | Inr matches \<Rightarrow>
           if fr_minFaces config > 1 \<and> length matches \<le> 1 then (Inr JobStatus_Skipped, w)
           else let isCore = length matches \<ge> fr_minFaces config
                in if \<not> isCore \<and> \<not> deferred then (Inr JobStatus_Skipped, queue (FaceRecognize faceId True) w)
                   else
          (case find_person env ev emb (fr_maxDistance config) matches w of
             Inl e \<Rightarrow> (Inl e, w)
           | Inr (Some person) \<Rightarrow> (Inr JobStatus_Success, assign_person env ev faceId person now w)
           | Inr None \<Rightarrow>
               if isCore
               then let (p, w1) = person_create (fe_newPersonId env) ev (a_orgId asset) (f_id face) now w;
                        w2 = queueAll [PersonThumbnail (p_id p), ParticipantRematch ev] w1
                    in (Inr JobStatus_Success, assign_person env ev faceId (p_id p) now w2)
               else (Inr JobStatus_Success, w))))"

subsection \<open>Re-run, cleanup, names\<close>

definition handlePersonCleanup :: "world \<Rightarrow> JobStatus \<times> world" where
  "handlePersonCleanup w =
    (let people = getAllWithoutFaces w
     in if people = [] then (JobStatus_Success, w)
        else let keys = filter (\<lambda>k. k \<noteq> '''') (map p_thumbnailKey people);
                 w1 = (if keys \<noteq> [] then queue (CleanupKeys keys) w else w)
             in (JobStatus_Success, person_delete (map p_id people) w1))"

definition QUEUE_ALL_PAGE_SIZE :: nat where
  "QUEUE_ALL_PAGE_SIZE = 1000"

lemma unassigned_queueAll [simp]: "unassigned ev (queueAll js w) = unassigned ev w"
  by (simp add: unassigned_def in_event_def [abs_def] queueAll_def)

function queue_pages :: "uuid \<Rightarrow> uuid option \<Rightarrow> nat \<Rightarrow> world \<Rightarrow> nat \<times> world" where
  "queue_pages ev afterId n w =
    (let page = getUnassignedFaceIds ev QUEUE_ALL_PAGE_SIZE afterId w
     in if page = [] then (n, w)
        else queue_pages ev (Some (last page)) (n + length page)
               (queueAll (map (\<lambda>i. FaceRecognize i False) page) w))"
  by pat_completeness auto
termination
proof (relation "measure (\<lambda>(ev, a, n, w). length (filter (after_id a) (unassigned ev w)))")
  fix ev a n w and page
  assume "page = getUnassignedFaceIds ev QUEUE_ALL_PAGE_SIZE a w" "page \<noteq> []"
  then show "((ev, Some (last page), n + length page, queueAll (map (\<lambda>i. FaceRecognize i False) page) w), ev, a, n, w)
      \<in> measure (\<lambda>(ev, a, n, w). length (filter (after_id a) (unassigned ev w)))"
    by (simp add: getUnassignedFaceIds_def keyset_shrinks)
qed simp

declare queue_pages.simps [simp del]

text \<open>The wait for the detection queues and the index prewarm change no state of the model.\<close>

definition handleQueueRecognizeFaces :: "uuid \<Rightarrow> bool \<Rightarrow> world \<Rightarrow> JobStatus \<times> world" where
  "handleQueueRecognizeFaces ev force w =
    (let w1 = (if force then snd (handlePersonCleanup (unassignByEvent ev w)) else w);
         (queuedFaces, w2) = queue_pages ev None 0 w1
     in (JobStatus_Success, queue (ParticipantRematch ev) w2))"

fun backfill :: "face_env \<Rightarrow> ms \<Rightarrow> (uuid \<times> uuid) list \<Rightarrow> nat \<Rightarrow> world \<Rightarrow> nat \<times> world" where
  "backfill env now [] named w = (named, w)"
| "backfill env now ((person, ev) # cs) named w =
    (if fe_naming_ok env
     then let (r, w1) = nameFromParticipants ev person now w
          in backfill env now cs (if r \<noteq> None \<and> r \<noteq> Some '''' then named + 1 else named) w1
     else backfill env now cs named w)"

definition handlePersonNameBackfill :: "face_env \<Rightarrow> ms \<Rightarrow> world \<Rightarrow> JobStatus \<times> world" where
  "handlePersonNameBackfill env now w = (JobStatus_Success, snd (backfill env now (getClaimedPersonIds w) 0 w))"

section \<open>Portraits\<close>

definition clamp :: "real \<Rightarrow> real \<Rightarrow> real \<Rightarrow> real" where
  "clamp value lo hi = min (max value lo) hi"

definition FACE_CROP_ZOOM_OUT :: real where
  "FACE_CROP_ZOOM_OUT = 24 / 10"

text \<open>The crop as x, y, width and height.\<close>

definition getCrop :: "real \<times> real \<Rightarrow> int \<times> int \<Rightarrow> BoundingBox \<Rightarrow> int \<times> int \<times> int \<times> int" where
  "getCrop old new box =
    (let (oldWidth, oldHeight) = old; (newWidth, newHeight) = new;
         clampedX1 = clamp (bb_x1 box) 0 oldWidth; clampedY1 = clamp (bb_y1 box) 0 oldHeight;
         clampedX2 = clamp (bb_x2 box) 0 oldWidth; clampedY2 = clamp (bb_y2 box) 0 oldHeight;
         widthScale = real_of_int newWidth / oldWidth; heightScale = real_of_int newHeight / oldHeight;
         halfWidth = widthScale * (clampedX2 - clampedX1) / 2;
         halfHeight = heightScale * (clampedY2 - clampedY1) / 2;
         middleX = js_round (widthScale * clampedX1 + halfWidth);
         middleY = js_round (heightScale * clampedY1 + halfHeight);
         targetHalfSize = \<lfloor>max halfWidth halfHeight * FACE_CROP_ZOOM_OUT\<rfloor>;
         newHalfSize = min (min (middleX - max 0 (middleX - targetHalfSize)) (middleY - max 0 (middleY - targetHalfSize)))
           (min (min (newWidth - 1) (middleX + targetHalfSize) - middleX) (min (newHeight - 1) (middleY + targetHalfSize) - middleY))
     in (middleX - newHalfSize, middleY - newHalfSize, newHalfSize * 2, newHalfSize * 2))"

text \<open>
  \<^verbatim>\<open>data.originalKey ?? preview?.storageKey\<close>: the original's key is never null, but an empty one
  counts as missing.
\<close>

definition handlePersonThumbnail :: "face_env \<Rightarrow> uuid \<Rightarrow> ms \<Rightarrow> world \<Rightarrow> JobStatus outcome \<times> world" where
  "handlePersonThumbnail env person now w =
    (case getThumbnailData person w of
       None \<Rightarrow> (Inr JobStatus_Failed, w)
     | Some (p, face, asset) \<Rightarrow>
        if a_storageKey asset = '''' then (Inr JobStatus_Failed, w)
        else
    (case fe_dimensions env (a_storageKey asset) of
       Inl e \<Rightarrow> (Inl e, w)
     | Inr dims \<Rightarrow>
        let crop = getCrop (f_imageWidth face, f_imageHeight face) dims
              \<lparr>bb_x1 = f_boundingBoxX1 face, bb_y1 = f_boundingBoxY1 face,
               bb_x2 = f_boundingBoxX2 face, bb_y2 = f_boundingBoxY2 face\<rparr>;
            key = key_person (p_orgId p) (p_eventId p) person
        in if \<not> fe_crop_ok env crop then (Inl (ServerError ''extract_area: bad extract area''), w)
           else (Inr JobStatus_Success, setThumbnailKey person key now (putFile key w))))"

end
