(* ===== verification/FacePolicy.thy ===== *)
theory FacePolicy
  imports Faces
begin

text \<open>
  What the face pipeline guarantees: faces only ever join people of their own event, a face joins a
  cluster in reach before a new one is made, the re-run queues every unassigned face once, the cleanup
  removes exactly the empty people, portraits stay inside the image; and where re-detection goes wrong.
\<close>

section \<open>Tenancy\<close>

abbreviation unique_assets :: "world \<Rightarrow> bool" where
  "unique_assets w \<equiv> distinct (map a_id (assets w))"

lemma search_rows_event:
  assumes "r \<in> set (search_rows ix ev emb hp w)"
  shows "\<exists>f \<in> set (assetFaces w). f_id f = sr_id r \<and> f_personId f = sr_personId r \<and> f_assetId f = sr_assetId r \<and> in_event ev w f
    \<and> (hp \<longrightarrow> sr_personId r \<noteq> None)"
  using assms by (auto simp: search_rows_def)

lemma searchFaces_rows:
  "searchFaces ix ev emb d n hp w = Inr rs \<Longrightarrow> r \<in> set rs \<Longrightarrow> r \<in> set (search_rows ix ev emb hp w) \<and> sr_distance r \<le> d"
  by (auto simp: searchFaces_def split: if_splits dest!: in_set_takeD)

text \<open>The people of the event's faces in reach of an embedding.\<close>

definition in_reach :: "vector_index \<Rightarrow> uuid \<Rightarrow> string \<Rightarrow> real \<Rightarrow> world \<Rightarrow> uuid set" where
  "in_reach ix ev emb d w = {p. \<exists>f \<in> set (assetFaces w). \<exists>s \<in> set (faceSearches w). f_personId f = Some p \<and> in_event ev w f
     \<and> fs_faceId s = f_id f \<and> vx_visits ix emb (fs_embedding s) \<and> vx_distance ix (fs_embedding s) emb \<le> d}"

lemma find_person_reach:
  assumes "searchFaces (fe_index env) ev emb d n False w = Inr matches"
    and "find_person env ev emb d matches w = Inr (Some p)"
  shows "p \<in> in_reach (fe_index env) ev emb d w"
proof -
  obtain r hp where r: "r \<in> set (search_rows (fe_index env) ev emb hp w)" "sr_distance r \<le> d" "sr_personId r = Some p"
  proof (cases "select_first (\<lambda>m. sr_personId m \<noteq> None) matches")
    case (Some m)
    then have "m \<in> set matches" "sr_personId m = Some p"
      using assms(2) by (auto simp: find_person_def dest: select_first_SomeD)
    with searchFaces_rows [OF assms(1)] that show thesis by blast
  next
    case None
    then obtain m ms where "searchFaces (fe_index env) ev emb d 1 True w = Inr (m # ms)" "sr_personId m = Some p"
      using assms(2) by (auto simp: find_person_def split: sum.splits list.splits)
    with searchFaces_rows [of _ _ _ _ _ _ _ "m # ms" m] that show thesis by fastforce
  qed
  then show ?thesis by (fastforce simp: search_rows_def in_reach_def)
qed

lemma getForRecognition_face:
  assumes "getForRecognition i w = Some (face, asset, emb)"
  shows "face \<in> set (assetFaces w) \<and> f_id face = i \<and> asset \<in> set (assets w) \<and> a_id asset = f_assetId face
    \<and> f_deletedAt face = None \<and> a_deletedAt asset = None
    \<and> emb = map_option fs_embedding (select_first (\<lambda>s. fs_faceId s = i) (faceSearches w))"
proof -
  let ?xs = "concat (map (\<lambda>f. map (\<lambda>a. (f, a, map_option fs_embedding (select_first (\<lambda>s. fs_faceId s = f_id f) (faceSearches w))))
             (filter (\<lambda>a. a_id a = f_assetId f \<and> a_deletedAt a = None) (assets w)))
         (filter (\<lambda>f. f_id f = i \<and> f_deletedAt f = None) (assetFaces w)))"
  have "(face, asset, emb) \<in> set ?xs"
    using assms unfolding getForRecognition_def by (cases ?xs) (simp_all del: concat.simps)
  then show ?thesis by auto
qed

lemma nameFromParticipants_frames [simp]:
  "assetFaces (snd (nameFromParticipants ev p now w)) = assetFaces w"
  "assets (snd (nameFromParticipants ev p now w)) = assets w"
  "faceSearches (snd (nameFromParticipants ev p now w)) = faceSearches w"
  "queued (snd (nameFromParticipants ev p now w)) = queued w"
  "map p_id (persons (snd (nameFromParticipants ev p now w))) = map p_id (persons w)"
  "map (\<lambda>p. (p_id p, p_eventId p)) (persons (snd (nameFromParticipants ev p now w))) = map (\<lambda>p. (p_id p, p_eventId p)) (persons w)"
  by (simp_all add: nameFromParticipants_def Let_def update_where_def split: option.splits prod.splits)

lemma isolated_cong:
  assumes "assetFaces v = assetFaces w" "assets v = assets w"
    and "map (\<lambda>p. (p_id p, p_eventId p)) (persons v) = map (\<lambda>p. (p_id p, p_eventId p)) (persons w)"
  shows "isolated v = isolated w"
proof -
  let ?k = "\<lambda>p. (p_id p, p_eventId p)"
  have char: "isolated u \<longleftrightarrow> (\<forall>f \<in> set (assetFaces u). \<forall>(i, e) \<in> set (map ?k (persons u)). \<forall>a \<in> set (assets u).
      f_personId f = Some i \<longrightarrow> a_id a = f_assetId f \<longrightarrow> a_eventId a = e)" for u
    by (simp add: isolated_def)
  show ?thesis unfolding char assms ..
qed

lemma assign_isolated:
  assumes "isolated w" "unique_assets w" "unique_persons w" "face \<in> set (assetFaces w)"
    and "\<And>f. f \<in> set (assetFaces w) \<Longrightarrow> f_id f = f_id face \<Longrightarrow> f_assetId f = f_assetId face"
    and "asset \<in> set (assets w)" "a_id asset = f_assetId face"
    and "\<And>r. r \<in> set (persons w) \<Longrightarrow> p_id r = p \<Longrightarrow> p_eventId r = a_eventId asset"
  shows "isolated (assign_person env (a_eventId asset) (f_id face) p now w)"
proof -
  let ?w1 = "snd (reassignFaces [f_id face] p w)"
  have "isolated ?w1"
    unfolding isolated_def
  proof (intro ballI impI)
    fix g r a assume g: "g \<in> set (assetFaces ?w1)" "r \<in> set (persons ?w1)" "a \<in> set (assets ?w1)"
      "f_personId g = Some (p_id r)" "a_id a = f_assetId g"
    from g(1) obtain f where f: "f \<in> set (assetFaces w)" "g = (if f_id f = f_id face then f\<lparr>f_personId := Some p\<rparr> else f)"
      by (auto simp: reassignFaces_def set_update_where)
    have r: "r \<in> set (persons w)" "a \<in> set (assets w)" using g(2,3) by (simp_all add: reassignFaces_def)
    show "a_eventId a = p_eventId r"
    proof (cases "f_id f = f_id face")
      case True
      with f g(4,5) assms(5) have "p_id r = p" "a_id a = a_id asset" using assms(7) by auto
      moreover then have "a = asset" using assms(2,6) r(2) by (auto simp: distinct_map inj_on_def)
      ultimately show ?thesis using assms(8) [OF r(1)] by simp
    next
      case False
      with f g(4,5) isolatedD [OF assms(1) f(1) r(1,2)] show ?thesis by simp
    qed
  qed
  then show ?thesis
    unfolding assign_person_def Let_def using isolated_cong [of "snd (nameFromParticipants (a_eventId asset) p now ?w1)" ?w1] by simp
qed

lemma ml_source [simp]: "f_sourceType f = FaceSourceType_MachineLearning"
  by (cases "f_sourceType f") simp

text \<open>The four things the recognition job can do.\<close>

lemma recognize_cases:
  assumes "handleRecognizeFaces env i deferred now w = (r, w')"
  obtains
    (unchanged) "w' = w" "r \<noteq> Inr JobStatus_Success"
  | (alone) face asset emb matches where
      "getForRecognition i w = Some (face, asset, Some emb)" "f_personId face = None"
      "searchFaces (fe_index env) (a_eventId asset) emb (fr_maxDistance (face_getConfig (a_eventId asset) w))
         (fr_minFaces (face_getConfig (a_eventId asset) w)) False w = Inr matches"
      "find_person env (a_eventId asset) emb (fr_maxDistance (face_getConfig (a_eventId asset) w)) matches w = Inr None"
      "r = Inr JobStatus_Success" "w' = w" "length matches < fr_minFaces (face_getConfig (a_eventId asset) w)"
  | (deferring) "w' = queue (FaceRecognize i True) w" "r = Inr JobStatus_Skipped"
  | (joined) face asset emb matches p where
      "getForRecognition i w = Some (face, asset, Some emb)" "f_personId face = None"
      "searchFaces (fe_index env) (a_eventId asset) emb (fr_maxDistance (face_getConfig (a_eventId asset) w))
         (fr_minFaces (face_getConfig (a_eventId asset) w)) False w = Inr matches"
      "find_person env (a_eventId asset) emb (fr_maxDistance (face_getConfig (a_eventId asset) w)) matches w = Inr (Some p)"
      "r = Inr JobStatus_Success" "w' = assign_person env (a_eventId asset) i p now w"
  | (founded) face asset emb matches where
      "getForRecognition i w = Some (face, asset, Some emb)" "f_personId face = None"
      "searchFaces (fe_index env) (a_eventId asset) emb (fr_maxDistance (face_getConfig (a_eventId asset) w))
         (fr_minFaces (face_getConfig (a_eventId asset) w)) False w = Inr matches"
      "find_person env (a_eventId asset) emb (fr_maxDistance (face_getConfig (a_eventId asset) w)) matches w = Inr None"
      "r = Inr JobStatus_Success"
      "w' = assign_person env (a_eventId asset) i (fe_newPersonId env) now
         (queueAll [PersonThumbnail (fe_newPersonId env), ParticipantRematch (a_eventId asset)]
           (snd (person_create (fe_newPersonId env) (a_eventId asset) (a_orgId asset) i now w)))"
proof (cases "getForRecognition i w")
  case None
  with assms unchanged show thesis by (auto simp: handleRecognizeFaces_def)
next
  case (Some x)
  obtain face asset e where x: "x = (face, asset, e)" by (cases x)
  note got = Some [unfolded x]
  have i: "f_id face = i" using getForRecognition_face [OF got] by simp
  show thesis
  proof (cases "f_personId face = None \<and> e \<noteq> None")
    case False
    with assms got unchanged show thesis by (auto simp: handleRecognizeFaces_def split: option.splits if_splits)
  next
    case True
    then obtain emb where e: "e = Some emb" "f_personId face = None" by blast
    let ?cfg = "face_getConfig (a_eventId asset) w"
    show thesis
    proof (cases "searchFaces (fe_index env) (a_eventId asset) emb (fr_maxDistance ?cfg) (fr_minFaces ?cfg) False w")
      case (Inl err)
      with assms got e unchanged show thesis by (auto simp: handleRecognizeFaces_def Let_def)
    next
      case (Inr matches)
      note m = this
      have run: "(r, w') = (if fr_minFaces ?cfg > 1 \<and> length matches \<le> 1 then (Inr JobStatus_Skipped, w)
           else if \<not> length matches \<ge> fr_minFaces ?cfg \<and> \<not> deferred then (Inr JobStatus_Skipped, queue (FaceRecognize i True) w)
           else case find_person env (a_eventId asset) emb (fr_maxDistance ?cfg) matches w of
             Inl er \<Rightarrow> (Inl er, w)
           | Inr (Some person) \<Rightarrow> (Inr JobStatus_Success, assign_person env (a_eventId asset) i person now w)
           | Inr None \<Rightarrow> if length matches \<ge> fr_minFaces ?cfg
               then (Inr JobStatus_Success, assign_person env (a_eventId asset) i (fe_newPersonId env) now
                 (queueAll [PersonThumbnail (fe_newPersonId env), ParticipantRematch (a_eventId asset)]
                   (snd (person_create (fe_newPersonId env) (a_eventId asset) (a_orgId asset) i now w))))
               else (Inr JobStatus_Success, w))"
        unfolding assms [symmetric] handleRecognizeFaces_def got using e m i
        by (simp add: Let_def person_create_def split: sum.splits option.splits)
      show thesis
      proof (cases "find_person env (a_eventId asset) emb (fr_maxDistance ?cfg) matches w")
        case (Inl er)
        with run unchanged deferring show thesis by (auto split: if_splits)
      next
        case (Inr found)
        show thesis
        proof (cases found)
          case None
          with run Inr unchanged deferring founded [OF got [unfolded e(1)] e(2) m] alone [OF got [unfolded e(1)] e(2) m]
          show thesis by (auto split: if_splits)
        next
          case (Some p)
          with run Inr unchanged deferring joined [OF got [unfolded e(1)] e(2) m] show thesis by (auto split: if_splits)
        qed
      qed
    qed
  qed
qed

text \<open>A fresh person of the face's event may be given the face.\<close>

lemma isolated_new_person:
  assumes "isolated w" "\<And>f. f \<in> set (assetFaces w) \<Longrightarrow> f_personId f \<noteq> Some (p_id new)"
    and "assetFaces w' = assetFaces w" "assets w' = assets w" "persons w' = persons w @ [new]"
  shows "isolated w'"
  unfolding isolated_def assms(3-5)
proof (intro ballI impI)
  fix g r a assume g: "g \<in> set (assetFaces w)" "a \<in> set (assets w)" "f_personId g = Some (p_id r)" "a_id a = f_assetId g"
    and r: "r \<in> set (persons w @ [new])"
  have "p_id r \<noteq> p_id new" using assms(2) [OF g(1)] g(3) by auto
  with r have "r \<in> set (persons w)" by auto
  with isolatedD [OF assms(1) g(1) _ g(2,3,4)] show "a_eventId a = p_eventId r" .
qed

lemma founding_isolated:
  assumes "isolated w" "unique_assets w" "unique_persons w"
    and face: "face \<in> set (assetFaces w)" "asset \<in> set (assets w)" "a_id asset = f_assetId face"
    and same: "\<And>g. g \<in> set (assetFaces w) \<Longrightarrow> f_id g = f_id face \<Longrightarrow> f_assetId g = f_assetId face"
    and fresh: "p_id new \<notin> p_id ` set (persons w)" "\<And>f. f \<in> set (assetFaces w) \<Longrightarrow> f_personId f \<noteq> Some (p_id new)"
    and "p_eventId new = a_eventId asset"
    and w': "assetFaces w' = assetFaces w" "assets w' = assets w" "persons w' = persons w @ [new]"
  shows "isolated (assign_person env (a_eventId asset) (f_id face) (p_id new) now w')"
proof (rule assign_isolated)
  show "isolated w'" by (rule isolated_new_person [OF assms(1) fresh(2) w'])
  show "unique_assets w'" "face \<in> set (assetFaces w')" "asset \<in> set (assets w')" "a_id asset = f_assetId face"
    unfolding w' by (rule assms(2) face)+
  show "unique_persons w'" unfolding w' using assms(3) fresh(1) by simp
  show "f_assetId g = f_assetId face" if "g \<in> set (assetFaces w')" "f_id g = f_id face" for g
    using that unfolding w' by (rule same)
  show "p_eventId r = a_eventId asset" if "r \<in> set (persons w')" "p_id r = p_id new" for r
    using that fresh(1) assms(10) unfolding w' by (auto simp: image_iff)
qed

text \<open>
  C20. Clustering never crosses events: whatever the recognition job does with a face, it keeps the
  rule that a face only belongs to people of its own photo's event.
\<close>

theorem recognition_keeps_tenancy:
  assumes "isolated w" "unique_assets w" "unique_persons w" "distinct (map f_id (assetFaces w))"
    and "\<And>r. r \<in> set (persons w) \<Longrightarrow> p_id r \<noteq> fe_newPersonId env"
    and "\<And>f. f \<in> set (assetFaces w) \<Longrightarrow> f_personId f \<noteq> Some (fe_newPersonId env)"
  shows "isolated (snd (handleRecognizeFaces env i deferred now w))"
proof -
  let ?w' = "snd (handleRecognizeFaces env i deferred now w)"
  obtain r where run: "handleRecognizeFaces env i deferred now w = (r, ?w')" by (metis prod.collapse)
  from run show ?thesis
  proof (cases rule: recognize_cases)
    case unchanged
    with assms(1) show ?thesis by simp
  next
    case (alone face asset emb matches)
    with assms(1) show ?thesis by simp
  next
    case deferring
    with assms(1) show ?thesis by (simp add: isolated_def queueAll_def)
  next
    case (joined face asset emb matches p)
    note f = getForRecognition_face [OF joined(1)]
    have same: "f_assetId g = f_assetId face" if "g \<in> set (assetFaces w)" "f_id g = f_id face" for g
      using assms(4) that f by (metis distinct_map inj_onD)
    from find_person_reach [OF joined(3,4)] obtain g where g: "g \<in> set (assetFaces w)" "f_personId g = Some p" "in_event (a_eventId asset) w g"
      by (auto simp: in_reach_def)
    then have "p_eventId r = a_eventId asset" if "r \<in> set (persons w)" "p_id r = p" for r
      using isolatedD [OF assms(1) g(1) that(1)] that(2) by (auto simp: in_event_def)
    from assign_isolated [OF assms(1-3) _ same _ _ this] f joined(6) show ?thesis by simp
  next
    case (founded face asset emb matches)
    note f = getForRecognition_face [OF founded(1)]
    have same: "f_assetId g = f_assetId face" if "g \<in> set (assetFaces w)" "f_id g = f_id face" for g
      using assms(4) that f by (metis distinct_map inj_onD)
    define new where "new = fst (person_create (fe_newPersonId env) (a_eventId asset) (a_orgId asset) i now w)"
    have new: "p_id new = fe_newPersonId env" "p_eventId new = a_eventId asset"
      by (simp_all add: new_def person_create_def Let_def)
    have fresh: "p_id new \<notin> p_id ` set (persons w)" using assms(5) unfolding new by force
    have "isolated (assign_person env (a_eventId asset) (f_id face) (p_id new) now
        (queueAll [PersonThumbnail (fe_newPersonId env), ParticipantRematch (a_eventId asset)]
          (snd (person_create (fe_newPersonId env) (a_eventId asset) (a_orgId asset) i now w))))"
      by (rule founding_isolated [OF assms(1-3) _ _ _ same fresh _ new(2)])
        (use f assms(6) new in \<open>simp_all add: new_def person_create_def queueAll_def Let_def\<close>)
    with f founded(6) new(1) show ?thesis by simp
  qed
qed

section \<open>Joining before founding\<close>

lemma hd_sort_key_le: "xs \<noteq> [] \<Longrightarrow> x \<in> set xs \<Longrightarrow> k (hd (sort_key k xs)) \<le> (k x :: real)"
proof -
  assume "x \<in> set xs"
  then have "x \<in> set (sort_key k xs)" by simp
  with sorted_sort_key [of k xs] show ?thesis by (cases "sort_key k xs") auto
qed

lemma find_person_None:
  assumes "searchFaces (fe_index env) ev emb d n False w = Inr matches" "find_person env ev emb d matches w = Inr None"
  shows "in_reach (fe_index env) ev emb d w = {}"
proof (rule ccontr)
  let ?rows = "search_rows (fe_index env) ev emb True w"
  assume "in_reach (fe_index env) ev emb d w \<noteq> {}"
  then obtain r where r: "r \<in> set ?rows" "sr_distance r \<le> d"
    by (fastforce simp: in_reach_def search_rows_def)
  let ?top = "hd (sort_key sr_distance ?rows)"
  have ne: "?rows \<noteq> []" using r(1) by auto
  then have sne: "sort_key sr_distance ?rows \<noteq> []" by (metis length_0_conv length_sort)
  have "sr_distance ?top \<le> d" using hd_sort_key_le [OF ne r(1), of sr_distance] r(2) by simp
  moreover have "take 1 (sort_key sr_distance ?rows) = [?top]" using sne by (cases "sort_key sr_distance ?rows") auto
  ultimately have "searchFaces (fe_index env) ev emb d 1 True w = Inr [?top]" by (simp add: searchFaces_def)
  moreover have "sr_personId ?top \<noteq> None"
    using search_rows_event [of ?top "fe_index env" ev emb True w] hd_in_set [OF sne] by auto
  ultimately show False
    using assms(2) by (auto simp: find_person_def split: option.splits sum.splits list.splits dest: select_first_SomeD)
qed

lemma assign_faces:
  "assetFaces (assign_person env ev i p now w) = update_where (\<lambda>f. f_id f = i) (\<lambda>f. f\<lparr>f_personId := Some p\<rparr>) (assetFaces w)"
  by (simp add: assign_person_def reassignFaces_def Let_def)

lemma assign_persons: "map p_id (persons (assign_person env ev i p now w)) = map p_id (persons w)"
  by (simp add: assign_person_def reassignFaces_def Let_def)

text \<open>
  A face joins a cluster in reach before a new one is founded: when the recognition job succeeds,
  either the face gets the person of a face of the same event within the match distance, or there is no
  such face, and then it founds a new person of its event (or, if it has too few neighbours, stays
  alone). No other face changes, and a face that has a person keeps it.
\<close>

theorem face_joins_before_founding:
  assumes "getForRecognition i w = Some (face, asset, Some emb)"
    and "handleRecognizeFaces env i deferred now w = (Inr JobStatus_Success, w')"
  defines "near \<equiv> in_reach (fe_index env) (a_eventId asset) emb (fr_maxDistance (face_getConfig (a_eventId asset) w)) w"
  shows "w' = w \<and> near = {} \<and> (\<exists>matches. length matches < fr_minFaces (face_getConfig (a_eventId asset) w)
      \<and> searchFaces (fe_index env) (a_eventId asset) emb (fr_maxDistance (face_getConfig (a_eventId asset) w))
          (fr_minFaces (face_getConfig (a_eventId asset) w)) False w = Inr matches)
    \<or> f_personId face = None \<and> (\<exists>p. assetFaces w' = update_where (\<lambda>f. f_id f = i) (\<lambda>f. f\<lparr>f_personId := Some p\<rparr>) (assetFaces w)
        \<and> (if near = {} then p = fe_newPersonId env \<and> map p_id (persons w') = map p_id (persons w) @ [p]
           else p \<in> near \<and> map p_id (persons w') = map p_id (persons w)))"
  using assms(2)
proof (cases rule: recognize_cases)
  case (alone face' asset' emb' matches)
  with assms(1) find_person_None [OF alone(3,4)] show ?thesis by (simp add: near_def)
next
  case (joined face' asset' emb' matches p)
  with assms(1) have "p \<in> near"
    using find_person_reach [OF joined(3,4)] by (simp add: near_def)
  with joined assms(1) show ?thesis by (auto simp: assign_faces assign_persons)
next
  case (founded face' asset' emb' matches)
  with assms(1) have "near = {}" using find_person_None [OF founded(3,4)] by (simp add: near_def)
  moreover have "assetFaces w' = update_where (\<lambda>f. f_id f = i) (\<lambda>f. f\<lparr>f_personId := Some (fe_newPersonId env)\<rparr>) (assetFaces w)"
    "map p_id (persons w') = map p_id (persons w) @ [fe_newPersonId env]"
    unfolding founded(6) assign_faces assign_persons by (simp_all add: person_create_def queueAll_def Let_def)
  ultimately show ?thesis using founded(1,2) assms(1) by simp
qed simp_all

section \<open>The re-run\<close>

lemma queue_pages_all:
  assumes "distinct (unassigned ev w)"
  shows "queue_pages ev a n w =
    (n + length (filter (after_id a) (unassigned ev w)),
     queueAll (map (\<lambda>i. FaceRecognize i False) (filter (after_id a) (unassigned ev w))) w)"
  using assms
proof (induction ev a n w rule: queue_pages.induct)
  case (1 ev a n w)
  let ?xs = "filter (after_id a) (unassigned ev w)" and ?n = QUEUE_ALL_PAGE_SIZE
  let ?page = "getUnassignedFaceIds ev ?n a w"
  have page: "?page = take ?n ?xs" by (simp add: getUnassignedFaceIds_def)
  show ?case
  proof (cases "?page = []")
    case True
    then have "?xs = []" unfolding page by (simp add: QUEUE_ALL_PAGE_SIZE_def)
    with True show ?thesis by (simp add: queue_pages.simps [of ev a n w])
  next
    case False
    have "sorted_wrt (<) (unassigned ev w)"
      using 1(2) sorted_sort by (simp add: unassigned_def strict_sorted_iff)
    then have remaining: "filter (after_id (Some (last ?page))) (unassigned ev w) = drop ?n ?xs"
      unfolding page using False by (intro keyset_rest) (simp_all add: page)
    have "queue_pages ev a n w = queue_pages ev (Some (last ?page)) (n + length ?page)
        (queueAll (map (\<lambda>i. FaceRecognize i False) ?page) w)"
      using False by (subst queue_pages.simps) (simp add: Let_def)
    also have "\<dots> = (n + length ?page + length (drop ?n ?xs),
        queueAll (map (\<lambda>i. FaceRecognize i False) (drop ?n ?xs)) (queueAll (map (\<lambda>i. FaceRecognize i False) ?page) w))"
      using "1.IH" [OF refl False] 1(2) by (simp add: remaining)
    also have "\<dots> = (n + length ?xs, queueAll (map (\<lambda>i. FaceRecognize i False) ?xs) w)"
      by (simp add: page flip: map_append)
    finally show ?thesis .
  qed
qed

lemma cleanup_queued:
  "\<exists>c. queued (snd (handlePersonCleanup v)) = queued v @ c \<and> set c \<subseteq> {CleanupKeys ks | ks. True}"
proof -
  let ?keys = "filter (\<lambda>k. k \<noteq> '''') (map p_thumbnailKey (getAllWithoutFaces v))"
  show ?thesis
  proof (cases "getAllWithoutFaces v = [] \<or> ?keys = []")
    case True
    then show ?thesis by (intro exI [of _ "[]"]) (auto simp: handlePersonCleanup_def Let_def person_delete_def)
  next
    case False
    then show ?thesis by (intro exI [of _ "[CleanupKeys ?keys]"]) (auto simp: handlePersonCleanup_def Let_def person_delete_def)
  qed
qed

text \<open>
  A re-run queues every unassigned face of the event exactly once, in id order, however many pages
  they fill, and then one rematch; a forced re-run queues every live face of the event that way.
\<close>

theorem rerun_queues_each_face_once:
  assumes "distinct (map f_id (assetFaces w))" "handleQueueRecognizeFaces ev force w = (st, w')"
  shows "\<exists>ids. distinct ids \<and> sorted ids
    \<and> set ids = {f_id f | f. f \<in> set (assetFaces w) \<and> in_event ev w f \<and> (force \<or> f_personId f = None)}
    \<and> (\<exists>cleanup. set cleanup \<subseteq> {CleanupKeys ks | ks. True} \<and> (\<not> force \<longrightarrow> cleanup = [])
        \<and> queued w' = queued w @ cleanup @ map (\<lambda>i. FaceRecognize i False) ids @ [ParticipantRematch ev])"
proof -
  let ?w1 = "if force then snd (handlePersonCleanup (unassignByEvent ev w)) else w"
  let ?drop = "\<lambda>f. if \<exists>a \<in> set (assets w). a_id a = f_assetId f \<and> a_eventId a = ev \<and> a_deletedAt a = None then f\<lparr>f_personId := None\<rparr> else f"
  obtain g where g: "assetFaces ?w1 = map g (assetFaces w)" "\<And>f. f_id (g f) = f_id f" "\<And>f. f_assetId (g f) = f_assetId f"
      "\<And>f. f_deletedAt (g f) = f_deletedAt f" "assets ?w1 = assets w"
      "\<And>f. in_event ev w f \<Longrightarrow> f_personId (g f) = (if force then None else f_personId f)"
  proof (cases force)
    case False
    then show thesis by (intro that [of "\<lambda>f. f"]) simp_all
  next
    case True
    let ?dead = "map p_id (getAllWithoutFaces (unassignByEvent ev w))"
    have "assetFaces ?w1 = map (\<lambda>f. (?drop f)\<lparr>f_personId := null_if_dead ?dead (f_personId (?drop f))\<rparr>) (assetFaces w) \<or> assetFaces ?w1 = map ?drop (assetFaces w)"
      using True by (auto simp: handlePersonCleanup_def Let_def person_delete_def unassignByEvent_def update_where_def queueAll_def)
    moreover have "assets ?w1 = assets w"
      using True by (simp add: handlePersonCleanup_def Let_def person_delete_def unassignByEvent_def queueAll_def)
    ultimately show thesis
      using True that [of "\<lambda>f. (?drop f)\<lparr>f_personId := null_if_dead ?dead (f_personId (?drop f))\<rparr>"] that [of ?drop]
      by (auto simp: in_event_def null_if_dead_def)
  qed
  have ev: "in_event ev ?w1 (g f) = in_event ev w f" for f by (simp only: in_event_def g)
  have "unassigned ev ?w1 = sort (map f_id (filter (\<lambda>f. in_event ev w f \<and> (force \<or> f_personId f = None)) (assetFaces w)))"
    unfolding unassigned_def g(1) filter_map map_map comp_def g(2) ev
    by (rule arg_cong [where f = "\<lambda>fs. sort (map f_id fs)"], rule filter_cong [OF refl]) (auto simp: g(6) split: if_splits)
  then have ids: "set (unassigned ev ?w1) = {f_id f | f. f \<in> set (assetFaces w) \<and> in_event ev w f \<and> (force \<or> f_personId f = None)}"
    by (auto simp: image_iff)
  have "distinct (map f_id (assetFaces ?w1))" using assms(1) by (simp add: g(1,2) comp_def)
  then have dist: "distinct (unassigned ev ?w1)" by (simp add: unassigned_def distinct_map inj_on_def)
  obtain cleanup where c: "queued ?w1 = queued w @ cleanup" "set cleanup \<subseteq> {CleanupKeys ks | ks. True}" "\<not> force \<longrightarrow> cleanup = []"
  proof (cases force)
    case False
    then show thesis by (intro that [of "[]"]) simp_all
  next
    case True
    have "queued (unassignByEvent ev w) = queued w" by (simp add: unassignByEvent_def)
    with True cleanup_queued [of "unassignByEvent ev w"] that show thesis by auto
  qed
  have "queued w' = queued ?w1 @ map (\<lambda>i. FaceRecognize i False) (unassigned ev ?w1) @ [ParticipantRematch ev]"
    using assms(2) queue_pages_all [OF dist, of None 0]
    by (auto simp: handleQueueRecognizeFaces_def after_id_def [abs_def] Let_def)
  with c ids dist show ?thesis by (intro exI [of _ "unassigned ev ?w1"]) (auto simp: unassigned_def)
qed

text \<open>
  The cleanup removes exactly the people without a live face, hands their portraits to the object
  cleanup, and changes no live face.
\<close>

theorem cleanup_removes_exactly_empty_people:
  assumes "unique_persons w"
  shows "persons (snd (handlePersonCleanup w))
      = filter (\<lambda>p. \<exists>f \<in> set (assetFaces w). f_personId f = Some (p_id p) \<and> f_deletedAt f = None) (persons w)
    \<and> filter (\<lambda>f. f_deletedAt f = None) (assetFaces (snd (handlePersonCleanup w))) = filter (\<lambda>f. f_deletedAt f = None) (assetFaces w)
    \<and> (\<forall>p \<in> set (getAllWithoutFaces w). p_thumbnailKey p \<noteq> '''' \<longrightarrow>
        (\<exists>ks. CleanupKeys ks \<in> set (queued (snd (handlePersonCleanup w))) \<and> p_thumbnailKey p \<in> set ks))"
proof (cases "getAllWithoutFaces w = []")
  case True
  then have "filter (\<lambda>p. \<exists>f \<in> set (assetFaces w). f_personId f = Some (p_id p) \<and> f_deletedAt f = None) (persons w) = persons w"
    by (auto simp: getAllWithoutFaces_def filter_empty_conv filter_id_conv)
  with True show ?thesis by (simp add: handlePersonCleanup_def)
next
  case False
  let ?dead = "getAllWithoutFaces w" and ?busy = "\<lambda>p. \<exists>f \<in> set (assetFaces w). f_personId f = Some (p_id p) \<and> f_deletedAt f = None"
  let ?w' = "snd (handlePersonCleanup w)"
  have eqs: "persons ?w' = delete_where (\<lambda>p. p_id p \<in> set (map p_id ?dead)) (persons w)"
    "assetFaces ?w' = map (\<lambda>f. f\<lparr>f_personId := null_if_dead (map p_id ?dead) (f_personId f)\<rparr>) (assetFaces w)"
    using False by (simp_all add: handlePersonCleanup_def Let_def person_delete_def queueAll_def)
  have "persons ?w' = filter (\<lambda>p. \<not> \<not> ?busy p) (persons w)"
    unfolding eqs getAllWithoutFaces_def by (rule delete_where_ids [OF assms]) simp
  moreover have keep: "f\<lparr>f_personId := null_if_dead (map p_id ?dead) (f_personId f)\<rparr> = f" if f: "f \<in> set (assetFaces w)" "f_deletedAt f = None" for f
  proof -
    have "null_if_dead (map p_id ?dead) (f_personId f) = f_personId f"
      using f by (auto simp: null_if_dead_def getAllWithoutFaces_def split: option.splits)
    then show ?thesis by simp
  qed
  have "filter (\<lambda>f. f_deletedAt f = None) (assetFaces ?w') = filter (\<lambda>f. f_deletedAt f = None) (assetFaces w)"
    unfolding eqs by (simp add: filter_map comp_def) (rule map_idI, simp add: keep)
  moreover have "\<exists>ks. CleanupKeys ks \<in> set (queued ?w') \<and> p_thumbnailKey p \<in> set ks"
    if "p \<in> set ?dead" "p_thumbnailKey p \<noteq> ''''" for p
    by (rule exI [of _ "filter (\<lambda>k. k \<noteq> '''') (map p_thumbnailKey ?dead)"])
      (use False that in \<open>auto simp: handlePersonCleanup_def Let_def person_delete_def filter_empty_conv\<close>)
  ultimately show ?thesis by simp
qed

section \<open>Portraits stay inside the image\<close>

lemma half_size_bounds:
  fixes m t n :: int
  assumes "0 \<le> m" "m \<le> n - 1" "0 \<le> t"
  shows "0 \<le> m - max 0 (m - t)" "m - max 0 (m - t) \<le> m" "0 \<le> min (n - 1) (m + t) - m" "min (n - 1) (m + t) - m \<le> n - 1 - m"
  using assms by auto

lemma min4_bounds:
  fixes a b c d :: int
  assumes "0 \<le> a" "0 \<le> b" "0 \<le> c" "0 \<le> d" "a \<le> a'" "b \<le> b'" "c \<le> c'" "d \<le> d'"
  shows "0 \<le> min (min a b) (min c d) \<and> min (min a b) (min c d) \<le> a' \<and> min (min a b) (min c d) \<le> b'
    \<and> min (min a b) (min c d) \<le> c' \<and> min (min a b) (min c d) \<le> d'"
  using assms by (simp add: min_def)

lemma clamp_bounds: "0 < hi \<Longrightarrow> 0 \<le> clamp v 0 hi" "0 < hi \<Longrightarrow> clamp v 0 hi \<le> hi"
  by (simp_all add: clamp_def)

lemma middle_bounds:
  fixes s c1 c2 :: real and n :: int
  assumes "0 < old" "s = real_of_int n / old" "0 \<le> c1" "c2 \<le> old" "1 < s * (c2 - c1)" "0 < n"
  shows "0 \<le> js_round (s * c1 + s * (c2 - c1) / 2)" "js_round (s * c1 + s * (c2 - c1) / 2) \<le> n - 1"
proof -
  have s: "0 < s" using assms by simp
  have mid: "s * c1 + s * (c2 - c1) / 2 = s * c2 - s * (c2 - c1) / 2" by (simp add: field_simps)
  have "0 \<le> s * c1" using s assms(3) by simp
  then show "0 \<le> js_round (s * c1 + s * (c2 - c1) / 2)" using assms(5) unfolding js_round_def by linarith
  have "s * c2 \<le> s * old" using s assms(4) by simp
  also have "\<dots> = real_of_int n" using assms(1,2) by simp
  finally have "s * c1 + s * (c2 - c1) / 2 + 1 / 2 < real_of_int n" using assms(5) unfolding mid by linarith
  then show "js_round (s * c1 + s * (c2 - c1) / 2) \<le> n - 1" unfolding js_round_def by linarith
qed

text \<open>
  A portrait crop is a square inside the image, whatever the box: it needs only that the part of the
  box inside the picture is more than a pixel wide and high in the source image.
\<close>

theorem crop_inside_image:
  assumes "0 < ow" "0 < oh" "0 < nw" "0 < nh"
    and "1 < real_of_int nw / ow * (clamp (bb_x2 box) 0 ow - clamp (bb_x1 box) 0 ow)"
    and "1 < real_of_int nh / oh * (clamp (bb_y2 box) 0 oh - clamp (bb_y1 box) 0 oh)"
    and "getCrop (ow, oh) (nw, nh) box = (x, y, width, height)"
  shows "0 \<le> x \<and> 0 \<le> y \<and> 0 \<le> width \<and> width = height \<and> x + width \<le> nw - 1 \<and> y + height \<le> nh - 1"
proof -
  let ?ws = "real_of_int nw / ow" and ?hs = "real_of_int nh / oh"
  let ?x1 = "clamp (bb_x1 box) 0 ow" and ?x2 = "clamp (bb_x2 box) 0 ow" and ?y1 = "clamp (bb_y1 box) 0 oh" and ?y2 = "clamp (bb_y2 box) 0 oh"
  define mx my where "mx = js_round (?ws * ?x1 + ?ws * (?x2 - ?x1) / 2)" and "my = js_round (?hs * ?y1 + ?hs * (?y2 - ?y1) / 2)"
  define t where "t = \<lfloor>max (?ws * (?x2 - ?x1) / 2) (?hs * (?y2 - ?y1) / 2) * FACE_CROP_ZOOM_OUT\<rfloor>"
  define half where "half = min (min (mx - max 0 (mx - t)) (my - max 0 (my - t))) (min (min (nw - 1) (mx + t) - mx) (min (nh - 1) (my + t) - my))"
  have mx: "0 \<le> mx" "mx \<le> nw - 1" unfolding mx_def
    by (rule middle_bounds [OF assms(1) refl clamp_bounds(1) [OF assms(1)] clamp_bounds(2) [OF assms(1)] assms(5,3)])+
  have my: "0 \<le> my" "my \<le> nh - 1" unfolding my_def
    by (rule middle_bounds [OF assms(2) refl clamp_bounds(1) [OF assms(2)] clamp_bounds(2) [OF assms(2)] assms(6,4)])+
  have "0 \<le> a / 2" if "1 < a" for a :: real using that by simp
  then have "0 \<le> ?ws * (?x2 - ?x1) / 2" using assms(5) .
  then have "0 \<le> max (?ws * (?x2 - ?x1) / 2) (?hs * (?y2 - ?y1) / 2)" by (rule order.trans) (rule max.cobounded1)
  then have t: "0 \<le> t" unfolding t_def by (simp only: zero_le_floor FACE_CROP_ZOOM_OUT_def) (rule mult_nonneg_nonneg, simp_all)
  have "getCrop (ow, oh) (nw, nh) box = (mx - half, my - half, half * 2, half * 2)"
    unfolding getCrop_def Let_def prod.case mx_def my_def t_def half_def by (rule refl)
  with assms(7) have "x = mx - half" "y = my - half" "width = half * 2" "height = half * 2" by simp_all
  moreover note bx = half_size_bounds [OF mx t] and vy = half_size_bounds [OF my t]
  have "0 \<le> half \<and> half \<le> mx \<and> half \<le> my \<and> half \<le> nw - 1 - mx \<and> half \<le> nh - 1 - my"
    unfolding half_def by (rule min4_bounds [OF bx(1) vy(1) bx(3) vy(3) bx(2) vy(2) bx(4) vy(4)])
  ultimately show ?thesis by simp
qed

text \<open>A box beyond the right edge is cropped to a negative size, which the image library rejects.\<close>

lemma crop_outside_is_negative:
  "getCrop (100, 100) (100, 100) \<lparr>bb_x1 = 110, bb_y1 = 10, bb_x2 = 120, bb_y2 = 20\<rparr> = (101, 16, -2, -2)"
proof -
  have c: "clamp 110 0 100 = 100" "clamp 120 0 100 = 100" "clamp 10 0 100 = 10" "clamp 20 0 100 = 20"
    by (simp_all add: clamp_def)
  have m: "js_round (real_of_int 100 / 100 * 100 + real_of_int 100 / 100 * (100 - 100) / 2) = 100"
    "js_round (real_of_int 100 / 100 * 10 + real_of_int 100 / 100 * (20 - 10) / 2) = 15"
    "\<lfloor>max (real_of_int 100 / 100 * (100 - 100) / 2) (real_of_int 100 / 100 * (20 - 10) / 2) * FACE_CROP_ZOOM_OUT\<rfloor> = 12"
    by (simp_all add: js_round_def FACE_CROP_ZOOM_OUT_def floor_eq_iff)
  show ?thesis unfolding getCrop_def Let_def prod.case BoundingBox.simps c m by simp
qed

section \<open>Detecting again\<close>

definition box_of :: "face_row \<Rightarrow> BoundingBox" where
  "box_of f = \<lparr>bb_x1 = f_boundingBoxX1 f, bb_y1 = f_boundingBoxY1 f, bb_x2 = f_boundingBoxX2 f, bb_y2 = f_boundingBoxY2 f\<rparr>"

definition proper :: "face_row \<Rightarrow> bool" where
  "proper f \<longleftrightarrow> 0 \<le> f_boundingBoxX1 f \<and> 0 \<le> f_boundingBoxY1 f \<and> f_boundingBoxX1 f < f_boundingBoxX2 f
     \<and> f_boundingBoxY1 f < f_boundingBoxY2 f \<and> 0 < f_imageWidth f \<and> 0 < f_imageHeight f"

definition box_area :: "face_row \<Rightarrow> real" where
  "box_area f = (f_boundingBoxX2 f - f_boundingBoxX1 f) * (f_boundingBoxY2 f - f_boundingBoxY1 f)"

lemma iou_self:
  assumes "proper f"
  shows "iou_above_half f (box_of f)"
proof -
  have "0 < box_area f" using assms by (simp add: proper_def box_area_def)
  moreover have "iou_parts f (box_of f) = (box_area f, box_area f)"
    using assms by (simp add: iou_parts_def box_of_def proper_def box_area_def Let_def)
  ultimately show ?thesis by (simp add: iou_above_half_def)
qed

text \<open>A box with at least twice the area of the face does not match it.\<close>

lemma iou_too_large:
  assumes "proper f" "2 * box_area f \<le> (bb_x2 b - bb_x1 b) * (bb_y2 b - bb_y1 b)"
  shows "\<not> iou_above_half f b"
proof -
  define i where "i = fst (iou_parts f b)"
  let ?A = "box_area f" and ?B = "(bb_x2 b - bb_x1 b) * (bb_y2 b - bb_y1 b)"
  have A: "0 < ?A" using assms(1) by (simp add: proper_def box_area_def)
  have parts: "iou_parts f b = (i, ?A + ?B - i)" by (simp add: i_def iou_parts_def box_area_def Let_def)
  have i: "0 \<le> i" "i \<le> ?A"
    unfolding i_def iou_parts_def box_area_def Let_def fst_conv using assms(1)
    by (auto simp: proper_def intro!: mult_nonneg_nonneg mult_mono)
  then have "0 < ?A + ?B - i" "2 * i \<le> ?A + ?B - i" using A assms(2) by linarith+
  then show ?thesis by (simp add: iou_above_half_def parts field_simps)
qed

lemma scale_same:
  assumes "f_imageWidth f = df_imageWidth d" "f_imageHeight f = df_imageHeight d" "0 < df_imageWidth d" "0 < df_imageHeight d"
  shows "scale_of (df_imageWidth d) f_imageWidth (f # fs) = 1" "scale_of (df_imageHeight d) f_imageHeight (f # fs) = 1"
  using assms by (simp_all add: scale_of_def or_one_def)

lemma scale_box_1 [simp]: "scale_box 1 1 b = b"
  by (simp add: scale_box_def)

text \<open>The detection job up to the ML answer.\<close>

lemma handleDetectFaces_run:
  assumes "asset_getByIdUnscoped i w = Some asset"
    and "select_first (\<lambda>f. af_assetId f = i \<and> af_type f = AssetFileType_Preview) (assetFiles w) = Some preview"
    and "fe_detect env (af_storageKey preview) (fr_modelName (face_getConfig (a_eventId asset) w))
      (fr_minScore (face_getConfig (a_eventId asset) w)) = Inr d"
    and "found = fold (detect_one (fe_newFaceId env) i d (face_getByAssetId i w)) (df_faces d)
      \<lparr>dt_facesToAdd = [], dt_embeddings = [], dt_mlFaceIds = map f_id (face_getByAssetId i w)\<rparr>"
  shows "handleDetectFaces env i now w =
    (let (stored, w1) = (if dt_facesToAdd found \<noteq> [] \<or> dt_mlFaceIds found \<noteq> [] \<or> dt_embeddings found \<noteq> []
                         then refreshFaces (dt_facesToAdd found) (dt_mlFaceIds found) (dt_embeddings found) w
                         else (Inr (), w))
     in case stored of
          Inl e \<Rightarrow> (Inl e, w1)
        | Inr _ \<Rightarrow> (Inr JobStatus_Success,
            if dt_facesToAdd found \<noteq> []
            then queueAll (map (\<lambda>f. FaceRecognize (f_id f) False) (dt_facesToAdd found)
                   @ [FaceRecognizeQueueAll (a_eventId asset) False, ParticipantRematch (a_eventId asset)])
                   (setFacesDetected i (length (df_faces d)) now w1)
            else setFacesDetected i (length (df_faces d)) now w1))"
  using assms(1-3) unfolding assms(4) by (simp add: handleDetectFaces_def Let_def split: prod.split sum.split)

text \<open>
  Detecting again changes nothing when nothing changed: with the same image size and the same
  boxes, none of which overlap too much, every stored face keeps its row, its embedding and its person,
  no face is added and no job is queued; only the time of the detection moves.
\<close>

theorem redetect_is_stable:
  assumes "asset_getByIdUnscoped i w = Some asset"
    and "select_first (\<lambda>f. af_assetId f = i \<and> af_type f = AssetFileType_Preview) (assetFiles w) = Some preview"
    and "fe_detect env (af_storageKey preview) (fr_modelName (face_getConfig (a_eventId asset) w))
      (fr_minScore (face_getConfig (a_eventId asset) w)) = Inr d"
    and "map fc_boundingBox (df_faces d) = map box_of (face_getByAssetId i w)"
    and "distinct (map f_id (assetFaces w))"
    and "\<And>f. f \<in> set (face_getByAssetId i w) \<Longrightarrow> proper f \<and> f_imageWidth f = df_imageWidth d \<and> f_imageHeight f = df_imageHeight d"
    and "\<And>f g. f \<in> set (face_getByAssetId i w) \<Longrightarrow> g \<in> set (face_getByAssetId i w) \<Longrightarrow> f \<noteq> g \<Longrightarrow> \<not> iou_above_half f (box_of g)"
  shows "handleDetectFaces env i now w = (Inr JobStatus_Success, setFacesDetected i (length (df_faces d)) now w)"
proof -
  let ?ex = "face_getByAssetId i w" and ?one = "detect_one (fe_newFaceId env) i d (face_getByAssetId i w)"
  let ?acc = "\<lambda>ids. \<lparr>dt_facesToAdd = [], dt_embeddings = [], dt_mlFaceIds = ids\<rparr>"
  have dist: "distinct (map f_id ?ex)" using assms(5) by (simp add: face_getByAssetId_def distinct_map inj_on_def)
  have hit: "select_first (\<lambda>f. iou_above_half f (box_of g)) ?ex = Some g" if g: "g \<in> set ?ex" for g
  proof -
    have "iou_above_half f (box_of g) \<longleftrightarrow> f_id f = f_id g" if "f \<in> set ?ex" for f
      using that g assms(6,7) iou_self [of g] dist by (cases "f = g") (auto simp: distinct_map inj_on_def)
    then have "select_first (\<lambda>f. iou_above_half f (box_of g)) ?ex = select_first (\<lambda>f. f_id f = f_id g) ?ex"
      by (rule select_first_cong)
    then show ?thesis using select_first_by_key [OF dist g] by simp
  qed
  have step: "?one fc (?acc (f_id g # ids)) = ?acc ids"
    if "g \<in> set ?ex" "fc_boundingBox fc = box_of g" "f_id g \<notin> set ids" for fc g ids
  proof -
    from that(1) obtain h hs where ex: "?ex = h # hs" by (cases ?ex) auto
    then have "f_imageWidth h = df_imageWidth d" "f_imageHeight h = df_imageHeight d" "0 < df_imageWidth d" "0 < df_imageHeight d"
      using assms(6) [of h] by (auto simp: proper_def)
    from scale_same [OF this, of hs] have "scale_of (df_imageWidth d) f_imageWidth ?ex = 1" "scale_of (df_imageHeight d) f_imageHeight ?ex = 1"
      unfolding ex .
    then show ?thesis using that hit [OF that(1)] by (simp add: detect_one_def Let_def)
  qed
  have "fold ?one fcs (?acc (map f_id gs)) = ?acc []"
    if "map fc_boundingBox fcs = map box_of gs" "set gs \<subseteq> set ?ex" "distinct (map f_id gs)" for fcs gs
    using that
  proof (induction gs arbitrary: fcs)
    case (Cons g gs)
    then obtain fc rest where fcs: "fcs = fc # rest" "fc_boundingBox fc = box_of g" "map fc_boundingBox rest = map box_of gs" by auto
    have "?one fc (?acc (map f_id (g # gs))) = ?acc (map f_id gs)"
      using step [of g fc "map f_id gs"] Cons.prems fcs(2) by simp
    with Cons.IH [OF fcs(3)] Cons.prems fcs(1) show ?case by simp
  qed simp
  from this [OF assms(4) subset_refl dist] have found: "?acc [] = fold ?one (df_faces d) (?acc (map f_id ?ex))" by simp
  from handleDetectFaces_run [OF assms(1-3) found] show ?thesis by simp
qed

text \<open>
  Detecting again after the preview was regenerated at a larger size throws the people away: the
  new boxes are multiplied by the ratio new/old instead of old/new, so a face found at the same place of
  an image at least twice as large does not match its stored row; the row is replaced by one without a
  person. With the inverse ratio the box would match.
\<close>

theorem redetect_after_resize_loses_person:
  assumes "asset_getByIdUnscoped i w = Some asset"
    and "select_first (\<lambda>f. af_assetId f = i \<and> af_type f = AssetFileType_Preview) (assetFiles w) = Some preview"
    and "fe_detect env (af_storageKey preview) (fr_modelName (face_getConfig (a_eventId asset) w))
      (fr_minScore (face_getConfig (a_eventId asset) w)) = Inr d"
    and "face_getByAssetId i w = [f]" "proper f" "2 \<le> k"
    and "df_imageWidth d = k * f_imageWidth f" "df_imageHeight d = k * f_imageHeight f"
    and "df_faces d = [fc]" "fc_boundingBox fc = scale_box k k (box_of f)"
    and "\<And>s. s \<in> set (faceSearches w) \<Longrightarrow> fs_faceId s \<noteq> fe_newFaceId env 0"
  shows "fst (handleDetectFaces env i now w) = Inr JobStatus_Success
    \<and> face_getByAssetId i (snd (handleDetectFaces env i now w)) = [new_face (fe_newFaceId env 0) i d (fc_boundingBox fc)]
    \<and> iou_above_half f (scale_box (1 / k) (1 / k) (fc_boundingBox fc))"
proof -
  have pos: "0 < f_imageWidth f" "0 < f_imageHeight f" using assms(5) by (simp_all add: proper_def)
  have ratio: "scale_of (df_imageWidth d) f_imageWidth [f] = k" "scale_of (df_imageHeight d) f_imageHeight [f] = k"
    using pos assms(7,8) by (simp_all add: scale_of_def or_one_def)
  have area: "0 < box_area f" using assms(5) by (simp add: proper_def box_area_def)
  have k4: "2 \<le> k * k * (k * k)" using assms(6) mult_mono [of 2 k 2 k] mult_mono [of 4 "k * k" 4 "k * k"] by simp
  let ?b = "scale_box k k (fc_boundingBox fc)"
  have "(bb_x2 ?b - bb_x1 ?b) * (bb_y2 ?b - bb_y1 ?b) = (k * k * (k * k)) * box_area f"
    using assms(10) by (simp add: scale_box_def box_of_def box_area_def algebra_simps)
  with k4 area have "2 * box_area f \<le> (bb_x2 ?b - bb_x1 ?b) * (bb_y2 ?b - bb_y1 ?b)" by simp
  from iou_too_large [OF assms(5) this] have miss: "select_first (\<lambda>g. iou_above_half g ?b) [f] = None" by simp
  let ?found = "\<lparr>dt_facesToAdd = [new_face (fe_newFaceId env 0) i d (fc_boundingBox fc)],
      dt_embeddings = [(fe_newFaceId env 0, fc_embedding fc)], dt_mlFaceIds = [f_id f]\<rparr>"
  have "?found = fold (detect_one (fe_newFaceId env) i d (face_getByAssetId i w)) (df_faces d)
      \<lparr>dt_facesToAdd = [], dt_embeddings = [], dt_mlFaceIds = map f_id (face_getByAssetId i w)\<rparr>"
    using miss ratio by (simp add: assms(4,9) detect_one_def Let_def)
  note run = handleDetectFaces_run [OF assms(1-3) this, of now]
  have stored: "refreshFaces (dt_facesToAdd ?found) (dt_mlFaceIds ?found) (dt_embeddings ?found) w =
      (Inr (), (face_delete [f_id f] w)\<lparr>assetFaces := assetFaces (face_delete [f_id f] w) @ dt_facesToAdd ?found,
         faceSearches := faceSearches (face_delete [f_id f] w) @ [\<lparr>fs_faceId = fe_newFaceId env 0, fs_embedding = fc_embedding fc\<rparr>]\<rparr>)"
    using assms(11) by (auto simp: refreshFaces_def Let_def)
  have gone: "filter (\<lambda>g. f_assetId g = i \<and> f_deletedAt g = None) (delete_where (\<lambda>g. f_id g = f_id f) (assetFaces w)) = []"
    using assms(4) by (auto simp: face_getByAssetId_def filter_empty_conv dest!: arg_cong [where f = set])
  have "iou_above_half f (scale_box (1 / k) (1 / k) (fc_boundingBox fc))"
    using iou_self [OF assms(5)] assms(6,10) by (simp add: scale_box_def box_of_def)
  moreover have "face_getByAssetId i (snd (handleDetectFaces env i now w)) = [new_face (fe_newFaceId env 0) i d (fc_boundingBox fc)]"
    unfolding run Let_def stored using gone
    by (simp add: face_getByAssetId_def setFacesDetected_def queueAll_def face_delete_def new_face_def)
  moreover have "fst (handleDetectFaces env i now w) = Inr JobStatus_Success" unfolding run Let_def stored by simp
  ultimately show ?thesis by simp
qed

text \<open>
  Two detections that match the same stored face make the job fail, and fail again on every retry:
  the second one's embedding is inserted for a face that has one, the statement violates the primary key
  and nothing is recorded.
\<close>

theorem double_match_fails_detection:
  assumes "asset_getByIdUnscoped i w = Some asset"
    and "select_first (\<lambda>f. af_assetId f = i \<and> af_type f = AssetFileType_Preview) (assetFiles w) = Some preview"
    and "fe_detect env (af_storageKey preview) (fr_modelName (face_getConfig (a_eventId asset) w))
      (fr_minScore (face_getConfig (a_eventId asset) w)) = Inr d"
    and "face_getByAssetId i w = [f]" "proper f" "f_imageWidth f = df_imageWidth d" "f_imageHeight f = df_imageHeight d"
    and "df_faces d = [fc1, fc2]" "iou_above_half f (fc_boundingBox fc1)" "iou_above_half f (fc_boundingBox fc2)"
    and "s \<in> set (faceSearches w)" "fs_faceId s = f_id f"
  shows "handleDetectFaces env i now w = (Inl (ServerError ''face_search_pkey''), w)"
proof -
  have "0 < df_imageWidth d" "0 < df_imageHeight d" using assms(5-7) by (auto simp: proper_def)
  note ratio = scale_same [OF assms(6,7) this, of "[]"]
  let ?found = "\<lparr>dt_facesToAdd = [], dt_embeddings = [(f_id f, fc_embedding fc2)], dt_mlFaceIds = []\<rparr>"
  have "?found = fold (detect_one (fe_newFaceId env) i d (face_getByAssetId i w)) (df_faces d)
      \<lparr>dt_facesToAdd = [], dt_embeddings = [], dt_mlFaceIds = map f_id (face_getByAssetId i w)\<rparr>"
    using assms(9,10) by (simp add: assms(4,8) ratio detect_one_def Let_def)
  note run = handleDetectFaces_run [OF assms(1-3) this, of now]
  have "refreshFaces [] [] [(f_id f, fc_embedding fc2)] w = (Inl (ServerError ''face_search_pkey''), w)"
    using assms(11,12) by (auto simp: refreshFaces_def)
  then show ?thesis unfolding run by simp
qed

section \<open>A concrete photo\<close>

definition wit_asset :: asset_row where
  "wit_asset = \<lparr>a_id = ''a1'', a_eventId = ''e'', a_orgId = ''o'', a_type = AssetType_Image, a_originalFilename = ''a.jpg'',
     a_checksum = ''c'', a_fileSize = 1000, a_mimeType = ''image/jpeg'', a_status = AssetStatus_Processed,
     a_source = AssetSource_Upload, a_storageKey = ''k'', a_capturedAt = None, a_createdAt = 0, a_deletedAt = None,
     a_facesDetectedAt = None, a_faceCount = 0\<rparr>"

definition wit_preview :: assetfile_row where
  "wit_preview = \<lparr>af_assetId = ''a1'', af_type = AssetFileType_Preview, af_storageKey = ''preview''\<rparr>"

definition wit_lone :: face_row where
  "wit_lone = wit_face\<lparr>f_personId := None\<rparr>"

definition wit_face_world :: world where
  "wit_face_world = empty_world\<lparr>assets := [wit_asset], assetFiles := [wit_preview], assetFaces := [wit_lone],
     faceSearches := [\<lparr>fs_faceId = ''f1'', fs_embedding = ''v''\<rparr>]\<rparr>"

definition wit_box :: "real \<Rightarrow> real \<Rightarrow> BoundingBox" where
  "wit_box x1 x2 = \<lparr>bb_x1 = x1, bb_y1 = 10, bb_x2 = x2, bb_y2 = 30\<rparr>"

definition wit_face_env :: "DetectedFaces \<Rightarrow> face_env" where
  "wit_face_env d = \<lparr>fe_index = \<lparr>vx_distance = (\<lambda>_ _. 0), vx_visits = (\<lambda>_ _. True)\<rparr>, fe_detect = (\<lambda>_ _ _. Inr d),
     fe_newFaceId = (\<lambda>_. ''f9''), fe_newPersonId = ''p9'', fe_naming_ok = True,
     fe_dimensions = (\<lambda>_. Inr (100, 100)), fe_crop_ok = (\<lambda>_. True)\<rparr>"

definition wit_detected :: "real \<Rightarrow> BoundingBox list \<Rightarrow> DetectedFaces" where
  "wit_detected n bs = \<lparr>df_faces = map (\<lambda>b. \<lparr>fc_boundingBox = b, fc_embedding = ''v2''\<rparr>) bs, df_imageHeight = n, df_imageWidth = n\<rparr>"

lemma wit_face_facts:
  "asset_getByIdUnscoped ''a1'' wit_face_world = Some wit_asset"
  "select_first (\<lambda>f. af_assetId f = ''a1'' \<and> af_type f = AssetFileType_Preview) (assetFiles wit_face_world) = Some wit_preview"
  "face_getByAssetId ''a1'' wit_face_world = [wit_lone]" "proper wit_lone" "box_of wit_lone = wit_box 10 30"
  "f_imageWidth wit_lone = 100" "f_imageHeight wit_lone = 100" "f_id wit_lone = ''f1''"
  "distinct (map f_id (assetFaces wit_face_world))" "unique_assets wit_face_world" "unique_persons wit_face_world"
  "isolated wit_face_world" "persons wit_face_world = []" "assetFaces wit_face_world = [wit_lone]"
  "faceSearches wit_face_world = [\<lparr>fs_faceId = ''f1'', fs_embedding = ''v''\<rparr>]" "f_personId wit_lone = None"
  by (simp_all add: asset_getByIdUnscoped_def wit_face_world_def wit_asset_def wit_preview_def wit_lone_def wit_face_def
      face_getByAssetId_def proper_def box_of_def wit_box_def isolated_def empty_world_def)

theorem redetect_is_stable_witness:
  "handleDetectFaces (wit_face_env (wit_detected 100 [wit_box 10 30])) ''a1'' 5 wit_face_world
    = (Inr JobStatus_Success, setFacesDetected ''a1'' 1 5 wit_face_world)"
proof -
  let ?d = "wit_detected 100 [wit_box 10 30]"
  have "fe_detect (wit_face_env ?d) (af_storageKey wit_preview) (fr_modelName (face_getConfig (a_eventId wit_asset) wit_face_world))
      (fr_minScore (face_getConfig (a_eventId wit_asset) wit_face_world)) = Inr ?d"
    by (simp add: wit_face_env_def)
  from redetect_is_stable [OF wit_face_facts(1,2) this _ wit_face_facts(9)] show ?thesis
    by (simp add: wit_face_facts wit_detected_def)
qed

theorem redetect_after_resize_loses_person_witness:
  "map f_id (face_getByAssetId ''a1'' (snd (handleDetectFaces (wit_face_env (wit_detected 200 [scale_box 2 2 (wit_box 10 30)])) ''a1'' 5
     (wit_face_world\<lparr>assetFaces := [wit_face]\<rparr>)))) = [''f9'']"
proof -
  let ?d = "wit_detected 200 [scale_box 2 2 (wit_box 10 30)]" and ?w = "wit_face_world\<lparr>assetFaces := [wit_face]\<rparr>"
  let ?fc = "\<lparr>fc_boundingBox = scale_box 2 2 (wit_box 10 30), fc_embedding = ''v2''\<rparr>"
  have h: "asset_getByIdUnscoped ''a1'' ?w = Some wit_asset" "face_getByAssetId ''a1'' ?w = [wit_face]"
    "select_first (\<lambda>f. af_assetId f = ''a1'' \<and> af_type f = AssetFileType_Preview) (assetFiles ?w) = Some wit_preview"
    "fe_detect (wit_face_env ?d) (af_storageKey wit_preview) (fr_modelName (face_getConfig (a_eventId wit_asset) ?w))
      (fr_minScore (face_getConfig (a_eventId wit_asset) ?w)) = Inr ?d"
    "proper wit_face" "df_imageWidth ?d = 2 * f_imageWidth wit_face" "df_imageHeight ?d = 2 * f_imageHeight wit_face"
    "df_faces ?d = [?fc]" "fc_boundingBox ?fc = scale_box 2 2 (box_of wit_face)"
    using wit_face_facts(1,2)
    by (simp_all add: asset_getByIdUnscoped_def face_getByAssetId_def wit_face_env_def wit_detected_def proper_def
        wit_face_def box_of_def wit_box_def)
  have "fs_faceId s \<noteq> fe_newFaceId (wit_face_env ?d) 0" if "s \<in> set (faceSearches ?w)" for s
    using that by (simp add: wit_face_facts wit_face_env_def)
  from redetect_after_resize_loses_person [OF h(1,3,4,2,5) _ h(6-9) this] show ?thesis
    by (simp add: new_face_def wit_face_env_def)
qed

theorem double_match_fails_detection_witness:
  "fst (handleDetectFaces (wit_face_env (wit_detected 100 [wit_box 10 22, wit_box 18 30])) ''a1'' 5 wit_face_world)
    = Inl (ServerError ''face_search_pkey'')"
proof -
  let ?d = "wit_detected 100 [wit_box 10 22, wit_box 18 30]"
  have d: "fe_detect (wit_face_env ?d) (af_storageKey wit_preview) (fr_modelName (face_getConfig (a_eventId wit_asset) wit_face_world))
      (fr_minScore (face_getConfig (a_eventId wit_asset) wit_face_world)) = Inr ?d"
    "df_faces ?d = [\<lparr>fc_boundingBox = wit_box 10 22, fc_embedding = ''v2''\<rparr>, \<lparr>fc_boundingBox = wit_box 18 30, fc_embedding = ''v2''\<rparr>]"
    by (simp_all add: wit_face_env_def wit_detected_def)
  have b: "iou_above_half wit_lone (wit_box 10 22)" "iou_above_half wit_lone (wit_box 18 30)"
    by (simp_all add: iou_above_half_def iou_parts_def wit_box_def wit_lone_def wit_face_def)
  from double_match_fails_detection [OF wit_face_facts(1,2) d(1) wit_face_facts(3,4) _ _ d(2)] b wit_face_facts
  show ?thesis by (simp add: wit_detected_def)
qed

lemma wit_recognition: "getForRecognition ''f1'' wit_face_world = Some (wit_lone, wit_asset, Some ''v'')"
  by (simp add: getForRecognition_def wit_face_world_def wit_lone_def wit_face_def wit_asset_def)

theorem recognition_keeps_tenancy_witness:
  "isolated (snd (handleRecognizeFaces (wit_face_env (wit_detected 100 [])) ''f1'' False 5 wit_face_world))"
  by (rule recognition_keeps_tenancy) (simp_all add: wit_face_facts)

theorem face_joins_before_founding_witness:
  "map p_id (persons (snd (handleRecognizeFaces (wit_face_env (wit_detected 100 [])) ''f1'' False 5 wit_face_world))) = [''p9'']"
proof -
  let ?env = "wit_face_env (wit_detected 100 [])"
  let ?w' = "snd (handleRecognizeFaces ?env ''f1'' False 5 wit_face_world)"
  have cfg: "fr_minFaces (face_getConfig (a_eventId wit_asset) wit_face_world) = 1"
    "fr_maxDistance (face_getConfig (a_eventId wit_asset) wit_face_world) = 1 / 2"
    by (simp_all add: face_getConfig_def getFacialRecognitionConfig_def FACIAL_RECOGNITION_DEFAULTS_def wit_face_world_def
        empty_world_def event_getById_def)
  have ev: "in_event (a_eventId wit_asset) wit_face_world wit_lone"
    by (simp add: in_event_def wit_face_world_def wit_asset_def wit_lone_def wit_face_def)
  have rows: "search_rows (fe_index ?env) (a_eventId wit_asset) ''v'' False wit_face_world
      = [\<lparr>sr_id = ''f1'', sr_personId = None, sr_assetId = f_assetId wit_lone, sr_distance = 0\<rparr>]"
    "search_rows (fe_index ?env) (a_eventId wit_asset) ''v'' True wit_face_world = []"
    using ev by (simp_all add: search_rows_def wit_face_facts) (simp_all add: wit_face_env_def)
  have "searchFaces (fe_index ?env) (a_eventId wit_asset) ''v'' (1 / 2) 1 False wit_face_world
      = Inr [\<lparr>sr_id = ''f1'', sr_personId = None, sr_assetId = f_assetId wit_lone, sr_distance = 0\<rparr>]"
    "searchFaces (fe_index ?env) (a_eventId wit_asset) ''v'' (1 / 2) 1 True wit_face_world = Inr []"
    by (simp_all add: searchFaces_def rows)
  then have "fst (handleRecognizeFaces ?env ''f1'' False 5 wit_face_world) = Inr JobStatus_Success"
    unfolding handleRecognizeFaces_def wit_recognition prod.case option.case Let_def cfg
    by (simp add: wit_face_facts find_person_def split: prod.splits)
  then have run: "handleRecognizeFaces ?env ''f1'' False 5 wit_face_world = (Inr JobStatus_Success, ?w')" by (metis prod.collapse)
  have "in_reach (fe_index ?env) (a_eventId wit_asset) ''v'' d wit_face_world = {}" for d
    by (simp add: in_reach_def wit_face_facts)
  with face_joins_before_founding [OF wit_recognition run, unfolded cfg] rows show ?thesis
    by (auto simp: wit_face_facts searchFaces_def) (simp_all add: wit_face_env_def)
qed

theorem rerun_queues_each_face_once_witness:
  "FaceRecognize ''f1'' False \<in> set (queued (snd (handleQueueRecognizeFaces ''e'' False wit_face_world)))"
proof -
  have "in_event ''e'' wit_face_world wit_lone"
    by (simp add: in_event_def wit_face_world_def wit_asset_def wit_lone_def wit_face_def)
  then have "f_id wit_lone \<in> {f_id f | f. f \<in> set (assetFaces wit_face_world) \<and> in_event ''e'' wit_face_world f \<and> (False \<or> f_personId f = None)}"
    by (auto simp: wit_face_facts)
  with rerun_queues_each_face_once [OF wit_face_facts(9) prod.collapse [symmetric], of "''e''" False]
  obtain ids cleanup where "''f1'' \<in> set ids" "queued (snd (handleQueueRecognizeFaces ''e'' False wit_face_world))
      = queued wit_face_world @ cleanup @ map (\<lambda>i. FaceRecognize i False) ids @ [ParticipantRematch ''e'']"
    unfolding wit_face_facts(8) by blast
  then show ?thesis by simp
qed

theorem cleanup_removes_exactly_empty_people_witness:
  "persons (snd (handlePersonCleanup wit_people_world)) = persons wit_people_world"
proof -
  have "filter (\<lambda>p. \<exists>f \<in> set (assetFaces wit_people_world). f_personId f = Some (p_id p) \<and> f_deletedAt f = None) (persons wit_people_world)
      = persons wit_people_world"
    by (simp add: wit_people_world_def wit_cluster_def wit_face_def)
  with cleanup_removes_exactly_empty_people [OF wit_people_facts(1)] show ?thesis by simp
qed

theorem crop_inside_image_witness:
  "0 \<le> fst (getCrop (100, 100) (400, 400) (wit_box 10 30))"
proof -
  obtain x y width height where c: "getCrop (100, 100) (400, 400) (wit_box 10 30) = (x, y, width, height)" by (metis prod_cases4)
  have "0 \<le> x" using crop_inside_image [OF _ _ _ _ _ _ c] by (simp add: wit_box_def clamp_def)
  with c show ?thesis by simp
qed

end
