(* ===== verification/RateLimiter.thy ===== *)
theory RateLimiter
  imports Prelude "HOL-Library.Mapping" "HOL-Library.AList_Mapping"
begin

text \<open>
  \<^verbatim>\<open>utils/rate-limiter.ts\<close>, the in-memory sliding window of the selfie intake, and what its clients
  rely on as the locale \<open>window_limiter\<close>: on a clock that does not run backwards, the limiter answers
  exactly like one that remembers every accepted call, so no window ever holds more than the limit.
\<close>

section \<open>The limiter\<close>

type_synonym hits = "(string, ms list) mapping"

definition times_of :: "hits \<Rightarrow> string \<Rightarrow> ms list" where
  "times_of h key = or_default (Mapping.lookup h key) []"

definition consume :: "nat \<Rightarrow> int \<Rightarrow> hits \<Rightarrow> string \<Rightarrow> ms \<Rightarrow> bool \<times> hits" where
  "consume limit windowMs h key now =
    (let cutoff = now - windowMs;
         timestamps = filter (\<lambda>t. t > cutoff) (times_of h key)
     in if length timestamps \<ge> limit then (False, Mapping.update key timestamps h)
        else let h1 = Mapping.update key (timestamps @ [now]) h
             in (True, if Mapping.size h1 > 10000
                       then Mapping.filter (\<lambda>_ value. \<not> list_all (\<lambda>t. t \<le> cutoff) value) h1 else h1))"

lemma length_filter_mono: "(\<And>x. P x \<Longrightarrow> Q x) \<Longrightarrow> length (filter P xs) \<le> length (filter Q xs)"
  by (induction xs) (auto simp: le_SucI)

section \<open>The reference\<close>

text \<open>
  A sequence of calls with their times, answered by any limiter; and the limiter that forgets nothing: it
  keeps every accepted call forever and counts those of the last window.
\<close>

fun answers :: "('s \<Rightarrow> string \<Rightarrow> ms \<Rightarrow> bool \<times> 's) \<Rightarrow> 's \<Rightarrow> (string \<times> ms) list \<Rightarrow> bool list" where
  "answers f s [] = []"
| "answers f s ((k, now) # calls) = fst (f s k now) # answers f (snd (f s k now)) calls"

definition admits :: "nat \<Rightarrow> int \<Rightarrow> (string \<times> ms) list \<Rightarrow> string \<Rightarrow> ms \<Rightarrow> bool" where
  "admits limit window past k now \<longleftrightarrow> length (filter (\<lambda>x. fst x = k \<and> now - window < snd x) past) < limit"

definition logged :: "nat \<Rightarrow> int \<Rightarrow> (string \<times> ms) list \<Rightarrow> string \<Rightarrow> ms \<Rightarrow> bool \<times> (string \<times> ms) list" where
  "logged limit window past k now =
    (admits limit window past k now, if admits limit window past k now then past @ [(k, now)] else past)"

lemma logged_simps:
  "fst (logged limit window past k now) = admits limit window past k now"
  "snd (logged limit window past k now) = (if admits limit window past k now then past @ [(k, now)] else past)"
  by (simp_all add: logged_def)

definition accepted_calls :: "(string \<times> ms) list \<Rightarrow> bool list \<Rightarrow> (string \<times> ms) list" where
  "accepted_calls calls bs = map fst (filter snd (zip calls bs))"

text \<open>At most \<open>limit\<close> accepted calls of a key in every window.\<close>

definition window_bounded :: "nat \<Rightarrow> int \<Rightarrow> (string \<times> ms) list \<Rightarrow> bool" where
  "window_bounded limit window past \<longleftrightarrow>
    (\<forall>k t. length (filter (\<lambda>x. fst x = k \<and> t - window < snd x \<and> snd x \<le> t) past) \<le> limit)"

lemma window_bounded_step:
  assumes "window_bounded limit window past" "\<forall>x \<in> set past. snd x \<le> now" "0 \<le> window"
  shows "window_bounded limit window (snd (logged limit window past k now))"
proof (cases "admits limit window past k now")
  case True
  have "length (filter (\<lambda>x. fst x = k \<and> t - window < snd x \<and> snd x \<le> t) (past @ [(k, now)])) \<le> limit" for t
  proof (cases "t - window < now \<and> now \<le> t")
    case False
    then show ?thesis using assms(1) by (auto simp: window_bounded_def)
  next
    case inside: True
    have "length (filter (\<lambda>x. fst x = k \<and> t - window < snd x \<and> snd x \<le> t) past)
        \<le> length (filter (\<lambda>x. fst x = k \<and> now - window < snd x) past)"
      by (rule length_filter_mono) (use inside in auto)
    with True inside show ?thesis by (simp add: admits_def)
  qed
  moreover have "length (filter (\<lambda>x. fst x = k' \<and> t - window < snd x \<and> snd x \<le> t) (past @ [(k, now)])) \<le> limit"
    if "k' \<noteq> k" for k' t using assms(1) that by (simp add: window_bounded_def)
  ultimately have "window_bounded limit window (past @ [(k, now)])"
    unfolding window_bounded_def by (intro allI) (case_tac "ka = k", simp_all)
  with True show ?thesis by (simp add: logged_def)
qed (use assms(1) in \<open>simp add: logged_def\<close>)

lemma logged_bounded:
  assumes "0 \<le> window"
  shows "window_bounded limit window past \<Longrightarrow> \<forall>x \<in> set past. snd x \<le> t \<Longrightarrow> sorted (t # map snd calls) \<Longrightarrow>
    window_bounded limit window (past @ accepted_calls calls (answers (logged limit window) past calls))"
proof (induction calls arbitrary: past t)
  case (Cons c calls)
  obtain k now where c: "c = (k, now)" by (cases c)
  let ?past = "snd (logged limit window past k now)"
  have "\<forall>x \<in> set past. snd x \<le> now" using Cons.prems(2,3) by (force simp: c)
  then have "window_bounded limit window ?past" "\<forall>x \<in> set ?past. snd x \<le> now"
    using window_bounded_step [OF Cons.prems(1) _ assms] by (auto simp: logged_def)
  then have "window_bounded limit window (?past @ accepted_calls calls (answers (logged limit window) ?past calls))"
    using Cons.IH Cons.prems(3) by (simp add: c)
  then show ?case by (cases "admits limit window past k now") (simp_all add: c accepted_calls_def logged_simps)
qed (simp add: accepted_calls_def)

section \<open>What its clients rely on\<close>

text \<open>\<open>recent s k c\<close>: the accepted calls of a key after time \<open>c\<close>, as far as the limiter still knows.\<close>

locale window_limiter =
  fixes take_slot :: "'s \<Rightarrow> string \<Rightarrow> ms \<Rightarrow> bool \<times> 's"
    and recent :: "'s \<Rightarrow> string \<Rightarrow> ms \<Rightarrow> ms list"
    and limit :: nat and window :: int
  assumes accepts: "fst (take_slot s k now) \<longleftrightarrow> length (recent s k (now - window)) < limit"
    and remembers: "now - window \<le> c \<Longrightarrow> recent (snd (take_slot s k now)) k' c =
      recent s k' c @ (if k' = k \<and> fst (take_slot s k now) \<and> c < now then [now] else [])"
begin

text \<open>The limiter knows what the log says about every window that is still open at time \<open>t\<close>.\<close>

definition simulates :: "'s \<Rightarrow> ms \<Rightarrow> (string \<times> ms) list \<Rightarrow> bool" where
  "simulates s t past \<longleftrightarrow> (\<forall>k c. t - window \<le> c \<longrightarrow> recent s k c = map snd (filter (\<lambda>x. fst x = k \<and> c < snd x) past))"

lemma simulates_later: "simulates s t past \<Longrightarrow> t \<le> t' \<Longrightarrow> simulates s t' past"
  by (auto simp: simulates_def)

lemma simulates_step:
  assumes "simulates s t past" "t \<le> now"
  shows "fst (take_slot s k now) = fst (logged limit window past k now)"
    and "simulates (snd (take_slot s k now)) now (snd (logged limit window past k now))"
proof -
  have now: "simulates s now past" using assms by (rule simulates_later)
  then show a: "fst (take_slot s k now) = fst (logged limit window past k now)"
    by (simp add: accepts admits_def logged_def simulates_def)
  show "simulates (snd (take_slot s k now)) now (snd (logged limit window past k now))"
    using now a by (auto simp: simulates_def remembers logged_def)
qed

lemma run_refines:
  "simulates s t past \<Longrightarrow> sorted (t # map snd calls) \<Longrightarrow>
    answers take_slot s calls = answers (logged limit window) past calls"
proof (induction calls arbitrary: s t past)
  case (Cons c calls)
  obtain k now where c: "c = (k, now)" by (cases c)
  have "t \<le> now" and srt: "sorted (now # map snd calls)" using Cons.prems(2) by (simp_all add: c)
  note step = simulates_step [OF Cons.prems(1) this(1), of k]
  from Cons.IH [OF step(2) srt] step(1) show ?case by (simp add: c)
qed simp

lemma never_over_limit:
  assumes "simulates s t []" "sorted (t # map snd calls)" "0 \<le> window"
  shows "window_bounded limit window (accepted_calls calls (answers take_slot s calls))"
  using logged_bounded [OF assms(3) _ _ assms(2), of limit "[]"] run_refines [OF assms(1,2)]
  by (simp add: window_bounded_def)

end

section \<open>The code's limiter is one\<close>

definition recent :: "hits \<Rightarrow> string \<Rightarrow> ms \<Rightarrow> ms list" where
  "recent h key c = filter (\<lambda>t. c < t) (times_of h key)"

lemma times_of_update: "times_of (Mapping.update k v h) k' = (if k' = k then v else times_of h k')"
  by (simp add: times_of_def Mapping.lookup_update')

lemma recent_cleanup:
  "cutoff \<le> c \<Longrightarrow> recent (Mapping.filter (\<lambda>_ v. \<not> list_all (\<lambda>t. t \<le> cutoff) v) h) k c = recent h k c"
proof (cases "Mapping.lookup h k")
  case (Some v)
  have "cutoff \<le> c \<Longrightarrow> \<forall>t \<in> set v. t \<le> cutoff \<Longrightarrow> filter (\<lambda>t. c < t) v = []" by (auto simp: filter_empty_conv)
  with Some show "cutoff \<le> c \<Longrightarrow> ?thesis" by (simp add: recent_def times_of_def Mapping.lookup_filter list_all_iff)
qed (simp add: recent_def times_of_def Mapping.lookup_filter)

interpretation intake: window_limiter "consume limit windowMs" recent limit windowMs for limit windowMs
proof
  fix s k now
  show accept: "fst (consume limit windowMs s k now) \<longleftrightarrow> length (recent s k (now - windowMs)) < limit"
    by (simp add: consume_def recent_def Let_def not_le)
  fix k' c assume c: "now - windowMs \<le> c"
  then have twice: "filter (\<lambda>t. now - windowMs < t \<and> c < t) ts = filter (\<lambda>t. c < t) ts" for ts
    by (auto intro: filter_cong)
  show "recent (snd (consume limit windowMs s k now)) k' c =
      recent s k' c @ (if k' = k \<and> fst (consume limit windowMs s k now) \<and> c < now then [now] else [])"
  proof (cases "fst (consume limit windowMs s k now)")
    case True
    then have fits: "length (filter (\<lambda>t. now - windowMs < t) (times_of s k)) < limit" by (simp add: accept recent_def)
    let ?h = "Mapping.update k (filter (\<lambda>t. now - windowMs < t) (times_of s k) @ [now]) s"
    have "recent (snd (consume limit windowMs s k now)) k' c = recent ?h k' c"
      using fits recent_cleanup [OF c, of ?h k'] by (simp add: consume_def Let_def)
    with True show ?thesis by (simp add: recent_def times_of_update twice)
  next
    case False
    then have full: "limit \<le> length (filter (\<lambda>t. now - windowMs < t) (times_of s k))" by (simp add: accept recent_def)
    then have "snd (consume limit windowMs s k now) = Mapping.update k (filter (\<lambda>t. now - windowMs < t) (times_of s k)) s"
      by (simp add: consume_def Let_def)
    with False show ?thesis by (simp add: recent_def times_of_update twice)
  qed
qed

section \<open>The window holds\<close>

lemma empty_simulates: "intake.simulates windowMs Mapping.empty t []"
  by (simp add: intake.simulates_def recent_def times_of_def)

text \<open>
  C31. The limiter refines a limiter that never forgets: on a clock that does not run backwards its answer
  to every call, in any interleaving of keys and across its lazy cleanups, is that of the reference which
  keeps every accepted call and counts those of the last window.
\<close>

theorem limiter_refines_unbounded_log:
  assumes "sorted (map snd calls)"
  shows "answers (consume limit windowMs) Mapping.empty calls = answers (logged limit windowMs) [] calls"
proof (cases calls)
  case (Cons c cs)
  with assms have "sorted (snd c # map snd calls)" by simp
  from intake.run_refines [OF empty_simulates this] show ?thesis .
qed simp

text \<open>
  The limit holds in every window: of all the calls of one key, at most \<open>limit\<close> are accepted within
  any stretch of time as long as the window.
\<close>

lemma limiter_window:
  assumes "sorted (map snd calls)" "0 \<le> windowMs"
  shows "length (filter (\<lambda>x. fst x = k \<and> t - windowMs < snd x \<and> snd x \<le> t)
    (accepted_calls calls (answers (consume limit windowMs) Mapping.empty calls))) \<le> limit"
proof (cases calls)
  case (Cons c cs)
  with assms(1) have srt: "sorted (snd c # map snd calls)" by simp
  from intake.never_over_limit [OF empty_simulates srt assms(2)] show ?thesis unfolding window_bounded_def by blast
qed (simp add: accepted_calls_def)

theorem limiter_refines_unbounded_log_witness:
  "answers (consume 1 10) Mapping.empty [(''a'', 1), (''a'', 5), (''a'', 12)] = [True, False, True]"
  using limiter_refines_unbounded_log [of "[(''a'', 1), (''a'', 5), (''a'', 12)]" 1 10]
  by (simp add: logged_simps admits_def)

end
