(* ===== verification/Participants.thy ===== *)
theory Participants
  imports Faces Auth Cloud
begin

text \<open>
  \<^verbatim>\<open>repositories/participant.repository.ts\<close>, \<^verbatim>\<open>services/participant.service.ts\<close> and the organizer's
  actions of \<^verbatim>\<open>controllers/participant-admin.controller.ts\<close>: selfies become embeddings, embeddings
  become matches, and both are deleted when the event is over. The ML service and the vector index are
  those of \<open>Faces.face_env\<close>. A query without a complete order keeps the order of the table.
\<close>

section \<open>The repository\<close>

definition participant_getById :: "uuid \<Rightarrow> world \<Rightarrow> participant_row option" where
  [repo_defs]: "participant_getById i w = select_first (\<lambda>p. pt_id p = i \<and> pt_deletedAt p = None) (participants w)"

record ParticipantUpsert =
  pu_eventId :: uuid
  pu_email :: string
  pu_name :: string
  pu_phone :: "string option"
  pu_selfieKey :: string
  pu_galleryTokenHash :: string
  pu_galleryTokenEnc :: string

definition upsert_conflict :: "ParticipantUpsert \<Rightarrow> participant_row \<Rightarrow> bool" where
  "upsert_conflict dto p \<longleftrightarrow> pt_eventId p = pu_eventId dto \<and> citext_eq (pt_email p) (pu_email dto) \<and> pt_deletedAt p = None"

definition new_participant :: "uuid \<Rightarrow> ParticipantUpsert \<Rightarrow> ms \<Rightarrow> participant_row" where
  "new_participant i dto now =
    \<lparr>pt_id = i, pt_eventId = pu_eventId dto, pt_email = pu_email dto, pt_name = pu_name dto,
     pt_selfieKey = Some (pu_selfieKey dto), pt_selfieEmbedding = None, pt_phone = pu_phone dto,
     pt_galleryTokenHash = pu_galleryTokenHash dto, pt_galleryTokenEnc = Some (pu_galleryTokenEnc dto),
     pt_status = ParticipantStatus_Processing, pt_notifiedFirstAt = None, pt_lastNotifiedAt = None,
     pt_galleryOpenedAt = None, pt_awaitingResultNotice = False, pt_createdAt = now, pt_updatedAt = now,
     pt_deletedAt = None\<rparr>"

definition resubmitted :: "ParticipantUpsert \<Rightarrow> ms \<Rightarrow> participant_row \<Rightarrow> participant_row" where
  "resubmitted dto now p =
    p\<lparr>pt_name := pu_name dto, pt_phone := pu_phone dto, pt_selfieKey := Some (pu_selfieKey dto),
      pt_galleryTokenHash := pu_galleryTokenHash dto, pt_galleryTokenEnc := Some (pu_galleryTokenEnc dto),
      pt_selfieEmbedding := None, pt_status := ParticipantStatus_Processing,
      pt_awaitingResultNotice := False, pt_updatedAt := now\<rparr>"

definition participant_upsert :: "uuid \<Rightarrow> ParticipantUpsert \<Rightarrow> ms \<Rightarrow> world \<Rightarrow> participant_row \<times> world" where
  "participant_upsert newId dto now w =
    (case select_first (upsert_conflict dto) (participants w) of
       Some p \<Rightarrow> (resubmitted dto now p,
          w\<lparr>participants := update_where (\<lambda>x. pt_id x = pt_id p) (resubmitted dto now) (participants w)\<rparr>)
     | None \<Rightarrow> (new_participant newId dto now, w\<lparr>participants := participants w @ [new_participant newId dto now]\<rparr>))"

definition replaceSelfies :: "uuid \<Rightarrow> string list \<Rightarrow> (nat \<Rightarrow> uuid) \<Rightarrow> world \<Rightarrow> world" where
  [repo_defs]: "replaceSelfies i keys ids w =
     w\<lparr>participantSelfies := delete_where (\<lambda>s. sf_participantId s = i) (participantSelfies w) @
         map (\<lambda>(ordinal, key). \<lparr>sf_id = ids ordinal, sf_participantId = i, sf_ordinal = ordinal,
             sf_storageKey = key, sf_embedding = None\<rparr>) (List.enumerate 0 keys)\<rparr>"

definition getSelfies :: "uuid \<Rightarrow> world \<Rightarrow> selfie_row list" where
  [repo_defs]: "getSelfies i w = sort_key sf_ordinal (filter (\<lambda>s. sf_participantId s = i) (participantSelfies w))"

definition setSelfieEmbedding :: "uuid \<Rightarrow> string option \<Rightarrow> world \<Rightarrow> world" where
  [repo_defs]: "setSelfieEmbedding i emb w =
     w\<lparr>participantSelfies := update_where (\<lambda>s. sf_id s = i) (\<lambda>s. s\<lparr>sf_embedding := emb\<rparr>) (participantSelfies w)\<rparr>"

text \<open>The update carries the columns of the caller's \<^verbatim>\<open>dto\<close> as a function on the row.\<close>

definition participant_update :: "uuid \<Rightarrow> (participant_row \<Rightarrow> participant_row) \<Rightarrow> ms \<Rightarrow> world \<Rightarrow> world" where
  [repo_defs]: "participant_update i f now w =
     w\<lparr>participants := update_where (\<lambda>p. pt_id p = i) (\<lambda>p. (f p)\<lparr>pt_updatedAt := now\<rparr>) (participants w)\<rparr>"

definition getMatchableByEvent :: "uuid \<Rightarrow> world \<Rightarrow> participant_row list" where
  [repo_defs]: "getMatchableByEvent ev w =
     filter (\<lambda>p. pt_eventId p = ev \<and> pt_selfieEmbedding p \<noteq> None \<and> pt_deletedAt p = None) (participants w)"

definition getPendingForSweep :: "world \<Rightarrow> participant_row list" where
  [repo_defs]: "getPendingForSweep w =
     concat (map (\<lambda>p. map (\<lambda>_. p) (filter (\<lambda>e. e_id e = pt_eventId p \<and> e_status e = EventStatus_Active
         \<and> e_deletedAt e = None) (events w)))
       (filter (\<lambda>p. pt_status p = ParticipantStatus_PendingMatch \<and> pt_selfieEmbedding p \<noteq> None
         \<and> pt_deletedAt p = None) (participants w)))"

text \<open>\<^verbatim>\<open>ON CONFLICT (participant_id, asset_id) DO NOTHING\<close>, which also covers the rows of the same insert.\<close>

definition same_match :: "match_row \<Rightarrow> match_row \<Rightarrow> bool" where
  "same_match m n \<longleftrightarrow> m_participantId m = m_participantId n \<and> m_assetId m = m_assetId n"

fun insert_matches :: "match_row list \<Rightarrow> match_row list \<Rightarrow> nat \<times> match_row list" where
  "insert_matches [] ms = (0, ms)"
| "insert_matches (n # ns) ms =
    (if \<exists>m \<in> set ms. same_match m n then insert_matches ns ms
     else (case insert_matches ns (ms @ [n]) of (k, ms') \<Rightarrow> (k + 1, ms')))"

definition insertMatches :: "match_row list \<Rightarrow> world \<Rightarrow> nat \<times> world" where
  [repo_defs]: "insertMatches ns w =
     (case insert_matches ns (participantMatches w) of (k, ms) \<Rightarrow> (k, w\<lparr>participantMatches := ms\<rparr>))"

definition countMatches :: "uuid \<Rightarrow> ms option \<Rightarrow> world \<Rightarrow> nat" where
  [repo_defs]: "countMatches i since w =
     length (filter (\<lambda>m. m_participantId m = i \<and> (case since of None \<Rightarrow> True | Some t \<Rightarrow> t < m_createdAt m))
       (participantMatches w))"

definition isMatchedAsset :: "uuid \<Rightarrow> uuid \<Rightarrow> world \<Rightarrow> bool" where
  [repo_defs]: "isMatchedAsset i a w \<longleftrightarrow> (\<exists>m \<in> set (participantMatches w). m_participantId m = i \<and> m_assetId m = a)"

text \<open>Newest capture first; a photo without a capture date sorts before all others.\<close>

definition by_capture :: "asset_row list \<Rightarrow> asset_row list" where
  "by_capture as = filter (\<lambda>a. a_capturedAt a = None) as
     @ sort_key (\<lambda>a. - the (a_capturedAt a)) (filter (\<lambda>a. a_capturedAt a \<noteq> None) as)"

definition file_key :: "AssetFileType \<Rightarrow> uuid \<Rightarrow> world \<Rightarrow> string option" where
  "file_key t a w = map_option af_storageKey (select_first (\<lambda>f. af_assetId f = a \<and> af_type f = t) (assetFiles w))"

record MatchedAsset =
  ma_asset :: asset_row
  ma_previewKey :: "string option"
  ma_thumbKey :: "string option"

definition getMatchedAssets :: "uuid \<Rightarrow> world \<Rightarrow> MatchedAsset list" where
  "getMatchedAssets i w =
    map (\<lambda>a. \<lparr>ma_asset = a, ma_previewKey = file_key AssetFileType_Preview (a_id a) w,
              ma_thumbKey = file_key AssetFileType_Thumbnail (a_id a) w\<rparr>)
      (by_capture (concat (map (\<lambda>m. filter (\<lambda>a. a_id a = m_assetId m \<and> a_deletedAt a = None) (assets w))
        (filter (\<lambda>m. m_participantId m = i) (participantMatches w)))))"

record ParticipantListItem =
  pl_participant :: participant_row
  pl_matchCount :: nat
  pl_lastEmail :: "emaillog_row option"

definition participant_listByEvent :: "uuid \<Rightarrow> world \<Rightarrow> ParticipantListItem list" where
  "participant_listByEvent ev w =
    map (\<lambda>p. \<lparr>pl_participant = p, pl_matchCount = countMatches (pt_id p) None w,
              pl_lastEmail = (case sort_key (\<lambda>l. - el_createdAt l)
                  (filter (\<lambda>l. el_participantId l = Some (pt_id p)) (emailLogs w)) of [] \<Rightarrow> None | l # _ \<Rightarrow> Some l)\<rparr>)
      (sort_key (\<lambda>p. - pt_createdAt p) (filter (\<lambda>p. pt_eventId p = ev \<and> pt_deletedAt p = None) (participants w)))"

definition ended_before :: "ms \<Rightarrow> uuid \<Rightarrow> world \<Rightarrow> bool" where
  "ended_before cutoff ev w \<longleftrightarrow>
    (\<exists>e \<in> set (events w). e_id e = ev \<and> (case e_endsAt e of None \<Rightarrow> False | Some t \<Rightarrow> t < cutoff))"

definition getExpiredSelfies :: "nat \<Rightarrow> ms \<Rightarrow> world \<Rightarrow> participant_row list" where
  [repo_defs]: "getExpiredSelfies days now w =
     filter (\<lambda>p. ended_before (now - int days * 24 * 60 * 60 * 1000) (pt_eventId p) w
       \<and> pt_deletedAt p = None \<and> pt_selfieKey p \<noteq> None) (participants w)"

definition listSelfieKeys :: "uuid list \<Rightarrow> world \<Rightarrow> string list" where
  [repo_defs]: "listSelfieKeys ids w = map sf_storageKey (filter (\<lambda>s. sf_participantId s \<in> set ids) (participantSelfies w))"

definition softDeleteAndScrub :: "uuid \<Rightarrow> ms \<Rightarrow> world \<Rightarrow> world" where
  [repo_defs]: "softDeleteAndScrub i now w =
     w\<lparr>participantSelfies := delete_where (\<lambda>s. sf_participantId s = i) (participantSelfies w),
       participants := update_where (\<lambda>p. pt_id p = i)
         (\<lambda>p. p\<lparr>pt_selfieEmbedding := None, pt_selfieKey := None, pt_deletedAt := Some now, pt_updatedAt := now\<rparr>)
         (participants w)\<rparr>"

definition participant_hardDelete :: "uuid \<Rightarrow> world \<Rightarrow> world" where
  "participant_hardDelete i w =
    participant_cascade [i] (w\<lparr>emailLogs := delete_where (\<lambda>l. el_participantId l = Some i) (emailLogs w)\<rparr>)"

section \<open>Gallery tokens\<close>

record GeneratedToken =
  gt_raw :: string
  gt_hash :: string
  gt_enc :: string

definition generate :: "crypto \<Rightarrow> 'p cipher \<Rightarrow> string \<Rightarrow> GeneratedToken" where
  "generate cr c raw = \<lparr>gt_raw = raw, gt_hash = cr_sha256 cr raw, gt_enc = aes_encrypt c raw\<rparr>"

text \<open>\<^verbatim>\<open>null\<close> without a stored token; a failed decryption throws.\<close>

definition decrypt_token :: "'p cipher \<Rightarrow> participant_row \<Rightarrow> string option outcome" where
  "decrypt_token c p =
    (case pt_galleryTokenEnc p of
       None \<Rightarrow> Inr None
     | Some enc \<Rightarrow> (case aes_decrypt c enc of None \<Rightarrow> Inl (ServerError ''decrypt'') | Some raw \<Rightarrow> Inr (Some raw)))"

definition galleryUrl :: "string \<Rightarrow> string \<Rightarrow> string" where
  "galleryUrl publicBaseUrl raw = strip_slash publicBaseUrl @ ''/g/'' @ raw"

definition eventUrl :: "string \<Rightarrow> string \<Rightarrow> string" where
  "eventUrl publicBaseUrl slug = strip_slash publicBaseUrl @ ''/e/'' @ slug"

section \<open>The service\<close>

definition MATCH_NUM_RESULTS :: nat where
  "MATCH_NUM_RESULTS = 200"

definition SELFIE_RETENTION_DAYS :: nat where
  "SELFIE_RETENTION_DAYS = 30"

definition participant_getConfig :: "uuid \<Rightarrow> world \<Rightarrow> FacialRecognitionConfig" where
  "participant_getConfig ev w =
    (let config = getFacialRecognitionConfig w
     in case event_getById ev w of
          None \<Rightarrow> config
        | Some e \<Rightarrow>
           config\<lparr>fr_minScore := or_default (ec_minScore (e_config e)) (fr_minScore config),
                  fr_maxDistance := or_default (ec_matchMaxDistance (e_config e)) (fr_maxDistance config)\<rparr>)"

text \<open>A nullable text that is neither \<^verbatim>\<open>null\<close> nor empty.\<close>

definition present :: "string option \<Rightarrow> bool" where
  "present x \<longleftrightarrow> x \<noteq> None \<and> x \<noteq> Some ''''"

subsection \<open>Matching\<close>

text \<open>The \<^verbatim>\<open>Map\<close> \<^verbatim>\<open>best\<close> in insertion order: face, asset, distance.\<close>

type_synonym best_hits = "(uuid \<times> uuid \<times> real) list"

fun keep_best :: "FaceSearchResult \<Rightarrow> best_hits \<Rightarrow> best_hits" where
  "keep_best hit [] = [(sr_id hit, sr_assetId hit, sr_distance hit)]"
| "keep_best hit ((f, a, d) # best) =
    (if f = sr_id hit
     then (if sr_distance hit < d then (f, sr_assetId hit, sr_distance hit) else (f, a, d)) # best
     else (f, a, d) # keep_best hit best)"

fun best_of :: "vector_index \<Rightarrow> uuid \<Rightarrow> real \<Rightarrow> string list \<Rightarrow> best_hits \<Rightarrow> world \<Rightarrow> best_hits outcome" where
  "best_of ix ev maxDistance [] best w = Inr best"
| "best_of ix ev maxDistance (emb # embs) best w =
    (case searchFacesByEmbedding ix ev emb MATCH_NUM_RESULTS maxDistance w of
       Inl e \<Rightarrow> Inl e
     | Inr hits \<Rightarrow> best_of ix ev maxDistance embs (fold keep_best hits best) w)"

definition match_embeddings :: "participant_row \<Rightarrow> world \<Rightarrow> string list" where
  "match_embeddings p w =
    (let embs = somes (map sf_embedding (getSelfies (pt_id p) w))
     in if embs = [] then [the (pt_selfieEmbedding p)] else embs)"

definition match_of :: "uuid \<Rightarrow> ms \<Rightarrow> uuid \<times> uuid \<times> real \<Rightarrow> match_row" where
  "match_of i now = (\<lambda>(f, a, d). \<lparr>m_participantId = i, m_assetId = a, m_viaFaceId = Some f, m_distance = d, m_createdAt = now\<rparr>)"

definition name_clusters :: "uuid \<Rightarrow> uuid list \<Rightarrow> ms \<Rightarrow> world \<Rightarrow> world" where
  "name_clusters ev ids now w = fold (\<lambda>i v. snd (nameFromParticipants ev i now v)) ids w"

definition nameMatchedPerson :: "face_env \<Rightarrow> participant_row \<Rightarrow> uuid list \<Rightarrow> ms \<Rightarrow> world \<Rightarrow> world" where
  "nameMatchedPerson env p faceIds now w =
    (if pt_name p = '''' \<or> faceIds = [] \<or> \<not> fe_naming_ok env then w
     else name_clusters (pt_eventId p) (map fst (getPersonsForFaces faceIds w)) now w)"

definition matchParticipant :: "face_env \<Rightarrow> participant_row \<Rightarrow> ms \<Rightarrow> world \<Rightarrow> nat outcome \<times> world" where
  "matchParticipant env p now w =
    (if \<not> present (pt_selfieEmbedding p) then (Inr 0, w)
     else
    (case best_of (fe_index env) (pt_eventId p) (fr_maxDistance (participant_getConfig (pt_eventId p) w))
            (match_embeddings p w) [] w of
       Inl e \<Rightarrow> (Inl e, w)
     | Inr best \<Rightarrow>
        let (inserted, w1) = insertMatches (map (match_of (pt_id p) now) best) w;
            w2 = nameMatchedPerson env p (map fst best) now w1;
            total_matches = countMatches (pt_id p) None w2;
            status = (if total_matches > 0 then ParticipantStatus_Matched else ParticipantStatus_PendingMatch)
        in (Inr inserted, participant_update (pt_id p) (\<lambda>r. r\<lparr>pt_status := status\<rparr>) now w2)))"

subsection \<open>The jobs\<close>

definition face_area :: "Face \<Rightarrow> real" where
  "face_area f = (bb_x2 (fc_boundingBox f) - bb_x1 (fc_boundingBox f)) * (bb_y2 (fc_boundingBox f) - bb_y1 (fc_boundingBox f))"

definition largest :: "Face list \<Rightarrow> Face" where
  "largest fs = foldl (\<lambda>a b. if face_area b > face_area a then b else a) (hd fs) (tl fs)"

fun embed_selfies :: "face_env \<Rightarrow> FacialRecognitionConfig \<Rightarrow> uuid \<Rightarrow> ms \<Rightarrow> selfie_row list \<Rightarrow> nat \<Rightarrow> world \<Rightarrow> nat outcome \<times> world" where
  "embed_selfies env config i now [] embedded w = (Inr embedded, w)"
| "embed_selfies env config i now (s # ss) embedded w =
    (case fe_detect env (sf_storageKey s) (fr_modelName config) (fr_minScore config) of
       Inl e \<Rightarrow> (Inl e, w)
     | Inr d \<Rightarrow>
        if df_faces d = [] then embed_selfies env config i now ss embedded (setSelfieEmbedding (sf_id s) None w)
        else let emb = Some (fc_embedding (largest (df_faces d)));
                 w1 = setSelfieEmbedding (sf_id s) emb w;
                 w2 = (if embedded = 0 then participant_update i (\<lambda>p. p\<lparr>pt_selfieEmbedding := emb\<rparr>) now w1 else w1)
             in embed_selfies env config i now ss (embedded + 1) w2)"

definition handleSelfieProcess :: "face_env \<Rightarrow> uuid \<Rightarrow> ms \<Rightarrow> world \<Rightarrow> JobStatus outcome \<times> world" where
  "handleSelfieProcess env i now w =
    (case participant_getById i w of
       None \<Rightarrow> (Inr JobStatus_Skipped, w)
     | Some p \<Rightarrow>
        if \<not> present (pt_selfieKey p) then (Inr JobStatus_Skipped, w)
        else
    (case embed_selfies env (participant_getConfig (pt_eventId p) w) i now (getSelfies i w) 0 w of
       (Inl e, w1) \<Rightarrow> (Inl e, w1)
     | (Inr embedded, w1) \<Rightarrow>
        if embedded = 0
        then (Inr JobStatus_Success, queue (SendNoFaceEmail i)
                (participant_update i (\<lambda>r. r\<lparr>pt_status := ParticipantStatus_NoFace\<rparr>) now w1))
        else
    (case participant_getById i w1 of
       None \<Rightarrow> (Inl (ServerError ''Cannot read properties of undefined''), w1)
     | Some updated \<Rightarrow>
    (case matchParticipant env updated now w1 of
       (Inl e, w2) \<Rightarrow> (Inl e, w2)
     | (Inr newMatches, w2) \<Rightarrow>
        (Inr JobStatus_Success, if newMatches > 0 then queue (SendGalleryEmail i) w2 else w2)))))"

text \<open>The loop of the re-match and of the sweep, over the rows as they were read.\<close>

fun match_each :: "face_env \<Rightarrow> participant_row list \<Rightarrow> ms \<Rightarrow> world \<Rightarrow> unit outcome \<times> world" where
  "match_each env [] now w = (Inr (), w)"
| "match_each env (p # ps) now w =
    (case matchParticipant env p now w of
       (Inl e, w1) \<Rightarrow> (Inl e, w1)
     | (Inr newMatches, w1) \<Rightarrow>
        match_each env ps now
          (if newMatches > 0
           then queue (if pt_notifiedFirstAt p \<noteq> None then SendDigest (pt_id p) else SendGalleryEmail (pt_id p)) w1
           else w1))"

definition job_result :: "unit outcome \<times> world \<Rightarrow> JobStatus outcome \<times> world" where
  "job_result r = (case r of (Inl e, w) \<Rightarrow> (Inl e, w) | (Inr _, w) \<Rightarrow> (Inr JobStatus_Success, w))"

definition handleParticipantRematch :: "face_env \<Rightarrow> uuid \<Rightarrow> ms \<Rightarrow> world \<Rightarrow> JobStatus outcome \<times> world" where
  "handleParticipantRematch env ev now w =
    (let ps = getMatchableByEvent ev w
     in if ps = [] then (Inr JobStatus_Skipped, w) else job_result (match_each env ps now w))"

definition handleParticipantMatchSweep :: "face_env \<Rightarrow> ms \<Rightarrow> world \<Rightarrow> JobStatus outcome \<times> world" where
  "handleParticipantMatchSweep env now w = job_result (match_each env (getPendingForSweep w) now w)"

definition handleSelfieRetentionSweep :: "ms \<Rightarrow> world \<Rightarrow> JobStatus \<times> world" where
  "handleSelfieRetentionSweep now w =
    (let expired = getExpiredSelfies SELFIE_RETENTION_DAYS now w
     in if expired = [] then (JobStatus_Success, w)
        else let extraKeys = listSelfieKeys (map pt_id expired) w;
                 keys = filter (\<lambda>k. k \<noteq> '''') (unique (map (\<lambda>p. the (pt_selfieKey p)) expired @ extraKeys));
                 w1 = (if keys \<noteq> [] then queue (CleanupKeys keys) w else w)
             in (JobStatus_Success, fold (\<lambda>p. softDeleteAndScrub (pt_id p) now) expired w1))"

section \<open>The organizer's actions\<close>

definition getScoped :: "uuid \<Rightarrow> uuid \<Rightarrow> world \<Rightarrow> participant_row outcome" where
  "getScoped ev i w =
    (case participant_getById i w of
       Some p \<Rightarrow> if pt_eventId p = ev then Inr p else Inl (NotFound ''Participant not found'')
     | None \<Rightarrow> Inl (NotFound ''Participant not found''))"

definition resend :: "GeneratedToken \<Rightarrow> uuid \<Rightarrow> uuid \<Rightarrow> ms \<Rightarrow> world \<Rightarrow> unit outcome \<times> world" where
  "resend token ev i now w =
    (case getScoped ev i w of
       Inl e \<Rightarrow> (Inl e, w)
     | Inr p \<Rightarrow> (Inr (), queue (SendGalleryEmail (pt_id p))
         (participant_update (pt_id p) (\<lambda>r. r\<lparr>pt_galleryTokenHash := gt_hash token, pt_galleryTokenEnc := Some (gt_enc token)\<rparr>) now w)))"

definition participant_remove :: "uuid \<Rightarrow> uuid \<Rightarrow> world \<Rightarrow> unit outcome \<times> world" where
  "participant_remove ev i w =
    (case getScoped ev i w of
       Inl e \<Rightarrow> (Inl e, w)
     | Inr p \<Rightarrow>
        (Inr (), participant_hardDelete (pt_id p)
           (if present (pt_selfieKey p) then queue (CleanupKeys [the (pt_selfieKey p)]) w else w)))"

end
