(* ===== verification/ParticipantPolicy.thy ===== *)
theory ParticipantPolicy
  imports Participants FacePolicy Upload
begin

text \<open>
  What matching promises: a guest gets exactly the photos of their own event on which one of their
  selfies was recognised, a re-match adds nothing the second time, matches are never taken back, and
  selfies disappear thirty days after the event.
\<close>

section \<open>The hits of a participant\<close>

definition participant_hits :: "face_env \<Rightarrow> participant_row \<Rightarrow> world \<Rightarrow> FaceSearchResult list" where
  "participant_hits env p w =
    concat (map (\<lambda>emb. filter (\<lambda>r. sr_distance r \<le> fr_maxDistance (participant_getConfig (pt_eventId p) w))
        (take MATCH_NUM_RESULTS (sort_key sr_distance (search_rows (fe_index env) (pt_eventId p) emb False w))))
      (match_embeddings p w))"

lemma best_of_hits:
  "best_of ix ev maxDistance embs best w =
    Inr (fold keep_best (concat (map (\<lambda>emb. filter (\<lambda>r. sr_distance r \<le> maxDistance)
      (take MATCH_NUM_RESULTS (sort_key sr_distance (search_rows ix ev emb False w)))) embs)) best)"
  by (induction embs arbitrary: best)
    (simp_all add: searchFacesByEmbedding_def searchFaces_def MATCH_NUM_RESULTS_def)

lemma hit_in_event:
  assumes "h \<in> set (participant_hits env p w)"
  obtains f where "f \<in> set (assetFaces w)" "in_event (pt_eventId p) w f" "sr_id h = f_id f" "sr_assetId h = f_assetId f"
  using assms by (auto simp: participant_hits_def search_rows_def dest!: in_set_takeD)

subsection \<open>The best distance per face\<close>

lemma fst_keep_best: "fst ` set (keep_best h best) = insert (sr_id h) (fst ` set best)"
  by (induction h best rule: keep_best.induct) auto

lemma distinct_keep_best: "distinct (map fst best) \<Longrightarrow> distinct (map fst (keep_best h best))"
proof (induction h best rule: keep_best.induct)
  case (2 h f a d best)
  then show ?case using fst_keep_best [of h best] by auto
qed simp

lemma keep_best_sound:
  "x \<in> set (keep_best h best) \<Longrightarrow> x \<in> set best \<or> x = (sr_id h, sr_assetId h, sr_distance h)"
  by (induction h best rule: keep_best.induct) (auto split: if_splits)

text \<open>Some entry of the face is at least as close.\<close>

definition covers :: "best_hits \<Rightarrow> uuid \<Rightarrow> real \<Rightarrow> bool" where
  "covers best f d \<longleftrightarrow> (\<exists>x \<in> set best. fst x = f \<and> snd (snd x) \<le> d)"

lemma covers_simps [simp]:
  "covers [] f d = False" "covers (x # best) f d \<longleftrightarrow> fst x = f \<and> snd (snd x) \<le> d \<or> covers best f d"
  by (auto simp: covers_def)

lemma covers_keep_best:
  "covers best f d \<Longrightarrow> covers (keep_best h best) f d" "covers (keep_best h best) (sr_id h) (sr_distance h)"
  by (induction h best rule: keep_best.induct) (auto split: if_splits)

lemma covers_fold: "covers best f d \<Longrightarrow> covers (fold keep_best hits best) f d"
  by (induction hits arbitrary: best) (simp_all add: covers_keep_best)

lemma fold_keep_best:
  "distinct (map fst best) \<Longrightarrow> distinct (map fst (fold keep_best hits best))"
  "x \<in> set (fold keep_best hits best) \<Longrightarrow> x \<in> set best \<or> (\<exists>h \<in> set hits. x = (sr_id h, sr_assetId h, sr_distance h))"
  "h \<in> set hits \<Longrightarrow> covers (fold keep_best hits best) (sr_id h) (sr_distance h)"
proof (induction hits arbitrary: best)
  case (Cons k hits)
  { case 1 then show ?case using Cons.IH(1) distinct_keep_best by simp }
  { case 2 then show ?case using Cons.IH(2) keep_best_sound by fastforce }
  { case 3 then show ?case using Cons.IH(3) covers_fold covers_keep_best(2) by auto }
qed auto

subsection \<open>The insert\<close>

lemma insert_matches_keeps: "set ms \<subseteq> set (snd (insert_matches ns ms))"
  by (induction ns ms rule: insert_matches.induct) (auto split: prod.splits)

lemma insert_matches_sound: "m \<in> set (snd (insert_matches ns ms)) \<Longrightarrow> m \<in> set ms \<or> m \<in> set ns"
  by (induction ns ms rule: insert_matches.induct) (auto split: prod.splits if_splits)

lemma insert_matches_covers: "n \<in> set ns \<Longrightarrow> \<exists>m \<in> set (snd (insert_matches ns ms)). same_match m n"
proof (induction ns ms rule: insert_matches.induct)
  case (2 n' ns ms)
  have kept: "m \<in> set (snd (insert_matches ns ms'))" if "m \<in> set ms'" for m ms' using insert_matches_keeps that by blast
  show ?case
  proof (cases "\<exists>m \<in> set ms. same_match m n'")
    case True
    then show ?thesis using 2 kept by auto
  next
    case False
    then have "snd (insert_matches (n' # ns) ms) = snd (insert_matches ns (ms @ [n']))" by (simp add: split_beta)
    then show ?thesis using 2(2) [OF False] 2(3) kept [of n' "ms @ [n']"] by (auto simp: same_match_def)
  qed
qed simp

lemma insert_matches_none:
  "(\<And>n. n \<in> set ns \<Longrightarrow> \<exists>m \<in> set ms. same_match m n) \<Longrightarrow> insert_matches ns ms = (0, ms)"
  by (induction ns) auto

lemma insert_matches_length:
  "length (snd (insert_matches ns ms)) = length ms + fst (insert_matches ns ms)"
  by (induction ns ms rule: insert_matches.induct) (auto split: prod.splits)

section \<open>One match run\<close>

lemma nameFromParticipants_frame: "\<exists>ps. snd (nameFromParticipants ev i now w) = w\<lparr>persons := ps\<rparr>"
  by (auto simp: nameFromParticipants_def Let_def split: option.splits intro: exI [of _ "persons w"])

lemma name_clusters_frame: "\<exists>ps. name_clusters ev ids now w = w\<lparr>persons := ps\<rparr>"
proof (induction ids arbitrary: w)
  case Nil
  show ?case by (rule exI [of _ "persons w"]) (simp add: name_clusters_def)
next
  case (Cons i ids)
  obtain ps where "snd (nameFromParticipants ev i now w) = w\<lparr>persons := ps\<rparr>" using nameFromParticipants_frame by blast
  with Cons.IH [of "w\<lparr>persons := ps\<rparr>"] show ?case by (auto simp: name_clusters_def)
qed

lemma nameMatchedPerson_frame: "\<exists>ps. nameMatchedPerson env p fs now w = w\<lparr>persons := ps\<rparr>"
  using name_clusters_frame by (auto simp: nameMatchedPerson_def intro: exI [of _ "persons w"])

definition new_matches :: "face_env \<Rightarrow> participant_row \<Rightarrow> ms \<Rightarrow> world \<Rightarrow> match_row list" where
  "new_matches env p now w = map (match_of (pt_id p) now) (fold keep_best (participant_hits env p w) [])"

definition status_of :: "uuid \<Rightarrow> match_row list \<Rightarrow> ParticipantStatus" where
  "status_of i ms = (if \<exists>m \<in> set ms. m_participantId m = i then ParticipantStatus_Matched else ParticipantStatus_PendingMatch)"

lemma matchParticipant_run:
  assumes "present (pt_selfieEmbedding p)"
  obtains ps where "matchParticipant env p now w =
    (Inr (fst (insert_matches (new_matches env p now w) (participantMatches w))),
     w\<lparr>participantMatches := snd (insert_matches (new_matches env p now w) (participantMatches w)), persons := ps,
       participants := update_where (\<lambda>r. pt_id r = pt_id p)
         (\<lambda>r. r\<lparr>pt_status := status_of (pt_id p) (snd (insert_matches (new_matches env p now w) (participantMatches w))),
                pt_updatedAt := now\<rparr>) (participants w)\<rparr>)"
proof -
  let ?ms = "insert_matches (new_matches env p now w) (participantMatches w)"
  let ?w1 = "w\<lparr>participantMatches := snd ?ms\<rparr>"
  obtain ps where ps: "nameMatchedPerson env p (map fst (fold keep_best (participant_hits env p w) [])) now ?w1 = ?w1\<lparr>persons := ps\<rparr>"
    using nameMatchedPerson_frame by blast
  have "countMatches (pt_id p) None (?w1\<lparr>persons := ps\<rparr>) > 0 \<longleftrightarrow> (\<exists>m \<in> set (snd ?ms). m_participantId m = pt_id p)"
    by (auto simp: countMatches_def filter_empty_conv)
  then have "matchParticipant env p now w = (Inr (fst ?ms), ?w1\<lparr>persons := ps,
      participants := update_where (\<lambda>r. pt_id r = pt_id p) (\<lambda>r. r\<lparr>pt_status := status_of (pt_id p) (snd ?ms), pt_updatedAt := now\<rparr>) (participants w)\<rparr>)"
    using assms ps unfolding new_matches_def participant_hits_def
    by (simp add: matchParticipant_def best_of_hits insertMatches_def split_beta Let_def participant_update_def status_of_def)
  then show thesis by (rule that)
qed

lemma new_matches_sound:
  "n \<in> set (new_matches env p now w) \<Longrightarrow>
    m_participantId n = pt_id p \<and> (\<exists>h \<in> set (participant_hits env p w). m_assetId n = sr_assetId h
      \<and> m_viaFaceId n = Some (sr_id h) \<and> m_distance n = sr_distance h)"
  using fold_keep_best(2) [of _ "participant_hits env p w" "[]"]
  by (fastforce simp: new_matches_def match_of_def)

text \<open>Face ids are the key of the face table, so the hits of one face are on one asset.\<close>

lemma hit_asset_unique:
  assumes "distinct (map f_id (assetFaces w))" "h \<in> set (participant_hits env p w)" "k \<in> set (participant_hits env p w)"
    "sr_id h = sr_id k"
  shows "sr_assetId h = sr_assetId k"
proof -
  obtain f where f: "f \<in> set (assetFaces w)" "sr_id h = f_id f" "sr_assetId h = f_assetId f" using assms(2) by (rule hit_in_event)
  obtain g where g: "g \<in> set (assetFaces w)" "sr_id k = f_id g" "sr_assetId k = f_assetId g" using assms(3) by (rule hit_in_event)
  have "f = g" using assms(1,4) f(1,2) g(1,2) by (simp add: distinct_map inj_on_def)
  with f(3) g(3) show ?thesis by simp
qed

lemma new_matches_assets:
  assumes "distinct (map f_id (assetFaces w))"
  shows "m_assetId ` set (new_matches env p now w) = sr_assetId ` set (participant_hits env p w)"
proof (intro equalityI image_subsetI)
  fix n assume "n \<in> set (new_matches env p now w)"
  then show "m_assetId n \<in> sr_assetId ` set (participant_hits env p w)" using new_matches_sound by blast
next
  fix h assume h: "h \<in> set (participant_hits env p w)"
  let ?best = "fold keep_best (participant_hits env p w) []"
  from fold_keep_best(3) [OF h, of "[]"] obtain x where x: "x \<in> set ?best" "fst x = sr_id h"
    by (auto simp: covers_def)
  from fold_keep_best(2) [OF x(1)] obtain k where k: "k \<in> set (participant_hits env p w)" "x = (sr_id k, sr_assetId k, sr_distance k)"
    by auto
  then have "sr_assetId h = sr_assetId k" using hit_asset_unique [OF assms h k(1)] x(2) by simp
  then have "m_assetId (match_of (pt_id p) now x) = sr_assetId h" using k(2) by (simp add: match_of_def)
  moreover have "match_of (pt_id p) now x \<in> set (new_matches env p now w)" using x(1) by (simp add: new_matches_def)
  ultimately show "sr_assetId h \<in> m_assetId ` set (new_matches env p now w)" by (metis imageI)
qed

definition matched_assets :: "uuid \<Rightarrow> match_row list \<Rightarrow> uuid set" where
  "matched_assets i ms = m_assetId ` {m \<in> set ms. m_participantId m = i}"

lemma matched_assets_iff: "a \<in> matched_assets i ms \<longleftrightarrow> (\<exists>m \<in> set ms. m_participantId m = i \<and> m_assetId m = a)"
  by (auto simp: matched_assets_def)

lemma matched_assets_insert:
  assumes "\<And>n. n \<in> set ns \<Longrightarrow> m_participantId n = i"
  shows "matched_assets j (snd (insert_matches ns ms)) = matched_assets j ms \<union> (if j = i then m_assetId ` set ns else {})"
proof (intro equalityI subsetI)
  fix a assume "a \<in> matched_assets j (snd (insert_matches ns ms))"
  then obtain m where "m \<in> set (snd (insert_matches ns ms))" "m_participantId m = j" "a = m_assetId m"
    by (auto simp: matched_assets_def)
  then show "a \<in> matched_assets j ms \<union> (if j = i then m_assetId ` set ns else {})"
    using insert_matches_sound [of m ns ms] assms by (auto simp: matched_assets_def)
next
  fix a assume "a \<in> matched_assets j ms \<union> (if j = i then m_assetId ` set ns else {})"
  then consider "a \<in> matched_assets j ms" | n where "j = i" "n \<in> set ns" "a = m_assetId n" by (auto split: if_splits)
  then show "a \<in> matched_assets j (snd (insert_matches ns ms))"
  proof cases
    case 1 then show ?thesis using insert_matches_keeps [of ms ns] by (auto simp: matched_assets_def)
  next
    case 2
    then obtain m where "m \<in> set (snd (insert_matches ns ms))" "same_match m n" using insert_matches_covers by blast
    with 2 assms show ?thesis by (auto simp: matched_assets_iff same_match_def)
  qed
qed

lemma insert_matches_count:
  assumes "\<And>n. n \<in> set ns \<Longrightarrow> m_participantId n = i"
  shows "fst (insert_matches ns ms) = card (m_assetId ` set ns - matched_assets i ms)"
  using assms
proof (induction ns ms rule: insert_matches.induct)
  case (2 n ns ms)
  have i: "m_participantId n = i" and rest: "\<And>n. n \<in> set ns \<Longrightarrow> m_participantId n = i" using 2(3) by simp_all
  have known: "(\<exists>m \<in> set ms. same_match m n) \<longleftrightarrow> m_assetId n \<in> matched_assets i ms"
    using i by (auto simp: same_match_def matched_assets_iff)
  have grown: "matched_assets i (ms @ [n]) = insert (m_assetId n) (matched_assets i ms)"
    using i by (auto simp: matched_assets_def)
  show ?case
  proof (cases "m_assetId n \<in> matched_assets i ms")
    case True
    then show ?thesis using 2(1) [OF _ rest] known by (simp add: insert_Diff_if)
  next
    case False
    let ?A = "m_assetId ` set ns - insert (m_assetId n) (matched_assets i ms)"
    have "m_assetId ` set (n # ns) - matched_assets i ms = insert (m_assetId n) ?A" using False by auto
    moreover have "m_assetId n \<notin> ?A" "finite ?A" by auto
    ultimately have "card (m_assetId ` set (n # ns) - matched_assets i ms) = card ?A + 1" by simp
    then show ?thesis using 2(2) [OF _ rest] False known grown by (simp add: split_beta)
  qed
qed simp

section \<open>A guest gets every photo one of the selfies is recognised on\<close>

lemma closest_face:
  assumes "n \<in> set (new_matches env p now w)" "h \<in> set (participant_hits env p w)" "m_viaFaceId n = Some (sr_id h)"
  shows "m_distance n \<le> sr_distance h"
proof -
  let ?best = "fold keep_best (participant_hits env p w) []"
  obtain x where x: "x \<in> set ?best" "n = match_of (pt_id p) now x" using assms(1) by (auto simp: new_matches_def)
  obtain y where y: "y \<in> set ?best" "fst y = sr_id h" "snd (snd y) \<le> sr_distance h"
    using fold_keep_best(3) [OF assms(2), of "[]"] by (auto simp: covers_def)
  have "fst x = fst y" using assms(3) x(2) y(2) by (simp add: match_of_def split: prod.splits)
  then have "x = y" using fold_keep_best(1) [of "[]" "participant_hits env p w"] x(1) y(1) by (auto simp: distinct_map inj_on_def)
  with x(2) y(3) show ?thesis by (simp add: match_of_def split: prod.splits)
qed

lemma matchParticipant_matches:
  assumes "present (pt_selfieEmbedding p)"
  shows "fst (matchParticipant env p now w) = Inr (fst (insert_matches (new_matches env p now w) (participantMatches w)))"
    and "participantMatches (snd (matchParticipant env p now w)) = snd (insert_matches (new_matches env p now w) (participantMatches w))"
  using assms by (rule matchParticipant_run [of p env now w], simp)+

lemma matchParticipant_assets:
  assumes "distinct (map f_id (assetFaces w))" "present (pt_selfieEmbedding p)"
  shows "matched_assets j (participantMatches (snd (matchParticipant env p now w))) = matched_assets j (participantMatches w)
    \<union> (if j = pt_id p then sr_assetId ` set (participant_hits env p w) else {})"
proof -
  have "matched_assets j (snd (insert_matches (new_matches env p now w) (participantMatches w))) =
      matched_assets j (participantMatches w) \<union> (if j = pt_id p then m_assetId ` set (new_matches env p now w) else {})"
    by (rule matched_assets_insert) (use new_matches_sound in blast)
  then show ?thesis using new_matches_assets [OF assms(1), of env p now] by (simp add: matchParticipant_matches [OF assms(2)])
qed

text \<open>
  Matching a participant takes the union over all selfies: afterwards the matched photos are the
  earlier ones and every photo with a face that one of the selfies recognised, nobody else's matches
  changed, the answer counts the photos that are new, and a new match carries the smallest distance
  that any selfie had to its face.
\<close>

theorem matching_is_union:
  assumes "distinct (map f_id (assetFaces w))" "present (pt_selfieEmbedding p)" "matchParticipant env p now w = (r, w')"
  shows "matched_assets (pt_id p) (participantMatches w') =
           matched_assets (pt_id p) (participantMatches w) \<union> sr_assetId ` set (participant_hits env p w)
    \<and> (\<forall>j. j \<noteq> pt_id p \<longrightarrow> matched_assets j (participantMatches w') = matched_assets j (participantMatches w))
    \<and> r = Inr (card (sr_assetId ` set (participant_hits env p w) - matched_assets (pt_id p) (participantMatches w)))
    \<and> (\<forall>n h. n \<in> set (participantMatches w') - set (participantMatches w) \<longrightarrow> h \<in> set (participant_hits env p w) \<longrightarrow>
           m_viaFaceId n = Some (sr_id h) \<longrightarrow> m_distance n \<le> sr_distance h)"
proof (intro conjI allI impI)
  let ?new = "new_matches env p now w"
  have r: "r = Inr (fst (insert_matches ?new (participantMatches w)))"
    and ms: "participantMatches w' = snd (insert_matches ?new (participantMatches w))"
    using matchParticipant_matches [OF assms(2), of env now w] assms(3) by simp_all
  show "matched_assets (pt_id p) (participantMatches w') =
      matched_assets (pt_id p) (participantMatches w) \<union> sr_assetId ` set (participant_hits env p w)"
    "\<And>j. j \<noteq> pt_id p \<Longrightarrow> matched_assets j (participantMatches w') = matched_assets j (participantMatches w)"
    using matchParticipant_assets [OF assms(1,2), of _ env now] assms(3) by simp_all
  show "r = Inr (card (sr_assetId ` set (participant_hits env p w) - matched_assets (pt_id p) (participantMatches w)))"
    using insert_matches_count [of ?new "pt_id p" "participantMatches w"] new_matches_sound [of _ env p now w]
      new_matches_assets [OF assms(1), of env p now] r by simp
  show "m_distance n \<le> sr_distance h" if "n \<in> set (participantMatches w') - set (participantMatches w)"
    "h \<in> set (participant_hits env p w)" "m_viaFaceId n = Some (sr_id h)" for n h
    using closest_face [OF _ that(2,3)] insert_matches_sound [of n ?new "participantMatches w"] that(1) ms by auto
qed

section \<open>Matches stay inside the event\<close>

definition match_scoped :: "world \<Rightarrow> bool" where
  "match_scoped w \<longleftrightarrow> (\<forall>m \<in> set (participantMatches w). \<forall>q \<in> set (participants w). \<forall>a \<in> set (assets w).
     pt_id q = m_participantId m \<longrightarrow> a_id a = m_assetId m \<longrightarrow> a_eventId a = pt_eventId q)"

abbreviation identities :: "world \<Rightarrow> (uuid \<times> uuid) list" where
  "identities w \<equiv> map (\<lambda>p. (pt_id p, pt_eventId p)) (participants w)"

lemma match_scoped_alt:
  "match_scoped w \<longleftrightarrow> (\<forall>m \<in> set (participantMatches w). \<forall>q \<in> set (identities w). \<forall>a \<in> set (assets w).
     fst q = m_participantId m \<longrightarrow> a_id a = m_assetId m \<longrightarrow> a_eventId a = snd q)"
  by (simp add: match_scoped_def)

text \<open>The step of one participant, as far as the matches are concerned.\<close>

definition match_kept :: "world \<Rightarrow> world \<Rightarrow> bool" where
  "match_kept w w' \<longleftrightarrow> identities w' = identities w \<and> assets w' = assets w \<and>
     (match_scoped w \<and> distinct (map a_id (assets w)) \<and> distinct (map fst (identities w)) \<longrightarrow> match_scoped w')"

lemma match_kept_refl [simp]: "match_kept w w"
  by (simp add: match_kept_def)

lemma match_kept_trans: "match_kept u v \<Longrightarrow> match_kept v w \<Longrightarrow> match_kept u w"
  by (auto simp: match_kept_def)

lemma match_kept_frame:
  "identities w' = identities w \<Longrightarrow> assets w' = assets w \<Longrightarrow> participantMatches w' = participantMatches w \<Longrightarrow> match_kept w w'"
  by (simp add: match_kept_def match_scoped_alt)

lemma identities_update:
  "(\<And>p. pt_id (f p) = pt_id p \<and> pt_eventId (f p) = pt_eventId p) \<Longrightarrow>
    map (\<lambda>p. (pt_id p, pt_eventId p)) (update_where q f ps) = map (\<lambda>p. (pt_id p, pt_eventId p)) ps"
  by (induction ps) simp_all

lemma matchParticipant_kept:
  assumes "(pt_id p, pt_eventId p) \<in> set (identities w)"
  shows "match_kept w (snd (matchParticipant env p now w))"
proof (cases "present (pt_selfieEmbedding p)")
  case True
  let ?new = "new_matches env p now w"
  obtain ps where run: "matchParticipant env p now w = (Inr (fst (insert_matches ?new (participantMatches w))),
     w\<lparr>participantMatches := snd (insert_matches ?new (participantMatches w)), persons := ps,
       participants := update_where (\<lambda>r. pt_id r = pt_id p)
         (\<lambda>r. r\<lparr>pt_status := status_of (pt_id p) (snd (insert_matches ?new (participantMatches w))),
                pt_updatedAt := now\<rparr>) (participants w)\<rparr>)"
    using True by (rule matchParticipant_run)
  have scoped: "a_eventId a = snd q"
    if old: "match_scoped w" "distinct (map a_id (assets w))" "distinct (map fst (identities w))"
      and m: "m \<in> set (snd (insert_matches ?new (participantMatches w)))"
      and q: "q \<in> set (identities w)" "fst q = m_participantId m" and a: "a \<in> set (assets w)" "a_id a = m_assetId m" for m q a
    using insert_matches_sound [OF m]
  proof
    assume "m \<in> set (participantMatches w)"
    with old(1) q a show ?thesis unfolding match_scoped_alt by blast
  next
    assume "m \<in> set ?new"
    then obtain h where h: "m_participantId m = pt_id p" "h \<in> set (participant_hits env p w)" "m_assetId m = sr_assetId h"
      using new_matches_sound by blast
    obtain f where "in_event (pt_eventId p) w f" "sr_assetId h = f_assetId f" using h(2) by (rule hit_in_event)
    then obtain b where b: "b \<in> set (assets w)" "a_id b = a_id a" "a_eventId b = pt_eventId p"
      using a(2) h(3) by (auto simp: in_event_def)
    have "b = a" using old(2) b(1,2) a(1) by (simp add: distinct_map inj_on_def)
    moreover have "q = (pt_id p, pt_eventId p)"
      using eq_key_imp_eq_value [OF old(3), of "pt_id p" "snd q" "pt_eventId p"] q(1) assms q(2) h(1)
      by (metis prod.collapse)
    ultimately show ?thesis using b(3) by simp
  qed
  let ?w' = "snd (matchParticipant env p now w)"
  have ids: "identities ?w' = identities w" unfolding run by (simp add: identities_update)
  have rest: "assets ?w' = assets w" "participantMatches ?w' = snd (insert_matches ?new (participantMatches w))"
    unfolding run by simp_all
  have "match_scoped ?w'" if "match_scoped w" "distinct (map a_id (assets w))" "distinct (map fst (identities w))"
    unfolding match_scoped_alt ids rest using scoped [OF that] by blast
  then show ?thesis unfolding match_kept_def ids rest by blast
qed (simp add: matchParticipant_def)

lemma match_each_kept:
  "(\<And>p. p \<in> set ps \<Longrightarrow> (pt_id p, pt_eventId p) \<in> set (identities w)) \<Longrightarrow> match_kept w (snd (match_each env ps now w))"
proof (induction ps arbitrary: w)
  case (Cons p ps)
  have kept: "match_kept w (snd (matchParticipant env p now w))" using Cons.prems by (intro matchParticipant_kept) simp
  then have ids: "identities (snd (matchParticipant env p now w)) = identities w" by (simp add: match_kept_def)
  obtain r w1 where run: "matchParticipant env p now w = (r, w1)" by fastforce
  show ?case
  proof (cases r)
    case (Inr k)
    let ?w2 = "if k > 0 then queue (if pt_notifiedFirstAt p \<noteq> None then SendDigest (pt_id p) else SendGalleryEmail (pt_id p)) w1 else w1"
    have "match_kept w1 ?w2" by (rule match_kept_frame) (simp_all add: queueAll_def)
    then have 2: "match_kept w ?w2" using kept run by (auto intro: match_kept_trans)
    then have "match_kept ?w2 (snd (match_each env ps now ?w2))" using Cons.prems by (intro Cons.IH) (simp add: match_kept_def)
    with 2 have "match_kept w (snd (match_each env ps now ?w2))" by (rule match_kept_trans)
    then show ?thesis using run Inr by simp
  qed (use kept run in simp)
qed simp

lemma embed_selfies_frame:
  "identities (snd (embed_selfies env config i now ss n w)) = identities w
    \<and> assets (snd (embed_selfies env config i now ss n w)) = assets w
    \<and> participantMatches (snd (embed_selfies env config i now ss n w)) = participantMatches w"
  by (induction ss arbitrary: n w)
    (auto simp: Let_def setSelfieEmbedding_def participant_update_def identities_update split: sum.splits)

lemma participant_getById_SomeD:
  "participant_getById i w = Some p \<Longrightarrow> p \<in> set (participants w) \<and> pt_id p = i \<and> pt_deletedAt p = None"
  unfolding participant_getById_def by (drule select_first_SomeD) simp

lemma handleSelfieProcess_kept: "match_kept w (snd (handleSelfieProcess env i now w))"
proof (cases "\<exists>p. participant_getById i w = Some p \<and> present (pt_selfieKey p)")
  case True
  then obtain p where p: "participant_getById i w = Some p" "present (pt_selfieKey p)" by blast
  obtain r w1 where run: "embed_selfies env (participant_getConfig (pt_eventId p) w) i now (getSelfies i w) 0 w = (r, w1)" by fastforce
  have 1: "match_kept w w1"
    using embed_selfies_frame [of env "participant_getConfig (pt_eventId p) w" i now "getSelfies i w" 0 w] run
    by (intro match_kept_frame) simp_all
  note handler = handleSelfieProcess_def p(1) option.case(2) p(2) if_False not_True_eq_False
  show ?thesis
  proof (cases "\<exists>n. r = Inr n \<and> n > 0 \<and> participant_getById i w1 \<noteq> None")
    case True
    then obtain n u where n: "r = Inr n" "n > 0" "participant_getById i w1 = Some u" by blast
    have "(pt_id u, pt_eventId u) \<in> set (identities w1)" using participant_getById_SomeD [OF n(3)] by auto
    then have 2: "match_kept w1 (snd (matchParticipant env u now w1))" by (rule matchParticipant_kept)
    obtain k w2 where m: "matchParticipant env u now w1 = (k, w2)" by fastforce
    have "match_kept w2 (snd (handleSelfieProcess env i now w))"
      by (rule match_kept_frame) (use n m p run in \<open>simp_all add: handleSelfieProcess_def queueAll_def split: sum.splits\<close>)
    with 1 2 m show ?thesis by (auto intro: match_kept_trans)
  next
    case False
    have "match_kept w1 (snd (handleSelfieProcess env i now w))"
      by (rule match_kept_frame)
        (use False p run in \<open>auto simp: handleSelfieProcess_def queueAll_def participant_update_def identities_update split: sum.splits option.splits if_splits\<close>)
    with 1 show ?thesis by (rule match_kept_trans)
  qed
qed (auto simp: handleSelfieProcess_def split: option.splits)

lemma snd_job_result [simp]: "snd (job_result r) = snd r"
  by (auto simp: job_result_def split: prod.splits sum.splits)

text \<open>
  Matches never cross events: every job that matches, whether for a new selfie, for the photos of
  one event or in the periodic sweep, keeps each guest's matches on photos of the guest's own event,
  whatever the vector index returns.
\<close>

theorem matches_stay_in_event:
  assumes "match_scoped w" "distinct (map a_id (assets w))" "distinct (map pt_id (participants w))"
  shows "match_scoped (snd (handleSelfieProcess env i now w))
    \<and> match_scoped (snd (handleParticipantRematch env ev now w))
    \<and> match_scoped (snd (handleParticipantMatchSweep env now w))"
proof (intro conjI)
  have kept: "match_scoped w'" if "match_kept w w'" for w' using that assms by (simp add: match_kept_def comp_def)
  show "match_scoped (snd (handleSelfieProcess env i now w))" by (rule kept) (rule handleSelfieProcess_kept)
  show "match_scoped (snd (handleParticipantRematch env ev now w))"
    by (rule kept) (auto simp: handleParticipantRematch_def Let_def getMatchableByEvent_def intro!: match_each_kept)
  show "match_scoped (snd (handleParticipantMatchSweep env now w))"
    by (rule kept) (auto simp: handleParticipantMatchSweep_def getPendingForSweep_def intro!: match_each_kept)
qed

section \<open>A re-match settles\<close>

definition match_key :: "participant_row \<Rightarrow> uuid \<times> uuid \<times> string option \<times> ms option" where
  "match_key p = (pt_id p, pt_eventId p, pt_selfieEmbedding p, pt_deletedAt p)"

text \<open>What a match run leaves alone; matches only grow.\<close>

definition rematch_kept :: "world \<Rightarrow> world \<Rightarrow> bool" where
  "rematch_kept w w' \<longleftrightarrow> events w' = events w \<and> facialRecognition w' = facialRecognition w \<and> assets w' = assets w
     \<and> assetFaces w' = assetFaces w \<and> faceSearches w' = faceSearches w \<and> participantSelfies w' = participantSelfies w
     \<and> map match_key (participants w') = map match_key (participants w)
     \<and> set (participantMatches w) \<subseteq> set (participantMatches w')"

lemma rematch_kept_refl [simp]: "rematch_kept w w"
  by (simp add: rematch_kept_def)

lemma rematch_kept_trans: "rematch_kept u v \<Longrightarrow> rematch_kept v w \<Longrightarrow> rematch_kept u w"
  by (auto simp: rematch_kept_def)

lemma rematch_kept_queue [simp]: "rematch_kept w (queueAll js v) = rematch_kept w v"
  by (simp add: rematch_kept_def queueAll_def)

lemma hits_cong:
  assumes "rematch_kept w w'" "match_key q = match_key p"
  shows "participant_hits env q w' = participant_hits env p w"
proof -
  have w: "events w' = events w" "facialRecognition w' = facialRecognition w" "assets w' = assets w" "assetFaces w' = assetFaces w"
    "faceSearches w' = faceSearches w" "participantSelfies w' = participantSelfies w" using assms(1) by (simp_all add: rematch_kept_def)
  have p: "pt_id q = pt_id p" "pt_eventId q = pt_eventId p" "pt_selfieEmbedding q = pt_selfieEmbedding p"
    using assms(2) by (simp_all add: match_key_def)
  have "search_rows ix ev emb b w' = search_rows ix ev emb b w" for ix ev emb b by (simp add: search_rows_def in_event_def w)
  moreover have "participant_getConfig ev w' = participant_getConfig ev w" for ev
    by (simp add: participant_getConfig_def getFacialRecognitionConfig_def event_getById_def w)
  moreover have "match_embeddings q w' = match_embeddings p w" by (simp add: match_embeddings_def getSelfies_def w p Let_def)
  ultimately show ?thesis by (simp add: participant_hits_def p)
qed

definition settled :: "face_env \<Rightarrow> participant_row \<Rightarrow> world \<Rightarrow> bool" where
  "settled env p w \<longleftrightarrow> present (pt_selfieEmbedding p) \<longrightarrow>
     sr_assetId ` set (participant_hits env p w) \<subseteq> matched_assets (pt_id p) (participantMatches w)"

lemma settled_kept:
  assumes "settled env p w" "rematch_kept w w'" "match_key q = match_key p"
  shows "settled env q w'"
proof -
  have "matched_assets (pt_id p) (participantMatches w) \<subseteq> matched_assets (pt_id p) (participantMatches w')"
    using assms(2) by (auto simp: rematch_kept_def matched_assets_def)
  then show ?thesis using assms(1,3) hits_cong [OF assms(2,3), of env] by (auto simp: settled_def match_key_def)
qed

lemma match_keys_update:
  "(\<And>p. match_key (f p) = match_key p) \<Longrightarrow> map match_key (update_where q f ps) = map match_key ps"
  by (induction ps) simp_all

lemma matchParticipant_rematch:
  assumes "distinct (map f_id (assetFaces w))"
  shows "rematch_kept w (snd (matchParticipant env p now w))" "settled env p (snd (matchParticipant env p now w))"
    and "settled env p w \<Longrightarrow> fst (matchParticipant env p now w) = Inr 0
           \<and> participantMatches (snd (matchParticipant env p now w)) = participantMatches w"
    and "queued (snd (matchParticipant env p now w)) = queued w"
proof (atomize (full), cases "present (pt_selfieEmbedding p)")
  case True
  let ?new = "new_matches env p now w"
  obtain ps where run: "matchParticipant env p now w = (Inr (fst (insert_matches ?new (participantMatches w))),
     w\<lparr>participantMatches := snd (insert_matches ?new (participantMatches w)), persons := ps,
       participants := update_where (\<lambda>r. pt_id r = pt_id p)
         (\<lambda>r. r\<lparr>pt_status := status_of (pt_id p) (snd (insert_matches ?new (participantMatches w))),
                pt_updatedAt := now\<rparr>) (participants w)\<rparr>)"
    using True by (rule matchParticipant_run)
  let ?w' = "snd (matchParticipant env p now w)"
  have kept: "rematch_kept w ?w'"
    unfolding run rematch_kept_def using insert_matches_keeps [of "participantMatches w" ?new]
    by (simp add: match_keys_update match_key_def)
  have "settled env p ?w'"
    using matchParticipant_assets [OF assms True, of "pt_id p" env now] hits_cong [OF kept refl, of env p]
    by (simp add: settled_def)
  moreover have "fst (matchParticipant env p now w) = Inr 0 \<and> participantMatches ?w' = participantMatches w" if "settled env p w"
  proof -
    have "\<exists>m \<in> set (participantMatches w). same_match m n" if "n \<in> set ?new" for n
      using new_matches_sound [OF that] \<open>settled env p w\<close> True by (fastforce simp: settled_def same_match_def matched_assets_iff)
    then have "insert_matches ?new (participantMatches w) = (0, participantMatches w)" by (rule insert_matches_none)
    then show ?thesis unfolding run by simp
  qed
  moreover have "queued ?w' = queued w" unfolding run by simp
  ultimately show "(rematch_kept w ?w' \<and> settled env p ?w') \<and>
      (settled env p w \<longrightarrow> fst (matchParticipant env p now w) = Inr 0 \<and> participantMatches ?w' = participantMatches w) \<and>
      queued ?w' = queued w" using kept by blast
qed (simp add: matchParticipant_def settled_def)

lemma matchParticipant_ok: "\<exists>k. fst (matchParticipant env p now w) = Inr k"
  using matchParticipant_matches(1) [of p env now w] by (cases "present (pt_selfieEmbedding p)") (simp_all add: matchParticipant_def)

definition announce :: "participant_row \<Rightarrow> nat \<Rightarrow> world \<Rightarrow> world" where
  "announce p k w = (if k > 0 then queue (if pt_notifiedFirstAt p \<noteq> None then SendDigest (pt_id p) else SendGalleryEmail (pt_id p)) w else w)"

lemma announce_kept [simp]: "rematch_kept w (announce p k v) = rematch_kept w v" "announce p 0 v = v"
  by (simp_all add: announce_def)

lemma match_each_Cons:
  obtains k where "fst (matchParticipant env p now w) = Inr k"
    "match_each env (p # ps) now w = match_each env ps now (announce p k (snd (matchParticipant env p now w)))"
proof -
  obtain k where k: "fst (matchParticipant env p now w) = Inr k" using matchParticipant_ok by blast
  then obtain v where "matchParticipant env p now w = (Inr k, v)" by (cases "matchParticipant env p now w") simp
  with k show thesis by (intro that [of k]) (simp_all add: announce_def)
qed

lemma match_each_ok: "\<exists>w'. match_each env ps now w = (Inr (), w')"
proof (induction ps arbitrary: w)
  case (Cons p ps)
  obtain k where "fst (matchParticipant env p now w) = Inr k" "match_each env (p # ps) now w = match_each env ps now (announce p k (snd (matchParticipant env p now w)))" by (rule match_each_Cons)
  with Cons.IH show ?case by presburger
qed simp

lemma match_each_settles:
  "distinct (map f_id (assetFaces w)) \<Longrightarrow> rematch_kept w (snd (match_each env ps now w))
     \<and> (\<forall>p \<in> set ps. settled env p (snd (match_each env ps now w)))"
proof (induction ps arbitrary: w)
  case (Cons p ps)
  obtain k where "fst (matchParticipant env p now w) = Inr k" and run: "match_each env (p # ps) now w = match_each env ps now (announce p k (snd (matchParticipant env p now w)))" (is "_ = match_each env ps now ?w1") by (rule match_each_Cons)
  note m = matchParticipant_rematch [OF Cons.prems, of env p now]
  have 1: "rematch_kept w ?w1" and same: "rematch_kept (snd (matchParticipant env p now w)) ?w1" using m(1) by simp_all
  have "settled env p ?w1" using settled_kept [OF m(2) same refl] .
  moreover have "distinct (map f_id (assetFaces ?w1))" using 1 Cons.prems by (simp add: rematch_kept_def)
  note IH = Cons.IH [OF this]
  ultimately have "settled env p (snd (match_each env ps now ?w1))" using settled_kept [OF _ conjunct1 [OF IH] refl] by blast
  with IH rematch_kept_trans [OF 1 conjunct1 [OF IH]] show ?case unfolding run by simp
qed simp

lemma match_each_settled:
  "distinct (map f_id (assetFaces w)) \<Longrightarrow> \<forall>p \<in> set ps. settled env p w \<Longrightarrow>
     participantMatches (snd (match_each env ps now w)) = participantMatches w \<and> queued (snd (match_each env ps now w)) = queued w"
proof (induction ps arbitrary: w)
  case (Cons p ps)
  obtain k where k: "fst (matchParticipant env p now w) = Inr k" and run: "match_each env (p # ps) now w = match_each env ps now (announce p k (snd (matchParticipant env p now w)))" by (rule match_each_Cons)
  note m = matchParticipant_rematch [OF Cons.prems(1), of env p now]
  have none: "k = 0" "participantMatches (snd (matchParticipant env p now w)) = participantMatches w" using m(3) k Cons.prems(2) by simp_all
  let ?w1 = "snd (matchParticipant env p now w)"
  have "\<forall>q \<in> set ps. settled env q ?w1" using settled_kept [OF _ m(1) refl] Cons.prems(2) by simp
  moreover have "distinct (map f_id (assetFaces ?w1))" using m(1) Cons.prems(1) by (simp add: rematch_kept_def)
  ultimately show ?case using Cons.IH [of ?w1] run none m(4) by simp
qed simp

text \<open>
  A re-match is idempotent: running it for an event a second time, at any later moment, inserts no
  match and sends no mail.
\<close>

theorem rematch_is_idempotent:
  assumes "distinct (map f_id (assetFaces w))" "handleParticipantRematch env ev now w = (r, w')"
    "handleParticipantRematch env ev later w' = (r', w'')"
  shows "participantMatches w'' = participantMatches w' \<and> queued w'' = queued w'"
proof -
  have all: "w' = snd (match_each env (getMatchableByEvent ev w) now w)" "w'' = snd (match_each env (getMatchableByEvent ev w') later w')"
    using assms(2,3) by (auto simp: handleParticipantRematch_def Let_def job_result_def split: if_splits prod.splits sum.splits)
  then have kept: "rematch_kept w w'" and done1: "\<forall>p \<in> set (getMatchableByEvent ev w). settled env p w'"
    using match_each_settles [OF assms(1)] by auto
  have keys: "map match_key (participants w') = map match_key (participants w)" using kept by (simp add: rematch_kept_def)
  have "settled env q w'" if q: "q \<in> set (getMatchableByEvent ev w')" for q
  proof -
    have "match_key q \<in> set (map match_key (participants w))" using q keys by (metis (no_types, lifting) filter_is_subset getMatchableByEvent_def imageI list.set_map subsetD)
    then obtain p where p: "p \<in> set (participants w)" "match_key p = match_key q" by auto
    then have "p \<in> set (getMatchableByEvent ev w)" using q by (auto simp: getMatchableByEvent_def match_key_def)
    then show ?thesis using settled_kept [OF _ rematch_kept_refl, of env p w' q] done1 p(2) by simp
  qed
  moreover have "distinct (map f_id (assetFaces w'))" using kept assms(1) by (simp add: rematch_kept_def)
  ultimately show ?thesis
    using match_each_settled [of w' "getMatchableByEvent ev w'" env later] all(2) by simp
qed

section \<open>Retention\<close>

definition scrubbed :: "ms \<Rightarrow> participant_row \<Rightarrow> participant_row" where
  "scrubbed now p = p\<lparr>pt_selfieEmbedding := None, pt_selfieKey := None, pt_deletedAt := Some now, pt_updatedAt := now\<rparr>"

lemma fold_scrub:
  "fold (\<lambda>p. softDeleteAndScrub (pt_id p) now) ps w =
    w\<lparr>participantSelfies := delete_where (\<lambda>s. sf_participantId s \<in> pt_id ` set ps) (participantSelfies w),
      participants := update_where (\<lambda>p. pt_id p \<in> pt_id ` set ps) (scrubbed now) (participants w)\<rparr>"
proof (induction ps arbitrary: w)
  case Nil
  show ?case by (simp add: delete_where_def update_where_def)
next
  case (Cons p ps)
  have "update_where (\<lambda>q. pt_id q \<in> pt_id ` set ps) (scrubbed now)
      (update_where (\<lambda>q. pt_id q = pt_id p) (scrubbed now) (participants w)) =
     update_where (\<lambda>q. pt_id q = pt_id p \<or> pt_id q \<in> pt_id ` set ps) (scrubbed now) (participants w)"
    by (rule update_where_twice) (simp_all add: scrubbed_def)
  moreover have "softDeleteAndScrub (pt_id p) now w =
      w\<lparr>participantSelfies := delete_where (\<lambda>s. sf_participantId s = pt_id p) (participantSelfies w),
        participants := update_where (\<lambda>q. pt_id q = pt_id p) (scrubbed now) (participants w)\<rparr>"
    by (simp add: softDeleteAndScrub_def scrubbed_def [abs_def])
  moreover have "delete_where (\<lambda>s. sf_participantId s \<in> pt_id ` set ps) (delete_where (\<lambda>s. sf_participantId s = pt_id p) ss)
      = delete_where (\<lambda>s. sf_participantId s = pt_id p \<or> sf_participantId s \<in> pt_id ` set ps) ss" for ss :: "selfie_row list"
    by (simp add: delete_where_def conj_commute)
  ultimately show ?case by (simp add: Cons.IH)
qed

definition selfie_due :: "ms \<Rightarrow> world \<Rightarrow> participant_row \<Rightarrow> bool" where
  "selfie_due now w p \<longleftrightarrow> ended_before (now - 30 * 24 * 60 * 60 * 1000) (pt_eventId p) w
     \<and> pt_deletedAt p = None \<and> pt_selfieKey p \<noteq> None"

text \<open>
  The retention sweep is exact: it scrubs the selfies and embeddings of exactly the participants
  whose event ended more than thirty days ago, keeps every other participant and selfie as it is, and
  hands the objects of all scrubbed selfies, the extra ones included, to the cleanup.
\<close>

theorem retention_sweep_is_exact:
  assumes "distinct (map pt_id (participants w))" "handleSelfieRetentionSweep now w = (r, w')"
  shows "participants w' = map (\<lambda>p. if selfie_due now w p then scrubbed now p else p) (participants w)
    \<and> set (participantSelfies w') = {s \<in> set (participantSelfies w).
           \<forall>p \<in> set (participants w). selfie_due now w p \<longrightarrow> sf_participantId s \<noteq> pt_id p}
    \<and> (\<forall>p k. p \<in> set (participants w) \<longrightarrow> selfie_due now w p \<longrightarrow> k \<noteq> '''' \<longrightarrow>
           pt_selfieKey p = Some k \<or> (\<exists>s \<in> set (participantSelfies w). sf_participantId s = pt_id p \<and> sf_storageKey s = k) \<longrightarrow>
           (\<exists>keys. CleanupKeys keys \<in> set (queued w') \<and> k \<in> set keys))"
proof (intro conjI allI impI)
  let ?due = "filter (selfie_due now w) (participants w)"
  have due: "getExpiredSelfies SELFIE_RETENTION_DAYS now w = ?due"
    by (simp add: getExpiredSelfies_def SELFIE_RETENTION_DAYS_def selfie_due_def [abs_def])
  have ids: "pt_id q \<in> pt_id ` set ?due \<longleftrightarrow> selfie_due now w q" if "q \<in> set (participants w)" for q
    using assms(1) that by (auto simp: distinct_map inj_on_def)
  let ?keys = "filter (\<lambda>k. k \<noteq> '''') (unique (map (\<lambda>p. the (pt_selfieKey p)) ?due @ listSelfieKeys (map pt_id ?due) w))"
  let ?w1 = "if ?keys \<noteq> [] then queue (CleanupKeys ?keys) w else w"
  have w': "w' = fold (\<lambda>p. softDeleteAndScrub (pt_id p) now) ?due ?w1"
  proof (cases "?due = []")
    case True
    then show ?thesis using assms(2) by (simp add: handleSelfieRetentionSweep_def due listSelfieKeys_def)
  next
    case False
    then show ?thesis using assms(2) unfolding handleSelfieRetentionSweep_def due Let_def by (simp only: if_False prod.inject)
  qed
  have part: "participants w' = update_where (\<lambda>p. pt_id p \<in> pt_id ` set ?due) (scrubbed now) (participants w)"
    "participantSelfies w' = delete_where (\<lambda>s. sf_participantId s \<in> pt_id ` set ?due) (participantSelfies w)"
    unfolding w' fold_scrub by (simp_all add: queueAll_def)
  show "participants w' = map (\<lambda>p. if selfie_due now w p then scrubbed now p else p) (participants w)"
    unfolding part(1) update_where_def using ids by (intro map_cong) auto
  show "set (participantSelfies w') = {s \<in> set (participantSelfies w).
      \<forall>p \<in> set (participants w). selfie_due now w p \<longrightarrow> sf_participantId s \<noteq> pt_id p}"
    unfolding part(2) by auto
  show "\<exists>keys. CleanupKeys keys \<in> set (queued w') \<and> k \<in> set keys"
    if p: "p \<in> set (participants w)" "selfie_due now w p" and k: "k \<noteq> ''''"
      "pt_selfieKey p = Some k \<or> (\<exists>s \<in> set (participantSelfies w). sf_participantId s = pt_id p \<and> sf_storageKey s = k)" for p k
  proof -
    have "k \<in> set ?keys" using p k by (force simp: listSelfieKeys_def)
    then have "queued w' = queued w @ [CleanupKeys ?keys]" using p unfolding w' fold_scrub by (auto simp: filter_empty_conv queueAll_def)
    with \<open>k \<in> set ?keys\<close> show ?thesis by (intro exI [of _ ?keys]) simp
  qed
qed

section \<open>Erasure forgets the extra selfies\<close>

text \<open>
  Erasing a participant cleans up the primary selfie only: the objects of the second and third
  photo lose their rows, stay in the bucket, and no queued job names them.
\<close>

theorem erasure_leaves_extra_selfies:
  assumes "getScoped ev i w = Inr p" "s \<in> set (participantSelfies w)" "sf_participantId s = i"
    "pt_selfieKey p \<noteq> Some (sf_storageKey s)" "sf_storageKey s \<in> set (objects w)"
    "\<And>keys. CleanupKeys keys \<in> set (queued w) \<Longrightarrow> sf_storageKey s \<notin> set keys"
    "participant_remove ev i w = (r, w')"
  shows "r = Inr () \<and> sf_storageKey s \<in> set (objects w')
    \<and> (\<forall>t \<in> set (participantSelfies w'). sf_participantId t \<noteq> i)
    \<and> (\<forall>keys. CleanupKeys keys \<in> set (queued w') \<longrightarrow> sf_storageKey s \<notin> set keys)"
proof (intro conjI allI ballI impI)
  have "pt_id p = i" using assms(1) participant_getById_SomeD [of i w p]
    by (auto simp: getScoped_def split: option.splits if_splits)
  let ?w1 = "if present (pt_selfieKey p) then queue (CleanupKeys [the (pt_selfieKey p)]) w else w"
  have r: "r = Inr ()" and w': "w' = participant_hardDelete i ?w1"
    using assms(1,7) \<open>pt_id p = i\<close> by (simp_all add: participant_remove_def)
  then show "r = Inr ()" "sf_storageKey s \<in> set (objects w')" "\<And>t. t \<in> set (participantSelfies w') \<Longrightarrow> sf_participantId t \<noteq> i"
    using assms(5) by (auto simp: participant_hardDelete_def participant_cascade_def queueAll_def)
  have "set (queued w') \<subseteq> set (queued w) \<union> (if present (pt_selfieKey p) then {CleanupKeys [the (pt_selfieKey p)]} else {})"
    unfolding w' by (simp add: participant_hardDelete_def participant_cascade_def)
  then show "\<And>keys. CleanupKeys keys \<in> set (queued w') \<Longrightarrow> sf_storageKey s \<notin> set keys"
    using assms(4,6) by (auto simp: present_def split: if_splits)
qed

section \<open>A concrete guest\<close>

definition wit_guest :: participant_row where
  "wit_guest = \<lparr>pt_id = ''g'', pt_eventId = ''e'', pt_email = ''g@x'', pt_name = ''Gita'', pt_selfieKey = Some ''s0'',
     pt_selfieEmbedding = Some ''v'', pt_phone = None, pt_galleryTokenHash = ''h'', pt_galleryTokenEnc = None,
     pt_status = ParticipantStatus_PendingMatch, pt_notifiedFirstAt = None, pt_lastNotifiedAt = None,
     pt_galleryOpenedAt = None, pt_awaitingResultNotice = False, pt_createdAt = 0, pt_updatedAt = 0, pt_deletedAt = None\<rparr>"

definition wit_selfie :: "nat \<Rightarrow> string \<Rightarrow> selfie_row" where
  "wit_selfie n k = \<lparr>sf_id = k, sf_participantId = ''g'', sf_ordinal = n, sf_storageKey = k, sf_embedding = Some ''v''\<rparr>"

definition wit_guest_world :: world where
  "wit_guest_world = wit_face_world\<lparr>participants := [wit_guest], participantSelfies := [wit_selfie 0 ''s0'', wit_selfie 1 ''s1''],
     objects := [''s0'', ''s1''], events := [wit_event\<lparr>e_id := ''e'', e_endsAt := Some 0\<rparr>]\<rparr>"

definition wit_guest_env :: face_env where
  "wit_guest_env = wit_face_env (wit_detected 100 [])"

lemma wit_guest_facts:
  "distinct (map f_id (assetFaces wit_guest_world))" "present (pt_selfieEmbedding wit_guest)" "match_scoped wit_guest_world"
  "distinct (map a_id (assets wit_guest_world))" "distinct (map pt_id (participants wit_guest_world))"
  "participantMatches wit_guest_world = []" "queued wit_guest_world = []"
  by (simp_all add: wit_guest_world_def wit_face_world_def wit_lone_def wit_guest_def present_def match_scoped_def empty_world_def)

lemma wit_guest_hits: "sr_assetId ` set (participant_hits wit_guest_env wit_guest wit_guest_world) = {''a1''}"
  by (simp add: participant_hits_def match_embeddings_def getSelfies_def wit_guest_world_def wit_selfie_def wit_guest_def
      wit_guest_env_def wit_face_env_def search_rows_def in_event_def wit_face_world_def wit_lone_def wit_face_def wit_asset_def
      empty_world_def MATCH_NUM_RESULTS_def participant_getConfig_def event_getById_def wit_event_def
      getFacialRecognitionConfig_def FACIAL_RECOGNITION_DEFAULTS_def Let_def)

theorem matching_is_union_witness:
  "matched_assets ''g'' (participantMatches (snd (matchParticipant wit_guest_env wit_guest 5 wit_guest_world))) = {''a1''}"
proof -
  have "matched_assets (pt_id wit_guest) (participantMatches wit_guest_world) = {}" by (simp add: wit_guest_facts matched_assets_def)
  with matching_is_union [OF wit_guest_facts(1,2) prod.collapse [symmetric], of wit_guest_env 5] show ?thesis
    by (simp add: wit_guest_hits) (simp add: wit_guest_def)
qed

theorem matches_stay_in_event_witness:
  "match_scoped (snd (handleParticipantRematch wit_guest_env ''e'' 5 wit_guest_world))"
  using matches_stay_in_event [OF wit_guest_facts(3-5)] by blast

theorem rematch_is_idempotent_witness:
  "queued (snd (handleParticipantRematch wit_guest_env ''e'' 7 (snd (handleParticipantRematch wit_guest_env ''e'' 5 wit_guest_world))))
    = queued (snd (handleParticipantRematch wit_guest_env ''e'' 5 wit_guest_world))"
  by (rule conjunct2 [OF rematch_is_idempotent [OF wit_guest_facts(1) prod.collapse [symmetric] prod.collapse [symmetric]]])

theorem retention_sweep_is_exact_witness:
  "participants (snd (handleSelfieRetentionSweep 2592000001 wit_guest_world)) = [scrubbed 2592000001 wit_guest]"
proof -
  have "selfie_due 2592000001 wit_guest_world wit_guest"
    by (simp add: selfie_due_def ended_before_def wit_guest_world_def wit_guest_def)
  then show ?thesis
    using conjunct1 [OF retention_sweep_is_exact [OF wit_guest_facts(5) prod.collapse [symmetric], of 2592000001]]
    by (simp add: wit_guest_world_def)
qed

theorem erasure_leaves_extra_selfies_witness:
  "''s1'' \<in> set (objects (snd (participant_remove ''e'' ''g'' wit_guest_world)))"
proof -
  have p: "getScoped ''e'' ''g'' wit_guest_world = Inr wit_guest" "wit_selfie 1 ''s1'' \<in> set (participantSelfies wit_guest_world)"
    "sf_participantId (wit_selfie 1 ''s1'') = ''g''" "pt_selfieKey wit_guest \<noteq> Some (sf_storageKey (wit_selfie 1 ''s1''))"
    "sf_storageKey (wit_selfie 1 ''s1'') \<in> set (objects wit_guest_world)"
    by (simp_all add: getScoped_def participant_getById_def wit_guest_world_def wit_guest_def wit_selfie_def)
  have q: "sf_storageKey (wit_selfie 1 ''s1'') \<notin> set keys" if "CleanupKeys keys \<in> set (queued wit_guest_world)" for keys
    using that by (simp add: wit_guest_facts)
  from erasure_leaves_extra_selfies [OF p q prod.collapse [symmetric]] show ?thesis by (simp add: wit_selfie_def)
qed

end
