(* ===== verification/Assets.thy ===== *)
theory Assets
  imports Participants "HOL-Library.Product_Lexorder"
begin

text \<open>
  \<^verbatim>\<open>services/asset.service.ts\<close>, \<^verbatim>\<open>services/media.service.ts\<close>, \<^verbatim>\<open>utils/face-box.ts\<close> and the queries of
  \<^verbatim>\<open>asset.repository.ts\<close> behind them: the paged gallery, face boxes, zip downloads, deletion and the
  derivatives of a photo. Ids are compared as text, which is the order of their bytes. Image size,
  thumbhash and EXIF columns are for display and left out; a presigned URL or a stream is represented by
  its key. The cursor's text form (JSON in base64url) is a codec with its round trip as the law
  \<open>cursor_ok\<close>.
\<close>

section \<open>The paged gallery\<close>

type_synonym cursor = "ms option \<times> uuid"

record cursor_codec =
  cc_encode :: "cursor \<Rightarrow> string"
  cc_decode :: "string \<Rightarrow> (ms option \<times> uuid option) option"

definition cursor_ok :: "cursor_codec \<Rightarrow> bool" where
  "cursor_ok c \<longleftrightarrow> (\<forall>t i. cc_decode c (cc_encode c (t, i)) = Some (t, Some i) \<and> cc_encode c (t, i) \<noteq> '''')"

datatype FaceStatusFilter = FaceStatus_pending | FaceStatus_found | FaceStatus_none

fun face_status_is :: "FaceStatusFilter option \<Rightarrow> asset_row \<Rightarrow> bool" where
  "face_status_is None a = True"
| "face_status_is (Some FaceStatus_pending) a = (a_facesDetectedAt a = None)"
| "face_status_is (Some FaceStatus_found) a = (a_facesDetectedAt a \<noteq> None \<and> a_faceCount a > 0)"
| "face_status_is (Some FaceStatus_none) a = (a_facesDetectedAt a \<noteq> None \<and> a_faceCount a = 0)"

text \<open>\<^verbatim>\<open>ORDER BY captured_at DESC, id DESC\<close>: descending order puts \<^verbatim>\<open>NULL\<close> first.\<close>

definition gallery_key :: "asset_row \<Rightarrow> bool \<times> ms \<times> uuid" where
  "gallery_key a = (a_capturedAt a = None, or_default (a_capturedAt a) 0, a_id a)"

definition gallery_order :: "asset_row list \<Rightarrow> asset_row list" where
  "gallery_order as = rev (sort_key gallery_key as)"

text \<open>A comparison with \<^verbatim>\<open>NULL\<close> is not true.\<close>

definition captured_before :: "ms \<Rightarrow> uuid \<Rightarrow> asset_row \<Rightarrow> bool" where
  "captured_before t i a \<longleftrightarrow> (case a_capturedAt a of None \<Rightarrow> False | Some s \<Rightarrow> s < t \<or> s = t \<and> a_id a < i)"

definition after_cursor :: "(ms option \<times> uuid option) option \<Rightarrow> asset_row \<Rightarrow> bool" where
  "after_cursor cur a \<longleftrightarrow>
    (case cur of
       Some (t, Some i) \<Rightarrow> i \<noteq> '''' \<longrightarrow> captured_before (or_default t 0) i a
     | _ \<Rightarrow> True)"

record AssetListItem =
  li_asset :: asset_row
  li_previewKey :: "string option"
  li_thumbKey :: "string option"

definition list_item :: "world \<Rightarrow> asset_row \<Rightarrow> AssetListItem" where
  "list_item w a = \<lparr>li_asset = a, li_previewKey = file_key AssetFileType_Preview (a_id a) w,
                    li_thumbKey = file_key AssetFileType_Thumbnail (a_id a) w\<rparr>"

definition event_photos :: "uuid \<Rightarrow> world \<Rightarrow> asset_row list" where
  "event_photos ev w = filter (\<lambda>a. a_eventId a = ev \<and> a_deletedAt a = None) (assets w)"

definition asset_list :: "uuid \<Rightarrow> nat \<Rightarrow> (ms option \<times> uuid option) option \<Rightarrow> FaceStatusFilter option \<Rightarrow> world \<Rightarrow> AssetListItem list" where
  [repo_defs]: "asset_list ev limit cur fs w =
     map (list_item w) (take limit (gallery_order (filter (\<lambda>a. face_status_is fs a \<and> after_cursor cur a) (event_photos ev w))))"

definition decodeCursor :: "cursor_codec \<Rightarrow> string option \<Rightarrow> (ms option \<times> uuid option) option outcome" where
  "decodeCursor c cursor =
    (case cursor of
       None \<Rightarrow> Inr None
     | Some text \<Rightarrow>
        if text = '''' then Inr None
        else (case cc_decode c text of None \<Rightarrow> Inl (BadRequest ''Invalid cursor'') | Some d \<Rightarrow> Inr (Some d)))"

record AssetListResponse =
  lr_assets :: "AssetListItem list"
  lr_nextCursor :: "string option"

text \<open>The page of the rows that were fetched, one more than the limit.\<close>

definition page_of :: "cursor_codec \<Rightarrow> nat \<Rightarrow> AssetListItem list \<Rightarrow> AssetListResponse" where
  "page_of c limit rows =
    (let hasMore = length rows > limit;
         page = (if hasMore then take limit rows else rows)
     in \<lparr>lr_assets = page,
         lr_nextCursor = (if hasMore \<and> page \<noteq> []
           then Some (cc_encode c (a_capturedAt (li_asset (last page)), a_id (li_asset (last page)))) else None)\<rparr>)"

definition asset_service_list :: "cursor_codec \<Rightarrow> uuid \<Rightarrow> nat \<Rightarrow> string option \<Rightarrow> FaceStatusFilter option \<Rightarrow> world \<Rightarrow> AssetListResponse outcome" where
  "asset_service_list c ev limit cursor fs w =
    (case decodeCursor c cursor of
       Inl e \<Rightarrow> Inl e
     | Inr cur \<Rightarrow> Inr (page_of c limit (asset_list ev (limit + 1) cur fs w)))"

subsection \<open>The timeline of an organization\<close>

definition org_photos :: "uuid \<Rightarrow> world \<Rightarrow> asset_row list" where
  "org_photos org w = filter (\<lambda>a. a_orgId a = org \<and> a_deletedAt a = None \<and>
     (\<exists>e \<in> set (events w). e_id e = a_eventId a \<and> e_deletedAt e = None \<and> e_purgedAt e = None)) (assets w)"

definition after_org_cursor :: "(ms option \<times> uuid option) option \<Rightarrow> asset_row \<Rightarrow> bool" where
  "after_org_cursor cur a \<longleftrightarrow>
    (case cur of
       Some (t, Some i) \<Rightarrow> i \<noteq> '''' \<longrightarrow>
         (case t of Some s \<Rightarrow> captured_before s i a | None \<Rightarrow> a_capturedAt a = None \<and> a_id a < i)
     | _ \<Rightarrow> True)"

definition asset_listForOrg :: "uuid \<Rightarrow> nat \<Rightarrow> (ms option \<times> uuid option) option \<Rightarrow> world \<Rightarrow> AssetListItem list" where
  [repo_defs]: "asset_listForOrg org limit cur w =
     map (list_item w) (take limit (gallery_order (filter (after_org_cursor cur) (org_photos org w))))"

definition asset_service_listForOrg :: "cursor_codec \<Rightarrow> uuid \<Rightarrow> nat \<Rightarrow> string option \<Rightarrow> world \<Rightarrow> AssetListResponse outcome" where
  "asset_service_listForOrg c org limit cursor w =
    (case decodeCursor c cursor of
       Inl e \<Rightarrow> Inl e
     | Inr cur \<Rightarrow> Inr (page_of c limit (asset_listForOrg org (limit + 1) cur w)))"

subsection \<open>Selections\<close>

text \<open>\<^verbatim>\<open>ORDER BY random()\<close>: the order is an argument.\<close>

definition randomForEvent :: "(asset_row list \<Rightarrow> asset_row list) \<Rightarrow> uuid \<Rightarrow> nat \<Rightarrow> world \<Rightarrow> AssetListItem list" where
  "randomForEvent shuffle ev limit w =
     map (list_item w) (take limit (shuffle (filter (\<lambda>a. a_status a = AssetStatus_Processed
       \<and> file_key AssetFileType_Preview (a_id a) w \<noteq> None) (event_photos ev w))))"

definition listByIds :: "uuid \<Rightarrow> uuid list \<Rightarrow> world \<Rightarrow> AssetListItem list" where
  "listByIds ev ids w =
     (let rows = filter (\<lambda>a. a_id a \<in> set ids) (event_photos ev w)
      in map (list_item w) (somes (map (\<lambda>i. select_first (\<lambda>a. a_id a = i) rows) ids)))"

section \<open>Faces on a photo\<close>

record FaceRow =
  fw_face :: face_row
  fw_person :: "person_row option"
  fw_participantName :: "string option"

text \<open>
  Of the matches through a face the label takes one with a name before one without, then the closest.
\<close>

definition face_label :: "uuid \<Rightarrow> world \<Rightarrow> string option" where
  "face_label f w =
    (let cands = map (\<lambda>m. (map_option pt_name (select_first (\<lambda>p. pt_id p = m_participantId m \<and> pt_deletedAt p = None) (participants w)), m_distance m))
                   (filter (\<lambda>m. m_viaFaceId m = Some f) (participantMatches w))
     in case sort_key (\<lambda>(n, d). (\<not> present n, d)) cands of [] \<Rightarrow> None | (n, d) # _ \<Rightarrow> n)"

definition asset_getFaces :: "uuid \<Rightarrow> world \<Rightarrow> FaceRow list" where
  "asset_getFaces a w =
    map (\<lambda>f. \<lparr>fw_face = f,
        fw_person = (case f_personId f of None \<Rightarrow> None | Some i \<Rightarrow> select_first (\<lambda>p. p_id p = i) (persons w)),
        fw_participantName = face_label (f_id f) w\<rparr>)
      (sort_key f_id (filter (\<lambda>f. f_assetId f = a \<and> f_deletedAt f = None) (assetFaces w)))"

record FaceBox =
  fb_id :: uuid
  fb_personId :: "uuid option"
  fb_name :: string
  fb_x :: real
  fb_y :: real
  fb_width :: real
  fb_height :: real
  fb_isCover :: bool

definition clamp01 :: "real \<Rightarrow> real" where
  "clamp01 v = min (max v 0) 1"

definition trimmed :: "string option \<Rightarrow> string" where
  "trimmed s = (case s of None \<Rightarrow> '''' | Some t \<Rightarrow> js_trim t)"

definition face_box :: "FaceRow \<Rightarrow> FaceBox" where
  "face_box r =
    (let f = fw_face r;
         imageWidth = or_one (f_imageWidth f); imageHeight = or_one (f_imageHeight f);
         x1 = clamp01 (f_boundingBoxX1 f / imageWidth); y1 = clamp01 (f_boundingBoxY1 f / imageHeight);
         x2 = clamp01 (f_boundingBoxX2 f / imageWidth); y2 = clamp01 (f_boundingBoxY2 f / imageHeight);
         named = trimmed (map_option p_name (fw_person r));
         cover = Option.bind (fw_person r) p_faceAssetFaceId
     in \<lparr>fb_id = f_id f, fb_personId = f_personId f,
         fb_name = (if named \<noteq> '''' then named else trimmed (fw_participantName r)),
         fb_x = x1, fb_y = y1, fb_width = max 0 (x2 - x1), fb_height = max 0 (y2 - y1),
         fb_isCover = (present cover \<and> cover = Some (f_id f))\<rparr>)"

definition toFaceBoxes :: "FaceRow list \<Rightarrow> FaceBox list" where
  "toFaceBoxes rows =
    filter (\<lambda>b. fb_width b > 0 \<and> fb_height b > 0)
      (map face_box (filter (\<lambda>r. case fw_person r of None \<Rightarrow> True | Some p \<Rightarrow> \<not> p_isHidden p) rows))"

definition asset_getPeople :: "uuid \<Rightarrow> world \<Rightarrow> person_row list" where
  "asset_getPeople a w =
    filter (\<lambda>p. \<not> p_isHidden p \<and>
      (\<exists>f \<in> set (assetFaces w). f_assetId f = a \<and> f_deletedAt f = None \<and> f_personId f = Some (p_id p))) (persons w)"

record AssetDetail =
  ad_asset :: asset_row
  ad_files :: "AssetFileType list"
  ad_faces :: "FaceBox list"
  ad_people :: "PersonCard list"

definition asset_get :: "uuid \<Rightarrow> uuid \<Rightarrow> world \<Rightarrow> AssetDetail outcome" where
  "asset_get ev i w =
    (case asset_getById ev i w of
       None \<Rightarrow> Inl (NotFound ''Asset not found'')
     | Some a \<Rightarrow> Inr \<lparr>ad_asset = a,
         ad_files = map af_type (filter (\<lambda>f. af_assetId f = i) (assetFiles w)),
         ad_faces = toFaceBoxes (asset_getFaces i w),
         ad_people = map person_card (asset_getPeople i w)\<rparr>)"

definition streamPreview :: "uuid \<Rightarrow> uuid \<Rightarrow> world \<Rightarrow> string outcome" where
  "streamPreview ev i w =
    (case asset_getById ev i w of
       None \<Rightarrow> Inl (NotFound ''Asset not found'')
     | Some a \<Rightarrow>
        (case (file_key AssetFileType_Preview i w, file_key AssetFileType_Thumbnail i w) of
           (Some k, _) \<Rightarrow> Inr k
         | (None, Some k) \<Rightarrow> Inr k
         | (None, None) \<Rightarrow> Inl (NotFound ''No preview available yet'')))"

definition getDownloadUrl :: "uuid \<Rightarrow> uuid \<Rightarrow> world \<Rightarrow> (string \<times> string) outcome" where
  "getDownloadUrl ev i w =
    (case asset_getById ev i w of
       None \<Rightarrow> Inl (NotFound ''Asset not found'')
     | Some a \<Rightarrow> Inr (a_storageKey a, a_originalFilename a))"

section \<open>Zip downloads\<close>

definition word_char :: "char \<Rightarrow> bool" where
  "word_char c \<longleftrightarrow> (let n = (of_char c :: nat) in 48 \<le> n \<and> n \<le> 57 \<or> 65 \<le> n \<and> n \<le> 90 \<or> 97 \<le> n \<and> n \<le> 122 \<or> n = 95)"

definition safeName :: "string \<Rightarrow> string" where
  "safeName name =
    (let s = js_trim (filter (\<lambda>c. word_char c \<or> c = CHR ''-'' \<or> c = CHR '' '') name)
     in if s = '''' then ''photos'' else s)"

text \<open>\<^verbatim>\<open>lastIndexOf('.')\<close>, \<open>None\<close> for \<^verbatim>\<open>-1\<close>.\<close>

fun lastDot :: "string \<Rightarrow> nat option" where
  "lastDot [] = None"
| "lastDot (c # s) = (case lastDot s of Some i \<Rightarrow> Some (i + 1) | None \<Rightarrow> if c = CHR ''.'' then Some 0 else None)"

definition suffixed :: "string \<Rightarrow> nat \<Rightarrow> string" where
  "suffixed base counter =
    (case lastDot base of
       Some dot \<Rightarrow> if dot > 0 then take dot base @ '' ('' @ js_decimal counter @ '')'' @ drop dot base
                   else base @ '' ('' @ js_decimal counter @ '')''
     | None \<Rightarrow> base @ '' ('' @ js_decimal counter @ '')'')"

fun decimal_value :: "nat \<Rightarrow> string \<Rightarrow> nat" where
  "decimal_value v [] = v"
| "decimal_value v (c # s) = decimal_value (10 * v + (of_char c - 48)) s"

lemma decimal_value_append: "decimal_value v (s @ t) = decimal_value (decimal_value v s) t"
  by (induction v s rule: decimal_value.induct) simp_all

lemma decimal_value_digits: "decimal_value 0 (js_decimal n) = n"
proof (induction n rule: js_decimal.induct)
  case (1 n)
  have digit: "of_char (char_of (n mod 10 + 48) :: char) - 48 = n mod 10"
    by (simp add: of_char_of mod_less)
  show ?case
  proof (cases "n div 10 = 0")
    case True
    then have "n < 10" by auto
    with digit True show ?thesis by (subst js_decimal.simps) simp
  next
    case False
    then have "decimal_value 0 (js_decimal n) = 10 * (n div 10) + n mod 10"
      using 1 [OF False] digit by (subst js_decimal.simps) (simp add: decimal_value_append)
    then show ?thesis by simp
  qed
qed

lemma js_decimal_inject: "js_decimal m = js_decimal n \<longleftrightarrow> m = n"
  using decimal_value_digits by metis

lemma suffixed_inject: "suffixed base m = suffixed base n \<longleftrightarrow> m = n"
  by (auto simp: suffixed_def js_decimal_inject split: option.splits if_splits)

text \<open>The loop over the counter: it ends because only finitely many names are taken.\<close>

function freeName :: "string \<Rightarrow> string list \<Rightarrow> nat \<Rightarrow> string \<Rightarrow> string" where
  "freeName base used counter name =
    (if name \<in> set used then freeName base used (counter + 1) (suffixed base counter) else name)"
  by pat_completeness auto

lemma taken_above:
  "card (set used \<inter> suffixed base ` {n..}) =
    card (set used \<inter> suffixed base ` {Suc n..}) + (if suffixed base n \<in> set used then 1 else 0)"
proof -
  have split: "suffixed base ` {n..} = insert (suffixed base n) (suffixed base ` {Suc n..})"
    by (auto simp: image_iff) (metis Suc_leI atLeast_iff le_neq_implies_less)
  have new: "suffixed base n \<notin> suffixed base ` {Suc n..}" by (auto simp: suffixed_inject)
  show ?thesis
  proof (cases "suffixed base n \<in> set used")
    case True
    then have "set used \<inter> suffixed base ` {n..} = insert (suffixed base n) (set used \<inter> suffixed base ` {Suc n..})"
      by (auto simp: split)
    with True new show ?thesis by (simp add: card_insert_disjoint)
  next
    case False
    then have "set used \<inter> suffixed base ` {n..} = set used \<inter> suffixed base ` {Suc n..}" by (auto simp: split)
    with False show ?thesis by simp
  qed
qed

termination freeName
proof (relation "measure (\<lambda>(base, used, n, name). card (set used \<inter> suffixed base ` {n..}) + (if name \<in> set used then 1 else 0))")
  fix base :: string and used :: "string list" and n and name :: string assume "name \<in> set used"
  then show "((base, used, n + 1, suffixed base n), (base, used, n, name))
      \<in> measure (\<lambda>(base, used, n, name). card (set used \<inter> suffixed base ` {n..}) + (if name \<in> set used then 1 else 0))"
    using taken_above [of used base n] by simp
qed simp

declare freeName.simps [simp del]

fun zipEntries :: "uuid \<Rightarrow> uuid list \<Rightarrow> string list \<Rightarrow> world \<Rightarrow> (string \<times> string) list" where
  "zipEntries ev [] used w = []"
| "zipEntries ev (i # ids) used w =
    (case asset_getById ev i w of
       None \<Rightarrow> zipEntries ev ids used w
     | Some a \<Rightarrow>
        let name = freeName (a_originalFilename a) used 2 (a_originalFilename a)
        in (name, a_storageKey a) # zipEntries ev ids (name # used) w)"

definition streamZip :: "uuid \<Rightarrow> uuid list \<Rightarrow> world \<Rightarrow> string \<times> (string \<times> string) list" where
  "streamZip ev ids w =
    (safeName (case event_getById ev w of None \<Rightarrow> ''photos'' | Some e \<Rightarrow> e_name e) @ ''.zip'', zipEntries ev ids [] w)"

section \<open>Deleting and re-running\<close>

definition keys_of_asset :: "asset_row \<Rightarrow> world \<Rightarrow> string list" where
  "keys_of_asset a w = a_storageKey a # map af_storageKey (filter (\<lambda>f. af_assetId f = a_id a) (assetFiles w))"

definition deleteMany :: "uuid \<Rightarrow> uuid list \<Rightarrow> ms \<Rightarrow> world \<Rightarrow> nat \<times> world" where
  "deleteMany ev ids now w =
    (let (deleted, w1) = (if ids = [] then ([], w) else asset_softDeleteMany ev ids now w);
         keys = concat (map (\<lambda>a. keys_of_asset a w1) deleted)
     in (length deleted, if keys \<noteq> [] then queue (CleanupKeys keys) w1 else w1))"

datatype AssetJob = Job_thumbnails | Job_faceDetection | Job_facialRecognition

definition asset_setStatus :: "uuid \<Rightarrow> AssetStatus \<Rightarrow> world \<Rightarrow> world" where
  [repo_defs]: "asset_setStatus i st w = w\<lparr>assets := update_where (\<lambda>a. a_id a = i) (\<lambda>a. a\<lparr>a_status := st\<rparr>) (assets w)\<rparr>"

definition runJob :: "uuid \<Rightarrow> uuid \<Rightarrow> AssetJob \<Rightarrow> bool \<Rightarrow> world \<Rightarrow> unit outcome \<times> world" where
  "runJob ev i job force w =
    (case asset_getById ev i w of
       None \<Rightarrow> (Inl (NotFound ''Asset not found''), w)
     | Some a \<Rightarrow>
        let item = (case job of Job_thumbnails \<Rightarrow> AssetProcess i | Job_faceDetection \<Rightarrow> FaceDetect i
                    | Job_facialRecognition \<Rightarrow> FaceRecognizeQueueAll ev force);
            w1 = (if job = Job_thumbnails then asset_setStatus i AssetStatus_Stored w else w)
        in (Inr (), queue item w1))"

section \<open>Derivatives\<close>

definition upsertFile :: "assetfile_row \<Rightarrow> world \<Rightarrow> world" where
  [repo_defs]: "upsertFile f w =
     (let same = (\<lambda>g. af_assetId g = af_assetId f \<and> af_type g = af_type f)
      in w\<lparr>assetFiles := (if \<exists>g \<in> set (assetFiles w). same g
           then update_where same (\<lambda>g. g\<lparr>af_storageKey := af_storageKey f\<rparr>) (assetFiles w)
           else assetFiles w @ [f])\<rparr>)"

text \<open>
  What happens outside: reading the original (download, probing or decoding, a video's still frame), the
  capture date of its EXIF data, rendering both derivatives, and whether each put is accepted.
\<close>

record media_env =
  me_read_ok :: bool
  me_capturedAt :: "ms option"
  me_render_ok :: bool
  me_put_ok :: "string \<Rightarrow> bool"

definition put_ok :: "media_env \<Rightarrow> string \<Rightarrow> world \<Rightarrow> world" where
  "put_ok env k w = (if me_put_ok env k then putFile k w else w)"

definition handleAssetProcess :: "media_env \<Rightarrow> uuid \<Rightarrow> world \<Rightarrow> JobStatus \<times> world" where
  "handleAssetProcess env i w =
    (case asset_getByIdUnscoped i w of
       None \<Rightarrow> (JobStatus_Skipped, w)
     | Some asset \<Rightarrow>
        let failed = (\<lambda>v. (JobStatus_Failed, asset_setStatus i AssetStatus_Failed v));
            isVideo = (a_type asset = AssetType_Video)
        in if \<not> me_read_ok env then failed w
           else
        let w1 = (case (if isVideo then None else me_capturedAt env) of
                    None \<Rightarrow> w
                  | Some t \<Rightarrow> w\<lparr>assets := update_where (\<lambda>a. a_id a = i) (\<lambda>a. a\<lparr>a_capturedAt := Some t\<rparr>) (assets w)\<rparr>)
        in if \<not> me_render_ok env then failed w1
           else
        let previewKey = key_preview (a_orgId asset) (a_eventId asset) i;
            thumbKey = key_thumb (a_orgId asset) (a_eventId asset) i;
            w2 = put_ok env thumbKey (put_ok env previewKey w1)
        in if \<not> (me_put_ok env previewKey \<and> me_put_ok env thumbKey) then failed w2
           else
        let w3 = upsertFile \<lparr>af_assetId = i, af_type = AssetFileType_Preview, af_storageKey = previewKey\<rparr> w2;
            w4 = upsertFile \<lparr>af_assetId = i, af_type = AssetFileType_Thumbnail, af_storageKey = thumbKey\<rparr> w3;
            w5 = asset_setStatus i AssetStatus_Processed w4
        in (JobStatus_Success,
            queueAll ([FaceDetect i, SmartSearch i] @ (if isVideo then [VideoTranscode i] else [])) w5))"

definition handleVideoTranscode :: "media_env \<Rightarrow> uuid \<Rightarrow> world \<Rightarrow> JobStatus \<times> world" where
  "handleVideoTranscode env i w =
    (case asset_getByIdUnscoped i w of
       None \<Rightarrow> (JobStatus_Skipped, w)
     | Some asset \<Rightarrow>
        let videoKey = key_video (a_orgId asset) (a_eventId asset) i
        in if a_type asset \<noteq> AssetType_Video then (JobStatus_Skipped, w)
           else if \<not> (me_read_ok env \<and> me_render_ok env \<and> me_put_ok env videoKey) then (JobStatus_Failed, w)
           else (JobStatus_Success,
             upsertFile \<lparr>af_assetId = i, af_type = AssetFileType_EncodedVideo, af_storageKey = videoKey\<rparr> (putFile videoKey w)))"

end
