(* ===== verification/AssetPolicy.thy ===== *)
theory AssetPolicy
  imports Assets FacePolicy Upload
begin

text \<open>
  What the gallery promises: following the cursor lists every dated photo exactly once, newest first,
  and how photos without a capture date break it; zip entries never collide; face boxes stay on the
  image; derivatives are only recorded once they are stored.
\<close>

section \<open>Order and cursor\<close>

lemma mset_gallery_order [simp]: "mset (gallery_order as) = mset as"
  by (simp add: gallery_order_def)

lemma set_gallery_order [simp]: "set (gallery_order as) = set as"
  by (simp add: gallery_order_def)

lemma length_gallery_order [simp]: "length (gallery_order as) = length as"
  by (simp add: gallery_order_def)

lemma gallery_order_filter: "gallery_order (filter P as) = filter P (gallery_order as)"
  by (simp add: gallery_order_def rev_filter [symmetric] filter_sort)

lemma gallery_order_desc: "sorted_wrt (\<lambda>a b. gallery_key b \<le> gallery_key a) (gallery_order as)"
proof -
  have "sorted_wrt (\<lambda>a b. gallery_key a \<le> gallery_key b) (sort_key gallery_key as)"
    using sorted_sort_key [of gallery_key as] by (simp add: sorted_map)
  then show ?thesis by (simp add: gallery_order_def sorted_wrt_rev)
qed

lemma gallery_order_strict:
  assumes "distinct (map a_id as)"
  shows "sorted_wrt (\<lambda>a b. gallery_key b < gallery_key a) (gallery_order as)"
proof -
  have strict: "sorted_wrt (\<lambda>a b. gallery_key b \<le> gallery_key a) L \<Longrightarrow> distinct (map a_id L) \<Longrightarrow>
      sorted_wrt (\<lambda>a b. gallery_key b < gallery_key a) L" for L
  proof (induction L)
    case (Cons a L)
    have "gallery_key b < gallery_key a" if "b \<in> set L" for b
    proof -
      have "a_id b \<noteq> a_id a" using Cons.prems(2) that by (auto simp: image_iff)
      then have "gallery_key b \<noteq> gallery_key a" by (auto simp: gallery_key_def)
      moreover have "gallery_key b \<le> gallery_key a" using Cons.prems(1) that by simp
      ultimately show ?thesis by (simp add: less_le)
    qed
    with Cons show ?case by simp
  qed simp
  have "distinct (map a_id (gallery_order as))"
    using assms mset_eq_imp_distinct_iff [of "map a_id (gallery_order as)" "map a_id as"] by simp
  with gallery_order_desc show ?thesis by (rule strict)
qed

lemma filter_below:
  "sorted_wrt (\<lambda>a b. k b < k a) (pre @ c # X) \<Longrightarrow> filter (\<lambda>a. k a < (k c :: 'k :: linorder)) (pre @ c # X) = X"
  by (induction pre) (auto simp: sorted_wrt_append filter_empty_conv filter_id_conv)

lemma cursor_is_key:
  assumes "a_capturedAt a \<noteq> None" "a_capturedAt c \<noteq> None" "a_id c \<noteq> ''''"
  shows "after_cursor (Some (a_capturedAt c, Some (a_id c))) a \<longleftrightarrow> gallery_key a < gallery_key c"
  using assms by (auto simp: after_cursor_def captured_before_def gallery_key_def)

subsection \<open>Following the cursor\<close>

text \<open>A client that asks for the next page until there is none; at most \<open>n\<close> requests.\<close>

fun follow :: "cursor_codec \<Rightarrow> uuid \<Rightarrow> nat \<Rightarrow> FaceStatusFilter option \<Rightarrow> world \<Rightarrow> nat \<Rightarrow> string option \<Rightarrow> AssetListItem list option" where
  "follow c ev limit fs w 0 cursor = None"
| "follow c ev limit fs w (Suc n) cursor =
    (case asset_service_list c ev limit cursor fs w of
       Inl _ \<Rightarrow> None
     | Inr r \<Rightarrow>
        (case lr_nextCursor r of
           None \<Rightarrow> Some (lr_assets r)
         | Some next_cursor \<Rightarrow> map_option (\<lambda>rest. lr_assets r @ rest) (follow c ev limit fs w n (Some next_cursor))))"

abbreviation photos :: "uuid \<Rightarrow> FaceStatusFilter option \<Rightarrow> world \<Rightarrow> asset_row list" where
  "photos ev fs w \<equiv> filter (face_status_is fs) (event_photos ev w)"

definition cursor_for :: "cursor_codec \<Rightarrow> asset_row \<Rightarrow> string" where
  "cursor_for c a = cc_encode c (a_capturedAt a, a_id a)"

lemma list_rows:
  "asset_list ev n cur fs w = map (list_item w) (take n (filter (after_cursor cur) (gallery_order (photos ev fs w))))"
proof -
  have "filter (\<lambda>a. face_status_is fs a \<and> after_cursor cur a) (event_photos ev w) = filter (after_cursor cur) (photos ev fs w)"
    by (simp add: conj_commute)
  then show ?thesis by (simp add: asset_list_def gallery_order_filter)
qed

lemma page_of_rows:
  assumes "0 < limit"
  shows "page_of c limit (map (list_item w) (take (limit + 1) X)) =
    \<lparr>lr_assets = map (list_item w) (take limit X),
     lr_nextCursor = (if limit < length X then Some (cursor_for c (last (take limit X))) else None)\<rparr>"
proof (cases "limit < length X")
  case True
  then have "take limit X \<noteq> []" using assms by auto
  then have "last (map (list_item w) (take limit X)) = list_item w (last (take limit X))" by (simp add: last_map)
  with True \<open>take limit X \<noteq> []\<close> show ?thesis by (simp add: page_of_def take_map min_def cursor_for_def list_item_def)
qed (simp add: page_of_def Let_def)

lemma service_rows:
  assumes "cursor_ok c" "0 < limit"
  shows "asset_service_list c ev limit None fs w = Inr (page_of c limit (map (list_item w) (take (limit + 1) (gallery_order (photos ev fs w)))))"
    and "asset_service_list c ev limit (Some (cursor_for c a)) fs w = Inr (page_of c limit (map (list_item w)
           (take (limit + 1) (filter (after_cursor (Some (a_capturedAt a, Some (a_id a)))) (gallery_order (photos ev fs w))))))"
  using assms(1) by (simp_all add: asset_service_list_def decodeCursor_def list_rows after_cursor_def cursor_for_def cursor_ok_def)

text \<open>Where the walk is: nothing yet, or behind the last row of what was listed.\<close>

definition at_cursor :: "cursor_codec \<Rightarrow> asset_row list \<Rightarrow> string option \<Rightarrow> bool" where
  "at_cursor c pre cursor \<longleftrightarrow> cursor = (if pre = [] then None else Some (cursor_for c (last pre)))"

lemma rows_behind:
  assumes "cursor_ok c" "0 < limit" "gallery_order (photos ev fs w) = pre @ X" "at_cursor c pre cursor"
    and "distinct (map a_id (photos ev fs w))"
    and dated: "\<And>a. a \<in> set (photos ev fs w) \<Longrightarrow> a_capturedAt a \<noteq> None \<and> a_id a \<noteq> ''''"
  shows "asset_service_list c ev limit cursor fs w = Inr (page_of c limit (map (list_item w) (take (limit + 1) X)))"
proof (cases pre rule: rev_cases)
  case Nil
  with assms(3,4) service_rows(1) [OF assms(1,2)] show ?thesis by (simp add: at_cursor_def)
next
  case (snoc ys y)
  let ?L = "gallery_order (photos ev fs w)"
  have L: "?L = ys @ y # X" using assms(3) snoc by simp
  have all: "a_capturedAt a \<noteq> None" "a_id a \<noteq> ''''" if "a \<in> set ?L" for a using dated [of a] that by auto
  have y: "y \<in> set ?L" unfolding L by simp
  have "filter (after_cursor (Some (a_capturedAt y, Some (a_id y)))) ?L = filter (\<lambda>a. gallery_key a < gallery_key y) ?L"
    by (rule filter_cong [OF refl]) (rule cursor_is_key [OF all(1) all(1) [OF y] all(2) [OF y]])
  also have "\<dots> = X" using gallery_order_strict [OF assms(5)] unfolding L by (rule filter_below)
  finally show ?thesis using service_rows(2) [OF assms(1,2), of ev y fs w] assms(4) snoc by (simp add: at_cursor_def)
qed

lemma follow_all:
  assumes "cursor_ok c" "0 < limit" "distinct (map a_id (photos ev fs w))"
    and dated: "\<And>a. a \<in> set (photos ev fs w) \<Longrightarrow> a_capturedAt a \<noteq> None \<and> a_id a \<noteq> ''''"
  shows "gallery_order (photos ev fs w) = pre @ X \<Longrightarrow> at_cursor c pre cursor \<Longrightarrow> length X < n \<Longrightarrow>
    follow c ev limit fs w n cursor = Some (map (list_item w) X)"
proof (induction n arbitrary: pre X cursor)
  case (Suc n)
  note page = rows_behind [OF assms(1,2) Suc.prems(1,2) assms(3) dated] page_of_rows [OF assms(2), of c w X]
  show ?case
  proof (cases "limit < length X")
    case True
    let ?pre = "pre @ take limit X"
    have ne: "take limit X \<noteq> []" using True assms(2) by auto
    then have "at_cursor c ?pre (Some (cursor_for c (last (take limit X))))" by (simp add: at_cursor_def)
    moreover have "gallery_order (photos ev fs w) = ?pre @ drop limit X" using Suc.prems(1) by simp
    moreover have "length (drop limit X) < n" using Suc.prems(3) True assms(2) by simp
    ultimately have "follow c ev limit fs w n (Some (cursor_for c (last (take limit X)))) = Some (map (list_item w) (drop limit X))"
      by (intro Suc.IH)
    then show ?thesis using True page by (simp add: map_append [symmetric] del: map_append)
  qed (use page in simp)
qed simp


section \<open>Photos without a capture date\<close>

lemma undated_first:
  "sorted_wrt (\<lambda>a b. gallery_key b \<le> gallery_key a) L \<Longrightarrow>
    L = filter (\<lambda>a. a_capturedAt a = None) L @ filter (\<lambda>a. a_capturedAt a \<noteq> None) L"
proof (induction L)
  case (Cons a L)
  show ?case
  proof (cases "a_capturedAt a = None")
    case False
    then have "b \<in> set L \<Longrightarrow> a_capturedAt b \<noteq> None" for b using Cons.prems by (auto simp: gallery_key_def)
    then show ?thesis using False by (simp add: filter_empty_conv filter_id_conv)
  qed (use Cons in auto)
qed simp

text \<open>
  Photos without a capture date end the gallery: they are listed first, and the cursor behind an
  undated photo is compared as if it were dated 1970. As soon as a page ends with one, the next page is
  empty and has no cursor: the client sees one page of undated photos, and none of the dated photos.
\<close>

theorem undated_photos_hide_the_rest:
  assumes "cursor_ok c" "0 < limit" "limit \<le> length (filter (\<lambda>a. a_capturedAt a = None) (photos ev fs w))"
    "limit < length (photos ev fs w)"
    "\<And>a t. a \<in> set (photos ev fs w) \<Longrightarrow> a_capturedAt a = Some t \<Longrightarrow> 0 < t"
    "\<And>a. a \<in> set (photos ev fs w) \<Longrightarrow> a_id a \<noteq> ''''"
  shows "\<exists>rows. follow c ev limit fs w (n + 2) None = Some rows \<and> length rows = limit
    \<and> (\<forall>r \<in> set rows. a_capturedAt (li_asset r) = None)"
proof -
  let ?L = "gallery_order (photos ev fs w)"
  let ?U = "filter (\<lambda>a. a_capturedAt a = None) ?L"
  have L: "?L = ?U @ filter (\<lambda>a. a_capturedAt a \<noteq> None) ?L" by (rule undated_first [OF gallery_order_desc])
  have "length ?U = length (filter (\<lambda>a. a_capturedAt a = None) (photos ev fs w))"
    by (metis gallery_order_filter length_gallery_order)
  then have many: "limit \<le> length ?U" using assms(3) by simp
  then have first: "take limit ?L = take limit ?U" by (subst L) simp
  have ne: "take limit ?U \<noteq> []" using many assms(2) by auto
  define y where "y = last (take limit ?L)"
  have "y \<in> set ?U" using ne in_set_takeD last_in_set unfolding y_def first by metis
  then have y: "a_capturedAt y = None" "a_id y \<noteq> ''''" using assms(6) [of y] by simp_all
  have "\<not> after_cursor (Some (a_capturedAt y, Some (a_id y))) a" if "a \<in> set ?L" for a
    using that assms(5) [of a] y by (auto simp: after_cursor_def captured_before_def split: option.splits)
  then have none_left: "filter (after_cursor (Some (a_capturedAt y, Some (a_id y)))) ?L = []" by (simp add: filter_empty_conv)
  have "asset_service_list c ev limit None fs w =
      Inr \<lparr>lr_assets = map (list_item w) (take limit ?L), lr_nextCursor = Some (cursor_for c y)\<rparr>"
    using service_rows(1) [OF assms(1,2), of ev fs w] page_of_rows [OF assms(2), of c w ?L] assms(4) by (simp add: y_def)
  moreover have "asset_service_list c ev limit (Some (cursor_for c y)) fs w = Inr \<lparr>lr_assets = [], lr_nextCursor = None\<rparr>"
    using service_rows(2) [OF assms(1,2), of ev y fs w] page_of_rows [OF assms(2), of c w "[]"] none_left by simp
  ultimately have "follow c ev limit fs w (n + 2) None = Some (map (list_item w) (take limit ?L))" by simp
  moreover have "\<forall>r \<in> set (map (list_item w) (take limit ?L)). a_capturedAt (li_asset r) = None"
    by (auto simp: first list_item_def dest: in_set_takeD)
  ultimately show ?thesis using assms(4) by (intro exI [of _ "map (list_item w) (take limit ?L)"]) simp
qed

section \<open>Zip downloads\<close>

lemma freeName_fresh: "freeName base used n name \<notin> set used"
  by (induction base used n name rule: freeName.induct) (subst freeName.simps, simp)

lemma zipEntries_fresh: "distinct (map fst (zipEntries ev ids used w)) \<and> fst ` set (zipEntries ev ids used w) \<inter> set used = {}"
proof (induction ids arbitrary: used)
  case (Cons i ids)
  show ?case
  proof (cases "asset_getById ev i w")
    case (Some a)
    let ?name = "freeName (a_originalFilename a) used 2 (a_originalFilename a)"
    have "?name \<notin> set used" by (rule freeName_fresh)
    with Some Cons.IH [of "?name # used"] show ?thesis by (auto simp: Let_def)
  qed (use Cons in simp)
qed simp

text \<open>
  A zip never overwrites one of its own entries: the names of the entries are all different, however
  often a file name occurs, and the entries are the originals of exactly the requested photos that are
  live photos of this event, in the requested order.
\<close>

theorem zip_names_are_unique:
  "distinct (map fst (snd (streamZip ev ids w)))
    \<and> map snd (snd (streamZip ev ids w)) = map a_storageKey (somes (map (\<lambda>i. asset_getById ev i w) ids))"
proof -
  have "map snd (zipEntries ev ids used w) = map a_storageKey (somes (map (\<lambda>i. asset_getById ev i w) ids))" for used
    by (induction ids arbitrary: used) (simp_all add: Let_def split: option.splits)
  then show ?thesis using zipEntries_fresh by (simp add: streamZip_def)
qed

section \<open>Face boxes\<close>

lemma clamp01_range: "0 \<le> clamp01 v" "clamp01 v \<le> 1"
  by (simp_all add: clamp01_def)

text \<open>
  Every face box drawn over a photo lies on the photo: its corner and its far edge are fractions
  between 0 and 1 and it has a positive size, also for boxes that spill over the edge of the image.
\<close>

theorem face_boxes_stay_on_image:
  assumes "b \<in> set (toFaceBoxes rows)"
  shows "0 \<le> fb_x b \<and> 0 < fb_width b \<and> fb_x b + fb_width b \<le> 1 \<and> 0 \<le> fb_y b \<and> 0 < fb_height b \<and> fb_y b + fb_height b \<le> 1"
proof -
  obtain r where b: "b = face_box r" and pos: "0 < fb_width b" "0 < fb_height b"
    using assms by (auto simp: toFaceBoxes_def)
  have "fb_x b + fb_width b \<le> 1" "fb_y b + fb_height b \<le> 1" "0 \<le> fb_x b" "0 \<le> fb_y b"
    using clamp01_range unfolding b by (simp_all add: face_box_def Let_def max_def)
  with pos show ?thesis by simp
qed

section \<open>Derivatives are backed\<close>

definition files_backed :: "world \<Rightarrow> bool" where
  "files_backed w \<longleftrightarrow> (\<forall>f \<in> set (assetFiles w). af_storageKey f \<in> set (objects w))"

lemma objects_putFile: "set (objects (putFile k w)) = insert k (set (objects w))" "assetFiles (putFile k w) = assetFiles w"
  by (auto simp: putFile_def)

lemma files_backed_frame:
  "files_backed w \<Longrightarrow> assetFiles w' = assetFiles w \<Longrightarrow> set (objects w) \<subseteq> set (objects w') \<Longrightarrow> files_backed w'"
  by (auto simp: files_backed_def)

lemma files_backed_upsert: "files_backed w \<Longrightarrow> af_storageKey f \<in> set (objects w) \<Longrightarrow> files_backed (upsertFile f w)"
  by (auto simp: files_backed_def upsertFile_def Let_def set_update_where split: if_splits)

lemma upsertFile_objects [simp]: "objects (upsertFile f w) = objects w"
  by (simp add: upsertFile_def Let_def)

lemma set_status_frames [simp]:
  "objects (asset_setStatus i st w) = objects w" "assetFiles (asset_setStatus i st w) = assetFiles w"
  by (simp_all add: asset_setStatus_def)

lemma put_ok_facts:
  "set (objects w) \<subseteq> set (objects (put_ok env k w))" "assetFiles (put_ok env k w) = assetFiles w"
  "me_put_ok env k \<Longrightarrow> k \<in> set (objects (put_ok env k w))"
  by (auto simp: put_ok_def objects_putFile)

text \<open>How processing a photo can end.\<close>

lemma handleAssetProcess_ends:
  obtains (skipped) "handleAssetProcess env i w = (JobStatus_Skipped, w)"
  | (failed) v where "handleAssetProcess env i w = (JobStatus_Failed, asset_setStatus i AssetStatus_Failed v)"
      "assetFiles v = assetFiles w" "set (objects w) \<subseteq> set (objects v)"
  | (stored) v k k' js where "assetFiles v = assetFiles w" "set (objects w) \<subseteq> set (objects v)"
      "k \<in> set (objects v)" "k' \<in> set (objects v)"
      "handleAssetProcess env i w = (JobStatus_Success, queueAll js (asset_setStatus i AssetStatus_Processed
        (upsertFile \<lparr>af_assetId = i, af_type = AssetFileType_Thumbnail, af_storageKey = k'\<rparr>
          (upsertFile \<lparr>af_assetId = i, af_type = AssetFileType_Preview, af_storageKey = k\<rparr> v))))"
proof (cases "asset_getByIdUnscoped i w")
  case None
  then show thesis by (intro skipped) (simp add: handleAssetProcess_def)
next
  case (Some a)
  define w1 where "w1 = (case (if a_type a = AssetType_Video then None else me_capturedAt env) of
      None \<Rightarrow> w | Some t \<Rightarrow> w\<lparr>assets := update_where (\<lambda>a. a_id a = i) (\<lambda>a. a\<lparr>a_capturedAt := Some t\<rparr>) (assets w)\<rparr>)"
  let ?k = "key_preview (a_orgId a) (a_eventId a) i" and ?k' = "key_thumb (a_orgId a) (a_eventId a) i"
  let ?w2 = "put_ok env ?k' (put_ok env ?k w1)"
  have w1: "assetFiles w1 = assetFiles w" "objects w1 = objects w" by (simp_all add: w1_def split: option.splits)
  have w2: "assetFiles ?w2 = assetFiles w" "set (objects w) \<subseteq> set (objects ?w2)"
    using put_ok_facts(1) [of w1 env ?k] put_ok_facts(1) [of "put_ok env ?k w1" env ?k'] by (auto simp: put_ok_facts(2) w1)
  note run = handleAssetProcess_def [of env i w, unfolded Some option.case Let_def, folded w1_def]
  consider "\<not> me_read_ok env" | "me_read_ok env" "\<not> me_render_ok env" | "me_read_ok env" "me_render_ok env" "\<not> (me_put_ok env ?k \<and> me_put_ok env ?k')"
    | "me_read_ok env" "me_render_ok env" "me_put_ok env ?k" "me_put_ok env ?k'" by blast
  then show thesis
  proof cases
    case 1 then show ?thesis by (intro failed [of w]) (simp_all add: run)
  next
    case 2 then show ?thesis by (intro failed [of w1]) (simp_all add: run w1)
  next
    case 3 then show ?thesis by (intro failed [of ?w2]) (use w2 in \<open>simp_all add: run\<close>)
  next
    case 4
    then have "?k \<in> set (objects ?w2)" "?k' \<in> set (objects ?w2)"
      using put_ok_facts(1) [of "put_ok env ?k w1" env ?k'] put_ok_facts(3) by blast+
    with 4 w2 show ?thesis by (intro stored [of ?w2 ?k ?k']) (simp_all add: run)
  qed
qed

lemma file_key_upsert:
  "file_key t i (upsertFile f w) \<noteq> None \<longleftrightarrow> af_assetId f = i \<and> af_type f = t \<or> file_key t i w \<noteq> None"
proof -
  have known: "file_key t i v \<noteq> None \<longleftrightarrow> (\<exists>g \<in> set (assetFiles v). af_assetId g = i \<and> af_type g = t)" for v
    using select_first_None_iff [of "\<lambda>g. af_assetId g = i \<and> af_type g = t" "assetFiles v"] by (auto simp: file_key_def)
  have same: "(\<exists>g \<in> set (update_where q (\<lambda>g. g\<lparr>af_storageKey := k\<rparr>) fs). af_assetId g = i \<and> af_type g = t)
      \<longleftrightarrow> (\<exists>g \<in> set fs. af_assetId g = i \<and> af_type g = t)" for q k fs
    by (induction fs) auto
  show ?thesis unfolding known by (auto simp: upsertFile_def Let_def same)
qed

text \<open>
  A derivative is recorded only once its object is stored: neither processing a photo nor
  transcoding a video, whichever of its steps fails, leaves a file row without its object; and a
  processed photo has its preview and its thumbnail recorded.
\<close>

theorem derivatives_are_backed:
  assumes "files_backed w"
  shows "files_backed (snd (handleAssetProcess env i w)) \<and> files_backed (snd (handleVideoTranscode env i w))
    \<and> (fst (handleAssetProcess env i w) = JobStatus_Success \<longrightarrow>
      file_key AssetFileType_Preview i (snd (handleAssetProcess env i w)) \<noteq> None
      \<and> file_key AssetFileType_Thumbnail i (snd (handleAssetProcess env i w)) \<noteq> None)"
proof (rule conjI [OF _ conjI [OF _ impI]])
  have put: "files_backed (upsertFile f (putFile (af_storageKey f) w))" for f
    by (rule files_backed_upsert) (auto simp: objects_putFile intro: files_backed_frame [OF assms])
  from put [of "\<lparr>af_assetId = i, af_type = AssetFileType_EncodedVideo, af_storageKey = k\<rparr>" for k]
  show "files_backed (snd (handleVideoTranscode env i w))"
    using assms put by (simp add: handleVideoTranscode_def Let_def split: option.splits)
  have queue_frame: "files_backed (queueAll js v) = files_backed v" "file_key t i (queueAll js v) = file_key t i v" for js v t
    by (simp_all add: files_backed_def file_key_def queueAll_def)
  have status_frame: "files_backed (asset_setStatus i st v) = files_backed v" "file_key t i (asset_setStatus i st v) = file_key t i v" for v t st
    by (simp_all add: files_backed_def file_key_def)
  show "files_backed (snd (handleAssetProcess env i w))"
    by (rule handleAssetProcess_ends [of env i w])
      (simp_all add: assms queue_frame status_frame files_backed_frame [OF assms] files_backed_upsert)
  show "file_key AssetFileType_Preview i (snd (handleAssetProcess env i w)) \<noteq> None
      \<and> file_key AssetFileType_Thumbnail i (snd (handleAssetProcess env i w)) \<noteq> None"
    if "fst (handleAssetProcess env i w) = JobStatus_Success"
    by (rule handleAssetProcess_ends [of env i w]) (use that in \<open>simp_all add: queue_frame status_frame file_key_upsert del: not_None_eq\<close>)
qed

section \<open>A concrete gallery\<close>

text \<open>A codec by counting: the cursor's number in unary behind a mark.\<close>

definition wit_codec :: cursor_codec where
  "wit_codec = \<lparr>cc_encode = (\<lambda>x. CHR ''c'' # replicate (to_nat x) CHR ''x''),
     cc_decode = (\<lambda>s. Some (case from_nat (length s - 1) of (t, i) \<Rightarrow> (t, Some i)))\<rparr>"

lemma wit_codec_ok: "cursor_ok wit_codec"
  by (simp add: cursor_ok_def wit_codec_def)

definition wit_photo :: "uuid \<Rightarrow> ms option \<Rightarrow> asset_row" where
  "wit_photo i t = wit_asset\<lparr>a_id := i, a_capturedAt := t\<rparr>"

definition wit_gallery :: "ms option \<Rightarrow> world" where
  "wit_gallery t = empty_world\<lparr>assets := [wit_photo ''a1'' (Some 5), wit_photo ''a2'' t]\<rparr>"

lemma wit_gallery_photos: "photos ''e'' None (wit_gallery t) = [wit_photo ''a1'' (Some 5), wit_photo ''a2'' t]"
  by (simp add: wit_gallery_def event_photos_def wit_photo_def wit_asset_def)


theorem undated_photos_hide_the_rest_witness:
  "\<exists>rows. follow wit_codec ''e'' 1 None (wit_gallery None) (0 + 2) None = Some rows \<and> length rows = 1
    \<and> (\<forall>r \<in> set rows. a_capturedAt (li_asset r) = None)"
proof (rule undated_photos_hide_the_rest [OF wit_codec_ok])
  show "1 \<le> length (filter (\<lambda>a. a_capturedAt a = None) (photos ''e'' None (wit_gallery None)))"
    "1 < length (photos ''e'' None (wit_gallery None))"
    unfolding wit_gallery_photos by (simp_all add: wit_photo_def)
  show "0 < t" if "a \<in> set (photos ''e'' None (wit_gallery None))" "a_capturedAt a = Some t" for a t
    using that unfolding wit_gallery_photos by (auto simp: wit_photo_def)
  show "a_id a \<noteq> ''''" if "a \<in> set (photos ''e'' None (wit_gallery None))" for a
    using that unfolding wit_gallery_photos by (auto simp: wit_photo_def)
qed simp

theorem face_boxes_stay_on_image_witness:
  "fb_x (face_box \<lparr>fw_face = wit_lone, fw_person = None, fw_participantName = None\<rparr>)
    + fb_width (face_box \<lparr>fw_face = wit_lone, fw_person = None, fw_participantName = None\<rparr>) \<le> 1"
proof -
  let ?r = "\<lparr>fw_face = wit_lone, fw_person = None, fw_participantName = None\<rparr>"
  have "face_box ?r \<in> set (toFaceBoxes [?r])"
    by (simp add: toFaceBoxes_def face_box_def Let_def wit_lone_def wit_face_def clamp01_def or_one_def)
  from face_boxes_stay_on_image [OF this] show ?thesis by simp
qed

theorem derivatives_are_backed_witness:
  "files_backed (snd (handleAssetProcess \<lparr>me_read_ok = True, me_capturedAt = None, me_render_ok = True, me_put_ok = (\<lambda>_. True)\<rparr>
     ''a1'' (wit_gallery None)))"
proof -
  have "files_backed (wit_gallery None)" by (simp add: files_backed_def wit_gallery_def empty_world_def)
  from derivatives_are_backed [OF this] show ?thesis by blast
qed

end
