(* ===== verification/Jobs.thy ===== *)
theory Jobs
  imports Schema
begin

text \<open>
  \<^verbatim>\<open>repositories/job.repository.ts\<close>: which handler serves which job, which queues a process works on,
  how jobs are handed to BullMQ, and the reads behind the panels. BullMQ is not part of the repository:
  what is handed over is a list of calls, and what the library answers is an argument.
\<close>

section \<open>The registry\<close>

datatype JobName =
    JobName_AssetProcess | JobName_VideoTranscode | JobName_FaceDetect | JobName_FaceRecognize
  | JobName_FaceRecognizeQueueAll | JobName_SmartSearch | JobName_SmartSearchQueueAll
  | JobName_PersonThumbnail | JobName_SelfieProcess | JobName_ImportFolder | JobName_ImportFile
  | JobName_ParticipantRematch | JobName_ParticipantMatchSweep | JobName_SendSelfieReceived
  | JobName_SendGalleryEmail | JobName_SendDigest | JobName_SendNoFaceEmail | JobName_CleanupKeys
  | JobName_CleanupPrefix | JobName_SelfieRetentionSweep | JobName_StagingSweep | JobName_SessionCleanup
  | JobName_StorageReconcile | JobName_PersonCleanup | JobName_PersonNameBackfill
  | JobName_SendEventExpiry | JobName_EventExpirySweep | JobName_EventPurgeSweep
  | JobName_GpuLifecycleSweep | JobName_AuditRetentionSweep

definition all_jobs :: "JobName list" where
  "all_jobs =
    [JobName_AssetProcess, JobName_VideoTranscode, JobName_FaceDetect, JobName_FaceRecognize,
     JobName_FaceRecognizeQueueAll, JobName_SmartSearch, JobName_SmartSearchQueueAll,
     JobName_PersonThumbnail, JobName_SelfieProcess, JobName_ImportFolder, JobName_ImportFile,
     JobName_ParticipantRematch, JobName_ParticipantMatchSweep, JobName_SendSelfieReceived,
     JobName_SendGalleryEmail, JobName_SendDigest, JobName_SendNoFaceEmail, JobName_CleanupKeys,
     JobName_CleanupPrefix, JobName_SelfieRetentionSweep, JobName_StagingSweep, JobName_SessionCleanup,
     JobName_StorageReconcile, JobName_PersonCleanup, JobName_PersonNameBackfill,
     JobName_SendEventExpiry, JobName_EventExpirySweep, JobName_EventPurgeSweep,
     JobName_GpuLifecycleSweep, JobName_AuditRetentionSweep]"

fun name_of :: "JobItem \<Rightarrow> JobName" where
  "name_of (AssetProcess _) = JobName_AssetProcess"
| "name_of (VideoTranscode _) = JobName_VideoTranscode"
| "name_of (FaceDetect _) = JobName_FaceDetect"
| "name_of (FaceRecognize _ _) = JobName_FaceRecognize"
| "name_of (FaceRecognizeQueueAll _ _) = JobName_FaceRecognizeQueueAll"
| "name_of (SmartSearch _) = JobName_SmartSearch"
| "name_of (SmartSearchQueueAll _ _) = JobName_SmartSearchQueueAll"
| "name_of (PersonThumbnail _) = JobName_PersonThumbnail"
| "name_of (SelfieProcess _) = JobName_SelfieProcess"
| "name_of (ImportFolder _) = JobName_ImportFolder"
| "name_of (ImportFile _) = JobName_ImportFile"
| "name_of (ParticipantRematch _) = JobName_ParticipantRematch"
| "name_of ParticipantMatchSweep = JobName_ParticipantMatchSweep"
| "name_of (SendSelfieReceived _) = JobName_SendSelfieReceived"
| "name_of (SendGalleryEmail _) = JobName_SendGalleryEmail"
| "name_of (SendDigest _) = JobName_SendDigest"
| "name_of (SendNoFaceEmail _) = JobName_SendNoFaceEmail"
| "name_of (CleanupKeys _) = JobName_CleanupKeys"
| "name_of (CleanupPrefix _) = JobName_CleanupPrefix"
| "name_of SelfieRetentionSweep = JobName_SelfieRetentionSweep"
| "name_of StagingSweep = JobName_StagingSweep"
| "name_of SessionCleanup = JobName_SessionCleanup"
| "name_of StorageReconcile = JobName_StorageReconcile"
| "name_of PersonCleanup = JobName_PersonCleanup"
| "name_of PersonNameBackfill = JobName_PersonNameBackfill"
| "name_of (SendEventExpiry _) = JobName_SendEventExpiry"
| "name_of EventExpirySweep = JobName_EventExpirySweep"
| "name_of EventPurgeSweep = JobName_EventPurgeSweep"
| "name_of GpuLifecycleSweep = JobName_GpuLifecycleSweep"
| "name_of AuditRetentionSweep = JobName_AuditRetentionSweep"

text \<open>The \<^verbatim>\<open>@OnJob\<close> decorators of the services, in the order of \<^verbatim>\<open>services/index.ts\<close>.\<close>

type_synonym JobConfig = "JobName \<times> QueueName"

definition decorated :: "(string \<times> JobConfig list) list" where
  "decorated =
    [(''AdminService'', []), (''AssetService'', []),
     (''AuditLogService'', [(JobName_AuditRetentionSweep, QueueName_StorageCleanup)]),
     (''AuthService'', []), (''CipherService'', []),
     (''CleanupService'', [(JobName_CleanupKeys, QueueName_StorageCleanup), (JobName_CleanupPrefix, QueueName_StorageCleanup),
        (JobName_StagingSweep, QueueName_Background), (JobName_SessionCleanup, QueueName_Background),
        (JobName_StorageReconcile, QueueName_Background)]),
     (''CloudService'', []),
     (''EventExpiryService'', [(JobName_EventExpirySweep, QueueName_Background), (JobName_EventPurgeSweep, QueueName_StorageCleanup)]),
     (''EventService'', []),
     (''FaceService'', [(JobName_FaceDetect, QueueName_FaceDetection), (JobName_FaceRecognize, QueueName_FacialRecognition),
        (JobName_FaceRecognizeQueueAll, QueueName_FacialRecognition), (JobName_PersonCleanup, QueueName_Background),
        (JobName_PersonNameBackfill, QueueName_Background), (JobName_PersonThumbnail, QueueName_PersonThumbnail)]),
     (''SmartSearchService'', [(JobName_SmartSearch, QueueName_SmartSearch), (JobName_SmartSearchQueueAll, QueueName_SmartSearch)]),
     (''GalleryTokenService'', []),
     (''GpuLifecycleService'', [(JobName_GpuLifecycleSweep, QueueName_Background)]),
     (''ImportService'', [(JobName_ImportFolder, QueueName_Import), (JobName_ImportFile, QueueName_Import)]),
     (''MediaService'', [(JobName_AssetProcess, QueueName_MediaProcess), (JobName_VideoTranscode, QueueName_VideoTranscode)]),
     (''NotificationService'', [(JobName_SendSelfieReceived, QueueName_Notification), (JobName_SendGalleryEmail, QueueName_Notification),
        (JobName_SendDigest, QueueName_Notification), (JobName_SendNoFaceEmail, QueueName_Notification),
        (JobName_SendEventExpiry, QueueName_Notification)]),
     (''OrganizationService'', []),
     (''ParticipantService'', [(JobName_SelfieProcess, QueueName_Selfie), (JobName_ParticipantRematch, QueueName_Match),
        (JobName_ParticipantMatchSweep, QueueName_Match), (JobName_SelfieRetentionSweep, QueueName_StorageCleanup)]),
     (''PersonService'', []), (''PublicService'', []), (''QuotaService'', []), (''SelfieProgressService'', []),
     (''SupportService'', []), (''UploadService'', [])]"

datatype StartupError = DuplicateHandler string JobName | MissingHandler JobName

type_synonym handlers = "JobName \<rightharpoonup> string \<times> QueueName"

fun add_handlers :: "string \<Rightarrow> JobConfig list \<Rightarrow> handlers \<Rightarrow> StartupError + handlers" where
  "add_handlers service [] h = Inr h"
| "add_handlers service ((job, q) # cs) h =
    (case h job of
       Some _ \<Rightarrow> Inl (DuplicateHandler service job)
     | None \<Rightarrow> add_handlers service cs (h(job \<mapsto> (service, q))))"

fun discover :: "(string \<times> JobConfig list) list \<Rightarrow> handlers \<Rightarrow> StartupError + handlers" where
  "discover [] h = Inr h"
| "discover ((service, cs) # ss) h =
    (case add_handlers service cs h of Inl e \<Rightarrow> Inl e | Inr h' \<Rightarrow> discover ss h')"

definition registry_setup :: "(string \<times> JobConfig list) list \<Rightarrow> StartupError + handlers" where
  "registry_setup services =
    (case discover services Map.empty of
       Inl e \<Rightarrow> Inl e
     | Inr h \<Rightarrow> (case List.find (\<lambda>j. h j = None) all_jobs of Some j \<Rightarrow> Inl (MissingHandler j) | None \<Rightarrow> Inr h))"

text \<open>The registry after a successful start, and the queue a job goes to.\<close>

definition getQueueName :: "handlers \<Rightarrow> JobName \<Rightarrow> QueueName" where
  "getQueueName h job = snd (the (h job))"

section \<open>Workers\<close>

definition startWorkers :: "WorkerRole list \<Rightarrow> QueueName list \<Rightarrow> QueueName list \<Rightarrow> QueueName list" where
  "startWorkers workers includedQueues excludedQueues =
    filter (\<lambda>q. (QUEUE_ROLES q \<in> set workers \<or> q \<in> set includedQueues) \<and> q \<notin> set excludedQueues) all_queues"

definition run_job :: "handlers \<Rightarrow> (JobItem \<Rightarrow> JobStatus outcome) \<Rightarrow> JobItem \<Rightarrow> JobStatus outcome" where
  "run_job h handler item =
    (case h (name_of item) of
       None \<Rightarrow> Inr JobStatus_Skipped
     | Some _ \<Rightarrow>
        (case handler item of
           Inl e \<Rightarrow> Inl e
         | Inr st \<Rightarrow> if st = JobStatus_Failed then Inl (ServerError ''Job failed'') else Inr st))"

record cron =
  cr_queue :: QueueName
  cr_name :: JobItem
  cr_pattern :: string

definition crons :: "cron list" where
  "crons =
    [\<lparr>cr_queue = QueueName_Match, cr_name = ParticipantMatchSweep, cr_pattern = ''*/15 * * * *''\<rparr>,
     \<lparr>cr_queue = QueueName_Background, cr_name = StagingSweep, cr_pattern = ''0 * * * *''\<rparr>,
     \<lparr>cr_queue = QueueName_StorageCleanup, cr_name = SelfieRetentionSweep, cr_pattern = ''30 2 * * *''\<rparr>,
     \<lparr>cr_queue = QueueName_Background, cr_name = StorageReconcile, cr_pattern = ''0 3 * * *''\<rparr>,
     \<lparr>cr_queue = QueueName_Background, cr_name = SessionCleanup, cr_pattern = ''30 3 * * *''\<rparr>,
     \<lparr>cr_queue = QueueName_Background, cr_name = PersonCleanup, cr_pattern = ''0 4 * * *''\<rparr>,
     \<lparr>cr_queue = QueueName_Background, cr_name = EventExpirySweep, cr_pattern = ''5 * * * *''\<rparr>,
     \<lparr>cr_queue = QueueName_StorageCleanup, cr_name = EventPurgeSweep, cr_pattern = ''0 5 * * *''\<rparr>,
     \<lparr>cr_queue = QueueName_StorageCleanup, cr_name = AuditRetentionSweep, cr_pattern = ''10 4 * * *''\<rparr>,
     \<lparr>cr_queue = QueueName_Background, cr_name = GpuLifecycleSweep, cr_pattern = ''*/2 * * * *''\<rparr>]"

section \<open>Handing over jobs\<close>

record JobsOptions =
  jo_attempts :: nat
  jo_backoff :: ms
  jo_jobId :: "string option"
  jo_delay :: "ms option"
  jo_deduplication :: "string option"

definition getJobOptions :: "handlers \<Rightarrow> JobItem \<Rightarrow> JobsOptions" where
  "getJobOptions h item =
    (let retry = QUEUE_RETRY (getQueueName h (name_of item));
         base = \<lparr>jo_attempts = fst retry, jo_backoff = snd retry, jo_jobId = None, jo_delay = None, jo_deduplication = None\<rparr>
     in case item of
          ParticipantRematch ev \<Rightarrow> base\<lparr>jo_jobId := Some (''rematch-'' @ ev), jo_delay := Some 60000\<rparr>
        | SendDigest p \<Rightarrow> base\<lparr>jo_jobId := Some (''digest-'' @ p)\<rparr>
        | FaceRecognizeQueueAll ev _ \<Rightarrow> base\<lparr>jo_deduplication := Some (''queueall-'' @ ev)\<rparr>
        | _ \<Rightarrow> base)"

datatype bull_call = Add QueueName JobItem JobsOptions | AddBulk QueueName "(JobItem \<times> JobsOptions) list"

definition alone :: "JobsOptions \<Rightarrow> bool" where
  "alone opts \<longleftrightarrow> jo_jobId opts \<noteq> None \<or> jo_deduplication opts \<noteq> None \<or> jo_delay opts \<noteq> None"

text \<open>\<^verbatim>\<open>itemsByQueue\<close>: the queues in the order of their first item.\<close>

fun push_to :: "QueueName \<Rightarrow> JobItem \<times> JobsOptions \<Rightarrow> (QueueName \<times> (JobItem \<times> JobsOptions) list) list
    \<Rightarrow> (QueueName \<times> (JobItem \<times> JobsOptions) list) list" where
  "push_to q x [] = [(q, [x])]"
| "push_to q x ((q', xs) # qs) = (if q' = q then (q', xs @ [x]) # qs else (q', xs) # push_to q x qs)"

fun split_items :: "handlers \<Rightarrow> JobItem list \<Rightarrow> bull_call list \<Rightarrow> (QueueName \<times> (JobItem \<times> JobsOptions) list) list
    \<Rightarrow> bull_call list" where
  "split_items h [] promises itemsByQueue = promises @ map (\<lambda>(q, jobs). AddBulk q jobs) itemsByQueue"
| "split_items h (item # items) promises itemsByQueue =
    (let q = getQueueName h (name_of item); opts = getJobOptions h item
     in if alone opts then split_items h items (promises @ [Add q item opts]) itemsByQueue
        else split_items h items promises (push_to q (item, opts) itemsByQueue))"

definition queueAll_calls :: "handlers \<Rightarrow> JobItem list \<Rightarrow> bull_call list" where
  "queueAll_calls h items = split_items h items [] []"

section \<open>Reading the queues\<close>

text \<open>
  A job as BullMQ returns it; a list of jobs may have holes, where a job finished between the two reads.
\<close>

record bull_job =
  bj_item :: JobItem
  bj_timestamp :: ms
  bj_processedOn :: "ms option"

definition getOldestWaitingTimestamp :: "bull_job option list \<Rightarrow> ms option" where
  "getOldestWaitingTimestamp waiting =
    (case take 1 waiting of [Some job] \<Rightarrow> Some (bj_timestamp job) | _ \<Rightarrow> None)"

text \<open>\<^verbatim>\<open>findIndex\<close>, \<open>None\<close> for \<^verbatim>\<open>-1\<close>.\<close>

fun findIndex :: "('a \<Rightarrow> bool) \<Rightarrow> 'a list \<Rightarrow> nat option" where
  "findIndex p [] = None"
| "findIndex p (x # xs) = (if p x then Some 0 else map_option Suc (findIndex p xs))"

definition getWaitingPosition :: "(JobItem \<Rightarrow> bool) \<Rightarrow> nat \<Rightarrow> bull_job option list \<Rightarrow> nat option" where
  "getWaitingPosition match limit waiting =
    map_option Suc (findIndex (\<lambda>job. case job of None \<Rightarrow> False | Some j \<Rightarrow> match (bj_item j)) (take limit waiting))"

definition getOldestActiveTimestamp :: "bull_job option list \<Rightarrow> ms option" where
  "getOldestActiveTimestamp active =
    (let started = somes (map bj_processedOn (somes (take 51 active)))
     in if started = [] then None else Some (Min (set started)))"

definition getActiveJobs :: "nat \<Rightarrow> bull_job option list \<Rightarrow> (JobItem \<times> ms option) list" where
  "getActiveJobs limit active = map (\<lambda>j. (bj_item j, bj_processedOn j)) (somes (take limit active))"

text \<open>
  Both branches of the \<^verbatim>\<open>try\<close> count a job; a hole throws in either, and the second throw is not caught.
\<close>

fun killActive :: "bull_job option list \<Rightarrow> nat \<Rightarrow> nat outcome" where
  "killActive [] killed = Inr killed"
| "killActive (None # jobs) killed = Inl (ServerError ''Cannot read properties of undefined'')"
| "killActive (Some job # jobs) killed = killActive jobs (killed + 1)"

text \<open>The loop that polls the queues once a second; it may never end.\<close>

partial_function (option) waitForQueueCompletion :: "(nat \<Rightarrow> QueueName \<Rightarrow> bool) \<Rightarrow> QueueName list \<Rightarrow> nat \<Rightarrow> nat option" where
  "waitForQueueCompletion isActive queues t =
    (if filter (isActive t) queues = [] then Some t else waitForQueueCompletion isActive queues (t + 1))"

section \<open>The registry is complete\<close>

lemma all_jobs_complete [simp]: "set all_jobs = UNIV"
proof -
  have "j \<in> set all_jobs" for j by (cases j) (simp_all add: all_jobs_def)
  then show ?thesis by blast
qed

lemma all_jobs_distinct: "distinct all_jobs"
  by (simp add: all_jobs_def)

text \<open>Discovery on the flat list of decorators, each with its service.\<close>

definition configs :: "(string \<times> JobConfig list) list \<Rightarrow> (JobName \<times> string \<times> QueueName) list" where
  "configs services = concat (map (\<lambda>(service, cs). map (\<lambda>(j, q). (j, service, q)) cs) services)"

fun add_all :: "(JobName \<times> string \<times> QueueName) list \<Rightarrow> handlers \<Rightarrow> StartupError + handlers" where
  "add_all [] h = Inr h"
| "add_all ((j, service, q) # cs) h =
    (case h j of Some _ \<Rightarrow> Inl (DuplicateHandler service j) | None \<Rightarrow> add_all cs (h(j \<mapsto> (service, q))))"

lemma add_all_append: "add_all (xs @ ys) h = (case add_all xs h of Inl e \<Rightarrow> Inl e | Inr h' \<Rightarrow> add_all ys h')"
  by (induction xs arbitrary: h) (auto split: option.splits)

lemma add_handlers_flat: "add_handlers service cs h = add_all (map (\<lambda>(j, q). (j, service, q)) cs) h"
  by (induction cs arbitrary: h) (auto split: option.splits)

lemma discover_flat: "discover ss h = add_all (configs ss) h"
  by (induction ss h rule: discover.induct)
    (auto simp: configs_def add_handlers_flat add_all_append split: sum.splits)

lemma add_all_iff:
  "add_all cs h = Inr h' \<longleftrightarrow> distinct (map fst cs) \<and> (\<forall>j \<in> fst ` set cs. h j = None) \<and> h' = h ++ map_of cs"
proof (induction cs arbitrary: h)
  case (Cons c cs)
  obtain j service q where c: "c = (j, service, q)" by (cases c)
  show ?case
  proof (cases "h j")
    case None
    have comm: "j \<notin> fst ` set cs \<Longrightarrow> h(j \<mapsto> (service, q)) ++ map_of cs = h ++ map_of (c # cs)"
      by (simp add: c map_add_upd_left dom_map_of_conv_image_fst del: fun_upd_apply)
    have step: "add_all (c # cs) h = Inr h' \<longleftrightarrow> distinct (map fst cs)
        \<and> (\<forall>i \<in> fst ` set cs. (h(j \<mapsto> (service, q))) i = None) \<and> h' = h(j \<mapsto> (service, q)) ++ map_of cs"
    proof -
      have "add_all (c # cs) h = add_all cs (h(j \<mapsto> (service, q)))" using None by (simp add: c)
      then show ?thesis by (simp only: Cons.IH)
    qed
    show ?thesis
    proof (cases "j \<in> fst ` set cs")
      case True
      then show ?thesis unfolding step by (auto simp: c)
    next
      case False
      then have "(\<forall>i \<in> fst ` set cs. (h(j \<mapsto> (service, q))) i = None) \<longleftrightarrow> (\<forall>i \<in> fst ` set cs. h i = None)" by auto
      moreover have "distinct (map fst (c # cs)) \<longleftrightarrow> distinct (map fst cs)"
        "(\<forall>i \<in> fst ` set (c # cs). h i = None) \<longleftrightarrow> (\<forall>i \<in> fst ` set cs. h i = None)"
        using False None by (auto simp: c)
      ultimately show ?thesis unfolding step comm [OF False] by (simp only:)
    qed
  qed (simp add: c)
qed auto

lemma setup_ok:
  "registry_setup ss = Inr h \<longleftrightarrow>
    distinct (map fst (configs ss)) \<and> fst ` set (configs ss) = UNIV \<and> h = map_of (configs ss)"
proof -
  have "List.find (\<lambda>j. h j = None) all_jobs = None \<longleftrightarrow> dom h = UNIV" for h :: handlers
    by (simp add: find_None_iff set_eq_iff dom_def)
  then have "registry_setup ss = Inr h \<longleftrightarrow> discover ss Map.empty = Inr h \<and> dom h = UNIV"
    by (simp add: registry_setup_def split: sum.splits option.splits) (metis option.distinct(1))
  then show ?thesis by (simp add: discover_flat add_all_iff) (metis dom_map_of_conv_image_fst)
qed

text \<open>
  The process starts exactly when every job has exactly one handler: a job decorated twice, or not at
  all, is refused at startup, and nothing else is.
\<close>

theorem startup_iff_one_handler_per_job:
  "(\<exists>h. registry_setup services = Inr h) \<longleftrightarrow> mset (map fst (configs services)) = mset all_jobs"
proof
  assume "\<exists>h. registry_setup services = Inr h"
  then have "distinct (map fst (configs services))" "set (map fst (configs services)) = set all_jobs"
    by (auto simp: setup_ok)
  then show "mset (map fst (configs services)) = mset all_jobs"
    using all_jobs_distinct set_eq_iff_mset_eq_distinct by blast
next
  assume "mset (map fst (configs services)) = mset all_jobs"
  then have "distinct (map fst (configs services))" "set (map fst (configs services)) = set all_jobs"
    using all_jobs_distinct mset_eq_imp_distinct_iff mset_eq_setD by blast+
  then show "\<exists>h. registry_setup services = Inr h" by (auto simp: setup_ok)
qed

definition registry :: handlers where
  "registry = map_of (configs decorated)"

lemma decorators_register: "registry_setup decorated = Inr registry"
proof -
  have names: "mset (map fst (configs decorated)) = mset all_jobs" by (simp add: configs_def decorated_def all_jobs_def)
  have "distinct (map fst (configs decorated))" "set (map fst (configs decorated)) = set all_jobs"
    using names all_jobs_distinct mset_eq_imp_distinct_iff mset_eq_setD by blast+
  then show ?thesis by (simp add: setup_ok registry_def)
qed

text \<open>
  C13. Every job has a home: with the decorators of the services the process starts, each job that a
  service can queue is dispatched to a handler, and each cron job is scheduled on the queue of its handler.
\<close>

theorem every_job_has_a_home:
  "registry_setup decorated = Inr registry \<and> (\<forall>item. registry (name_of item) \<noteq> None)
    \<and> list_all (\<lambda>c. getQueueName registry (name_of (cr_name c)) = cr_queue c) crons"
proof (intro conjI)
  have "fst ` set (configs decorated) = UNIV" using decorators_register by (simp add: setup_ok)
  then have "dom registry = UNIV" by (simp add: registry_def dom_map_of_conv_image_fst)
  then show "\<forall>item. registry (name_of item) \<noteq> None" by (simp add: set_eq_iff dom_def)
  show "list_all (\<lambda>c. getQueueName registry (name_of (cr_name c)) = cr_queue c) crons"
    by (simp add: crons_def getQueueName_def registry_def configs_def decorated_def)
qed (rule decorators_register)

section \<open>Every job is handed over once\<close>

text \<open>What a list of calls submits: queue, job and options.\<close>

fun submissions :: "bull_call \<Rightarrow> (QueueName \<times> JobItem \<times> JobsOptions) list" where
  "submissions (Add q item opts) = [(q, item, opts)]"
| "submissions (AddBulk q jobs) = map (\<lambda>job. (q, job)) jobs"

definition submitted :: "bull_call list \<Rightarrow> (QueueName \<times> JobItem \<times> JobsOptions) list" where
  "submitted calls = concat (map submissions calls)"

definition bulk :: "(QueueName \<times> (JobItem \<times> JobsOptions) list) list \<Rightarrow> bull_call list" where
  "bulk qs = map (\<lambda>(q, jobs). AddBulk q jobs) qs"

lemma submitted_push: "mset (submitted (bulk (push_to q x qs))) = add_mset (q, x) (mset (submitted (bulk qs)))"
  by (induction q x qs rule: push_to.induct) (auto simp: submitted_def bulk_def)

text \<open>No bulk call carries a job with an id, a deduplication key or a delay.\<close>

definition bulk_plain :: "bull_call list \<Rightarrow> bool" where
  "bulk_plain calls \<longleftrightarrow> (\<forall>q jobs. AddBulk q jobs \<in> set calls \<longrightarrow> (\<forall>x \<in> set jobs. \<not> alone (snd x)))"

lemma bulk_plain_simps [simp]:
  "bulk_plain []" "bulk_plain (Add q item opts # cs) = bulk_plain cs"
  "bulk_plain (AddBulk q jobs # cs) \<longleftrightarrow> (\<forall>x \<in> set jobs. \<not> alone (snd x)) \<and> bulk_plain cs"
  by (auto simp: bulk_plain_def)

lemma bulk_plain_append [simp]: "bulk_plain (cs @ ds) \<longleftrightarrow> bulk_plain cs \<and> bulk_plain ds"
  unfolding bulk_plain_def set_append by blast

lemma bulk_plain_push: "bulk_plain (bulk (push_to q x qs)) \<longleftrightarrow> \<not> alone (snd x) \<and> bulk_plain (bulk qs)"
  by (induction q x qs rule: push_to.induct) (auto simp: bulk_def)

text \<open>The submission of one item.\<close>

definition submission :: "handlers \<Rightarrow> JobItem \<Rightarrow> QueueName \<times> JobItem \<times> JobsOptions" where
  "submission h item = (getQueueName h (name_of item), item, getJobOptions h item)"

lemma split_items_submits:
  "mset (submitted (split_items h items promises qs)) =
    mset (submitted promises) + mset (submitted (bulk qs)) + mset (map (submission h) items)"
proof (induction h items promises qs rule: split_items.induct)
  case (1 h promises qs)
  show ?case by (simp add: submitted_def bulk_def)
next
  case (2 h item items promises qs)
  let ?q = "getQueueName h (name_of item)" and ?o = "getJobOptions h item"
  show ?case
  proof (cases "alone ?o")
    case True
    have "submitted (promises @ [Add ?q item ?o]) = submitted promises @ [submission h item]"
      by (simp add: submitted_def submission_def)
    with True 2(1) [OF refl refl] show ?thesis by (simp add: Let_def)
  next
    case False
    with 2(2) [OF refl refl] show ?thesis by (simp add: Let_def submitted_push submission_def)
  qed
qed

lemma split_items_alone:
  "bulk_plain promises \<Longrightarrow> bulk_plain (bulk qs) \<Longrightarrow> bulk_plain (split_items h items promises qs)"
proof (induction h items promises qs rule: split_items.induct)
  case (1 h promises qs)
  then show ?case by (simp add: bulk_def)
next
  case (2 h item items promises qs)
  show ?case
  proof (cases "alone (getJobOptions h item)")
    case True
    with 2(1) [OF refl refl] 2(3,4) show ?thesis by (simp add: Let_def)
  next
    case False
    with 2(2) [OF refl refl] 2(3,4) show ?thesis by (simp add: Let_def bulk_plain_push)
  qed
qed

text \<open>
  C12. Handing over refines the plain queue: whatever mixture of jobs a service queues, each is submitted
  exactly once, to the queue of its handler and with its own options, and nothing else is submitted; a
  job whose options carry an id, a deduplication key or a delay is never part of a bulk call, where they
  would have no effect.
\<close>

theorem queueAll_submits_each_job_once:
  "mset (submitted (queueAll_calls h items)) = mset (map (submission h) items)
    \<and> bulk_plain (queueAll_calls h items)"
  using split_items_submits [of h items "[]" "[]"] split_items_alone [of "[]" "[]" h items]
  by (simp add: queueAll_calls_def submitted_def bulk_def)

section \<open>Waiting and killing\<close>

text \<open>
  The wait returns exactly when the queues are all idle at some poll, and then at the first such poll;
  otherwise it polls forever.
\<close>

theorem waiting_ends_at_first_idle_poll:
  "waitForQueueCompletion isActive queues t = Some t' \<longleftrightarrow>
    t \<le> t' \<and> (\<forall>q \<in> set queues. \<not> isActive t' q) \<and> (\<forall>s. t \<le> s \<and> s < t' \<longrightarrow> (\<exists>q \<in> set queues. isActive s q))"
proof
  assume returned: "waitForQueueCompletion isActive queues t = Some t'"
  show "t \<le> t' \<and> (\<forall>q \<in> set queues. \<not> isActive t' q) \<and> (\<forall>s. t \<le> s \<and> s < t' \<longrightarrow> (\<exists>q \<in> set queues. isActive s q))"
  proof (rule waitForQueueCompletion.raw_induct [OF _ returned])
    fix wait :: "(nat \<Rightarrow> QueueName \<Rightarrow> bool) \<Rightarrow> QueueName list \<Rightarrow> nat \<Rightarrow> nat option" and isActive queues t t'
    assume IH: "\<And>isActive queues t t'. wait isActive queues t = Some t' \<Longrightarrow>
        t \<le> t' \<and> (\<forall>q \<in> set queues. \<not> isActive t' q) \<and> (\<forall>s. t \<le> s \<and> s < t' \<longrightarrow> (\<exists>q \<in> set queues. isActive s q))"
      and step: "(if filter (isActive t) queues = [] then Some t else wait isActive queues (t + 1)) = Some t'"
    show "t \<le> t' \<and> (\<forall>q \<in> set queues. \<not> isActive t' q) \<and> (\<forall>s. t \<le> s \<and> s < t' \<longrightarrow> (\<exists>q \<in> set queues. isActive s q))"
    proof (cases "filter (isActive t) queues = []")
      case True
      with step show ?thesis by (auto simp: filter_empty_conv)
    next
      case False
      then obtain q where q: "q \<in> set queues" "isActive t q" by (auto simp: filter_empty_conv)
      have "\<exists>q \<in> set queues. isActive s q" if "t \<le> s" "s < t'" for s
        using IH [of isActive queues "t + 1" t'] step False q that by (cases "s = t") auto
      with IH [of isActive queues "t + 1" t'] step False show ?thesis by auto
    qed
  qed
next
  assume "t \<le> t' \<and> (\<forall>q \<in> set queues. \<not> isActive t' q) \<and> (\<forall>s. t \<le> s \<and> s < t' \<longrightarrow> (\<exists>q \<in> set queues. isActive s q))"
  then show "waitForQueueCompletion isActive queues t = Some t'"
  proof (induction "t' - t" arbitrary: t)
    case 0
    then have "t = t'" by simp
    with 0 show ?case by (subst waitForQueueCompletion.simps) (simp add: filter_empty_conv)
  next
    case (Suc n)
    then have "filter (isActive t) queues \<noteq> []" by (auto simp: filter_empty_conv)
    moreover have "waitForQueueCompletion isActive queues (t + 1) = Some t'" using Suc(2,3) by (intro Suc(1)) auto
    ultimately show ?case by (subst waitForQueueCompletion.simps) simp
  qed
qed

theorem waiting_ends_at_first_idle_poll_witness:
  "waitForQueueCompletion (\<lambda>t q. t < 3) [QueueName_Import] 1 = Some 3"
  unfolding waiting_ends_at_first_idle_poll by simp

text \<open>
  Killing the active jobs of a queue counts every job, unless the list has a hole where a job finished
  in the meantime: then the loop throws at the hole and leaves the jobs behind it running.
\<close>

theorem kill_stops_at_hole:
  "killActive jobs killed =
    (if None \<in> set jobs then Inl (ServerError ''Cannot read properties of undefined'') else Inr (killed + length jobs))"
  by (induction jobs killed rule: killActive.induct) auto

end
