(* ===== verification/SelfieProgress.thy ===== *)
theory SelfieProgress
  imports Jobs ParticipantPolicy GpuLifecycle
begin

text \<open>
  \<^verbatim>\<open>services/selfie-progress.service.ts\<close>: the ticket a guest gets for a submitted selfie and what the
  page shows for it. The waiting jobs of the selfie queue and the completed counts of the last fifteen
  minutes, as the queue reports them, are arguments; the ticket is encrypted with the cipher of \<open>Cloud\<close>.
\<close>

definition LIVE_MODE_MAX_PENDING :: int where "LIVE_MODE_MAX_PENDING = 100"
definition TICKET_TTL_MS :: ms where "TICKET_TTL_MS = 30 * 60 * 1000"
definition DEFAULT_SECONDS_PER_SELFIE :: real where "DEFAULT_SECONDS_PER_SELFIE = 25"

text \<open>The decoded payload; a field that is missing or of another type is \<open>None\<close>.\<close>

record TicketPayload =
  tp_p :: "string option"
  tp_exp :: "ms option"

datatype SelfieProgress = Progress_email | Progress_live ParticipantStatus "nat option" "int option" nat

record progress_env =
  pe_cipher :: "TicketPayload cipher"
  pe_gpu :: gpu_env
  pe_selfiesRunHere :: bool
  pe_waiting :: "bull_job option list"
  pe_completed :: "nat list"

definition issueTicket :: "TicketPayload cipher \<Rightarrow> uuid \<Rightarrow> ms \<Rightarrow> string" where
  "issueTicket c i now = encryptState c \<lparr>tp_p = Some i, tp_exp = Some (now + TICKET_TTL_MS)\<rparr>"

definition estimateSeconds :: "nat list \<Rightarrow> nat option \<Rightarrow> int" where
  "estimateSeconds completed position =
    (let ahead = (case position of None \<Rightarrow> 0 | Some p \<Rightarrow> int p - 1);
         total_completed = sum_list completed;
         secondsPerJob = (if total_completed > 0 then 15 * 60 / real total_completed
                          else DEFAULT_SECONDS_PER_SELFIE / real (QUEUE_CONCURRENCY QueueName_Selfie))
     in max 5 (js_round (real_of_int (ahead + 1) * secondsPerJob)))"

definition is_selfie_of :: "uuid \<Rightarrow> JobItem \<Rightarrow> bool" where
  "is_selfie_of i item \<longleftrightarrow> item = SelfieProcess i"

definition getProgress :: "progress_env \<Rightarrow> string \<Rightarrow> ms \<Rightarrow> gpu_sys \<Rightarrow> SelfieProgress \<times> gpu_sys" where
  "getProgress env ticket now s =
    (case decryptState (pe_cipher env) ticket of
       None \<Rightarrow> (Progress_email, s)
     | Some payload \<Rightarrow>
    (case (tp_p payload, tp_exp payload) of
       (Some i, Some e) \<Rightarrow>
        if i = '''' \<or> e < now then (Progress_email, s)
        else
    (case participant_getById i (gy_world s) of
       None \<Rightarrow> (Progress_email, s)
     | Some p \<Rightarrow>
        if pt_status p \<noteq> ParticipantStatus_Processing
        then (Progress_live (pt_status p) None None (countMatches (pt_id p) None (gy_world s)), s)
        else
        let (busy, s1) =
              (if pe_selfiesRunHere env then (False, s)
               else let (status, s1) = gpu_getStatus (pe_gpu env) now s
                    in (\<not> gst_workerOnline status \<or> gst_pending status > LIVE_MODE_MAX_PENDING, s1))
        in if busy then (Progress_email, s1)
           else let position = getWaitingPosition (is_selfie_of (pt_id p)) 100 (pe_waiting env)
                in (Progress_live (pt_status p) position (Some (estimateSeconds (pe_completed env) position)) 0, s1))
     | _ \<Rightarrow> (Progress_email, s)))"

section \<open>The ticket\<close>

text \<open>A known and live participant behind the ticket.\<close>

lemma getProgress_of_ticket:
  assumes "cipher_ok (pe_cipher env)" "i \<noteq> ''''"
  shows "getProgress env (issueTicket (pe_cipher env) i t) now s =
    (if t + TICKET_TTL_MS < now then (Progress_email, s)
     else (case participant_getById i (gy_world s) of
       None \<Rightarrow> (Progress_email, s)
     | Some p \<Rightarrow>
        if pt_status p \<noteq> ParticipantStatus_Processing
        then (Progress_live (pt_status p) None None (countMatches (pt_id p) None (gy_world s)), s)
        else
        let (busy, s1) =
              (if pe_selfiesRunHere env then (False, s)
               else let (status, s1) = gpu_getStatus (pe_gpu env) now s
                    in (\<not> gst_workerOnline status \<or> gst_pending status > LIVE_MODE_MAX_PENDING, s1))
        in if busy then (Progress_email, s1)
           else let position = getWaitingPosition (is_selfie_of (pt_id p)) 100 (pe_waiting env)
                in (Progress_live (pt_status p) position (Some (estimateSeconds (pe_completed env) position)) 0, s1)))"
  using assms by (simp add: getProgress_def issueTicket_def decrypt_encryptState)

text \<open>
  A ticket answers for its guest: within thirty minutes of the submission it reports the outcome of
  that guest as soon as there is one, with the number of matched photos; afterwards, and for a guest who
  was deleted, it says no more than "check your mail".
\<close>

theorem ticket_reports_its_guest:
  assumes "cipher_ok (pe_cipher env)" "i \<noteq> ''''" "t \<le> now"
  shows "fst (getProgress env (issueTicket (pe_cipher env) i t) now s) =
     Progress_live st None None k \<and> st \<noteq> ParticipantStatus_Processing
    \<longleftrightarrow> now \<le> t + TICKET_TTL_MS \<and> st \<noteq> ParticipantStatus_Processing \<and> k = countMatches i None (gy_world s)
      \<and> map_option pt_status (participant_getById i (gy_world s)) = Some st"
proof -
  have own: "pt_id p = i" if "participant_getById i (gy_world s) = Some p" for p
    using that by (auto simp: participant_getById_def dest: select_first_SomeD)
  show ?thesis unfolding getProgress_of_ticket [OF assms(1,2)]
    by (auto simp: Let_def split_beta own split: option.splits if_splits)
qed

section \<open>The estimate\<close>

text \<open>
  The estimate is at least five seconds, and nobody further back in the queue is promised an earlier
  end.
\<close>

theorem estimate_is_monotone:
  assumes "1 \<le> p" "p \<le> q"
  shows "5 \<le> estimateSeconds completed (Some p) \<and> estimateSeconds completed (Some p) \<le> estimateSeconds completed (Some q)"
proof -
  let ?s = "if sum_list completed > 0 then 15 * 60 / real (sum_list completed)
            else DEFAULT_SECONDS_PER_SELFIE / real (QUEUE_CONCURRENCY QueueName_Selfie)"
  have "0 \<le> ?s" by (simp add: DEFAULT_SECONDS_PER_SELFIE_def)
  then have "real p * ?s \<le> real q * ?s" using assms(2) by (intro mult_right_mono) auto
  then have "js_round (real p * ?s) \<le> js_round (real q * ?s)" unfolding js_round_def by (intro floor_mono) simp
  then show ?thesis by (simp add: estimateSeconds_def Let_def)
qed

section \<open>The position\<close>

lemma findIndex_Some_iff:
  "findIndex P xs = Some n \<longleftrightarrow> n < length xs \<and> P (xs ! n) \<and> (\<forall>m < n. \<not> P (xs ! m))"
proof (induction xs arbitrary: n)
  case (Cons x xs)
  show ?case by (cases n) (auto simp: Cons.IH less_Suc_eq_0_disj)
qed simp

lemma findIndex_take: "findIndex P (take k xs) = (case findIndex P xs of None \<Rightarrow> None | Some n \<Rightarrow> if n < k then Some n else None)"
proof (induction xs arbitrary: k)
  case (Cons x xs)
  show ?case by (cases k) (auto simp: Cons.IH split: option.splits)
qed simp

definition waiting_place :: "uuid \<Rightarrow> bull_job option list \<Rightarrow> nat option" where
  "waiting_place i waiting = findIndex (\<lambda>job. case job of None \<Rightarrow> False | Some j \<Rightarrow> is_selfie_of i (bj_item j)) waiting"

lemma position_of_place:
  "getWaitingPosition (is_selfie_of i) 100 waiting =
    (case waiting_place i waiting of None \<Rightarrow> None | Some n \<Rightarrow> if n < 100 then Some (Suc n) else None)"
  by (simp add: getWaitingPosition_def waiting_place_def findIndex_take split: option.splits)

lemma waiting_place_less: "waiting_place i waiting = Some n \<Longrightarrow> n < length waiting"
  by (simp add: waiting_place_def findIndex_Some_iff)

text \<open>Job counts as Redis keeps them: not negative, and the waiting count is the length of the waiting list.\<close>

definition counts_consistent :: "gpu_env \<Rightarrow> bull_job option list \<Rightarrow> bool" where
  "counts_consistent env waiting \<longleftrightarrow>
    (\<forall>q. 0 \<le> jc_waiting (ge_counts env q) \<and> 0 \<le> jc_active (ge_counts env q) \<and> 0 \<le> jc_delayed (ge_counts env q))
    \<and> jc_waiting (ge_counts env QueueName_Selfie) = int (length waiting)"

lemma pending_bounds_selfies:
  assumes "counts_consistent env waiting"
  shows "int (length waiting) \<le> pending_of (getQueueSummary env now)"
proof -
  let ?f = "\<lambda>q. gq_waiting (queue_summary env now q) + gq_liveActive (queue_summary env now q) + gq_delayed (queue_summary env now q)"
  have each: "0 \<le> ?f q" "jc_waiting (ge_counts env q) \<le> ?f q" for q
    using assms by (auto simp: counts_consistent_def queue_summary_def Let_def)
  have "QueueName_Selfie \<in> set GPU_QUEUES" by (simp add: GPU_QUEUES_def)
  then have "?f QueueName_Selfie \<le> sum_list (map ?f GPU_QUEUES)"
    by (intro member_le_sum_list) (auto simp: each(1))
  with each(2) [of QueueName_Selfie] assms show ?thesis
    by (simp add: pending_of_def getQueueSummary_def comp_def counts_consistent_def)
qed

text \<open>
  The gate keeps positions exact: where selfies run on the GPU box, a live answer gives the guest's true
  place in the waiting list, or none exactly when the selfie is not waiting; the limit on the scan never
  cuts it off, because a longer queue is answered by mail.
\<close>

theorem gated_position_is_exact:
  assumes "cipher_ok (pe_cipher env)" "i \<noteq> ''''" "\<not> pe_selfiesRunHere env"
    and "counts_consistent (pe_gpu env) (pe_waiting env)"
    and "fst (getProgress env (issueTicket (pe_cipher env) i t) now s) = Progress_live ParticipantStatus_Processing position eta k"
  shows "position = map_option Suc (waiting_place i (pe_waiting env))"
proof -
  from assms(3,5) obtain p where p: "participant_getById i (gy_world s) = Some p"
      and few: "pending_of (getQueueSummary (pe_gpu env) now) \<le> 100"
      and pos: "position = getWaitingPosition (is_selfie_of (pt_id p)) 100 (pe_waiting env)"
    unfolding getProgress_of_ticket [OF assms(1,2)]
    by (auto simp: Let_def split_beta gpu_getStatus_def LIVE_MODE_MAX_PENDING_def split: option.splits if_splits)
  have "pt_id p = i" using p by (auto simp: participant_getById_def dest: select_first_SomeD)
  moreover have "length (pe_waiting env) \<le> 100" using pending_bounds_selfies [OF assms(4), of now] few by simp
  ultimately show ?thesis unfolding pos position_of_place
    using waiting_place_less [of i "pe_waiting env"] by (auto split: option.splits)
qed

text \<open>
  Where selfies run on the API host nothing bounds the queue: a guest behind the first hundred is told
  the same as one whose selfie is being processed, no position and the time of a single job.
\<close>

theorem deep_queue_reads_as_running:
  assumes "cipher_ok (pe_cipher env)" "i \<noteq> ''''" "pe_selfiesRunHere env" "now \<le> t + TICKET_TTL_MS"
    and "map_option pt_status (participant_getById i (gy_world s)) = Some ParticipantStatus_Processing"
    and "waiting_place i (pe_waiting env) = Some n" "100 \<le> n"
  shows "fst (getProgress env (issueTicket (pe_cipher env) i t) now s)
      = Progress_live ParticipantStatus_Processing None (Some (estimateSeconds (pe_completed env) (Some 1))) 0"
proof -
  from assms(5) obtain p where p: "participant_getById i (gy_world s) = Some p" "pt_status p = ParticipantStatus_Processing" by auto
  have "pt_id p = i" using p(1) by (auto simp: participant_getById_def dest: select_first_SomeD)
  with p assms(3,4,6,7) show ?thesis unfolding getProgress_of_ticket [OF assms(1,2)]
    by (simp add: position_of_place estimateSeconds_def)
qed

section \<open>A concrete ticket\<close>

definition wit_ticket_code :: "TicketPayload \<Rightarrow> nat" where
  "wit_ticket_code t = to_nat (tp_p t, tp_exp t)"

definition wit_ticket_of :: "nat \<Rightarrow> TicketPayload" where
  "wit_ticket_of n = (case from_nat n of (p, e) \<Rightarrow> \<lparr>tp_p = p, tp_exp = e\<rparr>)"

definition wit_ticket_cipher :: "TicketPayload cipher" where
  "wit_ticket_cipher = \<lparr>aes_encrypt = (\<lambda>x. x), aes_decrypt = Some,
     json_stringify = (\<lambda>t. replicate (wit_ticket_code t) CHR ''1''), json_parse = (\<lambda>s. Some (wit_ticket_of (length s))),
     base64url = (\<lambda>x. x), base64url_decode = (\<lambda>x. x)\<rparr>"

lemma wit_ticket_cipher_ok: "cipher_ok wit_ticket_cipher"
proof -
  have "wit_ticket_of (wit_ticket_code t) = t" for t by (simp add: wit_ticket_of_def wit_ticket_code_def)
  then show ?thesis by (simp add: cipher_ok_def wit_ticket_cipher_def)
qed

definition wit_bull_job :: "uuid \<Rightarrow> bull_job option" where
  "wit_bull_job i = Some \<lparr>bj_item = SelfieProcess i, bj_timestamp = 0, bj_processedOn = None\<rparr>"

definition wit_progress_env :: "bool \<Rightarrow> bull_job option list \<Rightarrow> progress_env" where
  "wit_progress_env here waiting = \<lparr>pe_cipher = wit_ticket_cipher,
     pe_gpu = wit_gpu_env\<lparr>ge_counts := (\<lambda>q. if q = QueueName_Selfie then \<lparr>jc_active = 0, jc_completed = 0, jc_failed = 0,
       jc_delayed = 0, jc_waiting = int (length waiting), jc_paused = 0\<rparr> else ge_counts wit_gpu_env q)\<rparr>,
     pe_selfiesRunHere = here, pe_waiting = waiting, pe_completed = []\<rparr>"

definition wit_guest_sys :: "ParticipantStatus \<Rightarrow> gpu_sys" where
  "wit_guest_sys st = (wit_gpu_sys None)\<lparr>gy_world := empty_world\<lparr>participants := [wit_guest\<lparr>pt_status := st\<rparr>]\<rparr>\<rparr>"

lemma wit_guest_sys_facts [simp]:
  "participant_getById ''g'' (gy_world (wit_guest_sys st)) = Some (wit_guest\<lparr>pt_status := st\<rparr>)"
  "countMatches i None (gy_world (wit_guest_sys st)) = 0"
  by (simp_all add: wit_guest_sys_def participant_getById_def countMatches_def wit_guest_def empty_world_def)

lemma wit_progress_env_simps [simp]:
  "pe_cipher (wit_progress_env here ws) = wit_ticket_cipher" "pe_selfiesRunHere (wit_progress_env here ws) = here"
  "pe_waiting (wit_progress_env here ws) = ws" "pe_completed (wit_progress_env here ws) = []"
  by (simp_all add: wit_progress_env_def)

theorem ticket_reports_its_guest_witness:
  "fst (getProgress (wit_progress_env True []) (issueTicket wit_ticket_cipher ''g'' 0) 5 (wit_guest_sys ParticipantStatus_NoFace))
    = Progress_live ParticipantStatus_NoFace None None 0"
  using ticket_reports_its_guest [of "wit_progress_env True []" "''g''" 0 5 "wit_guest_sys ParticipantStatus_NoFace"
      ParticipantStatus_NoFace 0] wit_ticket_cipher_ok
  by (simp add: TICKET_TTL_MS_def wit_guest_def)

theorem estimate_is_monotone_witness:
  "5 \<le> estimateSeconds [1] (Some 1) \<and> estimateSeconds [1] (Some 1) \<le> estimateSeconds [1] (Some 2)"
  using estimate_is_monotone [of 1 2 "[1]"] by simp

theorem gated_position_is_exact_witness:
  "\<exists>eta k. fst (getProgress (wit_progress_env False [wit_bull_job ''a'', wit_bull_job ''g'']) (issueTicket wit_ticket_cipher ''g'' 0) 5
     (wit_guest_sys ParticipantStatus_Processing)) = Progress_live ParticipantStatus_Processing (Some 2) eta k"
proof -
  let ?env = "wit_progress_env False [wit_bull_job ''a'', wit_bull_job ''g'']"
  have consistent: "counts_consistent (pe_gpu ?env) (pe_waiting ?env)"
    by (simp add: counts_consistent_def wit_progress_env_def wit_gpu_env_def)
  have place: "waiting_place ''g'' (pe_waiting ?env) = Some 1"
    by (simp add: waiting_place_def wit_bull_job_def is_selfie_of_def)
  have pending: "pending_of (getQueueSummary (pe_gpu ?env) 5) = 2"
    by (simp add: pending_of_def getQueueSummary_def GPU_QUEUES_def all_queues_def queue_summary_def wit_progress_env_def
        wit_gpu_env_def Let_def truthy_ts_def)
  have online: "isWorkerOnline (pe_gpu ?env)" by (simp add: isWorkerOnline_def wit_progress_env_def wit_gpu_env_def)
  obtain position eta k where live: "fst (getProgress ?env (issueTicket (pe_cipher ?env) ''g'' 0) 5
     (wit_guest_sys ParticipantStatus_Processing)) = Progress_live ParticipantStatus_Processing position eta k"
    using getProgress_of_ticket [of ?env "''g''" 0 5 "wit_guest_sys ParticipantStatus_Processing"] wit_ticket_cipher_ok pending online
    by (simp add: TICKET_TTL_MS_def gpu_getStatus_def Let_def split_beta LIVE_MODE_MAX_PENDING_def)
  have "position = Some 2"
    using gated_position_is_exact [OF _ _ _ consistent live] wit_ticket_cipher_ok place by simp
  with live show ?thesis by auto
qed

theorem deep_queue_reads_as_running_witness:
  "fst (getProgress (wit_progress_env True (replicate 100 (wit_bull_job ''a'') @ [wit_bull_job ''g''])) (issueTicket wit_ticket_cipher ''g'' 0) 5
     (wit_guest_sys ParticipantStatus_Processing)) = Progress_live ParticipantStatus_Processing None (Some 13) 0"
proof -
  let ?env = "wit_progress_env True (replicate 100 (wit_bull_job ''a'') @ [wit_bull_job ''g''])"
  have place: "waiting_place ''g'' (pe_waiting ?env) = Some 100"
    unfolding waiting_place_def findIndex_Some_iff by (auto simp: nth_append wit_bull_job_def is_selfie_of_def)
  have "estimateSeconds [] (Some 1) = 13"
    by (simp add: estimateSeconds_def DEFAULT_SECONDS_PER_SELFIE_def js_round_def)
  then show ?thesis
    using deep_queue_reads_as_running [OF _ _ _ _ _ place, of 5 0 "wit_guest_sys ParticipantStatus_Processing"] wit_ticket_cipher_ok
    by (simp add: TICKET_TTL_MS_def)
qed

end
