(* ===== verification/PublicGallery.thy ===== *)
theory PublicGallery
  imports SelfieProgress EventExpiry AssetPolicy RateLimiter
begin

text \<open>
  \<^verbatim>\<open>services/public.service.ts\<close>: what a guest can do without an account. The intake of selfies with its two
  limiters, whose hits live in the process and are passed along, and the tokenized gallery. Fresh ids and
  the random token are arguments, and so is whether the bucket accepts each put.
\<close>

section \<open>Finding the event or the guest\<close>


definition getActiveEvent :: "string \<Rightarrow> ms \<Rightarrow> world \<Rightarrow> event_row outcome" where
  "getActiveEvent slug now w =
    (case event_getBySlug slug w of
       None \<Rightarrow> Inl (NotFound ''Event not found'')
     | Some event \<Rightarrow>
        if e_status event \<noteq> EventStatus_Active \<or> \<not> e_participantPageEnabled event then Inl (NotFound ''Event not found'')
        else if isEventExpired event now then Inl (Gone ''This event has closed'' (isEventPurged event))
        else Inr event)"

definition resolveGallery :: "crypto \<Rightarrow> string \<Rightarrow> ms \<Rightarrow> world \<Rightarrow> (participant_row \<times> event_row) outcome" where
  "resolveGallery cr token now w =
    (case getByTokenHash (cr_sha256 cr token) w of
       None \<Rightarrow> Inl (NotFound ''Gallery not found'')
     | Some participant \<Rightarrow>
    (case event_getById (pt_eventId participant) w of
       None \<Rightarrow> Inl (NotFound ''Gallery not found'')
     | Some event \<Rightarrow>
        if e_deletedAt event \<noteq> None then Inl (NotFound ''Gallery not found'')
        else if isEventExpired event now then Inl (Gone ''This gallery has closed'' (isEventPurged event))
        else Inr (participant, event)))"

record PublicEvent =
  pv_organization :: "string option"
  pv_id :: uuid
  pv_name :: string
  pv_description :: "string option"
  pv_startsAt :: "ms option"
  pv_endsAt :: "ms option"
  pv_participantPageEnabled :: bool

definition getPublicEvent :: "string \<Rightarrow> ms \<Rightarrow> world \<Rightarrow> PublicEvent outcome" where
  "getPublicEvent slug now w =
    (case getActiveEvent slug now w of
       Inl e \<Rightarrow> Inl e
     | Inr event \<Rightarrow> Inr \<lparr>pv_organization = map_option o_name (org_getById (e_orgId event) w), pv_id = e_id event,
         pv_name = e_name event, pv_description = e_description event, pv_startsAt = e_startsAt event,
         pv_endsAt = e_endsAt event, pv_participantPageEnabled = e_participantPageEnabled event\<rparr>)"

section \<open>The selfie intake\<close>

definition MAX_SELFIES :: nat where "MAX_SELFIES = 3"
definition MAX_SELFIE_BYTES :: bytes where "MAX_SELFIE_BYTES = 15 * 1024 * 1024"

text \<open>The two limiters of the process.\<close>

record limiters =
  ik_ip :: hits
  ik_email :: hits

definition ip_consume :: "hits \<Rightarrow> string \<Rightarrow> ms \<Rightarrow> bool \<times> hits" where
  "ip_consume = consume 5 (60 * 60 * 1000)"

definition email_consume :: "hits \<Rightarrow> string \<Rightarrow> ms \<Rightarrow> bool \<times> hits" where
  "email_consume = consume 3 (24 * 60 * 60 * 1000)"

fun check_files :: "StagedUpload list \<Rightarrow> unit outcome" where
  "check_files [] = Inr ()"
| "check_files (file # files) =
    (if \<not> prefix ''image/'' (su_mimeType file) then Inl (BadRequest ''Selfie must be an image'')
     else if su_size file > MAX_SELFIE_BYTES then Inl (PayloadTooLarge ''Selfie exceeds 15 MB'')
     else check_files files)"

definition check_staged :: "StagedUpload list \<Rightarrow> unit outcome" where
  "check_staged staged =
    (if staged = [] then Inl (BadRequest ''Missing selfie file'')
     else if length staged > MAX_SELFIES then Inl (BadRequest ''Please submit at most 3 photos'')
     else check_files staged)"

record submit_env =
  sv_crypto :: crypto
  sv_cipher :: "TicketPayload cipher"
  sv_token :: string
  sv_keyId :: uuid              \<comment> \<open>the random id in the keys\<close>
  sv_newId :: uuid              \<comment> \<open>the id the database gives a new row\<close>
  sv_selfieIds :: "nat \<Rightarrow> uuid"
  sv_put_ok :: "nat \<Rightarrow> bool"

record selfie_request =
  rq_slug :: string
  rq_email :: string
  rq_name :: string
  rq_phone :: "string option"
  rq_staged :: "StagedUpload list"
  rq_clientIp :: string

definition ip_key :: "string \<Rightarrow> string" where
  "ip_key clientIp = ''ip:'' @ clientIp"

definition email_key :: "uuid \<Rightarrow> string \<Rightarrow> string" where
  "email_key ev email = ''email:'' @ ev @ '':'' @ toLowerCase email"

definition selfie_keys :: "submit_env \<Rightarrow> event_row \<Rightarrow> StagedUpload list \<Rightarrow> string list" where
  "selfie_keys env event staged = map (key_selfie (e_orgId event) (e_id event) (sv_keyId env)) [0..<length staged]"

text \<open>\<^verbatim>\<open>phone?.trim() || null\<close>\<close>

definition trimmed_phone :: "string option \<Rightarrow> string option" where
  "trimmed_phone phone = (case phone of None \<Rightarrow> None | Some s \<Rightarrow> if js_trim s = '''' then None else Some (js_trim s))"

text \<open>The puts run side by side; one that is refused fails the request, the others stay.\<close>

definition put_all :: "submit_env \<Rightarrow> string list \<Rightarrow> world \<Rightarrow> world" where
  "put_all env keys w = fold (\<lambda>i. if sv_put_ok env i then putFile (keys ! i) else id) [0..<length keys] w"

definition store_submission :: "submit_env \<Rightarrow> selfie_request \<Rightarrow> event_row \<Rightarrow> ms \<Rightarrow> world \<Rightarrow> string outcome \<times> world" where
  "store_submission env rq event now w =
    (let token = generate (sv_crypto env) (sv_cipher env) (sv_token env);
         keys = selfie_keys env event (rq_staged rq);
         w1 = put_all env keys w
     in if \<not> list_all (sv_put_ok env) [0..<length keys] then (Inl (ServerError ''put failed''), w1)
        else
        let (participant, w2) = participant_upsert (sv_newId env)
              \<lparr>pu_eventId = e_id event, pu_email = rq_email rq, pu_name = js_trim (rq_name rq),
               pu_phone = trimmed_phone (rq_phone rq), pu_selfieKey = hd keys,
               pu_galleryTokenHash = gt_hash token, pu_galleryTokenEnc = gt_enc token\<rparr> now w1;
            w3 = replaceSelfies (pt_id participant) keys (sv_selfieIds env) w2;
            w4 = queueAll [SendSelfieReceived (pt_id participant), SelfieProcess (pt_id participant)] w3
        in (Inr (issueTicket (sv_cipher env) (pt_id participant) now), w4))"

definition admit :: "submit_env \<Rightarrow> selfie_request \<Rightarrow> ms \<Rightarrow> limiters \<Rightarrow> world \<Rightarrow> string outcome \<times> limiters \<times> world" where
  "admit env rq now ik w =
    (case check_staged (rq_staged rq) of
       Inl e \<Rightarrow> (Inl e, ik, w)
     | Inr _ \<Rightarrow>
    (case getActiveEvent (rq_slug rq) now w of
       Inl e \<Rightarrow> (Inl e, ik, w)
     | Inr event \<Rightarrow>
        let (ip_ok, ips) = ip_consume (ik_ip ik) (ip_key (rq_clientIp rq)) now;
            ik1 = ik\<lparr>ik_ip := ips\<rparr>
        in if \<not> ip_ok then (Inl (TooManyRequests ''Too many requests''), ik1, w)
           else
        let (email_ok, emails) = email_consume (ik_email ik) (email_key (e_id event) (rq_email rq)) now;
            ik2 = ik1\<lparr>ik_email := emails\<rparr>
        in if \<not> email_ok then (Inl (TooManyRequests ''Too many requests''), ik2, w)
           else let (r, w') = store_submission env rq event now w in (r, ik2, w')))"

text \<open>The whole request: the staged files go in any case.\<close>

definition submitSelfie :: "submit_env \<Rightarrow> selfie_request \<Rightarrow> ms \<Rightarrow> limiters \<Rightarrow> world \<Rightarrow> string outcome \<times> limiters \<times> world" where
  "submitSelfie env rq now ik w =
    (let (r, ik', w') = admit env rq now ik w
     in (r, ik', fold (\<lambda>file. discard (su_stagingPath file)) (rq_staged rq) w'))"

section \<open>The gallery\<close>

record GalleryView =
  gv_organization :: "string option"
  gv_event :: event_row
  gv_showAllPhotos :: bool
  gv_canDownloadAllPhotos :: bool
  gv_status :: ParticipantStatus
  gv_name :: string
  gv_assets :: "MatchedAsset list"

definition still_working :: "participant_row \<Rightarrow> bool" where
  "still_working p \<longleftrightarrow> pt_status p = ParticipantStatus_Processing \<or> pt_status p = ParticipantStatus_PendingMatch"

definition mark_opened :: "ms \<Rightarrow> participant_row \<Rightarrow> participant_row \<Rightarrow> participant_row" where
  "mark_opened now participant r =
    (let r1 = (if pt_galleryOpenedAt participant = None then r\<lparr>pt_galleryOpenedAt := Some now\<rparr> else r)
     in if still_working participant \<and> \<not> pt_awaitingResultNotice participant then r1\<lparr>pt_awaitingResultNotice := True\<rparr> else r1)"

definition getGallery :: "crypto \<Rightarrow> string \<Rightarrow> ms \<Rightarrow> world \<Rightarrow> GalleryView outcome \<times> world" where
  "getGallery cr token now w =
    (case resolveGallery cr token now w of
       Inl e \<Rightarrow> (Inl e, w)
     | Inr (participant, event) \<Rightarrow>
        let w' = (if pt_galleryOpenedAt participant = None \<or> still_working participant \<and> \<not> pt_awaitingResultNotice participant
                  then participant_update (pt_id participant) (mark_opened now participant) now w else w)
        in (Inr \<lparr>gv_organization = map_option o_name (org_getById (e_orgId event) w'), gv_event = event,
              gv_showAllPhotos = e_participantsSeeAllPhotos event,
              gv_canDownloadAllPhotos = (e_participantsSeeAllPhotos event \<and> e_participantsCanDownloadAll event),
              gv_status = pt_status participant, gv_name = pt_name participant,
              gv_assets = getMatchedAssets (pt_id participant) w\<rparr>, w'))"

definition getEventGallery :: "crypto \<Rightarrow> cursor_codec \<Rightarrow> string \<Rightarrow> nat \<Rightarrow> string option \<Rightarrow> ms \<Rightarrow> world \<Rightarrow> AssetListResponse outcome" where
  "getEventGallery cr c token limit cursor now w =
    (case resolveGallery cr token now w of
       Inl e \<Rightarrow> Inl e
     | Inr (_, event) \<Rightarrow>
        if \<not> e_participantsSeeAllPhotos event then Inl (NotFound ''Event photos are not shared'')
        else asset_service_list c (e_id event) limit cursor None w)"

definition assertViewable :: "uuid \<Rightarrow> event_row \<Rightarrow> uuid \<Rightarrow> world \<Rightarrow> unit outcome" where
  "assertViewable i event a w =
    (if isMatchedAsset i a w then Inr ()
     else if \<not> e_participantsSeeAllPhotos event then Inl (NotFound ''Asset not found'')
     else if asset_getById (e_id event) a w = None then Inl (NotFound ''Asset not found'')
     else Inr ())"

definition getGalleryAssetFaces :: "crypto \<Rightarrow> string \<Rightarrow> uuid \<Rightarrow> ms \<Rightarrow> world \<Rightarrow> FaceBox list outcome" where
  "getGalleryAssetFaces cr token a now w =
    (case resolveGallery cr token now w of
       Inl e \<Rightarrow> Inl e
     | Inr (participant, event) \<Rightarrow>
        (case assertViewable (pt_id participant) event a w of
           Inl e \<Rightarrow> Inl e
         | Inr _ \<Rightarrow> Inr (toFaceBoxes (asset_getFaces a w))))"

definition getPersonGallery :: "crypto \<Rightarrow> string \<Rightarrow> uuid \<Rightarrow> ms \<Rightarrow> world \<Rightarrow> (uuid \<times> string \<times> asset_row list) outcome" where
  "getPersonGallery cr token i now w =
    (case resolveGallery cr token now w of
       Inl e \<Rightarrow> Inl e
     | Inr (_, event) \<Rightarrow>
        if \<not> e_participantsSeeAllPhotos event then Inl (NotFound ''Event photos are not shared'')
        else
    (case person_getById (e_id event) i w of
       None \<Rightarrow> Inl (NotFound ''Person not found'')
     | Some person \<Rightarrow>
        if p_isHidden person then Inl (NotFound ''Person not found'')
        else (case person_getAssets (e_id event) i w of Inl e \<Rightarrow> Inl e | Inr as \<Rightarrow> Inr (p_id person, p_name person, as))))"

definition assertDownloadable :: "uuid \<Rightarrow> event_row \<Rightarrow> uuid \<Rightarrow> world \<Rightarrow> unit outcome" where
  "assertDownloadable i event a w =
    (if isMatchedAsset i a w then Inr ()
     else if \<not> e_participantsSeeAllPhotos event \<or> \<not> e_participantsCanDownloadAll event then Inl (NotFound ''Asset not found'')
     else if asset_getById (e_id event) a w = None then Inl (NotFound ''Asset not found'')
     else Inr ())"

definition getGalleryDownloadUrl :: "crypto \<Rightarrow> string \<Rightarrow> uuid \<Rightarrow> ms \<Rightarrow> world \<Rightarrow> (string \<times> string) outcome" where
  "getGalleryDownloadUrl cr token a now w =
    (case resolveGallery cr token now w of
       Inl e \<Rightarrow> Inl e
     | Inr (participant, event) \<Rightarrow>
        (case assertDownloadable (pt_id participant) event a w of
           Inl e \<Rightarrow> Inl e
         | Inr _ \<Rightarrow>
            (case asset_getById (pt_eventId participant) a w of
               None \<Rightarrow> Inl (NotFound ''Asset not found'')
             | Some asset \<Rightarrow> Inr (a_storageKey asset, a_originalFilename asset))))"

fun all_downloadable :: "uuid \<Rightarrow> event_row \<Rightarrow> uuid list \<Rightarrow> world \<Rightarrow> unit outcome" where
  "all_downloadable i event [] w = Inr ()"
| "all_downloadable i event (a # as) w =
    (case assertDownloadable i event a w of Inl e \<Rightarrow> Inl e | Inr _ \<Rightarrow> all_downloadable i event as w)"

definition streamGalleryZip :: "crypto \<Rightarrow> string \<Rightarrow> uuid list option \<Rightarrow> ms \<Rightarrow> world \<Rightarrow> (string \<times> (string \<times> string) list) outcome" where
  "streamGalleryZip cr token assetIds now w =
    (case resolveGallery cr token now w of
       Inl e \<Rightarrow> Inl e
     | Inr (participant, event) \<Rightarrow>
        let chosen = (case assetIds of
              Some (a # as) \<Rightarrow> (case all_downloadable (pt_id participant) event (a # as) w of Inl e \<Rightarrow> Inl e | Inr _ \<Rightarrow> Inr (a # as))
            | _ \<Rightarrow> Inr (map (\<lambda>m. a_id (ma_asset m)) (getMatchedAssets (pt_id participant) w)))
        in (case chosen of
              Inl e \<Rightarrow> Inl e
            | Inr ids \<Rightarrow>
               if ids = [] then Inl (NotFound ''No photos to download yet'')
               else Inr (safeName (e_name event) @ ''.zip'', zipEntries (pt_eventId participant) ids [] w)))"

end
