(* ===== verification/PublicPolicy.thy ===== *)
theory PublicPolicy
  imports PublicGallery
begin

text \<open>
  What the public surface promises: a token shows its guest only photos of their own event, closed
  galleries stay closed on every route, the intake is limited per address and per guest, and the link that
  is mailed opens the gallery of the submission; and what a resubmission leaves behind.
\<close>

section \<open>Resolving a token\<close>

lemma resolveGallery_Inr_iff:
  "resolveGallery cr token now w = Inr (p, e) \<longleftrightarrow>
    getByTokenHash (cr_sha256 cr token) w = Some p \<and> event_getById (pt_eventId p) w = Some e \<and> \<not> isEventExpired e now"
proof -
  have "e_deletedAt e = None" if "event_getById i w = Some e" for i e
    using that by (auto simp: event_getById_def dest: select_first_SomeD)
  then show ?thesis by (auto simp: resolveGallery_def split: option.splits)
qed

lemma getByTokenHash_SomeD:
  "getByTokenHash h w = Some p \<Longrightarrow> p \<in> set (participants w) \<and> pt_galleryTokenHash p = h \<and> pt_deletedAt p = None"
  unfolding getByTokenHash_def by (drule select_first_SomeD) simp

text \<open>What a token may download.\<close>

definition may_download :: "participant_row \<Rightarrow> event_row \<Rightarrow> uuid \<Rightarrow> world \<Rightarrow> bool" where
  "may_download p e a w \<longleftrightarrow> asset_getById (pt_eventId p) a w \<noteq> None \<and>
    (isMatchedAsset (pt_id p) a w \<or> e_participantsSeeAllPhotos e \<and> e_participantsCanDownloadAll e)"

lemma download_iff:
  "getGalleryDownloadUrl cr token a now w = Inr kn \<longleftrightarrow>
    (\<exists>p e x. resolveGallery cr token now w = Inr (p, e) \<and> may_download p e a w
      \<and> asset_getById (pt_eventId p) a w = Some x \<and> kn = (a_storageKey x, a_originalFilename x))"
proof (cases "resolveGallery cr token now w")
  case (Inr pe)
  obtain p e where pe: "pe = (p, e)" by (cases pe)
  have "event_getById (pt_eventId p) w = Some e" using Inr by (simp add: pe resolveGallery_Inr_iff)
  then have "e_id e = pt_eventId p" using event_getById_SomeD by blast
  then show ?thesis
    by (auto simp: getGalleryDownloadUrl_def Inr pe assertDownloadable_def may_download_def split: option.splits if_splits)
qed (simp add: getGalleryDownloadUrl_def)


section \<open>Zips give no more than single downloads\<close>

lemma zipEntries_from: "x \<in> set (zipEntries ev ids used w) \<Longrightarrow> \<exists>a \<in> set ids. \<exists>r. asset_getById ev a w = Some r \<and> snd x = a_storageKey r"
  by (induction ev ids used w rule: zipEntries.induct) (force simp: Let_def split: option.splits)+

lemma all_downloadable_iff:
  "all_downloadable i e as w = Inr () \<longleftrightarrow> (\<forall>a \<in> set as. assertDownloadable i e a w = Inr ())"
  by (induction as) (auto split: sum.splits)

lemma assertDownloadable_iff:
  "e_id e = pt_eventId p \<Longrightarrow> asset_getById (pt_eventId p) a w \<noteq> None \<Longrightarrow>
    assertDownloadable (pt_id p) e a w = Inr () \<longleftrightarrow> may_download p e a w"
  by (auto simp: assertDownloadable_def may_download_def)

lemma matched_asset_is_match: "m \<in> set (getMatchedAssets i w) \<Longrightarrow> isMatchedAsset i (a_id (ma_asset m)) w"
  by (auto simp: getMatchedAssets_def by_capture_def isMatchedAsset_def)

text \<open>
  A zip holds nothing its token could not download photo by photo: every entry of every zip, for a
  selection or for all matches, is the original behind a download link that the same token gets.
\<close>

theorem zip_is_no_shortcut:
  assumes "streamGalleryZip cr token assetIds now w = Inr (file, entries)" "(name, key) \<in> set entries"
  shows "\<exists>a original. getGalleryDownloadUrl cr token a now w = Inr (key, original)"
proof -
  obtain p e where res: "resolveGallery cr token now w = Inr (p, e)"
    using assms(1) by (cases "resolveGallery cr token now w") (auto simp: streamGalleryZip_def)
  let ?mine = "map (\<lambda>m. a_id (ma_asset m)) (getMatchedAssets (pt_id p) w)"
  define ids where "ids = (case assetIds of Some (a # as) \<Rightarrow> a # as | _ \<Rightarrow> ?mine)"
  have entries: "entries = zipEntries (pt_eventId p) ids [] w" and ids: "ids = ?mine \<or> all_downloadable (pt_id p) e ids w = Inr ()"
    using assms(1) by (auto simp: streamGalleryZip_def Let_def res ids_def split: sum.splits option.splits list.splits if_splits)
  from zipEntries_from [OF assms(2) [unfolded entries]] obtain a r where a: "a \<in> set ids"
      and r: "asset_getById (pt_eventId p) a w = Some r" "key = a_storageKey r" by auto
  have own: "e_id e = pt_eventId p" using res event_getById_SomeD unfolding resolveGallery_Inr_iff by blast
  from ids have "may_download p e a w"
  proof
    assume "ids = ?mine"
    with a have "isMatchedAsset (pt_id p) a w" using matched_asset_is_match by auto
    with r(1) show ?thesis by (simp add: may_download_def)
  next
    assume "all_downloadable (pt_id p) e ids w = Inr ()"
    with a have "assertDownloadable (pt_id p) e a w = Inr ()" by (simp add: all_downloadable_iff)
    with assertDownloadable_iff [OF own, of a w] r(1) show ?thesis by simp
  qed
  with res r show ?thesis unfolding download_iff by blast
qed

section \<open>Closed galleries\<close>

text \<open>
  Every route of the gallery funnels through \<open>resolveGallery\<close>: what the token does not resolve to, no route
  shows.
\<close>

locale gallery_route =
  fixes route :: "crypto \<Rightarrow> string \<Rightarrow> ms \<Rightarrow> world \<Rightarrow> 'a outcome"
  assumes funnel: "resolveGallery cr token now w = Inl err \<Longrightarrow> route cr token now w = Inl err"
begin

lemma unknown_token:
  "getByTokenHash (cr_sha256 cr token) w = None \<Longrightarrow> route cr token now w = Inl (NotFound ''Gallery not found'')"
  by (rule funnel) (simp add: resolveGallery_def)

lemma closed:
  "getByTokenHash (cr_sha256 cr token) w = Some p \<Longrightarrow> event_getById (pt_eventId p) w = Some e \<Longrightarrow> isEventExpired e now \<Longrightarrow>
    route cr token now w = Inl (Gone ''This gallery has closed'' (isEventPurged e))"
  by (rule funnel) (simp add: resolveGallery_def event_getById_SomeD)

lemma deleted_event:
  "getByTokenHash (cr_sha256 cr token) w = Some p \<Longrightarrow> event_getById (pt_eventId p) w = None \<Longrightarrow>
    route cr token now w = Inl (NotFound ''Gallery not found'')"
  by (rule funnel) (simp add: resolveGallery_def)

end

interpretation own_gallery: gallery_route "\<lambda>cr token now w. fst (getGallery cr token now w)"
  by unfold_locales (simp add: getGallery_def)

interpretation event_gallery: gallery_route "\<lambda>cr token now w. getEventGallery cr c token limit cursor now w" for c limit cursor
  by unfold_locales (simp add: getEventGallery_def)

interpretation asset_faces: gallery_route "\<lambda>cr token now w. getGalleryAssetFaces cr token a now w" for a
  by unfold_locales (simp add: getGalleryAssetFaces_def)

interpretation person_gallery: gallery_route "\<lambda>cr token now w. getPersonGallery cr token i now w" for i
  by unfold_locales (simp add: getPersonGallery_def)

interpretation gallery_download: gallery_route "\<lambda>cr token now w. getGalleryDownloadUrl cr token a now w" for a
  by unfold_locales (simp add: getGalleryDownloadUrl_def)

interpretation gallery_zip: gallery_route "\<lambda>cr token now w. streamGalleryZip cr token assetIds now w" for assetIds
  by unfold_locales (simp add: streamGalleryZip_def)

text \<open>
  C27. An expired gallery is closed on every route: the gallery, the shared event gallery, faces, people,
  single downloads and zips all answer "gone", with the flag that tells whether the media is purged, and
  opening it records nothing.
\<close>

theorem expired_gallery_is_closed:
  assumes "getByTokenHash (cr_sha256 cr token) w = Some p" "event_getById (pt_eventId p) w = Some e" "isEventExpired e now"
  shows "getGallery cr token now w = (Inl (Gone ''This gallery has closed'' (isEventPurged e)), w)
    \<and> getEventGallery cr c token limit cursor now w = Inl (Gone ''This gallery has closed'' (isEventPurged e))
    \<and> getGalleryAssetFaces cr token a now w = Inl (Gone ''This gallery has closed'' (isEventPurged e))
    \<and> getPersonGallery cr token i now w = Inl (Gone ''This gallery has closed'' (isEventPurged e))
    \<and> getGalleryDownloadUrl cr token a now w = Inl (Gone ''This gallery has closed'' (isEventPurged e))
    \<and> streamGalleryZip cr token assetIds now w = Inl (Gone ''This gallery has closed'' (isEventPurged e))"
proof -
  have "snd (getGallery cr token now w) = w"
    using own_gallery.closed [OF assms] by (auto simp: getGallery_def Let_def split: sum.splits)
  then show ?thesis
    using own_gallery.closed [OF assms] event_gallery.closed [OF assms] asset_faces.closed [OF assms]
      person_gallery.closed [OF assms] gallery_download.closed [OF assms] gallery_zip.closed [OF assms]
    by (simp add: prod_eq_iff)
qed

section \<open>The limits of the intake\<close>

text \<open>
  A visit is one submission with the state of the database it finds; what other requests do in between is
  left open. A visit knocks when it gets as far as the limiters.
\<close>

type_synonym visit = "submit_env \<times> selfie_request \<times> ms \<times> world"

fun visit_time :: "visit \<Rightarrow> ms" where "visit_time (env, rq, now, w) = now"
fun visit_ip :: "visit \<Rightarrow> string" where "visit_ip (env, rq, now, w) = rq_clientIp rq"
fun visit_email :: "visit \<Rightarrow> string" where "visit_email (env, rq, now, w) = rq_email rq"
fun visit_event :: "visit \<Rightarrow> event_row outcome" where "visit_event (env, rq, now, w) = getActiveEvent (rq_slug rq) now w"

fun visit_ok :: "visit \<Rightarrow> limiters \<Rightarrow> bool" where
  "visit_ok (env, rq, now, w) ik = is_ok (fst (submitSelfie env rq now ik w))"

fun visit_limiters :: "visit \<Rightarrow> limiters \<Rightarrow> limiters" where
  "visit_limiters (env, rq, now, w) ik = fst (snd (submitSelfie env rq now ik w))"

fun accepted_visits :: "visit list \<Rightarrow> limiters \<Rightarrow> visit list" where
  "accepted_visits [] ik = []"
| "accepted_visits (v # vs) ik = (if visit_ok v ik then [v] else []) @ accepted_visits vs (visit_limiters v ik)"

fun knocks :: "visit \<Rightarrow> bool" where
  "knocks (env, rq, now, w) \<longleftrightarrow> check_staged (rq_staged rq) = Inr () \<and> is_ok (getActiveEvent (rq_slug rq) now w)"

definition ip_call :: "visit \<Rightarrow> string \<times> ms" where
  "ip_call v = (ip_key (visit_ip v), visit_time v)"

definition email_call :: "visit \<Rightarrow> string \<times> ms" where
  "email_call v = (email_key (e_id (projr (visit_event v))) (visit_email v), visit_time v)"

definition ip_ok :: "visit \<Rightarrow> limiters \<Rightarrow> bool" where
  "ip_ok v ik \<longleftrightarrow> fst (ip_consume (ik_ip ik) (fst (ip_call v)) (visit_time v))"

definition email_ok :: "visit \<Rightarrow> limiters \<Rightarrow> bool" where
  "email_ok v ik \<longleftrightarrow> fst (email_consume (ik_email ik) (fst (email_call v)) (visit_time v))"

lemma visit_limiters_eq:
  "ik_ip (visit_limiters v ik) = (if knocks v then snd (ip_consume (ik_ip ik) (fst (ip_call v)) (visit_time v)) else ik_ip ik)"
  "ik_email (visit_limiters v ik) =
    (if knocks v \<and> ip_ok v ik then snd (email_consume (ik_email ik) (fst (email_call v)) (visit_time v)) else ik_email ik)"
  by (cases v; cases "check_staged (rq_staged (fst (snd v)))"; cases "getActiveEvent (rq_slug (fst (snd v))) (fst (snd (snd v))) (snd (snd (snd v)))";
      auto simp: submitSelfie_def admit_def ip_ok_def ip_call_def email_call_def Let_def split_beta)+

lemma visit_okD: "visit_ok v ik \<Longrightarrow> knocks v \<and> ip_ok v ik \<and> email_ok v ik"
  by (cases v; cases "check_staged (rq_staged (fst (snd v)))"; cases "getActiveEvent (rq_slug (fst (snd v))) (fst (snd (snd v))) (snd (snd (snd v)))";
      auto simp: submitSelfie_def admit_def ip_ok_def email_ok_def ip_call_def email_call_def Let_def split_beta split: if_splits)

fun email_calls :: "visit list \<Rightarrow> limiters \<Rightarrow> (string \<times> ms) list" where
  "email_calls [] ik = []"
| "email_calls (v # vs) ik = (if knocks v \<and> ip_ok v ik then [email_call v] else []) @ email_calls vs (visit_limiters v ik)"

definition ip_calls :: "visit list \<Rightarrow> (string \<times> ms) list" where
  "ip_calls vs = map ip_call (filter knocks vs)"

lemma accepted_calls_Cons [simp]:
  "accepted_calls [] [] = []" "accepted_calls (c # cs) (b # bs) = (if b then [c] else []) @ accepted_calls cs bs"
  by (simp_all add: accepted_calls_def)

lemma accepted_by_ip:
  "subseq (map ip_call (accepted_visits vs ik)) (accepted_calls (ip_calls vs) (answers ip_consume (ik_ip ik) (ip_calls vs)))"
proof (induction vs arbitrary: ik)
  case (Cons v vs)
  have call: "ip_call v = (fst (ip_call v), visit_time v)" by (simp add: ip_call_def)
  show ?case
  proof (cases "knocks v")
    case True
    have "answers ip_consume (ik_ip ik) (ip_call v # cs)
        = ip_ok v ik # answers ip_consume (ik_ip (visit_limiters v ik)) cs" for cs
      by (subst call) (simp add: ip_ok_def visit_limiters_eq True)
    with Cons.IH [of "visit_limiters v ik"] visit_okD [of v ik] True show ?thesis by (auto simp: ip_calls_def intro: list_emb_Cons)
  next
    case False
    with Cons.IH [of "visit_limiters v ik"] visit_okD [of v ik] show ?thesis by (auto simp: ip_calls_def visit_limiters_eq)
  qed
qed (simp add: ip_calls_def)

lemma accepted_by_email:
  "subseq (map email_call (accepted_visits vs ik))
    (accepted_calls (email_calls vs ik) (answers email_consume (ik_email ik) (email_calls vs ik)))"
proof (induction vs arbitrary: ik)
  case (Cons v vs)
  have call: "email_call v = (fst (email_call v), visit_time v)" by (simp add: email_call_def)
  show ?case
  proof (cases "knocks v \<and> ip_ok v ik")
    case True
    have "answers email_consume (ik_email ik) (email_call v # cs)
        = email_ok v ik # answers email_consume (ik_email (visit_limiters v ik)) cs" for cs
      by (subst call) (simp add: email_ok_def visit_limiters_eq True)
    with Cons.IH [of "visit_limiters v ik"] visit_okD [of v ik] True show ?thesis by (auto intro: list_emb_Cons)
  next
    case False
    with Cons.IH [of "visit_limiters v ik"] visit_okD [of v ik] show ?thesis by (auto simp: visit_limiters_eq)
  qed
qed simp

lemma sorted_ip_calls: "sorted (map visit_time vs) \<Longrightarrow> sorted (map snd (ip_calls vs))"
  by (simp add: ip_calls_def ip_call_def comp_def sorted_filter)

lemma email_calls_from: "subseq (map snd (email_calls vs ik)) (map visit_time vs)"
  by (induction vs ik rule: email_calls.induct) (auto simp: email_call_def)

lemma subseq_count:
  "subseq xs ys \<Longrightarrow> length (filter P xs) \<le> length (filter P ys)"
  by (meson list_emb_length subseq_filter)

lemma sorted_subseq: "subseq xs ys \<Longrightarrow> sorted ys \<Longrightarrow> sorted (xs :: int list)"
  by (metis sorted_nths subseq_conv_nths)

definition no_hits :: limiters where
  "no_hits = \<lparr>ik_ip = Mapping.empty, ik_email = Mapping.empty\<rparr>"

text \<open>
  C25. The intake is limited, whatever else happens to the database and however requests are interleaved: of
  all submissions since the process started, at most five from one address succeed within any hour, and at
  most three for one e-mail address (upper or lower case) and event within any day.
\<close>

theorem intake_is_limited:
  assumes "sorted (map visit_time vs)"
  shows "length (filter (\<lambda>v. visit_ip v = ip \<and> t - 3600000 < visit_time v \<and> visit_time v \<le> t) (accepted_visits vs no_hits)) \<le> 5
    \<and> length (filter (\<lambda>v. e_id (projr (visit_event v)) = ev \<and> toLowerCase (visit_email v) = toLowerCase email
        \<and> t - 86400000 < visit_time v \<and> visit_time v \<le> t) (accepted_visits vs no_hits)) \<le> 3"
proof
  let ?in = "\<lambda>k d (x :: string \<times> ms). fst x = k \<and> t - d < snd x \<and> snd x \<le> t"
  let ?acc = "accepted_visits vs no_hits"
  have "length (filter (\<lambda>v. visit_ip v = ip \<and> t - 3600000 < visit_time v \<and> visit_time v \<le> t) ?acc)
      \<le> length (filter (?in (ip_key ip) 3600000) (map ip_call ?acc))"
    unfolding filter_map length_map by (intro length_filter_mono) (simp add: ip_call_def)
  also have "\<dots> \<le> length (filter (?in (ip_key ip) 3600000)
      (accepted_calls (ip_calls vs) (answers ip_consume (ik_ip no_hits) (ip_calls vs))))"
    by (intro subseq_count accepted_by_ip)
  also have "\<dots> \<le> 5"
    using limiter_window [OF sorted_ip_calls [OF assms], of 3600000 "ip_key ip" t 5] by (simp add: no_hits_def ip_consume_def)
  finally show "length (filter (\<lambda>v. visit_ip v = ip \<and> t - 3600000 < visit_time v \<and> visit_time v \<le> t) ?acc) \<le> 5" .
  have "length (filter (\<lambda>v. e_id (projr (visit_event v)) = ev \<and> toLowerCase (visit_email v) = toLowerCase email
        \<and> t - 86400000 < visit_time v \<and> visit_time v \<le> t) ?acc)
      \<le> length (filter (?in (email_key ev email) 86400000) (map email_call ?acc))"
    unfolding filter_map length_map by (intro length_filter_mono) (simp add: email_call_def email_key_def)
  also have "\<dots> \<le> length (filter (?in (email_key ev email) 86400000)
      (accepted_calls (email_calls vs no_hits) (answers email_consume (ik_email no_hits) (email_calls vs no_hits))))"
    by (intro subseq_count accepted_by_email)
  also have "\<dots> \<le> 3"
    using limiter_window [OF sorted_subseq [OF email_calls_from [of vs no_hits] assms], of 86400000 "email_key ev email" t 3]
    by (simp add: no_hits_def email_consume_def)
  finally show "length (filter (\<lambda>v. e_id (projr (visit_event v)) = ev \<and> toLowerCase (visit_email v) = toLowerCase email
        \<and> t - 86400000 < visit_time v \<and> visit_time v \<le> t) ?acc) \<le> 3" .
qed

section \<open>What a submission stores\<close>

lemma select_first_only:
  assumes "x \<in> set rs" "P x" "\<And>y. y \<in> set rs \<Longrightarrow> P y \<Longrightarrow> y = x"
  shows "select_first P rs = Some x"
proof (cases "select_first P rs")
  case None
  with assms(1,2) show ?thesis by (simp add: select_first_None_iff)
next
  case (Some y)
  with assms(3) select_first_SomeD [of P rs y] show ?thesis by simp
qed

lemma fold_put:
  "\<exists>os. fold (\<lambda>i. if ok i then putFile (key i) else id) is w = w\<lparr>objects := os\<rparr>
    \<and> set os = set (objects w) \<union> key ` {i \<in> set is. ok i}"
proof (induction "is" arbitrary: w)
  case Nil
  show ?case by (rule exI [of _ "objects w"]) simp
next
  case (Cons i "is")
  let ?w = "if ok i then putFile (key i) w else w"
  obtain os where os: "fold (\<lambda>i. if ok i then putFile (key i) else id) is ?w = ?w\<lparr>objects := os\<rparr>"
      "set os = set (objects ?w) \<union> key ` {i \<in> set is. ok i}" using Cons.IH by blast
  have "fold (\<lambda>i. if ok i then putFile (key i) else id) (i # is) w = w\<lparr>objects := os\<rparr>"
  proof (cases "ok i")
    case True
    with os(1) show ?thesis by (simp add: putFile_def)
  next
    case False
    with os(1) show ?thesis by simp
  qed
  moreover have "set os = set (objects w) \<union> key ` {j \<in> set (i # is). ok j}"
    by (cases "ok i") (auto simp: os(2))
  ultimately show ?case by blast
qed

lemma put_all_run:
  obtains os where "put_all env keys w = w\<lparr>objects := os\<rparr>" "set (objects w) \<subseteq> set os"
    "list_all (sv_put_ok env) [0..<length keys] \<Longrightarrow> set keys \<subseteq> set os"
proof -
  obtain os where os: "put_all env keys w = w\<lparr>objects := os\<rparr>"
      "set os = set (objects w) \<union> (!) keys ` {i \<in> {0..<length keys}. sv_put_ok env i}"
    using fold_put [of "sv_put_ok env" "(!) keys" "[0..<length keys]" w] by (auto simp: put_all_def)
  moreover from os(2) have "list_all (sv_put_ok env) [0..<length keys] \<Longrightarrow> set keys \<subseteq> set os"
    by (auto simp: list_all_iff in_set_conv_nth)
  ultimately show ?thesis using that by blast
qed

lemma fold_discard_frame: "\<exists>st. fold (\<lambda>file. discard (su_stagingPath file)) files w = w\<lparr>staging := st\<rparr>"
proof (induction files arbitrary: w)
  case Nil
  show ?case by (rule exI [of _ "staging w"]) simp
next
  case (Cons f files)
  from Cons.IH [of "discard (su_stagingPath f) w"] show ?case by (auto simp: discard_def)
qed

text \<open>The row a submission writes.\<close>

definition submission_dto :: "submit_env \<Rightarrow> selfie_request \<Rightarrow> event_row \<Rightarrow> ParticipantUpsert" where
  "submission_dto env rq e =
    \<lparr>pu_eventId = e_id e, pu_email = rq_email rq, pu_name = js_trim (rq_name rq),
     pu_phone = trimmed_phone (rq_phone rq), pu_selfieKey = hd (selfie_keys env e (rq_staged rq)),
     pu_galleryTokenHash = cr_sha256 (sv_crypto env) (sv_token env), pu_galleryTokenEnc = aes_encrypt (sv_cipher env) (sv_token env)\<rparr>"

text \<open>A submission that succeeds, step by step.\<close>

lemma submitSelfie_Inr:
  assumes "submitSelfie env rq now ik w = (Inr ticket, ik', w')"
  obtains e p ps os st where "getActiveEvent (rq_slug rq) now w = Inr e" "check_staged (rq_staged rq) = Inr ()"
    "participant_upsert (sv_newId env) (submission_dto env rq e) now (w\<lparr>objects := os\<rparr>) = (p, w\<lparr>objects := os, participants := ps\<rparr>)"
    "set (objects w) \<union> set (selfie_keys env e (rq_staged rq)) \<subseteq> set os"
    "ticket = issueTicket (sv_cipher env) (pt_id p) now"
    "w' = queueAll [SendSelfieReceived (pt_id p), SelfieProcess (pt_id p)]
       (replaceSelfies (pt_id p) (selfie_keys env e (rq_staged rq)) (sv_selfieIds env)
         (w\<lparr>objects := os, participants := ps\<rparr>))\<lparr>staging := st\<rparr>"
proof -
  obtain wa where admit: "admit env rq now ik w = (Inr ticket, ik', wa)"
      and w': "w' = fold (\<lambda>file. discard (su_stagingPath file)) (rq_staged rq) wa"
    using assms by (auto simp: submitSelfie_def Let_def split_beta prod_eq_iff)
  from admit obtain e where e: "getActiveEvent (rq_slug rq) now w = Inr e" "check_staged (rq_staged rq) = Inr ()"
      "store_submission env rq e now w = (Inr ticket, wa)"
    by (auto simp: admit_def Let_def split_beta prod_eq_iff split: sum.splits if_splits)
  let ?keys = "selfie_keys env e (rq_staged rq)"
  obtain os where os: "put_all env ?keys w = w\<lparr>objects := os\<rparr>" "set (objects w) \<subseteq> set os"
      "list_all (sv_put_ok env) [0..<length ?keys] \<Longrightarrow> set ?keys \<subseteq> set os" using put_all_run by blast
  have all: "list_all (sv_put_ok env) [0..<length ?keys]" using e(3) by (auto simp: store_submission_def Let_def split: if_splits)
  with os have "set (objects w) \<union> set ?keys \<subseteq> set os" by blast
  moreover obtain p ps where up: "participant_upsert (sv_newId env) (submission_dto env rq e) now (w\<lparr>objects := os\<rparr>)
      = (p, w\<lparr>objects := os, participants := ps\<rparr>)"
    by (cases "select_first (upsert_conflict (submission_dto env rq e)) (participants w)") (auto simp: participant_upsert_def)
  moreover have "ticket = issueTicket (sv_cipher env) (pt_id p) now \<and>
      wa = queueAll [SendSelfieReceived (pt_id p), SelfieProcess (pt_id p)]
       (replaceSelfies (pt_id p) ?keys (sv_selfieIds env) (w\<lparr>objects := os, participants := ps\<rparr>))"
    using e(3) all up by (simp add: store_submission_def Let_def os(1) generate_def submission_dto_def)
  moreover obtain st where "w' = wa\<lparr>staging := st\<rparr>" using fold_discard_frame w' by blast
  ultimately show ?thesis using that e(1,2) by blast
qed

text \<open>The row after the upsert, among the others.\<close>

lemma participant_upsert_row:
  assumes "participant_upsert newId dto now w = (p, w')" "distinct (map pt_id (participants w))"
  shows "p \<in> set (participants w')" "\<And>q. q \<in> set (participants w') \<Longrightarrow> q = p \<or> q \<in> set (participants w) \<and> (pt_id q \<noteq> pt_id p \<or> pt_id p = newId)"
    "pt_eventId p = pu_eventId dto" "citext_eq (pt_email p) (pu_email dto)" "pt_deletedAt p = None"
    "pt_status p = ParticipantStatus_Processing" "pt_galleryTokenHash p = pu_galleryTokenHash dto"
    "pt_galleryTokenEnc p = Some (pu_galleryTokenEnc dto)" "pt_selfieKey p = Some (pu_selfieKey dto)"
proof -
  have "p \<in> set (participants w') \<and>
    (\<forall>q \<in> set (participants w'). q = p \<or> q \<in> set (participants w) \<and> (pt_id q \<noteq> pt_id p \<or> pt_id p = newId)) \<and>
    pt_eventId p = pu_eventId dto \<and> citext_eq (pt_email p) (pu_email dto) \<and> pt_deletedAt p = None \<and>
    pt_status p = ParticipantStatus_Processing \<and> pt_galleryTokenHash p = pu_galleryTokenHash dto \<and>
    pt_galleryTokenEnc p = Some (pu_galleryTokenEnc dto) \<and> pt_selfieKey p = Some (pu_selfieKey dto)"
  proof (cases "select_first (upsert_conflict dto) (participants w)")
    case None
    with assms(1) show ?thesis by (auto simp: participant_upsert_def new_participant_def citext_eq_def)
  next
    case (Some r)
    then have p: "p = resubmitted dto now r"
      and w': "participants w' = update_where (\<lambda>x. pt_id x = pt_id r) (resubmitted dto now) (participants w)"
      using assms(1) by (auto simp: participant_upsert_def)
    have r: "r \<in> set (participants w)" "upsert_conflict dto r" using select_first_SomeD [OF Some] by auto
    have same: "x = r" if "x \<in> set (participants w)" "pt_id x = pt_id r" for x
      using assms(2) r(1) that by (meson distinct_map inj_onD)
    have "p \<in> set (participants w')" unfolding w' p using update_where_hit [OF r(1)] by simp
    moreover have "q = p \<or> q \<in> set (participants w) \<and> pt_id q \<noteq> pt_id p" if "q \<in> set (participants w')" for q
      using that same unfolding w' p by (auto simp: set_update_where resubmitted_def)
    ultimately show ?thesis using r(2) by (auto simp: p resubmitted_def upsert_conflict_def)
  qed
  then show "p \<in> set (participants w')" "\<And>q. q \<in> set (participants w') \<Longrightarrow> q = p \<or> q \<in> set (participants w) \<and> (pt_id q \<noteq> pt_id p \<or> pt_id p = newId)"
    "pt_eventId p = pu_eventId dto" "citext_eq (pt_email p) (pu_email dto)" "pt_deletedAt p = None"
    "pt_status p = ParticipantStatus_Processing" "pt_galleryTokenHash p = pu_galleryTokenHash dto"
    "pt_galleryTokenEnc p = Some (pu_galleryTokenEnc dto)" "pt_selfieKey p = Some (pu_selfieKey dto)"
    by blast+
qed

lemma getActiveEvent_InrD:
  "getActiveEvent slug now w = Inr e \<Longrightarrow> e \<in> set (events w) \<and> e_slug e = slug \<and> e_deletedAt e = None \<and> \<not> isEventExpired e now"
  unfolding getActiveEvent_def event_getBySlug_def
  by (auto dest: select_first_SomeD split: option.splits if_splits)

text \<open>
  After an accepted submission the fresh token resolves, for as long as the event is open, to the guest of
  that event and e-mail address, now in processing; the stored ciphertext of the guest decrypts to that very
  token; the acknowledgement and the selfie job are queued in this order; and the answer is the guest's own
  progress ticket.
\<close>

lemma submit_then_open:
  assumes "submitSelfie env rq now ik w = (Inr ticket, ik', w')" "cipher_ok (sv_cipher env)"
    and "distinct (map e_id (events w))" "distinct (map pt_id (participants w))"
    and fresh: "cr_sha256 (sv_crypto env) (sv_token env) \<notin> pt_galleryTokenHash ` set (participants w)"
      "sv_newId env \<notin> pt_id ` set (participants w)"
  shows "\<exists>p e. getActiveEvent (rq_slug rq) now w = Inr e
    \<and> (\<forall>t. \<not> isEventExpired e t \<longrightarrow> resolveGallery (sv_crypto env) (sv_token env) t w' = Inr (p, e))
    \<and> event_getById (pt_eventId p) w' = Some e \<and> participant_getById (pt_id p) w' = Some p
    \<and> citext_eq (pt_email p) (rq_email rq) \<and> pt_status p = ParticipantStatus_Processing
    \<and> decrypt_token (sv_cipher env) p = Inr (Some (sv_token env))
    \<and> queued w' = queued w @ [SendSelfieReceived (pt_id p), SelfieProcess (pt_id p)]
    \<and> ticket = issueTicket (sv_cipher env) (pt_id p) now"
proof -
  from submitSelfie_Inr [OF assms(1)] obtain e p ps os st where e: "getActiveEvent (rq_slug rq) now w = Inr e"
      and up: "participant_upsert (sv_newId env) (submission_dto env rq e) now (w\<lparr>objects := os\<rparr>) = (p, w\<lparr>objects := os, participants := ps\<rparr>)"
      and ticket: "ticket = issueTicket (sv_cipher env) (pt_id p) now"
      and w': "w' = queueAll [SendSelfieReceived (pt_id p), SelfieProcess (pt_id p)]
       (replaceSelfies (pt_id p) (selfie_keys env e (rq_staged rq)) (sv_selfieIds env)
         (w\<lparr>objects := os, participants := ps\<rparr>))\<lparr>staging := st\<rparr>" .
  note row = participant_upsert_row [OF up, simplified, OF assms(4)]
  have "getByTokenHash (cr_sha256 (sv_crypto env) (sv_token env)) w' = Some p"
    unfolding getByTokenHash_def
  proof (rule select_first_only)
    have ps: "participants w' = ps" by (simp add: w' queueAll_def replaceSelfies_def)
    show "p \<in> set (participants w')" using row(1) by (simp add: ps)
    show "pt_galleryTokenHash p = cr_sha256 (sv_crypto env) (sv_token env) \<and> pt_deletedAt p = None"
      using row(5,7) by (simp add: submission_dto_def)
    fix q assume "q \<in> set (participants w')" "pt_galleryTokenHash q = cr_sha256 (sv_crypto env) (sv_token env) \<and> pt_deletedAt q = None"
    then show "q = p" using row(2) [of q] fresh(1) by (auto simp: ps image_iff)
  qed
  moreover have own: "participant_getById (pt_id p) w' = Some p"
    unfolding participant_getById_def
  proof (rule select_first_only)
    have ps: "participants w' = ps" by (simp add: w' queueAll_def replaceSelfies_def)
    show "p \<in> set (participants w')" "pt_id p = pt_id p \<and> pt_deletedAt p = None" using row(1,5) by (simp_all add: ps)
    fix q assume "q \<in> set (participants w')" "pt_id q = pt_id p \<and> pt_deletedAt q = None"
    then show "q = p" using row(2) [of q] fresh(2) by (auto simp: ps image_iff)
  qed
  moreover have event: "event_getById (pt_eventId p) w' = Some e"
    unfolding event_getById_def
  proof (rule select_first_only)
    have ev: "events w' = events w" by (simp add: w' queueAll_def replaceSelfies_def)
    note act = getActiveEvent_InrD [OF e]
    show "e \<in> set (events w')" "e_id e = pt_eventId p \<and> e_deletedAt e = None"
      using act row(3) by (simp_all add: ev submission_dto_def)
    fix x assume "x \<in> set (events w')" "e_id x = pt_eventId p \<and> e_deletedAt x = None"
    then show "x = e" using act row(3) assms(3) by (auto simp: ev submission_dto_def distinct_map dest: inj_onD)
  qed
  ultimately have "\<forall>t. \<not> isEventExpired e t \<longrightarrow> resolveGallery (sv_crypto env) (sv_token env) t w' = Inr (p, e)"
    by (simp add: resolveGallery_Inr_iff)
  moreover have "decrypt_token (sv_cipher env) p = Inr (Some (sv_token env))"
    using row(8) assms(2) by (simp add: decrypt_token_def submission_dto_def cipher_ok_def)
  moreover have "queued w' = queued w @ [SendSelfieReceived (pt_id p), SelfieProcess (pt_id p)]"
    by (simp add: w' queueAll_def replaceSelfies_def)
  moreover have "citext_eq (pt_email p) (rq_email rq)" using row(4) by (simp add: submission_dto_def)
  ultimately show ?thesis using e ticket row(6) own event by blast
qed

section \<open>What a resubmission leaves behind\<close>

lemma retention_sweep_keys:
  assumes "k \<notin> sf_storageKey ` set (participantSelfies w)" "Some k \<notin> pt_selfieKey ` set (participants w)"
  shows "\<exists>js. queued (snd (handleSelfieRetentionSweep t w)) = queued w @ js \<and> (\<forall>ks. CleanupKeys ks \<in> set js \<longrightarrow> k \<notin> set ks)"
proof -
  let ?due = "getExpiredSelfies SELFIE_RETENTION_DAYS t w"
  let ?keys = "filter (\<lambda>k. k \<noteq> '''') (unique (map (\<lambda>p. the (pt_selfieKey p)) ?due @ listSelfieKeys (map pt_id ?due) w))"
  have "k \<notin> set ?keys"
  proof
    assume "k \<in> set ?keys"
    then consider p where "p \<in> set ?due" "k = the (pt_selfieKey p)" | "k \<in> set (listSelfieKeys (map pt_id ?due) w)" by auto
    then show False
    proof cases
      case 1
      then have "p \<in> set (participants w)" "pt_selfieKey p = Some k" by (auto simp: getExpiredSelfies_def)
      with assms(2) show False by force
    next
      case 2
      with assms(1) show False by (auto simp: listSelfieKeys_def)
    qed
  qed
  moreover have "queued (snd (handleSelfieRetentionSweep t w)) = queued w @ (if ?due = [] \<or> ?keys = [] then [] else [CleanupKeys ?keys])"
    unfolding handleSelfieRetentionSweep_def Let_def fold_scrub by (auto simp del: filter_empty_conv)
  ultimately show ?thesis by (intro exI [of _ "if ?due = [] \<or> ?keys = [] then [] else [CleanupKeys ?keys]"]) auto
qed

text \<open>
  A resubmission orphans the old selfies: the rows of the earlier photos are replaced, but their objects
  stay in the bucket, no row refers to them any more, no cleanup is queued, and the retention sweep, which
  collects keys from the rows, never finds them.
\<close>

theorem resubmission_orphans_selfies:
  assumes "submitSelfie env rq now ik w = (Inr ticket, ik', w')" "getActiveEvent (rq_slug rq) now w = Inr e"
    and again: "select_first (\<lambda>p. pt_eventId p = e_id e \<and> citext_eq (pt_email p) (rq_email rq) \<and> pt_deletedAt p = None) (participants w) = Some p"
    and "k \<in> set (objects w)" "k \<notin> set (selfie_keys env e (rq_staged rq))"
    and "\<forall>s \<in> set (participantSelfies w). sf_storageKey s = k \<longrightarrow> sf_participantId s = pt_id p"
    and "\<forall>q \<in> set (participants w). pt_selfieKey q = Some k \<longrightarrow> pt_id q = pt_id p"
  shows "k \<in> set (objects w') \<and> k \<notin> sf_storageKey ` set (participantSelfies w') \<and> Some k \<notin> pt_selfieKey ` set (participants w')
    \<and> queued w' = queued w @ [SendSelfieReceived (pt_id p), SelfieProcess (pt_id p)]
    \<and> (\<forall>t. \<exists>js. queued (snd (handleSelfieRetentionSweep t w')) = queued w' @ js \<and> (\<forall>ks. CleanupKeys ks \<in> set js \<longrightarrow> k \<notin> set ks))"
proof -
  obtain q ps os st where staged: "check_staged (rq_staged rq) = Inr ()"
      and up: "participant_upsert (sv_newId env) (submission_dto env rq e) now (w\<lparr>objects := os\<rparr>) = (q, w\<lparr>objects := os, participants := ps\<rparr>)"
      and os: "set (objects w) \<union> set (selfie_keys env e (rq_staged rq)) \<subseteq> set os"
      and w': "w' = queueAll [SendSelfieReceived (pt_id q), SelfieProcess (pt_id q)]
       (replaceSelfies (pt_id q) (selfie_keys env e (rq_staged rq)) (sv_selfieIds env)
         (w\<lparr>objects := os, participants := ps\<rparr>))\<lparr>staging := st\<rparr>"
  proof (rule submitSelfie_Inr [OF assms(1)])
    fix e' q ps os st assume "getActiveEvent (rq_slug rq) now w = Inr e'"
    with assms(2) have "e' = e" by simp
    then show "check_staged (rq_staged rq) = Inr () \<Longrightarrow>
      participant_upsert (sv_newId env) (submission_dto env rq e') now (w\<lparr>objects := os\<rparr>) = (q, w\<lparr>objects := os, participants := ps\<rparr>) \<Longrightarrow>
      set (objects w) \<union> set (selfie_keys env e' (rq_staged rq)) \<subseteq> set os \<Longrightarrow>
      w' = queueAll [SendSelfieReceived (pt_id q), SelfieProcess (pt_id q)]
       (replaceSelfies (pt_id q) (selfie_keys env e' (rq_staged rq)) (sv_selfieIds env)
         (w\<lparr>objects := os, participants := ps\<rparr>))\<lparr>staging := st\<rparr> \<Longrightarrow> thesis"
      using that by blast
  qed
  have conflict: "upsert_conflict (submission_dto env rq e)
      = (\<lambda>p. pt_eventId p = e_id e \<and> citext_eq (pt_email p) (rq_email rq) \<and> pt_deletedAt p = None)"
    by (rule ext) (simp add: upsert_conflict_def submission_dto_def)
  have q: "q = resubmitted (submission_dto env rq e) now p" using up again by (simp add: participant_upsert_def conflict)
  have "participants (snd (participant_upsert (sv_newId env) (submission_dto env rq e) now (w\<lparr>objects := os\<rparr>))) = ps"
    by (simp add: up)
  then have ps: "ps = update_where (\<lambda>x. pt_id x = pt_id p) (resubmitted (submission_dto env rq e) now) (participants w)"
    using again by (simp add: participant_upsert_def conflict)
  have id: "pt_id q = pt_id p" by (simp add: q resubmitted_def)
  have "selfie_keys env e (rq_staged rq) \<noteq> []" using staged by (auto simp: selfie_keys_def check_staged_def)
  then have new_key: "pu_selfieKey (submission_dto env rq e) \<noteq> k" using assms(5) by (auto simp: submission_dto_def)
  have 1: "k \<in> set (objects w')" using os assms(4) by (auto simp: w' queueAll_def replaceSelfies_def)
  have 2: "k \<notin> sf_storageKey ` set (participantSelfies w')"
    using assms(5,6) by (auto simp: w' queueAll_def replaceSelfies_def id in_set_enumerate_eq)
  have 3: "Some k \<notin> pt_selfieKey ` set (participants w')"
    using assms(7) new_key by (auto simp: w' queueAll_def replaceSelfies_def ps set_update_where resubmitted_def)
  have 4: "queued w' = queued w @ [SendSelfieReceived (pt_id p), SelfieProcess (pt_id p)]"
    by (simp add: w' queueAll_def replaceSelfies_def id)
  have "\<exists>js. queued (snd (handleSelfieRetentionSweep t w')) = queued w' @ js \<and> (\<forall>ks. CleanupKeys ks \<in> set js \<longrightarrow> k \<notin> set ks)" for t
    using retention_sweep_keys [OF 2 3] by blast
  with 1 2 3 4 show ?thesis by blast
qed

lemma matchParticipant_grows: "set (participantMatches w) \<subseteq> set (participantMatches (snd (matchParticipant env p now w)))"
proof (cases "present (pt_selfieEmbedding p)")
  case True
  from matchParticipant_run [OF this] obtain ps where "matchParticipant env p now w =
    (Inr (fst (insert_matches (new_matches env p now w) (participantMatches w))),
     w\<lparr>participantMatches := snd (insert_matches (new_matches env p now w) (participantMatches w)), persons := ps,
       participants := update_where (\<lambda>r. pt_id r = pt_id p)
         (\<lambda>r. r\<lparr>pt_status := status_of (pt_id p) (snd (insert_matches (new_matches env p now w) (participantMatches w))),
                pt_updatedAt := now\<rparr>) (participants w)\<rparr>)" .
  then show ?thesis using insert_matches_keeps by simp
qed (simp add: matchParticipant_def)

lemma match_each_grows: "set (participantMatches w) \<subseteq> set (participantMatches (snd (match_each env ps now w)))"
proof (induction ps arbitrary: w)
  case (Cons p ps)
  obtain r w1 where run: "matchParticipant env p now w = (r, w1)" by fastforce
  with matchParticipant_grows [of w env p now] have 1: "set (participantMatches w) \<subseteq> set (participantMatches w1)" by simp
  show ?case
  proof (cases r)
    case (Inr n)
    let ?v = "if n > 0 then queue (if pt_notifiedFirstAt p \<noteq> None then SendDigest (pt_id p) else SendGalleryEmail (pt_id p)) w1 else w1"
    have "match_each env (p # ps) now w = match_each env ps now ?v" using run Inr by (simp only: match_each.simps prod.case sum.case)
    moreover have "participantMatches ?v = participantMatches w1" by (simp add: queueAll_def)
    ultimately show ?thesis using Cons.IH [of ?v] 1 by (simp only:)
  qed (use run 1 in simp)
qed simp

lemma handleSelfieProcess_grows: "set (participantMatches w) \<subseteq> set (participantMatches (snd (handleSelfieProcess env i now w)))"
proof -
  have embed: "participantMatches w1 = participantMatches w" if "embed_selfies env c i now ss n w = (r, w1)" for c ss n r w1
    using embed_selfies_frame [of env c i now ss n w] that by simp
  have matched: "set (participantMatches w1) \<subseteq> set (participantMatches w2)" if "matchParticipant env u now w1 = (r, w2)" for u w1 r w2
    using matchParticipant_grows [of w1 env u now] that by simp
  have "x \<in> set (participantMatches (snd (handleSelfieProcess env i now w)))" if "x \<in> set (participantMatches w)" for x
    using that by (auto simp: handleSelfieProcess_def participant_update_def queueAll_def embed
        dest!: embed matched split: option.splits prod.splits sum.splits if_splits)
  then show ?thesis by blast
qed

text \<open>
  Nothing reconciles old matches: a photo once matched stays in the guest's gallery through a
  resubmission, through the processing of the new selfie and through every later re-match, even when no
  selfie of the guest is recognised on it any more.
\<close>

theorem stale_matches_survive:
  assumes "isMatchedAsset i a w" "submitSelfie env rq now ik w = (r, ik', w1)"
    "handleSelfieProcess fenv j t1 w1 = (r2, w2)" "handleParticipantRematch fenv ev t2 w2 = (r3, w3)"
  shows "isMatchedAsset i a w3"
proof -
  have "participantMatches (put_all env keys w) = participantMatches w" for keys
    by (rule put_all_run [of env keys w]) simp
  then have store: "participantMatches (snd (store_submission env rq e now w)) = participantMatches w" for e
    by (auto simp: store_submission_def Let_def split_beta participant_upsert_def queueAll_def replaceSelfies_def split: option.splits)
  have "participantMatches (fold (\<lambda>file. discard (su_stagingPath file)) files v) = participantMatches v" for files v
    using fold_discard_frame [of files v] by auto
  with store assms(2) have "participantMatches w1 = participantMatches w"
    by (auto simp: submitSelfie_def admit_def Let_def split_beta split: sum.splits if_splits)
  moreover have "set (participantMatches w1) \<subseteq> set (participantMatches w2)"
    using handleSelfieProcess_grows [of w1 fenv j t1] assms(3) by simp
  moreover have "set (participantMatches w2) \<subseteq> set (participantMatches w3)"
    using match_each_grows [of w2 fenv "getMatchableByEvent ev w2" t2] arg_cong [OF assms(4), of snd]
    by (auto simp: handleParticipantRematch_def Let_def split: if_splits)
  ultimately show ?thesis using assms(1) by (auto simp: isMatchedAsset_def)
qed

section \<open>A concrete guest\<close>

definition wit_open_world :: world where
  "wit_open_world = empty_world\<lparr>events := [wit_event], assets := [wit_asset], participants := [wit_guest],
     participantSelfies := [wit_selfie 0 ''s0''], objects := [''s0''],
     participantMatches := [\<lparr>m_participantId = ''g'', m_assetId = ''a1'', m_viaFaceId = None, m_distance = 0, m_createdAt = 0\<rparr>]\<rparr>"

definition wit_submit_env :: submit_env where
  "wit_submit_env = \<lparr>sv_crypto = wit_crypto, sv_cipher = wit_ticket_cipher, sv_token = ''t'', sv_keyId = ''n'', sv_newId = ''p2'',
     sv_selfieIds = (\<lambda>_. ''si''), sv_put_ok = (\<lambda>_. True)\<rparr>"

definition wit_selfie_request :: selfie_request where
  "wit_selfie_request = \<lparr>rq_slug = ''wedding'', rq_email = ''g@x'', rq_name = ''Gita'', rq_phone = None, rq_staged = [wit_staged],
     rq_clientIp = ''1''\<rparr>"

lemma wit_open_facts:
  "events wit_open_world = [wit_event]" "participants wit_open_world = [wit_guest]" "objects wit_open_world = [''s0'']"
  "participantSelfies wit_open_world = [wit_selfie 0 ''s0'']" "isMatchedAsset ''g'' ''a1'' wit_open_world"
  "getActiveEvent ''wedding'' 5 wit_open_world = Inr wit_event"
  "getByTokenHash (cr_sha256 wit_crypto ''h'') wit_open_world = Some wit_guest"
  "event_getById ''e'' wit_open_world = Some wit_event" "asset_getById ''e'' ''a1'' wit_open_world = Some wit_asset"
  "pt_eventId wit_guest = ''e''" "pt_id wit_guest = ''g''"
  by (simp_all add: wit_open_world_def wit_event_def wit_guest_def wit_crypto_def getActiveEvent_def event_getBySlug_def
      isEventExpired_def getByTokenHash_def event_getById_def asset_getById_def wit_asset_def isMatchedAsset_def)

lemma fresh_limiters: "fst (ip_consume Mapping.empty k now)" "fst (email_consume Mapping.empty k now)"
  by (simp_all add: ip_consume_def email_consume_def consume_def times_of_def Let_def)

lemma wit_staged_ok: "check_staged [wit_staged] = Inr ()"
  by (simp add: check_staged_def MAX_SELFIES_def wit_staged_def MAX_SELFIE_BYTES_def)

lemma wit_submits: "\<exists>ticket ik' w'. submitSelfie wit_submit_env wit_selfie_request 5 no_hits wit_open_world = (Inr ticket, ik', w')"
proof -
  have "\<exists>ticket. fst (store_submission wit_submit_env wit_selfie_request wit_event 5 wit_open_world) = Inr ticket"
    by (simp add: store_submission_def Let_def split_beta wit_submit_env_def list_all_iff)
  then show ?thesis
    using fresh_limiters
    by (auto simp: submitSelfie_def admit_def wit_selfie_request_def wit_staged_ok wit_open_facts no_hits_def Let_def split_beta)
qed

theorem zip_is_no_shortcut_witness:
  "streamGalleryZip wit_crypto ''h'' None 5 wit_open_world = Inr (''Wedding.zip'', [(''a.jpg'', ''k'')])
   \<and> (\<exists>a original. getGalleryDownloadUrl wit_crypto ''h'' a 5 wit_open_world = Inr (''k'', original))"
proof -
  have "resolveGallery wit_crypto ''h'' 5 wit_open_world = Inr (wit_guest, wit_event)"
    by (simp add: resolveGallery_Inr_iff wit_open_facts isEventExpired_def wit_event_def)
  moreover have "map (\<lambda>m. a_id (ma_asset m)) (getMatchedAssets ''g'' wit_open_world) = [''a1'']"
    by (simp add: getMatchedAssets_def wit_open_world_def by_capture_def wit_asset_def)
  moreover have "safeName ''Wedding'' = ''Wedding''" by code_simp
  ultimately have zip: "streamGalleryZip wit_crypto ''h'' None 5 wit_open_world = Inr (''Wedding.zip'', [(''a.jpg'', ''k'')])"
    by (auto simp: streamGalleryZip_def wit_open_facts freeName.simps wit_event_def wit_asset_def)
  with zip_is_no_shortcut [OF zip, of "''a.jpg''" "''k''"] show ?thesis by simp
qed

theorem expired_gallery_is_closed_witness:
  "fst (getGallery wit_crypto ''h'' 9 (wit_open_world\<lparr>events := [wit_event\<lparr>e_expiresAt := Some 8\<rparr>]\<rparr>))
    = Inl (Gone ''This gallery has closed'' False)"
proof -
  let ?w = "wit_open_world\<lparr>events := [wit_event\<lparr>e_expiresAt := Some 8\<rparr>]\<rparr>"
  have "getByTokenHash (cr_sha256 wit_crypto ''h'') ?w = Some wit_guest"
    "event_getById (pt_eventId wit_guest) ?w = Some (wit_event\<lparr>e_expiresAt := Some 8\<rparr>)"
    "isEventExpired (wit_event\<lparr>e_expiresAt := Some 8\<rparr>) 9" "\<not> isEventPurged (wit_event\<lparr>e_expiresAt := Some 8\<rparr>)"
    by (simp_all add: getByTokenHash_def wit_open_world_def wit_guest_def wit_crypto_def event_getById_def wit_event_def
        isEventExpired_def isEventPurged_def)
  with expired_gallery_is_closed [OF this(1-3)] show ?thesis by simp
qed

theorem intake_is_limited_witness:
  "length (filter (\<lambda>v. visit_ip v = ''1'' \<and> 5 - 3600000 < visit_time v \<and> visit_time v \<le> 5)
     (accepted_visits [(wit_submit_env, wit_selfie_request, 5, wit_open_world), (wit_submit_env, wit_selfie_request, 5, wit_open_world)] no_hits)) \<le> 5"
  using intake_is_limited [of "[(wit_submit_env, wit_selfie_request, 5, wit_open_world), (wit_submit_env, wit_selfie_request, 5, wit_open_world)]" "''1''" 5]
  by (simp del: accepted_visits.simps)

theorem resubmission_orphans_selfies_witness:
  "''s0'' \<in> set (objects (snd (snd (submitSelfie wit_submit_env wit_selfie_request 5 no_hits wit_open_world))))
   \<and> ''s0'' \<notin> sf_storageKey ` set (participantSelfies (snd (snd (submitSelfie wit_submit_env wit_selfie_request 5 no_hits wit_open_world))))"
proof -
  obtain ticket ik' w' where run: "submitSelfie wit_submit_env wit_selfie_request 5 no_hits wit_open_world = (Inr ticket, ik', w')"
    using wit_submits by blast
  have event: "getActiveEvent (rq_slug wit_selfie_request) 5 wit_open_world = Inr wit_event"
    by (simp add: wit_selfie_request_def wit_open_facts)
  have "select_first (\<lambda>p. pt_eventId p = e_id wit_event \<and> citext_eq (pt_email p) (rq_email wit_selfie_request) \<and> pt_deletedAt p = None)
      (participants wit_open_world) = Some wit_guest"
    by (simp add: wit_open_facts wit_guest_def wit_event_def wit_selfie_request_def citext_eq_def)
  from resubmission_orphans_selfies [OF run event this, of "''s0''"]
  show ?thesis by (auto simp: run wit_open_facts selfie_keys_def key_selfie_def wit_selfie_def wit_guest_def)
qed

theorem stale_matches_survive_witness:
  "isMatchedAsset ''g'' ''a1'' (snd (handleParticipantRematch wit_guest_env ''e'' 7 (snd (handleSelfieProcess wit_guest_env ''g'' 6
     (snd (snd (submitSelfie wit_submit_env wit_selfie_request 5 no_hits wit_open_world)))))))"
proof -
  obtain r ik w1 where 1: "submitSelfie wit_submit_env wit_selfie_request 5 no_hits wit_open_world = (r, ik, w1)"
    using prod_cases3 by blast
  obtain r2 w2 where 2: "handleSelfieProcess wit_guest_env ''g'' 6 w1 = (r2, w2)" by fastforce
  obtain r3 w3 where 3: "handleParticipantRematch wit_guest_env ''e'' 7 w2 = (r3, w3)" by fastforce
  show ?thesis using stale_matches_survive [OF wit_open_facts(5) 1 2 3] by (simp add: 1 2 3)
qed

end
