(* ===== verification/Notifications.thy ===== *)
theory Notifications
  imports PublicPolicy
begin

text \<open>
  \<^verbatim>\<open>services/notification.service.ts\<close>, \<^verbatim>\<open>repositories/email-log.repository.ts\<close>, \<^verbatim>\<open>utils/svix-signature.ts\<close>
  and \<^verbatim>\<open>controllers/webhook.controller.ts\<close>: the mails of the queue and the provider's reports on them.
  The provider's answer to a mail (a message id or an error), the ids of the log rows, HMAC, base64 and the
  conversion of a text to a number are arguments. The outbox lists the mails the provider accepted.
\<close>

section \<open>The mail log\<close>

definition emaillog_create :: "uuid \<Rightarrow> uuid option \<Rightarrow> uuid option \<Rightarrow> string \<Rightarrow> EmailTemplate \<Rightarrow> ms \<Rightarrow> world \<Rightarrow> world" where
  [repo_defs]: "emaillog_create i ev p to template now w =
     w\<lparr>emailLogs := emailLogs w @ [\<lparr>el_id = i, el_eventId = ev, el_participantId = p, el_toEmail = to, el_template = template,
        el_status = EmailStatus_Queued, el_messageId = None, el_error = None, el_createdAt = now, el_sentAt = None, el_statusAt = None\<rparr>]\<rparr>"

definition markSent :: "uuid \<Rightarrow> string \<Rightarrow> ms \<Rightarrow> world \<Rightarrow> world" where
  [repo_defs]: "markSent i messageId now w =
     w\<lparr>emailLogs := update_where (\<lambda>l. el_id l = i)
        (\<lambda>l. l\<lparr>el_status := EmailStatus_Sent, el_messageId := Some messageId, el_sentAt := Some now\<rparr>) (emailLogs w)\<rparr>"

definition markFailed :: "uuid \<Rightarrow> string \<Rightarrow> world \<Rightarrow> world" where
  [repo_defs]: "markFailed i err w =
     w\<lparr>emailLogs := update_where (\<lambda>l. el_id l = i)
        (\<lambda>l. l\<lparr>el_status := EmailStatus_Failed, el_error := Some (take 1000 err)\<rparr>) (emailLogs w)\<rparr>"

text \<open>The columns an event of the provider sets; an absent or empty detail leaves the error alone.\<close>

definition provider_update :: "EmailStatus \<Rightarrow> ms \<Rightarrow> string option \<Rightarrow> emaillog_row \<Rightarrow> emaillog_row" where
  "provider_update status occurredAt detail l =
    (let l1 = l\<lparr>el_status := status, el_statusAt := Some occurredAt\<rparr>
     in case detail of None \<Rightarrow> l1 | Some d \<Rightarrow> if d = '''' then l1 else l1\<lparr>el_error := Some (take 1000 d)\<rparr>)"

definition provider_applies :: "string \<Rightarrow> ms \<Rightarrow> emaillog_row \<Rightarrow> bool" where
  "provider_applies messageId occurredAt l \<longleftrightarrow> el_messageId l = Some messageId
    \<and> (case el_statusAt l of None \<Rightarrow> True | Some t \<Rightarrow> t < occurredAt)"

definition applyProviderStatus :: "string \<Rightarrow> EmailStatus \<Rightarrow> ms \<Rightarrow> string option \<Rightarrow> world \<Rightarrow> bool \<times> world" where
  [repo_defs]: "applyProviderStatus messageId status occurredAt detail w =
     (\<exists>l \<in> set (emailLogs w). provider_applies messageId occurredAt l,
      w\<lparr>emailLogs := update_where (provider_applies messageId occurredAt) (provider_update status occurredAt detail) (emailLogs w)\<rparr>)"

section \<open>Sending\<close>

definition DIGEST_THROTTLE_MS :: ms where
  "DIGEST_THROTTLE_MS = 6 * 60 * 60 * 1000"

record mail =
  ml_to :: string
  ml_participant :: "uuid option"
  ml_template :: EmailTemplate
  ml_url :: string
  ml_count :: nat
  ml_at :: ms

record 'p mail_env =
  mv_cipher :: "'p cipher"
  mv_baseUrl :: string
  mv_logId :: "nat \<Rightarrow> uuid"             \<comment> \<open>the ids of the log rows, by the order of the mails\<close>
  mv_provider :: "mail \<Rightarrow> string + string" \<comment> \<open>\<open>Inl\<close> the error, \<open>Inr\<close> the message id\<close>

record post =
  po_world :: world
  po_outbox :: "mail list"

text \<open>
  Both senders of the service: log, hand over, note the outcome. The event is part of the log row only.
\<close>

definition deliver :: "'p mail_env \<Rightarrow> nat \<Rightarrow> uuid option \<Rightarrow> mail \<Rightarrow> ms \<Rightarrow> post \<Rightarrow> bool \<times> post" where
  "deliver env n ev m now s =
    (let w1 = emaillog_create (mv_logId env n) ev (ml_participant m) (ml_to m) (ml_template m) now (po_world s)
     in case mv_provider env m of
          Inr messageId \<Rightarrow> (True, \<lparr>po_world = markSent (mv_logId env n) messageId now w1, po_outbox = po_outbox s @ [m]\<rparr>)
        | Inl err \<Rightarrow> (False, s\<lparr>po_world := markFailed (mv_logId env n) err w1\<rparr>))"

definition send :: "'p mail_env \<Rightarrow> participant_row \<Rightarrow> EmailTemplate \<Rightarrow> string \<Rightarrow> nat \<Rightarrow> ms \<Rightarrow> post \<Rightarrow> JobStatus \<times> post" where
  "send env p template url cnt now s =
    (let (ok, s') = deliver env 0 (Some (pt_eventId p))
           \<lparr>ml_to = pt_email p, ml_participant = Some (pt_id p), ml_template = template, ml_url = url, ml_count = cnt, ml_at = now\<rparr> now s
     in (if ok then JobStatus_Success else JobStatus_Failed, s'))"

definition sendToAddress :: "'p mail_env \<Rightarrow> nat \<Rightarrow> uuid \<Rightarrow> string \<Rightarrow> EmailTemplate \<Rightarrow> string \<Rightarrow> nat \<Rightarrow> ms \<Rightarrow> post \<Rightarrow> bool \<times> post" where
  "sendToAddress env n ev to template url cnt now s =
    deliver env n (Some ev)
      \<lparr>ml_to = to, ml_participant = None, ml_template = template, ml_url = url, ml_count = cnt, ml_at = now\<rparr> now s"

record MailContext =
  mc_participant :: participant_row
  mc_eventName :: string
  mc_eventSlug :: string
  mc_expiresAt :: "ms option"
  mc_galleryUrl :: string

definition loadContext :: "'p mail_env \<Rightarrow> uuid \<Rightarrow> world \<Rightarrow> MailContext option outcome" where
  "loadContext env i w =
    (case participant_getById i w of
       None \<Rightarrow> Inr None
     | Some p \<Rightarrow>
    (case event_getById (pt_eventId p) w of
       None \<Rightarrow> Inr None
     | Some e \<Rightarrow>
    (case decrypt_token (mv_cipher env) p of
       Inl err \<Rightarrow> Inl err
     | Inr rawToken \<Rightarrow>
        Inr (Some \<lparr>mc_participant = p, mc_eventName = e_name e, mc_eventSlug = e_slug e, mc_expiresAt = e_expiresAt e,
          mc_galleryUrl = (if present rawToken then galleryUrl (mv_baseUrl env) (the rawToken) else '''')\<rparr>))))"

text \<open>Every mail job starts with the context.\<close>

definition with_context :: "'p mail_env \<Rightarrow> uuid \<Rightarrow> (MailContext \<Rightarrow> post \<Rightarrow> JobStatus \<times> post) \<Rightarrow> post \<Rightarrow> JobStatus outcome \<times> post" where
  "with_context env i f s =
    (case loadContext env i (po_world s) of
       Inl err \<Rightarrow> (Inl err, s)
     | Inr None \<Rightarrow> (Inr JobStatus_Skipped, s)
     | Inr (Some c) \<Rightarrow> (case f c s of (st, s') \<Rightarrow> (Inr st, s')))"

definition handleSendSelfieReceived :: "'p mail_env \<Rightarrow> uuid \<Rightarrow> ms \<Rightarrow> post \<Rightarrow> JobStatus outcome \<times> post" where
  "handleSendSelfieReceived env i now s =
    with_context env i (\<lambda>c. send env (mc_participant c) EmailTemplate_SelfieReceived (mc_galleryUrl c) 0 now) s"

definition on_world :: "(world \<Rightarrow> world) \<Rightarrow> post \<Rightarrow> post" where
  "on_world f s = s\<lparr>po_world := f (po_world s)\<rparr>"

definition gallery_mail :: "'p mail_env \<Rightarrow> uuid \<Rightarrow> ms \<Rightarrow> MailContext \<Rightarrow> post \<Rightarrow> JobStatus \<times> post" where
  "gallery_mail env i now c s =
    (let p = mc_participant c; matchCount = countMatches i None (po_world s)
     in if matchCount = 0 then (JobStatus_Skipped, s)
        else if \<not> pt_awaitingResultNotice p then (JobStatus_Skipped, s)
        else
        let (status, s1) = send env p EmailTemplate_GalleryReady (mc_galleryUrl c) matchCount now s
        in (status,
            if status = JobStatus_Success
            then on_world (participant_update i (\<lambda>r. r\<lparr>pt_notifiedFirstAt := Some now, pt_lastNotifiedAt := Some now,
                   pt_awaitingResultNotice := False\<rparr>) now) s1
            else s1))"

definition handleSendGalleryEmail :: "'p mail_env \<Rightarrow> uuid \<Rightarrow> ms \<Rightarrow> post \<Rightarrow> JobStatus outcome \<times> post" where
  "handleSendGalleryEmail env i now s = with_context env i (gallery_mail env i now) s"

definition digest_mail :: "'p mail_env \<Rightarrow> uuid \<Rightarrow> ms \<Rightarrow> ms \<Rightarrow> MailContext \<Rightarrow> post \<Rightarrow> JobStatus \<times> post" where
  "digest_mail env i since now c s =
    (if now - since < DIGEST_THROTTLE_MS then (JobStatus_Skipped, s)
     else
     let newCount = countMatches i (Some since) (po_world s)
     in if newCount = 0 then (JobStatus_Skipped, s)
        else
        let (status, s1) = send env (mc_participant c) EmailTemplate_GalleryUpdate (mc_galleryUrl c) newCount now s
        in (status,
            if status = JobStatus_Success
            then on_world (participant_update i (\<lambda>r. r\<lparr>pt_lastNotifiedAt := Some now\<rparr>) now) s1 else s1))"

definition handleSendDigest :: "'p mail_env \<Rightarrow> uuid \<Rightarrow> ms \<Rightarrow> post \<Rightarrow> JobStatus outcome \<times> post" where
  "handleSendDigest env i now s =
    (case loadContext env i (po_world s) of
       Inl err \<Rightarrow> (Inl err, s)
     | Inr None \<Rightarrow> (Inr JobStatus_Skipped, s)
     | Inr (Some c) \<Rightarrow>
        (case pt_notifiedFirstAt (mc_participant c) of
           None \<Rightarrow> handleSendGalleryEmail env i now s
         | Some first \<Rightarrow>
            (case digest_mail env i (or_default (pt_lastNotifiedAt (mc_participant c)) first) now c s of (st, s') \<Rightarrow> (Inr st, s'))))"

definition handleSendNoFaceEmail :: "'p mail_env \<Rightarrow> uuid \<Rightarrow> ms \<Rightarrow> post \<Rightarrow> JobStatus outcome \<times> post" where
  "handleSendNoFaceEmail env i now s =
    with_context env i (\<lambda>c. send env (mc_participant c) EmailTemplate_NoFaceDetected
      (eventUrl (mv_baseUrl env) (mc_eventSlug c)) 0 now) s"

subsection \<open>Telling the owners\<close>

definition asset_countForEvent :: "uuid \<Rightarrow> world \<Rightarrow> nat" where
  [repo_defs]: "asset_countForEvent ev w = length (filter (\<lambda>a. a_eventId a = ev \<and> a_deletedAt a = None) (assets w))"

fun mail_owners :: "'p mail_env \<Rightarrow> uuid \<Rightarrow> string \<Rightarrow> nat \<Rightarrow> ms \<Rightarrow> (string \<times> string) list \<Rightarrow> nat \<Rightarrow> nat \<Rightarrow> post \<Rightarrow> nat \<times> post" where
  "mail_owners env ev url cnt now [] n failed s = (failed, s)"
| "mail_owners env ev url cnt now ((email, name) # owners) n failed s =
    (let (ok, s1) = sendToAddress env n ev email EmailTemplate_EventExpired url cnt now s
     in mail_owners env ev url cnt now owners (n + 1) (if ok then failed else failed + 1) s1)"

definition handleSendEventExpiry :: "'p mail_env \<Rightarrow> uuid \<Rightarrow> ms \<Rightarrow> post \<Rightarrow> JobStatus \<times> post" where
  "handleSendEventExpiry env ev now s =
    (case event_getById ev (po_world s) of
       None \<Rightarrow> (JobStatus_Skipped, s)
     | Some e \<Rightarrow>
        if e_deletedAt e \<noteq> None \<or> e_expiresAt e = None \<or> e_purgeAfter e = None then (JobStatus_Skipped, s)
        else
        let owners = getOwnerEmails (e_orgId e) (po_world s)
        in if owners = [] then (JobStatus_Skipped, s)
           else
           let (failed, s') = mail_owners env ev (mv_baseUrl env @ ''/events/'' @ ev @ ''/settings'')
                 (asset_countForEvent ev (po_world s)) now owners 0 0 s
           in (if failed = length owners then JobStatus_Failed else JobStatus_Success, s'))"

section \<open>The provider's reports\<close>

record SvixHeaders =
  sx_id :: "string option"
  sx_timestamp :: "string option"
  sx_signature :: "string option"

text \<open>\<open>sc_hmac key payload\<close> is the digest in base64; \<open>sc_number\<close> is \<^verbatim>\<open>Number(text)\<close> when that is finite.\<close>

record svix_crypto =
  sc_base64_decode :: "string \<Rightarrow> string"
  sc_hmac :: "string \<Rightarrow> string \<Rightarrow> string"
  sc_number :: "string \<Rightarrow> real option"

definition TOLERANCE_SECONDS :: int where
  "TOLERANCE_SECONDS = 5 * 60"

definition decodeSecret :: "svix_crypto \<Rightarrow> string \<Rightarrow> string" where
  "decodeSecret c secret = sc_base64_decode c (if prefix ''whsec_'' secret then drop 6 secret else secret)"

text \<open>\<^verbatim>\<open>text.split(c)\<close>: never empty.\<close>

fun js_split :: "char \<Rightarrow> string \<Rightarrow> string list" where
  "js_split c [] = [[]]"
| "js_split c (x # xs) =
    (if x = c then [] # js_split c xs
     else case js_split c xs of [] \<Rightarrow> [[x]] | y # ys \<Rightarrow> (x # y) # ys)"

definition entry_matches :: "string \<Rightarrow> string \<Rightarrow> bool" where
  "entry_matches expected entry \<longleftrightarrow>
    (case js_split CHR '','' entry of version # value # _ \<Rightarrow> version = ''v1'' \<and> value \<noteq> '''' \<and> value = expected | _ \<Rightarrow> False)"

definition verifySvixSignature :: "svix_crypto \<Rightarrow> string \<Rightarrow> SvixHeaders \<Rightarrow> string \<Rightarrow> ms \<Rightarrow> bool" where
  "verifySvixSignature c rawBody headers secret now =
    (if \<not> present (sx_id headers) \<or> \<not> present (sx_timestamp headers) \<or> \<not> present (sx_signature headers) then False
     else let i = the (sx_id headers); timestamp = the (sx_timestamp headers)
     in case sc_number c timestamp of
          None \<Rightarrow> False
        | Some sentAt \<Rightarrow>
           if \<bar>real_of_int (now div 1000) - sentAt\<bar> > real_of_int TOLERANCE_SECONDS then False
           else let expected = sc_hmac c (decodeSecret c secret) (i @ ''.'' @ timestamp @ ''.'' @ rawBody)
                in list_ex (entry_matches expected) (js_split CHR '' '' (the (sx_signature headers))))"

fun STATUS_BY_EVENT :: "string \<Rightarrow> EmailStatus option" where
  "STATUS_BY_EVENT t =
    (if t = ''email.delivered'' then Some EmailStatus_Delivered
     else if t = ''email.bounced'' then Some EmailStatus_Bounced
     else if t = ''email.complained'' then Some EmailStatus_Complained
     else if t = ''email.failed'' then Some EmailStatus_Failed else None)"

text \<open>The parsed body; \<open>re_created_at\<close> is the date it carries, \<open>None\<close> if absent or not a date.\<close>

record ResendEvent =
  re_type :: "string option"
  re_created_at :: "ms option"
  re_email_id :: "string option"
  re_bounce_message :: "string option"
  re_reason :: "string option"

definition resend_webhook :: "svix_crypto \<Rightarrow> string option \<Rightarrow> string option \<Rightarrow> SvixHeaders \<Rightarrow> ResendEvent \<Rightarrow> ms \<Rightarrow> world \<Rightarrow> unit outcome \<times> world" where
  "resend_webhook c secret rawBody headers body now w =
    (if \<not> present secret \<or> \<not> present rawBody \<or> \<not> verifySvixSignature c (the rawBody) headers (the secret) now
     then (Inl (Unauthorized ''''), w)
     else
     case (if present (re_type body) then STATUS_BY_EVENT (the (re_type body)) else None) of
       None \<Rightarrow> (Inr (), w)
     | Some status \<Rightarrow>
        if \<not> present (re_email_id body) then (Inr (), w)
        else (Inr (), snd (applyProviderStatus (the (re_email_id body)) status (or_default (re_created_at body) now)
               (case re_bounce_message body of Some m \<Rightarrow> Some m | None \<Rightarrow> re_reason body) w)))"

text \<open>The heartbeat's token check: \<^verbatim>\<open>replace(/^Bearer\s+/i, '')\<close> and a comparison.\<close>

definition heartbeat_token :: "string option \<Rightarrow> string" where
  "heartbeat_token authorization =
    (let a = or_default authorization ''''
     in if toLowerCase (take 6 a) = ''bearer'' \<and> drop 6 a \<noteq> [] \<and> js_space (hd (drop 6 a))
        then dropWhile js_space (drop 6 a) else a)"

definition gpuHeartbeat :: "string option \<Rightarrow> string option \<Rightarrow> gpu_env \<Rightarrow> ms \<Rightarrow> gpu_sys \<Rightarrow> (bool \<times> int) outcome \<times> gpu_sys" where
  "gpuHeartbeat expected authorization env now s =
    (if \<not> present expected \<or> heartbeat_token authorization \<noteq> the expected then (Inl (Unauthorized ''''), s)
     else case heartbeat env now s of (r, s') \<Rightarrow> (Inr r, s'))"

end
