(* ===== verification/NotificationPolicy.thy ===== *)
theory NotificationPolicy
  imports Notifications
begin

text \<open>
  What the mails promise: the acknowledgement carries a link that opens the gallery, digests keep their
  distance, provider reports settle in whatever order they arrive and only with a fresh signature; and where
  a resent link or a throttled digest is never mailed.
\<close>

section \<open>The cadence of a guest's mails\<close>

definition gallery_news :: "mail \<Rightarrow> bool" where
  "gallery_news m \<longleftrightarrow> ml_template m \<in> {EmailTemplate_GalleryReady, EmailTemplate_GalleryUpdate}"

text \<open>A digest behind any gallery mail of the same guest.\<close>

definition spaced :: "mail \<Rightarrow> mail \<Rightarrow> bool" where
  "spaced m n \<longleftrightarrow> (ml_participant m = ml_participant n \<and> ml_participant n \<noteq> None \<and> gallery_news m \<and> ml_template n = EmailTemplate_GalleryUpdate
     \<longrightarrow> ml_at m + DIGEST_THROTTLE_MS \<le> ml_at n)"

datatype mail_job = MJ_received uuid | MJ_gallery uuid | MJ_digest uuid | MJ_noFace uuid | MJ_expiry uuid

fun run_mail_job :: "'p mail_env \<Rightarrow> mail_job \<Rightarrow> ms \<Rightarrow> post \<Rightarrow> post" where
  "run_mail_job env (MJ_received i) now s = snd (handleSendSelfieReceived env i now s)"
| "run_mail_job env (MJ_gallery i) now s = snd (handleSendGalleryEmail env i now s)"
| "run_mail_job env (MJ_digest i) now s = snd (handleSendDigest env i now s)"
| "run_mail_job env (MJ_noFace i) now s = snd (handleSendNoFaceEmail env i now s)"
| "run_mail_job env (MJ_expiry ev) now s = snd (handleSendEventExpiry env ev now s)"

text \<open>
  What every other part of the program does to the marks of the last mail: nothing. A guest who was not
  there before has an id that no mail was sent to.
\<close>

definition marks_kept :: "post \<Rightarrow> world \<Rightarrow> bool" where
  "marks_kept s w \<longleftrightarrow> (\<forall>p \<in> set (participants w).
     (\<exists>q \<in> set (participants (po_world s)). pt_id q = pt_id p \<and> pt_lastNotifiedAt q = pt_lastNotifiedAt p)
     \<or> (\<forall>m \<in> set (po_outbox s). ml_participant m \<noteq> Some (pt_id p)))"

text \<open>The system: a clock that does not run backwards, mail jobs of any guest in any order, and anything else.\<close>

datatype 'p mail_label = Mail_job "'p mail_env" mail_job | Other_request

inductive mail_step :: "ms \<times> post \<Rightarrow> 'p mail_label \<Rightarrow> ms \<times> post \<Rightarrow> bool" where
  job: "clock \<le> now \<Longrightarrow> mail_step (clock, s) (Mail_job env j) (now, run_mail_job env j now s)"
| other: "clock \<le> now \<Longrightarrow> marks_kept s w \<Longrightarrow> mail_step (clock, s) Other_request (now, s\<lparr>po_world := w\<rparr>)"

definition mail_start :: "ms \<times> post \<Rightarrow> bool" where
  "mail_start x \<longleftrightarrow> po_outbox (snd x) = []"

definition told :: "mail \<Rightarrow> participant_row \<Rightarrow> bool" where
  "told m p \<longleftrightarrow> (\<exists>l. pt_lastNotifiedAt p = Some l \<and> ml_at m \<le> l)"

definition mail_inv :: "ms \<times> post \<Rightarrow> bool" where
  "mail_inv x \<longleftrightarrow> (\<forall>m \<in> set (po_outbox (snd x)). ml_at m \<le> fst x)
     \<and> (\<forall>m \<in> set (po_outbox (snd x)). \<forall>p \<in> set (participants (po_world (snd x))).
          gallery_news m \<and> ml_participant m = Some (pt_id p) \<longrightarrow> told m p)
     \<and> sorted_wrt spaced (po_outbox (snd x))"

subsection \<open>What a mail job does\<close>

text \<open>The outbox grows by accepted mails of the moment; participants change only by a gallery mail of their own.\<close>

definition logged_as :: "post \<Rightarrow> emaillog_row list \<Rightarrow> mail list \<Rightarrow> post" where
  "logged_as s ls ms = \<lparr>po_world = (po_world s)\<lparr>emailLogs := ls\<rparr>, po_outbox = po_outbox s @ ms\<rparr>"

lemma logged_as_self: "logged_as s (emailLogs (po_world s)) [] = s"
  by (simp add: logged_as_def)

lemma logged_as_twice: "logged_as (logged_as s ls ms) ls' ms' = logged_as s ls' (ms @ ms')"
  by (simp add: logged_as_def)

lemma deliver_effect:
  obtains (accepted) x ls where "mv_provider env m = Inr x" "deliver env n ev m now s = (True, logged_as s ls [m])"
  | (refused) e ls where "mv_provider env m = Inl e" "deliver env n ev m now s = (False, logged_as s ls [])"
proof (cases "mv_provider env m")
  case (Inl e)
  then have "deliver env n ev m now s = (False, logged_as s (emailLogs (po_world (snd (deliver env n ev m now s)))) [])"
    by (simp add: deliver_def Let_def emaillog_create_def markFailed_def logged_as_def)
  with Inl refused show thesis by blast
next
  case (Inr x)
  then have "deliver env n ev m now s = (True, logged_as s (emailLogs (po_world (snd (deliver env n ev m now s)))) [m])"
    by (simp add: deliver_def Let_def emaillog_create_def markSent_def logged_as_def)
  with Inr accepted show thesis by blast
qed

definition guest_mail :: "participant_row \<Rightarrow> EmailTemplate \<Rightarrow> string \<Rightarrow> nat \<Rightarrow> ms \<Rightarrow> mail" where
  "guest_mail p template url cnt now =
    \<lparr>ml_to = pt_email p, ml_participant = Some (pt_id p), ml_template = template, ml_url = url, ml_count = cnt, ml_at = now\<rparr>"

lemma send_effect:
  obtains (accepted) x ls where "mv_provider env (guest_mail p template url cnt now) = Inr x"
      "send env p template url cnt now s = (JobStatus_Success, logged_as s ls [guest_mail p template url cnt now])"
  | (refused) e ls where "mv_provider env (guest_mail p template url cnt now) = Inl e"
      "send env p template url cnt now s = (JobStatus_Failed, logged_as s ls [])"
proof (cases rule: deliver_effect [of env "guest_mail p template url cnt now" 0 "Some (pt_eventId p)" now s])
  case (accepted x ls)
  then show thesis by (intro that(1) [of x ls]) (simp_all add: send_def guest_mail_def Let_def)
next
  case (refused e ls)
  then show thesis by (intro that(2) [of e ls]) (simp_all add: send_def guest_mail_def Let_def)
qed

lemma loadContext_Some: "loadContext env i w = Inr (Some c) \<Longrightarrow> participant_getById i w = Some (mc_participant c)"
  by (auto simp: loadContext_def split: option.splits sum.splits)

text \<open>A job that sends no news of the gallery.\<close>

definition plain_run :: "ms \<Rightarrow> post \<Rightarrow> post \<Rightarrow> bool" where
  "plain_run now s s' \<longleftrightarrow> (\<exists>ls ms. s' = logged_as s ls ms \<and> (\<forall>m \<in> set ms. \<not> gallery_news m \<and> ml_at m = now))"

lemma plain_run_refl [simp]: "plain_run now s s"
  unfolding plain_run_def by (rule exI [of _ "emailLogs (po_world s)"], rule exI [of _ "[]"]) (simp add: logged_as_self)

lemma plain_run_logged [simp]: "(\<forall>m \<in> set ms. \<not> gallery_news m \<and> ml_at m = now) \<Longrightarrow> plain_run now s (logged_as s ls ms)"
  unfolding plain_run_def by blast

lemma plain_run_trans: "plain_run now s s' \<Longrightarrow> plain_run now s' s'' \<Longrightarrow> plain_run now s s''"
  unfolding plain_run_def by (elim exE conjE) (metis (no_types, lifting) Un_iff logged_as_twice set_append)

lemma plain_send:
  assumes "template \<notin> {EmailTemplate_GalleryReady, EmailTemplate_GalleryUpdate}"
  shows "plain_run now s (snd (send env p template url cnt now s))"
  by (cases rule: send_effect [of env p template url cnt now s]) (use assms in \<open>auto simp: gallery_news_def guest_mail_def\<close>)

lemma plain_with_context:
  "(\<And>c. plain_run now s (snd (f c s))) \<Longrightarrow> plain_run now s (snd (with_context env i f s))"
  by (auto simp: with_context_def split_beta split: sum.splits option.splits)

lemma plain_mail_owners: "plain_run now s (snd (mail_owners env ev url cnt now owners n failed s))"
proof (induction env ev url cnt now owners n failed s rule: mail_owners.induct)
  case (2 env ev url cnt now email name owners n failed s)
  let ?m = "\<lparr>ml_to = email, ml_participant = None, ml_template = EmailTemplate_EventExpired, ml_url = url, ml_count = cnt, ml_at = now\<rparr>"
  have "plain_run now s (snd (sendToAddress env n ev email EmailTemplate_EventExpired url cnt now s))"
    by (cases rule: deliver_effect [of env ?m n "Some ev" now s]) (simp_all add: sendToAddress_def gallery_news_def)
  moreover obtain ok s1 where run: "sendToAddress env n ev email EmailTemplate_EventExpired url cnt now s = (ok, s1)" by fastforce
  ultimately show ?case using 2 [OF run [symmetric] refl] by (auto intro: plain_run_trans)
qed simp

text \<open>The ways a gallery mail ends.\<close>

definition first_run :: "uuid \<Rightarrow> ms \<Rightarrow> post \<Rightarrow> post \<Rightarrow> bool" where
  "first_run i now s s' \<longleftrightarrow> (\<exists>m ls. gallery_news m \<and> ml_template m = EmailTemplate_GalleryReady \<and> ml_at m = now \<and> ml_participant m = Some i
     \<and> s' = on_world (participant_update i (\<lambda>r. r\<lparr>pt_notifiedFirstAt := Some now, pt_lastNotifiedAt := Some now,
          pt_awaitingResultNotice := False\<rparr>) now) (logged_as s ls [m]))"

definition digest_run :: "uuid \<Rightarrow> ms \<Rightarrow> post \<Rightarrow> post \<Rightarrow> bool" where
  "digest_run i now s s' \<longleftrightarrow> (\<exists>m ls p f. gallery_news m \<and> ml_at m = now \<and> ml_participant m = Some i
     \<and> p \<in> set (participants (po_world s)) \<and> pt_id p = i \<and> pt_notifiedFirstAt p = Some f
     \<and> or_default (pt_lastNotifiedAt p) f + DIGEST_THROTTLE_MS \<le> now
     \<and> s' = on_world (participant_update i (\<lambda>r. r\<lparr>pt_lastNotifiedAt := Some now\<rparr>) now) (logged_as s ls [m]))"

lemma gallery_email_runs:
  "plain_run now s (snd (handleSendGalleryEmail env i now s)) \<or> first_run i now s (snd (handleSendGalleryEmail env i now s))"
proof (cases "loadContext env i (po_world s)")
  case (Inr oc)
  show ?thesis
  proof (cases oc)
    case (Some c)
    let ?p = "mc_participant c" and ?n = "countMatches i None (po_world s)"
    have own: "pt_id ?p = i" using loadContext_Some Inr Some participant_getById_SomeD by blast
    have run: "snd (handleSendGalleryEmail env i now s) = snd (gallery_mail env i now c s)"
      by (simp add: handleSendGalleryEmail_def with_context_def Inr Some split_beta)
    show ?thesis
    proof (cases "?n = 0 \<or> \<not> pt_awaitingResultNotice ?p")
      case True
      then show ?thesis unfolding run by (auto simp: gallery_mail_def Let_def)
    next
      case False
      show ?thesis
      proof (cases rule: send_effect [of env ?p EmailTemplate_GalleryReady "mc_galleryUrl c" ?n now s])
        case (accepted x ls)
        let ?m = "guest_mail ?p EmailTemplate_GalleryReady (mc_galleryUrl c) ?n now"
        have "snd (gallery_mail env i now c s) = on_world (participant_update i (\<lambda>r. r\<lparr>pt_notifiedFirstAt := Some now,
            pt_lastNotifiedAt := Some now, pt_awaitingResultNotice := False\<rparr>) now) (logged_as s ls [?m])"
          using False accepted by (simp add: gallery_mail_def Let_def)
        then have "first_run i now s (snd (gallery_mail env i now c s))" unfolding first_run_def
          using own by (intro exI [of _ ?m] exI [of _ ls]) (simp add: guest_mail_def gallery_news_def)
        then show ?thesis unfolding run by simp
      next
        case (refused e ls)
        then show ?thesis unfolding run using False by (simp add: gallery_mail_def Let_def)
      qed
    qed
  qed (simp add: handleSendGalleryEmail_def with_context_def Inr)
qed (simp add: handleSendGalleryEmail_def with_context_def)

lemma digest_runs:
  "plain_run now s (snd (handleSendDigest env i now s)) \<or> first_run i now s (snd (handleSendDigest env i now s))
    \<or> digest_run i now s (snd (handleSendDigest env i now s))"
proof (cases "loadContext env i (po_world s)")
  case (Inr oc)
  show ?thesis
  proof (cases oc)
    case (Some c)
    let ?p = "mc_participant c"
    have own: "?p \<in> set (participants (po_world s))" "pt_id ?p = i"
      using loadContext_Some Inr Some participant_getById_SomeD by blast+
    show ?thesis
    proof (cases "pt_notifiedFirstAt ?p")
      case None
      then have "handleSendDigest env i now s = handleSendGalleryEmail env i now s" by (simp add: handleSendDigest_def Inr Some)
      then show ?thesis using gallery_email_runs by metis
    next
      case (Some f)
      let ?since = "or_default (pt_lastNotifiedAt ?p) f" and ?n = "countMatches i (Some (or_default (pt_lastNotifiedAt ?p) f)) (po_world s)"
      have run: "snd (handleSendDigest env i now s) = snd (digest_mail env i ?since now c s)"
        by (simp add: handleSendDigest_def Inr \<open>oc = Some c\<close> Some split_beta)
      show ?thesis
      proof (cases "now - ?since < DIGEST_THROTTLE_MS \<or> ?n = 0")
        case True
        then show ?thesis unfolding run by (auto simp: digest_mail_def Let_def)
      next
        case False
        show ?thesis
        proof (cases rule: send_effect [of env ?p EmailTemplate_GalleryUpdate "mc_galleryUrl c" ?n now s])
          case (accepted x ls)
          let ?m = "guest_mail ?p EmailTemplate_GalleryUpdate (mc_galleryUrl c) ?n now"
          have "snd (digest_mail env i ?since now c s)
              = on_world (participant_update i (\<lambda>r. r\<lparr>pt_lastNotifiedAt := Some now\<rparr>) now) (logged_as s ls [?m])"
            using False accepted by (simp add: digest_mail_def Let_def)
          then have "digest_run i now s (snd (digest_mail env i ?since now c s))" unfolding digest_run_def
            using False own Some by (intro exI [of _ ?m] exI [of _ ls] exI [of _ ?p] exI [of _ f])
              (simp add: guest_mail_def gallery_news_def)
          then show ?thesis unfolding run by simp
        next
          case (refused e ls)
          then show ?thesis unfolding run using False by (simp add: digest_mail_def Let_def)
        qed
      qed
    qed
  qed (simp add: handleSendDigest_def Inr)
qed (simp add: handleSendDigest_def)

lemma mail_job_runs:
  "plain_run now s (run_mail_job env j now s) \<or> (\<exists>i. first_run i now s (run_mail_job env j now s))
    \<or> (\<exists>i. digest_run i now s (run_mail_job env j now s))"
proof (cases j)
  case (MJ_received i)
  then show ?thesis by (simp add: handleSendSelfieReceived_def plain_with_context plain_send)
next
  case (MJ_gallery i)
  then show ?thesis using gallery_email_runs [of now s env i] by auto
next
  case (MJ_digest i)
  then show ?thesis using digest_runs [of now s env i] by auto
next
  case (MJ_noFace i)
  then show ?thesis by (simp add: handleSendNoFaceEmail_def plain_with_context plain_send)
next
  case (MJ_expiry ev)
  then show ?thesis by (simp add: handleSendEventExpiry_def Let_def split_beta plain_mail_owners split: option.splits)
qed

subsection \<open>The invariant\<close>

lemma participants_logged [simp]: "participants (po_world (logged_as s ls ms)) = participants (po_world s)"
  "po_outbox (logged_as s ls ms) = po_outbox s @ ms"
  by (simp_all add: logged_as_def)

lemma mail_inv_extend:
  assumes inv: "mail_inv (clock, s)" "clock \<le> now" and out: "po_outbox s' = po_outbox s @ ms" "\<forall>m \<in> set ms. ml_at m = now"
    and apart: "sorted_wrt spaced ms" "\<And>x m. x \<in> set (po_outbox s) \<Longrightarrow> m \<in> set ms \<Longrightarrow> spaced x m"
    and rows: "\<And>p. p \<in> set (participants (po_world s')) \<Longrightarrow> pt_lastNotifiedAt p = Some now \<or>
      (\<exists>q \<in> set (participants (po_world s)). pt_id q = pt_id p \<and> pt_lastNotifiedAt q = pt_lastNotifiedAt p)"
    and news: "\<And>m p. m \<in> set ms \<Longrightarrow> p \<in> set (participants (po_world s')) \<Longrightarrow> gallery_news m \<Longrightarrow>
      ml_participant m = Some (pt_id p) \<Longrightarrow> pt_lastNotifiedAt p = Some now"
  shows "mail_inv (now, s')"
proof -
  have past: "ml_at m \<le> now" if "m \<in> set (po_outbox s)" for m using inv that by (force simp: mail_inv_def)
  have "told m p" if m: "m \<in> set (po_outbox s')" "gallery_news m" "ml_participant m = Some (pt_id p)"
    and p: "p \<in> set (participants (po_world s'))" for m p
  proof (cases "m \<in> set ms")
    case True
    with news m p out(2) show ?thesis by (simp add: told_def)
  next
    case False
    with m(1) out(1) have old: "m \<in> set (po_outbox s)" by simp
    from rows [OF p] show ?thesis
    proof
      assume "pt_lastNotifiedAt p = Some now"
      with past [OF old] show ?thesis by (simp add: told_def)
    next
      assume "\<exists>q \<in> set (participants (po_world s)). pt_id q = pt_id p \<and> pt_lastNotifiedAt q = pt_lastNotifiedAt p"
      then obtain q where q: "q \<in> set (participants (po_world s))" "pt_id q = pt_id p" "pt_lastNotifiedAt q = pt_lastNotifiedAt p" by blast
      have "told m q" using inv(1) old m(2,3) q(1,2) by (simp add: mail_inv_def)
      with q(3) show ?thesis by (simp add: told_def)
    qed
  qed
  moreover have "\<forall>m \<in> set (po_outbox s'). ml_at m \<le> now" using past out by auto
  moreover have "sorted_wrt spaced (po_outbox s')" using inv(1) apart by (auto simp: mail_inv_def out(1) sorted_wrt_append)
  ultimately show ?thesis by (simp add: mail_inv_def)
qed

lemma mail_inv_plain:
  assumes "mail_inv (clock, s)" "clock \<le> now" "plain_run now s s'"
  shows "mail_inv (now, s')"
proof -
  from assms(3) obtain ls ms where s': "s' = logged_as s ls ms" and new: "\<forall>m \<in> set ms. \<not> gallery_news m \<and> ml_at m = now"
    unfolding plain_run_def by blast
  have apart: "spaced m n" if "n \<in> set ms" for m n using new that by (auto simp: spaced_def gallery_news_def)
  have "sorted_wrt spaced ns" if "set ns \<subseteq> set ms" for ns using that apart by (induction ns) auto
  then have "sorted_wrt spaced ms" by simp
  then show ?thesis
    by (rule mail_inv_extend [OF assms(1,2), of s' ms, rotated 2]) (use apart new in \<open>auto simp: s'\<close>)
qed

text \<open>The rows after the mark of a mail.\<close>

lemma marked_rows:
  assumes "p \<in> set (participants (po_world (on_world (participant_update i f now) s)))"
    and "\<And>r. pt_id (f r) = pt_id r \<and> pt_lastNotifiedAt (f r) = Some now"
  shows "pt_id p = i \<and> pt_lastNotifiedAt p = Some now \<or> pt_id p \<noteq> i \<and> p \<in> set (participants (po_world s))"
proof -
  from assms(1) obtain r where "r \<in> set (participants (po_world s))"
    "p = (if pt_id r = i then (f r)\<lparr>pt_updatedAt := now\<rparr> else r)"
    by (auto simp: on_world_def participant_update_def set_update_where)
  with assms(2) [of r] show ?thesis by (simp split: if_splits)
qed

lemma mail_inv_marked:
  assumes "mail_inv (clock, s)" "clock \<le> now" "ml_at m = now" "ml_participant m = Some i"
    and "\<And>x. x \<in> set (po_outbox s) \<Longrightarrow> spaced x m"
    and f: "\<And>r. pt_id (f r) = pt_id r \<and> pt_lastNotifiedAt (f r) = Some now"
  shows "mail_inv (now, on_world (participant_update i f now) (logged_as s ls [m]))" (is "mail_inv (now, ?s')")
proof (rule mail_inv_extend [OF assms(1,2), where ms = "[m]"])
  show "po_outbox ?s' = po_outbox s @ [m]" by (simp add: on_world_def)
  show "\<forall>m \<in> set [m]. ml_at m = now" "sorted_wrt spaced [m]" using assms(3) by simp_all
  show "x \<in> set (po_outbox s) \<Longrightarrow> y \<in> set [m] \<Longrightarrow> spaced x y" for x y using assms(5) by simp
  fix p assume "p \<in> set (participants (po_world ?s'))"
  note row = marked_rows [OF this f]
  then show "pt_lastNotifiedAt p = Some now \<or>
      (\<exists>q \<in> set (participants (po_world s)). pt_id q = pt_id p \<and> pt_lastNotifiedAt q = pt_lastNotifiedAt p)" by auto
  show "y \<in> set [m] \<Longrightarrow> gallery_news y \<Longrightarrow> ml_participant y = Some (pt_id p) \<Longrightarrow> pt_lastNotifiedAt p = Some now" for y
    using row assms(4) by auto
qed

lemma mail_inv_first:
  assumes "mail_inv (clock, s)" "clock \<le> now" "first_run i now s s'"
  shows "mail_inv (now, s')"
proof -
  from assms(3) obtain m ls where m: "ml_template m = EmailTemplate_GalleryReady" "ml_at m = now" "ml_participant m = Some i"
    and s': "s' = on_world (participant_update i (\<lambda>r. r\<lparr>pt_notifiedFirstAt := Some now, pt_lastNotifiedAt := Some now,
          pt_awaitingResultNotice := False\<rparr>) now) (logged_as s ls [m])"
    unfolding first_run_def by blast
  have "spaced x m" for x using m by (simp add: spaced_def)
  then show ?thesis unfolding s' by (intro mail_inv_marked [OF assms(1,2)]) (simp_all add: m)
qed

lemma mail_inv_digest:
  assumes "mail_inv (clock, s)" "clock \<le> now" "digest_run i now s s'"
  shows "mail_inv (now, s')"
proof -
  from assms(3) obtain m ls p f where m: "gallery_news m" "ml_at m = now" "ml_participant m = Some i"
    and p: "p \<in> set (participants (po_world s))" "pt_id p = i" "pt_notifiedFirstAt p = Some f"
      "or_default (pt_lastNotifiedAt p) f + DIGEST_THROTTLE_MS \<le> now"
    and s': "s' = on_world (participant_update i (\<lambda>r. r\<lparr>pt_lastNotifiedAt := Some now\<rparr>) now) (logged_as s ls [m])"
    unfolding digest_run_def by blast
  have "spaced x m" if "x \<in> set (po_outbox s)" for x
  proof (cases "ml_participant x = Some i \<and> gallery_news x")
    case True
    then have "told x p" using assms(1) that p(1,2) by (simp add: mail_inv_def)
    with p(4) m(2) show ?thesis by (auto simp: told_def spaced_def)
  next
    case False
    with m(3) show ?thesis by (auto simp: spaced_def)
  qed
  then show ?thesis unfolding s' by (intro mail_inv_marked [OF assms(1,2)]) (simp_all add: m)
qed

lemma mail_inv_step: "mail_step x l y \<Longrightarrow> mail_inv x \<Longrightarrow> mail_inv y"
proof (induction rule: mail_step.induct)
  case (job clock now s env j)
  then show ?case using mail_job_runs [of now s env j] mail_inv_plain [OF job(2,1)] mail_inv_first [OF job(2,1)] mail_inv_digest [OF job(2,1)] by blast
next
  case (other clock now s w)
  have "told m p" if m: "m \<in> set (po_outbox s)" "p \<in> set (participants w)" "gallery_news m" "ml_participant m = Some (pt_id p)" for m p
  proof -
    obtain q where q: "q \<in> set (participants (po_world s))" "pt_id q = pt_id p" "pt_lastNotifiedAt q = pt_lastNotifiedAt p"
      using other(2) m unfolding marks_kept_def by blast
    then have "told m q" using other(3) m by (simp add: mail_inv_def)
    with q(3) show ?thesis by (simp add: told_def)
  qed
  moreover have "\<forall>m \<in> set (po_outbox s). ml_at m \<le> now" using other(1,3) by (force simp: mail_inv_def)
  moreover have "sorted_wrt spaced (po_outbox s)" using other(3) by (simp add: mail_inv_def)
  ultimately show ?case by (auto simp: mail_inv_def)
qed

interpretation mail_system: invariant_system mail_start mail_step mail_inv
proof
  show "mail_start s \<Longrightarrow> mail_inv s" for s by (simp add: mail_start_def mail_inv_def)
qed (erule mail_inv_step)


section \<open>The acknowledgement\<close>

lemma resolveGallery_log: "resolveGallery cr token t (w\<lparr>emailLogs := ls\<rparr>) = resolveGallery cr token t w"
proof -
  have "getByTokenHash h (w\<lparr>emailLogs := ls\<rparr>) = getByTokenHash h w" "event_getById i (w\<lparr>emailLogs := ls\<rparr>) = event_getById i w" for h i
    by (simp_all add: getByTokenHash_def event_getById_def)
  then show ?thesis unfolding resolveGallery_def by (simp cong: option.case_cong)
qed

text \<open>
  C10. From selfie to gallery: after an accepted submission the queued acknowledgement hands the mail
  provider exactly one mail, to the guest's address, whose link ends in the fresh token; and for as long as
  the event is open, that token resolves to this guest and event, also in the state after the mail.
\<close>

theorem mailed_link_opens_gallery:
  assumes "submitSelfie env rq now ik w = (Inr ticket, ik', w')" "cipher_ok (sv_cipher env)" "sv_token env \<noteq> ''''"
    and "distinct (map e_id (events w))" "distinct (map pt_id (participants w))"
    and "cr_sha256 (sv_crypto env) (sv_token env) \<notin> pt_galleryTokenHash ` set (participants w)"
    and "sv_newId env \<notin> pt_id ` set (participants w)"
    and "mv_cipher menv = sv_cipher env" "\<And>m. \<exists>x. mv_provider menv m = Inr x"
  shows "\<exists>p e m s. getActiveEvent (rq_slug rq) now w = Inr e \<and> SendSelfieReceived (pt_id p) \<in> set (queued w')
    \<and> handleSendSelfieReceived menv (pt_id p) later \<lparr>po_world = w', po_outbox = out\<rparr> = (Inr JobStatus_Success, s)
    \<and> po_outbox s = out @ [m] \<and> ml_to m = pt_email p \<and> citext_eq (pt_email p) (rq_email rq)
    \<and> ml_url m = galleryUrl (mv_baseUrl menv) (sv_token env)
    \<and> (\<forall>t. \<not> isEventExpired e t \<longrightarrow> resolveGallery (sv_crypto env) (sv_token env) t (po_world s) = Inr (p, e))"
proof -
  from submit_then_open [OF assms(1,2,4,5,6,7)] obtain p e where
      active: "getActiveEvent (rq_slug rq) now w = Inr e" and opens: "\<And>t. \<not> isEventExpired e t \<Longrightarrow> resolveGallery (sv_crypto env) (sv_token env) t w' = Inr (p, e)"
    and ctx: "event_getById (pt_eventId p) w' = Some e" "participant_getById (pt_id p) w' = Some p"
      "decrypt_token (sv_cipher env) p = Inr (Some (sv_token env))"
    and rest: "citext_eq (pt_email p) (rq_email rq)" "queued w' = queued w @ [SendSelfieReceived (pt_id p), SelfieProcess (pt_id p)]"
    by blast
  let ?s = "\<lparr>po_world = w', po_outbox = out\<rparr>"
  let ?url = "galleryUrl (mv_baseUrl menv) (sv_token env)"
  have run: "handleSendSelfieReceived menv (pt_id p) later ?s =
      (case send menv p EmailTemplate_SelfieReceived ?url 0 later ?s of (st, s') \<Rightarrow> (Inr st, s'))"
    using assms(3,8) ctx by (simp add: handleSendSelfieReceived_def with_context_def loadContext_def present_def)
  show ?thesis
  proof (cases rule: send_effect [of menv p EmailTemplate_SelfieReceived ?url 0 later ?s])
    case (accepted x ls)
    let ?m = "guest_mail p EmailTemplate_SelfieReceived ?url 0 later"
    let ?s' = "logged_as ?s ls [?m]"
    have "resolveGallery (sv_crypto env) (sv_token env) t (po_world ?s') = resolveGallery (sv_crypto env) (sv_token env) t w'" for t
      by (simp add: logged_as_def resolveGallery_log)
    then show ?thesis
      by (intro exI [of _ p] exI [of _ e] exI [of _ ?m] exI [of _ ?s'])
        (use run accepted active opens rest in \<open>simp add: guest_mail_def\<close>)
  next
    case (refused err ls)
    with assms(9) show ?thesis by (metis Inl_Inr_False)
  qed
qed

section \<open>Telling the owners\<close>

definition owner_mail :: "uuid \<Rightarrow> string \<Rightarrow> nat \<Rightarrow> ms \<Rightarrow> string \<times> string \<Rightarrow> mail" where
  "owner_mail ev url cnt now owner = \<lparr>ml_to = fst owner, ml_participant = None, ml_template = EmailTemplate_EventExpired,
     ml_url = url, ml_count = cnt, ml_at = now\<rparr>"

definition accepts :: "'p mail_env \<Rightarrow> mail \<Rightarrow> bool" where
  "accepts env m \<longleftrightarrow> (case mv_provider env m of Inl _ \<Rightarrow> False | Inr _ \<Rightarrow> True)"

lemma mail_owners_effect:
  "po_outbox (snd (mail_owners env ev url cnt now owners n failed s))
      = po_outbox s @ filter (accepts env) (map (owner_mail ev url cnt now) owners)
    \<and> fst (mail_owners env ev url cnt now owners n failed s)
      = failed + length (filter (\<lambda>m. \<not> accepts env m) (map (owner_mail ev url cnt now) owners))"
proof (induction env ev url cnt now owners n failed s rule: mail_owners.induct)
  case (2 env ev url cnt now email name owners n failed s)
  let ?m = "owner_mail ev url cnt now (email, name)"
  have to: "sendToAddress env n ev email EmailTemplate_EventExpired url cnt now s = deliver env n (Some ev) ?m now s"
    by (simp add: sendToAddress_def owner_mail_def)
  show ?case
  proof (cases rule: deliver_effect [of env ?m n "Some ev" now s])
    case (accepted x ls)
    then have "accepts env ?m" by (simp add: accepts_def)
    with accepted(2) 2 [OF to [unfolded accepted(2), symmetric] refl] to show ?thesis by simp
  next
    case (refused e ls)
    then have "\<not> accepts env ?m" by (simp add: accepts_def)
    with refused(2) 2 [OF to [unfolded refused(2), symmetric] refl] to show ?thesis by simp
  qed
qed simp

lemma none_accepted: "length (filter (\<lambda>m. \<not> P m) ms) = length ms \<longleftrightarrow> filter P ms = []"
  using sum_length_filter_compl [of P ms] by (metis add_cancel_left_left length_0_conv)

text \<open>
  The expiry mail reaches every owner it can: for an announced event each owner's mail is handed over
  once, in order, whatever happens to the others; the job fails, and is retried, exactly when no owner
  could be reached, so no owner who got the mail gets it again.
\<close>

theorem expiry_mail_reaches_owners:
  assumes "event_getById ev (po_world s) = Some e" "e_expiresAt e \<noteq> None" "e_purgeAfter e \<noteq> None"
    and "getOwnerEmails (e_orgId e) (po_world s) \<noteq> []"
  shows "\<exists>url. po_outbox (snd (handleSendEventExpiry env ev now s)) = po_outbox s @
      filter (accepts env) (map (owner_mail ev url (asset_countForEvent ev (po_world s)) now) (getOwnerEmails (e_orgId e) (po_world s)))
    \<and> (fst (handleSendEventExpiry env ev now s) = JobStatus_Failed \<longleftrightarrow>
        po_outbox (snd (handleSendEventExpiry env ev now s)) = po_outbox s)"
proof -
  let ?url = "mv_baseUrl env @ ''/events/'' @ ev @ ''/settings''" and ?owners = "getOwnerEmails (e_orgId e) (po_world s)"
  let ?ms = "map (owner_mail ev ?url (asset_countForEvent ev (po_world s)) now) ?owners"
  obtain failed s' where run: "mail_owners env ev ?url (asset_countForEvent ev (po_world s)) now ?owners 0 0 s = (failed, s')" by fastforce
  have "handleSendEventExpiry env ev now s = (if failed = length ?owners then JobStatus_Failed else JobStatus_Success, s')"
    using assms event_getById_SomeD [OF assms(1)] run by (simp add: handleSendEventExpiry_def Let_def)
  moreover have "po_outbox s' = po_outbox s @ filter (accepts env) ?ms" "failed = length (filter (\<lambda>m. \<not> accepts env m) ?ms)"
    using mail_owners_effect [of env ev ?url "asset_countForEvent ev (po_world s)" now ?owners 0 0 s] unfolding run by simp_all
  moreover have "length (filter (\<lambda>m. \<not> accepts env m) ?ms) = length ?owners \<longleftrightarrow> filter (accepts env) ?ms = []"
    using none_accepted [of "accepts env" ?ms] by (simp only: length_map)
  ultimately show ?thesis by (intro exI [of _ ?url]) (simp del: append_Cons filter_map)
qed

section \<open>Reports settle in any order\<close>

text \<open>The delivery status of a row, as a register that the newest report wins.\<close>

type_synonym report = "EmailStatus \<times> ms \<times> string option"

definition report_status :: "string \<Rightarrow> report \<Rightarrow> world \<Rightarrow> world" where
  "report_status mid r w = (case r of (status, t, detail) \<Rightarrow> snd (applyProviderStatus mid status t detail w))"

definition delivery :: "world \<Rightarrow> (uuid \<times> string option \<times> EmailStatus \<times> ms option) list" where
  "delivery w = map (\<lambda>l. (el_id l, el_messageId l, el_status l, el_statusAt l)) (emailLogs w)"

fun newer_wins :: "string \<Rightarrow> report \<Rightarrow> uuid \<times> string option \<times> EmailStatus \<times> ms option \<Rightarrow> uuid \<times> string option \<times> EmailStatus \<times> ms option" where
  "newer_wins mid (status, t, d) (i, m, st, last_at) =
    (if m = Some mid \<and> (case last_at of None \<Rightarrow> True | Some u \<Rightarrow> u < t) then (i, m, status, Some t) else (i, m, st, last_at))"

lemma delivery_report: "delivery (report_status mid r w) = map (newer_wins mid r) (delivery w)"
  by (cases r) (auto simp: delivery_def report_status_def applyProviderStatus_def update_where_def provider_applies_def
      provider_update_def Let_def split: option.splits)

lemma newer_wins_commute:
  "fst (snd r) \<noteq> fst (snd q) \<Longrightarrow> newer_wins mid r (newer_wins mid q x) = newer_wins mid q (newer_wins mid r x)"
  by (cases r; cases q; cases x) (auto split: option.splits)

lemma delivery_fold: "delivery (fold (report_status mid) rs w) = fold (\<lambda>r. map (newer_wins mid r)) rs (delivery w)"
  by (induction rs arbitrary: w) (simp_all add: delivery_report)

text \<open>
  C22. Provider reports converge: reports on a message with different times leave the same delivery status
  and time on every row of the log, in whatever order the webhooks arrive.
\<close>

theorem provider_reports_converge:
  assumes "mset rs = mset qs" "distinct (map (\<lambda>r. fst (snd r)) rs)"
  shows "delivery (fold (report_status mid) rs w) = delivery (fold (report_status mid) qs w)"
proof -
  have "fold (\<lambda>r. map (newer_wins mid r)) rs = fold (\<lambda>r. map (newer_wins mid r)) qs"
  proof (rule fold_multiset_equiv [OF _ assms(1)])
    fix r q assume "r \<in> set rs" "q \<in> set rs"
    then have "r = q \<or> fst (snd r) \<noteq> fst (snd q)" using assms(2) by (auto simp: distinct_map inj_on_def)
    then show "map (newer_wins mid r) \<circ> map (newer_wins mid q) = map (newer_wins mid q) \<circ> map (newer_wins mid r)"
      using newer_wins_commute [of r q mid] by (auto simp: fun_eq_iff simp del: newer_wins.simps)
  qed
  then show ?thesis by (simp add: delivery_fold)
qed

section \<open>Reports need a fresh signature\<close>

lemma js_split_not_Nil: "js_split c s \<noteq> []"
  by (induction s) (auto split: list.splits)

lemma js_split_Cons2: "js_split c s = x # y # r \<Longrightarrow> \<exists>t. s = x @ c # t \<and> js_split c t = y # r"
proof (induction s arbitrary: x)
  case (Cons a s)
  show ?case
  proof (cases "a = c")
    case True
    with Cons.prems show ?thesis by (intro exI [of _ s]) auto
  next
    case False
    with Cons.prems obtain x' where x: "x = a # x'" "js_split c s = x' # y # r" by (auto split: list.splits)
    from Cons.IH [OF x(2)] x(1) show ?thesis by auto
  qed
qed simp

lemma js_split_prefix: "js_split c s = x # r \<Longrightarrow> prefix x s"
proof (induction s arbitrary: x)
  case (Cons a s)
  then show ?case using js_split_not_Nil [of c s] by (auto split: list.splits if_splits)
qed simp

lemma entry_matchesD: "entry_matches expected entry \<Longrightarrow> prefix (''v1,'' @ expected) entry"
proof -
  assume "entry_matches expected entry"
  then obtain r where "js_split CHR '','' entry = ''v1'' # expected # r" by (auto simp: entry_matches_def split: list.splits)
  from js_split_Cons2 [OF this] js_split_prefix show ?thesis by (auto simp: prefix_def)
qed

text \<open>
  C24. Nobody but the mail provider moves a delivery status: a webhook call that changes anything carries a
  time within five minutes of the server's clock and, among its signatures, one that starts with the HMAC
  of its id, time and exact body under the configured secret; without a configured secret nothing is
  accepted.
\<close>

theorem webhook_needs_fresh_signature:
  assumes "resend_webhook c secret rawBody headers body now w = (r, w')" "w' \<noteq> w"
  shows "\<exists>s raw i ts sigs sentAt. secret = Some s \<and> s \<noteq> '''' \<and> rawBody = Some raw \<and> sx_id headers = Some i
    \<and> sx_timestamp headers = Some ts \<and> sx_signature headers = Some sigs
    \<and> sc_number c ts = Some sentAt \<and> \<bar>real_of_int (now div 1000) - sentAt\<bar> \<le> 300
    \<and> (\<exists>entry \<in> set (js_split CHR '' '' sigs).
         prefix (''v1,'' @ sc_hmac c (decodeSecret c s) (i @ ''.'' @ ts @ ''.'' @ raw)) entry)"
proof -
  have auth: "present secret" "present rawBody" "verifySvixSignature c (the rawBody) headers (the secret) now"
    using assms by (auto simp: resend_webhook_def split: if_splits)
  then obtain s raw where s: "secret = Some s" "s \<noteq> ''''" "rawBody = Some raw" by (auto simp: present_def)
  from auth(3) obtain i ts sigs where h: "sx_id headers = Some i" "sx_timestamp headers = Some ts" "sx_signature headers = Some sigs"
    by (auto simp: verifySvixSignature_def present_def split: if_splits)
  from auth(3) obtain sentAt where n: "sc_number c ts = Some sentAt" "\<bar>real_of_int (now div 1000) - sentAt\<bar> \<le> 300"
      "list_ex (entry_matches (sc_hmac c (decodeSecret c s) (i @ ''.'' @ ts @ ''.'' @ raw))) (js_split CHR '' '' sigs)"
    by (auto simp: verifySvixSignature_def h s Let_def TOLERANCE_SECONDS_def split: if_splits option.splits)
  then obtain entry where "entry \<in> set (js_split CHR '' '' sigs)"
      "entry_matches (sc_hmac c (decodeSecret c s) (i @ ''.'' @ ts @ ''.'' @ raw)) entry" by (auto simp: list_ex_iff)
  with entry_matchesD s h n show ?thesis by blast
qed

section \<open>Mails that are never sent\<close>

text \<open>
  Resending can lock a guest out: for a guest who is not waiting for a result, which is everyone whose
  photos were ready when they opened the gallery, the organizer's resend replaces the token, so the link
  the guest has stops working, and the job it queues sends nothing: the new link is never mailed.
\<close>

theorem resend_locks_guest_out:
  assumes "resend token ev i now w = (Inr (), w1)" "participant_getById i w = Some p" "\<not> pt_awaitingResultNotice p"
    and "gt_hash token \<noteq> pt_galleryTokenHash p" "cr_sha256 cr old = pt_galleryTokenHash p"
    and "\<forall>q \<in> set (participants w). pt_galleryTokenHash q = pt_galleryTokenHash p \<longrightarrow> pt_id q = i"
    and "distinct (map pt_id (participants w))"
  shows "queued w1 = queued w @ [SendGalleryEmail i]
    \<and> snd (handleSendGalleryEmail env i t \<lparr>po_world = w1, po_outbox = out\<rparr>) = \<lparr>po_world = w1, po_outbox = out\<rparr>
    \<and> resolveGallery cr old t w1 = Inl (NotFound ''Gallery not found'')"
proof -
  let ?f = "\<lambda>r. r\<lparr>pt_galleryTokenHash := gt_hash token, pt_galleryTokenEnc := Some (gt_enc token)\<rparr>"
  note p = participant_getById_SomeD [OF assms(2)]
  have w1: "w1 = queue (SendGalleryEmail i) (participant_update i ?f now w)"
    using assms(1,2) p by (auto simp: resend_def getScoped_def split: if_splits)
  have rows: "participants w1 = update_where (\<lambda>q. pt_id q = i) (\<lambda>q. (?f q)\<lparr>pt_updatedAt := now\<rparr>) (participants w)"
    by (simp add: w1 queueAll_def participant_update_def)
  have "pt_galleryTokenHash q \<noteq> pt_galleryTokenHash p" if "q \<in> set (participants w1)" for q
    using that assms(4,6) unfolding rows set_update_where by (auto split: if_splits)
  then have gone: "resolveGallery cr old t w1 = Inl (NotFound ''Gallery not found'')"
    using assms(5) by (simp add: resolveGallery_def getByTokenHash_def select_first_None_iff [THEN iffD2])
  have waits: "\<not> pt_awaitingResultNotice q" if "participant_getById i w1 = Some q" for q
  proof -
    from participant_getById_SomeD [OF that] have "q \<in> set (participants w1)" "pt_id q = i" by auto
    then obtain r where "r \<in> set (participants w)" "q = (if pt_id r = i then (?f r)\<lparr>pt_updatedAt := now\<rparr> else r)"
      unfolding rows set_update_where by blast
    with \<open>pt_id q = i\<close> have r: "r \<in> set (participants w)" "pt_id r = i" "pt_awaitingResultNotice q = pt_awaitingResultNotice r"
      by (simp_all split: if_splits)
    have "r = p" using p assms(7) r(1,2) by (metis distinct_map inj_onD)
    with r(3) assms(3) show ?thesis by simp
  qed
  have "snd (handleSendGalleryEmail env i t \<lparr>po_world = w1, po_outbox = out\<rparr>) = \<lparr>po_world = w1, po_outbox = out\<rparr>"
  proof (cases "loadContext env i w1")
    case (Inr oc)
    show ?thesis
    proof (cases oc)
      case (Some c)
      then have "\<not> pt_awaitingResultNotice (mc_participant c)" using waits loadContext_Some Inr by blast
      then show ?thesis by (simp add: handleSendGalleryEmail_def with_context_def Inr Some gallery_mail_def Let_def)
    qed (simp add: handleSendGalleryEmail_def with_context_def Inr)
  qed (simp add: handleSendGalleryEmail_def with_context_def)
  with gone show ?thesis by (simp add: w1 participant_update_def)
qed

text \<open>
  A throttled digest is final: within six hours of the last mail the digest job counts as done without a
  mail, without a new job and without a delay in its options, so the photos it was queued for are announced
  only if yet another match follows.
\<close>

theorem throttled_digest_is_final:
  assumes "loadContext env i (po_world s) = Inr (Some c)" "pt_notifiedFirstAt (mc_participant c) = Some f"
    and "now < or_default (pt_lastNotifiedAt (mc_participant c)) f + DIGEST_THROTTLE_MS"
  shows "handleSendDigest env i now s = (Inr JobStatus_Skipped, s)
    \<and> run_job registry (\<lambda>_. fst (handleSendDigest env i now s)) (SendDigest i) = Inr JobStatus_Skipped
    \<and> jo_delay (getJobOptions registry (SendDigest i)) = None"
proof -
  have "handleSendDigest env i now s = (Inr JobStatus_Skipped, s)"
    using assms by (simp add: handleSendDigest_def digest_mail_def)
  moreover have "registry (name_of (SendDigest i)) \<noteq> None" by (simp add: registry_def configs_def decorated_def)
  ultimately show ?thesis by (auto simp: run_job_def getJobOptions_def Let_def)
qed

section \<open>A concrete mailbox\<close>

definition wit_mail_env :: "string mail_env" where
  "wit_mail_env = \<lparr>mv_cipher = wit_cipher, mv_baseUrl = ''u'', mv_logId = (\<lambda>_. ''l''), mv_provider = (\<lambda>_. Inr ''id'')\<rparr>"

definition wit_news :: match_row where
  "wit_news = \<lparr>m_participantId = ''g'', m_assetId = ''a1'', m_viaFaceId = None, m_distance = 0, m_createdAt = 1\<rparr>"

definition wit_post :: post where
  "wit_post = \<lparr>po_world = empty_world\<lparr>events := [wit_event], participants := [wit_guest\<lparr>pt_awaitingResultNotice := True\<rparr>],
     participantMatches := [wit_news]\<rparr>, po_outbox = []\<rparr>"

definition wit_told :: post where "wit_told = run_mail_job wit_mail_env (MJ_gallery ''g'') 0 wit_post"
definition wit_digested :: post where "wit_digested = run_mail_job wit_mail_env (MJ_digest ''g'') 21600000 wit_told"

lemmas wit_mail_defs = handleSendGalleryEmail_def handleSendDigest_def digest_mail_def with_context_def loadContext_def gallery_mail_def
  send_def deliver_def emaillog_create_def markSent_def participant_getById_def event_getById_def decrypt_token_def present_def
  countMatches_def participant_update_def on_world_def wit_mail_env_def wit_guest_def wit_event_def wit_news_def
  DIGEST_THROTTLE_MS_def Let_def

lemma wit_told_facts:
  "map (\<lambda>m. (ml_participant m, ml_template m, ml_at m)) (po_outbox wit_told) = [(Some ''g'', EmailTemplate_GalleryReady, 0)]"
  "events (po_world wit_told) = [wit_event]" "participantMatches (po_world wit_told) = [wit_news]"
  "participants (po_world wit_told) = [wit_guest\<lparr>pt_notifiedFirstAt := Some 0, pt_lastNotifiedAt := Some 0\<rparr>]"
  by (simp_all add: wit_told_def wit_post_def wit_mail_defs empty_world_def)

lemma wit_digested_facts:
  "map (\<lambda>m. (ml_participant m, ml_template m, ml_at m)) (po_outbox wit_digested)
    = [(Some ''g'', EmailTemplate_GalleryReady, 0), (Some ''g'', EmailTemplate_GalleryUpdate, 21600000)]"
  using wit_told_facts unfolding wit_digested_def run_mail_job.simps by (simp add: wit_mail_defs)

lemma mail_reach_job:
  fixes env :: "'p mail_env"
  assumes "reachable mail_start (mail_step :: _ \<Rightarrow> 'p mail_label \<Rightarrow> _) (clock, s)" "clock \<le> now"
  shows "reachable mail_start (mail_step :: _ \<Rightarrow> 'p mail_label \<Rightarrow> _) (now, run_mail_job env j now s)"
  using assms by (blast intro: reach_step mail_step.job)


definition wit_ack_env :: "TicketPayload mail_env" where
  "wit_ack_env = \<lparr>mv_cipher = wit_ticket_cipher, mv_baseUrl = ''u'', mv_logId = (\<lambda>_. ''l''), mv_provider = (\<lambda>_. Inr ''id'')\<rparr>"

theorem mailed_link_opens_gallery_witness:
  "\<exists>p (m :: mail) (s :: post). po_outbox s = [m] \<and> ml_url m = ''u/g/t'' \<and> resolveGallery wit_crypto ''t'' 6 (po_world s) = Inr (p, wit_event)"
proof -
  obtain ticket ik' w' where run: "submitSelfie wit_submit_env wit_selfie_request 5 no_hits wit_open_world = (Inr ticket, ik', w')"
    using wit_submits by blast
  have facts: "sv_crypto wit_submit_env = wit_crypto" "sv_token wit_submit_env = ''t''" "sv_cipher wit_submit_env = wit_ticket_cipher"
    "sv_newId wit_submit_env = ''p2''" "pt_galleryTokenHash wit_guest = ''h''" "cr_sha256 wit_crypto ''t'' = ''t''" "mv_cipher wit_ack_env = wit_ticket_cipher"
    "\<And>m. mv_provider wit_ack_env m = Inr ''id''" "mv_baseUrl wit_ack_env = ''u''"
    by (simp_all add: wit_submit_env_def wit_guest_def wit_crypto_def wit_ack_env_def)
  have given: "cipher_ok (sv_cipher wit_submit_env)" "sv_token wit_submit_env \<noteq> ''''" "distinct (map e_id (events wit_open_world))"
    "distinct (map pt_id (participants wit_open_world))"
    "cr_sha256 (sv_crypto wit_submit_env) (sv_token wit_submit_env) \<notin> pt_galleryTokenHash ` set (participants wit_open_world)"
    "sv_newId wit_submit_env \<notin> pt_id ` set (participants wit_open_world)"
    "mv_cipher wit_ack_env = sv_cipher wit_submit_env" "\<And>m. \<exists>x. mv_provider wit_ack_env m = Inr x"
    using wit_ticket_cipher_ok by (simp_all add: facts wit_open_facts)
  from mailed_link_opens_gallery [OF run given, of 6 "[]"] obtain p :: participant_row and e :: event_row and m :: mail and s :: post where
      "getActiveEvent (rq_slug wit_selfie_request) 5 wit_open_world = Inr e" "po_outbox s = [] @ [m]"
      "ml_url m = galleryUrl (mv_baseUrl wit_ack_env) (sv_token wit_submit_env)"
      "\<forall>t. \<not> isEventExpired e t \<longrightarrow> resolveGallery (sv_crypto wit_submit_env) (sv_token wit_submit_env) t (po_world s) = Inr (p, e)"
    by blast
  moreover have "galleryUrl ''u'' ''t'' = ''u/g/t''" by code_simp
  moreover have "\<not> isEventExpired wit_event 6" "rq_slug wit_selfie_request = ''wedding''"
    by (simp_all add: isEventExpired_def wit_event_def wit_selfie_request_def)
  ultimately show ?thesis by (auto simp: facts wit_open_facts)
qed

definition wit_owner_post :: post where
  "wit_owner_post = \<lparr>po_world = wit_org_world\<lparr>users := [wit_user], organizationUsers := [\<lparr>ou_orgId = ''o'', ou_userId = ''u'',
     ou_role = OrgRole_Owner, ou_createdAt = 0\<rparr>], events := [wit_event\<lparr>e_expiresAt := Some 1, e_purgeAfter := Some 2\<rparr>]\<rparr>, po_outbox = []\<rparr>"

theorem expiry_mail_reaches_owners_witness:
  "map ml_to (po_outbox (snd (handleSendEventExpiry wit_mail_env ''e'' 5 wit_owner_post))) = [''a@b'']"
proof -
  have event: "event_getById ''e'' (po_world wit_owner_post) = Some (wit_event\<lparr>e_expiresAt := Some 1, e_purgeAfter := Some 2\<rparr>)"
    by (simp add: wit_owner_post_def event_getById_def wit_event_def)
  have owners: "getOwnerEmails (e_orgId (wit_event\<lparr>e_expiresAt := Some 1, e_purgeAfter := Some 2\<rparr>)) (po_world wit_owner_post) = [(''a@b'', ''A'')]"
    by (simp add: getOwnerEmails_def wit_owner_post_def org_listMembers_def wit_event_def wit_user_def wit_org_defs)
  have "accepts wit_mail_env m" for m by (simp add: accepts_def wit_mail_env_def)
  with expiry_mail_reaches_owners [OF event, of wit_mail_env 5] owners show ?thesis
    by (auto simp: owner_mail_def wit_owner_post_def)
qed

theorem provider_reports_converge_witness:
  "delivery (fold (report_status ''id'') [(EmailStatus_Delivered, 1, None), (EmailStatus_Bounced, 2, None)] (po_world wit_told))
   = delivery (fold (report_status ''id'') [(EmailStatus_Bounced, 2, None), (EmailStatus_Delivered, 1, None)] (po_world wit_told))"
  by (rule provider_reports_converge) simp_all

definition wit_svix :: svix_crypto where
  "wit_svix = \<lparr>sc_base64_decode = (\<lambda>x. x), sc_hmac = (\<lambda>k p. k), sc_number = (\<lambda>_. Some 0)\<rparr>"

definition wit_svix_headers :: SvixHeaders where
  "wit_svix_headers = \<lparr>sx_id = Some ''i'', sx_timestamp = Some ''0'', sx_signature = Some ''v1,sec''\<rparr>"

definition wit_resend_event :: ResendEvent where
  "wit_resend_event = \<lparr>re_type = Some ''email.delivered'', re_created_at = Some 1, re_email_id = Some ''id'',
     re_bounce_message = None, re_reason = None\<rparr>"

theorem webhook_needs_fresh_signature_witness:
  "snd (resend_webhook wit_svix (Some ''sec'') (Some ''b'') wit_svix_headers wit_resend_event 1000 (po_world wit_told)) \<noteq> po_world wit_told
   \<and> \<bar>real_of_int (1000 div 1000) - 0\<bar> \<le> 300"
proof -
  have log: "map (\<lambda>l. (el_messageId l, el_statusAt l)) (emailLogs (po_world wit_told)) = [(Some ''id'', None)]"
    by (simp add: wit_told_def wit_post_def wit_mail_defs empty_world_def)
  have "verifySvixSignature wit_svix ''b'' wit_svix_headers ''sec'' 1000"
    by (simp add: verifySvixSignature_def wit_svix_headers_def wit_svix_def present_def TOLERANCE_SECONDS_def decodeSecret_def
        entry_matches_def Let_def)
  then have "map el_statusAt (emailLogs (snd (resend_webhook wit_svix (Some ''sec'') (Some ''b'') wit_svix_headers wit_resend_event 1000 (po_world wit_told))))
      = [Some 1]"
    using log by (auto simp: resend_webhook_def present_def wit_resend_event_def applyProviderStatus_def provider_applies_def provider_update_def
        map_eq_Cons_conv)
  with log have changed: "snd (resend_webhook wit_svix (Some ''sec'') (Some ''b'') wit_svix_headers wit_resend_event 1000 (po_world wit_told))
      \<noteq> po_world wit_told" by (auto simp: map_eq_Cons_conv)
  from webhook_needs_fresh_signature [OF prod.collapse [symmetric] this] have "\<bar>real_of_int (1000 div 1000) - 0\<bar> \<le> 300"
    by (auto simp: wit_svix_def)
  with changed show ?thesis by blast
qed

theorem resend_locks_guest_out_witness:
  "resolveGallery wit_crypto ''h'' 6 (snd (resend \<lparr>gt_raw = ''n'', gt_hash = ''n'', gt_enc = ''n''\<rparr> ''e'' ''g'' 5 wit_open_world))
    = Inl (NotFound ''Gallery not found'')"
proof -
  have p: "participant_getById ''g'' wit_open_world = Some wit_guest"
    by (simp add: participant_getById_def wit_open_facts wit_guest_def)
  obtain w1 where run: "resend \<lparr>gt_raw = ''n'', gt_hash = ''n'', gt_enc = ''n''\<rparr> ''e'' ''g'' 5 wit_open_world = (Inr (), w1)"
    by (simp add: resend_def getScoped_def p wit_open_facts)
  show ?thesis
    using resend_locks_guest_out [OF run p, of wit_crypto "''h''" wit_mail_env 6 "[]"]
    by (simp add: run wit_open_facts wit_crypto_def wit_guest_def)
qed

theorem throttled_digest_is_final_witness:
  "handleSendDigest wit_mail_env ''g'' 5 wit_told = (Inr JobStatus_Skipped, wit_told)"
proof -
  obtain c where c: "loadContext wit_mail_env ''g'' (po_world wit_told) = Inr (Some c)"
      "mc_participant c = wit_guest\<lparr>pt_notifiedFirstAt := Some 0, pt_lastNotifiedAt := Some 0\<rparr>"
    by (simp add: loadContext_def participant_getById_def event_getById_def wit_told_facts wit_guest_def wit_event_def decrypt_token_def)
  with throttled_digest_is_final [OF c(1), of 0 5] show ?thesis by (simp add: DIGEST_THROTTLE_MS_def)
qed

end
