(* ===== verification/MachineLearning.thy ===== *)
theory MachineLearning
  imports Faces
begin

text \<open>
  \<^verbatim>\<open>repositories/machine-learning.repository.ts\<close>: the client of the ML service with its map of healthy
  servers and its failover. What a server answers is a parameter.
\<close>

section \<open>The client\<close>

datatype ModelTask = ModelTask_FACIAL_RECOGNITION | ModelTask_SEARCH
datatype ModelType = ModelType_DETECTION | ModelType_RECOGNITION | ModelType_VISUAL

type_synonym MlEntry = "ModelTask \<times> ModelType \<times> string \<times> real option"
type_synonym MlRequest = "MlEntry list"

text \<open>
  The answer to a request: no answer, a status that is not \<^verbatim>\<open>ok\<close>, or an \<^verbatim>\<open>ok\<close> one, whose body may turn
  out not to be JSON when it is read. That reading is awaited by the caller, outside the \<^verbatim>\<open>try\<close>.
\<close>

datatype 'r MlAnswer = Ml_unreachable | Ml_status nat | Ml_ok "'r option"

type_synonym health = "string \<Rightarrow> bool option"

definition isHealthy :: "health \<Rightarrow> string \<Rightarrow> bool" where
  "isHealthy healthyMap url = or_default (healthyMap url) False"

definition setHealthy :: "string \<Rightarrow> bool \<Rightarrow> health \<Rightarrow> health" where
  "setHealthy url healthy healthyMap = healthyMap(url \<mapsto> healthy)"

fun try_urls :: "(string \<Rightarrow> 'r MlAnswer) \<Rightarrow> string list \<Rightarrow> health \<Rightarrow> 'r outcome \<times> health" where
  "try_urls fetch [] m = (Inl (ServerError ''Machine learning request failed for all URLs''), m)"
| "try_urls fetch (url # urls) m =
    (case fetch url of
       Ml_ok body \<Rightarrow> ((case body of None \<Rightarrow> Inl (ServerError ''invalid JSON'') | Some r \<Rightarrow> Inr r), setHealthy url True m)
     | _ \<Rightarrow> try_urls fetch urls (setHealthy url False m))"

definition url_order :: "string list \<Rightarrow> health \<Rightarrow> string list" where
  "url_order urls m = filter (isHealthy m) urls @ filter (\<lambda>url. \<not> isHealthy m url) urls"

definition predict :: "string list \<Rightarrow> (string \<Rightarrow> MlRequest \<Rightarrow> string \<Rightarrow> 'r MlAnswer) \<Rightarrow> string \<Rightarrow> MlRequest \<Rightarrow> health \<Rightarrow> 'r outcome \<times> health" where
  "predict urls post picture config m = try_urls (\<lambda>url. post url config picture) (url_order urls m) m"

definition detectFaces :: "string list \<Rightarrow> (string \<Rightarrow> MlRequest \<Rightarrow> string \<Rightarrow> DetectedFaces MlAnswer) \<Rightarrow> string \<Rightarrow> string \<Rightarrow> real
    \<Rightarrow> health \<Rightarrow> DetectedFaces outcome \<times> health" where
  "detectFaces urls post picture modelName minScore m =
    predict urls post picture
      [(ModelTask_FACIAL_RECOGNITION, ModelType_DETECTION, modelName, Some minScore),
       (ModelTask_FACIAL_RECOGNITION, ModelType_RECOGNITION, modelName, None)] m"

definition encodeImage :: "string list \<Rightarrow> (string \<Rightarrow> MlRequest \<Rightarrow> string \<Rightarrow> string MlAnswer) \<Rightarrow> string \<Rightarrow> string
    \<Rightarrow> health \<Rightarrow> string outcome \<times> health" where
  "encodeImage urls post picture modelName m =
    predict urls post picture [(ModelTask_SEARCH, ModelType_VISUAL, modelName, None)] m"

text \<open>
  The pings of one round, in the order in which their answers arrive; \<^verbatim>\<open>None\<close> is a ping that timed out.
\<close>

definition ping_ok :: "bool option \<Rightarrow> bool" where
  "ping_ok p = or_default p False"

definition check :: "(string \<Rightarrow> bool option) \<Rightarrow> string \<Rightarrow> health \<Rightarrow> health" where
  "check ping url m = setHealthy url (ping_ok (ping url)) m"

definition tick :: "(string \<Rightarrow> bool option) \<Rightarrow> string list \<Rightarrow> health \<Rightarrow> health" where
  "tick ping urls m = fold (check ping) urls m"

record ServerStatus =
  sv_url :: string
  sv_healthy :: bool
  sv_latencyMs :: "ms option"

definition getServerStatus :: "(string \<Rightarrow> (bool \<times> ms) option) \<Rightarrow> string list \<Rightarrow> ServerStatus list" where
  "getServerStatus probe urls =
    map (\<lambda>url. case probe url of
           None \<Rightarrow> \<lparr>sv_url = url, sv_healthy = False, sv_latencyMs = None\<rparr>
         | Some (ok, t) \<Rightarrow> \<lparr>sv_url = url, sv_healthy = ok, sv_latencyMs = Some t\<rparr>) urls"

section \<open>Failover\<close>

fun gives_answer :: "'r MlAnswer \<Rightarrow> bool" where
  "gives_answer (Ml_ok _) = True"
| "gives_answer _ = False"

definition result_of :: "'r MlAnswer \<Rightarrow> 'r outcome" where
  "result_of a = (case a of Ml_ok (Some r) \<Rightarrow> Inr r | _ \<Rightarrow> Inl (ServerError ''invalid JSON''))"

lemma try_urls_none:
  "\<forall>url \<in> set urls. \<not> gives_answer (fetch url) \<Longrightarrow>
    try_urls fetch urls m = (Inl (ServerError ''Machine learning request failed for all URLs''),
      \<lambda>url. if url \<in> set urls then Some False else m url)"
  by (induction urls arbitrary: m) (auto simp: setHealthy_def fun_eq_iff split: MlAnswer.splits)

lemma try_urls_first:
  assumes "\<forall>url \<in> set before. \<not> gives_answer (fetch url)" "gives_answer (fetch url)"
  shows "try_urls fetch (before @ url # after) m =
    (result_of (fetch url), (\<lambda>u. if u \<in> set before then Some False else m u)(url \<mapsto> True))"
  using assms by (induction before arbitrary: m)
    (auto simp: setHealthy_def fun_eq_iff result_of_def split: MlAnswer.splits option.splits)

lemma set_url_order [simp]: "set (url_order urls m) = set urls"
  by (auto simp: url_order_def)

lemma predict_answers:
  assumes "url \<in> set urls" "gives_answer (post url config picture)"
  shows "\<exists>url \<in> set urls. gives_answer (post url config picture) \<and> fst (predict urls post picture config m) = result_of (post url config picture)"
proof -
  have "\<exists>url \<in> set (url_order urls m). gives_answer (post url config picture)" using assms by auto
  then obtain before url after where split: "url_order urls m = before @ url # after"
    "gives_answer (post url config picture)" "\<forall>v \<in> set before. \<not> gives_answer (post v config picture)"
    by (rule split_list_first_propE)
  then have "url \<in> set urls" using set_url_order [of urls m] by auto
  with split try_urls_first [where fetch = "\<lambda>url. post url config picture", OF split(3,2), of after m] show ?thesis
    by (auto simp: predict_def)
qed

lemma healthy_first:
  assumes "filter p xs @ ys = before @ u # after" "\<not> p u" "v \<in> set xs" "p v"
  shows "v \<in> set before"
proof -
  have v: "v \<in> set (filter p xs)" and u: "u \<notin> set (filter p xs)" using assms(2-4) by simp_all
  from assms(1) consider us where "before = filter p xs @ us" | us where "filter p xs = before @ us" "us @ ys = u # after"
    unfolding append_eq_append_conv2 by metis
  then show ?thesis
  proof cases
    case 2
    with u have "us = []" by (cases us) auto
    with 2 v show ?thesis by simp
  qed (use v in simp)
qed

text \<open>
  Failover finds any server that works. When a configured server answers, the request gets the answer
  of one of them, whatever the map of healthy servers says, and never of an unhealthy one while a
  healthy one answers; otherwise it fails. Afterwards the map agrees with what was seen: the server that
  answered is healthy, and each other entry is unchanged or belongs to a server that just failed.
\<close>

theorem failover_finds_working_server:
  assumes "predict urls post picture config m = (r, m')"
  shows "if \<exists>url \<in> set urls. gives_answer (post url config picture)
    then \<exists>url \<in> set urls. gives_answer (post url config picture) \<and> r = result_of (post url config picture) \<and> isHealthy m' url
      \<and> (isHealthy m url \<or> (\<forall>v \<in> set urls. isHealthy m v \<longrightarrow> \<not> gives_answer (post v config picture)))
      \<and> (\<forall>v. v \<noteq> url \<longrightarrow> m' v = m v \<or> m' v = Some False \<and> \<not> gives_answer (post v config picture))
    else r = Inl (ServerError ''Machine learning request failed for all URLs'') \<and> (\<forall>v \<in> set urls. \<not> isHealthy m' v)"
proof (cases "\<exists>url \<in> set (url_order urls m). gives_answer (post url config picture)")
  case True
  then obtain before url after where split: "url_order urls m = before @ url # after"
    "gives_answer (post url config picture)" "\<forall>v \<in> set before. \<not> gives_answer (post v config picture)"
    by (rule split_list_first_propE)
  have run: "r = result_of (post url config picture)" "m' = (\<lambda>u. if u \<in> set before then Some False else m u)(url \<mapsto> True)"
    using assms try_urls_first [where fetch = "\<lambda>url. post url config picture", OF split(3,2), of after m]
    by (simp_all add: predict_def split(1))
  have "v \<in> set before" if "v \<in> set urls" "isHealthy m v" "\<not> isHealthy m url" for v
    using split(1) that by (intro healthy_first [of "isHealthy m" urls _ before url after]) (simp_all add: url_order_def)
  with split run show ?thesis using set_url_order [of urls m] by (auto simp: isHealthy_def split: if_splits)
next
  case False
  with assms try_urls_none [of "url_order urls m" "\<lambda>url. post url config picture" m] show ?thesis
    by (auto simp: predict_def isHealthy_def)
qed

theorem failover_finds_working_server_witness:
  "fst (predict [''a'', ''b'', ''c''] (\<lambda>url _ _. if url = ''b'' then Ml_status 500 else if url = ''c'' then Ml_ok (Some 7) else Ml_unreachable)
      ''photo'' [] [''b'' \<mapsto> True]) = Inr (7 :: nat)"
proof -
  let ?post = "\<lambda>url _ _. if url = ''b'' then Ml_status 500 else if url = ''c'' then Ml_ok (Some (7 :: nat)) else Ml_unreachable"
  show ?thesis
    using failover_finds_working_server [OF prod.collapse [symmetric], of "[''a'', ''b'', ''c'']" ?post "[]" "''photo''" "[''b'' \<mapsto> True]"]
    by (auto simp: result_of_def split: if_splits)
qed

end
