(* ===== verification/SimilarPhotos.thy ===== *)
theory SimilarPhotos
  imports MachineLearning FacePolicy
begin

text \<open>
  \<^verbatim>\<open>services/smart-search.service.ts\<close> with \<^verbatim>\<open>repositories/smart-search.repository.ts\<close>: one CLIP vector per
  photo, the backfill that queues the missing ones, and "view similar photos". The vector index and the
  ML servers are parameters; the handler threads the client's map of healthy servers.
\<close>

section \<open>The repository\<close>

text \<open>The vector table refers to the photo: a vector of a photo that is gone is refused.\<close>

definition clip_upsert :: "uuid \<Rightarrow> string \<Rightarrow> world \<Rightarrow> unit outcome \<times> world" where
  [repo_defs]: "clip_upsert i emb w =
    (if \<forall>a \<in> set (assets w). a_id a \<noteq> i then (Inl (ServerError ''smart_search_asset_id_fkey''), w)
     else (Inr (), if \<exists>s \<in> set (smartSearches w). ss_assetId s = i
       then w\<lparr>smartSearches := update_where (\<lambda>s. ss_assetId s = i) (\<lambda>s. s\<lparr>ss_embedding := emb\<rparr>) (smartSearches w)\<rparr>
       else w\<lparr>smartSearches := smartSearches w @ [\<lparr>ss_assetId = i, ss_embedding = emb\<rparr>]\<rparr>))"

definition getEmbedding :: "uuid \<Rightarrow> world \<Rightarrow> string option" where
  [repo_defs]: "getEmbedding i w = map_option ss_embedding (select_first (\<lambda>s. ss_assetId s = i) (smartSearches w))"

text \<open>The vectors a search considers, with their distances.\<close>

definition similar_rows :: "vector_index \<Rightarrow> uuid \<Rightarrow> string \<Rightarrow> uuid \<Rightarrow> world \<Rightarrow> (uuid \<times> real) list" where
  "similar_rows ix ev emb exclude w =
    map (\<lambda>s. (ss_assetId s, vx_distance ix (ss_embedding s) emb))
      (filter (\<lambda>s. vx_visits ix emb (ss_embedding s) \<and> ss_assetId s \<noteq> exclude
          \<and> (\<exists>a \<in> set (assets w). a_id a = ss_assetId s \<and> a_eventId a = ev \<and> a_deletedAt a = None)) (smartSearches w))"

definition searchSimilar :: "vector_index \<Rightarrow> uuid \<Rightarrow> string \<Rightarrow> uuid \<Rightarrow> nat \<Rightarrow> world \<Rightarrow> (uuid \<times> real) list outcome" where
  [repo_defs]: "searchSimilar ix ev emb exclude numResults w =
    (if numResults < 1 \<or> numResults > 1000 then Inl (ServerError ''Invalid value for numResults'')
     else Inr (take numResults (sort_key snd (similar_rows ix ev emb exclude w))))"

definition processed_ids :: "uuid \<Rightarrow> bool \<Rightarrow> world \<Rightarrow> uuid list" where
  "processed_ids ev onlyMissing w =
    sort (map a_id (filter (\<lambda>a. a_eventId a = ev \<and> a_deletedAt a = None \<and> a_status a = AssetStatus_Processed
       \<and> (onlyMissing \<longrightarrow> \<not> (\<exists>s \<in> set (smartSearches w). ss_assetId s = a_id a))) (assets w)))"

definition getProcessedAssetIds :: "uuid \<Rightarrow> bool \<Rightarrow> nat \<Rightarrow> uuid option \<Rightarrow> world \<Rightarrow> uuid list" where
  [repo_defs]: "getProcessedAssetIds ev onlyMissing limit afterId w =
    take limit (filter (after_id afterId) (processed_ids ev onlyMissing w))"

section \<open>The service\<close>

definition CLIP_MODEL_NAME :: string where
  "CLIP_MODEL_NAME = ''ViT-B-32__openai''"

definition SIMILAR_RESULTS :: nat where
  "SIMILAR_RESULTS = 60"

text \<open>What a download and the ML servers answer, and what other requests do while they work.\<close>

record clip_env =
  cl_urls :: "string list"
  cl_post :: "string \<Rightarrow> MlRequest \<Rightarrow> string \<Rightarrow> string MlAnswer"
  cl_download :: "string \<Rightarrow> string outcome"
  cl_others :: "world \<Rightarrow> world"

definition handleSmartSearch :: "clip_env \<Rightarrow> uuid \<Rightarrow> health \<Rightarrow> world \<Rightarrow> JobStatus \<times> health \<times> world" where
  "handleSmartSearch env assetId m w =
    (case asset_getByIdUnscoped assetId w of
       None \<Rightarrow> (JobStatus_Skipped, m, w)
     | Some asset \<Rightarrow>
    (case select_first (\<lambda>f. af_assetId f = assetId \<and> af_type f = AssetFileType_Preview) (assetFiles w) of
       None \<Rightarrow> (JobStatus_Failed, m, w)
     | Some preview \<Rightarrow>
    (case cl_download env (af_storageKey preview) of
       Inl e \<Rightarrow> (JobStatus_Failed, m, cl_others env w)
     | Inr picture \<Rightarrow>
    (case encodeImage (cl_urls env) (cl_post env) picture CLIP_MODEL_NAME m of
       (Inl e, m1) \<Rightarrow> (JobStatus_Failed, m1, cl_others env w)
     | (Inr embedding, m1) \<Rightarrow>
    (case clip_upsert assetId embedding (cl_others env w) of
       (Inl e, w1) \<Rightarrow> (JobStatus_Failed, m1, w1)
     | (Inr _, w1) \<Rightarrow> (JobStatus_Success, m1, w1))))))"

lemma processed_ids_queueAll [simp]: "processed_ids ev b (queueAll js w) = processed_ids ev b w"
  by (simp add: processed_ids_def queueAll_def)

function clip_pages :: "uuid \<Rightarrow> bool \<Rightarrow> uuid option \<Rightarrow> world \<Rightarrow> world" where
  "clip_pages ev onlyMissing afterId w =
    (let page = getProcessedAssetIds ev onlyMissing QUEUE_ALL_PAGE_SIZE afterId w
     in if page = [] then w
        else clip_pages ev onlyMissing (Some (last page)) (queueAll (map SmartSearch page) w))"
  by pat_completeness auto
termination
proof (relation "measure (\<lambda>(ev, b, a, w). length (filter (after_id a) (processed_ids ev b w)))")
  fix ev b a w and page
  assume "page = getProcessedAssetIds ev b QUEUE_ALL_PAGE_SIZE a w" "page \<noteq> []"
  then show "((ev, b, Some (last page), queueAll (map SmartSearch page) w), ev, b, a, w)
      \<in> measure (\<lambda>(ev, b, a, w). length (filter (after_id a) (processed_ids ev b w)))"
    by (simp add: getProcessedAssetIds_def keyset_shrinks)
qed simp

declare clip_pages.simps [simp del]

definition clip_handleQueueAll :: "uuid \<Rightarrow> bool \<Rightarrow> world \<Rightarrow> JobStatus \<times> world" where
  "clip_handleQueueAll ev force w = (JobStatus_Success, clip_pages ev (\<not> force) None w)"

definition findSimilar :: "vector_index \<Rightarrow> uuid \<Rightarrow> uuid \<Rightarrow> world \<Rightarrow> uuid list outcome" where
  "findSimilar ix ev assetId w =
    (case asset_getById ev assetId w of
       None \<Rightarrow> Inl (NotFound ''Asset not found'')
     | Some _ \<Rightarrow>
    (case getEmbedding assetId w of
       None \<Rightarrow> Inr []
     | Some embedding \<Rightarrow>
        if embedding = '''' then Inr []
        else (case searchSimilar ix ev embedding assetId SIMILAR_RESULTS w of
                Inl e \<Rightarrow> Inl e
              | Inr results \<Rightarrow> Inr (map fst results))))"

section \<open>The backfill\<close>

lemma clip_pages_all:
  assumes "distinct (map a_id (assets w))"
  shows "clip_pages ev b a w = queueAll (map SmartSearch (filter (after_id a) (processed_ids ev b w))) w"
  using assms
proof (induction ev b a w rule: clip_pages.induct)
  case (1 ev b a w)
  let ?xs = "filter (after_id a) (processed_ids ev b w)" and ?n = QUEUE_ALL_PAGE_SIZE
  let ?page = "getProcessedAssetIds ev b ?n a w"
  have page: "?page = take ?n ?xs" by (simp add: getProcessedAssetIds_def)
  have sorted: "sorted_wrt (<) (processed_ids ev b w)"
    using 1(2) by (simp add: processed_ids_def strict_sorted_iff distinct_map inj_on_def)
  show ?case
  proof (cases "?page = []")
    case True
    then have "?xs = []" unfolding page by (simp add: QUEUE_ALL_PAGE_SIZE_def)
    with True show ?thesis by (simp add: clip_pages.simps [of ev b a w])
  next
    case False
    then have "filter (after_id (Some (last ?page))) (processed_ids ev b w) = drop ?n ?xs"
      unfolding page by (intro keyset_rest sorted)
    moreover have "clip_pages ev b a w = clip_pages ev b (Some (last ?page)) (queueAll (map SmartSearch ?page) w)"
      using False by (subst clip_pages.simps) (simp add: Let_def)
    moreover have "assets (queueAll js w) = assets w" for js by (simp add: queueAll_def)
    ultimately show ?thesis
      using "1.IH" [OF refl False] 1(2) by (simp add: page flip: map_append)
  qed
qed

lemma backfill_queues:
  assumes "distinct (map a_id (assets w))"
  shows "snd (clip_handleQueueAll ev force w) = queueAll (map SmartSearch (processed_ids ev (\<not> force) w)) w"
  by (simp add: clip_handleQueueAll_def clip_pages_all [OF assms] after_id_def)

section \<open>Vectors and their photos\<close>

definition clip_ok :: "world \<Rightarrow> bool" where
  "clip_ok w \<longleftrightarrow> distinct (map ss_assetId (smartSearches w)) \<and> ss_assetId ` set (smartSearches w) \<subseteq> a_id ` set (assets w)"


interpretation set_embedding: row_update ss_assetId "\<lambda>s. s\<lparr>ss_embedding := e\<rparr>" for e
  by unfold_locales simp

lemma clip_upsert_frames:
  assumes "clip_upsert i emb w = (r, w')"
  shows "assets w' = assets w" "assetFiles w' = assetFiles w" "queued w' = queued w"
    "is_ok r \<longleftrightarrow> i \<in> a_id ` set (assets w)" "\<not> is_ok r \<Longrightarrow> w' = w"
  using assms by (auto simp: clip_upsert_def split: if_splits)

lemma clip_upsert_keys:
  assumes "clip_upsert i emb w = (r, w')" "is_ok r"
  shows "map ss_assetId (smartSearches w') =
    map ss_assetId (smartSearches w) @ (if i \<in> ss_assetId ` set (smartSearches w) then [] else [i])"
  using assms by (auto simp: clip_upsert_def set_embedding.keys_kept image_iff split: if_splits)

lemma clip_upsert_vector:
  assumes "clip_upsert i emb w = (r, w')" "is_ok r"
  shows "getEmbedding j w' = (if j = i then Some emb else getEmbedding j w)"
proof (cases "select_first (\<lambda>s. ss_assetId s = i) (smartSearches w)")
  case None
  then have "\<not> (\<exists>s \<in> set (smartSearches w). ss_assetId s = i)" by (simp add: select_first_None_iff)
  with assms have "smartSearches w' = smartSearches w @ [\<lparr>ss_assetId = i, ss_embedding = emb\<rparr>]"
    by (auto simp: clip_upsert_def split: if_splits)
  with None show ?thesis by (simp add: getEmbedding_def select_first_append split: option.splits)
next
  case (Some s)
  then have "\<exists>s \<in> set (smartSearches w). ss_assetId s = i" by (blast dest: select_first_SomeD)
  with assms have "smartSearches w' = update_where (\<lambda>s. ss_assetId s = i) (\<lambda>s. s\<lparr>ss_embedding := emb\<rparr>) (smartSearches w)"
    by (auto simp: clip_upsert_def split: if_splits)
  with Some show ?thesis
    by (auto simp: getEmbedding_def set_embedding.lookup_hit set_embedding.lookup_miss)
qed

lemma clip_ok_upsert:
  assumes "clip_upsert i emb w = (r, w')" "clip_ok w"
  shows "clip_ok w'"
proof (cases "is_ok r")
  case True
  have "distinct (map ss_assetId (smartSearches w'))" "set (map ss_assetId (smartSearches w')) \<subseteq> a_id ` set (assets w')"
    using assms(2) clip_upsert_frames(1,4) [OF assms(1)] True by (auto simp: clip_ok_def clip_upsert_keys [OF assms(1) True])
  then show ?thesis by (simp add: clip_ok_def)
qed (use assms(2) clip_upsert_frames(5) [OF assms(1)] in simp)

lemma handleSmartSearch_cases:
  assumes "handleSmartSearch env i m w = (st, m', w')"
  obtains (early) "w' = w" "st \<noteq> JobStatus_Success" | (failed) "w' = cl_others env w" "st = JobStatus_Failed"
  | (stored) preview picture emb where "asset_getByIdUnscoped i w \<noteq> None"
      "select_first (\<lambda>f. af_assetId f = i \<and> af_type f = AssetFileType_Preview) (assetFiles w) = Some preview"
      "cl_download env (af_storageKey preview) = Inr picture"
      "encodeImage (cl_urls env) (cl_post env) picture CLIP_MODEL_NAME m = (Inr emb, m')"
      "clip_upsert i emb (cl_others env w) = (Inr (), w')" "st = JobStatus_Success"
  using assms unfolding handleSmartSearch_def
  by (auto split: option.splits sum.splits prod.splits dest: clip_upsert_frames(5))

lemma clip_ok_subset:
  assumes "clip_ok w" "smartSearches w' = delete_where (\<lambda>s. ss_assetId s \<in> set ids) (smartSearches w)"
    "assets w' = delete_where (\<lambda>a. a_id a \<in> set ids) (assets w)"
  shows "clip_ok w'"
  using assms by (fastforce simp: clip_ok_def delete_where_def distinct_map inj_on_def image_subset_iff image_iff)

lemma clip_ok_asset_cascade: "clip_ok w \<Longrightarrow> clip_ok (asset_cascade ids w)"
  by (rule clip_ok_subset) (simp_all add: asset_cascade_def Let_def)

lemma clip_ok_event_cascade: "clip_ok w \<Longrightarrow> clip_ok (event_cascade evs w)"
  by (rule clip_ok_subset [where ids = "map a_id (filter (\<lambda>a. a_eventId a \<in> set evs) (assets w))"])
    (simp_all add: event_cascade_def asset_cascade_def participant_cascade_def Let_def)

lemma clip_ok_queue: "clip_ok (queueAll js w) = clip_ok w"
  by (simp add: clip_ok_def queueAll_def)

lemma clip_ok_pages: "clip_ok w \<Longrightarrow> clip_ok (clip_pages ev b a w)"
proof (induction ev b a w rule: clip_pages.induct)
  case (1 ev b a w)
  then show ?case by (subst clip_pages.simps) (simp add: Let_def clip_ok_queue)
qed

text \<open>
  Vectors follow their photos: no job and no delete, at whatever moment other requests intervene,
  leaves a vector without its photo or a photo with two vectors. A photo that is erased while its
  vector is being computed does not get one back.
\<close>

theorem vectors_follow_photos:
  assumes "clip_ok w" "clip_ok (cl_others env w)" "handleSmartSearch env i m w = (st, m', w')"
  shows "clip_ok w' \<and> clip_ok (snd (clip_handleQueueAll ev force w)) \<and> clip_ok (asset_cascade ids w) \<and> clip_ok (event_cascade evs w)
    \<and> (i \<notin> a_id ` set (assets (cl_others env w)) \<longrightarrow> st \<noteq> JobStatus_Success)"
proof -
  have "clip_ok w' \<and> (i \<notin> a_id ` set (assets (cl_others env w)) \<longrightarrow> st \<noteq> JobStatus_Success)"
    using assms(3)
  proof (cases rule: handleSmartSearch_cases)
    case (stored preview picture emb)
    then show ?thesis using clip_ok_upsert [OF stored(5) assms(2)] clip_upsert_frames(4) [OF stored(5)] by simp
  qed (use assms(1,2) in auto)
  then show ?thesis
    using assms(1) by (simp add: clip_handleQueueAll_def clip_ok_pages clip_ok_asset_cascade clip_ok_event_cascade)
qed

section \<open>Similar photos\<close>

lemma take_sorted_le:
  assumes "x \<in> set (take n (sort_key f xs))" "y \<in> set xs" "y \<notin> set (take n (sort_key f xs))"
  shows "f x \<le> (f y :: real)"
proof -
  let ?s = "sort_key f xs"
  have "y \<in> set (take n ?s @ drop n ?s)" using assms(2) by (simp only: append_take_drop_id set_sort)
  then have "y \<in> set (drop n ?s)" using assms(3) by (simp only: set_append Un_iff) blast
  moreover have "sorted (map f (take n ?s) @ map f (drop n ?s))"
    by (simp only: append_take_drop_id flip: map_append) simp
  ultimately show ?thesis using assms(1) by (auto simp: sorted_append)
qed

lemma findSimilar_rows:
  assumes "findSimilar ix ev a w = Inr ids"
  obtains (none) "ids = []" "\<And>emb. getEmbedding a w = Some emb \<Longrightarrow> emb = ''''"
  | (search) emb where "getEmbedding a w = Some emb" "emb \<noteq> ''''"
      "ids = map fst (take 60 (sort_key snd (similar_rows ix ev emb a w)))"
  using assms by (auto simp: findSimilar_def searchSimilar_def SIMILAR_RESULTS_def split: option.splits if_splits)

lemma getEmbedding_row:
  assumes "clip_ok w" "s \<in> set (smartSearches w)"
  shows "getEmbedding (ss_assetId s) w = Some (ss_embedding s)"
proof -
  have "select_first (\<lambda>t. ss_assetId t = ss_assetId s) (smartSearches w) = Some s"
    using assms by (intro select_first_by_key) (simp_all add: clip_ok_def)
  then show ?thesis by (simp add: getEmbedding_def)
qed

lemma similar_rows_iff:
  assumes "clip_ok w"
  shows "(i, d) \<in> set (similar_rows ix ev emb a w) \<longleftrightarrow>
    (\<exists>e. getEmbedding i w = Some e \<and> d = vx_distance ix e emb \<and> vx_visits ix emb e) \<and> i \<noteq> a
      \<and> (\<exists>x \<in> set (assets w). a_id x = i \<and> a_eventId x = ev \<and> a_deletedAt x = None)"
proof -
  have "(\<exists>s \<in> set (smartSearches w). ss_assetId s = i \<and> P (ss_embedding s)) \<longleftrightarrow> (\<exists>e. getEmbedding i w = Some e \<and> P e)" for P
  proof
    assume "\<exists>s \<in> set (smartSearches w). ss_assetId s = i \<and> P (ss_embedding s)"
    then show "\<exists>e. getEmbedding i w = Some e \<and> P e" using getEmbedding_row [OF assms] by metis
  qed (auto simp: getEmbedding_def dest!: select_first_SomeD)
  from this [of "\<lambda>e. d = vx_distance ix e emb \<and> vx_visits ix emb e"] show ?thesis
    by (auto simp: similar_rows_def)
qed

text \<open>
  Similar photos stay in the event: whatever the vector index returns, the answer holds at most sixty
  photos, all of them live photos of the same event, never the photo itself and none twice; and with an
  index that visits every vector nothing that was left out is nearer than what is shown.
\<close>

theorem similar_stays_in_event:
  assumes "findSimilar ix ev a w = Inr ids" "clip_ok w"
  shows "length ids \<le> 60 \<and> distinct ids
    \<and> (\<forall>i \<in> set ids. i \<noteq> a \<and> (\<exists>x \<in> set (assets w). a_id x = i \<and> a_eventId x = ev \<and> a_deletedAt x = None))
    \<and> (\<forall>emb i e x e'. (\<forall>e e'. vx_visits ix e e') \<and> getEmbedding a w = Some emb \<and> i \<in> set ids \<and> getEmbedding i w = Some e
         \<and> x \<in> set (assets w) \<and> a_eventId x = ev \<and> a_deletedAt x = None \<and> a_id x \<noteq> a \<and> a_id x \<notin> set ids \<and> getEmbedding (a_id x) w = Some e'
         \<longrightarrow> vx_distance ix e emb \<le> vx_distance ix e' emb)"
  using assms(1)
proof (cases rule: findSimilar_rows)
  case none
  then show ?thesis by simp
next
  case (search emb)
  let ?rows = "similar_rows ix ev emb a w" and ?top = "take 60 (sort_key snd (similar_rows ix ev emb a w))"
  have "distinct (map fst ?rows)" using assms(2) by (simp add: similar_rows_def clip_ok_def comp_def distinct_map_filter)
  then have "distinct (map fst (sort_key snd ?rows))" by (simp add: distinct_map)
  then have "distinct ids" unfolding search(3) by (simp add: take_map [symmetric] del: take_map)
  moreover have listed: "(i, d) \<in> set ?rows" if "(i, d) \<in> set ?top" for i d using in_set_takeD [OF that] by simp
  moreover have "vx_distance ix e emb \<le> vx_distance ix e' emb"
    if v: "\<forall>e e'. vx_visits ix e e'" and i: "i \<in> set ids" "getEmbedding i w = Some e"
      and x: "x \<in> set (assets w)" "a_eventId x = ev" "a_deletedAt x = None" "a_id x \<noteq> a" "a_id x \<notin> set ids" "getEmbedding (a_id x) w = Some e'"
    for i e x e'
  proof -
    from i(1) obtain d where d: "(i, d) \<in> set ?top" unfolding search(3) by auto
    have "d = vx_distance ix e emb" using listed [OF d] i(2) unfolding similar_rows_iff [OF assms(2)] by auto
    moreover have "(a_id x, vx_distance ix e' emb) \<in> set ?rows" using v x similar_rows_iff [OF assms(2)] by auto
    moreover have "(a_id x, vx_distance ix e' emb) \<notin> set ?top" using x(5) unfolding search(3) by force
    ultimately show ?thesis using take_sorted_le [OF d] by fastforce
  qed
  ultimately show ?thesis using search similar_rows_iff [OF assms(2)] by (fastforce simp: set_take_subset)
qed

section \<open>Filling the gaps\<close>

definition run_embeddings :: "clip_env \<Rightarrow> uuid list \<Rightarrow> health \<Rightarrow> world \<Rightarrow> health \<times> world" where
  "run_embeddings env ids m w = fold (\<lambda>i (m, w). snd (handleSmartSearch env i m w)) ids (m, w)"

text \<open>The servers work, downloads succeed and nobody interferes.\<close>

definition clip_works :: "clip_env \<Rightarrow> bool" where
  "clip_works env \<longleftrightarrow> cl_others env = id \<and> (\<forall>k. is_ok (cl_download env k))
    \<and> (\<forall>config picture. (\<exists>url \<in> set (cl_urls env). gives_answer (cl_post env url config picture))
        \<and> (\<forall>url \<in> set (cl_urls env). gives_answer (cl_post env url config picture) \<longrightarrow> is_ok (result_of (cl_post env url config picture))))"

definition has_preview :: "uuid \<Rightarrow> world \<Rightarrow> bool" where
  "has_preview i w \<longleftrightarrow> (\<exists>f \<in> set (assetFiles w). af_assetId f = i \<and> af_type f = AssetFileType_Preview)"

lemma encode_works:
  assumes "clip_works env"
  shows "\<exists>emb m'. encodeImage (cl_urls env) (cl_post env) picture model m = (Inr emb, m')"
proof -
  let ?config = "[(ModelTask_SEARCH, ModelType_VISUAL, model, None)]"
  obtain url where "url \<in> set (cl_urls env)" "gives_answer (cl_post env url ?config picture)"
    using assms unfolding clip_works_def by blast
  from predict_answers [of url "cl_urls env" "cl_post env" ?config picture m, OF this] obtain u where
    "u \<in> set (cl_urls env)" "gives_answer (cl_post env u ?config picture)"
    "fst (encodeImage (cl_urls env) (cl_post env) picture model m) = result_of (cl_post env u ?config picture)"
    by (auto simp: encodeImage_def)
  with assms have "is_ok (fst (encodeImage (cl_urls env) (cl_post env) picture model m))" by (simp add: clip_works_def)
  then show ?thesis by (metis is_ok_iff prod.collapse)
qed

lemma embedding_job:
  assumes "clip_works env" "asset_getByIdUnscoped i w \<noteq> None" "has_preview i w"
  shows "\<exists>emb m'. snd (handleSmartSearch env i m w) = (m', snd (clip_upsert i emb w)) \<and> is_ok (fst (clip_upsert i emb w))"
proof -
  obtain asset where a: "asset_getByIdUnscoped i w = Some asset" using assms(2) by auto
  then have "asset \<in> set (assets w)" "a_id asset = i" unfolding asset_getByIdUnscoped_def by (auto dest: select_first_SomeD)
  then have fk: "i \<in> a_id ` set (assets w)" by auto
  obtain preview where p: "select_first (\<lambda>f. af_assetId f = i \<and> af_type f = AssetFileType_Preview) (assetFiles w) = Some preview"
    using assms(3) unfolding has_preview_def by (metis (mono_tags, lifting) not_None_eq select_first_None_iff)
  obtain picture where d: "cl_download env (af_storageKey preview) = Inr picture"
    using assms(1) unfolding clip_works_def by (metis is_ok_iff)
  obtain emb m' where e: "encodeImage (cl_urls env) (cl_post env) picture CLIP_MODEL_NAME m = (Inr emb, m')"
    using encode_works [OF assms(1)] by blast
  obtain r w1 where u: "clip_upsert i emb w = (r, w1)" by fastforce
  then have "is_ok r" using clip_upsert_frames(4) fk by blast
  then show ?thesis using assms(1) a p d e u
    by (intro exI [of _ emb] exI [of _ m']) (auto simp: handleSmartSearch_def clip_works_def is_ok_iff)
qed

lemma run_embeddings_fill:
  assumes "clip_works env" "\<forall>i \<in> set ids. asset_getByIdUnscoped i w \<noteq> None \<and> has_preview i w"
  shows "assets (snd (run_embeddings env ids m w)) = assets w
    \<and> (\<forall>j. (getEmbedding j (snd (run_embeddings env ids m w)) \<noteq> None) = (j \<in> set ids \<or> getEmbedding j w \<noteq> None))
    \<and> (\<forall>j. j \<notin> set ids \<longrightarrow> getEmbedding j (snd (run_embeddings env ids m w)) = getEmbedding j w)"
  using assms(2)
proof (induction ids arbitrary: m w)
  case Nil
  then show ?case by (simp add: run_embeddings_def)
next
  case (Cons i ids)
  obtain emb m1 where job: "snd (handleSmartSearch env i m w) = (m1, snd (clip_upsert i emb w))" "is_ok (fst (clip_upsert i emb w))"
    using embedding_job [OF assms(1)] Cons(2) by (metis list.set_intros(1))
  let ?w1 = "snd (clip_upsert i emb w)"
  note u = prod.collapse [symmetric, of "clip_upsert i emb w"]
  have frames: "assets ?w1 = assets w" "assetFiles ?w1 = assetFiles w" using clip_upsert_frames(1,2) [OF u] .
  have run: "run_embeddings env (i # ids) m w = run_embeddings env ids m1 ?w1" by (simp add: run_embeddings_def job)
  have "\<forall>j \<in> set ids. asset_getByIdUnscoped j ?w1 \<noteq> None \<and> has_preview j ?w1"
    using Cons(2) by (simp add: asset_getByIdUnscoped_def has_preview_def frames)
  from Cons(1) [OF this, of m1] show ?case
    unfolding run using clip_upsert_vector [OF u job(2)] frames(1) by auto
qed

lemma processed_ids_live:
  "i \<in> set (processed_ids ev b w) \<Longrightarrow> asset_getByIdUnscoped i w \<noteq> None"
  by (auto simp: processed_ids_def asset_getByIdUnscoped_def select_first_None_iff)

lemma missing_iff: "(\<exists>s \<in> set (smartSearches w). ss_assetId s = i) \<longleftrightarrow> getEmbedding i w \<noteq> None"
  by (auto simp: getEmbedding_def select_first_None_iff)

text \<open>
  C19. The backfill fills every gap: it queues one job for each processed photo of the event that has no
  vector yet and nothing else, and once those jobs have run, with the servers working and the previews
  in place, no processed photo is without a vector, the vectors that were there are untouched and a
  second backfill queues nothing.
\<close>

theorem backfill_fills_every_gap:
  assumes "distinct (map a_id (assets w))" "clip_works env" "\<forall>i \<in> set (processed_ids ev True w). has_preview i w"
    and "run_embeddings env (processed_ids ev True w) m (snd (clip_handleQueueAll ev False w)) = (m', w')"
  shows "queued (snd (clip_handleQueueAll ev False w)) = queued w @ map SmartSearch (processed_ids ev True w)
    \<and> distinct (processed_ids ev True w)
    \<and> (\<forall>a \<in> set (assets w). a_eventId a = ev \<and> a_deletedAt a = None \<and> a_status a = AssetStatus_Processed \<longrightarrow> getEmbedding (a_id a) w' \<noteq> None)
    \<and> (\<forall>j e. getEmbedding j w = Some e \<longrightarrow> getEmbedding j w' = Some e)
    \<and> snd (clip_handleQueueAll ev False w') = w'"
proof -
  let ?ids = "processed_ids ev True w" and ?w = "queueAll (map SmartSearch (processed_ids ev True w)) w"
  have filled: "snd (clip_handleQueueAll ev False w) = ?w" using backfill_queues [OF assms(1), of ev False] by simp
  have same: "asset_getByIdUnscoped i ?w = asset_getByIdUnscoped i w" "has_preview i ?w = has_preview i w"
    "getEmbedding i ?w = getEmbedding i w" "assets ?w = assets w" for i
    by (simp_all add: asset_getByIdUnscoped_def has_preview_def getEmbedding_def queueAll_def)
  have fill: "assets w' = assets w" "\<And>j. (getEmbedding j w' \<noteq> None) = (j \<in> set ?ids \<or> getEmbedding j w \<noteq> None)"
    "\<And>j. j \<notin> set ?ids \<Longrightarrow> getEmbedding j w' = getEmbedding j w"
    using run_embeddings_fill [OF assms(2), of ?ids ?w m] assms(3,4) processed_ids_live [of _ ev True w]
    by (simp_all add: filled same)
  have known: "j \<notin> set ?ids" if "getEmbedding j w = Some e" for j e
    using that missing_iff [of w j] by (auto simp: processed_ids_def)
  have all: "getEmbedding (a_id a) w' \<noteq> None"
    if "a \<in> set (assets w)" "a_eventId a = ev" "a_deletedAt a = None" "a_status a = AssetStatus_Processed" for a
    unfolding fill(2) using that by (auto simp: processed_ids_def missing_iff)
  have "processed_ids ev True w' = []"
  proof -
    have "filter (\<lambda>a. a_eventId a = ev \<and> a_deletedAt a = None \<and> a_status a = AssetStatus_Processed
        \<and> (True \<longrightarrow> \<not> (\<exists>s \<in> set (smartSearches w'). ss_assetId s = a_id a))) (assets w') = []"
      unfolding fill(1) missing_iff filter_empty_conv using all by blast
    then show ?thesis by (simp only: processed_ids_def) simp
  qed
  then have "snd (clip_handleQueueAll ev False w') = w'"
    using backfill_queues [of w' ev False] assms(1) fill(1) by simp
  moreover have "distinct ?ids" using assms(1) by (simp add: processed_ids_def distinct_map inj_on_def)
  ultimately show ?thesis using all fill(3) known by (auto simp: filled)
qed

section \<open>Witnesses\<close>

definition wit_clip_world :: world where
  "wit_clip_world = empty_world\<lparr>assets := [wit_asset, wit_asset\<lparr>a_id := ''a2''\<rparr>], assetFiles := [wit_preview],
     smartSearches := [\<lparr>ss_assetId = ''a2'', ss_embedding = ''v''\<rparr>]\<rparr>"

definition wit_clip_env :: clip_env where
  "wit_clip_env = \<lparr>cl_urls = [''ml''], cl_post = (\<lambda>_ _ p. Ml_ok (Some p)), cl_download = Inr, cl_others = id\<rparr>"

lemma wit_clip_facts:
  "clip_ok wit_clip_world" "distinct (map a_id (assets wit_clip_world))" "processed_ids ''e'' True wit_clip_world = [''a1'']"
  "has_preview ''a1'' wit_clip_world" "clip_works wit_clip_env" "cl_others wit_clip_env = id"
  by (simp_all add: clip_ok_def wit_clip_world_def wit_asset_def empty_world_def processed_ids_def has_preview_def wit_preview_def
      clip_works_def wit_clip_env_def result_of_def)

theorem vectors_follow_photos_witness:
  "clip_ok (snd (snd (handleSmartSearch wit_clip_env ''a1'' Map.empty wit_clip_world)))"
proof -
  obtain st m' w' where run: "handleSmartSearch wit_clip_env ''a1'' Map.empty wit_clip_world = (st, m', w')" by (rule prod_cases3)
  from vectors_follow_photos [OF _ _ run] show ?thesis by (simp add: wit_clip_facts run)
qed

theorem backfill_fills_every_gap_witness:
  "getEmbedding ''a1'' (snd (run_embeddings wit_clip_env [''a1''] Map.empty (snd (clip_handleQueueAll ''e'' False wit_clip_world)))) \<noteq> None"
  using backfill_fills_every_gap [of wit_clip_world wit_clip_env "''e''" Map.empty, OF _ _ _ prod.collapse [symmetric]]
  by (simp add: wit_clip_facts) (simp add: wit_clip_world_def wit_asset_def empty_world_def)

theorem similar_stays_in_event_witness:
  "\<exists>ids. findSimilar \<lparr>vx_distance = (\<lambda>_ _. 0), vx_visits = (\<lambda>_ _. True)\<rparr> ''e'' ''a2''
      (wit_clip_world\<lparr>smartSearches := [\<lparr>ss_assetId = ''a1'', ss_embedding = ''u''\<rparr>, \<lparr>ss_assetId = ''a2'', ss_embedding = ''v''\<rparr>]\<rparr>) = Inr ids
    \<and> ''a1'' \<in> set ids \<and> ''a2'' \<notin> set ids"
proof -
  let ?ix = "\<lparr>vx_distance = (\<lambda>_ _. 0), vx_visits = (\<lambda>_ _. True)\<rparr> :: vector_index"
  let ?w = "wit_clip_world\<lparr>smartSearches := [\<lparr>ss_assetId = ''a1'', ss_embedding = ''u''\<rparr>, \<lparr>ss_assetId = ''a2'', ss_embedding = ''v''\<rparr>]\<rparr>"
  have found: "findSimilar ?ix ''e'' ''a2'' ?w = Inr [''a1'']"
    by (simp add: findSimilar_def asset_getById_def getEmbedding_def searchSimilar_def similar_rows_def SIMILAR_RESULTS_def
        wit_clip_world_def wit_asset_def empty_world_def)
  have "clip_ok ?w" by (simp add: clip_ok_def wit_clip_world_def wit_asset_def empty_world_def)
  with similar_stays_in_event [OF found] found show ?thesis by simp
qed

end
