(* ===== verification/ObjectStore.thy ===== *)
theory ObjectStore
  imports StorageKeys
begin

text \<open>
  \<^verbatim>\<open>repositories/storage.repository.ts\<close>: how objects are really deleted. The rest of the model takes
  \<open>deleteKeys\<close> and \<open>deletePrefix\<close> as one step each; here they are the loops of the source over the
  bucket's two commands, a delete of a thousand keys at most and a listing by pages, and both loops are
  shown to refine the one step.

  The bucket is an argument: whether it takes a request, which keys it refuses to delete (it reports them in
  the body of a successful answer, which the code does not read), and what it lists. \<open>listing_ok\<close> states
  what its documentation says of a listing.
\<close>

section \<open>Deleting keys\<close>

definition DELETE_BATCH :: nat where
  "DELETE_BATCH = 1000"

function batches :: "'a list \<Rightarrow> 'a list list" where
  "batches ks = (if ks = [] then [] else take DELETE_BATCH ks # batches (drop DELETE_BATCH ks))"
  by auto
termination by (relation "measure length") (auto simp: DELETE_BATCH_def)

declare batches.simps [simp del]

record bucket =
  bk_takes :: "string list \<Rightarrow> bool"
  bk_refuses :: "string \<Rightarrow> bool"
  bk_list :: "string list \<Rightarrow> string \<Rightarrow> string option \<Rightarrow> string list \<times> string option"

fun send_batches :: "bucket \<Rightarrow> string list list \<Rightarrow> world \<Rightarrow> unit outcome \<times> world" where
  "send_batches bk [] w = (Inr (), w)"
| "send_batches bk (b # bs) w =
    (if bk_takes bk b then send_batches bk bs (deleteKeys (filter (\<lambda>k. \<not> bk_refuses bk k) b) w)
     else (Inl (ServerError ''DeleteObjects failed''), w))"

definition delete_in_batches :: "bucket \<Rightarrow> string list \<Rightarrow> world \<Rightarrow> unit outcome \<times> world" where
  "delete_in_batches bk ks w = send_batches bk (batches ks) w"

section \<open>Deleting a prefix\<close>

text \<open>\<open>None\<close>: more pages than fuel.\<close>

fun prefix_loop :: "nat \<Rightarrow> bucket \<Rightarrow> string \<Rightarrow> string option \<Rightarrow> world \<Rightarrow> (unit outcome \<times> world) option" where
  "prefix_loop 0 bk p tok w = None"
| "prefix_loop (Suc n) bk p tok w =
    (case bk_list bk (objects w) p tok of
       (listed, token) \<Rightarrow>
         let ks = filter (\<lambda>k. k \<noteq> []) listed
         in case (if ks = [] then (Inr (), w) else delete_in_batches bk ks w) of
              (Inl e, w1) \<Rightarrow> Some (Inl e, w1)
            | (Inr _, w1) \<Rightarrow> (case token of None \<Rightarrow> Some (Inr (), w1) | Some t \<Rightarrow> if t = [] then Some (Inr (), w1) else prefix_loop n bk p (Some t) w1))"

section \<open>Batches\<close>

lemma batches_Nil [simp]: "batches [] = []"
  by (simp add: batches.simps)

lemma concat_batches: "concat (batches ks) = ks"
proof (induction ks rule: batches.induct)
  case (1 ks)
  then show ?case by (simp add: batches.simps [of ks])
qed

lemma batch_size: "b \<in> set (batches ks) \<Longrightarrow> b \<noteq> [] \<and> length b \<le> 1000"
proof (induction ks rule: batches.induct)
  case (1 ks)
  from 1(2) have "ks \<noteq> []" by (subst (asm) batches.simps) (auto split: if_splits)
  with 1 show ?case by (subst (asm) (2) batches.simps) (auto simp: DELETE_BATCH_def)
qed

lemma deleteKeys_twice: "deleteKeys ks (deleteKeys js w) = deleteKeys (js @ ks) w"
  by (simp add: deleteKeys_def)

lemma deleteKeys_nothing: "deleteKeys [] w = w"
  by (simp add: deleteKeys_def)

lemma send_batches_all:
  "\<forall>b \<in> set bs. bk_takes bk b \<Longrightarrow> send_batches bk bs w = (Inr (), deleteKeys (filter (\<lambda>k. \<not> bk_refuses bk k) (concat bs)) w)"
  by (induction bs arbitrary: w) (simp_all add: deleteKeys_twice deleteKeys_nothing)

text \<open>
  Deleting in batches is deleting: no request names more than the thousand keys the service takes, and
  when every request is taken the keys are gone as if in one step, except those the service refused one
  by one, and of these the caller is told nothing. A request that fails leaves the keys from its
  batch on untouched.
\<close>

theorem batches_refine_deleteKeys:
  "(\<forall>b \<in> set (batches ks). length b \<le> 1000)
    \<and> ((\<forall>b \<in> set (batches ks). bk_takes bk b) \<longrightarrow>
        delete_in_batches bk ks w = (Inr (), deleteKeys (filter (\<lambda>k. \<not> bk_refuses bk k) ks) w))
    \<and> (\<forall>bs b cs. batches ks = bs @ b # cs \<and> (\<forall>x \<in> set bs. bk_takes bk x) \<and> \<not> bk_takes bk b \<longrightarrow>
        delete_in_batches bk ks w
          = (Inl (ServerError ''DeleteObjects failed''), deleteKeys (filter (\<lambda>k. \<not> bk_refuses bk k) (concat bs)) w))"
proof (intro conjI allI impI)
  have "send_batches bk (bs @ b # cs) w = (Inl (ServerError ''DeleteObjects failed''), deleteKeys (filter (\<lambda>k. \<not> bk_refuses bk k) (concat bs)) w)"
    if "\<forall>x \<in> set bs. bk_takes bk x" "\<not> bk_takes bk b" for bs b cs
    using that by (induction bs arbitrary: w) (simp_all add: deleteKeys_twice deleteKeys_nothing)
  then show "delete_in_batches bk ks w
      = (Inl (ServerError ''DeleteObjects failed''), deleteKeys (filter (\<lambda>k. \<not> bk_refuses bk k) (concat bs)) w)"
    if "batches ks = bs @ b # cs \<and> (\<forall>x \<in> set bs. bk_takes bk x) \<and> \<not> bk_takes bk b" for bs b cs
    using that by (simp add: delete_in_batches_def)
qed (auto simp: batch_size delete_in_batches_def send_batches_all concat_batches)

section \<open>Pages\<close>

text \<open>
  A listing by pages: every key of a page is an object under the prefix that no earlier page covered; a last
  page holds all of those; a page with a token holds at least one key, and what it leaves out lies
  behind its token.
\<close>

definition listing_ok :: "bucket \<Rightarrow> (string option \<Rightarrow> string \<Rightarrow> bool) \<Rightarrow> bool" where
  "listing_ok bk covered \<longleftrightarrow> (\<forall>k. \<not> covered None k) \<and>
    (\<forall>os p tok ks token. bk_list bk os p tok = (ks, token) \<longrightarrow>
       (\<forall>k \<in> set ks. k \<in> set os \<and> prefix p k) \<and>
       (token = None \<longrightarrow> (\<forall>k \<in> set os. prefix p k \<and> \<not> covered tok k \<longrightarrow> k \<in> set ks)) \<and>
       (\<forall>t. token = Some t \<longrightarrow> t \<noteq> [] \<and> ks \<noteq> [] \<and> (\<forall>k \<in> set os. prefix p k \<and> \<not> covered tok k \<longrightarrow> k \<in> set ks \<or> \<not> covered (Some t) k)))"

lemma deletePrefix_after_keys: "\<forall>k \<in> set ks. prefix p k \<Longrightarrow> deletePrefix p (deleteKeys ks w) = deletePrefix p w"
proof -
  assume "\<forall>k \<in> set ks. prefix p k"
  then have "filter (\<lambda>k. \<not> prefix p k) (filter (\<lambda>k. k \<notin> set ks) (objects w)) = filter (\<lambda>k. \<not> prefix p k) (objects w)"
    by (auto intro: filter_cong)
  then show ?thesis by (simp add: deletePrefix_def deleteKeys_def)
qed

lemma deleteKeys_all: "\<forall>k \<in> set ks. prefix p k \<Longrightarrow> \<forall>k \<in> set (objects w). prefix p k \<longrightarrow> k \<in> set ks \<Longrightarrow> deleteKeys ks w = deletePrefix p w"
proof -
  assume "\<forall>k \<in> set ks. prefix p k" "\<forall>k \<in> set (objects w). prefix p k \<longrightarrow> k \<in> set ks"
  then have "filter (\<lambda>k. k \<notin> set ks) (objects w) = filter (\<lambda>k. \<not> prefix p k) (objects w)" by (intro filter_cong) auto
  then show ?thesis by (simp add: deletePrefix_def deleteKeys_def)
qed

lemma prefix_loop_from:
  assumes "listing_ok bk covered" "\<forall>b. bk_takes bk b" "\<forall>k. \<not> bk_refuses bk k" "p \<noteq> []"
    and "\<forall>k \<in> set (objects w). prefix p k \<longrightarrow> \<not> covered tok k" "length (objects w) < n"
  shows "prefix_loop n bk p tok w = Some (Inr (), deletePrefix p w)"
  using assms(5,6)
proof (induction n arbitrary: tok w)
  case (Suc n)
  obtain ks token where page: "bk_list bk (objects w) p tok = (ks, token)" by (cases "bk_list bk (objects w) p tok")
  have law: "\<forall>k \<in> set ks. k \<in> set (objects w) \<and> prefix p k"
    "token = None \<Longrightarrow> \<forall>k \<in> set (objects w). prefix p k \<longrightarrow> k \<in> set ks"
    "\<And>t. token = Some t \<Longrightarrow> t \<noteq> [] \<and> ks \<noteq> [] \<and> (\<forall>k \<in> set (objects w). prefix p k \<longrightarrow> k \<in> set ks \<or> \<not> covered (Some t) k)"
    using assms(1) page Suc.prems(1) unfolding listing_ok_def by blast+
  then have "k \<noteq> []" if "k \<in> set ks" for k using assms(4) that by auto
  then have all: "filter (\<lambda>k. k \<noteq> []) ks = ks" by (simp add: filter_id_conv)
  have del: "delete_in_batches bk ks w = (Inr (), deleteKeys ks w)"
    using send_batches_all [of "batches ks" bk w] assms(2,3) by (simp add: delete_in_batches_def concat_batches)
  have step: "(if ks = [] then (Inr (), w) else delete_in_batches bk ks w) = (Inr (), deleteKeys ks w)"
    by (simp add: del deleteKeys_nothing)
  show ?case
  proof (cases token)
    case None
    have "\<forall>k \<in> set ks. prefix p k" using law(1) by blast
    from deleteKeys_all [OF this law(2) [OF None]] have "deletePrefix p w = deleteKeys ks w" by simp
    then show ?thesis by (simp add: page all del None Let_def deleteKeys_nothing)
  next
    case (Some t)
    from law(3) [OF Some] obtain k where k: "k \<in> set ks" by (cases ks) auto
    then have "length (objects (deleteKeys ks w)) < length (objects w)"
      using law(1) unfolding deleteKeys_def by (simp, intro length_filter_less [of k]) blast+
    moreover have "\<forall>k \<in> set (objects (deleteKeys ks w)). prefix p k \<longrightarrow> \<not> covered (Some t) k"
      using law(3) [OF Some] unfolding deleteKeys_def by auto
    ultimately have "prefix_loop n bk p (Some t) (deleteKeys ks w) = Some (Inr (), deletePrefix p (deleteKeys ks w))"
      using Suc.prems(2) by (intro Suc.IH) simp_all
    moreover have "deletePrefix p (deleteKeys ks w) = deletePrefix p w" using law(1) by (intro deletePrefix_after_keys) blast
    moreover have "t \<noteq> []" "ks \<noteq> []" using law(3) [OF Some] by blast+
    ultimately show ?thesis by (simp add: page all del Some Let_def deleteKeys_nothing)
  qed
qed simp


text \<open>What the bucket refuses to delete is forgotten: the deletion succeeds and the object stays.\<close>

theorem refused_keys_are_forgotten:
  assumes "k \<in> set ks" "k \<in> set (objects w)" "bk_refuses bk k" "\<forall>b \<in> set (batches ks). bk_takes bk b"
  shows "fst (delete_in_batches bk ks w) = Inr () \<and> k \<in> set (objects (snd (delete_in_batches bk ks w)))"
  using assms by (simp add: delete_in_batches_def send_batches_all concat_batches)

section \<open>Witnesses\<close>

text \<open>A bucket that lists one object per page.\<close>

definition wit_bucket :: bucket where
  "wit_bucket = \<lparr>bk_takes = (\<lambda>_. True), bk_refuses = (\<lambda>_. False),
     bk_list = (\<lambda>os p tok. case filter (prefix p) os of [] \<Rightarrow> ([], None) | [k] \<Rightarrow> ([k], None) | k # _ \<Rightarrow> ([k], Some ''next''))\<rparr>"

lemma wit_listing_ok: "listing_ok wit_bucket (\<lambda>_ _. False)"
proof -
  have "(\<forall>k \<in> set ks. k \<in> set os \<and> prefix p k) \<and> (token = None \<longrightarrow> (\<forall>k \<in> set os. prefix p k \<longrightarrow> k \<in> set ks))
      \<and> (\<forall>t. token = Some t \<longrightarrow> t \<noteq> [] \<and> ks \<noteq> [])"
    if page: "bk_list wit_bucket os p tok = (ks, token)" for os p tok ks token
  proof -
    have mem: "k \<in> set (filter (prefix p) os) \<longleftrightarrow> k \<in> set os \<and> prefix p k" for k by simp
    show ?thesis
    proof (cases "filter (prefix p) os")
      case Nil
      with page mem show ?thesis by (auto simp: wit_bucket_def filter_empty_conv)
    next
      case (Cons k js)
      then have k: "k \<in> set os" "prefix p k" using mem [of k] by simp_all
      show ?thesis
      proof (cases js)
        case Nil
        have "x = k" if "x \<in> set os" "prefix p x" for x using mem [of x] that Cons Nil by simp
        moreover have ks: "ks = [k]" and "token = None" using page Cons Nil by (simp_all add: wit_bucket_def)
        ultimately have "\<forall>x \<in> set os. prefix p x \<longrightarrow> x \<in> set ks" by (metis list.set_intros(1))
        moreover have "\<forall>x \<in> set ks. x \<in> set os \<and> prefix p x" using k by (simp add: ks)
        ultimately show ?thesis using \<open>token = None\<close> by blast
      next
        case (Cons j rest)
        with page \<open>filter (prefix p) os = k # js\<close> have "ks = [k] \<and> token = Some ''next''" by (simp add: wit_bucket_def)
        with k show ?thesis by auto
      qed
    qed
  qed
  then show ?thesis unfolding listing_ok_def by blast
qed

theorem batches_refine_deleteKeys_witness:
  "delete_in_batches wit_bucket [''a'', ''b''] (empty_world\<lparr>objects := [''a'', ''c'']\<rparr>)
    = (Inr (), deleteKeys [''a'', ''b''] (empty_world\<lparr>objects := [''a'', ''c'']\<rparr>))"
  using batches_refine_deleteKeys [of "[''a'', ''b'']" wit_bucket "empty_world\<lparr>objects := [''a'', ''c'']\<rparr>"] by (simp add: wit_bucket_def)


theorem refused_keys_are_forgotten_witness:
  "''a'' \<in> set (objects (snd (delete_in_batches (wit_bucket\<lparr>bk_refuses := \<lambda>_. True\<rparr>) [''a''] (empty_world\<lparr>objects := [''a'']\<rparr>))))"
  using refused_keys_are_forgotten [of "''a''" "[''a'']" "empty_world\<lparr>objects := [''a'']\<rparr>" "wit_bucket\<lparr>bk_refuses := \<lambda>_. True\<rparr>"]
  by (simp add: wit_bucket_def)

end
