(* ===== verification/CloudProviders.thy ===== *)
theory CloudProviders
  imports ImportPolicy Assets Config
begin

text \<open>
  \<^verbatim>\<open>repositories/cloud-providers/\<close>: the clients of Google Drive and OneDrive behind the interface that
  the accounts and the imports use, and the registry that configures them from the environment.

  The two services are arguments: what they answer to a request, as a status, the \<^verbatim>\<open>Retry-After\<close>
  header and the body in the shape their documentation gives it. A request that fails on the way is
  \<open>None\<close>, and a body that is not of the shape is \<open>None\<close> too.
\<close>

section \<open>Answers\<close>

record 'b reply =
  rp_status :: nat
  rp_retryAfter :: "string option"
  rp_body :: "'b option"

definition rp_ok :: "'b reply \<Rightarrow> bool" where
  "rp_ok r \<longleftrightarrow> 200 \<le> rp_status r \<and> rp_status r < 300"

text \<open>\<^verbatim>\<open>Number.parseInt(s, 10)\<close>; \<open>None\<close> is \<^verbatim>\<open>NaN\<close>.\<close>

definition is_digit :: "char \<Rightarrow> bool" where
  "is_digit c \<longleftrightarrow> 48 \<le> (of_char c :: nat) \<and> (of_char c :: nat) \<le> 57"

definition parseInt :: "string \<Rightarrow> int option" where
  "parseInt s =
    (let t = dropWhile js_space s;
         negative = (t \<noteq> [] \<and> hd t = CHR ''-'');
         u = (if t \<noteq> [] \<and> (hd t = CHR ''-'' \<or> hd t = CHR ''+'') then tl t else t);
         d = takeWhile is_digit u
     in if d = [] then None else Some (if negative then - int (decimal_value 0 d) else int (decimal_value 0 d)))"

definition throwIfRateLimited :: "'b reply \<Rightarrow> thrown option" where
  "throwIfRateLimited r =
    (if rp_status r = 429 \<or> rp_status r = 403 \<and> truthy (rp_retryAfter r) \<noteq> None
     then Some (ProviderRateLimit (or_default (case truthy (rp_retryAfter r) of None \<Rightarrow> Some 30 | Some s \<Rightarrow> parseInt s) 30 * 1000))
     else None)"

text \<open>A request with the access token, up to its body.\<close>

definition body_of :: "'b reply option \<Rightarrow> thrown + 'b" where
  "body_of answer =
    (case answer of
       None \<Rightarrow> Inl (Thrown (ServerError ''fetch failed''))
     | Some r \<Rightarrow>
        (case throwIfRateLimited r of
           Some e \<Rightarrow> Inl e
         | None \<Rightarrow>
            if \<not> rp_ok r then Inl (Thrown (ServerError ''request failed''))
            else (case rp_body r of None \<Rightarrow> Inl (Thrown (ServerError ''unexpected body'')) | Some b \<Rightarrow> Inr b)))"

text \<open>A request for tokens knows no rate limit.\<close>

definition tokens_of :: "OAuthTokens reply option \<Rightarrow> thrown + OAuthTokens" where
  "tokens_of answer =
    (case answer of
       None \<Rightarrow> Inl (Thrown (ServerError ''fetch failed''))
     | Some r \<Rightarrow>
        if \<not> rp_ok r then Inl (Thrown (ServerError ''token request failed''))
        else (case rp_body r of None \<Rightarrow> Inl (Thrown (ServerError ''unexpected body'')) | Some t \<Rightarrow> Inr t))"

definition map_ok :: "('a \<Rightarrow> thrown + 'b) \<Rightarrow> thrown + 'a \<Rightarrow> thrown + 'b" where
  "map_ok f r = (case r of Inl e \<Rightarrow> Inl e | Inr x \<Rightarrow> f x)"

type_synonym form = "(string \<times> string) list"

section \<open>Google Drive\<close>

record drive_file =
  df_id :: string
  df_name :: string
  df_size :: "string option"
  df_md5Checksum :: "string option"
  df_mimeType :: string

text \<open>The service: token endpoint, account, file list by its query, media by file id; \<^verbatim>\<open>Number\<close> of a text.\<close>

record drive_api =
  dr_token :: "form \<Rightarrow> OAuthTokens reply option"
  dr_about :: "string \<Rightarrow> string option reply option"
  dr_files :: "string \<Rightarrow> form \<Rightarrow> (drive_file list \<times> string option) reply option"
  dr_media :: "string \<Rightarrow> string \<Rightarrow> (string \<times> bytes) reply option"
  dr_number :: "string \<Rightarrow> bytes"

definition FOLDER_MIME :: string where
  "FOLDER_MIME = ''application/vnd.google-apps.folder''"

definition drive_scopes :: "string list" where
  "drive_scopes = [''https://www.googleapis.com/auth/drive.readonly'']"

definition drive_authorizeParams :: "string \<Rightarrow> string \<Rightarrow> string \<Rightarrow> form" where
  "drive_authorizeParams clientId uri state =
    [(''client_id'', clientId), (''redirect_uri'', uri), (''response_type'', ''code''), (''scope'', join_with (CHR '' '') drive_scopes),
     (''access_type'', ''offline''), (''prompt'', ''consent''), (''state'', state)]"

definition drive_exchangeCode :: "drive_api \<Rightarrow> string \<Rightarrow> string \<Rightarrow> string \<Rightarrow> string \<Rightarrow> thrown + OAuthTokens" where
  "drive_exchangeCode api clientId secret code uri =
    tokens_of (dr_token api [(''code'', code), (''client_id'', clientId), (''client_secret'', secret), (''redirect_uri'', uri),
      (''grant_type'', ''authorization_code'')])"

definition drive_refresh :: "drive_api \<Rightarrow> string \<Rightarrow> string \<Rightarrow> string \<Rightarrow> thrown + OAuthTokens" where
  "drive_refresh api clientId secret refreshToken =
    tokens_of (dr_token api [(''refresh_token'', refreshToken), (''client_id'', clientId), (''client_secret'', secret), (''grant_type'', ''refresh_token'')])"

definition drive_getAccountEmail :: "drive_api \<Rightarrow> string \<Rightarrow> thrown + string" where
  "drive_getAccountEmail api tok =
    map_ok (\<lambda>email. case truthy email of None \<Rightarrow> Inl (Thrown (ServerError ''could not resolve account email'')) | Some e \<Rightarrow> Inr e)
      (body_of (dr_about api tok))"

definition quoted :: "string \<Rightarrow> string" where
  "quoted s = [CHR 0x27] @ s @ [CHR 0x27]"

definition drive_listFolders :: "drive_api \<Rightarrow> string \<Rightarrow> string option \<Rightarrow> thrown + RemoteFolder list" where
  "drive_listFolders api tok parent =
    map_ok (\<lambda>(files, _). Inr (map (\<lambda>f. \<lparr>rd_id = df_id f, rd_name = df_name f, rd_hasChildren = True\<rparr>) files))
      (body_of (dr_files api tok
        [(''q'', quoted (or_default parent ''root'') @ '' in parents and mimeType='' @ quoted FOLDER_MIME @ '' and trashed=false''),
         (''fields'', ''files(id,name)''), (''pageSize'', ''1000'')]))"

definition drive_page :: "drive_api \<Rightarrow> drive_file list \<times> string option \<Rightarrow> RemoteListingPage" where
  "drive_page api body =
    \<lparr>lp_files = map (\<lambda>f. \<lparr>rf_id = df_id f, rf_name = df_name f, rf_size = map_option (dr_number api) (truthy (df_size f)),
                        rf_checksum = df_md5Checksum f, rf_mimeType = df_mimeType f\<rparr>)
                 (filter (\<lambda>f. df_mimeType f \<noteq> FOLDER_MIME) (fst body)),
     lp_subfolderIds = map df_id (filter (\<lambda>f. df_mimeType f = FOLDER_MIME) (fst body)),
     lp_nextPageToken = snd body\<rparr>"

definition drive_listFilesPage :: "drive_api \<Rightarrow> string \<Rightarrow> string \<Rightarrow> string option \<Rightarrow> thrown + RemoteListingPage" where
  "drive_listFilesPage api tok folder pageToken =
    map_ok (\<lambda>body. Inr (drive_page api body))
      (body_of (dr_files api tok
        ([(''q'', quoted folder @ '' in parents and trashed=false''),
          (''fields'', ''nextPageToken,files(id,name,size,md5Checksum,mimeType)''), (''pageSize'', ''1000'')]
         @ (case truthy pageToken of None \<Rightarrow> [] | Some t \<Rightarrow> [(''pageToken'', t)]))))"

definition drive_downloadToFile :: "drive_api \<Rightarrow> string \<Rightarrow> string \<Rightarrow> thrown + (string \<times> bytes)" where
  "drive_downloadToFile api tok file = body_of (dr_media api tok file)"

definition GoogleDriveProvider :: "drive_api \<Rightarrow> string \<Rightarrow> string \<Rightarrow> provider_client" where
  "GoogleDriveProvider api clientId secret =
    \<lparr>pc_exchangeCode = drive_exchangeCode api clientId secret, pc_refresh = drive_refresh api clientId secret,
     pc_getAccountEmail = drive_getAccountEmail api, pc_listFolders = drive_listFolders api,
     pc_listFilesPage = drive_listFilesPage api, pc_downloadToFile = drive_downloadToFile api\<rparr>"

section \<open>OneDrive\<close>

text \<open>A drive item: its folder facet holds the number of children, its file facet type and hashes.\<close>

record DriveItem =
  di_id :: string
  di_name :: string
  di_size :: "bytes option"
  di_folder :: "int option option"
  di_file :: "(string option \<times> string option \<times> string option) option"

record graph_api =
  ga_token :: "form \<Rightarrow> OAuthTokens reply option"
  ga_me :: "string \<Rightarrow> (string option \<times> string option) reply option"
  ga_children :: "string \<Rightarrow> string \<Rightarrow> (DriveItem list \<times> string option) reply option"
  ga_content :: "string \<Rightarrow> string \<Rightarrow> (string \<times> bytes) reply option"

definition GRAPH :: string where
  "GRAPH = ''https://graph.microsoft.com/v1.0''"

definition onedrive_scopes :: "string list" where
  "onedrive_scopes = [''Files.Read.All'', ''offline_access'', ''User.Read'']"

definition onedrive_authorizeParams :: "string \<Rightarrow> string \<Rightarrow> string \<Rightarrow> form" where
  "onedrive_authorizeParams clientId uri state =
    [(''client_id'', clientId), (''redirect_uri'', uri), (''response_type'', ''code''), (''scope'', join_with (CHR '' '') onedrive_scopes),
     (''state'', state)]"

definition onedrive_exchangeCode :: "graph_api \<Rightarrow> string \<Rightarrow> string \<Rightarrow> string \<Rightarrow> string \<Rightarrow> thrown + OAuthTokens" where
  "onedrive_exchangeCode api clientId secret code uri =
    tokens_of (ga_token api [(''code'', code), (''client_id'', clientId), (''client_secret'', secret), (''redirect_uri'', uri),
      (''grant_type'', ''authorization_code'')])"

definition onedrive_refresh :: "graph_api \<Rightarrow> string \<Rightarrow> string \<Rightarrow> string \<Rightarrow> thrown + OAuthTokens" where
  "onedrive_refresh api clientId secret refreshToken =
    tokens_of (ga_token api [(''refresh_token'', refreshToken), (''client_id'', clientId), (''client_secret'', secret), (''grant_type'', ''refresh_token'')])"

definition onedrive_getAccountEmail :: "graph_api \<Rightarrow> string \<Rightarrow> thrown + string" where
  "onedrive_getAccountEmail api tok =
    map_ok (\<lambda>(mail, principal).
        case truthy (case mail of None \<Rightarrow> principal | Some m \<Rightarrow> Some m) of
          None \<Rightarrow> Inl (Thrown (ServerError ''could not resolve account email'')) | Some e \<Rightarrow> Inr e)
      (body_of (ga_me api tok))"

definition onedrive_listFolders :: "graph_api \<Rightarrow> string \<Rightarrow> string option \<Rightarrow> thrown + RemoteFolder list" where
  "onedrive_listFolders api tok parent =
    map_ok (\<lambda>(items, _). Inr (map (\<lambda>i. \<lparr>rd_id = di_id i, rd_name = di_name i,
        rd_hasChildren = (case di_folder i of Some (Some n) \<Rightarrow> n > 0 | _ \<Rightarrow> False)\<rparr>) (filter (\<lambda>i. di_folder i \<noteq> None) items)))
      (body_of (ga_children api tok
        ((case truthy parent of None \<Rightarrow> GRAPH @ ''/me/drive/root/children'' | Some p \<Rightarrow> GRAPH @ ''/me/drive/items/'' @ p @ ''/children'')
          @ ''?$select=id,name,folder&$top=200'')))"

definition onedrive_page :: "DriveItem list \<times> string option \<Rightarrow> RemoteListingPage" where
  "onedrive_page body =
    \<lparr>lp_files = List.map_filter (\<lambda>i. map_option (\<lambda>(mime, sha1, quickXor).
        \<lparr>rf_id = di_id i, rf_name = di_name i, rf_size = di_size i, rf_checksum = (case sha1 of None \<Rightarrow> quickXor | Some h \<Rightarrow> Some h),
         rf_mimeType = or_default mime ''application/octet-stream''\<rparr>) (di_file i)) (fst body),
     lp_subfolderIds = map di_id (filter (\<lambda>i. di_folder i \<noteq> None) (fst body)),
     lp_nextPageToken = snd body\<rparr>"

definition onedrive_listFilesPage :: "graph_api \<Rightarrow> string \<Rightarrow> string \<Rightarrow> string option \<Rightarrow> thrown + RemoteListingPage" where
  "onedrive_listFilesPage api tok folder pageToken =
    map_ok (\<lambda>body. Inr (onedrive_page body))
      (body_of (ga_children api tok
        (or_default pageToken (GRAPH @ ''/me/drive/items/'' @ folder @ ''/children?$select=id,name,size,file,folder&$top=200''))))"

definition onedrive_downloadToFile :: "graph_api \<Rightarrow> string \<Rightarrow> string \<Rightarrow> thrown + (string \<times> bytes)" where
  "onedrive_downloadToFile api tok file = body_of (ga_content api tok file)"

definition OneDriveProvider :: "graph_api \<Rightarrow> string \<Rightarrow> string \<Rightarrow> provider_client" where
  "OneDriveProvider api clientId secret =
    \<lparr>pc_exchangeCode = onedrive_exchangeCode api clientId secret, pc_refresh = onedrive_refresh api clientId secret,
     pc_getAccountEmail = onedrive_getAccountEmail api, pc_listFolders = onedrive_listFolders api,
     pc_listFilesPage = onedrive_listFilesPage api, pc_downloadToFile = onedrive_downloadToFile api\<rparr>"

section \<open>The registry\<close>

definition CloudProviderRegistry :: "drive_api \<Rightarrow> graph_api \<Rightarrow> EnvData \<Rightarrow> registry" where
  "CloudProviderRegistry drive graph e p =
    (case p of
       CloudProvider_GDrive \<Rightarrow>
         (case (truthy (fst (en_google e)), truthy (snd (en_google e))) of
            (Some i, Some s) \<Rightarrow> Some (GoogleDriveProvider drive i s) | _ \<Rightarrow> None)
     | CloudProvider_OneDrive \<Rightarrow>
         (case (truthy (fst (en_microsoft e)), truthy (snd (en_microsoft e))) of
            (Some i, Some s) \<Rightarrow> Some (OneDriveProvider graph i s) | _ \<Rightarrow> None))"

definition isConfigured :: "registry \<Rightarrow> CloudProvider \<Rightarrow> bool" where
  "isConfigured reg p \<longleftrightarrow> reg p \<noteq> None"

section \<open>Reading the header\<close>

lemma js_decimal_digits: "\<forall>c \<in> set (js_decimal n). is_digit c" "js_decimal n \<noteq> []"
proof -
  show "\<forall>c \<in> set (js_decimal n). is_digit c"
  proof (induction n rule: js_decimal.induct)
    case (1 n)
    have "is_digit (char_of (n mod 10 + 48))" by (simp add: is_digit_def of_char_of)
    with 1 show ?case by (subst js_decimal.simps) auto
  qed
  show "js_decimal n \<noteq> []" by (subst js_decimal.simps) simp
qed

lemma parseInt_js_decimal: "parseInt (js_decimal n) = Some (int n)"
proof -
  obtain c s where d: "js_decimal n = c # s" using js_decimal_digits(2) by (cases "js_decimal n") auto
  then have c: "is_digit c" "\<forall>x \<in> set s. is_digit x" using js_decimal_digits(1) [of n] by simp_all
  then have "\<not> js_space c" "c \<noteq> CHR ''-''" "c \<noteq> CHR ''+''" by (auto simp: is_digit_def js_space_def)
  moreover have "takeWhile is_digit s = s" using c(2) by (simp add: takeWhile_eq_all_conv)
  ultimately show ?thesis
    using c(1) decimal_value_digits [of n] by (simp add: parseInt_def d Let_def del: takeWhile_eq_all_conv)
qed

section \<open>What the imports see\<close>

lemma getFreshAccessToken_jobs: "importJobs (snd (getFreshAccessToken c reg a now w)) = importJobs w"
  by (simp add: getFreshAccessToken_def account_markRevoked_def account_updateAccessToken_def split: option.splits sum.splits)

lemma rate_limited_body:
  "rp_status r = 429 \<Longrightarrow> rp_retryAfter r = Some (js_decimal n) \<Longrightarrow> body_of (Some r) = Inl (ProviderRateLimit (int n * 1000))"
  using js_decimal_digits(2) [of n] by (simp add: body_of_def throwIfRateLimited_def truthy_def parseInt_js_decimal)


text \<open>
  An outage disconnects the account: any failure of the token endpoint, be it an overload or a lost
  connection, marks the account as revoked, and the organizer has to connect it again.
\<close>

theorem outage_revokes_account:
  assumes "account_getById org i w = Some a" "cached_token a now = None" "ca_provider a = CloudProvider_GDrive"
    and "CloudProviderRegistry drive graph e CloudProvider_GDrive = Some client"
    and "\<And>f. dr_token drive f = None \<or> (\<exists>r. dr_token drive f = Some r \<and> rp_status r = 503)"
  shows "account_getById org i (snd (getFreshAccessToken c (CloudProviderRegistry drive graph e) a now w)) = None"
proof -
  have "\<exists>x. tokens_of (dr_token drive f) = Inl x" for f using assms(5) [of f] by (auto simp: tokens_of_def rp_ok_def)
  then have err: "\<exists>x. pc_refresh client s = Inl x" for s
    using assms(4) by (auto simp: CloudProviderRegistry_def GoogleDriveProvider_def drive_refresh_def split: option.splits)
  have "\<exists>x. (case aes_decrypt c (ca_refreshTokenEnc a) of None \<Rightarrow> Inl (Thrown (ServerError ''decrypt'')) | Some r \<Rightarrow> pc_refresh client r) = Inl x"
    using err by (cases "aes_decrypt c (ca_refreshTokenEnc a)") simp_all
  then obtain x where "(case aes_decrypt c (ca_refreshTokenEnc a) of None \<Rightarrow> Inl (Thrown (ServerError ''decrypt'')) | Some r \<Rightarrow> pc_refresh client r) = Inl x" ..
  then have "snd (getFreshAccessToken c (CloudProviderRegistry drive graph e) a now w) = account_markRevoked (ca_id a) now w"
    using assms(2-4) by (simp add: getFreshAccessToken_def registry_get_def)
  moreover have "ca_id a = i" using assms(1) by (auto simp: account_getById_def dest: select_first_SomeD)
  ultimately show ?thesis
    by (auto simp: account_getById_def account_markRevoked_def select_first_None_iff set_update_where)
qed

text \<open>
  A page loses nothing: every entry of a page of a Drive folder is either one of its files or one of
  its folders, each once and in order; of OneDrive's items those with neither facet are left out.
\<close>

theorem page_keeps_every_entry:
  "mset (map rf_id (lp_files (drive_page api body)) @ lp_subfolderIds (drive_page api body)) = mset (map df_id (fst body))
    \<and> map rf_id (lp_files (onedrive_page items)) = map di_id (filter (\<lambda>i. di_file i \<noteq> None) (fst items))
    \<and> lp_subfolderIds (onedrive_page items) = map di_id (filter (\<lambda>i. di_folder i \<noteq> None) (fst items))"
proof -
  have a: "mset (map df_id (filter (\<lambda>f. df_mimeType f \<noteq> FOLDER_MIME) fs) @ map df_id (filter (\<lambda>f. df_mimeType f = FOLDER_MIME) fs)) = mset (map df_id fs)" for fs
    by (induction fs) simp_all
  have b: "map rf_id (List.map_filter (\<lambda>i. map_option (\<lambda>(mime, sha1, quickXor).
        \<lparr>rf_id = di_id i, rf_name = di_name i, rf_size = di_size i, rf_checksum = (case sha1 of None \<Rightarrow> quickXor | Some h \<Rightarrow> Some h),
         rf_mimeType = or_default mime ''application/octet-stream''\<rparr>) (di_file i)) is) = map di_id (filter (\<lambda>i. di_file i \<noteq> None) is)" for "is"
    by (induction "is") (auto simp: List.map_filter_def)
  show ?thesis using a [of "fst body"] b [of "fst items"] by (simp add: drive_page_def onedrive_page_def comp_def)
qed

section \<open>Witnesses\<close>

definition wit_drive :: "nat \<Rightarrow> drive_api" where
  "wit_drive st = \<lparr>dr_token = (\<lambda>_. if st = 503 then None else Some \<lparr>rp_status = 200, rp_retryAfter = None,
        rp_body = Some \<lparr>tk_accessToken = ''tok'', tk_refreshToken = None, tk_expiresInSec = 3600\<rparr>\<rparr>),
     dr_about = (\<lambda>_. None), dr_files = (\<lambda>_ _. Some \<lparr>rp_status = 429, rp_retryAfter = Some (js_decimal 17), rp_body = None\<rparr>),
     dr_media = (\<lambda>_ _. None), dr_number = (\<lambda>_. 0)\<rparr>"

lemma wit_drive_token: "dr_token (wit_drive 200) f = Some \<lparr>rp_status = 200, rp_retryAfter = None,
    rp_body = Some \<lparr>tk_accessToken = ''tok'', tk_refreshToken = None, tk_expiresInSec = 3600\<rparr>\<rparr>"
  by (simp add: wit_drive_def)

definition wit_graph :: graph_api where
  "wit_graph = \<lparr>ga_token = (\<lambda>_. None), ga_me = (\<lambda>_. None),
     ga_children = (\<lambda>_ _. Some \<lparr>rp_status = 429, rp_retryAfter = Some (js_decimal 17), rp_body = None\<rparr>), ga_content = (\<lambda>_ _. None)\<rparr>"

lemma wit_limited:
  "dr_files (wit_drive 200) tok q = Some \<lparr>rp_status = 429, rp_retryAfter = Some (js_decimal 17), rp_body = None\<rparr>"
  "ga_children wit_graph tok u = Some \<lparr>rp_status = 429, rp_retryAfter = Some (js_decimal 17), rp_body = None\<rparr>"
  by (simp_all add: wit_drive_def wit_graph_def)

lemma wit_configured: "\<exists>e. getEnv wit_codec_env (wit_main\<lparr>GOOGLE_CLIENT_ID := Some ''id'', GOOGLE_CLIENT_SECRET := Some ''sec''\<rparr>) = Inr e
    \<and> en_google e = (Some ''id'', Some ''sec'')"
  by (simp add: getEnv_def wit_main_def wit_envdto_def asSet_def js_space_def setDifference_def WORKER_TYPES_def all_queues_def
      resolveRedis_def truthy_def Let_def resolveDatabaseSsl_def wit_codec_env_def env_data_def)


theorem outage_revokes_account_witness:
  "\<exists>reg. account_getById ''o'' ''ca'' (snd (getFreshAccessToken wit_cipher reg wit_account 5 wit_import_world)) = None"
proof -
  obtain e :: EnvData where e: "en_google e = (Some ''id'', Some ''sec'')" using wit_configured by blast
  have "account_getById ''o'' ''ca'' (snd (getFreshAccessToken wit_cipher (CloudProviderRegistry (wit_drive 503) wit_graph e) wit_account 5 wit_import_world)) = None"
    by (rule outage_revokes_account [where client = "GoogleDriveProvider (wit_drive 503) ''id'' ''sec''"])
      (simp_all add: account_getById_def wit_account_def wit_import_world_def cached_token_def CloudProviderRegistry_def e truthy_def wit_drive_def)
  then show ?thesis by (intro exI)
qed

end
