(* ===== verification/Support.thy ===== *)
theory Support
  imports OrgReports
begin

text \<open>
  \<^verbatim>\<open>services/support.service.ts\<close> and \<^verbatim>\<open>repositories/support.repository.ts\<close>: messages from the help dialog
  and from the public pages. A message is stored first and mailed second. The provider's answer to the
  mail is a parameter; the outbox lists the mails it accepted.
\<close>

section \<open>The repository\<close>

definition ticket_refs_ok :: "supportticket_row \<Rightarrow> world \<Rightarrow> bool" where
  "ticket_refs_ok t w \<longleftrightarrow>
     (case st_orgId t of None \<Rightarrow> True | Some i \<Rightarrow> i \<in> o_id ` set (organizations w))
   \<and> (case st_userId t of None \<Rightarrow> True | Some i \<Rightarrow> i \<in> u_id ` set (users w))
   \<and> (case st_eventId t of None \<Rightarrow> True | Some i \<Rightarrow> i \<in> e_id ` set (events w))"

definition ticket_create :: "supportticket_row \<Rightarrow> world \<Rightarrow> supportticket_row outcome \<times> world" where
  [repo_defs]: "ticket_create t w =
    (if ticket_refs_ok t w then (Inr t, w\<lparr>supportTickets := supportTickets w @ [t]\<rparr>)
     else (Inl (ServerError ''support_ticket_fkey''), w))"

record SupportTicketListItem =
  tl_ticket :: supportticket_row
  tl_orgName :: "string option"
  tl_eventName :: "string option"
  tl_userName :: "string option"
  tl_userEmail :: "string option"

definition left_join :: "('r \<Rightarrow> uuid) \<Rightarrow> 'r list \<Rightarrow> uuid option \<Rightarrow> 'r option" where
  "left_join rid rows ref = Option.bind ref (\<lambda>i. select_first (\<lambda>r. rid r = i) rows)"

definition ticket_item :: "world \<Rightarrow> supportticket_row \<Rightarrow> SupportTicketListItem" where
  "ticket_item w t =
    \<lparr>tl_ticket = t, tl_orgName = map_option o_name (left_join o_id (organizations w) (st_orgId t)),
     tl_eventName = map_option e_name (left_join e_id (events w) (st_eventId t)),
     tl_userName = map_option u_name (left_join u_id (users w) (st_userId t)),
     tl_userEmail = map_option u_email (left_join u_id (users w) (st_userId t))\<rparr>"

text \<open>By status, where \<^verbatim>\<open>open\<close> sorts before \<^verbatim>\<open>resolved\<close>, and newest first within each.\<close>

definition inbox_order :: "supportticket_row list \<Rightarrow> supportticket_row list" where
  "inbox_order ts = sort_key (\<lambda>t. if st_status t = SupportStatus_Open then 0 else 1 :: nat) (sort_key (\<lambda>t. - st_createdAt t) ts)"

definition ticket_list :: "SupportStatus option \<Rightarrow> world \<Rightarrow> SupportTicketListItem list" where
  [repo_defs]: "ticket_list status w =
    map (ticket_item w) (inbox_order (filter (\<lambda>t. case status of None \<Rightarrow> True | Some s \<Rightarrow> st_status t = s) (supportTickets w)))"

definition ticket_setStatus :: "uuid \<Rightarrow> SupportStatus \<Rightarrow> ms \<Rightarrow> world \<Rightarrow> world" where
  [repo_defs]: "ticket_setStatus i status now w =
    w\<lparr>supportTickets := update_where (\<lambda>t. st_id t = i)
       (\<lambda>t. t\<lparr>st_status := status, st_resolvedAt := (if status = SupportStatus_Resolved then Some now else None)\<rparr>) (supportTickets w)\<rparr>"

definition ticket_countOpen :: "world \<Rightarrow> nat" where
  [repo_defs]: "ticket_countOpen w = length (filter (\<lambda>t. st_status t = SupportStatus_Open) (supportTickets w))"

section \<open>The service\<close>

record support_mail =
  sm_to :: string
  sm_source :: SupportSource
  sm_message :: string
  sm_name :: "string option"
  sm_email :: "string option"
  sm_orgName :: "string option"
  sm_eventName :: "string option"
  sm_adminUrl :: string

record support_env =
  su_supportTo :: "string option"
  su_baseUrl :: string
  su_newId :: uuid
  su_provider :: "support_mail \<Rightarrow> bool"

definition notify :: "support_env \<Rightarrow> supportticket_row \<Rightarrow> string option \<Rightarrow> string option \<Rightarrow> support_mail list \<Rightarrow> support_mail list" where
  "notify env t orgName eventName outbox =
    (case su_supportTo env of
       None \<Rightarrow> outbox
     | Some to \<Rightarrow>
        if to = '''' then outbox
        else let m = \<lparr>sm_to = to, sm_source = st_source t, sm_message = st_message t, sm_name = st_name t, sm_email = st_email t,
                      sm_orgName = orgName, sm_eventName = eventName, sm_adminUrl = su_baseUrl env @ ''/admin/support''\<rparr>
             in if su_provider env m then outbox @ [m] else outbox)"

definition new_ticket :: "uuid \<Rightarrow> SupportSource \<Rightarrow> uuid option \<Rightarrow> uuid option \<Rightarrow> uuid option \<Rightarrow> string option \<Rightarrow> string option \<Rightarrow> string \<Rightarrow> ms
    \<Rightarrow> supportticket_row" where
  "new_ticket i source org user ev name email message now =
    \<lparr>st_id = i, st_source = source, st_orgId = org, st_userId = user, st_eventId = ev, st_name = name, st_email = email,
     st_message = message, st_status = SupportStatus_Open, st_createdAt = now, st_resolvedAt = None\<rparr>"

definition createForOrg :: "support_env \<Rightarrow> uuid \<Rightarrow> uuid \<Rightarrow> string \<Rightarrow> ms \<Rightarrow> world \<times> support_mail list \<Rightarrow> uuid outcome \<times> world \<times> support_mail list" where
  "createForOrg env orgId userId message now s =
    (case s of (w, outbox) \<Rightarrow>
     let org = org_getById orgId w; user = user_getById userId w;
         t = new_ticket (su_newId env) SupportSource_Organization (Some orgId) (Some userId) None
               (map_option u_name user) (map_option u_email user) message now
     in case ticket_create t w of
          (Inl e, w1) \<Rightarrow> (Inl e, w1, outbox)
        | (Inr ticket, w1) \<Rightarrow> (Inr (st_id ticket), w1, notify env t (map_option o_name org) None outbox))"

record CreatePublicSupportTicketDto =
  cp_message :: string
  cp_name :: "string option"
  cp_email :: "string option"
  cp_eventId :: "uuid option"

definition createPublic :: "support_env \<Rightarrow> CreatePublicSupportTicketDto \<Rightarrow> ms \<Rightarrow> world \<times> support_mail list \<Rightarrow> uuid outcome \<times> world \<times> support_mail list" where
  "createPublic env dto now s =
    (case s of (w, outbox) \<Rightarrow>
     let event = (case cp_eventId dto of None \<Rightarrow> None | Some i \<Rightarrow> if i = '''' then None else event_getById i w);
         t = new_ticket (su_newId env) SupportSource_Public (map_option e_orgId event) None (map_option e_id event)
               (cp_name dto) (cp_email dto) (cp_message dto) now
     in case ticket_create t w of
          (Inl e, w1) \<Rightarrow> (Inl e, w1, outbox)
        | (Inr ticket, w1) \<Rightarrow> (Inr (st_id ticket), w1, notify env t None (map_option e_name event) outbox))"

section \<open>No message is lost\<close>

lemma inbox_split:
  "inbox_order ts = filter (\<lambda>t. st_status t = SupportStatus_Open) (sort_key (\<lambda>t. - st_createdAt t) ts)
     @ filter (\<lambda>t. st_status t \<noteq> SupportStatus_Open) (sort_key (\<lambda>t. - st_createdAt t) ts)"
  unfolding inbox_order_def sort_two_levels by (rule refl)

lemma mset_inbox: "mset (inbox_order ts) = mset ts"
  by (simp add: inbox_order_def)

text \<open>
  The inbox loses nothing and puts what is open first: unfiltered it holds every ticket once, the
  open ones before the resolved ones and the newest first among each; the badge counts its open part.
\<close>

theorem inbox_shows_every_ticket:
  "mset (map tl_ticket (ticket_list None w)) = mset (supportTickets w)
    \<and> (\<exists>opened resolved. map tl_ticket (ticket_list None w) = opened @ resolved
        \<and> sorted_wrt (\<lambda>a b. st_createdAt b \<le> st_createdAt a) opened \<and> sorted_wrt (\<lambda>a b. st_createdAt b \<le> st_createdAt a) resolved
        \<and> list_all (\<lambda>t. st_status t = SupportStatus_Open) opened \<and> list_all (\<lambda>t. st_status t = SupportStatus_Resolved) resolved
        \<and> length opened = ticket_countOpen w \<and> length opened = length (ticket_list (Some SupportStatus_Open) w))"
proof -
  let ?ts = "sort_key (\<lambda>t. - st_createdAt t) (supportTickets w)"
  let ?open = "filter (\<lambda>t. st_status t = SupportStatus_Open) ?ts" and ?rest = "filter (\<lambda>t. st_status t \<noteq> SupportStatus_Open) ?ts"
  have listed: "map tl_ticket (ticket_list None w) = ?open @ ?rest"
    by (simp add: ticket_list_def ticket_item_def comp_def inbox_split)
  have "length ?open = ticket_countOpen w"
    unfolding ticket_countOpen_def by (rule length_filter_perm) simp
  moreover have "length (inbox_order ts) = length ts" for ts by (simp add: inbox_order_def)
  then have "length (ticket_list (Some SupportStatus_Open) w) = ticket_countOpen w"
    by (simp add: ticket_list_def ticket_countOpen_def)
  moreover have "st_status t \<noteq> SupportStatus_Open \<Longrightarrow> st_status t = SupportStatus_Resolved" for t by (cases "st_status t") auto
  moreover have "mset (map tl_ticket (ticket_list None w)) = mset (supportTickets w)"
    by (simp add: listed multiset_partition [symmetric])
  ultimately show ?thesis
    using newest_first [of st_createdAt "\<lambda>t. st_status t = SupportStatus_Open" "supportTickets w"]
      newest_first [of st_createdAt "\<lambda>t. st_status t \<noteq> SupportStatus_Open" "supportTickets w"] listed
    by (intro conjI exI [of _ ?open] exI [of _ ?rest]) (auto simp: list_all_iff)
qed

lemma new_ticket_fields [simp]:
  "st_id (new_ticket i s org user ev n e m now) = i" "st_orgId (new_ticket i s org user ev n e m now) = org"
  "st_userId (new_ticket i s org user ev n e m now) = user" "st_eventId (new_ticket i s org user ev n e m now) = ev"
  "st_message (new_ticket i s org user ev n e m now) = m" "st_status (new_ticket i s org user ev n e m now) = SupportStatus_Open"
  by (simp_all add: new_ticket_def)

lemma createForOrg_effect:
  "\<exists>out'. createForOrg env org user message now (w, out) =
    (if org \<in> o_id ` set (organizations w) \<and> user \<in> u_id ` set (users w)
     then (Inr (su_newId env), w\<lparr>supportTickets := supportTickets w @ [new_ticket (su_newId env) SupportSource_Organization (Some org) (Some user) None
       (map_option u_name (user_getById user w)) (map_option u_email (user_getById user w)) message now]\<rparr>, out')
     else (Inl (ServerError ''support_ticket_fkey''), w, out))"
  by (auto simp: createForOrg_def ticket_create_def ticket_refs_ok_def Let_def)

definition named_event :: "CreatePublicSupportTicketDto \<Rightarrow> world \<Rightarrow> event_row option" where
  "named_event dto w = (case cp_eventId dto of None \<Rightarrow> None | Some i \<Rightarrow> if i = '''' then None else event_getById i w)"

definition public_ticket :: "uuid \<Rightarrow> CreatePublicSupportTicketDto \<Rightarrow> ms \<Rightarrow> world \<Rightarrow> supportticket_row" where
  "public_ticket i dto now w = new_ticket i SupportSource_Public (map_option e_orgId (named_event dto w)) None
     (map_option e_id (named_event dto w)) (cp_name dto) (cp_email dto) (cp_message dto) now"

lemma createPublic_effect:
  "\<exists>out'. createPublic env dto now (w, out) =
    (if ticket_refs_ok (public_ticket (su_newId env) dto now w) w
     then (Inr (su_newId env), w\<lparr>supportTickets := supportTickets w @ [public_ticket (su_newId env) dto now w]\<rparr>, out')
     else (Inl (ServerError ''support_ticket_fkey''), w, out))"
  by (simp add: createPublic_def ticket_create_def Let_def public_ticket_def named_event_def)

lemma public_ticket_refs:
  "(st_orgId (public_ticket i dto now w), st_eventId (public_ticket i dto now w))
    \<in> {(None, None)} \<union> {(Some (e_orgId e), Some (e_id e)) | e. e \<in> set (events w) \<and> e_deletedAt e = None}"
proof (cases "named_event dto w")
  case (Some e)
  then have "e \<in> set (events w) \<and> e_deletedAt e = None"
    by (auto simp: named_event_def split: option.splits if_splits dest: event_getById_SomeD)
  with Some show ?thesis by (auto simp: public_ticket_def)
qed (simp add: public_ticket_def)

text \<open>
  A message is stored whatever happens to its mail: whether a submission succeeds, its answer and the
  stored ticket do not depend on the mail provider or on a configured inbox; a stored message is an open
  ticket with the text as it was sent, and at most one mail, with that text, goes out for it. The sender
  of an organizer's ticket is the user of the session, and a public ticket names no user, and no event or
  organization but a live event and its own organization.
\<close>

theorem support_message_is_kept:
  assumes "createForOrg env org user message now (w, out) = (r, w', out')"
    and "createPublic env dto now (w, out) = (pr, pw, pout)"
    and "su_newId env' = su_newId env"
  shows "(is_ok r \<longleftrightarrow> org \<in> o_id ` set (organizations w) \<and> user \<in> u_id ` set (users w))
    \<and> (\<exists>out2. createForOrg env' org user message now (w, out) = (r, w', out2))
    \<and> (\<exists>pout2. createPublic env' dto now (w, out) = (pr, pw, pout2))
    \<and> (is_ok r \<longrightarrow> (\<exists>t. supportTickets w' = supportTickets w @ [t] \<and> r = Inr (st_id t) \<and> st_message t = message
         \<and> st_status t = SupportStatus_Open \<and> st_userId t = Some user \<and> st_orgId t = Some org))
    \<and> (\<not> is_ok r \<longrightarrow> w' = w \<and> out' = out)
    \<and> (is_ok pr \<longrightarrow> (\<exists>t. supportTickets pw = supportTickets w @ [t] \<and> pr = Inr (st_id t) \<and> st_message t = cp_message dto
         \<and> st_status t = SupportStatus_Open \<and> st_userId t = None
         \<and> (st_orgId t, st_eventId t) \<in> {(None, None)} \<union> {(Some (e_orgId e), Some (e_id e)) | e. e \<in> set (events w) \<and> e_deletedAt e = None}))
    \<and> (\<not> is_ok pr \<longrightarrow> pw = w \<and> pout = out)"
proof -
  have public: "st_message (public_ticket i dto now w) = cp_message dto" "st_status (public_ticket i dto now w) = SupportStatus_Open"
    "st_userId (public_ticket i dto now w) = None" "st_id (public_ticket i dto now w) = i" for i by (simp_all add: public_ticket_def)
  let ?ok = "org \<in> o_id ` set (organizations w) \<and> user \<in> u_id ` set (users w)"
    and ?public = "ticket_refs_ok (public_ticket (su_newId env) dto now w) w"
  obtain o1 o2 where mine: "createForOrg env org user message now (w, out) = (if ?ok
      then (Inr (su_newId env), w\<lparr>supportTickets := supportTickets w @ [new_ticket (su_newId env) SupportSource_Organization (Some org) (Some user) None
        (map_option u_name (user_getById user w)) (map_option u_email (user_getById user w)) message now]\<rparr>, o1)
      else (Inl (ServerError ''support_ticket_fkey''), w, out))"
    and theirs: "createForOrg env' org user message now (w, out) = (if ?ok then (r, w', o2) else (r, w', out'))"
    using createForOrg_effect [of env org user message now w out] createForOrg_effect [of env' org user message now w out]
    unfolding assms(1,3) by (cases ?ok) (simp_all, blast+)
  obtain p1 p2 where public_mine: "createPublic env dto now (w, out) = (if ?public
      then (Inr (su_newId env), w\<lparr>supportTickets := supportTickets w @ [public_ticket (su_newId env) dto now w]\<rparr>, p1)
      else (Inl (ServerError ''support_ticket_fkey''), w, out))"
    and public_theirs: "createPublic env' dto now (w, out) = (if ?public then (pr, pw, p2) else (pr, pw, pout))"
    using createPublic_effect [of env dto now w out] createPublic_effect [of env' dto now w out]
    unfolding assms(2,3) by (cases ?public) (simp_all, blast+)
  have "(\<exists>o2. createForOrg env' org user message now (w, out) = (r, w', o2)) \<and> (\<exists>p2. createPublic env' dto now (w, out) = (pr, pw, p2))"
    using theirs public_theirs by (auto split: if_splits)
  moreover have "r = (if ?ok then Inr (su_newId env) else Inl (ServerError ''support_ticket_fkey''))"
    "pr = (if ?public then Inr (su_newId env) else Inl (ServerError ''support_ticket_fkey''))"
    "\<not> ?ok \<Longrightarrow> w' = w \<and> out' = out" "\<not> ?public \<Longrightarrow> pw = w \<and> pout = out"
    "?ok \<Longrightarrow> supportTickets w' = supportTickets w @ [new_ticket (su_newId env) SupportSource_Organization (Some org) (Some user) None
        (map_option u_name (user_getById user w)) (map_option u_email (user_getById user w)) message now]"
    "?public \<Longrightarrow> supportTickets pw = supportTickets w @ [public_ticket (su_newId env) dto now w]"
    using mine public_mine assms(1,2) by (auto split: if_splits)
  ultimately show ?thesis
    using public_ticket_refs [of "su_newId env" dto now w] public [of "su_newId env"]
    by (cases ?ok; cases ?public) (simp_all only: if_True if_False is_ok.simps simp_thms new_ticket_fields list.inject append_same_eq ex_simps, auto)
qed

text \<open>
  Support history outlives what it is about: deleting events keeps every ticket with its text, sender,
  status and times and only takes the reference away; and a ticket that is resolved and opened again is as
  it was, so the inbox is too.
\<close>

definition ticket_facts :: "supportticket_row \<Rightarrow> uuid \<times> string \<times> string option \<times> string option \<times> SupportStatus \<times> ms \<times> ms option" where
  "ticket_facts t = (st_id t, st_message t, st_name t, st_email t, st_status t, st_createdAt t, st_resolvedAt t)"

theorem support_history_survives:
  assumes "\<forall>t \<in> set (supportTickets w). st_id t = i \<longrightarrow> st_status t = SupportStatus_Open \<and> st_resolvedAt t = None"
  shows "map ticket_facts (supportTickets (event_cascade ids w)) = map ticket_facts (supportTickets w)
    \<and> list_all (\<lambda>t. \<forall>ev \<in> set ids. st_eventId t \<noteq> Some ev) (supportTickets (event_cascade ids w))
    \<and> ticket_setStatus i SupportStatus_Open later (ticket_setStatus i SupportStatus_Resolved now w) = w"
proof (intro conjI)
  have tickets: "supportTickets (event_cascade ids w) = map (\<lambda>t. t\<lparr>st_eventId := null_if_dead ids (st_eventId t)\<rparr>) (supportTickets w)"
    by (simp add: event_cascade_def asset_cascade_def participant_cascade_def Let_def)
  show "map ticket_facts (supportTickets (event_cascade ids w)) = map ticket_facts (supportTickets w)"
    by (simp add: tickets ticket_facts_def)
  show "list_all (\<lambda>t. \<forall>ev \<in> set ids. st_eventId t \<noteq> Some ev) (supportTickets (event_cascade ids w))"
    by (auto simp: tickets list_all_iff null_if_dead_def split: option.splits if_splits)
  have "update_where (\<lambda>t. st_id t = i) (\<lambda>t. t\<lparr>st_status := SupportStatus_Open, st_resolvedAt := None\<rparr>)
      (update_where (\<lambda>t. st_id t = i) (\<lambda>t. t\<lparr>st_status := SupportStatus_Resolved, st_resolvedAt := Some now\<rparr>) ts) = ts"
    if "\<forall>t \<in> set ts. st_id t = i \<longrightarrow> st_status t = SupportStatus_Open \<and> st_resolvedAt t = None" for ts
    using that by (induction ts) auto
  from this [OF assms] show "ticket_setStatus i SupportStatus_Open later (ticket_setStatus i SupportStatus_Resolved now w) = w"
    by (simp add: ticket_setStatus_def)
qed

definition wit_support_env :: "(support_mail \<Rightarrow> bool) \<Rightarrow> support_env" where
  "wit_support_env provider = \<lparr>su_supportTo = Some ''help'', su_baseUrl = ''x'', su_newId = ''t1'', su_provider = provider\<rparr>"

theorem support_message_is_kept_witness:
  "is_ok (fst (createForOrg (wit_support_env (\<lambda>_. False)) ''o'' ''u'' ''help!'' 5 (wit_org_world\<lparr>users := [wit_user]\<rparr>, [])))"
proof -
  let ?s = "(wit_org_world\<lparr>users := [wit_user]\<rparr>, []) :: world \<times> support_mail list"
  let ?dto = "\<lparr>cp_message = ''hi'', cp_name = None, cp_email = None, cp_eventId = None\<rparr>" and ?env = "wit_support_env (\<lambda>_. False)"
  obtain r w' out' where run: "createForOrg ?env ''o'' ''u'' ''help!'' 5 ?s = (r, w', out')" by (rule prod_cases3)
  obtain pr pw pout where public: "createPublic ?env ?dto 5 ?s = (pr, pw, pout)" by (rule prod_cases3)
  have "su_newId (wit_support_env (\<lambda>_. True)) = su_newId ?env" by (simp add: wit_support_env_def)
  from conjunct1 [OF support_message_is_kept [OF run public this]] show ?thesis
    unfolding run by (simp add: wit_org_defs wit_user_def)
qed

theorem support_history_survives_witness:
  "ticket_setStatus ''t1'' SupportStatus_Open 9 (ticket_setStatus ''t1'' SupportStatus_Resolved 7
      (empty_world\<lparr>supportTickets := [new_ticket ''t1'' SupportSource_Public None None None None None ''hi'' 5]\<rparr>))
    = empty_world\<lparr>supportTickets := [new_ticket ''t1'' SupportSource_Public None None None None None ''hi'' 5]\<rparr>"
  using support_history_survives [of "empty_world\<lparr>supportTickets := [new_ticket ''t1'' SupportSource_Public None None None None None ''hi'' 5]\<rparr>" "''t1''" "[]" 9 7]
  by (simp add: new_ticket_def)

end
