(* ===== verification/Admin.thy ===== *)
theory Admin
  imports Config Support MachineLearning
begin

text \<open>
  \<^verbatim>\<open>services/admin.service.ts\<close>: the super admin's pages. Platform totals with their breakdown by
  organization, the queue dashboard and its actions, and the two configuration forms. Counts, metrics and
  job lists are BullMQ's answers and arguments here; an action is the command it sends to the library.
\<close>

section \<open>The queues' descriptions\<close>

fun queue_info_jobs :: "QueueName \<Rightarrow> JobName list" where
  "queue_info_jobs QueueName_MediaProcess = [JobName_AssetProcess]"
| "queue_info_jobs QueueName_VideoTranscode = [JobName_VideoTranscode]"
| "queue_info_jobs QueueName_FaceDetection = [JobName_FaceDetect]"
| "queue_info_jobs QueueName_FacialRecognition = [JobName_FaceRecognize, JobName_FaceRecognizeQueueAll]"
| "queue_info_jobs QueueName_SmartSearch = [JobName_SmartSearch, JobName_SmartSearchQueueAll]"
| "queue_info_jobs QueueName_PersonThumbnail = [JobName_PersonThumbnail]"
| "queue_info_jobs QueueName_Selfie = [JobName_SelfieProcess]"
| "queue_info_jobs QueueName_Import = [JobName_ImportFolder, JobName_ImportFile]"
| "queue_info_jobs QueueName_Match = [JobName_ParticipantRematch, JobName_ParticipantMatchSweep]"
| "queue_info_jobs QueueName_Notification = [JobName_SendGalleryEmail, JobName_SendDigest, JobName_SendNoFaceEmail]"
| "queue_info_jobs QueueName_StorageCleanup = [JobName_CleanupKeys, JobName_CleanupPrefix, JobName_SelfieRetentionSweep]"
| "queue_info_jobs QueueName_Background = [JobName_StagingSweep, JobName_SessionCleanup, JobName_StorageReconcile,
     JobName_PersonCleanup, JobName_PersonNameBackfill]"

section \<open>Platform statistics\<close>

definition live_event :: "uuid \<Rightarrow> world \<Rightarrow> bool" where
  "live_event ev w \<longleftrightarrow> (\<exists>e \<in> set (events w). e_id e = ev \<and> e_deletedAt e = None)"

record platform_totals =
  tt_organizations :: int
  tt_users :: int
  tt_events :: int
  tt_assets :: int
  tt_storageBytes :: bytes
  tt_people :: int
  tt_participants :: int

definition getTotals :: "world \<Rightarrow> platform_totals" where
  "getTotals w =
    \<lparr>tt_organizations = int (length (filter (\<lambda>r. o_deletedAt r = None) (organizations w))),
     tt_users = int (length (filter (\<lambda>u. u_deletedAt u = None) (users w))),
     tt_events = int (length (filter (\<lambda>e. e_deletedAt e = None) (events w))),
     tt_assets = int (length (filter (\<lambda>a. a_deletedAt a = None \<and> live_event (a_eventId a) w) (assets w))),
     tt_storageBytes = sum_list (map a_fileSize (filter (\<lambda>a. a_deletedAt a = None \<and> live_event (a_eventId a) w) (assets w))),
     tt_people = int (length (persons w)),
     tt_participants = int (length (filter (\<lambda>p. pt_deletedAt p = None \<and> live_event (pt_eventId p) w) (participants w)))\<rparr>"

record org_breakdown =
  ob_orgId :: uuid
  ob_name :: string
  ob_slug :: string
  ob_eventCount :: int
  ob_personCount :: int
  ob_assetCount :: int
  ob_storageBytes :: bytes
  ob_participantCount :: int
  ob_personsPerEvent :: real

definition participant_counts_for :: "uuid \<Rightarrow> world \<Rightarrow> participant_row \<Rightarrow> bool" where
  "participant_counts_for org w p \<longleftrightarrow> pt_deletedAt p = None \<and>
     (\<exists>e \<in> set (events w). e_id e = pt_eventId p \<and> e_orgId e = org \<and> e_deletedAt e = None)"

definition breakdown_row :: "world \<Rightarrow> org_row \<Rightarrow> org_breakdown" where
  "breakdown_row w r =
    (let eventCount = int (length (filter (\<lambda>e. e_orgId e = o_id r \<and> e_deletedAt e = None) (events w)));
         personCount = int (length (filter (\<lambda>p. p_orgId p = o_id r) (persons w)))
     in \<lparr>ob_orgId = o_id r, ob_name = o_name r, ob_slug = o_slug r, ob_eventCount = eventCount, ob_personCount = personCount,
         ob_assetCount = int (length (filter (asset_counts_for (o_id r) w) (assets w))),
         ob_storageBytes = sum_list (map a_fileSize (filter (asset_counts_for (o_id r) w) (assets w))),
         ob_participantCount = int (length (filter (participant_counts_for (o_id r) w) (participants w))),
         ob_personsPerEvent = (if eventCount > 0 then real_of_int (js_round (personCount / eventCount * 10)) / 10 else 0)\<rparr>)"

definition getOrganizationBreakdown :: "world \<Rightarrow> org_breakdown list" where
  "getOrganizationBreakdown w = map (breakdown_row w) (sort_key o_name (filter (\<lambda>r. o_deletedAt r = None) (organizations w)))"

definition getStats :: "world \<Rightarrow> platform_totals \<times> org_breakdown list" where
  "getStats w = (getTotals w, getOrganizationBreakdown w)"

section \<open>The queue dashboard\<close>

definition getQueues :: "(QueueName \<Rightarrow> JobCounts) \<Rightarrow> (QueueName \<Rightarrow> bool) \<Rightarrow> (QueueName \<times> JobCounts \<times> bool) list" where
  "getQueues counts paused = map (\<lambda>q. (q, counts q, paused q)) all_queues"

record queue_row =
  qr_name :: QueueName
  qr_jobs :: "JobName list"
  qr_role :: WorkerRole
  qr_concurrency :: nat
  qr_isPaused :: bool
  qr_counts :: JobCounts
  qr_pending :: int
  qr_ratePerMinute :: real
  qr_etaSeconds :: "int option"
  qr_history :: "nat list"
  qr_active :: "(JobItem \<times> ms option) list"

text \<open>The completed minutes behind the one that is still filling.\<close>

definition per_minute :: "nat list \<Rightarrow> real" where
  "per_minute completed =
    (let recent = take 5 (drop 1 completed)
     in if recent = [] then 0 else real (sum_list recent) / real (length recent))"

definition queue_panel :: "JobCounts \<Rightarrow> bool \<Rightarrow> nat list \<Rightarrow> bull_job option list \<Rightarrow> QueueName \<Rightarrow> queue_row" where
  "queue_panel counts isPaused completed active q =
    (let perMinute = per_minute completed;
         pending = jc_waiting counts + jc_active counts + jc_delayed counts + jc_paused counts
     in \<lparr>qr_name = q, qr_jobs = queue_info_jobs q, qr_role = QUEUE_ROLES q, qr_concurrency = QUEUE_CONCURRENCY q,
         qr_isPaused = isPaused, qr_counts = counts, qr_pending = pending,
         qr_ratePerMinute = real_of_int (js_round (perMinute * 10)) / 10,
         qr_etaSeconds = (if pending > 0 \<and> perMinute > 0 then Some (js_round (real_of_int pending / perMinute * 60)) else None),
         qr_history = completed, qr_active = getActiveJobs 5 active\<rparr>)"

definition getJobs :: "(QueueName \<Rightarrow> JobCounts) \<Rightarrow> (QueueName \<Rightarrow> bool) \<Rightarrow> (QueueName \<Rightarrow> nat list) \<Rightarrow> (QueueName \<Rightarrow> bull_job option list)
    \<Rightarrow> queue_row list" where
  "getJobs counts paused completed active = map (\<lambda>q. queue_panel (counts q) (paused q) (completed q) (active q) q) all_queues"

text \<open>A failed job: its id, the job, the reason and when it failed.\<close>

type_synonym failed_job = "string \<times> JobItem \<times> string option \<times> ms option"

definition repo_getFailedJobs :: "nat \<Rightarrow> failed_job option list \<Rightarrow> (string \<times> JobItem \<times> string \<times> ms option) list" where
  "repo_getFailedJobs limit failed =
    map (\<lambda>(i, item, reason, t). (i, item, or_default reason '''', t)) (somes (take limit failed))"

definition find_queue :: "string \<Rightarrow> QueueName option" where
  "find_queue name = select_first (\<lambda>q. queue_text q = name) all_queues"

definition getFailedJobs :: "(QueueName \<Rightarrow> failed_job option list) \<Rightarrow> string \<Rightarrow> (string \<times> JobItem \<times> string \<times> ms option) list outcome" where
  "getFailedJobs failed name =
    (case find_queue name of
       None \<Rightarrow> Inl (BadRequest ''Unknown queue'')
     | Some q \<Rightarrow> Inr (repo_getFailedJobs 20 (failed q)))"

text \<open>What the action sends to the queue.\<close>

datatype queue_command =
  Pause QueueName | Resume QueueName | Clean QueueName nat | RetryFailed QueueName | Drain QueueName | KillActive QueueName

definition runQueueAction :: "(QueueName \<Rightarrow> bull_job option list) \<Rightarrow> (QueueName \<Rightarrow> failed_job option list) \<Rightarrow> bool \<Rightarrow> string \<Rightarrow> string \<Rightarrow> ms \<Rightarrow> world
    \<Rightarrow> unit outcome \<times> queue_command list \<times> world" where
  "runQueueAction active failed audit_ok name action now w =
    (case find_queue name of
       None \<Rightarrow> (Inl (BadRequest ''Unknown queue''), [], w)
     | Some q \<Rightarrow>
        if action = ''pause'' then (Inr (), [Pause q], w)
        else if action = ''resume'' then (Inr (), [Resume q], w)
        else if action = ''clear-failed'' then (Inr (), [Clean q 1000], w)
        else if action = ''retry-failed'' then
          (if None \<in> set (failed q) then (Inl (ServerError ''Cannot read properties of undefined''), [RetryFailed q], w)
           else (Inr (), [RetryFailed q], w))
        else if action = ''empty'' then (Inr (), [Drain q], w)
        else if action = ''kill-active'' then
          (case killActive (active q) 0 of
             Inl e \<Rightarrow> (Inl e, [KillActive q], w)
           | Inr killed \<Rightarrow>
               (Inr (), [KillActive q],
                record_audit audit_ok (mk_entry AuditCategory_Job ''queue.kill-active'' (Some AuditLevel_Warning) None None) now w))
        else (Inl (BadRequest ''Unknown action''), [], w))"

section \<open>The two forms\<close>

record GpuAutostartDto =
  gd_enabled :: "bool option"
  gd_provider :: "GpuProvider option"
  gd_pendingThreshold :: "int option"
  gd_maxPendingAgeMinutes :: "int option"
  gd_idleShutdownMinutes :: "int option"
  gd_startTimeoutMinutes :: "int option"
  gd_startWebhookUrl :: "string option"
  gd_stopWebhookUrl :: "string option"
  gd_webhookAuthHeader :: "string option"
  gd_jarvislabsMachineId :: "string option"
  gd_jarvislabsGpuType :: "string option"

text \<open>The bounds of the form's numbers; the texts' formats are the schema library's to check.\<close>

definition in_bounds :: "int \<Rightarrow> int \<Rightarrow> int option \<Rightarrow> bool" where
  "in_bounds lo hi v \<longleftrightarrow> (case v of None \<Rightarrow> True | Some n \<Rightarrow> lo \<le> n \<and> n \<le> hi)"

definition gpu_dto_ok :: "GpuAutostartDto \<Rightarrow> bool" where
  "gpu_dto_ok dto \<longleftrightarrow> in_bounds 1 100000 (gd_pendingThreshold dto) \<and> in_bounds 1 10080 (gd_maxPendingAgeMinutes dto)
     \<and> in_bounds 1 1440 (gd_idleShutdownMinutes dto) \<and> in_bounds 1 240 (gd_startTimeoutMinutes dto)"

definition patch_gpu :: "GpuAutostartDto \<Rightarrow> GpuAutostartConfig \<Rightarrow> GpuAutostartConfig" where
  "patch_gpu dto c =
    \<lparr>gc_enabled = or_default (gd_enabled dto) (gc_enabled c), gc_provider = or_default (gd_provider dto) (gc_provider c),
     gc_pendingThreshold = or_default (gd_pendingThreshold dto) (gc_pendingThreshold c),
     gc_maxPendingAgeMinutes = or_default (gd_maxPendingAgeMinutes dto) (gc_maxPendingAgeMinutes c),
     gc_idleShutdownMinutes = or_default (gd_idleShutdownMinutes dto) (gc_idleShutdownMinutes c),
     gc_startTimeoutMinutes = or_default (gd_startTimeoutMinutes dto) (gc_startTimeoutMinutes c),
     gc_startWebhookUrl = or_default (gd_startWebhookUrl dto) (gc_startWebhookUrl c),
     gc_stopWebhookUrl = or_default (gd_stopWebhookUrl dto) (gc_stopWebhookUrl c),
     gc_webhookAuthHeader = or_default (gd_webhookAuthHeader dto) (gc_webhookAuthHeader c),
     gc_jarvislabsMachineId = or_default (gd_jarvislabsMachineId dto) (gc_jarvislabsMachineId c),
     gc_jarvislabsGpuType = or_default (gd_jarvislabsGpuType dto) (gc_jarvislabsGpuType c)\<rparr>"

definition updateGpuAutostart :: "GpuAutostartDto \<Rightarrow> world \<Rightarrow> GpuAutostartConfig \<times> world" where
  "updateGpuAutostart dto w =
    (let c = patch_gpu dto (getGpuAutostartConfig w) in (c, w\<lparr>gpuAutostart := Some c\<rparr>))"

definition retention_dto_ok :: "int \<Rightarrow> bool" where
  "retention_dto_ok purgeGraceHours \<longleftrightarrow> 1 \<le> purgeGraceHours \<and> purgeGraceHours \<le> 8760"

definition updateEventRetention :: "int \<Rightarrow> world \<Rightarrow> EventRetentionConfig \<times> world" where
  "updateEventRetention purgeGraceHours w =
    (let c = (getEventRetentionConfig w)\<lparr>er_purgeGraceHours := purgeGraceHours\<rparr> in (c, w\<lparr>eventRetention := Some c\<rparr>))"

section \<open>System status\<close>

definition usesMachineLearning :: "EnvData \<Rightarrow> bool" where
  "usesMachineLearning env \<longleftrightarrow> WorkerRole_Media \<in> set (en_workers env) \<or> QueueName_Selfie \<in> set (en_includedQueues env)"

definition ml_panel :: "(string \<Rightarrow> (bool \<times> ms) option) \<Rightarrow> EnvData \<Rightarrow> MlDevice \<times> bool \<times> ServerStatus list" where
  "ml_panel probe env =
    (en_mlDevice env, usesMachineLearning env, if usesMachineLearning env then getServerStatus probe (en_mlUrls env) else [])"

definition getDatabaseVersion :: "string option \<Rightarrow> string" where
  "getDatabaseVersion version =
    (case version of None \<Rightarrow> ''unavailable'' | Some v \<Rightarrow> join_with CHR '' '' (take 2 (split_on CHR '' '' v)))"

section \<open>Do the figures add up?\<close>

text \<open>The organization an event belongs to.\<close>

definition org_of :: "world \<Rightarrow> uuid \<Rightarrow> uuid option" where
  "org_of w ev = map_option e_orgId (select_first (\<lambda>e. e_id e = ev) (events w))"

definition live_orgs :: "world \<Rightarrow> uuid list" where
  "live_orgs w = map o_id (filter (\<lambda>r. o_deletedAt r = None) (organizations w))"

lemma live_in_org:
  assumes "distinct (map e_id (events w))"
  shows "(\<exists>e \<in> set (events w). e_id e = ev \<and> e_orgId e = org \<and> e_deletedAt e = None) \<longleftrightarrow> org_of w ev = Some org \<and> live_event ev w"
proof -
  have hit: "select_first (\<lambda>e. e_id e = e_id x) (events w) = Some x" if "x \<in> set (events w)" for x
    using assms that by (rule select_first_by_key)
  show ?thesis
    by (auto simp: org_of_def live_event_def dest!: select_first_SomeD) (metis hit option.inject)+
qed

lemma sum_over_orgs:
  assumes "distinct (live_orgs w)"
  shows "sum_list (map (\<lambda>r. sum_list (map g (filter (\<lambda>a. k a = Some (o_id r) \<and> p a) xs))) (sort_key o_name (filter (\<lambda>r. o_deletedAt r = None) (organizations w))))
    = (sum_list (map g (filter (\<lambda>a. k a \<in> Some ` set (live_orgs w) \<and> p a) xs)) :: int)"
proof -
  have "distinct (map Some (live_orgs w))" using assms by (simp add: distinct_map)
  from sum_by_key [OF this, of g k p xs] show ?thesis
    by (simp add: live_orgs_def comp_def sum_list_sort_key image_image)
qed

lemma counts_in_org:
  assumes "distinct (map e_id (events w))"
  shows "asset_counts_for org w a \<longleftrightarrow> org_of w (a_eventId a) = Some org \<and> a_deletedAt a = None \<and> live_event (a_eventId a) w"
    and "participant_counts_for org w p \<longleftrightarrow> org_of w (pt_eventId p) = Some org \<and> pt_deletedAt p = None \<and> live_event (pt_eventId p) w"
  using live_in_org [OF assms] by (auto simp: asset_counts_for_def participant_counts_for_def)

text \<open>The sums of the columns, over what belongs to live organizations.\<close>

lemma column_sums:
  assumes "distinct (map o_id (organizations w))" "distinct (map e_id (events w))"
  shows "sum_list (map ob_eventCount (getOrganizationBreakdown w)) =
      int (length (filter (\<lambda>e. e_orgId e \<in> set (live_orgs w) \<and> e_deletedAt e = None) (events w)))" (is ?events)
    and "sum_list (map ob_personCount (getOrganizationBreakdown w)) = int (length (filter (\<lambda>p. p_orgId p \<in> set (live_orgs w)) (persons w)))" (is ?people)
    and "sum_list (map ob_assetCount (getOrganizationBreakdown w)) =
      int (length (filter (\<lambda>a. org_of w (a_eventId a) \<in> Some ` set (live_orgs w) \<and> a_deletedAt a = None \<and> live_event (a_eventId a) w) (assets w)))" (is ?assets)
    and "sum_list (map ob_storageBytes (getOrganizationBreakdown w)) =
      sum_list (map a_fileSize (filter (\<lambda>a. org_of w (a_eventId a) \<in> Some ` set (live_orgs w) \<and> a_deletedAt a = None \<and> live_event (a_eventId a) w) (assets w)))" (is ?bytes)
    and "sum_list (map ob_participantCount (getOrganizationBreakdown w)) =
      int (length (filter (\<lambda>p. org_of w (pt_eventId p) \<in> Some ` set (live_orgs w) \<and> pt_deletedAt p = None \<and> live_event (pt_eventId p) w) (participants w)))" (is ?guests)
proof -
  have d: "distinct (live_orgs w)" using assms(1) by (simp add: live_orgs_def distinct_map inj_on_def)
  have one: "int (length xs) = sum_list (map (\<lambda>_. 1) xs)" for xs :: "'z list" by (induction xs) simp_all
  have img: "Some x \<in> Some ` X \<longleftrightarrow> x \<in> X" for x :: uuid and X by auto
  show ?events using sum_over_orgs [OF d, of "\<lambda>_. 1" "\<lambda>e. Some (e_orgId e)" "\<lambda>e. e_deletedAt e = None" "events w"]
    by (simp add: getOrganizationBreakdown_def comp_def breakdown_row_def Let_def one img)
  show ?people using sum_over_orgs [OF d, of "\<lambda>_. 1" "\<lambda>p. Some (p_orgId p)" "\<lambda>_. True" "persons w"]
    by (simp add: getOrganizationBreakdown_def comp_def breakdown_row_def Let_def one img)
  show ?assets using sum_over_orgs [OF d, of "\<lambda>_. 1" "\<lambda>a. org_of w (a_eventId a)" "\<lambda>a. a_deletedAt a = None \<and> live_event (a_eventId a) w" "assets w"]
    by (simp add: getOrganizationBreakdown_def comp_def breakdown_row_def Let_def one counts_in_org [OF assms(2)] cong: filter_cong)
  show ?bytes using sum_over_orgs [OF d, of a_fileSize "\<lambda>a. org_of w (a_eventId a)" "\<lambda>a. a_deletedAt a = None \<and> live_event (a_eventId a) w" "assets w"]
    by (simp add: getOrganizationBreakdown_def comp_def breakdown_row_def Let_def counts_in_org [OF assms(2)] cong: filter_cong)
  show ?guests using sum_over_orgs [OF d, of "\<lambda>_. 1" "\<lambda>p. org_of w (pt_eventId p)" "\<lambda>p. pt_deletedAt p = None \<and> live_event (pt_eventId p) w" "participants w"]
    by (simp add: getOrganizationBreakdown_def comp_def breakdown_row_def Let_def one counts_in_org [OF assms(2)] cong: filter_cong)
qed

text \<open>
  C23. The columns add up as long as no organization was removed: when the organization of every live event
  and of every person is live, the platform totals are the sums of the rows.
\<close>

theorem totals_add_up:
  assumes "distinct (map o_id (organizations w))" "distinct (map e_id (events w))"
    and "\<forall>e \<in> set (events w). e_deletedAt e = None \<longrightarrow> e_orgId e \<in> set (live_orgs w)"
    and "\<forall>p \<in> set (persons w). p_orgId p \<in> set (live_orgs w)"
  shows "tt_events (getTotals w) = sum_list (map ob_eventCount (getOrganizationBreakdown w))
    \<and> tt_people (getTotals w) = sum_list (map ob_personCount (getOrganizationBreakdown w))
    \<and> tt_assets (getTotals w) = sum_list (map ob_assetCount (getOrganizationBreakdown w))
    \<and> tt_storageBytes (getTotals w) = sum_list (map ob_storageBytes (getOrganizationBreakdown w))
    \<and> tt_participants (getTotals w) = sum_list (map ob_participantCount (getOrganizationBreakdown w))"
proof -
  have "live_event ev w \<Longrightarrow> org_of w ev \<in> Some ` set (live_orgs w)" for ev
    using live_in_org [OF assms(2), of ev] assms(3) by (auto simp: live_event_def)
  then have "filter (\<lambda>a. org_of w (a_eventId a) \<in> Some ` set (live_orgs w) \<and> a_deletedAt a = None \<and> live_event (a_eventId a) w) (assets w)
      = filter (\<lambda>a. a_deletedAt a = None \<and> live_event (a_eventId a) w) (assets w)"
    "filter (\<lambda>p. org_of w (pt_eventId p) \<in> Some ` set (live_orgs w) \<and> pt_deletedAt p = None \<and> live_event (pt_eventId p) w) (participants w)
      = filter (\<lambda>p. pt_deletedAt p = None \<and> live_event (pt_eventId p) w) (participants w)"
    by (auto intro: filter_cong)
  moreover have "filter (\<lambda>e. e_orgId e \<in> set (live_orgs w) \<and> e_deletedAt e = None) (events w) = filter (\<lambda>e. e_deletedAt e = None) (events w)"
    "filter (\<lambda>p. p_orgId p \<in> set (live_orgs w)) (persons w) = persons w"
    using assms(3,4) by (auto intro: filter_cong simp: filter_id_conv)
  ultimately show ?thesis unfolding column_sums [OF assms(1,2)] by (simp add: getTotals_def)
qed

text \<open>
  Removing an organization breaks the sums: its events stay live, so they are counted in the totals and
  in no row, although the totals are meant to equal the sum of the rows.
\<close>

theorem totals_drift_after_removal:
  assumes "removeOrg org now w = (Inr (), w')" "distinct (map o_id (organizations w))" "distinct (map e_id (events w))"
    and "e \<in> set (events w)" "e_orgId e = org" "e_deletedAt e = None"
  shows "sum_list (map ob_eventCount (getOrganizationBreakdown w')) < tt_events (getTotals w')"
proof -
  have w': "events w' = events w" "organizations w' = organizations (org_softDelete org now w)"
    using assms(1) by (auto simp: removeOrg_def queueAll_def org_softDelete_def org_set_def split: sum.splits)
  then have orgs: "organizations w' = update_where (\<lambda>r. o_id r = org) (\<lambda>r. r\<lparr>o_deletedAt := Some now, o_updatedAt := now\<rparr>) (organizations w)"
    by (simp add: org_softDelete_def org_set_def)
  have "o_deletedAt r \<noteq> None"
    if "r \<in> set (update_where (\<lambda>r. o_id r = org) (\<lambda>r. r\<lparr>o_deletedAt := Some now, o_updatedAt := now\<rparr>) rs)" "o_id r = org" for r rs
  proof -
    from that(1) obtain x where "x \<in> set rs" "r = (if o_id x = org then x\<lparr>o_deletedAt := Some now, o_updatedAt := now\<rparr> else x)"
      unfolding set_update_where by blast
    with that(2) show ?thesis by (cases "o_id x = org") simp_all
  qed
  then have gone: "org \<notin> set (live_orgs w')" unfolding live_orgs_def orgs set_map set_filter by blast
  have "map o_id (update_where p (\<lambda>r. r\<lparr>o_deletedAt := Some now, o_updatedAt := now\<rparr>) rs) = map o_id rs" for p rs by (induction rs) simp_all
  then have "map o_id (organizations w') = map o_id (organizations w)" unfolding orgs .
  then have "distinct (map o_id (organizations w'))" "distinct (map e_id (events w'))" using assms(2,3) w'(1) by simp_all
  note sums = column_sums(1) [OF this]
  have "length (filter (\<lambda>e. e_orgId e \<in> set (live_orgs w')) (filter (\<lambda>e. e_deletedAt e = None) (events w')))
      < length (filter (\<lambda>e. e_deletedAt e = None) (events w'))"
    using gone assms(4-6) w'(1) by (intro length_filter_less) auto
  then show ?thesis unfolding sums by (simp add: getTotals_def conj_commute)
qed

lemma map_filter_same_shape:
  "map f xs = map f ys \<Longrightarrow> (\<And>x y. f x = f y \<Longrightarrow> q x = q' y \<and> h x = h' y) \<Longrightarrow> map h (filter q xs) = map h' (filter q' ys)"
proof (induction xs arbitrary: ys)
  case (Cons x xs)
  then obtain y ys' where ys: "ys = y # ys'" "f x = f y" "map f xs = map f ys'" by (cases ys) auto
  with Cons.IH [OF ys(3) Cons.prems(2)] Cons.prems(2) [OF ys(2)] show ?case by simp
qed simp

lemma length_filter_same_shape:
  assumes "map f xs = map f ys" "\<And>x y. f x = f y \<Longrightarrow> q x = q' y"
  shows "length (filter q xs) = length (filter q' ys)"
  using arg_cong [OF map_filter_same_shape [of f xs ys q q' "\<lambda>_. ()" "\<lambda>_. ()"], of length] assms by simp

text \<open>
  C15. The statistics reveal no content: two databases that agree on the organizations and, row by row, on
  which event belongs to whom, what is deleted and how large the files are, give the same statistics,
  whatever the events, photos, people and guests are called.
\<close>

theorem stats_reveal_no_content:
  assumes "organizations v = organizations w" "map u_deletedAt (users v) = map u_deletedAt (users w)"
    and "map (\<lambda>e. (e_id e, e_orgId e, e_deletedAt e)) (events v) = map (\<lambda>e. (e_id e, e_orgId e, e_deletedAt e)) (events w)"
    and "map (\<lambda>a. (a_eventId a, a_fileSize a, a_deletedAt a)) (assets v) = map (\<lambda>a. (a_eventId a, a_fileSize a, a_deletedAt a)) (assets w)"
    and "map p_orgId (persons v) = map p_orgId (persons w)"
    and "map (\<lambda>p. (pt_eventId p, pt_deletedAt p)) (participants v) = map (\<lambda>p. (pt_eventId p, pt_deletedAt p)) (participants w)"
  shows "getStats v = getStats w"
proof -
  let ?f = "\<lambda>e. (e_id e, e_orgId e, e_deletedAt e)"
  have "?f ` set (events v) = ?f ` set (events w)" using arg_cong [OF assms(3), of set] by simp
  then have set: "(\<exists>e \<in> set (events v). r (e_id e) (e_orgId e) (e_deletedAt e)) \<longleftrightarrow> (\<exists>e \<in> set (events w). r (e_id e) (e_orgId e) (e_deletedAt e))" for r
    by (auto simp: set_eq_iff image_iff) metis+
  have live: "live_event ev v = live_event ev w" for ev
    using set [of "\<lambda>i _ d. i = ev \<and> d = None"] by (simp add: live_event_def)
  have belongs: "(\<exists>e \<in> set (events v). e_id e = ev \<and> e_orgId e = org \<and> e_deletedAt e = None) \<longleftrightarrow>
      (\<exists>e \<in> set (events w). e_id e = ev \<and> e_orgId e = org \<and> e_deletedAt e = None)" for ev org
    using set [of "\<lambda>i r d. i = ev \<and> r = org \<and> d = None"] by simp
  have counts: "asset_counts_for org v a = asset_counts_for org w b" "participant_counts_for org v p = participant_counts_for org w q"
    if "a_eventId a = a_eventId b \<and> a_deletedAt a = a_deletedAt b" "pt_eventId p = pt_eventId q \<and> pt_deletedAt p = pt_deletedAt q" for org a b p q
    using that belongs by (simp_all add: asset_counts_for_def participant_counts_for_def)
  have "getTotals v = getTotals w"
    unfolding getTotals_def platform_totals.ext_inject assms(1) live
    by (intro conjI refl arg_cong [of _ _ int] arg_cong [of _ _ sum_list] length_filter_same_shape [OF assms(2)]
        length_filter_same_shape [OF assms(3)] length_filter_same_shape [OF assms(4)] length_filter_same_shape [OF assms(6)]
        map_filter_same_shape [OF assms(4)] map_eq_imp_length_eq [OF assms(5)]) auto
  moreover have "length (filter (\<lambda>e. e_orgId e = i \<and> e_deletedAt e = None) (events v)) = length (filter (\<lambda>e. e_orgId e = i \<and> e_deletedAt e = None) (events w))"
    "length (filter (\<lambda>p. p_orgId p = i) (persons v)) = length (filter (\<lambda>p. p_orgId p = i) (persons w))"
    "length (filter (asset_counts_for i v) (assets v)) = length (filter (asset_counts_for i w) (assets w))"
    "map a_fileSize (filter (asset_counts_for i v) (assets v)) = map a_fileSize (filter (asset_counts_for i w) (assets w))"
    "length (filter (participant_counts_for i v) (participants v)) = length (filter (participant_counts_for i w) (participants w))" for i
    by (rule length_filter_same_shape [OF assms(3)] length_filter_same_shape [OF assms(5)] length_filter_same_shape [OF assms(4)]
        map_filter_same_shape [OF assms(4)] length_filter_same_shape [OF assms(6)]; use counts in simp)+
  then have "breakdown_row v r = breakdown_row w r" for r by (simp add: breakdown_row_def)
  ultimately show ?thesis by (simp add: getStats_def getOrganizationBreakdown_def assms(1))
qed

section \<open>Queues and forms\<close>

text \<open>
  The dashboard describes queues as they are, but not all of them: every job it lists under a queue is
  handled in that queue; six jobs are listed nowhere, among them the expiry and purge sweeps and the mail
  that acknowledges a selfie.
\<close>

theorem dashboard_omits_jobs:
  "(\<forall>q. list_all (\<lambda>j. getQueueName registry j = q) (queue_info_jobs q))
    \<and> {j. \<forall>q. j \<notin> set (queue_info_jobs q)} = {JobName_SendSelfieReceived, JobName_SendEventExpiry, JobName_EventExpirySweep,
        JobName_EventPurgeSweep, JobName_GpuLifecycleSweep, JobName_AuditRetentionSweep}"
proof (intro conjI allI)
  show "list_all (\<lambda>j. getQueueName registry j = q) (queue_info_jobs q)" for q
    by (cases q) (simp_all add: getQueueName_def registry_def configs_def decorated_def)
  have all: "(\<forall>q. r q) \<longleftrightarrow> (\<forall>q \<in> set all_queues. r q)" for r :: "QueueName \<Rightarrow> bool" by simp
  have "(\<forall>q. j \<notin> set (queue_info_jobs q)) \<longleftrightarrow> j \<in> {JobName_SendSelfieReceived, JobName_SendEventExpiry, JobName_EventExpirySweep,
        JobName_EventPurgeSweep, JobName_GpuLifecycleSweep, JobName_AuditRetentionSweep}" for j
    unfolding all by (cases j) (simp_all add: all_queues_def)
  then show "{j. \<forall>q. j \<notin> set (queue_info_jobs q)} = {JobName_SendSelfieReceived, JobName_SendEventExpiry, JobName_EventExpirySweep,
        JobName_EventPurgeSweep, JobName_GpuLifecycleSweep, JobName_AuditRetentionSweep}" by blast
qed

fun command_queue :: "queue_command \<Rightarrow> QueueName" where
  "command_queue (Pause q) = q"
| "command_queue (Resume q) = q"
| "command_queue (Clean q n) = q"
| "command_queue (RetryFailed q) = q"
| "command_queue (Drain q) = q"
| "command_queue (KillActive q) = q"

lemma find_queue_iff: "find_queue name = Some q \<longleftrightarrow> queue_text q = name"
proof
  assume "queue_text q = name"
  then obtain q' where "find_queue name = Some q'"
    unfolding find_queue_def by (metis (mono_tags, lifting) UNIV_I not_None_eq select_first_None_iff set_all_queues)
  moreover from this have "queue_text q' = name" unfolding find_queue_def by (blast dest: select_first_SomeD)
  ultimately show "find_queue name = Some q" using \<open>queue_text q = name\<close> by (metis queue_text_inject)
qed (auto simp: find_queue_def dest: select_first_SomeD)

text \<open>
  An action reaches its queue and no other: it sends at most one command, to the queue it names; an
  unknown queue or action sends none and changes nothing; and the only trace in the database is the one
  audit entry of a completed kill.
\<close>

theorem queue_action_is_precise:
  assumes "runQueueAction active failed ok name action now w = (r, commands, w')"
  shows "(\<forall>c \<in> set commands. queue_text (command_queue c) = name) \<and> length commands \<le> 1
    \<and> (commands = [] \<longleftrightarrow> (\<exists>m. r = Inl (BadRequest m))) \<and> (r = Inr () \<longrightarrow> length commands = 1)
    \<and> (w' = w \<or> action = ''kill-active'' \<and> r = Inr () \<and> (\<forall>q. queue_text q = name \<longrightarrow> None \<notin> set (active q))
         \<and> w' = record_audit ok (mk_entry AuditCategory_Job ''queue.kill-active'' (Some AuditLevel_Warning) None None) now w)"
proof (cases "find_queue name")
  case None
  with assms show ?thesis by (auto simp: runQueueAction_def)
next
  case (Some q)
  then have q: "queue_text q = name" by (simp add: find_queue_iff)
  have only: "(\<forall>q'. queue_text q' = name \<longrightarrow> p q') \<longleftrightarrow> p q" for p using q by (metis queue_text_inject)
  have kill: "killActive jobs n = (if None \<in> set jobs then Inl (ServerError ''Cannot read properties of undefined'') else Inr (n + length jobs))"
    for jobs n by (induction jobs n rule: killActive.induct) simp_all
  consider "action = ''pause''" | "action = ''resume''" | "action = ''clear-failed''" | "action = ''retry-failed''" | "action = ''empty''"
    | "action = ''kill-active''"
    | "action \<noteq> ''pause''" "action \<noteq> ''resume''" "action \<noteq> ''clear-failed''" "action \<noteq> ''retry-failed''" "action \<noteq> ''empty''" "action \<noteq> ''kill-active''"
    by argo
  then show ?thesis unfolding only using assms Some q
    by cases (auto simp: runQueueAction_def kill split: if_split_asm)
qed

text \<open>The forms keep the settings within their bounds.\<close>

definition gpu_config_ok :: "GpuAutostartConfig \<Rightarrow> bool" where
  "gpu_config_ok c \<longleftrightarrow> gc_pendingThreshold c \<in> {1..100000} \<and> gc_maxPendingAgeMinutes c \<in> {1..10080}
     \<and> gc_idleShutdownMinutes c \<in> {1..1440} \<and> gc_startTimeoutMinutes c \<in> {1..240}"

definition settings_ok :: "world \<Rightarrow> bool" where
  "settings_ok w \<longleftrightarrow> gpu_config_ok (getGpuAutostartConfig w) \<and> er_purgeGraceHours (getEventRetentionConfig w) \<in> {1..8760}"

datatype settings_act = GpuForm GpuAutostartDto | RetentionForm int | Elsewhere "world \<Rightarrow> world"

inductive settings_step :: "world \<Rightarrow> settings_act \<Rightarrow> world \<Rightarrow> bool" where
  gpu_form: "gpu_dto_ok dto \<Longrightarrow> settings_step w (GpuForm dto) (snd (updateGpuAutostart dto w))"
| retention_form: "retention_dto_ok hours \<Longrightarrow> settings_step w (RetentionForm hours) (snd (updateEventRetention hours w))"
| elsewhere: "gpuAutostart (f w) = gpuAutostart w \<Longrightarrow> eventRetention (f w) = eventRetention w \<Longrightarrow> settings_step w (Elsewhere f) (f w)"

lemma bounds_of_default: "in_bounds lo hi v \<Longrightarrow> n \<in> {lo..hi} \<Longrightarrow> or_default v n \<in> {lo..hi}"
  by (cases v) (simp_all add: in_bounds_def)

lemma patch_gpu_ok: "gpu_dto_ok dto \<Longrightarrow> gpu_config_ok c \<Longrightarrow> gpu_config_ok (patch_gpu dto c)"
  by (simp add: gpu_dto_ok_def gpu_config_ok_def patch_gpu_def bounds_of_default del: atLeastAtMost_iff)

interpretation settings: invariant_system "\<lambda>w. gpuAutostart w = None \<and> eventRetention w = None" settings_step settings_ok
proof
  show "settings_ok w" if "gpuAutostart w = None \<and> eventRetention w = None" for w
    using that by (simp add: settings_ok_def getGpuAutostartConfig_def getEventRetentionConfig_def gpu_config_ok_def
        GPU_AUTOSTART_DEFAULTS_def EVENT_RETENTION_DEFAULTS_def)
  show "settings_ok v" if "settings_ok w" "settings_step w l v" for w l v
    using that(2,1)
  proof cases
    case (gpu_form dto)
    then show ?thesis using that(1) patch_gpu_ok [OF gpu_form(3)]
      by (simp add: settings_ok_def updateGpuAutostart_def getGpuAutostartConfig_def getEventRetentionConfig_def Let_def)
  next
    case (retention_form hours)
    then show ?thesis using that(1)
      by (simp add: settings_ok_def updateEventRetention_def getGpuAutostartConfig_def getEventRetentionConfig_def retention_dto_ok_def Let_def)
  next
    case (elsewhere f)
    then show ?thesis using that(1) by (simp add: settings_ok_def getGpuAutostartConfig_def getEventRetentionConfig_def)
  qed
qed

text \<open>
  Settings stay within their bounds: from an empty configuration, whatever the super admin saves in either
  form and whatever else happens, the box is never told to stop or start within zero minutes, and expired
  events keep their media for at least an hour and at most a year; a partial save leaves every field it does not name as it was.
\<close>

theorem settings_stay_in_bounds:
  assumes "reachable (\<lambda>w. gpuAutostart w = None \<and> eventRetention w = None) settings_step w"
  shows "1 \<le> gc_idleShutdownMinutes (getGpuAutostartConfig w) \<and> 1 \<le> gc_pendingThreshold (getGpuAutostartConfig w)
    \<and> 1 \<le> gc_startTimeoutMinutes (getGpuAutostartConfig w) \<and> gc_startTimeoutMinutes (getGpuAutostartConfig w) \<le> 240
    \<and> 1 \<le> er_purgeGraceHours (getEventRetentionConfig w) \<and> er_purgeGraceHours (getEventRetentionConfig w) \<le> 8760
    \<and> (gd_idleShutdownMinutes dto = None \<longrightarrow>
         gc_idleShutdownMinutes (getGpuAutostartConfig (snd (updateGpuAutostart dto w))) = gc_idleShutdownMinutes (getGpuAutostartConfig w))
    \<and> getGpuAutostartConfig (snd (updateGpuAutostart dto w)) = fst (updateGpuAutostart dto w)"
proof -
  have "settings_ok w" using assms by (rule settings.reachable_inv)
  then show ?thesis
    by (simp add: settings_ok_def gpu_config_ok_def updateGpuAutostart_def Let_def getGpuAutostartConfig_def patch_gpu_def)
qed

section \<open>Witnesses\<close>

lemma wit_event_orgs: "live_orgs wit_event_world = [''o'']" "map o_id (organizations wit_event_world) = [''o'']"
  by (simp_all add: live_orgs_def wit_event_world_def wit_org_defs)

theorem totals_add_up_witness:
  "sum_list (map ob_eventCount (getOrganizationBreakdown wit_event_world)) = 1"
proof -
  have "tt_events (getTotals wit_event_world) = 1" by (simp add: getTotals_def wit_event_facts) (simp add: wit_event_def)
  moreover have "persons wit_event_world = []" by (simp add: wit_event_world_def wit_org_defs)
  ultimately show ?thesis
    using totals_add_up [of wit_event_world] wit_event_orgs by (simp add: wit_event_facts)
qed

theorem totals_drift_after_removal_witness:
  "sum_list (map ob_eventCount (getOrganizationBreakdown (snd (removeOrg ''o'' 9 wit_event_world)))) < tt_events (getTotals (snd (removeOrg ''o'' 9 wit_event_world)))"
proof -
  have "removeOrg ''o'' 9 wit_event_world = (Inr (), snd (removeOrg ''o'' 9 wit_event_world))"
    by (simp add: removeOrg_def org_get_def org_getById_def wit_event_world_def wit_org_defs)
  from totals_drift_after_removal [OF this, of wit_event] show ?thesis
    by (simp add: wit_event_facts wit_event_orgs) (simp add: wit_event_def)
qed

theorem stats_reveal_no_content_witness:
  "getStats (wit_event_world\<lparr>events := [wit_event\<lparr>e_name := ''Secret''\<rparr>]\<rparr>) = getStats wit_event_world"
  by (rule stats_reveal_no_content) (simp_all add: wit_event_facts)

theorem queue_action_is_precise_witness:
  "fst (snd (runQueueAction (\<lambda>_. []) (\<lambda>_. []) True ''selfie'' ''pause'' 5 empty_world)) = [Pause QueueName_Selfie]"
proof -
  obtain r cs w' where run: "runQueueAction (\<lambda>_. []) (\<lambda>_. []) True ''selfie'' ''pause'' 5 empty_world = (r, cs, w')" by (rule prod_cases3)
  have "find_queue ''selfie'' = Some QueueName_Selfie" by (simp add: find_queue_iff)
  with run have "r = Inr () \<and> cs = [Pause QueueName_Selfie]" by (simp add: runQueueAction_def)
  with queue_action_is_precise [OF run] run show ?thesis by simp
qed

theorem settings_stay_in_bounds_witness:
  "er_purgeGraceHours (getEventRetentionConfig (snd (updateEventRetention 48 empty_world))) \<le> 8760"
proof -
  have "settings_step empty_world (RetentionForm 48) (snd (updateEventRetention 48 empty_world))"
    by (rule settings_step.intros) (simp add: retention_dto_ok_def)
  then have "reachable (\<lambda>w. gpuAutostart w = None \<and> eventRetention w = None) settings_step (snd (updateEventRetention 48 empty_world))"
    by (rule reachable.reach_step [rotated]) (rule reachable.reach_start, simp add: empty_world_def)
  from settings_stay_in_bounds [OF this] show ?thesis by blast
qed

end
