(* ===== verification/Routes.thy ===== *)
theory Routes
  imports Admin
begin

text \<open>
  \<^verbatim>\<open>controllers/\<close> and \<^verbatim>\<open>app.module.ts\<close>: which handler a request reaches and what the guard
  asks of it on the way. Each controller is the list of its handlers with what their decorators say: verb,
  path, \<^verbatim>\<open>@Authenticated\<close> options (\<open>None\<close> without the decorator), throttle and status.

  A request arrives as its verb and the segments of its path behind the global prefix, split and decoded
  by Express, which compares literal segments without regard to case, answers HEAD with the handler of
  GET and takes the first handler that matches, in the order of registration.
\<close>

section \<open>Routes\<close>

datatype http_verb = Verb_GET | Verb_POST | Verb_PUT | Verb_DELETE | Verb_HEAD

datatype segment = Lit string | Par string

record route =
  rt_verb :: http_verb
  rt_path :: "segment list"
  rt_auth :: "AuthenticateOptions option"
  rt_throttle :: "(nat \<times> ms) option"
  rt_status :: nat
  rt_handler :: string

definition segment_of :: "string \<Rightarrow> segment" where
  "segment_of s = (case s of CHR '':'' # name \<Rightarrow> Par name | _ \<Rightarrow> Lit s)"

definition path_of :: "string \<Rightarrow> segment list" where
  "path_of p = map segment_of (filter (\<lambda>s. s \<noteq> []) (split_on (CHR ''/'') p))"

definition Authenticated :: "AuthenticateOptions option" where
  "Authenticated = Some \<lparr>ao_superAdmin = False, ao_orgRole = None, ao_participant = False, ao_allowSuperAdmin = False\<rparr>"

definition superAdmin :: "AuthenticateOptions option" where
  "superAdmin = Some \<lparr>ao_superAdmin = True, ao_orgRole = None, ao_participant = False, ao_allowSuperAdmin = False\<rparr>"

definition orgRole :: "OrgRole \<Rightarrow> AuthenticateOptions option" where
  "orgRole r = Some \<lparr>ao_superAdmin = False, ao_orgRole = Some r, ao_participant = False, ao_allowSuperAdmin = False\<rparr>"

definition allowSuperAdmin :: "OrgRole \<Rightarrow> AuthenticateOptions option" where
  "allowSuperAdmin r = Some \<lparr>ao_superAdmin = False, ao_orgRole = Some r, ao_participant = False, ao_allowSuperAdmin = True\<rparr>"

text \<open>A handler with its decorators; \<^verbatim>\<open>@HttpCode\<close> and \<^verbatim>\<open>@Throttle\<close> where they are given.\<close>

definition default_status :: "http_verb \<Rightarrow> nat" where
  "default_status v = (if v = Verb_POST then 201 else 200)"

definition handle :: "http_verb \<Rightarrow> string \<Rightarrow> AuthenticateOptions option \<Rightarrow> string \<Rightarrow> route" where
  "handle v p auth h = \<lparr>rt_verb = v, rt_path = path_of p, rt_auth = auth, rt_throttle = None, rt_status = default_status v, rt_handler = h\<rparr>"

definition HttpCode :: "nat \<Rightarrow> route \<Rightarrow> route" where
  "HttpCode n r = r\<lparr>rt_status := n\<rparr>"

definition Throttle :: "nat \<Rightarrow> ms \<Rightarrow> route \<Rightarrow> route" where
  "Throttle limit ttl r = r\<lparr>rt_throttle := Some (limit, ttl)\<rparr>"

definition auth_routes :: "route list" where
  "auth_routes =
    [HttpCode 200 (Throttle 10 60000 (handle Verb_POST ''auth/login'' None ''AuthController.login'')),
     Throttle 5 60000 (handle Verb_POST ''auth/admin-signup'' None ''AuthController.adminSignup''),
     HttpCode 200 (handle Verb_POST ''auth/logout'' Authenticated ''AuthController.logout''),
     handle Verb_GET ''auth/me'' Authenticated ''AuthController.me'',
     HttpCode 204 (Throttle 5 60000 (handle Verb_POST ''auth/reset-password'' None ''AuthController.resetPassword'')),
     handle Verb_PUT ''auth/password'' Authenticated ''AuthController.changePassword'']"

definition admin_routes :: "route list" where
  "admin_routes =
    [handle Verb_GET ''admin/organizations'' superAdmin ''AdminController.listOrganizations'',
     handle Verb_POST ''admin/organizations'' superAdmin ''AdminController.createOrganization'',
     handle Verb_GET ''admin/organizations/:orgId'' superAdmin ''AdminController.getOrganization'',
     handle Verb_PUT ''admin/organizations/:orgId'' superAdmin ''AdminController.updateOrganization'',
     HttpCode 204 (handle Verb_DELETE ''admin/organizations/:orgId'' superAdmin ''AdminController.removeOrganization''),
     handle Verb_PUT ''admin/organizations/:orgId/plan'' superAdmin ''AdminController.updatePlan'',
     handle Verb_GET ''admin/stats'' superAdmin ''AdminController.getStats'',
     handle Verb_GET ''admin/queues'' superAdmin ''AdminController.getQueues'',
     handle Verb_GET ''admin/jobs'' superAdmin ''AdminController.getJobs'',
     handle Verb_GET ''admin/queues/:name/failed'' superAdmin ''AdminController.getFailedJobs'',
     handle Verb_GET ''admin/system'' superAdmin ''AdminController.getSystemStatus'',
     handle Verb_GET ''admin/gpu'' superAdmin ''AdminController.getGpuStatus'',
     handle Verb_PUT ''admin/gpu/config'' superAdmin ''AdminController.updateGpuConfig'',
     handle Verb_POST ''admin/gpu/start'' superAdmin ''AdminController.startGpu'',
     handle Verb_POST ''admin/gpu/hold'' superAdmin ''AdminController.holdGpu'',
     handle Verb_DELETE ''admin/gpu/hold'' superAdmin ''AdminController.clearGpuHold'',
     handle Verb_POST ''admin/gpu/stop'' superAdmin ''AdminController.stopGpu'',
     HttpCode 200 (handle Verb_POST ''admin/gpu/test'' superAdmin ''AdminController.testGpuProvider''),
     handle Verb_PUT ''admin/retention'' superAdmin ''AdminController.updateRetention'',
     handle Verb_GET ''admin/audit'' superAdmin ''AdminController.listAudit'',
     handle Verb_GET ''admin/audit/summary'' superAdmin ''AdminController.auditSummary'',
     handle Verb_POST ''admin/audit/flush'' superAdmin ''AdminController.flushAudit'',
     HttpCode 204 (handle Verb_POST ''admin/queues/:name/:action'' superAdmin ''AdminController.runQueueAction'')]"

definition organization_routes :: "route list" where
  "organization_routes =
    [handle Verb_GET ''orgs/:orgId'' (allowSuperAdmin OrgRole_Member) ''OrganizationController.getOrganization'',
     handle Verb_GET ''orgs/:orgId/shell'' (orgRole OrgRole_Member) ''OrganizationController.getShell'',
     handle Verb_GET ''orgs/:orgId/quota'' None ''OrganizationController.getQuota'',
     handle Verb_GET ''orgs/:orgId/usage'' (orgRole OrgRole_Member) ''OrganizationController.getUsage'',
     handle Verb_GET ''orgs/:orgId/notifications'' (orgRole OrgRole_Member) ''OrganizationController.getNotifications'',
     handle Verb_GET ''orgs/:orgId/people'' (orgRole OrgRole_Member) ''OrganizationController.listPeople'',
     handle Verb_GET ''orgs/:orgId/map-markers'' (orgRole OrgRole_Member) ''OrganizationController.getMapMarkers'',
     handle Verb_GET ''orgs/:orgId/members'' (allowSuperAdmin OrgRole_Owner) ''OrganizationController.listMembers'',
     HttpCode 204 (handle Verb_POST ''orgs/:orgId/members'' (allowSuperAdmin OrgRole_Owner) ''OrganizationController.addMember''),
     HttpCode 204 (handle Verb_PUT ''orgs/:orgId/members/:userId'' (allowSuperAdmin OrgRole_Owner) ''OrganizationController.updateMember''),
     HttpCode 204 (handle Verb_POST ''orgs/:orgId/members/:userId/reset-password'' superAdmin ''OrganizationController.resetMemberPassword''),
     HttpCode 204 (handle Verb_DELETE ''orgs/:orgId/members/:userId'' (allowSuperAdmin OrgRole_Owner) ''OrganizationController.removeMember'')]"

definition event_routes :: "route list" where
  "event_routes =
    [handle Verb_GET ''events'' Authenticated ''EventController.listMyEvents'',
     handle Verb_GET ''orgs/:orgId/events'' (orgRole OrgRole_Member) ''EventController.listEvents'',
     handle Verb_POST ''orgs/:orgId/events'' (orgRole OrgRole_Admin) ''EventController.createEvent'',
     handle Verb_GET ''events/:eventId'' (orgRole OrgRole_Member) ''EventController.getEvent'',
     handle Verb_GET ''events/:eventId/processing'' (orgRole OrgRole_Member) ''EventController.getProcessingStatus'',
     handle Verb_POST ''events/:eventId/reprocess-faces'' (orgRole OrgRole_Admin) ''EventController.reprocessFaces'',
     handle Verb_PUT ''events/:eventId'' (orgRole OrgRole_Admin) ''EventController.updateEvent'',
     handle Verb_GET ''orgs/:orgId/assets'' (orgRole OrgRole_Member) ''EventController.listOrgAssets'',
     handle Verb_PUT ''events/:eventId/cover'' (orgRole OrgRole_Admin) ''EventController.setCover'',
     handle Verb_POST ''events/:eventId/expiry/extend'' (orgRole OrgRole_Admin) ''EventController.extendExpiry'',
     handle Verb_POST ''events/:eventId/expiry/acknowledge'' (orgRole OrgRole_Admin) ''EventController.acknowledgeExpiry'',
     handle Verb_POST ''events/:eventId/expiry/purge'' (orgRole OrgRole_Owner) ''EventController.purgeExpiredMedia'',
     HttpCode 204 (handle Verb_DELETE ''events/:eventId'' (orgRole OrgRole_Admin) ''EventController.removeEvent'')]"

definition asset_routes :: "route list" where
  "asset_routes =
    [handle Verb_POST ''events/:eventId/assets'' (orgRole OrgRole_Member) ''AssetController.upload'',
     HttpCode 200 (handle Verb_POST ''events/:eventId/assets/bulk-upload-check'' (orgRole OrgRole_Member) ''AssetController.bulkUploadCheck''),
     handle Verb_GET ''events/:eventId/assets'' (orgRole OrgRole_Member) ''AssetController.list'',
     handle Verb_GET ''events/:eventId/assets/random'' (orgRole OrgRole_Member) ''AssetController.random'',
     handle Verb_GET ''events/:eventId/assets/:assetId/similar'' (orgRole OrgRole_Member) ''AssetController.similar'',
     handle Verb_GET ''events/:eventId/assets/:assetId'' (orgRole OrgRole_Member) ''AssetController.get'',
     handle Verb_GET ''events/:eventId/assets/:assetId/download'' (orgRole OrgRole_Member) ''AssetController.download'',
     handle Verb_GET ''events/:eventId/assets/:assetId/image'' (orgRole OrgRole_Member) ''AssetController.image'',
     handle Verb_POST ''events/:eventId/assets/download'' (orgRole OrgRole_Member) ''AssetController.downloadMany'',
     HttpCode 200 (handle Verb_DELETE ''events/:eventId/assets'' (orgRole OrgRole_Admin) ''AssetController.deleteMany''),
     HttpCode 204 (handle Verb_POST ''events/:eventId/assets/:assetId/jobs'' (orgRole OrgRole_Admin) ''AssetController.runJob'')]"

definition person_routes :: "route list" where
  "person_routes =
    [handle Verb_GET ''events/:eventId/people'' (orgRole OrgRole_Member) ''PersonController.list'',
     handle Verb_PUT ''events/:eventId/people/:personId'' (orgRole OrgRole_Admin) ''PersonController.update'',
     handle Verb_GET ''events/:eventId/people/:personId'' (orgRole OrgRole_Member) ''PersonController.get'',
     handle Verb_PUT ''events/:eventId/people/:personId/cover'' (orgRole OrgRole_Admin) ''PersonController.setCover'',
     handle Verb_POST ''events/:eventId/people/:personId/merge'' (orgRole OrgRole_Admin) ''PersonController.merge'',
     handle Verb_GET ''events/:eventId/people/:personId/assets'' (orgRole OrgRole_Member) ''PersonController.getAssets'']"

definition participant_routes :: "route list" where
  "participant_routes =
    [handle Verb_GET ''events/:eventId/participants'' (orgRole OrgRole_Member) ''ParticipantAdminController.list'',
     HttpCode 204 (handle Verb_POST ''events/:eventId/participants/:participantId/resend'' (orgRole OrgRole_Admin) ''ParticipantAdminController.resend''),
     HttpCode 204 (handle Verb_DELETE ''events/:eventId/participants/:participantId'' (orgRole OrgRole_Admin) ''ParticipantAdminController.remove'')]"

definition public_routes :: "route list" where
  "public_routes =
    [handle Verb_GET ''public/events/:slug'' None ''PublicController.getEvent'',
     HttpCode 202 (handle Verb_POST ''public/events/:slug/participants'' None ''PublicController.submitSelfie''),
     handle Verb_GET ''public/selfie-progress/:ticket'' None ''PublicController.getSelfieProgress'',
     handle Verb_GET ''public/gallery/:token'' None ''PublicController.getGallery'',
     handle Verb_GET ''public/gallery/:token/assets/:assetId/download'' None ''PublicController.download'',
     handle Verb_GET ''public/gallery/:token/download'' None ''PublicController.downloadAll'',
     handle Verb_POST ''public/gallery/:token/download'' None ''PublicController.downloadSelection'',
     handle Verb_GET ''public/gallery/:token/event-assets'' None ''PublicController.getEventAssets'',
     handle Verb_GET ''public/gallery/:token/assets/:assetId/faces'' None ''PublicController.getAssetFaces'',
     handle Verb_GET ''public/gallery/:token/people/:personId'' None ''PublicController.getPerson'']"

definition cloud_routes :: "route list" where
  "cloud_routes =
    [handle Verb_GET ''orgs/:orgId/cloud/:provider/authorize'' (orgRole OrgRole_Admin) ''CloudController.authorize'',
     handle Verb_GET ''cloud/:provider/callback'' None ''CloudController.callback'',
     handle Verb_GET ''orgs/:orgId/cloud/accounts'' (orgRole OrgRole_Admin) ''CloudController.listAccounts'',
     HttpCode 204 (handle Verb_DELETE ''orgs/:orgId/cloud/accounts/:accountId'' (orgRole OrgRole_Admin) ''CloudController.disconnect''),
     handle Verb_GET ''orgs/:orgId/cloud/accounts/:accountId/folders'' (orgRole OrgRole_Admin) ''CloudController.listFolders'']"

definition support_routes :: "route list" where
  "support_routes =
    [handle Verb_POST ''orgs/:orgId/support'' (orgRole OrgRole_Member) ''SupportController.create'',
     handle Verb_POST ''public/support'' None ''SupportController.createPublic'',
     handle Verb_GET ''admin/support'' superAdmin ''SupportController.list'',
     HttpCode 204 (handle Verb_PUT ''admin/support/:id'' superAdmin ''SupportController.update'')]"

definition import_routes :: "route list" where
  "import_routes =
    [handle Verb_POST ''events/:eventId/imports'' (orgRole OrgRole_Admin) ''ImportController.create'',
     handle Verb_GET ''events/:eventId/imports'' (orgRole OrgRole_Member) ''ImportController.list'',
     handle Verb_GET ''events/:eventId/imports/:importId'' (orgRole OrgRole_Member) ''ImportController.get'',
     HttpCode 204 (handle Verb_POST ''events/:eventId/imports/:importId/cancel'' (orgRole OrgRole_Admin) ''ImportController.cancel'')]"

definition webhook_routes :: "route list" where
  "webhook_routes =
    [handle Verb_GET ''webhooks/gpu/heartbeat'' None ''WebhookController.gpuHeartbeat'',
     HttpCode 204 (Throttle 240 60000 (handle Verb_POST ''webhooks/resend'' None ''WebhookController.resend''))]"

text \<open>The controllers in the order in which the module registers them.\<close>

definition routes :: "route list" where
  "routes = auth_routes @ admin_routes @ organization_routes @ event_routes @ asset_routes @ person_routes @ participant_routes
     @ public_routes @ cloud_routes @ support_routes @ import_routes @ webhook_routes"

section \<open>Requests\<close>

record http_request =
  hq_verb :: http_verb
  hq_path :: "string list"
  hq_authorization :: "string option"
  hq_cookie :: "string option"
  hq_galleryTokenHeader :: "string option"
  hq_galleryTokenQuery :: "string option"

type_synonym path_params = "(string \<times> string) list"

text \<open>A path against a pattern: the parameters it binds.\<close>

fun match_path :: "segment list \<Rightarrow> string list \<Rightarrow> path_params option" where
  "match_path [] [] = Some []"
| "match_path (Lit l # ss) (x # xs) = (if toLowerCase x = toLowerCase l then match_path ss xs else None)"
| "match_path (Par p # ss) (x # xs) = (if x = [] then None else map_option (\<lambda>ps. (p, x) # ps) (match_path ss xs))"
| "match_path _ _ = None"

definition answers_verb :: "http_verb \<Rightarrow> http_verb \<Rightarrow> bool" where
  "answers_verb v asked \<longleftrightarrow> asked = v \<or> v = Verb_GET \<and> asked = Verb_HEAD"

definition matches :: "http_verb \<Rightarrow> string list \<Rightarrow> route \<Rightarrow> bool" where
  "matches v xs r \<longleftrightarrow> answers_verb (rt_verb r) v \<and> match_path (rt_path r) xs \<noteq> None"

definition dispatch :: "http_verb \<Rightarrow> string list \<Rightarrow> (route \<times> path_params) option" where
  "dispatch v xs =
    (case select_first (matches v xs) routes of
       None \<Rightarrow> None
     | Some r \<Rightarrow> map_option (Pair r) (match_path (rt_path r) xs))"

text \<open>What the guard reads of a request.\<close>

definition guard_request :: "http_request \<Rightarrow> path_params \<Rightarrow> AuthenticateRequest" where
  "guard_request req ps =
    \<lparr>ar_authorization = hq_authorization req, ar_cookie = hq_cookie req, ar_galleryTokenHeader = hq_galleryTokenHeader req,
     ar_galleryTokenQuery = hq_galleryTokenQuery req, ar_orgId = map_of ps ''orgId'', ar_eventId = map_of ps ''eventId''\<rparr>"

text \<open>From a request to its handler: the route, the guard, then the handler with the caller's identity.\<close>

definition serve :: "crypto \<Rightarrow> http_request \<Rightarrow> ms \<Rightarrow> world \<Rightarrow> (string \<times> path_params \<times> AuthDto option) outcome" where
  "serve cr req now w =
    (case dispatch (hq_verb req) (hq_path req) of
       None \<Rightarrow> Inl (NotFound ''Cannot find route'')
     | Some (r, ps) \<Rightarrow>
        (case canActivate cr (guard_request req ps) (rt_auth r) now w of
           Inl e \<Rightarrow> Inl e
         | Inr auth \<Rightarrow> Inr (rt_handler r, ps, auth)))"

section \<open>What the table says\<close>

definition meant_public :: "string list" where
  "meant_public =
    [''AuthController.login'', ''AuthController.adminSignup'', ''AuthController.resetPassword'',
     ''PublicController.getEvent'', ''PublicController.submitSelfie'', ''PublicController.getSelfieProgress'',
     ''PublicController.getGallery'', ''PublicController.download'', ''PublicController.downloadAll'',
     ''PublicController.downloadSelection'', ''PublicController.getEventAssets'', ''PublicController.getAssetFaces'',
     ''PublicController.getPerson'', ''CloudController.callback'', ''SupportController.createPublic'',
     ''WebhookController.gpuHeartbeat'', ''WebhookController.resend'']"

text \<open>The three ways in which a plain member may send data to an event.\<close>

definition member_writes :: "string list" where
  "member_writes = [''AssetController.upload'', ''AssetController.bulkUploadCheck'', ''AssetController.downloadMany'']"

definition params_of :: "segment list \<Rightarrow> string list" where
  "params_of ss = concat (map (\<lambda>s. case s of Par p \<Rightarrow> [p] | Lit l \<Rightarrow> []) ss)"

definition asks_role :: "OrgRole \<Rightarrow> route \<Rightarrow> bool" where
  "asks_role role r \<longleftrightarrow>
    (case rt_auth r of
       None \<Rightarrow> False
     | Some opts \<Rightarrow> \<not> ao_participant opts \<and> (case ao_orgRole opts of None \<Rightarrow> False | Some needed \<Rightarrow> role \<le> needed))"

definition event_route_ok :: "route \<Rightarrow> bool" where
  "event_route_ok r \<longleftrightarrow>
    (case rt_path r of
       Lit l # s # rest \<Rightarrow>
         toLowerCase l = ''events'' \<longrightarrow>
           s = Par ''eventId'' \<and> ''orgId'' \<notin> set (params_of rest)
             \<and> asks_role (if rt_verb r = Verb_GET \<or> rt_handler r \<in> set member_writes then OrgRole_Member else OrgRole_Admin) r
     | Par p # rest \<Rightarrow> False
     | _ \<Rightarrow> True)"

definition admin_route_ok :: "route \<Rightarrow> bool" where
  "admin_route_ok r \<longleftrightarrow>
    (case rt_path r of
       Lit l # rest \<Rightarrow> toLowerCase l = ''admin'' \<longrightarrow> (case rt_auth r of None \<Rightarrow> False | Some opts \<Rightarrow> \<not> ao_participant opts \<and> ao_superAdmin opts)
     | _ \<Rightarrow> False)"

lemma public_handlers:
  "map rt_handler (filter (\<lambda>r. rt_auth r = None) routes)
    = take 3 meant_public @ [''OrganizationController.getQuota''] @ drop 3 meant_public"
  by code_simp

lemma event_routes_ok: "list_all event_route_ok routes"
  by code_simp

lemma admin_routes_ok: "list_all admin_route_ok routes"
  by code_simp

lemma match_path_params: "match_path ss xs = Some ps \<Longrightarrow> map fst ps = params_of ss"
  by (induction ss xs arbitrary: ps rule: match_path.induct) (auto simp: params_of_def split: if_splits)

lemma dispatchD:
  assumes "dispatch v xs = Some (r, ps)"
  shows "r \<in> set routes" "answers_verb (rt_verb r) v" "match_path (rt_path r) xs = Some ps"
  using assms by (auto simp: dispatch_def matches_def dest!: select_first_SomeD split: option.splits)

lemma serve_ok:
  "serve cr req now w = Inr (h, ps, a) \<longleftrightarrow>
    (\<exists>r. dispatch (hq_verb req) (hq_path req) = Some (r, ps) \<and> rt_handler r = h
      \<and> canActivate cr (guard_request req ps) (rt_auth r) now w = Inr a)"
  by (auto simp: serve_def split: option.splits sum.splits)

lemma canActivate_ok:
  "canActivate cr areq o' now w = Inr a \<longleftrightarrow>
    o' = None \<and> a = None \<or> (\<exists>opts auth. o' = Some opts \<and> a = Some auth \<and> authenticate cr areq opts now w = Inr auth)"
  by (auto simp: canActivate_def split: option.splits sum.splits)

lemma asks_role_ok:
  assumes "asks_role role r" "canActivate cr areq (rt_auth r) now w = Inr a"
  obtains opts needed u auth where "rt_auth r = Some opts" "a = Some auth" "au_user auth = Some u" "role \<le> needed"
    "verifyOrgRole u needed areq (ao_allowSuperAdmin opts) w = Inr ()"
  using assms by (auto simp: asks_role_def canActivate_ok authenticate_ok split: option.splits)

section \<open>Who gets where\<close>

text \<open>
  C1. Media stays with the members, route by route: whatever request with a path below an event
  reaches a handler, its caller is a member of the organization that owns the event, super admins
  included; and apart from uploading, checking for duplicates and downloading a selection, a request
  that is not a read comes from an admin or owner.
\<close>

theorem events_belong_to_members:
  assumes "serve cr req now w = Inr (h, ps, a)" "hq_path req = s # ev # rest" "toLowerCase s = ''events''"
  shows "\<exists>auth u org m. a = Some auth \<and> au_user auth = Some u \<and> event_getOrgId ev w = Some org \<and> org_getMembership org (u_id u) w = Some m
    \<and> (hq_verb req \<noteq> Verb_GET \<and> hq_verb req \<noteq> Verb_HEAD \<and> h \<notin> set member_writes \<longrightarrow> OrgRole_Admin \<le> ou_role m)"
proof -
  from assms(1) obtain r where r: "dispatch (hq_verb req) (hq_path req) = Some (r, ps)" "rt_handler r = h"
    "canActivate cr (guard_request req ps) (rt_auth r) now w = Inr a" by (auto simp: serve_ok)
  note d = dispatchD [OF r(1)]
  have ok: "event_route_ok r" using d(1) event_routes_ok by (simp add: list_all_iff)
  obtain l t pat where path: "rt_path r = Lit l # t # pat" "toLowerCase l = ''events''"
    using d(3) ok assms(2,3) by (cases "(rt_path r, hq_path req)" rule: match_path.cases)
      (auto simp: event_route_ok_def neq_Nil_conv split: if_splits segment.splits, (case_tac ss; auto)+)
  have t: "t = Par ''eventId''" "''orgId'' \<notin> set (params_of pat)"
    and role: "asks_role (if rt_verb r = Verb_GET \<or> h \<in> set member_writes then OrgRole_Member else OrgRole_Admin) r"
    using ok r(2) by (simp_all add: event_route_ok_def path)
  obtain qs where qs: "ps = (''eventId'', ev) # qs" "ev \<noteq> []" "match_path pat rest = Some qs"
    using d(3) assms(2) by (auto simp: path t(1) split: if_splits)
  have "map_of ps ''orgId'' = None"
    using t(2) match_path_params [OF qs(3)] by (simp add: qs(1) map_of_eq_None_iff flip: set_map)
  then have "org_of_request (guard_request req ps) w = truthy (event_getOrgId ev w)" "truthy (ar_eventId (guard_request req ps)) = Some ev"
    using qs(2) by (simp_all add: org_of_request_def guard_request_def qs(1) truthy_def)
  note org = this
  obtain opts needed u auth where g: "rt_auth r = Some opts" "a = Some auth" "au_user auth = Some u"
    "(if rt_verb r = Verb_GET \<or> h \<in> set member_writes then OrgRole_Member else OrgRole_Admin) \<le> needed"
    "verifyOrgRole u needed (guard_request req ps) (ao_allowSuperAdmin opts) w = Inr ()"
    by (rule asks_role_ok [OF role r(3)])
  from g(5) obtain org' m where m: "truthy (event_getOrgId ev w) = Some org'" "org_getMembership org' (u_id u) w = Some m" "needed \<le> ou_role m"
    unfolding verifyOrgRole_ok org by blast
  have "event_getOrgId ev w = Some org'" using m(1) by (simp add: truthy_def split: if_splits)
  moreover have "OrgRole_Admin \<le> ou_role m" if "hq_verb req \<noteq> Verb_GET" "hq_verb req \<noteq> Verb_HEAD" "h \<notin> set member_writes"
    using that d(2) g(4) m(3) by (auto simp: answers_verb_def)
  ultimately show ?thesis using g(2,3) m(2) by blast
qed

text \<open>
  The admin area is the super admins': whatever request with a path below it reaches a handler was
  made in a session of a super admin; no gallery token and no role in an organization opens it.
\<close>

theorem admin_area_is_closed:
  assumes "serve cr req now w = Inr (h, ps, a)" "hq_path req = s # rest" "toLowerCase s = ''admin''"
  shows "\<exists>auth u. a = Some auth \<and> au_user auth = Some u \<and> u_isSuperAdmin u \<and> au_session auth \<noteq> None"
proof -
  from assms(1) obtain r where r: "dispatch (hq_verb req) (hq_path req) = Some (r, ps)"
    "canActivate cr (guard_request req ps) (rt_auth r) now w = Inr a" by (auto simp: serve_ok)
  note d = dispatchD [OF r(1)]
  have ok: "admin_route_ok r" using d(1) admin_routes_ok by (simp add: list_all_iff)
  then obtain l pat where path: "rt_path r = Lit l # pat" "toLowerCase l = ''admin''"
    using d(3) assms(2,3) by (cases "(rt_path r, hq_path req)" rule: match_path.cases) (auto simp: admin_route_ok_def split: if_splits)
  then obtain opts where "rt_auth r = Some opts" "\<not> ao_participant opts" "ao_superAdmin opts"
    using ok by (auto simp: admin_route_ok_def split: option.splits)
  with r(2) obtain auth u where "a = Some auth" "au_user auth = Some u" "u_isSuperAdmin u"
    "validate cr (guard_request req ps) now w = Inr auth"
    by (auto simp: canActivate_ok authenticate_ok)
  moreover from this have "au_session auth \<noteq> None"
    by (auto simp: validate_def Let_def split: option.splits sum.splits)
  ultimately show ?thesis by blast
qed

text \<open>
  C33. Without credentials a request reaches a handler exactly when the handler's route has no guard, and
  those are the routes meant to be public with one exception: the quota of an organization, which is
  answered to anyone although it is meant for its members.
\<close>

theorem anonymous_reach:
  assumes "hq_authorization req = None" "hq_cookie req = None" "hq_galleryTokenHeader req = None" "hq_galleryTokenQuery req = None"
  shows "(serve cr req now w = Inr (h, ps, a) \<longleftrightarrow>
      a = None \<and> (\<exists>r. dispatch (hq_verb req) (hq_path req) = Some (r, ps) \<and> rt_handler r = h \<and> rt_auth r = None))
    \<and> {rt_handler r | r. r \<in> set routes \<and> rt_auth r = None} = insert ''OrganizationController.getQuota'' (set meant_public)"
proof (rule conjI)
  have halves: "set (take 3 meant_public) \<union> set (drop 3 meant_public) = set meant_public" unfolding set_append [symmetric] by simp
  have "validate cr (guard_request req ps) now w = Inr \<lparr>au_user = None, au_session = None, au_participant = None\<rparr>"
    using assms by (simp add: validate_def guard_request_def truthy_def extractSessionToken_def)
  then have "authenticate cr (guard_request req ps) opts now w \<noteq> Inr auth" for opts auth by (simp add: authenticate_def)
  then show "serve cr req now w = Inr (h, ps, a) \<longleftrightarrow>
      a = None \<and> (\<exists>r. dispatch (hq_verb req) (hq_path req) = Some (r, ps) \<and> rt_handler r = h \<and> rt_auth r = None)"
    unfolding serve_ok canActivate_ok by blast
  have "set (map rt_handler (filter (\<lambda>r. rt_auth r = None) routes)) = set (take 3 meant_public @ [''OrganizationController.getQuota''] @ drop 3 meant_public)"
    by (simp only: public_handlers)
  also have "\<dots> = insert ''OrganizationController.getQuota'' (set meant_public)" unfolding halves [symmetric] by simp
  finally show "{rt_handler r | r. r \<in> set routes \<and> rt_auth r = None} = insert ''OrganizationController.getQuota'' (set meant_public)"
    by (auto simp: image_iff)
qed

section \<open>Two handlers with logic of their own\<close>

text \<open>\<^verbatim>\<open>AuthController.setSessionCookie\<close>: the cookie's flags and its lifetime in milliseconds.\<close>

record session_cookie =
  sc_value :: string
  sc_httpOnly :: bool
  sc_sameSite :: string
  sc_secure :: bool
  sc_maxAge :: ms

definition setSessionCookie :: "EnvData \<Rightarrow> string \<Rightarrow> session_cookie" where
  "setSessionCookie e token =
    \<lparr>sc_value = token, sc_httpOnly = True, sc_sameSite = ''lax'', sc_secure = (\<not> isDev e),
     sc_maxAge = en_sessionTtlDays e * 24 * 60 * 60 * 1000\<rparr>"

text \<open>\<^verbatim>\<open>AuthController.login\<close>.\<close>

definition controller_login :: "crypto \<Rightarrow> EnvData \<Rightarrow> uuid \<Rightarrow> string \<Rightarrow> string \<Rightarrow> string \<Rightarrow> string \<times> string \<Rightarrow> ms \<Rightarrow> world
    \<Rightarrow> (LoginResponseDto \<times> session_cookie) outcome \<times> world" where
  "controller_login cr e newId newToken email password details now w =
    (case login cr \<lparr>se_newId = newId, se_token = newToken, se_ttlDays = en_sessionTtlDays e\<rparr> email password details now w of
       (Inl err, w1) \<Rightarrow> (Inl err, w1)
     | (Inr r, w1) \<Rightarrow> (Inr (r, setSessionCookie e (lr_accessToken r)), w1))"

text \<open>\<^verbatim>\<open>OrganizationController.getQuota\<close> behind its route.\<close>

definition serve_quota :: "crypto \<Rightarrow> http_request \<Rightarrow> ms \<Rightarrow> world \<Rightarrow> QuotaStatus outcome" where
  "serve_quota cr req now w =
    (case serve cr req now w of
       Inl e \<Rightarrow> Inl e
     | Inr (h, ps, a) \<Rightarrow>
        if h = ''OrganizationController.getQuota'' then getStatus (the (map_of ps ''orgId'')) w else Inl (NotFound ''Another handler''))"

definition anonymous_get :: "string list \<Rightarrow> http_request" where
  "anonymous_get path = \<lparr>hq_verb = Verb_GET, hq_path = path, hq_authorization = None, hq_cookie = None, hq_galleryTokenHeader = None, hq_galleryTokenQuery = None\<rparr>"

lemma quota_dispatch: "map_option (\<lambda>(r, ps). (rt_handler r, rt_auth r, ps)) (dispatch Verb_GET [''orgs'', c # cs, ''quota'']) = Some (''OrganizationController.getQuota'', None, [(''orgId'', c # cs)])"
  by code_simp

text \<open>
  The quota of any organization is answered to anyone who knows its id, without a session.
\<close>

theorem quota_is_open:
  assumes "org \<noteq> []"
  shows "serve_quota cr (anonymous_get [''orgs'', org, ''quota'']) now w = getStatus org w"
proof -
  obtain c cs where org: "org = c # cs" using assms by (cases org) simp_all
  obtain r ps where "dispatch Verb_GET [''orgs'', c # cs, ''quota''] = Some (r, ps)" "rt_handler r = ''OrganizationController.getQuota''"
    "rt_auth r = None" "ps = [(''orgId'', c # cs)]" using quota_dispatch [of c cs] by auto
  then show ?thesis by (simp add: serve_quota_def serve_def anonymous_get_def org canActivate_def)
qed

text \<open>
  The slideshow's route is not swallowed: \<open>random\<close> reaches its own handler although an asset id of that
  name would fit the route behind it.
\<close>

theorem random_is_not_an_asset:
  "map_option (\<lambda>(r, ps). (rt_handler r, ps)) (dispatch Verb_GET [''events'', c # cs, ''assets'', ''random''])
    = Some (''AssetController.random'', [(''eventId'', c # cs)])"
  by code_simp

text \<open>
  The cookie is the session's: after a login the cookie's token is the one whose digest the session row
  holds, the cookie ends together with the session, and outside of development it travels encrypted only.
\<close>

theorem cookie_lives_as_long_as_session:
  assumes "controller_login cr e i t email password details now w = (Inr (r, c), w')"
  shows "\<exists>s. s \<in> set (sessions w') \<and> s_token s = cr_sha256 cr (sc_value c) \<and> s_expiresAt s = Some (now + sc_maxAge c)
    \<and> sc_httpOnly c \<and> (en_environment e = Environment_Production \<longrightarrow> sc_secure c)"
proof -
  obtain u where "user_getByEmail email w = Some u" "r = fst (createSession cr \<lparr>se_newId = i, se_token = t, se_ttlDays = en_sessionTtlDays e\<rparr> u (u_isSuperAdmin u) details now w)"
    "w' = snd (createSession cr \<lparr>se_newId = i, se_token = t, se_ttlDays = en_sessionTtlDays e\<rparr> u (u_isSuperAdmin u) details now w)"
    "c = setSessionCookie e (lr_accessToken r)"
    using assms by (auto simp: controller_login_def login_def split: option.splits if_splits prod.splits)
  then show ?thesis
    by (intro exI [of _ "last (sessions w')"]) (simp add: createSession_def session_create_def setSessionCookie_def isDev_def)
qed

section \<open>Witnesses\<close>

text \<open>A member and a super admin, by the same token, on an event of the organization.\<close>

definition wit_route_world :: world where
  "wit_route_world = wit_auth_world\<lparr>events := [wit_event]\<rparr>"

definition wit_http :: "http_verb \<Rightarrow> string list \<Rightarrow> http_request" where
  "wit_http v path = (anonymous_get path)\<lparr>hq_verb := v, hq_authorization := Some ''Bearer tok''\<rparr>"

lemma wit_validate: "validate wit_crypto (guard_request (wit_http v path) ps) 5 wit_route_world = Inr wit_auth"
proof -
  have "extractSessionToken (guard_request (wit_http v path) ps) = Inr (Some ''tok'')"
    by (rule token_from_bearer) (simp_all add: guard_request_def wit_http_def anonymous_get_def token_char_def js_space_def)
  moreover have "session_getByToken ''tok'' 5 wit_route_world = Some (wit_session, wit_user)"
    by (simp add: session_getByToken_def user_getById_def wit_route_world_def wit_auth_defs session_live_def)
  ultimately show ?thesis
    by (simp add: validate_def guard_request_def wit_http_def anonymous_get_def truthy_def wit_auth_def wit_crypto_def)
qed

lemma lower_words: "toLowerCase ''events'' = ''events''" "toLowerCase ''admin'' = ''admin''"
  by code_simp+

lemma wit_event_dispatch:
  "map_option (\<lambda>(r, ps). (rt_handler r, rt_auth r, ps)) (dispatch Verb_DELETE [''events'', ''e''])
    = Some (''EventController.removeEvent'', orgRole OrgRole_Admin, [(''eventId'', ''e'')])"
  "map_option (\<lambda>(r, ps). (rt_handler r, rt_auth r, ps)) (dispatch Verb_GET [''admin'', ''stats''])
    = Some (''AdminController.getStats'', superAdmin, [])"
  by code_simp+

lemma wit_serve:
  assumes "map_option (\<lambda>(r, ps). (rt_handler r, rt_auth r, ps)) (dispatch v path) = Some (h, o', ps)"
    and "canActivate wit_crypto (guard_request (wit_http v path) ps) o' 5 wit_route_world = Inr a"
  shows "serve wit_crypto (wit_http v path) 5 wit_route_world = Inr (h, ps, a)"
  using assms by (auto simp: serve_def wit_http_def anonymous_get_def)

lemma wit_event_served:
  "serve wit_crypto (wit_http Verb_DELETE [''events'', ''e'']) 5 wit_route_world = Inr (''EventController.removeEvent'', [(''eventId'', ''e'')], Some wit_auth)"
proof (rule wit_serve [OF wit_event_dispatch(1)])
  let ?req = "guard_request (wit_http Verb_DELETE [''events'', ''e'']) [(''eventId'', ''e'')]"
  have "verifyOrgRole wit_user OrgRole_Admin ?req False wit_route_world = Inr ()"
    by (simp add: verifyOrgRole_def guard_request_def truthy_def org_getMembership_def event_getOrgId_def event_getById_def wit_route_world_def wit_event_def
        wit_auth_defs Let_def)
  then show "canActivate wit_crypto ?req (orgRole OrgRole_Admin) 5 wit_route_world = Inr (Some wit_auth)"
    using wit_validate [of Verb_DELETE "[''events'', ''e'']" "[(''eventId'', ''e'')]"]
    by (simp add: canActivate_def orgRole_def authenticate_def wit_auth_def)
qed

theorem events_belong_to_members_witness:
  "\<exists>m. org_getMembership ''o'' ''u'' wit_route_world = Some m \<and> OrgRole_Admin \<le> ou_role m"
proof -
  have org: "event_getOrgId ''e'' wit_route_world = Some ''o''" by (simp add: event_getOrgId_def event_getById_def wit_route_world_def wit_event_def)
  have "''EventController.removeEvent'' \<notin> set member_writes" by (simp add: member_writes_def)
  then show ?thesis
    using events_belong_to_members [OF wit_event_served, of "''events''" "''e''" "[]"] org
    by (auto simp: wit_http_def anonymous_get_def wit_auth_def wit_user_def lower_words)
qed

theorem admin_area_is_closed_witness: "u_isSuperAdmin wit_user"
proof -
  have "serve wit_crypto (wit_http Verb_GET [''admin'', ''stats'']) 5 wit_route_world = Inr (''AdminController.getStats'', [], Some wit_auth)"
    by (rule wit_serve [OF wit_event_dispatch(2)])
      (use wit_validate [of Verb_GET "[''admin'', ''stats'']" "[]"] in \<open>simp add: canActivate_def superAdmin_def authenticate_def wit_auth_def wit_user_def\<close>)
  from admin_area_is_closed [OF this, of "''admin''" "[''stats'']"] show ?thesis
    by (simp add: wit_http_def anonymous_get_def wit_auth_def lower_words)
qed

theorem anonymous_reach_witness:
  "\<not> (\<exists>h ps a. serve wit_crypto (anonymous_get [''admin'', ''stats'']) 5 wit_route_world = Inr (h, ps, a))"
  using wit_event_dispatch(2) anonymous_reach [of "anonymous_get [''admin'', ''stats'']" wit_crypto 5 wit_route_world]
  by (auto simp: anonymous_get_def superAdmin_def)

theorem quota_is_open_witness: "serve_quota wit_crypto (anonymous_get [''orgs'', ''o'', ''quota'']) 5 wit_org_world = getStatus ''o'' wit_org_world"
  by (rule quota_is_open) simp

theorem cookie_lives_as_long_as_session_witness:
  "\<exists>e s. s \<in> set (sessions (snd (controller_login wit_crypto e ''s1'' ''t'' ''a@b'' ''pw'' ('''', '''') 5 wit_auth_world))) \<and> s_token s = ''t''"
proof -
  obtain e where "getEnv wit_codec_env wit_main = Inr e" using wit_starts by blast
  obtain r c w' where run: "controller_login wit_crypto e ''s1'' ''t'' ''a@b'' ''pw'' ('''', '''') 5 wit_auth_world = (Inr (r, c), w')"
    "sc_value c = ''t''"
    by (simp add: controller_login_def login_def user_getByEmail_def createSession_def setSessionCookie_def wit_auth_defs)
  have "cr_sha256 wit_crypto (sc_value c) = ''t''" by (simp add: run(2) wit_crypto_def)
  with cookie_lives_as_long_as_session [OF run(1)] obtain s where "s \<in> set (sessions w')" "s_token s = ''t''" by auto
  with run(1) show ?thesis by (metis snd_conv)
qed

end
