(* ===== verification/BrowserUploads.thy ===== *)
theory BrowserUploads
  imports Prelude
begin

text \<open>
  \<^verbatim>\<open>apps/web/src/lib/uploads.svelte.ts\<close>: the upload queue of the browser as a state machine. A
  step is what runs between two waits: a drop of files, an answer to one of the requests in flight, a
  progress event, a timer, a click on the panel's button (which is shown only when no upload remains) or
  a page that collects what has arrived. What a worker does after an answer, including the end of its
  batch, runs before the browser handles the next event, so it belongs to the same step.

  A batch keeps the files no worker has taken yet (\<^verbatim>\<open>files\<close> and \<^verbatim>\<open>batch\<close> from the cursor on)
  and the files its workers are busy with.
\<close>

section \<open>State\<close>

datatype UploadState = Upload_pending | Upload_hashing | Upload_uploading | Upload_done | Upload_duplicate | Upload_error

record UploadItem =
  ui_id :: nat
  ui_name :: string
  ui_state :: UploadState
  ui_progress :: int
  ui_error :: "string option"

record picked_file =
  pf_name :: string
  pf_isVideo :: bool
  pf_url :: string

record fresh_asset =
  fa_id :: uuid
  fa_isVideo :: bool
  fa_originalFilename :: string
  fa_createdAt :: ms
  fa_thumbUrl :: string

record batch =
  ub_eventId :: uuid
  ub_waiting :: "(nat \<times> picked_file) list"
  ub_busy :: "(nat \<times> picked_file \<times> UploadState) list"

text \<open>The timers that will still fire, and the one the store remembers.\<close>

record UploadStore =
  us_items :: "UploadItem list"
  us_nextId :: nat
  us_dismissTimer :: "nat option"
  us_armed :: "nat list"
  us_nextTimer :: nat
  us_duplicates :: nat
  us_fresh :: "uuid \<Rightarrow> fresh_asset list"
  us_batches :: "batch list"

definition UPLOAD_CONCURRENCY :: nat where
  "UPLOAD_CONCURRENCY = 3"

definition empty_store :: UploadStore where
  "empty_store = \<lparr>us_items = [], us_nextId = 0, us_dismissTimer = None, us_armed = [], us_nextTimer = 1, us_duplicates = 0,
     us_fresh = (\<lambda>_. []), us_batches = []\<rparr>"

section \<open>Operations\<close>

definition in_progress :: "UploadState \<Rightarrow> bool" where
  "in_progress s \<longleftrightarrow> s = Upload_pending \<or> s = Upload_hashing \<or> s = Upload_uploading"

definition hasActive :: "UploadStore \<Rightarrow> bool" where
  "hasActive st \<longleftrightarrow> (\<exists>x \<in> set (us_items st). in_progress (ui_state x))"

definition activeCount :: "UploadStore \<Rightarrow> nat" where
  "activeCount st = length (filter (\<lambda>x. in_progress (ui_state x)) (us_items st))"

definition drop_item :: "nat \<Rightarrow> UploadItem list \<Rightarrow> UploadItem list" where
  "drop_item i = filter (\<lambda>x. ui_id x \<noteq> i)"

text \<open>\<^verbatim>\<open>#patch\<close>: the first item with the id.\<close>

fun patch :: "nat \<Rightarrow> (UploadItem \<Rightarrow> UploadItem) \<Rightarrow> UploadItem list \<Rightarrow> UploadItem list" where
  "patch i f [] = []"
| "patch i f (x # xs) = (if ui_id x = i then f x # xs else x # patch i f xs)"

definition dismiss :: "UploadStore \<Rightarrow> UploadStore" where
  "dismiss st = st\<lparr>us_items := [], us_duplicates := 0\<rparr>"

definition takeFresh :: "uuid \<Rightarrow> UploadStore \<Rightarrow> fresh_asset list \<times> UploadStore" where
  "takeFresh ev st = (us_fresh st ev, st\<lparr>us_fresh := (us_fresh st)(ev := [])\<rparr>)"

text \<open>A worker's loop up to its next wait: it takes a file, or ends when none is left.\<close>

definition next_file :: "batch \<Rightarrow> UploadItem list \<Rightarrow> batch \<times> UploadItem list" where
  "next_file b items =
    (case ub_waiting b of
       [] \<Rightarrow> (b, items)
     | (i, file) # rest \<Rightarrow>
         (b\<lparr>ub_waiting := rest, ub_busy := ub_busy b @ [(i, file, Upload_hashing)]\<rparr>,
          patch i (\<lambda>x. x\<lparr>ui_state := Upload_hashing\<rparr>) items))"

primrec start_workers :: "nat \<Rightarrow> batch \<Rightarrow> UploadItem list \<Rightarrow> batch \<times> UploadItem list" where
  "start_workers 0 b items = (b, items)"
| "start_workers (Suc n) b items = (case next_file b items of (b', items') \<Rightarrow> start_workers n b' items')"

definition clear_timer :: "UploadStore \<Rightarrow> UploadStore" where
  "clear_timer st =
    (case us_dismissTimer st of
       None \<Rightarrow> st
     | Some t \<Rightarrow> st\<lparr>us_dismissTimer := None, us_armed := filter (\<lambda>u. u \<noteq> t) (us_armed st)\<rparr>)"

definition enqueue :: "uuid \<Rightarrow> picked_file list \<Rightarrow> UploadStore \<Rightarrow> UploadStore" where
  "enqueue ev files st =
    (if files = [] then st
     else let st1 = clear_timer st;
              ids = [us_nextId st ..< us_nextId st + length files];
              items = map (\<lambda>(i, f). \<lparr>ui_id = i, ui_name = pf_name f, ui_state = Upload_pending, ui_progress = 0, ui_error = None\<rparr>) (zip ids files)
                        @ us_items st;
              b = \<lparr>ub_eventId = ev, ub_waiting = zip ids files, ub_busy = []\<rparr>
          in case start_workers (min UPLOAD_CONCURRENCY (length files)) b items of
               (b', items') \<Rightarrow>
                 st1\<lparr>us_items := items', us_nextId := us_nextId st + length files, us_duplicates := 0, us_batches := us_batches st @ [b']\<rparr>)"

text \<open>The worker busy with an item is through with it; \<open>True\<close> when its batch ends with it.\<close>

fun advance :: "nat \<Rightarrow> batch list \<Rightarrow> UploadItem list \<Rightarrow> batch list \<times> UploadItem list \<times> bool" where
  "advance i [] items = ([], items, False)"
| "advance i (b # bs) items =
    (if i \<in> fst ` set (ub_busy b)
     then (case next_file (b\<lparr>ub_busy := filter (\<lambda>x. fst x \<noteq> i) (ub_busy b)\<rparr>) items of
             (b', items') \<Rightarrow> if ub_busy b' = [] then (bs, items', True) else (b' # bs, items', False))
     else (case advance i bs items of (bs', items', ended) \<Rightarrow> (b # bs', items', ended)))"

definition settle_upload :: "nat \<Rightarrow> UploadStore \<Rightarrow> UploadStore" where
  "settle_upload i st =
    (case advance i (us_batches st) (us_items st) of
       (bs, items, ended) \<Rightarrow>
         let st1 = st\<lparr>us_batches := bs, us_items := items\<rparr>
         in if ended \<and> (\<forall>x \<in> set items. ui_state x = Upload_done)
            then st1\<lparr>us_dismissTimer := Some (us_nextTimer st), us_armed := us_armed st @ [us_nextTimer st], us_nextTimer := us_nextTimer st + 1\<rparr>
            else st1)"

datatype check_answer = Check_reject | Check_accept | Check_failed string
datatype send_answer = Send_duplicate | Send_created uuid ms | Send_failed string

definition find_busy :: "nat \<Rightarrow> UploadStore \<Rightarrow> (uuid \<times> picked_file \<times> UploadState) option" where
  "find_busy i st =
    map_of (concat (map (\<lambda>b. map (\<lambda>(j, f, s). (j, ub_eventId b, f, s)) (ub_busy b)) (us_batches st))) i"

definition duplicate_found :: "nat \<Rightarrow> UploadStore \<Rightarrow> UploadStore" where
  "duplicate_found i st = settle_upload i (st\<lparr>us_items := drop_item i (us_items st), us_duplicates := us_duplicates st + 1\<rparr>)"

definition upload_failed :: "nat \<Rightarrow> string \<Rightarrow> UploadStore \<Rightarrow> UploadStore" where
  "upload_failed i e st = settle_upload i (st\<lparr>us_items := patch i (\<lambda>x. x\<lparr>ui_state := Upload_error, ui_error := Some e\<rparr>) (us_items st)\<rparr>)"

text \<open>After the hash and the preflight check.\<close>

definition checked :: "nat \<Rightarrow> check_answer \<Rightarrow> UploadStore \<Rightarrow> UploadStore" where
  "checked i answer st =
    (case answer of
       Check_reject \<Rightarrow> duplicate_found i st
     | Check_failed e \<Rightarrow> upload_failed i e st
     | Check_accept \<Rightarrow>
         st\<lparr>us_items := patch i (\<lambda>x. x\<lparr>ui_state := Upload_uploading, ui_progress := 0\<rparr>) (us_items st),
            us_batches := map (\<lambda>b. b\<lparr>ub_busy := map (\<lambda>(j, f, s). (j, f, if j = i then Upload_uploading else s)) (ub_busy b)\<rparr>) (us_batches st)\<rparr>)"

text \<open>After the upload.\<close>

definition sent :: "nat \<Rightarrow> uuid \<Rightarrow> picked_file \<Rightarrow> send_answer \<Rightarrow> UploadStore \<Rightarrow> UploadStore" where
  "sent i ev file answer st =
    (case answer of
       Send_duplicate \<Rightarrow> duplicate_found i st
     | Send_failed e \<Rightarrow> upload_failed i e st
     | Send_created a now \<Rightarrow>
         settle_upload i (st\<lparr>us_items := patch i (\<lambda>x. x\<lparr>ui_state := Upload_done, ui_progress := 100\<rparr>) (us_items st),
                      us_fresh := (us_fresh st)(ev := \<lparr>fa_id = a, fa_isVideo = pf_isVideo file, fa_originalFilename = pf_name file,
                                                       fa_createdAt = now, fa_thumbUrl = pf_url file\<rparr> # us_fresh st ev)\<rparr>))"

definition progressed :: "nat \<Rightarrow> int \<Rightarrow> UploadStore \<Rightarrow> UploadStore" where
  "progressed i percent st = st\<lparr>us_items := patch i (\<lambda>x. x\<lparr>ui_progress := percent\<rparr>) (us_items st)\<rparr>"

section \<open>The state machine\<close>

datatype ui_act = Dropped uuid "picked_file list" | Checked nat check_answer | Sent nat send_answer | Progressed nat int
  | Timer_fired nat | Dismiss_clicked | Collected uuid

inductive ui_step :: "UploadStore \<Rightarrow> ui_act \<Rightarrow> UploadStore \<Rightarrow> bool" where
  dropped: "ui_step st (Dropped ev files) (enqueue ev files st)"
| checked: "find_busy i st = Some (ev, file, Upload_hashing) \<Longrightarrow> ui_step st (Checked i answer) (checked i answer st)"
| sent: "find_busy i st = Some (ev, file, Upload_uploading) \<Longrightarrow> ui_step st (Sent i answer) (sent i ev file answer st)"
| progressed: "find_busy i st = Some (ev, file, Upload_uploading) \<Longrightarrow> ui_step st (Progressed i percent) (progressed i percent st)"
| timer_fired: "t \<in> set (us_armed st) \<Longrightarrow> ui_step st (Timer_fired t) (dismiss (st\<lparr>us_armed := filter (\<lambda>u. u \<noteq> t) (us_armed st)\<rparr>))"
| dismiss_clicked: "\<not> hasActive st \<Longrightarrow> ui_step st Dismiss_clicked (dismiss st)"
| collected: "ui_step st (Collected ev) (snd (takeFresh ev st))"

abbreviation ui_reachable :: "UploadStore \<Rightarrow> bool" where
  "ui_reachable \<equiv> reachable (\<lambda>st. st = empty_store) ui_step"

section \<open>Rows and work agree\<close>

definition batch_work :: "batch \<Rightarrow> (nat \<times> UploadState) list" where
  "batch_work b = map (\<lambda>(i, f). (i, Upload_pending)) (ub_waiting b) @ map (\<lambda>(i, f, s). (i, s)) (ub_busy b)"

definition work :: "batch list \<Rightarrow> (nat \<times> UploadState) list" where
  "work bs = concat (map batch_work bs)"

definition active_rows :: "UploadItem list \<Rightarrow> (nat \<times> UploadState) set" where
  "active_rows items = {(ui_id x, ui_state x) | x. x \<in> set items \<and> in_progress (ui_state x)}"

definition except :: "nat \<Rightarrow> (nat \<times> UploadState) set \<Rightarrow> (nat \<times> UploadState) set" where
  "except i S = {p \<in> S. fst p \<noteq> i}"

definition batch_ok :: "batch \<Rightarrow> bool" where
  "batch_ok b \<longleftrightarrow> ub_busy b \<noteq> [] \<and> length (ub_busy b) \<le> UPLOAD_CONCURRENCY
     \<and> (ub_waiting b \<noteq> [] \<longrightarrow> length (ub_busy b) = UPLOAD_CONCURRENCY)
     \<and> (\<forall>(i, f, s) \<in> set (ub_busy b). s = Upload_hashing \<or> s = Upload_uploading)"

lemma work_simps [simp]: "work [] = []" "work (b # bs) = batch_work b @ work bs" "work (bs @ cs) = work bs @ work cs"
  by (simp_all add: work_def)

lemma batch_work_ids: "map fst (batch_work b) = map fst (ub_waiting b) @ map fst (ub_busy b)"
  by (auto simp: batch_work_def)

lemma except_fresh: "i \<notin> fst ` S \<Longrightarrow> except i S = S"
  by (force simp: except_def)

lemma except_simps:
  "except i {} = {}" "except i (insert p S) = (if fst p = i then except i S else insert p (except i S))"
  "except i (S \<union> T) = except i S \<union> except i T"
  unfolding except_def by auto

lemma patch_ids [simp]: "(\<And>x. ui_id (f x) = ui_id x) \<Longrightarrow> map ui_id (patch i f xs) = map ui_id xs"
  by (induction xs) simp_all

lemma active_rows_simps [simp]:
  "active_rows [] = {}"
  "active_rows (x # xs) = (if in_progress (ui_state x) then insert (ui_id x, ui_state x) (active_rows xs) else active_rows xs)"
  by (auto simp: active_rows_def)

lemma active_rows_append [simp]: "active_rows (xs @ ys) = active_rows xs \<union> active_rows ys"
  by (auto simp: active_rows_def)

lemma active_ids: "fst ` active_rows xs \<subseteq> ui_id ` set xs"
  by (auto simp: active_rows_def)

lemma active_drop: "active_rows (drop_item i xs) = except i (active_rows xs)"
  by (induction xs) (simp_all add: drop_item_def except_simps)

lemma active_patch:
  assumes "\<And>x. ui_id (f x) = ui_id x" "\<And>x. ui_state (f x) = s" "distinct (map ui_id xs)"
  shows "active_rows (patch i f xs) = except i (active_rows xs) \<union> (if i \<in> ui_id ` set xs \<and> in_progress s then {(i, s)} else {})"
  using assms(3)
proof (induction xs)
  case (Cons x xs)
  show ?case
  proof (cases "ui_id x = i")
    case True
    with Cons.prems active_ids [of xs] have "i \<notin> fst ` active_rows xs" by auto
    from except_fresh [OF this] True show ?thesis by (simp add: assms(1,2) except_simps)
  next
    case False
    with Cons show ?thesis by (simp add: except_simps)
  qed
qed (simp add: except_simps)

lemma active_patch_progress:
  assumes "\<And>x. ui_id (f x) = ui_id x" "\<And>x. ui_state (f x) = ui_state x"
  shows "active_rows (patch i f xs) = active_rows xs"
  by (induction xs) (simp_all add: assms)

lemma distinct_drop: "distinct (map ui_id xs) \<Longrightarrow> distinct (map ui_id (drop_item i xs))"
  by (simp add: drop_item_def distinct_map_filter)

lemma next_file_sync:
  assumes "next_file b items = (b', items')" "distinct (map ui_id items)" "set (batch_work b) \<union> W = active_rows items"
    and "distinct (map fst (batch_work b))" "fst ` W \<inter> fst ` set (batch_work b) = {}"
  shows "set (batch_work b') \<union> W = active_rows items'" "mset (map fst (batch_work b')) = mset (map fst (batch_work b))"
    "map ui_id items' = map ui_id items"
proof -
  have "set (batch_work b') \<union> W = active_rows items' \<and> mset (map fst (batch_work b')) = mset (map fst (batch_work b))
      \<and> map ui_id items' = map ui_id items"
  proof (cases "ub_waiting b")
    case Nil
    with assms(1,3) show ?thesis by (simp add: next_file_def)
  next
    case (Cons p rest)
    obtain i f where p: "p = (i, f)" by (cases p)
    have new: "b' = b\<lparr>ub_waiting := rest, ub_busy := ub_busy b @ [(i, f, Upload_hashing)]\<rparr>"
      "items' = patch i (\<lambda>x. x\<lparr>ui_state := Upload_hashing\<rparr>) items"
      using assms(1) by (auto simp: next_file_def Cons p)
    define R where "R = set (batch_work (b\<lparr>ub_waiting := rest\<rparr>)) \<union> W"
    have old: "set (batch_work b) \<union> W = insert (i, Upload_pending) R" and now: "set (batch_work b') \<union> W = insert (i, Upload_hashing) R"
      by (auto simp: R_def new batch_work_def Cons p)
    have "i \<notin> fst ` set (batch_work (b\<lparr>ub_waiting := rest\<rparr>))" "i \<notin> fst ` W"
      using assms(4,5) by (auto simp: batch_work_ids Cons p simp flip: set_map)
    then have fresh: "i \<notin> fst ` R" by (auto simp: R_def)
    have "i \<in> ui_id ` set items" using active_ids [of items] assms(3) old by force
    then have "active_rows items' = insert (i, Upload_hashing) (except i (insert (i, Upload_pending) R))"
      using active_patch [of "\<lambda>x. x\<lparr>ui_state := Upload_hashing\<rparr>" Upload_hashing items i] assms(2)
      by (simp add: new(2) in_progress_def assms(3) [symmetric] old)
    also have "except i (insert (i, Upload_pending) R) = R" using except_fresh [OF fresh] by (simp add: except_simps)
    finally have "set (batch_work b') \<union> W = active_rows items'" by (simp only: now)
    moreover have "mset (map fst (batch_work b')) = mset (map fst (batch_work b))" unfolding batch_work_ids by (simp add: new(1) Cons p)
    moreover have "map ui_id items' = map ui_id items" unfolding new(2) by simp
    ultimately show ?thesis by blast
  qed
  then show "set (batch_work b') \<union> W = active_rows items'" "mset (map fst (batch_work b')) = mset (map fst (batch_work b))"
    "map ui_id items' = map ui_id items" by simp_all
qed

lemma same_keys:
  assumes "mset (map fst xs) = mset (map fst ys)"
  shows "fst ` set xs = fst ` set ys" "distinct (map fst xs) \<longleftrightarrow> distinct (map fst ys)"
  using assms by (metis set_map set_mset_mset) (rule mset_eq_imp_distinct_iff [OF assms])

definition phases_ok :: "batch \<Rightarrow> bool" where
  "phases_ok b \<longleftrightarrow> (\<forall>p \<in> set (ub_busy b). snd (snd p) = Upload_hashing \<or> snd (snd p) = Upload_uploading)"

lemma batch_ok_iff:
  "batch_ok b \<longleftrightarrow> ub_busy b \<noteq> [] \<and> length (ub_busy b) \<le> 3 \<and> (ub_waiting b \<noteq> [] \<longrightarrow> length (ub_busy b) = 3) \<and> phases_ok b"
  by (simp add: batch_ok_def phases_ok_def UPLOAD_CONCURRENCY_def split_def)

lemma next_file_shape:
  assumes "next_file b items = (b', items')"
  shows "ub_waiting b' = tl (ub_waiting b)" "length (ub_busy b') = length (ub_busy b) + (if ub_waiting b = [] then 0 else 1)"
    "phases_ok b \<Longrightarrow> phases_ok b'"
  using assms by (cases "ub_waiting b"; auto simp: next_file_def phases_ok_def)+

lemma start_workers_sync:
  assumes "start_workers n b items = (b', items')" "distinct (map ui_id items)" "set (batch_work b) \<union> W = active_rows items"
    and "distinct (map fst (batch_work b))" "fst ` W \<inter> fst ` set (batch_work b) = {}" "n \<le> length (ub_waiting b)" "phases_ok b"
  shows "set (batch_work b') \<union> W = active_rows items' \<and> mset (map fst (batch_work b')) = mset (map fst (batch_work b))
    \<and> map ui_id items' = map ui_id items \<and> ub_waiting b' = drop n (ub_waiting b) \<and> length (ub_busy b') = length (ub_busy b) + n \<and> phases_ok b'"
  using assms
proof (induction n arbitrary: b items)
  case (Suc n)
  obtain b1 items1 where n: "next_file b items = (b1, items1)" by (cases "next_file b items")
  note s = next_file_sync [OF n Suc.prems(2-5)] and shape = next_file_shape [OF n] and k = same_keys [OF s(2)]
  have "ub_waiting b \<noteq> []" using Suc.prems(6) by auto
  moreover have "start_workers n b1 items1 = (b', items')" using Suc.prems(1) n by simp
  then have "set (batch_work b') \<union> W = active_rows items' \<and> mset (map fst (batch_work b')) = mset (map fst (batch_work b1))
    \<and> map ui_id items' = map ui_id items1 \<and> ub_waiting b' = drop n (ub_waiting b1) \<and> length (ub_busy b') = length (ub_busy b1) + n \<and> phases_ok b'"
    using Suc.prems s k shape by (intro Suc.IH) simp_all
  ultimately show ?case using s shape by (simp add: drop_Suc)
qed simp

lemma length_remove_key: "distinct (map fst xs) \<Longrightarrow> i \<in> fst ` set xs \<Longrightarrow> length (filter (\<lambda>x. fst x \<noteq> i) xs) = length xs - 1"
proof (induction xs)
  case (Cons x xs)
  show ?case
  proof (cases "fst x = i")
    case True
    with Cons.prems have "i \<notin> fst ` set xs" by simp
    then have "filter (\<lambda>x. fst x \<noteq> i) xs = xs" by (auto simp: filter_id_conv)
    with True show ?thesis by simp
  next
    case False
    with Cons have "xs \<noteq> []" by auto
    with False Cons show ?thesis by (cases xs) auto
  qed
qed simp

lemma advance_sync:
  assumes "advance i bs items = (bs', items', ended)" "distinct (map ui_id items)" "W \<union> except i (set (work bs)) = active_rows items"
    and "distinct (map fst (work bs))" "fst ` W \<inter> fst ` set (work bs) = {}"
    and "\<exists>b \<in> set bs. i \<in> fst ` set (ub_busy b)" "\<forall>b \<in> set bs. batch_ok b"
  shows "W \<union> set (work bs') = active_rows items' \<and> distinct (map fst (work bs')) \<and> fst ` set (work bs') \<subseteq> fst ` set (work bs)
    \<and> map ui_id items' = map ui_id items \<and> (\<forall>b \<in> set bs'. batch_ok b) \<and> length bs' = length bs - (if ended then 1 else 0)"
  using assms
proof (induction bs arbitrary: bs' W items' ended)
  case (Cons b bs)
  show ?case
  proof (cases "i \<in> fst ` set (ub_busy b)")
    case True
    let ?b = "b\<lparr>ub_busy := filter (\<lambda>x. fst x \<noteq> i) (ub_busy b)\<rparr>"
    obtain b1 items1 where n: "next_file ?b items = (b1, items1)" by (cases "next_file ?b items")
    have d: "distinct (map fst (ub_busy b))" "i \<notin> fst ` set (ub_waiting b)" "i \<notin> fst ` set (work bs)"
      using Cons.prems(4) True by (auto simp: batch_work_ids)
    have left: "set (batch_work ?b) = except i (set (batch_work b))"
      using d(2) by (auto simp: batch_work_def except_def) force+
    have "set (batch_work ?b) \<union> (W \<union> set (work bs)) = active_rows items"
      using Cons.prems(3) except_fresh [OF d(3)] by (simp add: left except_simps Un_ac)
    moreover have "distinct (map fst (batch_work ?b))"
      using Cons.prems(4) by (auto simp: batch_work_ids distinct_map_filter)
    moreover have "fst ` (W \<union> set (work bs)) \<inter> fst ` set (batch_work ?b) = {}"
      using Cons.prems(4,5) unfolding left by (auto simp: except_def)
    ultimately have s: "set (batch_work b1) \<union> (W \<union> set (work bs)) = active_rows items1"
      "mset (map fst (batch_work b1)) = mset (map fst (batch_work ?b))" "map ui_id items1 = map ui_id items"
      using next_file_sync [OF n Cons.prems(2)] by blast+
    note k = same_keys [OF s(2)] and shape = next_file_shape [OF n]
    have len: "length (filter (\<lambda>x. fst x \<noteq> i) (ub_busy b)) = length (ub_busy b) - 1" by (rule length_remove_key [OF d(1) True])
    have ok: "batch_ok b" using Cons.prems(7) by simp
    then have "phases_ok ?b" by (simp add: batch_ok_iff phases_ok_def)
    with shape have ph: "phases_ok b1" by simp
    have ids: "fst ` set (batch_work b1) = fst ` except i (set (batch_work b))" using k(1) left by simp
    show ?thesis
    proof (cases "ub_busy b1 = []")
      case True
      with shape(2) have "batch_work b1 = []" using shape(1) by (simp add: batch_work_def split: if_splits)
      moreover have "bs' = bs" "items' = items1" "ended" using Cons.prems(1) n True \<open>i \<in> fst ` set (ub_busy b)\<close> by simp_all
      ultimately show ?thesis using s Cons.prems(4,7) by auto
    next
      case False
      have new: "bs' = b1 # bs" "items' = items1" "\<not> ended" using Cons.prems(1) n False True by simp_all
      have "batch_ok b1"
        using ok ph shape len False by (auto simp: batch_ok_iff split: if_splits)
      moreover have "distinct (map fst (work bs'))"
        using Cons.prems(4) k(2) \<open>distinct (map fst (batch_work ?b))\<close> ids by (auto simp: new except_def)
      moreover have "fst ` set (work bs') \<subseteq> fst ` set (work (b # bs))" using ids by (auto simp: new except_def)
      ultimately show ?thesis using s Cons.prems(7) by (auto simp: new)
    qed
  next
    case False
    obtain bs1 items1 e where r: "advance i bs items = (bs1, items1, e)" by (rule prod_cases3)
    have new: "bs' = b # bs1" "items' = items1" "ended = e" using Cons.prems(1) False r by simp_all
    obtain b' where b': "b' \<in> set bs" "i \<in> fst ` set (ub_busy b')" using Cons.prems(6) False by auto
    then have "i \<in> fst ` set (work bs)" by (force simp: work_def batch_work_def)
    then have fresh: "i \<notin> fst ` set (batch_work b)" using Cons.prems(4) by auto
    have "(W \<union> set (batch_work b)) \<union> set (work bs1) = active_rows items1 \<and> distinct (map fst (work bs1)) \<and> fst ` set (work bs1) \<subseteq> fst ` set (work bs)
      \<and> map ui_id items1 = map ui_id items \<and> (\<forall>b \<in> set bs1. batch_ok b) \<and> length bs1 = length bs - (if e then 1 else 0)"
    proof (rule Cons.IH [OF r Cons.prems(2)])
      show "W \<union> set (batch_work b) \<union> except i (set (work bs)) = active_rows items"
        using Cons.prems(3) except_fresh [OF fresh] by (simp add: except_simps Un_ac)
      show "fst ` (W \<union> set (batch_work b)) \<inter> fst ` set (work bs) = {}" using Cons.prems(4,5) by auto
    qed (use Cons.prems b' in auto)
    moreover have "length bs > 0" using b'(1) by (cases bs) auto
    moreover have "fst ` set (batch_work b) \<inter> fst ` set (work bs) = {}" using Cons.prems(4) by simp
    moreover from calculation have "fst ` set (batch_work b) \<inter> fst ` set (work bs1) = {}" by blast
    ultimately show ?thesis using Cons.prems(4,7) by (simp add: new Un_ac) blast
  qed
qed simp

text \<open>
  The invariant: the rows still in progress are exactly the files that some batch still has, and while a
  batch is under way no timer is armed that could clear the list.
\<close>

definition queue_ok :: "UploadStore \<Rightarrow> bool" where
  "queue_ok st \<longleftrightarrow> distinct (map ui_id (us_items st)) \<and> (\<forall>x \<in> set (us_items st). ui_id x < us_nextId st)
     \<and> active_rows (us_items st) = set (work (us_batches st)) \<and> distinct (map fst (work (us_batches st)))
     \<and> (\<forall>b \<in> set (us_batches st). batch_ok b)
     \<and> (us_armed st \<noteq> [] \<longrightarrow> us_batches st = [] \<and> (\<exists>t. us_dismissTimer st = Some t \<and> us_armed st = [t]))"

lemma hasActive_rows: "hasActive st \<longleftrightarrow> active_rows (us_items st) \<noteq> {}"
  by (auto simp: hasActive_def active_rows_def)

lemma work_empty: "(\<forall>b \<in> set bs. batch_ok b) \<Longrightarrow> work bs = [] \<longleftrightarrow> bs = []"
  by (cases bs) (auto simp: batch_ok_iff batch_work_def)

lemma queue_ok_active: "queue_ok st \<Longrightarrow> hasActive st \<longleftrightarrow> us_batches st \<noteq> []"
  by (simp add: hasActive_rows queue_ok_def work_empty)

lemma done_rows: "(\<forall>x \<in> set items. ui_state x = Upload_done) \<Longrightarrow> active_rows items = {}"
  by (auto simp: active_rows_def in_progress_def)

text \<open>Settling a row that is no longer in progress in the list.\<close>

lemma settle_ok:
  assumes "active_rows (us_items st) = except i (set (work (us_batches st)))" "distinct (map ui_id (us_items st))"
    and "\<forall>x \<in> set (us_items st). ui_id x < us_nextId st" "distinct (map fst (work (us_batches st)))" "\<forall>b \<in> set (us_batches st). batch_ok b"
    and "\<exists>b \<in> set (us_batches st). i \<in> fst ` set (ub_busy b)" "us_armed st = []"
  shows "queue_ok (settle_upload i st)"
proof -
  obtain bs items e where r: "advance i (us_batches st) (us_items st) = (bs, items, e)" by (rule prod_cases3)
  have s: "set (work bs) = active_rows items \<and> distinct (map fst (work bs)) \<and> map ui_id items = map ui_id (us_items st)
      \<and> (\<forall>b \<in> set bs. batch_ok b)"
    using advance_sync [OF r assms(2), of "{}"] assms(1,4,5,6) by simp
  then have "set (map ui_id items) = set (map ui_id (us_items st))" by simp
  with assms(3) have small: "\<forall>x \<in> set items. ui_id x < us_nextId st" unfolding set_map by (metis (no_types, lifting) image_iff)
  have "active_rows items = {} \<and> bs = []" if "\<forall>x \<in> set items. ui_state x = Upload_done"
    using done_rows [OF that] s work_empty [of bs] by simp
  moreover have "distinct (map ui_id items)" using s assms(2) by metis
  ultimately show ?thesis using s small assms(7) by (simp add: settle_upload_def r queue_ok_def Let_def)
qed

lemma find_busy_work:
  assumes "find_busy i st = Some (ev, f, s)"
  shows "\<exists>b \<in> set (us_batches st). ub_eventId b = ev \<and> (i, f, s) \<in> set (ub_busy b)" "(i, s) \<in> set (work (us_batches st))"
    "us_batches st \<noteq> []"
proof -
  have "(i, ev, f, s) \<in> set (concat (map (\<lambda>b. map (\<lambda>(j, f, s). (j, ub_eventId b, f, s)) (ub_busy b)) (us_batches st)))"
    using assms unfolding find_busy_def by (rule map_of_SomeD)
  then show "\<exists>b \<in> set (us_batches st). ub_eventId b = ev \<and> (i, f, s) \<in> set (ub_busy b)" by auto
  then show "(i, s) \<in> set (work (us_batches st))" "us_batches st \<noteq> []" by (force simp: work_def batch_work_def)+
qed

lemma work_at_most_once: "distinct (map fst (work bs)) \<Longrightarrow> (i, s) \<in> set (work bs) \<Longrightarrow> set (work bs) = insert (i, s) (except i (set (work bs)))"
  by (auto simp: except_def dest: eq_key_imp_eq_value)

lemma queue_ok_clear: "queue_ok st \<Longrightarrow> us_armed (clear_timer st) = []"
  by (cases "us_armed st = []") (auto simp: queue_ok_def clear_timer_def split: option.splits)

lemma clear_timer_frames [simp]:
  "us_items (clear_timer st) = us_items st" "us_nextId (clear_timer st) = us_nextId st" "us_batches (clear_timer st) = us_batches st"
  by (simp_all add: clear_timer_def split: option.splits)

lemma enqueue_ok:
  assumes "queue_ok st"
  shows "queue_ok (enqueue ev files st)"
proof (cases "files = []")
  case False
  define ids where "ids = [us_nextId st ..< us_nextId st + length files]"
  define items where "items = map (\<lambda>(i, f). \<lparr>ui_id = i, ui_name = pf_name f, ui_state = Upload_pending, ui_progress = 0, ui_error = None\<rparr>) (zip ids files)
      @ us_items st"
  define b where "b = \<lparr>ub_eventId = ev, ub_waiting = zip ids files, ub_busy = []\<rparr>"
  obtain b' items' where r: "start_workers (min UPLOAD_CONCURRENCY (length files)) b items = (b', items')"
    by (cases "start_workers (min UPLOAD_CONCURRENCY (length files)) b items")
  have len: "length ids = length files" by (simp add: ids_def)
  have ids_new: "map ui_id items = ids @ map ui_id (us_items st)"
    using len by (simp add: items_def comp_def split_def)
  have keys: "fst ` set (work (us_batches st)) \<subseteq> ui_id ` set (us_items st)"
    using assms active_ids [of "us_items st"] by (simp add: queue_ok_def)
  have low: "ui_id ` set (us_items st) \<inter> set ids = {}" using assms by (auto simp: queue_ok_def ids_def)
  have d: "distinct (map ui_id items)" using assms low by (auto simp: ids_new queue_ok_def ids_def)
  have w: "map fst (batch_work b) = ids" using len by (simp add: batch_work_ids b_def)
  have rows: "active_rows (map (\<lambda>(i, f). \<lparr>ui_id = i, ui_name = pf_name f, ui_state = Upload_pending, ui_progress = 0, ui_error = None\<rparr>) ps)
      = (\<lambda>(i, f). (i, Upload_pending)) ` set ps" for ps
    by (induction ps) (auto simp: in_progress_def)
  have "set (batch_work b) \<union> set (work (us_batches st)) = active_rows items"
    using assms by (simp add: items_def rows batch_work_def b_def queue_ok_def)
  moreover have "fst ` set (work (us_batches st)) \<inter> fst ` set (batch_work b) = {}"
    using keys low w by (metis (no_types, lifting) disjoint_iff list.set_map subsetD)
  moreover have "min UPLOAD_CONCURRENCY (length files) \<le> length (ub_waiting b)" using len by (simp add: b_def)
  moreover have "distinct (map fst (batch_work b))" "phases_ok b" unfolding w by (simp_all add: ids_def b_def phases_ok_def)
  ultimately have sync: "set (batch_work b') \<union> set (work (us_batches st)) = active_rows items' \<and> mset (map fst (batch_work b')) = mset (map fst (batch_work b))
    \<and> map ui_id items' = map ui_id items \<and> ub_waiting b' = drop (min UPLOAD_CONCURRENCY (length files)) (ub_waiting b)
    \<and> length (ub_busy b') = length (ub_busy b) + min UPLOAD_CONCURRENCY (length files) \<and> phases_ok b'"
    by (intro start_workers_sync [OF r d])
  then have s: "set (batch_work b') \<union> set (work (us_batches st)) = active_rows items'"
    "mset (map fst (batch_work b')) = mset (map fst (batch_work b))" "map ui_id items' = map ui_id items" "phases_ok b'" by blast+
  have shape: "ub_waiting b' = drop (min UPLOAD_CONCURRENCY (length files)) (zip ids files)"
    "length (ub_busy b') = min UPLOAD_CONCURRENCY (length files)" using sync by (simp_all add: b_def)
  note k = same_keys [OF s(2)]
  have "batch_ok b'" using s(4) shape False len by (auto simp: batch_ok_iff UPLOAD_CONCURRENCY_def min_def split: if_splits)
  moreover have "distinct (map fst (work (us_batches st @ [b'])))"
    using assms k w \<open>fst ` set (work (us_batches st)) \<inter> fst ` set (batch_work b) = {}\<close> by (auto simp: queue_ok_def ids_def)
  moreover have "\<forall>x \<in> set items'. ui_id x < us_nextId st + length files"
  proof -
    have "ui_id ` set items' = set ids \<union> ui_id ` set (us_items st)" using s(3) ids_new by (metis list.set_map set_append)
    then show ?thesis using assms by (force simp: ids_def queue_ok_def)
  qed
  ultimately show ?thesis
    using assms s(1,3) d False r queue_ok_clear [OF assms]
    by (simp add: enqueue_def Let_def flip: ids_def items_def b_def) (simp add: queue_ok_def Un_commute)
qed (simp add: enqueue_def assms)

text \<open>An answer: the row leaves the list of rows in progress, then the worker goes on.\<close>

lemma answered_ok:
  assumes "queue_ok st" "find_busy i st = Some (ev, f, s)"
    and "active_rows items = except i (active_rows (us_items st))" "set (map ui_id items) \<subseteq> set (map ui_id (us_items st))" "distinct (map ui_id items)"
    and "us_items st1 = items" "us_batches st1 = us_batches st" "us_armed st1 = us_armed st" "us_nextId st1 = us_nextId st"
  shows "queue_ok (settle_upload i st1)"
proof (rule settle_ok)
  note w = find_busy_work [OF assms(2)]
  show "us_armed st1 = []" using assms(1,8) w(3) by (auto simp: queue_ok_def)
  show "\<forall>x \<in> set (us_items st1). ui_id x < us_nextId st1" using assms(1,4,6,9) by (auto simp: queue_ok_def)
  show "\<exists>b \<in> set (us_batches st1). i \<in> fst ` set (ub_busy b)" using w(1) assms(7) by force
qed (use assms in \<open>simp_all add: queue_ok_def\<close>)

lemma duplicate_found_ok:
  assumes "queue_ok st" "find_busy i st = Some (ev, f, s)"
  shows "queue_ok (duplicate_found i st)"
  unfolding duplicate_found_def
  by (rule answered_ok [OF assms, where items = "drop_item i (us_items st)"])
    (use assms(1) distinct_drop [of "us_items st" i] in \<open>simp_all add: active_drop queue_ok_def, auto simp: drop_item_def\<close>)

lemma patched_ok:
  assumes "queue_ok st" "find_busy i st = Some (ev, f, s)" "\<And>x. ui_id (g x) = ui_id x" "\<And>x. ui_state (g x) = t" "\<not> in_progress t"
    and "us_items st1 = patch i g (us_items st)" "us_batches st1 = us_batches st" "us_armed st1 = us_armed st" "us_nextId st1 = us_nextId st"
  shows "queue_ok (settle_upload i st1)"
proof (rule answered_ok [OF assms(1,2) _ _ _ assms(6-9)])
  have d: "distinct (map ui_id (us_items st))" using assms(1) by (simp add: queue_ok_def)
  show "active_rows (patch i g (us_items st)) = except i (active_rows (us_items st))"
    using active_patch [OF assms(3,4) d] assms(5) by simp
  have "map ui_id (patch i g (us_items st)) = map ui_id (us_items st)" by (rule patch_ids) (rule assms(3))
  then show "set (map ui_id (patch i g (us_items st))) \<subseteq> set (map ui_id (us_items st))" "distinct (map ui_id (patch i g (us_items st)))"
    using d by (simp_all only: order_refl)
qed

lemma upload_failed_ok: "queue_ok st \<Longrightarrow> find_busy i st = Some (ev, f, s) \<Longrightarrow> queue_ok (upload_failed i e st)"
  unfolding upload_failed_def by (erule patched_ok [where t = Upload_error]) (simp_all add: in_progress_def)

lemma sent_ok: "queue_ok st \<Longrightarrow> find_busy i st = Some (ev, f, s) \<Longrightarrow> queue_ok (sent i ev file answer st)"
  by (cases answer)
    (simp_all add: sent_def duplicate_found_ok upload_failed_ok,
      erule patched_ok [where t = Upload_done and g = "\<lambda>x. x\<lparr>ui_state := Upload_done, ui_progress := 100\<rparr>"], simp_all add: in_progress_def)

definition accepted :: "nat \<Rightarrow> batch \<Rightarrow> batch" where
  "accepted i b = b\<lparr>ub_busy := map (\<lambda>(j, f, s). (j, f, if j = i then Upload_uploading else s)) (ub_busy b)\<rparr>"

lemma accepted_keys: "map fst (work (map (accepted i) bs)) = map fst (work bs)"
  by (induction bs) (auto simp: batch_work_ids accepted_def)

lemma accepted_batch: "batch_ok b \<Longrightarrow> batch_ok (accepted i b)"
proof -
  have "phases_ok b \<Longrightarrow> phases_ok (accepted i b)" by (simp add: phases_ok_def accepted_def split_def)
  moreover have "ub_waiting (accepted i b) = ub_waiting b" "length (ub_busy (accepted i b)) = length (ub_busy b)" by (simp_all add: accepted_def)
  moreover from this(2) have "ub_busy (accepted i b) = [] \<longleftrightarrow> ub_busy b = []" by (metis length_0_conv)
  ultimately show "batch_ok b \<Longrightarrow> batch_ok (accepted i b)" by (simp add: batch_ok_iff)
qed

lemma accepted_work:
  "(\<forall>b \<in> set bs. i \<notin> fst ` set (ub_waiting b)) \<Longrightarrow>
    set (work (map (accepted i) bs)) = (\<lambda>(j, s). (j, if j = i then Upload_uploading else s)) ` set (work bs)"
proof (induction bs)
  case (Cons b bs)
  then have "\<forall>p \<in> set (ub_waiting b). fst p \<noteq> i" by auto
  then have "(\<lambda>p. (fst p, if fst p = i then Upload_uploading else Upload_pending)) ` set (ub_waiting b)
      = (\<lambda>p. (fst p, Upload_pending)) ` set (ub_waiting b)" by (intro image_cong) simp_all
  then have "set (batch_work (accepted i b)) = (\<lambda>(j, s). (j, if j = i then Upload_uploading else s)) ` set (batch_work b)"
    by (simp add: batch_work_def accepted_def image_Un image_image split_def cong: if_cong)
  with Cons show ?case by (simp add: image_Un)
qed simp

lemma busy_not_waiting:
  assumes "distinct (map fst (work bs))" "\<exists>b \<in> set bs. i \<in> fst ` set (ub_busy b)"
  shows "\<forall>b \<in> set bs. i \<notin> fst ` set (ub_waiting b)"
proof -
  have ids: "fst ` set (batch_work b) = fst ` set (ub_waiting b) \<union> fst ` set (ub_busy b)" for b
    using batch_work_ids [of b] by (metis list.set_map set_append)
  then have in_work: "b \<in> set bs \<Longrightarrow> fst ` set (ub_waiting b) \<union> fst ` set (ub_busy b) \<subseteq> fst ` set (work bs)" for b bs
    by (induction bs) (auto simp: image_Un)
  show ?thesis using assms
  proof (induction bs)
    case (Cons b bs)
    then have d: "fst ` set (ub_waiting b) \<inter> fst ` set (ub_busy b) = {}" "distinct (map fst (work bs))"
      "(fst ` set (ub_waiting b) \<union> fst ` set (ub_busy b)) \<inter> fst ` set (work bs) = {}"
      by (simp_all add: batch_work_ids ids Int_Un_distrib Int_Un_distrib2)
    show ?case
    proof (cases "i \<in> fst ` set (ub_busy b)")
      case True
      then have "i \<notin> fst ` set (ub_waiting b)" "i \<notin> fst ` set (work bs)" using d(1,3) by blast+
      moreover from this(2) have "i \<notin> fst ` set (ub_waiting c)" if "c \<in> set bs" for c using in_work [OF that] by blast
      ultimately show ?thesis by simp
    next
      case False
      with Cons.prems(2) obtain c where c: "c \<in> set bs" "i \<in> fst ` set (ub_busy c)" by auto
      then have "i \<notin> fst ` set (ub_waiting b)" using in_work [OF c(1)] d(3) by blast
      with Cons.IH [OF d(2)] c show ?thesis by (simp only: list.set ball_simps) blast
    qed
  qed simp
qed

lemma checked_ok:
  assumes "queue_ok st" "find_busy i st = Some (ev, f, Upload_hashing)"
  shows "queue_ok (checked i answer st)"
proof (cases answer)
  case Check_accept
  let ?items = "patch i (\<lambda>x. x\<lparr>ui_state := Upload_uploading, ui_progress := 0\<rparr>) (us_items st)"
  have st: "checked i answer st = st\<lparr>us_items := ?items, us_batches := map (accepted i) (us_batches st)\<rparr>"
    by (simp add: checked_def Check_accept accepted_def [abs_def])
  note w = find_busy_work [OF assms(2)]
  have q: "distinct (map ui_id (us_items st))" "active_rows (us_items st) = set (work (us_batches st))"
    "distinct (map fst (work (us_batches st)))" using assms(1) by (simp_all add: queue_ok_def)
  have ids: "map ui_id ?items = map ui_id (us_items st)" by simp
  then have "set (map ui_id ?items) = set (map ui_id (us_items st))" by simp
  then have small: "\<forall>x \<in> set ?items. ui_id x < us_nextId st" using assms(1) unfolding set_map queue_ok_def by (metis (no_types, lifting) image_iff)
  have "i \<in> ui_id ` set (us_items st)" using w(2) q(2) active_ids [of "us_items st"] by force
  then have "active_rows ?items = insert (i, Upload_uploading) (except i (set (work (us_batches st))))"
    using active_patch [of "\<lambda>x. x\<lparr>ui_state := Upload_uploading, ui_progress := 0\<rparr>" Upload_uploading "us_items st" i] q
    by (simp add: in_progress_def)
  also have "\<dots> = (\<lambda>(j, s). (j, if j = i then Upload_uploading else s)) ` set (work (us_batches st))"
    using w(2) by (force simp: except_def)
  also have "\<dots> = set (work (map (accepted i) (us_batches st)))"
    using w(1) by (intro accepted_work [symmetric] busy_not_waiting q(3)) force
  finally show ?thesis
    using assms(1) w(3) ids small accepted_batch by (auto simp: st queue_ok_def accepted_keys)
qed (simp_all add: checked_def duplicate_found_ok [OF assms] upload_failed_ok [OF assms])

lemma progressed_ok: "queue_ok st \<Longrightarrow> queue_ok (progressed i percent st)"
proof -
  have "map ui_id (patch i (\<lambda>x. x\<lparr>ui_progress := percent\<rparr>) (us_items st)) = map ui_id (us_items st)" by simp
  moreover from this have "set (map ui_id (patch i (\<lambda>x. x\<lparr>ui_progress := percent\<rparr>) (us_items st))) = set (map ui_id (us_items st))" by simp
  moreover have "active_rows (patch i (\<lambda>x. x\<lparr>ui_progress := percent\<rparr>) (us_items st)) = active_rows (us_items st)"
    by (rule active_patch_progress) simp_all
  ultimately show "queue_ok st \<Longrightarrow> queue_ok (progressed i percent st)"
    unfolding progressed_def queue_ok_def set_map by (simp, metis (no_types, lifting) image_iff)
qed

lemma cleared_ok: "queue_ok st \<Longrightarrow> us_batches st = [] \<Longrightarrow> queue_ok (dismiss st)"
  by (simp add: queue_ok_def dismiss_def)

interpretation upload_queue: invariant_system "\<lambda>st. st = empty_store" ui_step queue_ok
proof
  show "queue_ok st" if "st = empty_store" for st using that by (simp add: empty_store_def queue_ok_def)
  show "queue_ok st'" if "queue_ok st" "ui_step st a st'" for st a st'
    using that(2,1)
  proof cases
    case (timer_fired t)
    then have "us_batches st = []" "us_armed st = [t]" using that(1) by (auto simp: queue_ok_def)
    with that(1) timer_fired show ?thesis by (simp add: queue_ok_def dismiss_def)
  next
    case dismiss_clicked
    with that(1) queue_ok_active [OF that(1)] show ?thesis by (simp add: cleared_ok)
  next
    case (collected ev)
    with that(1) show ?thesis by (simp add: takeFresh_def queue_ok_def)
  qed (simp_all add: enqueue_ok checked_ok sent_ok progressed_ok that(1))
qed


section \<open>What the queue promises\<close>

lemma active_count: "activeCount st = card (active_rows (us_items st))" if "distinct (map ui_id (us_items st))"
proof -
  have "distinct (map ui_id xs) \<Longrightarrow> length (filter (\<lambda>x. in_progress (ui_state x)) xs) = card (active_rows xs)" for xs
  proof (induction xs)
    case (Cons x xs)
    moreover have "finite (active_rows xs)" by (induction xs) simp_all
    moreover have "(ui_id x, ui_state x) \<notin> active_rows xs" using Cons.prems active_ids [of xs] by force
    ultimately show ?case by simp
  qed simp
  with that show ?thesis by (simp add: activeCount_def)
qed

text \<open>
  C29. Leaving the page is warned of exactly when it would lose something: after any drops of files, answers,
  timers and clicks, in whatever order, the store reports activity exactly while some batch still has
  a file that is not settled, it counts those files exactly, and no timer can clear a row of an upload.
\<close>

theorem leaving_is_warned:
  assumes "ui_reachable st"
  shows "(hasActive st \<longleftrightarrow> (\<exists>b \<in> set (us_batches st). ub_waiting b \<noteq> [] \<or> ub_busy b \<noteq> []))
    \<and> activeCount st = sum_list (map (\<lambda>b. length (ub_waiting b) + length (ub_busy b)) (us_batches st))
    \<and> (hasActive st \<longrightarrow> us_armed st = [])"
proof -
  have ok: "queue_ok st" using assms by (rule upload_queue.reachable_inv)
  then have q: "distinct (map ui_id (us_items st))" "distinct (map fst (work (us_batches st)))"
    "active_rows (us_items st) = set (work (us_batches st))" "\<forall>b \<in> set (us_batches st). batch_ok b"
    "us_armed st \<noteq> [] \<Longrightarrow> us_batches st = []" by (simp_all add: queue_ok_def)
  have "length (work bs) = sum_list (map (\<lambda>b. length (ub_waiting b) + length (ub_busy b)) bs)" for bs
    by (induction bs) (simp_all add: batch_work_def)
  moreover have "activeCount st = length (work (us_batches st))"
    unfolding active_count [OF q(1)] q(3) using q(2) by (intro distinct_card) (simp add: distinct_map)
  moreover have "(\<exists>b \<in> set (us_batches st). ub_waiting b \<noteq> [] \<or> ub_busy b \<noteq> []) \<longleftrightarrow> us_batches st \<noteq> []"
    using q(4) by (cases "us_batches st") (auto simp: batch_ok_iff)
  ultimately show ?thesis using queue_ok_active [OF ok] q(5) by auto
qed

text \<open>
  Three at a time and never idle: at every moment each batch has at most three files in flight, and
  exactly three while files are waiting.
\<close>

theorem three_at_a_time:
  assumes "ui_reachable st" "b \<in> set (us_batches st)"
  shows "1 \<le> length (ub_busy b) \<and> length (ub_busy b) \<le> 3 \<and> (ub_waiting b \<noteq> [] \<longrightarrow> length (ub_busy b) = 3)"
proof -
  have "queue_ok st" using assms(1) by (rule upload_queue.reachable_inv)
  with assms(2) have "batch_ok b" by (simp add: queue_ok_def)
  then show ?thesis by (simp add: batch_ok_iff Suc_le_eq)
qed

text \<open>What is left to do: two answers for a file that waits or is hashed, one for a file on its way.\<close>

definition due_busy :: "(nat \<times> picked_file \<times> UploadState) list \<Rightarrow> nat" where
  "due_busy ps = sum_list (map (\<lambda>p. if snd (snd p) = Upload_uploading then 1 else 2) ps)"

definition answers_due :: "batch list \<Rightarrow> nat" where
  "answers_due bs = sum_list (map (\<lambda>b. 2 * length (ub_waiting b) + due_busy (ub_busy b)) bs)"

lemma due_busy_simps [simp]: "due_busy [] = 0" "due_busy (p # ps) = (if snd (snd p) = Upload_uploading then 1 else 2) + due_busy ps"
  "due_busy (ps @ qs) = due_busy ps + due_busy qs"
  by (simp_all add: due_busy_def)

lemma answers_due_simps [simp]: "answers_due [] = 0"
  "answers_due (b # bs) = 2 * length (ub_waiting b) + due_busy (ub_busy b) + answers_due bs"
  by (simp_all add: answers_due_def)

lemma due_busy_filter: "due_busy (filter q ps) \<le> due_busy ps"
  by (induction ps) auto

lemma due_busy_remove: "i \<in> fst ` set ps \<Longrightarrow> due_busy (filter (\<lambda>p. fst p \<noteq> i) ps) < due_busy ps"
proof (induction ps)
  case (Cons p ps)
  then show ?case using due_busy_filter [of "\<lambda>p. fst p \<noteq> i" ps] by (cases "fst p = i") auto
qed simp

lemma next_file_due:
  "next_file b items = (b', items') \<Longrightarrow> 2 * length (ub_waiting b') + due_busy (ub_busy b') = 2 * length (ub_waiting b) + due_busy (ub_busy b)"
  by (cases "ub_waiting b") (auto simp: next_file_def)

lemma advance_due:
  "advance i bs items = (bs', items', e) \<Longrightarrow> \<exists>b \<in> set bs. i \<in> fst ` set (ub_busy b) \<Longrightarrow> answers_due bs' < answers_due bs"
proof (induction bs arbitrary: bs' items' e)
  case (Cons b bs)
  show ?case
  proof (cases "i \<in> fst ` set (ub_busy b)")
    case True
    let ?b = "b\<lparr>ub_busy := filter (\<lambda>x. fst x \<noteq> i) (ub_busy b)\<rparr>"
    obtain b1 items1 where n: "next_file ?b items = (b1, items1)" by (cases "next_file ?b items")
    have "2 * length (ub_waiting b1) + due_busy (ub_busy b1) < 2 * length (ub_waiting b) + due_busy (ub_busy b)"
      using next_file_due [OF n] due_busy_remove [OF True] by simp
    with Cons.prems(1) True n show ?thesis by (auto split: if_splits)
  next
    case False
    obtain bs1 items1 e1 where r: "advance i bs items = (bs1, items1, e1)" by (rule prod_cases3)
    with Cons False show ?thesis by auto
  qed
qed simp

lemma settle_due:
  "\<exists>b \<in> set (us_batches st). i \<in> fst ` set (ub_busy b) \<Longrightarrow> answers_due (us_batches (settle_upload i st)) < answers_due (us_batches st)"
proof -
  assume busy: "\<exists>b \<in> set (us_batches st). i \<in> fst ` set (ub_busy b)"
  obtain bs items e where r: "advance i (us_batches st) (us_items st) = (bs, items, e)" by (rule prod_cases3)
  from advance_due [OF r busy] show ?thesis by (simp add: settle_upload_def r Let_def)
qed

lemma due_busy_accepted:
  "due_busy (ub_busy (accepted i b)) \<le> due_busy (ub_busy b)"
  "(i, f, Upload_hashing) \<in> set (ub_busy b) \<Longrightarrow> due_busy (ub_busy (accepted i b)) < due_busy (ub_busy b)"
proof -
  have le: "due_busy (map (\<lambda>(j, f, s). (j, f, if j = i then Upload_uploading else s)) ps) \<le> due_busy ps" for ps
    by (induction ps) (auto split: if_splits)
  show "due_busy (ub_busy (accepted i b)) \<le> due_busy (ub_busy b)" using le by (simp add: accepted_def)
  have "(i, f, Upload_hashing) \<in> set ps \<Longrightarrow> due_busy (map (\<lambda>(j, f, s). (j, f, if j = i then Upload_uploading else s)) ps) < due_busy ps" for ps
  proof (induction ps)
    case (Cons p ps)
    obtain j g t where p: "p = (j, g, t)" by (rule prod_cases3)
    from Cons le [of ps] show ?case by (cases "p = (i, f, Upload_hashing)"; cases "t = Upload_uploading"; cases "j = i") (auto simp: p)
  qed simp
  then show "(i, f, Upload_hashing) \<in> set (ub_busy b) \<Longrightarrow> due_busy (ub_busy (accepted i b)) < due_busy (ub_busy b)"
    by (simp add: accepted_def)
qed

lemma accepted_due:
  "\<exists>b \<in> set bs. (i, f, Upload_hashing) \<in> set (ub_busy b) \<Longrightarrow> answers_due (map (accepted i) bs) < answers_due bs"
proof -
  have le: "answers_due (map (accepted i) bs) \<le> answers_due bs" for bs
    by (induction bs) (use due_busy_accepted(1) in \<open>auto simp: accepted_def intro!: add_mono\<close>)
  show "\<exists>b \<in> set bs. (i, f, Upload_hashing) \<in> set (ub_busy b) \<Longrightarrow> answers_due (map (accepted i) bs) < answers_due bs"
  proof (induction bs)
    case (Cons b bs)
    have w: "length (ub_waiting (accepted i b)) = length (ub_waiting b)" by (simp add: accepted_def)
    show ?case
    proof (cases "(i, f, Upload_hashing) \<in> set (ub_busy b)")
      case True
      with due_busy_accepted(2) [OF True] le [of bs] w show ?thesis by simp
    next
      case False
      with Cons due_busy_accepted(1) [of i b] w show ?thesis by auto
    qed
  qed simp
qed

fun is_answer :: "ui_act \<Rightarrow> bool" where
  "is_answer (Checked i answer) = True"
| "is_answer (Sent i answer) = True"
| "is_answer _ = False"

fun is_drop :: "ui_act \<Rightarrow> bool" where
  "is_drop (Dropped ev files) = True"
| "is_drop _ = False"

lemma step_due:
  assumes "ui_step st a st'" "\<not> is_drop a"
  shows "answers_due (us_batches st') + (if is_answer a then 1 else 0) \<le> answers_due (us_batches st)"
  using assms(1)
proof cases
  case (checked i ev f answer)
  note w = find_busy_work(1) [OF checked(3)]
  then have busy: "\<exists>b \<in> set (us_batches st). i \<in> fst ` set (ub_busy b)" "\<exists>b \<in> set (us_batches st). (i, f, Upload_hashing) \<in> set (ub_busy b)" by force+
  have s: "answers_due (us_batches (settle_upload i st1)) < answers_due (us_batches st)" if "us_batches st1 = us_batches st" for st1
    using settle_due [of st1 i] busy(1) that by simp
  show ?thesis unfolding checked(1,2)
    using accepted_due [OF busy(2)]
    by (cases answer) (simp_all add: checked_def duplicate_found_def upload_failed_def Suc_le_eq s accepted_def [abs_def])
next
  case (sent i ev f answer)
  note w = find_busy_work(1) [OF sent(3)]
  then have busy: "\<exists>b \<in> set (us_batches st). i \<in> fst ` set (ub_busy b)" by force
  have s: "answers_due (us_batches (settle_upload i st1)) < answers_due (us_batches st)" if "us_batches st1 = us_batches st" for st1
    using settle_due [of st1 i] busy that by simp
  show ?thesis unfolding sent(1,2)
    by (cases answer) (simp_all add: sent_def duplicate_found_def upload_failed_def Suc_le_eq s)
qed (use assms(2) in \<open>simp_all add: progressed_def dismiss_def takeFresh_def\<close>)

inductive ui_run :: "UploadStore \<Rightarrow> ui_act list \<Rightarrow> UploadStore \<Rightarrow> bool" where
  run_none: "ui_run st [] st"
| run_step: "ui_step st a st1 \<Longrightarrow> ui_run st1 as st2 \<Longrightarrow> ui_run st (a # as) st2"

lemma run_due:
  "ui_run st as st' \<Longrightarrow> list_all (\<lambda>a. \<not> is_drop a) as \<Longrightarrow>
    answers_due (us_batches st') + length (filter is_answer as) \<le> answers_due (us_batches st)"
proof (induction rule: ui_run.induct)
  case (run_step st a st1 as st2)
  with step_due [OF run_step(1)] show ?case by (auto split: if_splits)
qed simp

lemma run_reachable: "ui_run st as st' \<Longrightarrow> ui_reachable st \<Longrightarrow> ui_reachable st'"
  by (induction rule: ui_run.induct) (auto intro: reachable.reach_step)

text \<open>
  C18. Every upload settles: after the last drop, whatever the answers are and whatever happens in between,
  at most two answers per file are awaited; and while a file is not settled some request is in flight
  whose answer, whatever it is, takes the queue on. So once as many answers have come as were due, no
  batch is left.
\<close>

theorem uploads_settle:
  assumes "ui_reachable st" "ui_run st as st'" "list_all (\<lambda>a. \<not> is_drop a) as"
  shows "length (filter is_answer as) \<le> answers_due (us_batches st)
    \<and> (us_batches st' \<noteq> [] \<longrightarrow> length (filter is_answer as) < answers_due (us_batches st)
         \<and> (\<exists>i. (\<forall>answer. \<exists>st2. ui_step st' (Checked i answer) st2) \<or> (\<forall>answer. \<exists>st2. ui_step st' (Sent i answer) st2)))"
proof -
  have due: "answers_due (us_batches st') + length (filter is_answer as) \<le> answers_due (us_batches st)" by (rule run_due [OF assms(2,3)])
  have "queue_ok st'" using run_reachable [OF assms(2,1)] by (rule upload_queue.reachable_inv)
  moreover have "0 < answers_due (us_batches st') \<and> (\<exists>i. (\<forall>answer. \<exists>st2. ui_step st' (Checked i answer) st2) \<or> (\<forall>answer. \<exists>st2. ui_step st' (Sent i answer) st2))"
    if ok: "queue_ok st'" and some: "us_batches st' \<noteq> []"
  proof -
    obtain b bs where b: "us_batches st' = b # bs" using some by (cases "us_batches st'") auto
    have bok: "batch_ok b" using ok b by (simp add: queue_ok_def)
    then obtain i f s rest where p: "ub_busy b = (i, f, s) # rest" by (metis batch_ok_iff list.exhaust prod_cases3)
    have "s = Upload_hashing \<or> s = Upload_uploading" using bok p by (simp add: batch_ok_iff phases_ok_def)
    moreover have "find_busy i st' = Some (ub_eventId b, f, s)" by (simp add: find_busy_def b p)
    ultimately have "(\<forall>answer. \<exists>st2. ui_step st' (Checked i answer) st2) \<or> (\<forall>answer. \<exists>st2. ui_step st' (Sent i answer) st2)"
      by (metis ui_step.checked ui_step.sent)
    moreover have "0 < answers_due (us_batches st')" by (simp add: b p)
    ultimately show ?thesis by blast
  qed
  ultimately show ?thesis using due by force
qed


section \<open>Witnesses\<close>

text \<open>Four files dropped on an event.\<close>

definition wit_dropped :: UploadStore where
  "wit_dropped = enqueue ''e'' (replicate 4 \<lparr>pf_name = ''a.jpg'', pf_isVideo = False, pf_url = ''blob''\<rparr>) empty_store"

lemma wit_dropped_facts:
  "map (\<lambda>b. (map fst (ub_waiting b), map fst (ub_busy b))) (us_batches wit_dropped) = [([3], [0, 1, 2])]"
  by (simp add: wit_dropped_def enqueue_def empty_store_def UPLOAD_CONCURRENCY_def next_file_def upt_rec numeral_eq_Suc clear_timer_def)

lemma wit_dropped_reachable: "ui_reachable wit_dropped"
  unfolding wit_dropped_def by (rule reachable.reach_step, rule reachable.reach_start, rule refl, rule ui_step.dropped)

theorem leaving_is_warned_witness: "hasActive wit_dropped \<and> activeCount wit_dropped = 4"
proof -
  from wit_dropped_facts obtain b where b: "us_batches wit_dropped = [b]" "map fst (ub_waiting b) = [3]" "map fst (ub_busy b) = [0, 1, 2]" by auto
  then have "length (map fst (ub_waiting b)) = 1" "length (map fst (ub_busy b)) = 3" by simp_all
  then have "length (ub_waiting b) = 1" "length (ub_busy b) = 3" by (simp_all only: length_map)
  moreover from this have "ub_busy b \<noteq> []" by auto
  ultimately show ?thesis using leaving_is_warned [OF wit_dropped_reachable] b(1) by simp
qed

theorem three_at_a_time_witness: "\<forall>b \<in> set (us_batches wit_dropped). length (ub_busy b) \<le> 3"
  using three_at_a_time [OF wit_dropped_reachable] by blast

theorem uploads_settle_witness:
  "ui_run wit_dropped [Collected ''e''] (snd (takeFresh ''e'' wit_dropped)) \<and> 0 < answers_due (us_batches wit_dropped)"
proof -
  have run: "ui_run wit_dropped [Collected ''e''] (snd (takeFresh ''e'' wit_dropped))"
    by (rule ui_run.run_step [OF ui_step.collected ui_run.run_none])
  moreover have "us_batches (snd (takeFresh ''e'' wit_dropped)) \<noteq> []" using wit_dropped_facts by (auto simp: takeFresh_def)
  ultimately show ?thesis using uploads_settle [OF wit_dropped_reachable run] by simp
qed

end
