(* ===== verification/Timeline.thy ===== *)
theory Timeline
  imports Text
begin

text \<open>
  \<^verbatim>\<open>apps/web/src/lib/justified.ts\<close> and \<^verbatim>\<open>PhotoTimeline.svelte\<close>: the photo wall of every gallery.
  The photos are grouped by day, each day is laid out in justified rows, and clicks select or open.

  Lengths are reals, without the rounding of the browser's doubles. The calendar day of a
  time stamp is an argument: it depends on the browser's time zone.
\<close>

section \<open>Justified rows\<close>

record JustifiedBox =
  jb_top :: real
  jb_left :: real
  jb_width :: real
  jb_height :: real

record layout_options =
  lo_containerWidth :: real
  lo_targetRowHeight :: real
  lo_gap :: real

text \<open>The variables of the loop; \<open>ly_row\<close> holds the ratios from \<^verbatim>\<open>rowStart\<close> on.\<close>

record layout_state =
  ly_boxes :: "JustifiedBox list"
  ly_top :: real
  ly_row :: "real list"
  ly_rowRatioSum :: real

fun row_boxes :: "real \<Rightarrow> real \<Rightarrow> real \<Rightarrow> real \<Rightarrow> real list \<Rightarrow> JustifiedBox list" where
  "row_boxes gap y height left [] = []"
| "row_boxes gap y height left (r # rs) =
    \<lparr>jb_top = y, jb_left = left, jb_width = r * height, jb_height = height\<rparr>
      # row_boxes gap y height (left + (r * height + gap)) rs"

definition flushRow :: "layout_options \<Rightarrow> real \<Rightarrow> layout_state \<Rightarrow> layout_state" where
  "flushRow opts height st =
    \<lparr>ly_boxes = ly_boxes st @ row_boxes (lo_gap opts) (ly_top st) height 0 (ly_row st),
     ly_top = ly_top st + (height + lo_gap opts), ly_row = [], ly_rowRatioSum = 0\<rparr>"

definition place_ratio :: "layout_options \<Rightarrow> layout_state \<Rightarrow> real \<Rightarrow> layout_state" where
  "place_ratio opts st r =
    (let st1 = st\<lparr>ly_row := ly_row st @ [r], ly_rowRatioSum := ly_rowRatioSum st + r\<rparr>;
         gaps = real (length (ly_row st)) * lo_gap opts;
         rowHeight = (lo_containerWidth opts - gaps) / ly_rowRatioSum st1
     in if rowHeight \<le> lo_targetRowHeight opts then flushRow opts rowHeight st1 else st1)"

definition empty_layout :: layout_state where
  "empty_layout = \<lparr>ly_boxes = [], ly_top = 0, ly_row = [], ly_rowRatioSum = 0\<rparr>"

definition justifiedLayout :: "real list \<Rightarrow> layout_options \<Rightarrow> JustifiedBox list \<times> real" where
  "justifiedLayout ratios opts =
    (let st = foldl (place_ratio opts) empty_layout ratios;
         st1 = (if ly_row st \<noteq> [] then flushRow opts (lo_targetRowHeight opts) st else st)
     in (ly_boxes st1, max 0 (ly_top st1 - lo_gap opts)))"

section \<open>Days\<close>

record TimelineAsset =
  ta_id :: uuid
  ta_width :: "nat option"
  ta_height :: "nat option"
  ta_capturedAt :: "string option"
  ta_createdAt :: "string option"

definition GAP :: real where
  "GAP = 2"

text \<open>The day of a photo; empty for the undated.\<close>

definition day_key :: "(string \<Rightarrow> string) \<Rightarrow> TimelineAsset \<Rightarrow> string" where
  "day_key toISODate a =
    (case (case ta_capturedAt a of None \<Rightarrow> ta_createdAt a | Some t \<Rightarrow> Some t) of
       None \<Rightarrow> ''undated''
     | Some t \<Rightarrow> if t = [] then ''undated'' else toISODate t)"

text \<open>A JavaScript map keeps its keys in the order of insertion.\<close>

fun add_to_group :: "string \<Rightarrow> TimelineAsset \<times> nat \<Rightarrow> (string \<times> (TimelineAsset \<times> nat) list) list
    \<Rightarrow> (string \<times> (TimelineAsset \<times> nat) list) list" where
  "add_to_group k x [] = [(k, [x])]"
| "add_to_group k x ((j, xs) # gs) = (if j = k then (j, xs @ [x]) # gs else (j, xs) # add_to_group k x gs)"

definition groups :: "(string \<Rightarrow> string) \<Rightarrow> TimelineAsset list \<Rightarrow> (string \<times> (TimelineAsset \<times> nat) list) list" where
  "groups toISODate assets =
    foldl (\<lambda>gs x. add_to_group (day_key toISODate (fst x)) x gs) [] (zip assets [0..<length assets])"

definition tile_ratio :: "TimelineAsset \<Rightarrow> real" where
  "tile_ratio a =
    (case (ta_width a, ta_height a) of
       (Some w, Some h) \<Rightarrow> if w \<noteq> 0 \<and> h \<noteq> 0 then max (2 / 5) (min (real w / real h) 3) else 1
     | _ \<Rightarrow> 1)"

definition layouts :: "(string \<Rightarrow> string) \<Rightarrow> real \<Rightarrow> real \<Rightarrow> TimelineAsset list \<Rightarrow> (JustifiedBox list \<times> real) list" where
  "layouts toISODate containerWidth targetRowHeight assets =
    (if containerWidth \<le> 0 then []
     else map (\<lambda>(day, items). justifiedLayout (map (tile_ratio \<circ> fst) items)
            \<lparr>lo_containerWidth = containerWidth, lo_targetRowHeight = targetRowHeight, lo_gap = GAP\<rparr>)
          (groups toISODate assets))"

section \<open>Selection\<close>

text \<open>The component's state, with the index it was last asked to open.\<close>

record timeline =
  tl_selected :: "uuid set"
  tl_lastClickedIndex :: "nat option"
  tl_opened :: "nat option"

record timeline_props =
  tp_assets :: "TimelineAsset list"
  tp_selectMode :: bool
  tp_readonly :: bool

definition selectionActive :: "timeline_props \<Rightarrow> timeline \<Rightarrow> bool" where
  "selectionActive p st \<longleftrightarrow> \<not> tp_readonly p \<and> (tp_selectMode p \<or> tl_selected st \<noteq> {})"

definition toggle_photo :: "uuid \<Rightarrow> uuid set \<Rightarrow> uuid set" where
  "toggle_photo i S = (if i \<in> S then S - {i} else insert i S)"

definition rangeSelect :: "TimelineAsset list \<Rightarrow> nat \<Rightarrow> nat \<Rightarrow> uuid set \<Rightarrow> uuid set" where
  "rangeSelect assets fromIndex toIndex S =
    (let (start, stop) = (if fromIndex < toIndex then (fromIndex, toIndex) else (toIndex, fromIndex))
     in fold (\<lambda>i T. if i < length assets then insert (ta_id (assets ! i)) T else T) [start..<Suc stop] S)"

definition onTileClick :: "timeline_props \<Rightarrow> TimelineAsset \<Rightarrow> nat \<Rightarrow> bool \<Rightarrow> timeline \<Rightarrow> timeline" where
  "onTileClick p a index shiftKey st =
    (let toggled = st\<lparr>tl_selected := toggle_photo (ta_id a) (tl_selected st), tl_lastClickedIndex := Some index\<rparr>
     in if tp_readonly p then st\<lparr>tl_opened := Some index\<rparr>
        else (case (shiftKey, tl_lastClickedIndex st) of
                (True, Some anchor) \<Rightarrow>
                  st\<lparr>tl_selected := rangeSelect (tp_assets p) anchor index (tl_selected st), tl_lastClickedIndex := Some index\<rparr>
              | _ \<Rightarrow>
                  if ta_id a \<in> tl_selected st then toggled
                  else if selectionActive p st then toggled
                  else st\<lparr>tl_opened := Some index\<rparr>))"

definition onCheckboxClick :: "TimelineAsset \<Rightarrow> nat \<Rightarrow> timeline \<Rightarrow> timeline" where
  "onCheckboxClick a index st =
    st\<lparr>tl_selected := toggle_photo (ta_id a) (tl_selected st), tl_lastClickedIndex := Some index\<rparr>"

definition onMagnifierClick :: "nat \<Rightarrow> timeline \<Rightarrow> timeline" where
  "onMagnifierClick index st = st\<lparr>tl_opened := Some index\<rparr>"

definition toggleDay :: "(TimelineAsset \<times> nat) list \<Rightarrow> timeline \<Rightarrow> timeline" where
  "toggleDay items st =
    (let allSelected = list_all (\<lambda>x. ta_id (fst x) \<in> tl_selected st) items
     in st\<lparr>tl_selected := fold (\<lambda>x S. if allSelected then S - {ta_id (fst x)} else insert (ta_id (fst x)) S) items (tl_selected st)\<rparr>)"

section \<open>The layout\<close>

text \<open>One box lies before another: in a higher row, or further left in the same row, with the gap between.\<close>

definition box_before :: "real \<Rightarrow> JustifiedBox \<Rightarrow> JustifiedBox \<Rightarrow> bool" where
  "box_before gap a b \<longleftrightarrow> jb_top a + jb_height a + gap \<le> jb_top b
     \<or> jb_top a = jb_top b \<and> jb_left a + jb_width a + gap \<le> jb_left b"

definition row_ends :: "real \<Rightarrow> JustifiedBox \<Rightarrow> JustifiedBox \<Rightarrow> bool" where
  "row_ends W a b \<longleftrightarrow> (jb_top a \<noteq> jb_top b \<longrightarrow> jb_left a + jb_width a = W)"

definition box_fits :: "layout_options \<Rightarrow> real \<Rightarrow> JustifiedBox \<Rightarrow> bool" where
  "box_fits opts y b \<longleftrightarrow> 0 < jb_height b \<and> jb_height b \<le> lo_targetRowHeight opts \<and> 0 \<le> jb_left b
     \<and> jb_left b + jb_width b \<le> lo_containerWidth opts \<and> 0 \<le> jb_top b \<and> jb_top b + jb_height b + lo_gap opts \<le> y"

definition keeps_ratio :: "real \<Rightarrow> JustifiedBox \<Rightarrow> bool" where
  "keeps_ratio r b \<longleftrightarrow> jb_width b = r * jb_height b"

definition laid_out :: "layout_options \<Rightarrow> real list \<Rightarrow> real \<Rightarrow> JustifiedBox list \<Rightarrow> bool" where
  "laid_out opts rs y bs \<longleftrightarrow> list_all2 keeps_ratio rs bs \<and> list_all (box_fits opts y) bs
     \<and> sorted_wrt (box_before (lo_gap opts)) bs \<and> successively (row_ends (lo_containerWidth opts)) bs"

lemma row_keeps_ratio: "list_all2 keeps_ratio rs (row_boxes g y h x rs)"
  by (induction rs arbitrary: x) (simp_all add: keeps_ratio_def)

lemma sum_list_pos: "list_all (\<lambda>r. 0 < r) rs \<Longrightarrow> 0 \<le> sum_list (rs :: real list)"
  by (induction rs) simp_all

lemma row_extent:
  "0 < h \<Longrightarrow> 0 \<le> g \<Longrightarrow> list_all (\<lambda>r. 0 < r) rs \<Longrightarrow> b \<in> set (row_boxes g y h x rs) \<Longrightarrow>
    jb_top b = y \<and> jb_height b = h \<and> x \<le> jb_left b \<and> jb_left b + jb_width b + g \<le> x + h * sum_list rs + g * real (length rs)"
proof (induction rs arbitrary: x)
  case (Cons r rs)
  have "0 \<le> sum_list rs" using Cons.prems(3) by (simp add: sum_list_pos)
  then have pos: "0 < r * h" "0 \<le> h * sum_list rs" "0 \<le> g * real (length rs)" using Cons.prems(1-3) by simp_all
  show ?case
  proof (cases "b \<in> set (row_boxes g y h (x + (r * h + g)) rs)")
    case True
    from Cons.IH [OF Cons.prems(1,2) _ this] Cons.prems(3) pos Cons.prems(2) show ?thesis by (simp add: algebra_simps)
  next
    case False
    with Cons.prems pos show ?thesis by (simp add: algebra_simps)
  qed
qed simp

lemma row_sorted:
  "0 < h \<Longrightarrow> 0 \<le> g \<Longrightarrow> list_all (\<lambda>r. 0 < r) rs \<Longrightarrow>
    sorted_wrt (box_before g) (row_boxes g y h x rs) \<and> successively (row_ends W) (row_boxes g y h x rs)"
proof (induction rs arbitrary: x)
  case (Cons r rs)
  have "\<forall>b \<in> set (row_boxes g y h (x + (r * h + g)) rs). jb_top b = y \<and> x + (r * h + g) \<le> jb_left b"
    using row_extent [OF Cons.prems(1,2)] Cons.prems(3) by auto
  note later = this
  have "row_boxes g y h (x + (r * h + g)) rs = [] \<or> row_ends W \<lparr>jb_top = y, jb_left = x, jb_width = r * h, jb_height = h\<rparr> (hd (row_boxes g y h (x + (r * h + g)) rs))"
    using later by (cases "row_boxes g y h (x + (r * h + g)) rs") (simp_all add: row_ends_def)
  moreover have "\<forall>b \<in> set (row_boxes g y h (x + (r * h + g)) rs). box_before g \<lparr>jb_top = y, jb_left = x, jb_width = r * h, jb_height = h\<rparr> b"
    using later by (auto simp: box_before_def)
  ultimately show ?case using Cons.IH [OF Cons.prems(1,2)] Cons.prems(3) by (simp add: successively_Cons)
qed simp

lemma row_right_edge:
  "rs \<noteq> [] \<Longrightarrow> jb_left (last (row_boxes g y h x rs)) + jb_width (last (row_boxes g y h x rs)) = x + h * sum_list rs + g * (real (length rs) - 1)"
proof (induction rs arbitrary: x)
  case (Cons r rs)
  show ?case
  proof (cases rs)
    case Nil
    then show ?thesis by simp
  next
    case (Cons s ss)
    then have "row_boxes g y h (x + (r * h + g)) rs \<noteq> []" by simp
    then show ?thesis using Cons.IH [of "x + (r * h + g)"] Cons by (simp add: algebra_simps)
  qed
qed simp

lemma row_boxes_Nil [simp]: "row_boxes g y h x rs = [] \<longleftrightarrow> rs = []"
  by (cases rs) simp_all

lemma row_laid_out:
  assumes "0 < h" "h \<le> lo_targetRowHeight opts" "0 \<le> lo_gap opts" "list_all (\<lambda>r. 0 < r) rs" "0 \<le> y"
    and "h * sum_list rs + lo_gap opts * (real (length rs) - 1) \<le> lo_containerWidth opts"
  shows "laid_out opts rs (y + (h + lo_gap opts)) (row_boxes (lo_gap opts) y h 0 rs)"
proof -
  have "box_fits opts (y + (h + lo_gap opts)) b" if "b \<in> set (row_boxes (lo_gap opts) y h 0 rs)" for b
    using row_extent [OF assms(1,3,4) that] assms(1,2,5,6) by (simp add: box_fits_def algebra_simps)
  then show ?thesis using row_keeps_ratio row_sorted [OF assms(1,3,4)] by (simp add: laid_out_def list_all_iff)
qed

lemma laid_out_append:
  assumes "laid_out opts rs y bs" "laid_out opts ss z cs" "y \<le> z" "\<forall>c \<in> set cs. y \<le> jb_top c"
    and "bs \<noteq> [] \<Longrightarrow> jb_left (last bs) + jb_width (last bs) = lo_containerWidth opts"
  shows "laid_out opts (rs @ ss) z (bs @ cs)"
proof -
  have fits: "\<forall>b \<in> set bs. box_fits opts y b" using assms(1) by (simp add: laid_out_def list_all_iff)
  then have "\<forall>b \<in> set bs. \<forall>c \<in> set cs. box_before (lo_gap opts) b c"
    using assms(4) by (force simp: box_fits_def box_before_def)
  moreover have "\<forall>b \<in> set bs. box_fits opts z b" using fits assms(3) by (auto simp: box_fits_def)
  ultimately show ?thesis using assms(1,2,5)
    by (auto simp: laid_out_def list_all_iff sorted_wrt_append successively_append_iff row_ends_def intro: list_all2_appendI)
qed

text \<open>After some ratios: the rows so far are laid out and full, and the open row is still too short.\<close>

definition layout_inv :: "layout_options \<Rightarrow> real list \<Rightarrow> layout_state \<Rightarrow> bool" where
  "layout_inv opts rs st \<longleftrightarrow>
    (\<exists>placed. rs = placed @ ly_row st \<and> laid_out opts placed (ly_top st) (ly_boxes st)) \<and> 0 \<le> ly_top st
    \<and> ly_rowRatioSum st = sum_list (ly_row st)
    \<and> (ly_boxes st \<noteq> [] \<longrightarrow> jb_left (last (ly_boxes st)) + jb_width (last (ly_boxes st)) = lo_containerWidth opts)
    \<and> (ly_row st \<noteq> [] \<longrightarrow>
        lo_targetRowHeight opts * sum_list (ly_row st) + lo_gap opts * (real (length (ly_row st)) - 1) < lo_containerWidth opts)"

lemma flush_laid_out:
  assumes "rs = placed @ ly_row st" "laid_out opts placed (ly_top st) (ly_boxes st)" "0 \<le> ly_top st"
    and "ly_boxes st \<noteq> [] \<longrightarrow> jb_left (last (ly_boxes st)) + jb_width (last (ly_boxes st)) = lo_containerWidth opts"
    and "0 < h" "h \<le> lo_targetRowHeight opts" "0 \<le> lo_gap opts" "list_all (\<lambda>r. 0 < r) (ly_row st)"
    and "h * sum_list (ly_row st) + lo_gap opts * (real (length (ly_row st)) - 1) \<le> lo_containerWidth opts"
  shows "laid_out opts rs (ly_top (flushRow opts h st)) (ly_boxes (flushRow opts h st))"
proof -
  have "\<forall>b \<in> set (row_boxes (lo_gap opts) (ly_top st) h 0 (ly_row st)). ly_top st \<le> jb_top b"
    using row_extent [OF assms(5,7,8)] by auto
  with laid_out_append [OF assms(2) row_laid_out [OF assms(5-8,3,9)]] assms(1,4,5,7) show ?thesis by (simp add: flushRow_def)
qed

lemma place_ratio_inv:
  assumes inv: "layout_inv opts rs st" and "0 < lo_containerWidth opts" "0 < lo_targetRowHeight opts" "0 \<le> lo_gap opts"
    and pos: "list_all (\<lambda>r. 0 < r \<and> lo_gap opts \<le> lo_targetRowHeight opts * r) (rs @ [r])"
  shows "layout_inv opts (rs @ [r]) (place_ratio opts st r)"
proof -
  let ?row = "ly_row st" and ?W = "lo_containerWidth opts" and ?g = "lo_gap opts" and ?t = "lo_targetRowHeight opts"
  obtain placed where placed: "rs = placed @ ?row" "laid_out opts placed (ly_top st) (ly_boxes st)"
    using inv by (auto simp: layout_inv_def)
  have rowpos: "list_all (\<lambda>r. 0 < r) (?row @ [r])" using pos placed(1) by (auto simp: list_all_iff)
  have sum: "0 < sum_list ?row + r"
    using rowpos sum_list_pos [of ?row] by simp
  have room: "real (length ?row) * ?g < ?W"
  proof (cases ?row)
    case Nil
    then show ?thesis using assms(2) by simp
  next
    case (Cons q qs)
    have "?g \<le> ?t * q" using pos placed(1) Cons by simp
    moreover have "0 \<le> ?t * sum_list qs"
      using rowpos Cons assms(3) by (simp add: sum_list_pos)
    moreover have "?t * (q + sum_list qs) + ?g * real (length qs) < ?W" using inv Cons by (simp add: layout_inv_def)
    ultimately show ?thesis using Cons by (simp add: algebra_simps)
  qed
  define h where "h = (?W - real (length ?row) * ?g) / (sum_list ?row + r)"
  have h: "0 < h" "h * (sum_list ?row + r) = ?W - real (length ?row) * ?g" using sum room by (simp_all add: h_def)
  define st1 where "st1 = st\<lparr>ly_row := ?row @ [r], ly_rowRatioSum := sum_list ?row + r\<rparr>"
  have place: "place_ratio opts st r = (if h \<le> ?t then flushRow opts h st1 else st1)"
    using inv by (simp add: place_ratio_def layout_inv_def h_def st1_def Let_def)
  show ?thesis
  proof (cases "h \<le> ?t")
    case True
    have "laid_out opts (rs @ [r]) (ly_top (flushRow opts h st1)) (ly_boxes (flushRow opts h st1))"
      by (rule flush_laid_out [where placed = placed]) (use inv placed h True rowpos assms(4) in \<open>simp_all add: st1_def layout_inv_def algebra_simps\<close>)
    moreover have "jb_left (last (ly_boxes (flushRow opts h st1))) + jb_width (last (ly_boxes (flushRow opts h st1))) = ?W"
      using row_right_edge [of "?row @ [r]" ?g "ly_top st" h 0] h(2) by (simp add: flushRow_def st1_def algebra_simps)
    ultimately show ?thesis using True h(1) assms(4) inv place by (simp add: layout_inv_def flushRow_def st1_def)
  next
    case False
    then have "?t * (sum_list ?row + r) < ?W - real (length ?row) * ?g" using sum h(2) by (metis mult_less_cancel_right_pos not_le)
    with False place placed inv show ?thesis by (auto simp: layout_inv_def st1_def algebra_simps)
  qed
qed

lemma foldl_place_inv:
  assumes "0 < lo_containerWidth opts" "0 < lo_targetRowHeight opts" "0 \<le> lo_gap opts"
    and "list_all (\<lambda>r. 0 < r \<and> lo_gap opts \<le> lo_targetRowHeight opts * r) rs"
  shows "layout_inv opts rs (foldl (place_ratio opts) empty_layout rs)"
  using assms(4)
proof (induction rs rule: rev_induct)
  case Nil
  then show ?case by (simp add: layout_inv_def empty_layout_def laid_out_def)
next
  case (snoc r rs)
  then show ?case using place_ratio_inv [OF snoc.IH assms(1-3)] by simp
qed

lemma justified_laid_out:
  assumes "0 < lo_containerWidth opts" "0 < lo_targetRowHeight opts" "0 \<le> lo_gap opts"
    and "list_all (\<lambda>r. 0 < r \<and> lo_gap opts \<le> lo_targetRowHeight opts * r) rs"
  shows "laid_out opts rs (snd (justifiedLayout rs opts) + lo_gap opts) (fst (justifiedLayout rs opts))"
proof -
  define st where "st = foldl (place_ratio opts) empty_layout rs"
  have inv: "layout_inv opts rs st" unfolding st_def by (rule foldl_place_inv [OF assms])
  then obtain placed where placed: "rs = placed @ ly_row st" "laid_out opts placed (ly_top st) (ly_boxes st)"
    by (auto simp: layout_inv_def)
  define st1 where "st1 = (if ly_row st \<noteq> [] then flushRow opts (lo_targetRowHeight opts) st else st)"
  have "list_all (\<lambda>r. 0 < r) (ly_row st)" using assms(4) placed(1) by (auto simp: list_all_iff)
  then have "laid_out opts rs (ly_top st1) (ly_boxes st1)"
    using flush_laid_out [OF placed, of "lo_targetRowHeight opts"] inv assms(2,3) placed by (auto simp: st1_def layout_inv_def)
  moreover have "ly_top st1 \<le> max 0 (ly_top st1 - lo_gap opts) + lo_gap opts" by simp
  ultimately show ?thesis
    by (auto simp: justifiedLayout_def Let_def laid_out_def box_fits_def list_all_iff simp flip: st_def st1_def)
qed

section \<open>Every photo once\<close>

definition group_ok :: "(string \<Rightarrow> string) \<Rightarrow> string \<times> (TimelineAsset \<times> nat) list \<Rightarrow> bool" where
  "group_ok f g \<longleftrightarrow> snd g \<noteq> [] \<and> (\<forall>x \<in> set (snd g). day_key f (fst x) = fst g) \<and> sorted_wrt (<) (map snd (snd g))"

lemma add_to_group_keys: "set (map fst (add_to_group k x gs)) = insert k (set (map fst gs))"
  by (induction k x gs rule: add_to_group.induct) auto

lemma add_to_group_distinct: "distinct (map fst gs) \<Longrightarrow> distinct (map fst (add_to_group k x gs))"
  by (induction k x gs rule: add_to_group.induct) (use add_to_group_keys in \<open>auto simp del: set_map\<close>)

lemma add_to_group_mset: "mset (concat (map snd (add_to_group k x gs))) = add_mset x (mset (concat (map snd gs)))"
  by (induction k x gs rule: add_to_group.induct) simp_all

lemma add_to_group_ok:
  "list_all (group_ok f) gs \<Longrightarrow> day_key f (fst x) = k \<Longrightarrow> \<forall>z \<in> set (concat (map snd gs)). snd z < snd x \<Longrightarrow>
    list_all (group_ok f) (add_to_group k x gs)"
  by (induction k x gs rule: add_to_group.induct) (auto simp: group_ok_def sorted_wrt_append)

lemma groups_from:
  fixes xs :: "(TimelineAsset \<times> nat) list" and f :: "string \<Rightarrow> string"
  assumes "sorted_wrt (<) (map snd xs)"
  defines "gs \<equiv> foldl (\<lambda>gs x. add_to_group (day_key f (fst x)) x gs) [] xs"
  shows "distinct (map fst gs) \<and> list_all (group_ok f) gs \<and> mset (concat (map snd gs)) = mset xs"
  using assms(1) unfolding gs_def
proof (induction xs rule: rev_induct)
  case (snoc x xs)
  let ?gs = "foldl (\<lambda>gs x. add_to_group (day_key f (fst x)) x gs) [] xs"
  have ih: "distinct (map fst ?gs)" "list_all (group_ok f) ?gs" "mset (concat (map snd ?gs)) = mset xs"
    using snoc by (simp_all add: sorted_wrt_append)
  have "set (concat (map snd ?gs)) = set xs" using ih(3) by (rule mset_eq_setD)
  then have "\<forall>z \<in> set (concat (map snd ?gs)). snd z < snd x" using snoc.prems by (auto simp: sorted_wrt_append)
  from add_to_group_ok [OF ih(2) refl this] add_to_group_distinct [OF ih(1)] add_to_group_mset ih(3) show ?case by simp
qed simp

text \<open>
  Every photo is on the wall once: each day has one group, its photos are those of that day in the
  order of the list, and the groups together hold every photo with its own index exactly once.
\<close>

theorem timeline_shows_every_photo:
  "distinct (map fst (groups f assets))
    \<and> list_all (group_ok f) (groups f assets)
    \<and> mset (concat (map snd (groups f assets))) = mset (zip assets [0..<length assets])"
  unfolding groups_def by (rule groups_from) simp

text \<open>
  C21. The wall of photos: for every width, each day's photos get one box each with the (clamped) aspect
  ratio of the photo, every box has a positive size, is no higher than asked for and lies inside the
  container, no two boxes overlap, those of a row and the rows keep the gap, and every row but the last
  fills the width exactly.
\<close>

theorem wall_is_justified:
  assumes "0 < W" "5 \<le> t" "n < length (groups f assets)" "layouts f W t assets ! n = (boxes, H)"
  shows "list_all2 (\<lambda>x b. jb_width b = tile_ratio (fst x) * jb_height b) (snd (groups f assets ! n)) boxes
    \<and> (\<forall>b \<in> set boxes. 0 < jb_height b \<and> jb_height b \<le> t \<and> 0 \<le> jb_left b \<and> jb_left b + jb_width b \<le> W
         \<and> 0 \<le> jb_top b \<and> jb_top b + jb_height b \<le> H)
    \<and> sorted_wrt (\<lambda>a b. jb_top a + jb_height a + GAP \<le> jb_top b \<or> jb_top a = jb_top b \<and> jb_left a + jb_width a + GAP \<le> jb_left b) boxes
    \<and> successively (\<lambda>a b. jb_top a \<noteq> jb_top b \<longrightarrow> jb_left a + jb_width a = W) boxes"
proof -
  let ?opts = "\<lparr>lo_containerWidth = W, lo_targetRowHeight = t, lo_gap = GAP\<rparr>"
  let ?rs = "map (tile_ratio \<circ> fst) (snd (groups f assets ! n))"
  have result: "justifiedLayout ?rs ?opts = (boxes, H)"
    using assms(1,3,4) by (simp add: layouts_def case_prod_beta)
  have ratio: "0 < tile_ratio a \<and> GAP \<le> t * tile_ratio a" for a
  proof -
    have "tile_ratio a = 1 \<or> (\<exists>x. tile_ratio a = max (2 / 5) x)" by (auto simp: tile_ratio_def split: option.splits)
    then have "2 / 5 \<le> tile_ratio a" by (elim disjE exE) (simp, simp only: max.cobounded1)
    moreover from this have "5 * (2 / 5) \<le> t * tile_ratio a" using assms(2) by (intro mult_mono) simp_all
    ultimately show ?thesis by (simp add: GAP_def)
  qed
  have "laid_out ?opts ?rs (H + GAP) boxes"
    using justified_laid_out [of ?opts ?rs] assms(1,2) ratio result by (simp add: list_all_iff GAP_def)
  then show ?thesis
    by (simp add: laid_out_def list_all_iff box_fits_def box_before_def [abs_def] row_ends_def [abs_def] keeps_ratio_def [abs_def] list_all2_map1)
qed

section \<open>Clicks\<close>

lemma fold_insert_range:
  "fold (\<lambda>i T. if i < length assets then insert (ta_id (assets ! i)) T else T) is S
    = S \<union> {ta_id (assets ! i) | i. i \<in> set is \<and> i < length assets}"
  by (induction "is" arbitrary: S) auto

lemma rangeSelect_eq:
  "rangeSelect assets i j S = S \<union> {ta_id (assets ! k) | k. min i j \<le> k \<and> k \<le> max i j \<and> k < length assets}"
  by (auto simp: rangeSelect_def fold_insert_range min_def max_def)

text \<open>
  Clicks do what they say: a gallery without downloads never selects; a click with shift adds the photos
  from the last clicked one to this one and takes none away; any other click turns exactly this photo
  around while a selection is active, and only opens it otherwise.
\<close>

theorem clicks_select_what_they_say:
  "let st' = onTileClick p a i shift st in
      (tp_readonly p \<longrightarrow> tl_selected st' = tl_selected st \<and> tl_opened st' = Some i)
    \<and> (\<not> tp_readonly p \<and> shift \<and> tl_lastClickedIndex st = Some j \<longrightarrow>
        tl_selected st' = tl_selected st \<union> {ta_id (tp_assets p ! k) | k. min j i \<le> k \<and> k \<le> max j i \<and> k < length (tp_assets p)})
    \<and> (\<not> tp_readonly p \<and> (\<not> shift \<or> tl_lastClickedIndex st = None) \<and> selectionActive p st \<longrightarrow>
        tl_opened st' = tl_opened st \<and> (\<forall>x. x \<in> tl_selected st' \<longleftrightarrow> (x \<in> tl_selected st) \<noteq> (x = ta_id a)))
    \<and> (\<not> tp_readonly p \<and> (\<not> shift \<or> tl_lastClickedIndex st = None) \<and> \<not> selectionActive p st \<longrightarrow>
        st' = st\<lparr>tl_opened := Some i\<rparr>)"
  unfolding Let_def
proof (intro conjI impI)
  let ?st = "onTileClick p a i shift st"
  show "tl_selected ?st = tl_selected st \<union> {ta_id (tp_assets p ! k) | k. min j i \<le> k \<and> k \<le> max j i \<and> k < length (tp_assets p)}"
    if "\<not> tp_readonly p \<and> shift \<and> tl_lastClickedIndex st = Some j"
    using that by (simp add: onTileClick_def Let_def rangeSelect_eq)
  have plain: "?st = (if ta_id a \<in> tl_selected st \<or> selectionActive p st
      then st\<lparr>tl_selected := toggle_photo (ta_id a) (tl_selected st), tl_lastClickedIndex := Some i\<rparr> else st\<lparr>tl_opened := Some i\<rparr>)"
    if "\<not> tp_readonly p" "\<not> shift \<or> tl_lastClickedIndex st = None"
    using that by (cases shift) (auto simp: onTileClick_def Let_def)
  show "tl_opened ?st = tl_opened st" "\<forall>x. x \<in> tl_selected ?st \<longleftrightarrow> (x \<in> tl_selected st) \<noteq> (x = ta_id a)"
    if "\<not> tp_readonly p \<and> (\<not> shift \<or> tl_lastClickedIndex st = None) \<and> selectionActive p st"
    using that plain by (auto simp: toggle_photo_def)
  show "?st = st\<lparr>tl_opened := Some i\<rparr>" if "\<not> tp_readonly p \<and> (\<not> shift \<or> tl_lastClickedIndex st = None) \<and> \<not> selectionActive p st"
    using that plain by (auto simp: selectionActive_def)
qed (simp_all add: onTileClick_def Let_def)

lemma toggleDay_eq:
  "tl_selected (toggleDay items st) =
    (if \<forall>x \<in> set items. ta_id (fst x) \<in> tl_selected st then tl_selected st - (ta_id \<circ> fst) ` set items
     else tl_selected st \<union> (ta_id \<circ> fst) ` set items)"
proof -
  have "fold (\<lambda>x S. if c then S - {ta_id (fst x)} else insert (ta_id (fst x)) S) items S
      = (if c then S - (ta_id \<circ> fst) ` set items else S \<union> (ta_id \<circ> fst) ` set items)" for c S
    by (cases c; induction items arbitrary: S) auto
  note each = this
  show ?thesis unfolding toggleDay_def Let_def each by (simp add: list_all_iff)
qed

text \<open>
  A day's circle: the first click on a day not wholly selected selects all of it, the next one clears
  all of it, and photos of other days are left alone.
\<close>

theorem day_is_selected_then_cleared:
  assumes "\<not> (\<forall>x \<in> set items. ta_id (fst x) \<in> tl_selected st)"
  shows "tl_selected (toggleDay items st) = tl_selected st \<union> (ta_id \<circ> fst) ` set items
    \<and> tl_selected (toggleDay items (toggleDay items st)) = tl_selected st - (ta_id \<circ> fst) ` set items"
  using assms by (auto simp: toggleDay_eq)

text \<open>
  The anchor of a shift-click is an index, and photos that arrive in the meantime are put in front: the
  range then begins before the photo that was clicked, at one outside of the range on the screen.
\<close>

theorem arrivals_move_the_anchor:
  assumes "distinct (map ta_id (new @ assets))" "new \<noteq> []" "i < length assets" "i < j" "j < length assets" "\<not> tp_readonly p"
    and "tl_selected st = {}" "tp_assets p = new @ assets" "a = (new @ assets) ! (j + length new)"
  shows "\<exists>x \<in> tl_selected (onTileClick p a (j + length new) True (onCheckboxClick (assets ! i) i st)).
    \<forall>k. i \<le> k \<and> k \<le> j \<longrightarrow> x \<noteq> ta_id (assets ! k)"
proof -
  have "(new @ assets) ! i \<in> {(new @ assets) ! k | k. min i (j + length new) \<le> k \<and> k \<le> max i (j + length new) \<and> k < length (new @ assets)}"
    using assms(3,4) by (auto simp: min_def max_def intro!: exI [of _ i])
  then have "ta_id ((new @ assets) ! i) \<in> tl_selected (onTileClick p a (j + length new) True (onCheckboxClick (assets ! i) i st))"
    using assms(6,8) by (auto simp: onTileClick_def onCheckboxClick_def rangeSelect_eq)
  moreover have "ta_id ((new @ assets) ! i) \<noteq> ta_id (assets ! k)" if "i \<le> k" "k \<le> j" for k
  proof -
    have "map ta_id (new @ assets) ! i \<noteq> map ta_id (new @ assets) ! (k + length new)"
      using assms(2,3,5) that by (subst nth_eq_iff_index_eq [OF assms(1)]) auto
    moreover have "map ta_id (new @ assets) ! i = ta_id ((new @ assets) ! i)" using assms(3) by (intro nth_map) simp
    moreover have "map ta_id (new @ assets) ! (k + length new) = ta_id (assets ! k)" using assms(5) that by (simp add: nth_append)
    ultimately show ?thesis by simp
  qed
  ultimately show ?thesis by blast
qed

section \<open>Witnesses\<close>

definition wit_tile :: "uuid \<Rightarrow> nat \<Rightarrow> TimelineAsset" where
  "wit_tile i w = \<lparr>ta_id = i, ta_width = Some w, ta_height = Some 100, ta_capturedAt = Some ''2024-05-01'', ta_createdAt = None\<rparr>"

definition wit_timeline :: timeline where
  "wit_timeline = \<lparr>tl_selected = {}, tl_lastClickedIndex = None, tl_opened = None\<rparr>"

text \<open>Three photos in a container of 400: two fill the first row, the last one stands alone.\<close>

theorem wall_is_justified_witness:
  "\<exists>boxes H. layouts (\<lambda>t. t) 400 200 [wit_tile ''a'' 100, wit_tile ''b'' 150, wit_tile ''c'' 100] = [(boxes, H)]
    \<and> length boxes = 3 \<and> (\<forall>b \<in> set boxes. jb_left b + jb_width b \<le> 400)"
proof -
  let ?as = "[wit_tile ''a'' 100, wit_tile ''b'' 150, wit_tile ''c'' 100]"
  have g: "groups (\<lambda>t. t) ?as = [(''2024-05-01'', [(wit_tile ''a'' 100, 0), (wit_tile ''b'' 150, 1), (wit_tile ''c'' 100, 2)])]"
    by (simp add: groups_def day_key_def wit_tile_def upt_rec)
  obtain boxes H where l: "layouts (\<lambda>t. t) 400 200 ?as = [(boxes, H)]"
    by (cases "justifiedLayout (map (tile_ratio \<circ> fst) [(wit_tile ''a'' 100, 0), (wit_tile ''b'' 150, 1), (wit_tile ''c'' 100, 2 :: nat)])
        \<lparr>lo_containerWidth = 400, lo_targetRowHeight = 200, lo_gap = GAP\<rparr>") (simp add: layouts_def g)
  have n: "0 < length (groups (\<lambda>t. t) ?as)" by (simp add: g)
  have m: "layouts (\<lambda>t. t) 400 200 ?as ! 0 = (boxes, H)" by (simp add: l)
  from wall_is_justified [OF _ _ n m] l show ?thesis by (auto simp: g dest: list_all2_lengthD)
qed

theorem clicks_select_what_they_say_witness:
  "tl_opened (onTileClick \<lparr>tp_assets = [wit_tile ''a'' 100], tp_selectMode = False, tp_readonly = False\<rparr> (wit_tile ''a'' 100) 0 False wit_timeline) = Some 0"
  using clicks_select_what_they_say [where a = "wit_tile ''a'' 100" and i = 0 and shift = False and st = wit_timeline
      and p = "\<lparr>tp_assets = [wit_tile ''a'' 100], tp_selectMode = False, tp_readonly = False\<rparr>"]
  by (simp add: Let_def selectionActive_def wit_timeline_def)

theorem day_is_selected_then_cleared_witness:
  "tl_selected (toggleDay [(wit_tile ''a'' 100, 0)] (toggleDay [(wit_tile ''a'' 100, 0)] wit_timeline)) = {}"
  using day_is_selected_then_cleared [of "[(wit_tile ''a'' 100, 0)]" wit_timeline] by (simp add: wit_timeline_def)

theorem arrivals_move_the_anchor_witness:
  "\<exists>x \<in> tl_selected (onTileClick \<lparr>tp_assets = [wit_tile ''n'' 100, wit_tile ''a'' 100, wit_tile ''b'' 100], tp_selectMode = False, tp_readonly = False\<rparr>
      (wit_tile ''b'' 100) 2 True (onCheckboxClick (wit_tile ''a'' 100) 0 wit_timeline)). x \<noteq> ''a'' \<and> x \<noteq> ''b''"
proof -
  let ?p = "\<lparr>tp_assets = [wit_tile ''n'' 100, wit_tile ''a'' 100, wit_tile ''b'' 100], tp_selectMode = False, tp_readonly = False\<rparr>"
  have "\<exists>x \<in> tl_selected (onTileClick ?p (wit_tile ''b'' 100) (1 + length [wit_tile ''n'' 100]) True (onCheckboxClick ([wit_tile ''a'' 100, wit_tile ''b'' 100] ! 0) 0 wit_timeline)).
      \<forall>k. 0 \<le> k \<and> k \<le> 1 \<longrightarrow> x \<noteq> ta_id ([wit_tile ''a'' 100, wit_tile ''b'' 100] ! k)"
    by (rule arrivals_move_the_anchor) (simp_all add: wit_tile_def wit_timeline_def)
  then obtain x where x: "x \<in> tl_selected (onTileClick ?p (wit_tile ''b'' 100) 2 True (onCheckboxClick (wit_tile ''a'' 100) 0 wit_timeline))"
    "\<forall>k. 0 \<le> k \<and> k \<le> 1 \<longrightarrow> x \<noteq> ta_id ([wit_tile ''a'' 100, wit_tile ''b'' 100] ! k)" by (auto simp: numeral_2_eq_2)
  from x(2) [rule_format, of 0] x(2) [rule_format, of 1] have "x \<noteq> ''a''" "x \<noteq> ''b''" by (simp_all add: wit_tile_def)
  with x(1) show ?thesis by blast
qed

end
