(* ===== verification/Telemetry.thy ===== *)
theory Telemetry
  imports Config
begin

text \<open>
  \<^verbatim>\<open>repositories/telemetry.repository.ts\<close>: every process publishes a sample of its host under a key of
  its own that Redis forgets after a minute, and the system panel reads whatever is there.

  Redis is a map from keys to a text and the time at which it expires. The operating system's
  figures, the answer of \<^verbatim>\<open>nvidia-smi\<close>, the JSON codec, \<^verbatim>\<open>Number\<close> of a text and the locale's order of
  ids are arguments; so are the pages that a scan returns, of which only what Redis promises is
  assumed: together they name every key that is there, possibly more than once.
\<close>

section \<open>The sample\<close>

record cpu_times =
  ct_user :: nat
  ct_nice :: nat
  ct_sys :: nat
  ct_idle :: nat
  ct_irq :: nat

definition cpu_total :: "cpu_times \<Rightarrow> nat" where
  "cpu_total c = ct_user c + ct_nice c + ct_sys c + ct_idle c + ct_irq c"

definition snapshot :: "cpu_times list \<Rightarrow> int \<times> int" where
  "snapshot cpus = (int (sum_list (map ct_idle cpus)), int (sum_list (map cpu_total cpus)))"

definition sampleCpuPercent :: "cpu_times list \<Rightarrow> cpu_times list \<Rightarrow> real" where
  "sampleCpuPercent before after =
    (let totalDelta = snd (snapshot after) - snd (snapshot before);
         idleDelta = fst (snapshot after) - fst (snapshot before)
     in if totalDelta \<le> 0 then 0
        else real_of_int (js_round ((1 - real_of_int idleDelta / real_of_int totalDelta) * 1000)) / 10)"

record HostGpu =
  gp_index :: real
  gp_name :: "string option"
  gp_utilizationPercent :: "real option"
  gp_memoryUsedMb :: "real option"
  gp_memoryTotalMb :: "real option"
  gp_temperatureC :: "real option"

text \<open>A field that is missing in the line is \<^verbatim>\<open>undefined\<close>, which is no number.\<close>

definition field :: "string list \<Rightarrow> nat \<Rightarrow> string option" where
  "field fs n = (if n < length fs then Some (fs ! n) else None)"

definition gpu_line :: "(string \<Rightarrow> real option) \<Rightarrow> string \<Rightarrow> HostGpu" where
  "gpu_line toNumber l =
    (let fs = map js_trim (split_on (CHR '','') l);
         num = (\<lambda>n. case field fs n of None \<Rightarrow> None | Some t \<Rightarrow> toNumber t)
     in \<lparr>gp_index = or_default (num 0) 0, gp_name = field fs 1, gp_utilizationPercent = num 2, gp_memoryUsedMb = num 3,
         gp_memoryTotalMb = num 4, gp_temperatureC = num 5\<rparr>)"

text \<open>What \<^verbatim>\<open>nvidia-smi\<close> answers: its output, or a failure with whether the message says \<^verbatim>\<open>ENOENT\<close>.\<close>

datatype smi_answer = Smi_output string | Smi_failed string bool

definition sampleGpus :: "(string \<Rightarrow> real option) \<Rightarrow> smi_answer \<Rightarrow> HostGpu list \<times> string option" where
  "sampleGpus toNumber answer =
    (case answer of
       Smi_output out \<Rightarrow> (map (gpu_line toNumber) (filter (\<lambda>l. l \<noteq> []) (map js_trim (split_on (CHR 0x0A) out))), None)
     | Smi_failed message isMissing \<Rightarrow> ([], if isMissing then None else Some message))"

record InstanceStatus =
  is_instanceId :: string
  is_hostname :: string
  is_roles :: "WorkerRole list"
  is_platform :: string
  is_arch :: string
  is_cpuModel :: string
  is_cpuCount :: nat
  is_cpuPercent :: real
  is_memoryTotal :: int
  is_memoryUsed :: int
  is_uptimeSeconds :: int
  is_processUptimeSeconds :: int
  is_rssBytes :: int
  is_nodeVersion :: string
  is_mlDevice :: MlDevice
  is_gpus :: "HostGpu list"
  is_gpuError :: "string option"
  is_reportedAt :: ms

text \<open>What the operating system says; the models are those of the cores.\<close>

record host =
  ho_hostname :: string
  ho_pid :: nat
  ho_platform :: string
  ho_arch :: string
  ho_models :: "string list"
  ho_uptime :: real
  ho_processUptime :: real
  ho_rss :: int
  ho_nodeVersion :: string
  ho_before :: "cpu_times list"
  ho_after :: "cpu_times list"
  ho_totalmem :: int
  ho_freemem :: int
  ho_smi :: smi_answer

definition instance_id :: "host \<Rightarrow> string" where
  "instance_id h = ho_hostname h @ '':'' @ js_decimal (ho_pid h)"

definition sample :: "(string \<Rightarrow> real option) \<Rightarrow> EnvData \<Rightarrow> host \<Rightarrow> ms \<Rightarrow> InstanceStatus" where
  "sample toNumber env h now =
    (case sampleGpus toNumber (ho_smi h) of
       (gpus, err) \<Rightarrow>
         \<lparr>is_instanceId = instance_id h, is_hostname = ho_hostname h, is_roles = en_workers env, is_platform = ho_platform h,
          is_arch = ho_arch h, is_cpuModel = (case ho_models h of [] \<Rightarrow> ''unknown'' | m # _ \<Rightarrow> js_trim m),
          is_cpuCount = length (ho_models h),
          is_cpuPercent = sampleCpuPercent (ho_before h) (ho_after h), is_memoryTotal = ho_totalmem h,
          is_memoryUsed = ho_totalmem h - ho_freemem h, is_uptimeSeconds = js_round (ho_uptime h),
          is_processUptimeSeconds = js_round (ho_processUptime h), is_rssBytes = ho_rss h, is_nodeVersion = ho_nodeVersion h,
          is_mlDevice = en_mlDevice env, is_gpus = gpus, is_gpuError = err,
          is_reportedAt = now\<rparr>)"

section \<open>Redis\<close>

definition KEY_PREFIX :: string where
  "KEY_PREFIX = ''el:telemetry:instance:''"

definition HEARTBEAT_TTL_SECONDS :: int where
  "HEARTBEAT_TTL_SECONDS = 60"

type_synonym redis = "string \<Rightarrow> (string \<times> ms) option"

definition redis_get :: "redis \<Rightarrow> ms \<Rightarrow> string \<Rightarrow> string option" where
  "redis_get r now k = (case r k of None \<Rightarrow> None | Some (v, expires) \<Rightarrow> if now < expires then Some v else None)"

definition publish :: "(InstanceStatus \<Rightarrow> string) \<Rightarrow> InstanceStatus \<Rightarrow> ms \<Rightarrow> redis \<Rightarrow> redis" where
  "publish json s now r = r(KEY_PREFIX @ is_instanceId s \<mapsto> (json s, now + HEARTBEAT_TTL_SECONDS * 1000))"

definition drop_key :: "string \<Rightarrow> redis \<Rightarrow> redis" where
  "drop_key i r = r(KEY_PREFIX @ i := None)"

definition getInstances :: "(string \<Rightarrow> InstanceStatus option) \<Rightarrow> (string \<Rightarrow> nat) \<Rightarrow> string list list \<Rightarrow> redis \<Rightarrow> ms \<Rightarrow> InstanceStatus list" where
  "getInstances parse rank pages r now =
    sort_key (\<lambda>s. rank (is_instanceId s))
      (List.map_filter (\<lambda>k. case redis_get r now k of None \<Rightarrow> None | Some v \<Rightarrow> if v = [] then None else parse v) (concat pages))"

section \<open>One process\<close>

text \<open>The heartbeat of a process: its interval, its connection, and the samples being taken.\<close>

record process_heartbeat =
  hb_interval :: bool
  hb_client :: bool
  hb_sampling :: nat

definition startHeartbeat :: "process_heartbeat \<Rightarrow> process_heartbeat" where
  "startHeartbeat p = p\<lparr>hb_interval := True, hb_sampling := hb_sampling p + 1\<rparr>"

definition heartbeat_tick :: "process_heartbeat \<Rightarrow> process_heartbeat" where
  "heartbeat_tick p = (if hb_interval p then p\<lparr>hb_sampling := hb_sampling p + 1\<rparr> else p)"

text \<open>A sample is complete: it is written, through a new connection when there is none.\<close>

definition sampled :: "(InstanceStatus \<Rightarrow> string) \<Rightarrow> InstanceStatus \<Rightarrow> ms \<Rightarrow> process_heartbeat \<times> redis \<Rightarrow> process_heartbeat \<times> redis" where
  "sampled json s now = (\<lambda>(p, r).
    if hb_sampling p = 0 then (p, r) else (p\<lparr>hb_sampling := hb_sampling p - 1, hb_client := True\<rparr>, publish json s now r))"

definition teardown :: "string \<Rightarrow> process_heartbeat \<times> redis \<Rightarrow> process_heartbeat \<times> redis" where
  "teardown i = (\<lambda>(p, r).
    (p\<lparr>hb_interval := False, hb_client := False\<rparr>, if hb_client p then drop_key i r else r))"

section \<open>Percentages\<close>

definition grown :: "cpu_times \<Rightarrow> cpu_times \<Rightarrow> bool" where
  "grown a b \<longleftrightarrow> ct_user a \<le> ct_user b \<and> ct_nice a \<le> ct_nice b \<and> ct_sys a \<le> ct_sys b \<and> ct_idle a \<le> ct_idle b \<and> ct_irq a \<le> ct_irq b"

lemma idle_within_total:
  "list_all2 grown before after \<Longrightarrow>
    fst (snapshot before) \<le> fst (snapshot after) \<and> fst (snapshot after) - fst (snapshot before) \<le> snd (snapshot after) - snd (snapshot before)"
  by (induction rule: list_all2_induct) (auto simp: snapshot_def grown_def cpu_total_def)

lemma js_round_between: "0 \<le> x \<Longrightarrow> x \<le> real_of_int n \<Longrightarrow> 0 \<le> js_round x \<and> js_round x \<le> n"
  unfolding js_round_def by linarith

text \<open>
  The load is a percentage: as long as no counter of a core runs backwards between the two looks, it lies
  between 0 and 100, also when no time has passed or the host has no cores to report.
\<close>

theorem load_is_a_percentage:
  assumes "list_all2 grown before after"
  shows "0 \<le> sampleCpuPercent before after \<and> sampleCpuPercent before after \<le> 100"
proof (cases "snd (snapshot after) - snd (snapshot before) \<le> 0")
  case False
  let ?t = "real_of_int (snd (snapshot after) - snd (snapshot before))" and ?i = "real_of_int (fst (snapshot after) - fst (snapshot before))"
  have "0 < ?t" "0 \<le> ?i" "?i \<le> ?t" using False idle_within_total [OF assms] by (simp_all del: of_int_diff)
  then have q: "0 \<le> ?i / ?t" "?i / ?t \<le> 1" by (simp_all del: of_int_diff)
  have "0 \<le> js_round ((1 - q) * 1000) \<and> js_round ((1 - q) * 1000) \<le> 1000" if "0 \<le> q" "q \<le> 1" for q :: real
    using that by (intro js_round_between) simp_all
  from this [OF q] False show ?thesis by (simp add: sampleCpuPercent_def Let_def del: of_int_diff)
qed (simp add: sampleCpuPercent_def)

section \<open>The panel\<close>

text \<open>What reaches Redis, in order: samples and, at a clean shutdown, the deletion of a key.\<close>

datatype redis_event = Published InstanceStatus | Key_dropped string

definition apply_event :: "(InstanceStatus \<Rightarrow> string) \<Rightarrow> redis \<Rightarrow> ms \<times> redis_event \<Rightarrow> redis" where
  "apply_event json r e = (case e of (t, Published s) \<Rightarrow> publish json s t r | (t, Key_dropped i) \<Rightarrow> drop_key i r)"

definition redis_after :: "(InstanceStatus \<Rightarrow> string) \<Rightarrow> (ms \<times> redis_event) list \<Rightarrow> redis" where
  "redis_after json = foldl (apply_event json) (\<lambda>_. None)"

definition concerns :: "string \<Rightarrow> redis_event \<Rightarrow> bool" where
  "concerns i e = (case e of Published s \<Rightarrow> is_instanceId s = i | Key_dropped j \<Rightarrow> j = i)"

text \<open>The sample is the latest word of its process, and less than a minute old.\<close>

definition latest_word :: "(ms \<times> redis_event) list \<Rightarrow> ms \<Rightarrow> InstanceStatus \<Rightarrow> bool" where
  "latest_word evs now s \<longleftrightarrow>
    (\<exists>pre t post. evs = pre @ (t, Published s) # post \<and> now < t + 60 * 1000 \<and> (\<forall>e \<in> set post. \<not> concerns (is_instanceId s) (snd e)))"

lemma latest_word_Nil: "\<not> latest_word [] now s"
  by (simp add: latest_word_def)

lemma latest_word_snoc:
  "latest_word (evs @ [(t, e)]) now s \<longleftrightarrow> e = Published s \<and> now < t + 60 * 1000 \<or> \<not> concerns (is_instanceId s) e \<and> latest_word evs now s"
  (is "?l \<longleftrightarrow> ?now \<or> ?before")
proof
  assume ?l
  then obtain pre u post where split: "evs @ [(t, e)] = pre @ (u, Published s) # post" "now < u + 60 * 1000"
    "\<forall>e \<in> set post. \<not> concerns (is_instanceId s) (snd e)" unfolding latest_word_def by blast
  show "?now \<or> ?before"
  proof (cases post rule: rev_cases)
    case Nil
    with split show ?thesis by simp
  next
    case (snoc post' x)
    with split(1) have "x = (t, e)" "evs = pre @ (u, Published s) # post'" by (simp_all flip: append_Cons append_assoc)
    with split(2,3) snoc show ?thesis by (auto simp: latest_word_def)
  qed
next
  assume "?now \<or> ?before"
  then show ?l
  proof
    assume ?now
    then show ?l unfolding latest_word_def by (intro exI [of _ evs] exI [of _ t] exI [of _ "[]"]) simp
  next
    assume before: ?before
    then obtain pre u post where "evs = pre @ (u, Published s) # post" "now < u + 60 * 1000"
      "\<forall>e \<in> set post. \<not> concerns (is_instanceId s) (snd e)" unfolding latest_word_def by blast
    with before show ?l unfolding latest_word_def by (intro exI [of _ pre] exI [of _ u] exI [of _ "post @ [(t, e)]"]) auto
  qed
qed

lemma redis_after_snoc: "redis_after json (evs @ [e]) = apply_event json (redis_after json evs) e"
  by (simp add: redis_after_def)

lemma redis_get_after:
  "redis_get (redis_after json evs) now (KEY_PREFIX @ i) = Some v \<longleftrightarrow> (\<exists>s. is_instanceId s = i \<and> v = json s \<and> latest_word evs now s)"
proof (induction evs rule: rev_induct)
  case Nil
  then show ?case by (simp add: redis_after_def redis_get_def latest_word_Nil)
next
  case (snoc e evs)
  obtain t ev where e: "e = (t, ev)" by (cases e)
  show ?case
  proof (cases "concerns i ev")
    case True
    then show ?thesis unfolding e latest_word_snoc redis_after_snoc
      by (cases ev) (auto simp: apply_event_def publish_def drop_key_def redis_get_def concerns_def HEARTBEAT_TTL_SECONDS_def)
  next
    case False
    then have "redis_after json (evs @ [e]) (KEY_PREFIX @ i) = redis_after json evs (KEY_PREFIX @ i)" unfolding e redis_after_snoc
      by (cases ev) (auto simp: apply_event_def publish_def drop_key_def concerns_def)
    then have "redis_get (redis_after json (evs @ [e])) now (KEY_PREFIX @ i) = redis_get (redis_after json evs) now (KEY_PREFIX @ i)"
      by (simp add: redis_get_def)
    moreover have "latest_word (evs @ [e]) now s \<longleftrightarrow> latest_word evs now s" if "is_instanceId s = i" for s
      using False that unfolding e latest_word_snoc by (auto simp: concerns_def)
    ultimately show ?thesis using snoc.IH by auto
  qed
qed


text \<open>
  A clean shutdown may leave its ghost: a sample that is still being taken when the process tears down is
  written afterwards, through a new connection, and the panel shows the process for another minute.
\<close>

theorem late_sample_leaves_a_ghost:
  assumes "0 < hb_sampling p" "json s \<noteq> []" "parse (json s) = Some s" "now < t + 60 * 1000"
  shows "case sampled json s t (teardown (is_instanceId s) (p, r)) of
      (p', r') \<Rightarrow> \<not> hb_interval p' \<and> hb_client p' \<and> s \<in> set (getInstances parse rank [[KEY_PREFIX @ is_instanceId s]] r' now)"
  using assms by (simp add: sampled_def teardown_def publish_def getInstances_def redis_get_def List.map_filter_def HEARTBEAT_TTL_SECONDS_def)

text \<open>Redis may name a key in more than one page, and then its process is listed twice.\<close>

theorem repeated_key_is_listed_twice:
  assumes "redis_get r now k = Some (json s)" "json s \<noteq> []" "parse (json s) = Some s"
  shows "getInstances parse rank [[k], [k]] r now = [s, s]"
  using assms by (simp add: getInstances_def List.map_filter_def)

section \<open>Witnesses\<close>

definition wit_status :: "string \<Rightarrow> InstanceStatus" where
  "wit_status i = \<lparr>is_instanceId = i, is_hostname = ''h'', is_roles = [], is_platform = ''linux'', is_arch = ''x64'', is_cpuModel = ''m'',
     is_cpuCount = 1, is_cpuPercent = 0, is_memoryTotal = 2, is_memoryUsed = 1, is_uptimeSeconds = 1, is_processUptimeSeconds = 1,
     is_rssBytes = 1, is_nodeVersion = ''v'', is_mlDevice = MlDevice_Cpu, is_gpus = [], is_gpuError = None, is_reportedAt = 0\<rparr>"

definition wit_cpu :: "nat \<Rightarrow> cpu_times" where
  "wit_cpu n = \<lparr>ct_user = n, ct_nice = 0, ct_sys = 0, ct_idle = n, ct_irq = 0\<rparr>"

theorem load_is_a_percentage_witness: "sampleCpuPercent [wit_cpu 1] [wit_cpu 5] \<le> 100"
  using load_is_a_percentage [of "[wit_cpu 1]" "[wit_cpu 5]"] by (simp add: grown_def wit_cpu_def)

lemma wit_id: "is_instanceId (wit_status i) = i"
  by (simp add: wit_status_def)

theorem late_sample_leaves_a_ghost_witness:
  "wit_status ''i'' \<in> set (getInstances (\<lambda>_. Some (wit_status ''i'')) length [[KEY_PREFIX @ ''i'']]
    (snd (sampled (\<lambda>_. ''{}'') (wit_status ''i'') 5 (teardown ''i'' (\<lparr>hb_interval = True, hb_client = True, hb_sampling = 1\<rparr>, \<lambda>_. None)))) 6)"
  using late_sample_leaves_a_ghost [where p = "\<lparr>hb_interval = True, hb_client = True, hb_sampling = 1\<rparr>" and json = "\<lambda>_. ''{}''"
      and s = "wit_status ''i''" and parse = "\<lambda>_. Some (wit_status ''i'')" and now = 6 and t = 5 and r = "\<lambda>_. None" and rank = length]
  by (simp add: case_prod_beta wit_id)


theorem repeated_key_is_listed_twice_witness:
  "getInstances (\<lambda>_. Some (wit_status ''i'')) length [[''k''], [''k'']] (\<lambda>_. Some (''{}'', 9)) 5 = [wit_status ''i'', wit_status ''i'']"
  by (rule repeated_key_is_listed_twice [where json = "\<lambda>_. ''{}''"]) (simp_all add: redis_get_def)

end
