(* ===== verification/WebClient.thy ===== *)
theory WebClient
  imports Routes
begin

text \<open>
  \<^verbatim>\<open>apps/web/src/lib/api.ts\<close> and the password form of \<^verbatim>\<open>settings/+page.svelte\<close>: the web client's
  calls, what it makes of an answer, and how the calls meet the routes of the server.

  A call is its verb and its path below \<^verbatim>\<open>/api\<close>, a template over the ids it is given; the query
  string decides no route and is left out. Ids, tokens and slugs go into the path as they are.
\<close>

section \<open>Answers\<close>

datatype json = JNull | JBool bool | JNum real | JStr string | JArr "json list" | JObj "(string \<times> json) list"

record http_answer =
  ha_status :: nat
  ha_statusText :: string
  ha_json :: "json option"     \<comment> \<open>\<open>None\<close>: the body is not JSON, an empty one included\<close>

datatype client_error = ApiError nat string "json option" | SyntaxError

definition json_field :: "string \<Rightarrow> json \<Rightarrow> json option" where
  "json_field k j = (case j of JObj fs \<Rightarrow> map_of fs k | _ \<Rightarrow> None)"

text \<open>The message of an error body; the text of a value that is no string is the language's own.\<close>

fun joined :: "(json \<Rightarrow> string) \<Rightarrow> json list \<Rightarrow> string" where
  "joined js_text [] = ''''"
| "joined js_text [x] = js_text x"
| "joined js_text (x # y # ys) = js_text x @ '', '' @ joined js_text (y # ys)"

definition error_message :: "(json \<Rightarrow> string) \<Rightarrow> http_answer \<Rightarrow> string" where
  "error_message js_text answer =
    (case ha_json answer of
       None \<Rightarrow> ha_statusText answer
     | Some b \<Rightarrow>
        (case json_field ''message'' b of
           Some (JArr xs) \<Rightarrow> joined js_text xs
         | Some JNull \<Rightarrow> ha_statusText answer
         | Some j \<Rightarrow> js_text j
         | None \<Rightarrow> ha_statusText answer))"

text \<open>\<open>None\<close> is \<^verbatim>\<open>undefined\<close>.\<close>

definition request :: "(json \<Rightarrow> string) \<Rightarrow> http_answer \<Rightarrow> client_error + json option" where
  "request js_text answer =
    (if \<not> (200 \<le> ha_status answer \<and> ha_status answer < 300)
     then Inl (ApiError (ha_status answer) (error_message js_text answer) (ha_json answer))
     else if ha_status answer = 204 then Inr None
     else (case ha_json answer of None \<Rightarrow> Inl SyntaxError | Some j \<Rightarrow> Inr (Some j)))"

section \<open>Calls\<close>

record client_call =
  cc_name :: string
  cc_verb :: http_verb
  cc_path :: "segment list"
  cc_void :: bool

definition call_of :: "http_verb \<Rightarrow> string \<Rightarrow> string \<Rightarrow> client_call" where
  "call_of v name path = \<lparr>cc_name = name, cc_verb = v, cc_path = path_of path, cc_void = False\<rparr>"

definition call_get :: "string \<Rightarrow> string \<Rightarrow> client_call" where "call_get = call_of Verb_GET"

definition call_post :: "string \<Rightarrow> string \<Rightarrow> client_call" where "call_post = call_of Verb_POST"

definition call_put :: "string \<Rightarrow> string \<Rightarrow> client_call" where "call_put = call_of Verb_PUT"

definition call_del :: "string \<Rightarrow> string \<Rightarrow> client_call" where "call_del = call_of Verb_DELETE"

text \<open>The addresses the client hands out are fetched: files with GET, a selection for a zip with POST.\<close>

definition url_of :: "string \<Rightarrow> string \<Rightarrow> client_call" where "url_of = call_of Verb_GET"

definition zip_url_of :: "string \<Rightarrow> string \<Rightarrow> client_call" where "zip_url_of = call_of Verb_POST"

definition returns_void :: "client_call \<Rightarrow> client_call" where "returns_void c = c\<lparr>cc_void := True\<rparr>"

definition api_root :: "client_call list" where
  "api_root =
    [call_post ''login'' ''auth/login'',
     returns_void (call_post ''logout'' ''auth/logout''),
     call_get ''me'' ''auth/me'',
     returns_void (call_put ''changePassword'' ''auth/password''),
     returns_void (call_post ''resetPassword'' ''auth/reset-password'')]"

definition api_admin :: "client_call list" where
  "api_admin =
    [call_get ''admin.listOrgs'' ''admin/organizations'',
     call_post ''admin.createOrg'' ''admin/organizations'',
     call_put ''admin.updateOrg'' ''admin/organizations/:orgId'',
     returns_void (call_del ''admin.removeOrg'' ''admin/organizations/:orgId''),
     call_get ''admin.stats'' ''admin/stats'',
     call_get ''admin.queues'' ''admin/queues'',
     returns_void (call_post ''admin.queueAction'' ''admin/queues/:name/:action''),
     call_get ''admin.jobs'' ''admin/jobs'',
     call_get ''admin.failedJobs'' ''admin/queues/:name/failed'',
     call_get ''admin.system'' ''admin/system'',
     call_get ''admin.gpu'' ''admin/gpu'',
     call_put ''admin.updateGpuConfig'' ''admin/gpu/config'',
     call_post ''admin.testGpuProvider'' ''admin/gpu/test'',
     call_get ''admin.audit'' ''admin/audit'',
     call_get ''admin.auditSummary'' ''admin/audit/summary'',
     call_post ''admin.flushAudit'' ''admin/audit/flush'',
     call_put ''admin.updatePlan'' ''admin/organizations/:orgId/plan'',
     call_post ''admin.startGpu'' ''admin/gpu/start'',
     call_post ''admin.holdGpu'' ''admin/gpu/hold'',
     call_del ''admin.clearGpuHold'' ''admin/gpu/hold'',
     call_post ''admin.stopGpu'' ''admin/gpu/stop'',
     call_get ''admin.supportTickets'' ''admin/support'',
     returns_void (call_put ''admin.updateSupportTicket'' ''admin/support/:id''),
     call_put ''admin.updateRetention'' ''admin/retention'']"

definition api_orgs :: "client_call list" where
  "api_orgs =
    [call_get ''orgs.quota'' ''orgs/:orgId/quota'',
     call_get ''orgs.shell'' ''orgs/:orgId/shell'',
     call_get ''orgs.usage'' ''orgs/:orgId/usage'',
     call_post ''orgs.submitSupport'' ''orgs/:orgId/support'',
     call_get ''orgs.notifications'' ''orgs/:orgId/notifications'',
     call_get ''orgs.assets'' ''orgs/:orgId/assets'',
     call_get ''orgs.people'' ''orgs/:orgId/people'',
     call_get ''orgs.mapMarkers'' ''orgs/:orgId/map-markers'',
     call_get ''orgs.members'' ''orgs/:orgId/members'',
     returns_void (call_post ''orgs.addMember'' ''orgs/:orgId/members''),
     returns_void (call_post ''orgs.resetMemberPassword'' ''orgs/:orgId/members/:userId/reset-password'')]"

definition api_events :: "client_call list" where
  "api_events =
    [call_get ''events.listMine'' ''events'',
     call_get ''events.listByOrg'' ''orgs/:orgId/events'',
     call_post ''events.create'' ''orgs/:orgId/events'',
     call_get ''events.get'' ''events/:eventId'',
     call_put ''events.update'' ''events/:eventId'',
     returns_void (call_del ''events.remove'' ''events/:eventId''),
     call_get ''events.processing'' ''events/:eventId/processing'',
     call_post ''events.reprocessFaces'' ''events/:eventId/reprocess-faces'',
     call_post ''events.extendExpiry'' ''events/:eventId/expiry/extend'',
     call_post ''events.acknowledgeExpiry'' ''events/:eventId/expiry/acknowledge'',
     call_put ''events.setCover'' ''events/:eventId/cover'',
     call_post ''events.purgeExpired'' ''events/:eventId/expiry/purge'']"

definition api_assets :: "client_call list" where
  "api_assets =
    [call_get ''assets.get'' ''events/:eventId/assets/:assetId'',
     call_get ''assets.list'' ''events/:eventId/assets'',
     call_post ''assets.bulkUploadCheck'' ''events/:eventId/assets/bulk-upload-check'',
     call_del ''assets.remove'' ''events/:eventId/assets'',
     call_get ''assets.random'' ''events/:eventId/assets/random'',
     call_get ''assets.similar'' ''events/:eventId/assets/:assetId/similar'',
     url_of ''assets.downloadUrl'' ''events/:eventId/assets/:assetId/download'',
     url_of ''assets.imageUrl'' ''events/:eventId/assets/:assetId/image'',
     zip_url_of ''assets.downloadManyUrl'' ''events/:eventId/assets/download'',
     returns_void (call_post ''assets.runJob'' ''events/:eventId/assets/:assetId/jobs'')]"

definition api_people :: "client_call list" where
  "api_people =
    [call_get ''people.list'' ''events/:eventId/people'',
     call_get ''people.get'' ''events/:eventId/people/:personId'',
     call_put ''people.update'' ''events/:eventId/people/:personId'',
     call_post ''people.merge'' ''events/:eventId/people/:personId/merge'',
     call_put ''people.setCover'' ''events/:eventId/people/:personId/cover'',
     call_get ''people.assets'' ''events/:eventId/people/:personId/assets'']"

definition api_participants :: "client_call list" where
  "api_participants =
    [call_get ''participants.list'' ''events/:eventId/participants'',
     returns_void (call_post ''participants.resend'' ''events/:eventId/participants/:participantId/resend''),
     returns_void (call_del ''participants.remove'' ''events/:eventId/participants/:participantId'')]"

definition api_cloud :: "client_call list" where
  "api_cloud =
    [url_of ''cloud.authorizeUrl'' ''orgs/:orgId/cloud/:provider/authorize'',
     call_get ''cloud.listAccounts'' ''orgs/:orgId/cloud/accounts'',
     returns_void (call_del ''cloud.disconnect'' ''orgs/:orgId/cloud/accounts/:accountId''),
     call_get ''cloud.listFolders'' ''orgs/:orgId/cloud/accounts/:accountId/folders'']"

definition api_imports :: "client_call list" where
  "api_imports =
    [call_post ''imports.create'' ''events/:eventId/imports'',
     call_get ''imports.list'' ''events/:eventId/imports'',
     call_get ''imports.get'' ''events/:eventId/imports/:importId'',
     returns_void (call_post ''imports.cancel'' ''events/:eventId/imports/:importId/cancel'')]"

definition api_public :: "client_call list" where
  "api_public =
    [call_get ''public.event'' ''public/events/:slug'',
     call_post ''public.submitSelfie'' ''public/events/:slug/participants'',
     call_get ''public.selfieProgress'' ''public/selfie-progress/:ticket'',
     call_post ''public.submitSupport'' ''public/support'',
     call_get ''public.gallery'' ''public/gallery/:token'',
     call_get ''public.eventAssets'' ''public/gallery/:token/event-assets'',
     url_of ''public.galleryDownloadUrl'' ''public/gallery/:token/assets/:assetId/download'',
     url_of ''public.galleryDownloadAllUrl'' ''public/gallery/:token/download'',
     call_get ''public.assetFaces'' ''public/gallery/:token/assets/:assetId/faces'',
     call_get ''public.person'' ''public/gallery/:token/people/:personId'']"

text \<open>The whole client, with the upload of one file.\<close>

definition api :: "client_call list" where
  "api = api_root @ api_admin @ api_orgs @ api_events @ api_assets @ api_people @ api_participants @ api_cloud @ api_imports @ api_public
     @ [call_post ''uploadAsset'' ''events/:eventId/assets'']"

text \<open>The handler each call means, in the same order.\<close>

definition meant_handlers :: "string list" where
  "meant_handlers =
    [''AuthController.login'',
     ''AuthController.logout'',
     ''AuthController.me'',
     ''AuthController.changePassword'',
     ''AuthController.resetPassword'',
     ''AdminController.listOrganizations'',
     ''AdminController.createOrganization'',
     ''AdminController.updateOrganization'',
     ''AdminController.removeOrganization'',
     ''AdminController.getStats'',
     ''AdminController.getQueues'',
     ''AdminController.runQueueAction'',
     ''AdminController.getJobs'',
     ''AdminController.getFailedJobs'',
     ''AdminController.getSystemStatus'',
     ''AdminController.getGpuStatus'',
     ''AdminController.updateGpuConfig'',
     ''AdminController.testGpuProvider'',
     ''AdminController.listAudit'',
     ''AdminController.auditSummary'',
     ''AdminController.flushAudit'',
     ''AdminController.updatePlan'',
     ''AdminController.startGpu'',
     ''AdminController.holdGpu'',
     ''AdminController.clearGpuHold'',
     ''AdminController.stopGpu'',
     ''SupportController.list'',
     ''SupportController.update'',
     ''AdminController.updateRetention'',
     ''OrganizationController.getQuota'',
     ''OrganizationController.getShell'',
     ''OrganizationController.getUsage'',
     ''SupportController.create'',
     ''OrganizationController.getNotifications'',
     ''EventController.listOrgAssets'',
     ''OrganizationController.listPeople'',
     ''OrganizationController.getMapMarkers'',
     ''OrganizationController.listMembers'',
     ''OrganizationController.addMember'',
     ''OrganizationController.resetMemberPassword'',
     ''EventController.listMyEvents'',
     ''EventController.listEvents'',
     ''EventController.createEvent'',
     ''EventController.getEvent'',
     ''EventController.updateEvent'',
     ''EventController.removeEvent'',
     ''EventController.getProcessingStatus'',
     ''EventController.reprocessFaces'',
     ''EventController.extendExpiry'',
     ''EventController.acknowledgeExpiry'',
     ''EventController.setCover'',
     ''EventController.purgeExpiredMedia'',
     ''AssetController.get'',
     ''AssetController.list'',
     ''AssetController.bulkUploadCheck'',
     ''AssetController.deleteMany'',
     ''AssetController.random'',
     ''AssetController.similar'',
     ''AssetController.download'',
     ''AssetController.image'',
     ''AssetController.downloadMany'',
     ''AssetController.runJob'',
     ''PersonController.list'',
     ''PersonController.get'',
     ''PersonController.update'',
     ''PersonController.merge'',
     ''PersonController.setCover'',
     ''PersonController.getAssets'',
     ''ParticipantAdminController.list'',
     ''ParticipantAdminController.resend'',
     ''ParticipantAdminController.remove'',
     ''CloudController.authorize'',
     ''CloudController.listAccounts'',
     ''CloudController.disconnect'',
     ''CloudController.listFolders'',
     ''ImportController.create'',
     ''ImportController.list'',
     ''ImportController.get'',
     ''ImportController.cancel'',
     ''PublicController.getEvent'',
     ''PublicController.submitSelfie'',
     ''PublicController.getSelfieProgress'',
     ''SupportController.createPublic'',
     ''PublicController.getGallery'',
     ''PublicController.getEventAssets'',
     ''PublicController.download'',
     ''PublicController.downloadAll'',
     ''PublicController.getAssetFaces'',
     ''PublicController.getPerson'',
     ''AssetController.upload'']"

section \<open>Calls meet routes\<close>

text \<open>The path of a call for the given ids.\<close>

definition path_values :: "(string \<Rightarrow> string) \<Rightarrow> segment list \<Rightarrow> string list" where
  "path_values f = map (\<lambda>s. case s of Lit l \<Rightarrow> l | Par p \<Rightarrow> f p)"

definition bound_values :: "(string \<Rightarrow> string) \<Rightarrow> segment list \<Rightarrow> path_params" where
  "bound_values f ss = map (\<lambda>p. (p, f p)) (params_of ss)"

definition plain_segment :: "segment \<Rightarrow> bool" where
  "plain_segment s = (case s of Lit l \<Rightarrow> l \<noteq> [] \<and> toLowerCase l = l | Par p \<Rightarrow> True)"

text \<open>Words are compared up to the first difference, which keeps the check of the tables short.\<close>

fun same_word :: "string \<Rightarrow> string \<Rightarrow> bool" where
  "same_word [] [] = True"
| "same_word (x # xs) (y # ys) = (if x = y then same_word xs ys else False)"
| "same_word _ _ = False"

lemma same_word_iff [simp]: "same_word xs ys \<longleftrightarrow> xs = ys"
  by (induction xs ys rule: same_word.induct) auto

text \<open>Whether a pattern may match a call for some ids, none of which is the word \<open>random\<close> for an asset.\<close>

fun may_match :: "segment list \<Rightarrow> segment list \<Rightarrow> bool" where
  "may_match [] [] = True"
| "may_match (Lit l # ss) (Lit m # ts) = (if same_word l m then may_match ss ts else False)"
| "may_match (Lit l # ss) (Par p # ts) = (if same_word l ''random'' then if same_word p ''assetId'' then False else may_match ss ts else may_match ss ts)"
| "may_match (Par q # ss) (t # ts) = may_match ss ts"
| "may_match _ _ = False"

lemma match_may_match:
  "match_path ss (path_values f ts) \<noteq> None \<Longrightarrow> list_all plain_segment ss \<Longrightarrow> list_all plain_segment ts \<Longrightarrow>
    toLowerCase (f ''assetId'') \<noteq> ''random'' \<Longrightarrow> may_match ss ts"
  by (induction ss ts rule: may_match.induct) (auto simp: path_values_def plain_segment_def split: if_splits segment.splits)

lemma match_own_path:
  "list_all plain_segment ts \<Longrightarrow> (\<And>p. f p \<noteq> []) \<Longrightarrow> match_path ts (path_values f ts) = Some (bound_values f ts)"
  by (induction ts) (auto simp: path_values_def plain_segment_def bound_values_def params_of_def split: segment.splits)

text \<open>The route a call may reach: the first that answers its verb and may match its path.\<close>

definition may_reach :: "client_call \<Rightarrow> route \<Rightarrow> bool" where
  "may_reach c r = (if answers_verb (rt_verb r) (cc_verb c) then may_match (rt_path r) (cc_path c) else False)"

text \<open>\<open>select_first\<close> with its branch as an argument, which evaluates faster on a long table.\<close>

fun first_route :: "client_call \<Rightarrow> route list \<Rightarrow> route option"
  and keep_or_go_on :: "bool \<Rightarrow> client_call \<Rightarrow> route \<Rightarrow> route list \<Rightarrow> route option" where
  "first_route c [] = None"
| "first_route c (r # rs) = keep_or_go_on (may_reach c r) c r rs"
| "keep_or_go_on True c r rs = Some r"
| "keep_or_go_on False c r rs = first_route c rs"

lemma first_route_eq: "first_route c rs = select_first (may_reach c) rs"
  and keep_or_go_on_eq: "keep_or_go_on b c r rs = (if b then Some r else select_first (may_reach c) rs)"
  by (induction c rs and b c r rs rule: first_route_keep_or_go_on.induct) simp_all

definition reaches :: "client_call \<Rightarrow> string \<Rightarrow> route option \<Rightarrow> bool" where
  "reaches c h x = (case x of None \<Rightarrow> False | Some r \<Rightarrow> if rt_path r = cc_path c then same_word (rt_handler r) h else False)"

fun all_reach :: "route list \<Rightarrow> client_call list \<Rightarrow> string list \<Rightarrow> bool"
  and go_on :: "bool \<Rightarrow> route list \<Rightarrow> client_call list \<Rightarrow> string list \<Rightarrow> bool" where
  "all_reach rs [] [] = True"
| "all_reach rs (c # cs) (h # hs) = go_on (reaches c h (first_route c rs)) rs cs hs"
| "all_reach rs _ _ = False"
| "go_on True rs cs hs = all_reach rs cs hs"
| "go_on False rs cs hs = False"

lemma all_reach_iff:
  "all_reach rs cs hs \<longleftrightarrow> list_all2 (\<lambda>c h. reaches c h (first_route c rs)) cs hs"
  and "go_on b rs cs hs \<longleftrightarrow> b \<and> list_all2 (\<lambda>c h. reaches c h (first_route c rs)) cs hs"
  by (induction rs cs hs and b rs cs hs rule: all_reach_go_on.induct) auto

lemma api_reaches: "all_reach routes api meant_handlers"
  by code_simp

lemma plain_routes: "list_all (\<lambda>r. list_all plain_segment (rt_path r)) routes"
  by code_simp

lemma plain_calls: "list_all (\<lambda>c. list_all plain_segment (cc_path c)) api"
  by code_simp

definition ids_ok :: "(string \<Rightarrow> string) \<Rightarrow> bool" where
  "ids_ok f \<longleftrightarrow> (\<forall>p. f p \<noteq> []) \<and> toLowerCase (f ''assetId'') \<noteq> ''random''"

text \<open>A call whose own route comes first among those it may reach is dispatched to it.\<close>

lemma dispatch_call:
  assumes "ids_ok f" "c \<in> set api" "first_route c routes = Some r" "rt_path r = cc_path c"
  shows "dispatch (cc_verb c) (path_values f (cc_path c)) = Some (r, bound_values f (cc_path c))"
proof -
  let ?xs = "path_values f (cc_path c)"
  have plain: "list_all plain_segment (cc_path c)" using plain_calls assms(2) by (simp add: list_all_iff)
  have own: "match_path (rt_path r) ?xs = Some (bound_values f (cc_path c))"
    unfolding assms(4) by (rule match_own_path [OF plain]) (use assms(1) in \<open>simp add: ids_ok_def\<close>)
  have may: "may_reach c x" if "x \<in> set routes" "matches (cc_verb c) ?xs x" for x
    using that plain_routes plain assms(1) match_may_match [of "rt_path x" f "cc_path c"]
    by (simp add: may_reach_def matches_def list_all_iff ids_ok_def)
  have first: "select_first (may_reach c) routes = Some r" using assms(3) by (simp add: first_route_eq)
  have "select_first (\<lambda>x. may_reach c x \<and> x \<in> set routes) routes = Some r"
    unfolding first [symmetric] by (rule select_first_cong) simp
  moreover have "matches (cc_verb c) ?xs r \<and> r \<in> set routes"
    using select_first_SomeD [OF first] own by (simp add: matches_def may_reach_def split: if_splits)
  ultimately have "select_first (\<lambda>x. matches (cc_verb c) ?xs x \<and> x \<in> set routes) routes = Some r"
    by (rule select_first_narrow) (use may in blast)
  then have "select_first (matches (cc_verb c) ?xs) routes = Some r"
    by (subst select_first_cong [of routes _ "\<lambda>x. matches (cc_verb c) ?xs x \<and> x \<in> set routes"]) simp_all
  then show ?thesis using own by (simp add: dispatch_def)
qed


section \<open>Calls that return nothing\<close>

definition json_calls :: "string list" where
  "json_calls = [''logout'', ''changePassword'']"

fun all_status :: "route list \<Rightarrow> client_call list \<Rightarrow> (string \<times> nat option) list" where
  "all_status rs [] = []"
| "all_status rs (c # cs) = (cc_name c, map_option rt_status (first_route c rs)) # all_status rs cs"

lemma all_status_eq: "all_status rs cs = map (\<lambda>c. (cc_name c, map_option rt_status (first_route c rs))) cs"
  by (induction cs) simp_all

lemma void_statuses:
  "list_all (\<lambda>(name, status). status = Some (if name \<in> set json_calls then 200 else 204)) (all_status routes (filter cc_void api))"
  by code_simp

text \<open>
  What a call without result makes of an empty answer, which is what a handler without result gives: all
  get their \<^verbatim>\<open>undefined\<close> but two, which are answered with 200 and fail on the empty body.
\<close>

theorem empty_answers_reach_callers:
  assumes "\<forall>p. f p \<noteq> []" "toLowerCase (f ''assetId'') \<noteq> ''random''" "c \<in> set api" "cc_void c"
    and "dispatch (cc_verb c) (path_values f (cc_path c)) = Some (r, ps)"
  shows "request js_text \<lparr>ha_status = rt_status r, ha_statusText = text, ha_json = None\<rparr>
    = (if cc_name c \<in> set json_calls then Inl SyntaxError else Inr None)"
proof -
  obtain n where n: "n < length api" "c = api ! n" using assms(3) by (metis in_set_conv_nth)
  have "list_all2 (\<lambda>c h. reaches c h (first_route c routes)) api meant_handlers" using api_reaches by (simp add: all_reach_iff)
  from list_all2_nthD [OF this n(1)] obtain r' where r': "first_route c routes = Some r'" "rt_path r' = cc_path c"
    by (auto simp: n(2) reaches_def split: option.splits if_splits)
  have "r' = r" using dispatch_call [OF _ assms(3) r'] assms(1,2,5) by (simp add: ids_ok_def)
  moreover have "map_option rt_status (first_route c routes) = Some (if cc_name c \<in> set json_calls then 200 else 204)"
    using void_statuses assms(3,4) by (simp add: all_status_eq list_all_iff)
  ultimately show ?thesis using r'(1) by (simp add: request_def split: if_splits)
qed

section \<open>The password form\<close>

record password_form =
  pw_current :: string
  pw_next :: string
  pw_confirm :: string
  pw_saving :: bool
  pw_saved :: bool
  pw_error :: string

definition canSubmit :: "password_form \<Rightarrow> bool" where
  "canSubmit p \<longleftrightarrow> length (pw_current p) > 0 \<and> length (pw_next p) \<ge> 8 \<and> pw_next p = pw_confirm p
     \<and> \<not> (length (pw_next p) > 0 \<and> pw_next p = pw_current p) \<and> \<not> pw_saving p"

definition form_changePassword :: "client_error + json option \<Rightarrow> password_form \<Rightarrow> password_form" where
  "form_changePassword result p =
    (if \<not> canSubmit p then p
     else case result of
       Inr _ \<Rightarrow> p\<lparr>pw_saving := False, pw_saved := True, pw_error := '''', pw_current := '''', pw_next := '''', pw_confirm := ''''\<rparr>
     | Inl e \<Rightarrow> p\<lparr>pw_saving := False, pw_saved := False,
                 pw_error := (case e of ApiError _ message _ \<Rightarrow> message | SyntaxError \<Rightarrow> ''Could not change your password'')\<rparr>)"

text \<open>The server's answer: an error's status with its message, or the route's status and an empty body.\<close>

definition error_status :: "http_error \<Rightarrow> nat \<times> string" where
  "error_status e =
    (case e of
       BadRequest m \<Rightarrow> (400, m) | Unauthorized m \<Rightarrow> (401, m) | Forbidden m \<Rightarrow> (403, m) | NotFound m \<Rightarrow> (404, m)
     | Gone m _ \<Rightarrow> (410, m) | TooManyRequests m \<Rightarrow> (429, m) | PayloadTooLarge m \<Rightarrow> (413, m) | ServerError m \<Rightarrow> (500, m))"

definition error_answer :: "http_error \<Rightarrow> http_answer" where
  "error_answer e =
    (case error_status e of (status, message) \<Rightarrow>
       \<lparr>ha_status = status, ha_statusText = '''', ha_json = Some (JObj [(''message'', JStr message)])\<rparr>)"

definition serve_changePassword :: "crypto \<Rightarrow> http_request \<Rightarrow> string \<Rightarrow> string \<Rightarrow> ms \<Rightarrow> world \<Rightarrow> http_answer \<times> world" where
  "serve_changePassword cr req password newPassword now w =
    (case (serve cr req now w, dispatch (hq_verb req) (hq_path req)) of
       (Inr (_, _, Some auth), Some (r, _)) \<Rightarrow>
         (case changePassword cr auth password newPassword now w of
            (Inl e, w') \<Rightarrow> (error_answer e, w')
          | (Inr _, w') \<Rightarrow> (\<lparr>ha_status = rt_status r, ha_statusText = '''', ha_json = None\<rparr>, w'))
     | (Inl e, _) \<Rightarrow> (error_answer e, w)
     | _ \<Rightarrow> (error_answer (ServerError ''TypeError''), w))"

lemma password_route:
  "map_option (\<lambda>(r, ps). (rt_handler r, rt_auth r, ps, rt_status r)) (dispatch Verb_PUT [''auth'', ''password''])
    = Some (''AuthController.changePassword'', Authenticated, [], 200)"
  by code_simp

text \<open>
  C36. A changed password looks unchanged: when the server has changed the password, the form reports
  that it could not be changed, whatever was typed and whoever is signed in.
\<close>

theorem changed_password_looks_unchanged:
  assumes "canSubmit p" "hq_verb req = Verb_PUT" "hq_path req = [''auth'', ''password'']"
    and "serve cr req now w = Inr (h, ps, Some auth)"
    and "changePassword cr auth (pw_current p) (pw_next p) now w = (Inr (), w')"
  shows "case serve_changePassword cr req (pw_current p) (pw_next p) now w of
      (answer, w1) \<Rightarrow> w1 = w' \<and> pw_saved (form_changePassword (request js_text answer) p) = False
        \<and> pw_error (form_changePassword (request js_text answer) p) = ''Could not change your password''"
proof -
  obtain r qs where "dispatch (hq_verb req) (hq_path req) = Some (r, qs)" "rt_status r = 200"
    using password_route assms(2,3) by auto
  then show ?thesis using assms(1,4,5) by (simp add: serve_changePassword_def request_def form_changePassword_def)
qed

section \<open>Witnesses\<close>

definition wit_ids :: "string \<Rightarrow> string" where
  "wit_ids p = ''0-1''"

lemma wit_ids_ok: "\<forall>p. wit_ids p \<noteq> []" "toLowerCase (wit_ids ''assetId'') \<noteq> ''random''"
proof -
  have "length (toLowerCase (wit_ids ''assetId'')) \<noteq> length ''random''" by (simp add: toLowerCase_def wit_ids_def)
  then show "toLowerCase (wit_ids ''assetId'') \<noteq> ''random''" by metis
qed (simp add: wit_ids_def)

lemma api_start: "0 < length api" "api ! 1 = returns_void (call_post ''logout'' ''auth/logout'')" "1 < length api"
  by (simp_all add: api_def api_root_def)


theorem empty_answers_reach_callers_witness:
  "\<exists>status. request (\<lambda>_. '''') \<lparr>ha_status = status, ha_statusText = '''', ha_json = None\<rparr> = Inl SyntaxError"
proof -
  have c: "api ! 1 \<in> set api" "cc_void (api ! 1)" "cc_name (api ! 1) \<in> set json_calls"
    by (rule nth_mem [OF api_start(3)]) (simp_all add: api_start(2) returns_void_def call_post_def call_of_def json_calls_def del: One_nat_def)
  obtain r ps where d: "dispatch (cc_verb (api ! 1)) (path_values wit_ids (cc_path (api ! 1))) = Some (r, ps)"
    using dispatch_call [of wit_ids "api ! 1"] list_all2_nthD [OF api_reaches [unfolded all_reach_iff] api_start(3)] c(1) wit_ids_ok
    by (auto simp: reaches_def ids_ok_def split: option.splits if_splits)
  from empty_answers_reach_callers [OF wit_ids_ok c(1,2) d, of "\<lambda>_. ''''" "''''"] c(3) show ?thesis by auto
qed

theorem changed_password_looks_unchanged_witness:
  "\<exists>p w'. changePassword wit_crypto wit_auth ''pw'' ''longenough'' 5 wit_route_world = (Inr (), w')
    \<and> (case serve_changePassword wit_crypto (wit_http Verb_PUT [''auth'', ''password'']) ''pw'' ''longenough'' 5 wit_route_world of
        (answer, w1) \<Rightarrow> w1 = w' \<and> \<not> pw_saved (form_changePassword (request (\<lambda>_. '''') answer) p))"
proof -
  let ?req = "wit_http Verb_PUT [''auth'', ''password'']"
  define p where "p = \<lparr>pw_current = ''pw'', pw_next = ''longenough'', pw_confirm = ''longenough'', pw_saving = False, pw_saved = False, pw_error = ''''\<rparr>"
  have p: "canSubmit p" "pw_current p = ''pw''" "pw_next p = ''longenough''" by (simp_all add: p_def canSubmit_def)
  have "map_option (\<lambda>(r, ps). (rt_handler r, rt_auth r, ps)) (dispatch Verb_PUT [''auth'', ''password'']) = Some (''AuthController.changePassword'', Authenticated, [])"
    using password_route by auto
  then have s: "serve wit_crypto ?req 5 wit_route_world = Inr (''AuthController.changePassword'', [], Some wit_auth)"
    by (rule wit_serve)
      (use wit_validate [of Verb_PUT "[''auth'', ''password'']" "[]"] in \<open>simp add: canActivate_def Authenticated_def authenticate_def wit_auth_def\<close>)
  have "fst (changePassword wit_crypto wit_auth ''pw'' ''longenough'' 5 wit_route_world) = Inr ()"
    by (simp add: changePassword_def user_getById_def wit_route_world_def wit_auth_defs wit_auth_def Let_def)
  then obtain w' where c: "changePassword wit_crypto wit_auth (pw_current p) (pw_next p) 5 wit_route_world = (Inr (), w')"
    unfolding p by (metis prod.collapse)
  have "case serve_changePassword wit_crypto ?req (pw_current p) (pw_next p) 5 wit_route_world of
      (answer, w1) \<Rightarrow> w1 = w' \<and> pw_saved (form_changePassword (request (\<lambda>_. '''') answer) p) = False
        \<and> pw_error (form_changePassword (request (\<lambda>_. '''') answer) p) = ''Could not change your password''"
    by (rule changed_password_looks_unchanged [OF p(1) _ _ s c]) (simp_all add: wit_http_def anonymous_get_def)
  with c show ?thesis unfolding p by (intro exI [of _ p] exI [of _ w']) (auto split: prod.splits)
qed

end
