(* ===== verification/Spec2Isabelle.thy ===== *)
theory Spec2Isabelle
  imports GpuPolicy OrgReports EventExpiry Cleanup ImportPolicy FacePolicy RateLimiter ParticipantPolicy AssetPolicy
    NotificationPolicy SimilarPhotos ObjectStore CloudProviders Routes BrowserUploads
    Timeline Telemetry WebClient
begin

text \<open>
  A verification development for the EventLens backend (\<^verbatim>\<open>apps/backend/src\<close>), the service
  behind an event photo platform, and for the logic of its web client (\<^verbatim>\<open>apps/web/src\<close>): organizers upload or import media, a GPU box processes it, guests
  find themselves with a selfie, and everything is deleted again when the event is over.

  \<^bold>\<open>The program.\<close> A NestJS process serves the API and runs the queue workers. All state is in
  Postgres, the job queues and one S3-compatible bucket (R2); services read and write it through
  repositories of SQL statements. A media job may only run on the GPU box, which the API process
  starts and stops through a provider.

  \<^bold>\<open>The model.\<close> \<open>Schema.world\<close> is that shared state: one list of records per table, the
  configuration rows, the jobs handed to the queues, the keys of the stored objects and the files in
  staging. A handler is a function from its arguments, the clock reading and the world to its
  outcome and the new world; every exception and early return of the source is a branch. What the
  code does not decide is an argument: fresh ids and tokens, bcrypt, AES and JSON, the GPU
  provider, the cloud drives, whether R2 accepts a put, and what other requests do in between where
  the code is written for that case. Message texts and log lines are left out.

  \<^bold>\<open>The theories, in the order of the code.\<close>
  \<^item> \<open>Prelude\<close>, \<open>Text\<close>: outcomes, JavaScript arithmetic and text, tables as lists with
    their statements, the locales \<open>row_update\<close> (an update that keeps the primary key) and
    \<open>invariant_system\<close> (a step relation with an invariant).
  \<^item> \<open>Enums\<close>, \<open>Schema\<close>, \<open>Repositories\<close>: \<^verbatim>\<open>enum.ts\<close>, \<^verbatim>\<open>types.ts\<close>, \<^verbatim>\<open>schema/\<close>,
    \<^verbatim>\<open>migrations/\<close> (constraints and cascades) and the SQL of the repositories.
  \<^item> \<open>AuditLog\<close>: recording, retention sweep, flush. Never-delete rows survive everything but an
    explicit flush.
  \<^item> \<open>StorageKeys\<close>, \<open>Quota\<close>, \<open>Upload\<close>: the key scheme and its separation of events; the
    limits and guards as the locale \<open>quota_guard\<close>, interpreted for bytes and for events; the
    upload with its race on the unique index. No orphaned object, no duplicate, no sequence of
    uploads over the limit, preflight and upload agree.
  \<^item> \<open>GpuLifecycle\<close>, \<open>GpuPolicy\<close>: \<^verbatim>\<open>gpu-lifecycle.service.ts\<close> as a state machine with its
    in-process caches and the commands it sends. Never cut a batch short, never start twice, stop an
    idle box, adopt a runaway one, and where the heartbeat and the instance cache break the rules.
  \<^item> \<open>Auth\<close>, \<open>Organization\<close>, \<open>OrgReports\<close>: guard, sessions, password flows; organizations,
    members, plans, usage reports and notifications.
  \<^item> \<open>Events\<close>, \<open>EventExpiry\<close>, \<open>Cleanup\<close>: the life of an event from creation to purge, as a
    transition system with an invariant, and the jobs that delete what is left.
  \<^item> \<open>Cloud\<close>, \<open>Import\<close>, \<open>ImportPolicy\<close>: connected drives, their OAuth state and tokens, the
    folder listing and the file import. A file job settles its item once, the listing ends on finite
    trees, a re-sync imports nothing; and how a cancel, the storage limit and an overlapping import are
    missed.
  \<^item> \<open>People\<close>, \<open>Faces\<close>, \<open>FacePolicy\<close>: person clusters and their names; detection, clustering
    and portraits. Clusters never cross an event, names follow the latest act, a merge loses no photo,
    crops stay inside the image; and how a resized preview loses people.
  \<^item> \<open>Participants\<close>, \<open>ParticipantPolicy\<close>: guests, their selfies and their matches. Matching is
    the union over the selfies, stays inside the event and settles; selfies go thirty days after the
    event; and what an erasure leaves behind.
  \<^item> \<open>Assets\<close>, \<open>AssetPolicy\<close>: the paged gallery, face boxes, zips, deletion and derivatives. The
    cursor walk lists every dated photo once, and undated photos cut it short; zip names never
    collide; boxes stay on the image; derivatives are backed by objects.
  \<^item> \<open>RateLimiter\<close>: the sliding window of the selfie intake as a refinement of one that forgets
    nothing (locale \<open>window_limiter\<close>).
  \<^item> \<open>Jobs\<close>: \<^verbatim>\<open>job.repository.ts\<close> and the decorators: the registry of handlers, crons, job
    options, grouped hand-over, waiting positions, kill and wait. Every job has one handler, each job is
    handed over once, and a finished job makes a kill stop half way.
  \<^item> \<open>SelfieProgress\<close>, \<open>PublicGallery\<close>, \<open>PublicPolicy\<close>: the guests' side: landing page, selfie
    intake, progress ticket, gallery, downloads and zips. The routes behind a token share the locale
    \<open>gallery_route\<close>; a token downloads what its guest is entitled to and nothing more, the
    intake is limited however requests interleave; and what a second submission leaves behind.
  \<^item> \<open>Notifications\<close>, \<open>NotificationPolicy\<close>: the mail jobs with their log, and the provider's
    signed webhook. Digests keep their distance in every interleaving, the mailed link opens the gallery,
    delivery reports converge; and how a resend locks a guest out.
  \<^item> \<open>MachineLearning\<close>, \<open>SimilarPhotos\<close>: the client of the ML servers with its health map and
    failover; embeddings, their backfill and the search for similar photos. A working server is found,
    the backfill leaves no gap, the search stays inside the event.
  \<^item> \<open>Support\<close>: support messages and the inbox. A message never depends on the mail, and the history
    survives the deletion of its event.
  \<^item> \<open>Config\<close>: \<^verbatim>\<open>config.repository.ts\<close> and \<^verbatim>\<open>env.dto.ts\<close>: from the environment to roles,
    queues, Redis, database and mail settings. The documented fleet gives every queue one consumer,
    remote databases are encrypted; and how a misspelt exclusion is ignored.
  \<^item> \<open>Admin\<close>: \<^verbatim>\<open>admin.service.ts\<close>: statistics, queue panel, queue actions and settings. The
    statistics reveal no content and add up until an organization is removed, settings stay in
    bounds, an action reaches one queue.
  \<^item> \<open>ObjectStore\<close>, \<open>CloudProviders\<close>: what the rest takes as one step or as an argument, down to
    the requests: deletion in batches and by pages (\<^verbatim>\<open>storage.repository.ts\<close>), the clients of both
    drives and their registry (\<^verbatim>\<open>cloud-providers/\<close>). The loops refine the one step, a rate limit is
    honoured to the second; and how refused keys and outages are handled.
  \<^item> \<open>Routes\<close>: \<^verbatim>\<open>controllers/\<close> and \<^verbatim>\<open>auth.guard.ts\<close>: the route table, and a request from its
    path through the guard to its handler. Events belong to members, the admin area is closed, and which
    routes are open.
  \<^item> \<open>BrowserUploads\<close>: \<^verbatim>\<open>apps/web/src/lib/uploads.svelte.ts\<close>, the upload queue of the browser as a
    transition system with an invariant. Leaving is warned of exactly when it loses something, and
    every upload settles.
  \<^item> \<open>WebClient\<close>: \<^verbatim>\<open>apps/web/src/lib/api.ts\<close>: the table of the client's calls against the route
    table, answers and the password form. Every call reaches the handler it means; and how a changed
    password is reported as a failure. A handler without result answers with an empty body, as the
    framework does.
  \<^item> \<open>Timeline\<close>: \<^verbatim>\<open>justified.ts\<close> and \<^verbatim>\<open>PhotoTimeline.svelte\<close>, the photo wall: days, justified rows,
    clicks. Every photo once, rows fill the width and nothing overlaps; and how arrivals move a selection.
  \<^item> \<open>Telemetry\<close>: \<^verbatim>\<open>telemetry.repository.ts\<close>: samples of the hosts under expiring keys. The panel
    shows exactly the living processes; and how a late sample leaves a ghost.

  \<^bold>\<open>Bounds and fuel.\<close> Every function is total. Three loops may run forever: the folder listing of an
  import, whose remote folder graph may be cyclic (\<open>Import.list_loop\<close> takes one unit of fuel per
  page and answers \<open>None\<close> while pages are left), the wait for the queues, a partial function
  into options whose value \<open>None\<close> says that it polls forever, and the deletion of a prefix
  (\<open>ObjectStore.prefix_loop\<close>), which takes one unit of fuel per page; one more than there are objects
  is enough. The sweeps of the event expiry handle at most a hundred events per run, as their
  queries do.

  \<^bold>\<open>Not modelled.\<close> The framework's validation of bodies and the OpenAPI layer, mail templates, what
  the ML service, the vector index and the image decoder compute (parameters; coordinates and distances
  are reals, without the host's rounding), presigned URLs, BullMQ (a queue is what
  was handed to it) and the pages of the web application but its client, upload queue and photo wall
  (presentation). Timestamps are integers of milliseconds with one clock reading per handler.
\<close>

end
